(* ===== verification/Prelude.thy ===== *)
theory Prelude
  imports Complex_Main "HOL-Library.Word" "HOL-Library.Monad_Syntax"
begin

text \<open>
  Shared vocabulary of the development: the C integer types as words, byte buffers with
  checked accesses, and the generic list and word lemmas the components use.

  Conventions. A C function is a HOL function whose result is an \<open>option\<close> when the C code can
  abort: \<open>None\<close> stands for a failed \<^verbatim>\<open>assert()\<close>, an access outside an allocated buffer or a read
  of an uninitialised cell. An error the C code handles (a \<^verbatim>\<open>false\<close> or \<^verbatim>\<open>-1\<close> result) is a value
  under \<open>Some\<close>. Whether an allocation succeeds is an argument of the definitions that allocate.
\<close>

unbundle bit_operations_syntax

named_theorems mem_simps
named_theorems enc_simps

type_synonym u8 = "8 word"
type_synonym u16 = "16 word"
type_synonym u32 = "32 word"
type_synonym u64 = "64 word"
type_synonym byte_buf = "u8 list"

section \<open>Checked buffers\<close>

definition mem_get :: "nat \<Rightarrow> 'a list \<Rightarrow> 'a option" where
  "mem_get i b = (if i < length b then Some (b ! i) else None)"

definition mem_set :: "nat \<Rightarrow> 'a \<Rightarrow> 'a list \<Rightarrow> 'a list option" where
  "mem_set i x b = (if i < length b then Some (b[i := x]) else None)"

text \<open>\<open>memcpy(b + off, xs, length xs)\<close>: all of the destination range must be inside the buffer.\<close>

definition mem_write :: "nat \<Rightarrow> 'a list \<Rightarrow> 'a list \<Rightarrow> 'a list option" where
  "mem_write off xs b =
     (if off + length xs \<le> length b
      then Some (take off b @ xs @ drop (off + length xs) b) else None)"

text \<open>\<open>memcpy(dst, b + off, n)\<close>, as the bytes copied.\<close>

definition mem_read :: "nat \<Rightarrow> nat \<Rightarrow> 'a list \<Rightarrow> 'a list option" where
  "mem_read off n b = (if off + n \<le> length b then Some (take n (drop off b)) else None)"

definition c_assert :: "bool \<Rightarrow> unit option" where
  "c_assert P = (if P then Some () else None)"

lemma c_assert_simps [simp]: "c_assert True = Some ()" "c_assert False = None"
  by (simp_all add: c_assert_def)

lemma c_assert_eq_Some [simp]: "c_assert P = Some u \<longleftrightarrow> P"
  by (simp add: c_assert_def)

lemma mem_get_in [mem_simps]: "i < length b \<Longrightarrow> mem_get i b = Some (b ! i)"
  by (simp add: mem_get_def)

lemma mem_set_in [mem_simps]: "i < length b \<Longrightarrow> mem_set i x b = Some (b[i := x])"
  by (simp add: mem_set_def)

lemma mem_get_append [mem_simps]: "mem_get (length xs) (xs @ y # ys) = Some y"
  by (simp add: mem_get_def)

lemma mem_write_length: "mem_write off xs b = Some b' \<Longrightarrow> length b' = length b"
  by (auto simp: mem_write_def split: if_splits)

lemma mem_write_in [mem_simps]:
  "off + length xs \<le> length b \<Longrightarrow>
   mem_write off xs b = Some (take off b @ xs @ drop (off + length xs) b)"
  by (simp add: mem_write_def)

lemma mem_read_in [mem_simps]:
  "off + n \<le> length b \<Longrightarrow> mem_read off n b = Some (take n (drop off b))"
  by (simp add: mem_read_def)

lemma mem_read_length: "mem_read off n b = Some xs \<Longrightarrow> length xs = n"
  by (auto simp: mem_read_def split: if_splits)

text \<open>Single stores at consecutive places are one block write.\<close>

lemma mem_set_eq_write: "mem_set i x b = mem_write i [x] b"
  by (auto simp: mem_set_def mem_write_def upd_conv_take_nth_drop)

lemma mem_write_write:
  "n = off + length xs \<Longrightarrow>
   Option.bind (mem_write off xs b) (mem_write n ys) = mem_write off (xs @ ys) b"
  by (auto simp: mem_write_def ac_simps)

lemma mem_write_Nil [simp]: "mem_write off [] b = (if off \<le> length b then Some b else None)"
  by (simp add: mem_write_def)

section \<open>Options and lists\<close>

lemma bind_Some_iff:
  "Option.bind m f = Some y \<longleftrightarrow> (\<exists>x. m = Some x \<and> f x = Some y)"
  by (cases m) auto

lemma ex_bool_simps [simp]: "\<exists>b::bool. b" "\<exists>b::bool. \<not> b"
  by blast+

lemma takeWhile_split:
  "xs = takeWhile P xs @ dropWhile P xs"
  by simp

lemma take_length_append [simp]: "take (length xs) (xs @ ys) = xs"
  by simp

lemma drop_length_append [simp]: "drop (length xs) (xs @ ys) = ys"
  by simp

text \<open>Flags, one bit each, collected by bitwise or.\<close>

lemma flag_bit: "k < 32 \<Longrightarrow> f = 2 ^ k \<Longrightarrow> bit (f :: 32 word) n \<longleftrightarrow> n = k"
  by (auto simp: bit_exp_iff)

lemma or_if_bit: "bit (if c then m OR a else m) n \<longleftrightarrow> bit m n \<or> c \<and> bit (a :: 32 word) n"
  by (auto simp: bit_or_iff)

end
