(* ===== verification/Binary.thy ===== *)
theory Binary
  imports Prelude
begin

text \<open>
  \<^verbatim>\<open>app/src/util/binary.h\<close>: big- and little-endian accesses to byte buffers and the conversion
  of floats to 16-bit fixed point. A pointer into a buffer is the buffer and an offset.
\<close>

section \<open>Writers\<close>

definition sc_write16be :: "nat \<Rightarrow> u16 \<Rightarrow> byte_buf \<Rightarrow> byte_buf option" where
  "sc_write16be off value buf = do {
     buf \<leftarrow> mem_set off (ucast (drop_bit 8 value)) buf;
     mem_set (off + 1) (ucast value) buf
   }"

definition sc_write16le :: "nat \<Rightarrow> u16 \<Rightarrow> byte_buf \<Rightarrow> byte_buf option" where
  "sc_write16le off value buf = do {
     buf \<leftarrow> mem_set off (ucast value) buf;
     mem_set (off + 1) (ucast (drop_bit 8 value)) buf
   }"

definition sc_write32be :: "nat \<Rightarrow> u32 \<Rightarrow> byte_buf \<Rightarrow> byte_buf option" where
  "sc_write32be off value buf = do {
     buf \<leftarrow> mem_set off (ucast (drop_bit 24 value)) buf;
     buf \<leftarrow> mem_set (off + 1) (ucast (drop_bit 16 value)) buf;
     buf \<leftarrow> mem_set (off + 2) (ucast (drop_bit 8 value)) buf;
     mem_set (off + 3) (ucast value) buf
   }"

definition sc_write32le :: "nat \<Rightarrow> u32 \<Rightarrow> byte_buf \<Rightarrow> byte_buf option" where
  "sc_write32le off value buf = do {
     buf \<leftarrow> mem_set off (ucast value) buf;
     buf \<leftarrow> mem_set (off + 1) (ucast (drop_bit 8 value)) buf;
     buf \<leftarrow> mem_set (off + 2) (ucast (drop_bit 16 value)) buf;
     mem_set (off + 3) (ucast (drop_bit 24 value)) buf
   }"

definition sc_write64be :: "nat \<Rightarrow> u64 \<Rightarrow> byte_buf \<Rightarrow> byte_buf option" where
  "sc_write64be off value buf = do {
     buf \<leftarrow> sc_write32be off (ucast (drop_bit 32 value)) buf;
     sc_write32be (off + 4) (ucast value) buf
   }"

definition sc_write64le :: "nat \<Rightarrow> u64 \<Rightarrow> byte_buf \<Rightarrow> byte_buf option" where
  "sc_write64le off value buf = do {
     buf \<leftarrow> sc_write32le off (ucast value) buf;
     sc_write32le (off + 4) (ucast (drop_bit 32 value)) buf
   }"

section \<open>Readers\<close>

definition sc_read16be :: "nat \<Rightarrow> byte_buf \<Rightarrow> u16 option" where
  "sc_read16be off buf = do {
     b0 \<leftarrow> mem_get off buf;
     b1 \<leftarrow> mem_get (off + 1) buf;
     Some (push_bit 8 (ucast b0) OR ucast b1)
   }"

definition sc_read32be :: "nat \<Rightarrow> byte_buf \<Rightarrow> u32 option" where
  "sc_read32be off buf = do {
     b0 \<leftarrow> mem_get off buf;
     b1 \<leftarrow> mem_get (off + 1) buf;
     b2 \<leftarrow> mem_get (off + 2) buf;
     b3 \<leftarrow> mem_get (off + 3) buf;
     Some (push_bit 24 (ucast b0) OR push_bit 16 (ucast b1) OR push_bit 8 (ucast b2) OR ucast b3)
   }"

definition sc_read64be :: "nat \<Rightarrow> byte_buf \<Rightarrow> u64 option" where
  "sc_read64be off buf = do {
     msb \<leftarrow> sc_read32be off buf;
     lsb \<leftarrow> sc_read32be (off + 4) buf;
     Some (push_bit 32 (ucast msb) OR ucast lsb)
   }"

section \<open>Fixed-point floats\<close>

text \<open>
  A finite float is its rational value. The products by \<open>2^16\<close> and \<open>2^15\<close> are exact in binary
  floating point, and the conversion to an integer truncates towards zero.
\<close>

definition trunc_rat :: "rat \<Rightarrow> int" where
  "trunc_rat q = (if q < 0 then - \<lfloor>- q\<rfloor> else \<lfloor>q\<rfloor>)"

definition sc_float_to_u16fp :: "rat \<Rightarrow> u16 option" where
  "sc_float_to_u16fp f = do {
     c_assert (0 \<le> f \<and> f \<le> 1);
     let u = trunc_rat (f * 2 ^ 16);
     if u \<ge> 0xffff then do {
       c_assert (u = 0x10000);
       Some 0xffff
     } else Some (word_of_int u)
   }"

definition sc_float_to_i16fp :: "rat \<Rightarrow> 16 word option" where
  "sc_float_to_i16fp f = do {
     c_assert (- 1 \<le> f \<and> f \<le> 1);
     let i = trunc_rat (f * 2 ^ 15);
     c_assert (i \<ge> - 0x8000);
     if i \<ge> 0x7fff then do {
       c_assert (i = 0x8000);
       Some 0x7fff
     } else Some (word_of_int i)
   }"

section \<open>Byte sequences of the fixed-width writers\<close>

definition be16 :: "u16 \<Rightarrow> byte_buf" where
  "be16 v = [ucast (drop_bit 8 v), ucast v]"

definition be32 :: "u32 \<Rightarrow> byte_buf" where
  "be32 v = [ucast (drop_bit 24 v), ucast (drop_bit 16 v), ucast (drop_bit 8 v), ucast v]"

definition be64 :: "u64 \<Rightarrow> byte_buf" where
  "be64 v = be32 (ucast (drop_bit 32 v)) @ be32 (ucast v)"

definition le16 :: "u16 \<Rightarrow> byte_buf" where
  "le16 v = rev (be16 v)"

definition le32 :: "u32 \<Rightarrow> byte_buf" where
  "le32 v = rev (be32 v)"

definition le64 :: "u64 \<Rightarrow> byte_buf" where
  "le64 v = rev (be64 v)"

lemma length_be [simp]:
  "length (be16 v) = 2" "length (be32 w) = 4" "length (be64 x) = 8"
  "length (le16 v) = 2" "length (le32 w) = 4" "length (le64 x) = 8"
  by (simp_all add: be16_def be32_def be64_def le16_def le32_def le64_def)

lemmas be_defs = be16_def be32_def be64_def le16_def le32_def le64_def

lemma sc_write16be_eq [mem_simps]: "sc_write16be off v b = mem_write off (be16 v) b"
  by (simp add: sc_write16be_def be16_def mem_set_eq_write mem_write_write)

lemma sc_write16le_eq [mem_simps]: "sc_write16le off v b = mem_write off (le16 v) b"
  by (simp add: sc_write16le_def le16_def be16_def mem_set_eq_write mem_write_write)

lemma sc_write32be_eq [mem_simps]: "sc_write32be off v b = mem_write off (be32 v) b"
  by (simp add: sc_write32be_def be32_def mem_set_eq_write mem_write_write Option.bind_assoc [symmetric])

lemma sc_write32le_eq [mem_simps]: "sc_write32le off v b = mem_write off (le32 v) b"
  by (simp add: sc_write32le_def le32_def be32_def mem_set_eq_write mem_write_write Option.bind_assoc [symmetric])

lemma sc_write64be_eq [mem_simps]: "sc_write64be off v b = mem_write off (be64 v) b"
  by (simp add: sc_write64be_def be64_def sc_write32be_eq mem_write_write)

lemma sc_write64le_eq [mem_simps]: "sc_write64le off v b = mem_write off (le64 v) b"
  by (simp add: sc_write64le_def le64_def be64_def sc_write32le_eq le32_def mem_write_write)

lemma join16: "push_bit 8 (ucast (ucast (drop_bit 8 v :: u16) :: u8)) OR ucast (ucast v :: u8) = v"
  by (rule bit_word_eqI) (auto simp: bit_simps)

lemma join32:
  "push_bit 24 (ucast (ucast (drop_bit 24 v :: u32) :: u8)) OR push_bit 16 (ucast (ucast (drop_bit 16 v) :: u8))
   OR push_bit 8 (ucast (ucast (drop_bit 8 v) :: u8)) OR ucast (ucast v :: u8) = v" (is "?w = v")
proof (rule bit_word_eqI)
  fix n assume "n < LENGTH(32)"
  then consider "n < 8" | "8 \<le> n" "n < 16" | "16 \<le> n" "n < 24" | "24 \<le> n" "n < 32"
    by fastforce
  then show "bit ?w n = bit v n"
    by cases (auto simp: bit_simps)
qed

lemma join64: "push_bit 32 (ucast (ucast (drop_bit 32 v :: u64) :: u32)) OR ucast (ucast v :: u32) = v"
  by (rule bit_word_eqI) (auto simp: bit_simps)

lemma sc_read16be_at [enc_simps]: "off = length xs \<Longrightarrow> sc_read16be off (xs @ be16 v @ ys) = Some v"
  by (simp add: sc_read16be_def be16_def mem_get_def nth_append join16)

lemma sc_read32be_at [enc_simps]: "off = length xs \<Longrightarrow> sc_read32be off (xs @ be32 v @ ys) = Some v"
  by (simp add: sc_read32be_def be32_def mem_get_def nth_append join32)

lemma sc_read64be_at [enc_simps]: "off = length xs \<Longrightarrow> sc_read64be off (xs @ be64 v @ ys) = Some v"
  using sc_read32be_at [of off xs "ucast (drop_bit 32 v)" "be32 (ucast v) @ ys"]
    sc_read32be_at [of "off + 4" "xs @ be32 (ucast (drop_bit 32 v))" "ucast v" ys]
  by (simp add: sc_read64be_def be64_def join64)

section \<open>Behaviour of the fixed-point conversions\<close>

lemma trunc_rat_nonneg: "0 \<le> q \<Longrightarrow> trunc_rat q = \<lfloor>q\<rfloor>"
  by (simp add: trunc_rat_def)

lemma trunc_rat_neg: "q < 0 \<Longrightarrow> trunc_rat q = \<lceil>q\<rceil>"
  by (simp add: trunc_rat_def ceiling_def)

lemma u16fp_below:
  assumes "0 \<le> f" "f < 65535 / 65536"
  shows "sc_float_to_u16fp f = Some (word_of_int \<lfloor>f * 65536\<rfloor>)"
proof -
  have "\<lfloor>f * 65536\<rfloor> < 65535" using assms by (simp add: floor_less_iff)
  with assms show ?thesis by (simp add: sc_float_to_u16fp_def trunc_rat_nonneg)
qed

lemma u16fp_one: "sc_float_to_u16fp 1 = Some 0xffff"
  by (simp add: sc_float_to_u16fp_def trunc_rat_nonneg)

lemma u16fp_gap:
  assumes "65535 / 65536 \<le> f" "f < 1"
  shows "sc_float_to_u16fp f = None"
proof -
  have "\<lfloor>f * 65536\<rfloor> = 65535" using assms by (simp add: floor_eq_iff)
  with assms show ?thesis by (simp add: sc_float_to_u16fp_def trunc_rat_nonneg)
qed

text \<open>The pressures a touch event can carry without stopping on an assertion.\<close>

definition u16fp_ok :: "rat \<Rightarrow> bool" where
  "u16fp_ok f \<longleftrightarrow> 0 \<le> f \<and> f \<le> 1 \<and> (f < 65535 / 65536 \<or> f = 1)"

definition u16fp :: "rat \<Rightarrow> u16" where
  "u16fp f = (if f = 1 then 0xffff else word_of_int \<lfloor>f * 65536\<rfloor>)"

lemma u16fp_iff: "sc_float_to_u16fp f = (if u16fp_ok f then Some (u16fp f) else None)"
proof -
  consider "f < 0 \<or> 1 < f" | "0 \<le> f" "f < 65535 / 65536" | "65535 / 65536 \<le> f" "f < 1" | "f = 1"
    by linarith
  then show ?thesis
  proof cases
    case 1
    then show ?thesis by (auto simp: sc_float_to_u16fp_def u16fp_ok_def)
  next
    case 2
    then have "f \<noteq> 1" by auto
    with 2 show ?thesis by (simp add: u16fp_below u16fp_ok_def u16fp_def)
  next
    case 3
    then show ?thesis by (auto simp: u16fp_gap u16fp_ok_def)
  next
    case 4
    then show ?thesis by (simp add: u16fp_one u16fp_ok_def u16fp_def)
  qed
qed

definition i16fp_ok :: "rat \<Rightarrow> bool" where
  "i16fp_ok f \<longleftrightarrow> - 1 \<le> f \<and> (f < 32767 / 32768 \<or> f = 1)"

definition i16fp :: "rat \<Rightarrow> u16" where
  "i16fp f = (if f = 1 then 0x7fff else word_of_int (trunc_rat (f * 32768)))"

lemma trunc_rat_bounds: "\<bar>of_int (trunc_rat q) - q\<bar> < 1" "\<bar>of_int (trunc_rat q)\<bar> \<le> \<bar>q\<bar>"
  by (simp_all add: trunc_rat_def) linarith+

lemma trunc_rat_mono_ge: "of_int n \<le> q \<Longrightarrow> n \<le> 0 \<Longrightarrow> n \<le> trunc_rat q"
  by (auto simp: trunc_rat_def le_floor_iff floor_le_iff) linarith+

lemma i16fp_iff: "sc_float_to_i16fp f = (if i16fp_ok f then Some (i16fp f) else None)"
proof -
  consider "f < - 1 \<or> 1 < f" | "- 1 \<le> f" "f < 32767 / 32768" | "32767 / 32768 \<le> f" "f < 1" | "f = 1"
    by linarith
  then show ?thesis
  proof cases
    case 1
    then show ?thesis by (auto simp: sc_float_to_i16fp_def i16fp_ok_def)
  next
    case 2
    then have "trunc_rat (f * 32768) < 32767"
      by (auto simp: trunc_rat_def floor_less_iff) linarith
    moreover have "- 32768 \<le> trunc_rat (f * 32768)"
      using 2 by (intro trunc_rat_mono_ge) auto
    ultimately show ?thesis
      using 2 by (auto simp: sc_float_to_i16fp_def i16fp_ok_def i16fp_def)
  next
    case 3
    then have "trunc_rat (f * 32768) = 32767"
      by (simp add: trunc_rat_nonneg floor_eq_iff)
    with 3 show ?thesis by (auto simp: sc_float_to_i16fp_def i16fp_ok_def)
  next
    case 4
    then show ?thesis by (simp add: sc_float_to_i16fp_def i16fp_ok_def i16fp_def trunc_rat_nonneg)
  qed
qed

end
