(* ===== verification/Str.thy ===== *)
theory Str
  imports Prelude
begin

text \<open>
  \<^verbatim>\<open>app/src/util/str.c\<close>. A C string is the list of its bytes before the terminating NUL, so
  \<^verbatim>\<open>strlen\<close> is \<open>length\<close> and reading the byte at index \<open>length s\<close> gives 0.
\<close>

section \<open>Truncation at a code point boundary\<close>

text \<open>The loop of \<^verbatim>\<open>sc_str_utf8_truncation_index\<close>; \<^verbatim>\<open>len--\<close> at 0 wraps, and the next read is
  outside the string.\<close>

definition utf8_continuation :: "u8 \<Rightarrow> bool" where
  "utf8_continuation b \<longleftrightarrow> b AND 0x80 \<noteq> 0 \<and> b AND 0xc0 \<noteq> 0xc0"

fun utf8_truncation_loop :: "byte_buf \<Rightarrow> nat \<Rightarrow> nat option" where
  "utf8_truncation_loop s 0 = do {
     b \<leftarrow> mem_get 0 s;
     if utf8_continuation b then None else Some 0
   }"
| "utf8_truncation_loop s (Suc len) = do {
     b \<leftarrow> mem_get (Suc len) s;
     if utf8_continuation b then utf8_truncation_loop s len else Some (Suc len)
   }"

definition sc_str_utf8_truncation_index :: "byte_buf \<Rightarrow> nat \<Rightarrow> nat option" where
  "sc_str_utf8_truncation_index utf8 max_len =
     (let len = length utf8 in
      if len \<le> max_len then Some len else utf8_truncation_loop utf8 max_len)"

lemma utf8_truncation_loop_Some:
  "utf8_truncation_loop s n = Some i \<Longrightarrow>
   i \<le> n \<and> i < length s \<and> \<not> utf8_continuation (s ! i) \<and>
   (\<forall>j. i < j \<and> j \<le> n \<longrightarrow> utf8_continuation (s ! j))"
proof (induction s n rule: utf8_truncation_loop.induct)
  case (1 s)
  then show ?case by (auto simp: mem_get_def split: if_splits)
next
  case (2 s len)
  show ?case
  proof (cases "utf8_continuation (s ! Suc len)")
    case True
    with 2 have "utf8_truncation_loop s len = Some i" "Suc len < length s"
      by (auto simp: mem_get_def split: if_splits)
    with 2(1) [OF _ True] True show ?thesis
      by (auto simp: mem_get_def le_Suc_eq)
  next
    case False
    with 2(2) show ?thesis by (auto simp: mem_get_def split: if_splits)
  qed
qed

lemma utf8_truncation_loop_total:
  "n < length s \<Longrightarrow> j \<le> n \<Longrightarrow> \<not> utf8_continuation (s ! j) \<Longrightarrow>
   \<exists>i. utf8_truncation_loop s n = Some i"
  by (induction s n rule: utf8_truncation_loop.induct) (auto simp: mem_get_def le_Suc_eq)

text \<open>A string whose first byte starts a code point: every well-formed UTF-8 string.\<close>

definition utf8_start_ok :: "byte_buf \<Rightarrow> bool" where
  "utf8_start_ok s \<longleftrightarrow> (case s of [] \<Rightarrow> True | b # _ \<Rightarrow> \<not> utf8_continuation b)"

lemma truncation_index_Some:
  assumes "utf8_start_ok s"
  obtains i where "sc_str_utf8_truncation_index s m = Some i" "i \<le> m" "i \<le> length s"
proof (cases "length s \<le> m")
  case True
  with that show ?thesis by (simp add: sc_str_utf8_truncation_index_def)
next
  case False
  with assms have "\<not> utf8_continuation (s ! 0)" by (auto simp: utf8_start_ok_def split: list.splits)
  with False obtain i where "utf8_truncation_loop s m = Some i"
    using utf8_truncation_loop_total [of m s 0] by auto
  with False that utf8_truncation_loop_Some [OF this] show ?thesis
    by (auto simp: sc_str_utf8_truncation_index_def)
qed

section \<open>Properties\<close>

text \<open>Truncating a UTF-8 text: for a text whose first byte starts a code point, the index returned
  is at most the limit and the length, is a code point boundary (the end of the text, or a byte that is
  not a continuation byte), and is the largest such index.\<close>

theorem utf8_truncation_maximal:
  assumes "utf8_start_ok s"
  shows "\<exists>i. sc_str_utf8_truncation_index s n = Some i \<and> i \<le> n \<and> i \<le> length s \<and>
           (i = length s \<or> \<not> utf8_continuation (s ! i)) \<and>
           (\<forall>j. i < j \<and> j \<le> min n (length s) \<longrightarrow> j < length s \<and> utf8_continuation (s ! j))"
proof -
  obtain i where i: "sc_str_utf8_truncation_index s n = Some i" "i \<le> n" "i \<le> length s"
    using truncation_index_Some [OF assms] by blast
  show ?thesis
  proof (cases "length s \<le> n")
    case True
    with i show ?thesis by (auto simp: sc_str_utf8_truncation_index_def)
  next
    case False
    with i have "utf8_truncation_loop s n = Some i" by (simp add: sc_str_utf8_truncation_index_def)
    from utf8_truncation_loop_Some [OF this] i False show ?thesis by auto
  qed
qed

theorem utf8_truncation_maximal_witness:
  "\<exists>i. sc_str_utf8_truncation_index [0x61, 0xc3, 0xa9, 0x62] 2 = Some i \<and>
       (i = 4 \<or> \<not> utf8_continuation ([0x61, 0xc3, 0xa9, 0x62] ! i)) \<and> i \<le> 2"
proof -
  have h: "utf8_start_ok [0x61, 0xc3, 0xa9, 0x62]" by (simp add: utf8_start_ok_def utf8_continuation_def)
  from utf8_truncation_maximal [OF h, of 2] show ?thesis by auto
qed

end
