(* ===== verification/ControlMsg.thy ===== *)
theory ControlMsg
  imports Binary Str
begin

text \<open>
  \<^verbatim>\<open>app/src/control_msg.h\<close>, \<^verbatim>\<open>app/src/control_msg.c\<close>, \<^verbatim>\<open>app/src/coords.h\<close>: the messages the client
  sends to the device, and their serialisation into a buffer of \<^verbatim>\<open>SC_CONTROL_MSG_MAX_SIZE\<close> bytes.
  An owned \<^verbatim>\<open>char *\<close> that may be NULL is a \<open>byte_buf option\<close>; enum values are 32-bit words, as they
  reach the serialiser.
\<close>

section \<open>Data\<close>

definition SC_CONTROL_MSG_MAX_SIZE :: nat where
  "SC_CONTROL_MSG_MAX_SIZE = 2 ^ 18"

definition SC_CONTROL_MSG_INJECT_TEXT_MAX_LENGTH :: nat where
  "SC_CONTROL_MSG_INJECT_TEXT_MAX_LENGTH = 300"

definition SC_CONTROL_MSG_CLIPBOARD_TEXT_MAX_LENGTH :: nat where
  "SC_CONTROL_MSG_CLIPBOARD_TEXT_MAX_LENGTH = SC_CONTROL_MSG_MAX_SIZE - 14"

definition SC_CONTROL_MSG_SCAN_FILE_PATH_MAX_LENGTH :: nat where
  "SC_CONTROL_MSG_SCAN_FILE_PATH_MAX_LENGTH = 256"

definition SC_HID_MAX_SIZE :: nat where
  "SC_HID_MAX_SIZE = 15"

lemmas msg_limits = SC_CONTROL_MSG_MAX_SIZE_def SC_CONTROL_MSG_INJECT_TEXT_MAX_LENGTH_def
  SC_CONTROL_MSG_CLIPBOARD_TEXT_MAX_LENGTH_def SC_CONTROL_MSG_SCAN_FILE_PATH_MAX_LENGTH_def
  SC_HID_MAX_SIZE_def

record sc_size =
  width :: u16
  height :: u16

record sc_point =
  point_x :: u32
  point_y :: u32

record sc_position =
  screen_size :: sc_size
  point :: sc_point

datatype sc_copy_key = SC_COPY_KEY_NONE | SC_COPY_KEY_COPY | SC_COPY_KEY_CUT

fun copy_key_value :: "sc_copy_key \<Rightarrow> u8" where
  "copy_key_value SC_COPY_KEY_NONE = 0"
| "copy_key_value SC_COPY_KEY_COPY = 1"
| "copy_key_value SC_COPY_KEY_CUT = 2"

text \<open>
  The tagged union \<^verbatim>\<open>struct sc_control_msg\<close>. \<open>UNKNOWN_TYPE\<close> is a message whose \<^verbatim>\<open>type\<close> field holds
  a value outside the enum, the \<^verbatim>\<open>default\<close> case of the serialiser.
\<close>

datatype sc_control_msg =
    INJECT_KEYCODE (key_action: u32) (key_code: u32) (key_repeat: u32) (key_metastate: u32)
  | INJECT_TEXT (inj_text: "byte_buf option")
  | INJECT_TOUCH_EVENT (touch_action: u32) (touch_action_button: u32) (touch_buttons: u32)
      (pointer_id: u64) (touch_position: sc_position) (pressure: rat)
  | INJECT_SCROLL_EVENT (scroll_position: sc_position) (hscroll: rat) (vscroll: rat)
      (scroll_buttons: u32)
  | BACK_OR_SCREEN_ON (back_action: u32)
  | EXPAND_NOTIFICATION_PANEL
  | EXPAND_SETTINGS_PANEL
  | COLLAPSE_PANELS
  | GET_CLIPBOARD (copy_key: sc_copy_key)
  | SET_CLIPBOARD (clip_sequence: u64) (clip_text: "byte_buf option") (clip_paste: bool)
  | SET_DISPLAY_POWER (power_on: bool)
  | ROTATE_DEVICE
  | UHID_CREATE (create_id: u16) (vendor_id: u16) (product_id: u16) (uhid_name: "byte_buf option")
      (report_desc_size: u16) (report_desc: byte_buf)
  | UHID_INPUT (input_id: u16) (input_size: u16) (input_data: byte_buf)
  | UHID_DESTROY (destroy_id: u16)
  | OPEN_HARD_KEYBOARD_SETTINGS
  | START_APP (app_name: "byte_buf option")
  | RESET_VIDEO
  | CAMERA_SET_TORCH (torch_on: bool)
  | CAMERA_ZOOM_IN
  | CAMERA_ZOOM_OUT
  | RESIZE_DISPLAY (display_width: u16) (display_height: u16)
  | SCAN_FILE (file_path: "byte_buf option")
  | UNKNOWN_TYPE (raw_type: u32)

fun msg_type :: "sc_control_msg \<Rightarrow> u8" where
  "msg_type (INJECT_KEYCODE _ _ _ _) = 0"
| "msg_type (INJECT_TEXT _) = 1"
| "msg_type (INJECT_TOUCH_EVENT _ _ _ _ _ _) = 2"
| "msg_type (INJECT_SCROLL_EVENT _ _ _ _) = 3"
| "msg_type (BACK_OR_SCREEN_ON _) = 4"
| "msg_type EXPAND_NOTIFICATION_PANEL = 5"
| "msg_type EXPAND_SETTINGS_PANEL = 6"
| "msg_type COLLAPSE_PANELS = 7"
| "msg_type (GET_CLIPBOARD _) = 8"
| "msg_type (SET_CLIPBOARD _ _ _) = 9"
| "msg_type (SET_DISPLAY_POWER _) = 10"
| "msg_type ROTATE_DEVICE = 11"
| "msg_type (UHID_CREATE _ _ _ _ _ _) = 12"
| "msg_type (UHID_INPUT _ _ _) = 13"
| "msg_type (UHID_DESTROY _) = 14"
| "msg_type OPEN_HARD_KEYBOARD_SETTINGS = 15"
| "msg_type (START_APP _) = 16"
| "msg_type RESET_VIDEO = 17"
| "msg_type (CAMERA_SET_TORCH _) = 18"
| "msg_type CAMERA_ZOOM_IN = 19"
| "msg_type CAMERA_ZOOM_OUT = 20"
| "msg_type (RESIZE_DISPLAY _ _) = 21"
| "msg_type (SCAN_FILE _) = 22"
| "msg_type (UNKNOWN_TYPE t) = ucast t"

section \<open>Serialisation\<close>

definition write_position :: "nat \<Rightarrow> sc_position \<Rightarrow> byte_buf \<Rightarrow> byte_buf option" where
  "write_position off position buf = do {
     buf \<leftarrow> sc_write32be off (point_x (point position)) buf;
     buf \<leftarrow> sc_write32be (off + 4) (point_y (point position)) buf;
     buf \<leftarrow> sc_write16be (off + 8) (width (screen_size position)) buf;
     sc_write16be (off + 10) (height (screen_size position)) buf
   }"

definition write_string_payload ::
  "nat \<Rightarrow> byte_buf option \<Rightarrow> nat \<Rightarrow> byte_buf \<Rightarrow> (nat \<times> byte_buf) option" where
  "write_string_payload off utf8 max_len buf =
     (case utf8 of
        None \<Rightarrow> Some (0, buf)
      | Some s \<Rightarrow> do {
          len \<leftarrow> sc_str_utf8_truncation_index s max_len;
          buf \<leftarrow> mem_write off (take len s) buf;
          Some (len, buf)
        })"

definition write_string ::
  "nat \<Rightarrow> byte_buf option \<Rightarrow> nat \<Rightarrow> byte_buf \<Rightarrow> (nat \<times> byte_buf) option" where
  "write_string off utf8 max_len buf = do {
     (len, buf) \<leftarrow> write_string_payload (off + 4) utf8 max_len buf;
     buf \<leftarrow> sc_write32be off (of_nat len) buf;
     Some (4 + len, buf)
   }"

definition write_string_tiny ::
  "nat \<Rightarrow> byte_buf option \<Rightarrow> nat \<Rightarrow> byte_buf \<Rightarrow> (nat \<times> byte_buf) option" where
  "write_string_tiny off utf8 max_len buf = do {
     c_assert (max_len \<le> 0xFF);
     (len, buf) \<leftarrow> write_string_payload (off + 1) utf8 max_len buf;
     buf \<leftarrow> mem_set off (of_nat len) buf;
     Some (1 + len, buf)
   }"

definition scroll_norm :: "rat \<Rightarrow> rat" where
  "scroll_norm s = min (max (s / 16) (- 1)) 1"

definition serialize_uhid_create ::
  "u16 \<Rightarrow> u16 \<Rightarrow> u16 \<Rightarrow> byte_buf option \<Rightarrow> u16 \<Rightarrow> byte_buf \<Rightarrow> byte_buf \<Rightarrow> (nat \<times> byte_buf) option" where
  "serialize_uhid_create uid vid pid name desc_size desc buf = do {
     buf \<leftarrow> sc_write16be 1 uid buf;
     buf \<leftarrow> sc_write16be 3 vid buf;
     buf \<leftarrow> sc_write16be 5 pid buf;
     (n, buf) \<leftarrow> write_string_tiny 7 name 127 buf;
     let index = 7 + n;
     buf \<leftarrow> sc_write16be index desc_size buf;
     let index = index + 2;
     raw \<leftarrow> mem_read 0 (unat desc_size) desc;
     buf \<leftarrow> mem_write index raw buf;
     Some (index + unat desc_size, buf)
   }"

fun serialize_body :: "sc_control_msg \<Rightarrow> byte_buf \<Rightarrow> (nat \<times> byte_buf) option" where
  "serialize_body (INJECT_KEYCODE action keycode repeat metastate) buf = do {
     buf \<leftarrow> mem_set 1 (ucast action) buf;
     buf \<leftarrow> sc_write32be 2 keycode buf;
     buf \<leftarrow> sc_write32be 6 repeat buf;
     buf \<leftarrow> sc_write32be 10 metastate buf;
     Some (14, buf)
   }"
| "serialize_body (INJECT_TEXT text) buf = do {
     (len, buf) \<leftarrow> write_string 1 text SC_CONTROL_MSG_INJECT_TEXT_MAX_LENGTH buf;
     Some (1 + len, buf)
   }"
| "serialize_body (INJECT_TOUCH_EVENT action action_button buttons ptr position press) buf = do {
     buf \<leftarrow> mem_set 1 (ucast action) buf;
     buf \<leftarrow> sc_write64be 2 ptr buf;
     buf \<leftarrow> write_position 10 position buf;
     press \<leftarrow> sc_float_to_u16fp press;
     buf \<leftarrow> sc_write16be 22 press buf;
     buf \<leftarrow> sc_write32be 24 action_button buf;
     buf \<leftarrow> sc_write32be 28 buttons buf;
     Some (32, buf)
   }"
| "serialize_body (INJECT_SCROLL_EVENT position hs vs buttons) buf = do {
     buf \<leftarrow> write_position 1 position buf;
     h \<leftarrow> sc_float_to_i16fp (scroll_norm hs);
     v \<leftarrow> sc_float_to_i16fp (scroll_norm vs);
     buf \<leftarrow> sc_write16be 13 h buf;
     buf \<leftarrow> sc_write16be 15 v buf;
     buf \<leftarrow> sc_write32be 17 buttons buf;
     Some (21, buf)
   }"
| "serialize_body (BACK_OR_SCREEN_ON action) buf = do {
     buf \<leftarrow> mem_set 1 (ucast action) buf;
     Some (2, buf)
   }"
| "serialize_body (GET_CLIPBOARD ck) buf = do {
     buf \<leftarrow> mem_set 1 (copy_key_value ck) buf;
     Some (2, buf)
   }"
| "serialize_body (SET_CLIPBOARD sequence text paste) buf = do {
     buf \<leftarrow> sc_write64be 1 sequence buf;
     buf \<leftarrow> mem_set 9 (of_bool paste) buf;
     (len, buf) \<leftarrow> write_string 10 text SC_CONTROL_MSG_CLIPBOARD_TEXT_MAX_LENGTH buf;
     Some (10 + len, buf)
   }"
| "serialize_body (SET_DISPLAY_POWER on) buf = do {
     buf \<leftarrow> mem_set 1 (of_bool on) buf;
     Some (2, buf)
   }"
| "serialize_body (UHID_CREATE uid vid pid name desc_size desc) buf =
     serialize_uhid_create uid vid pid name desc_size desc buf"
| "serialize_body (UHID_INPUT uid sz data) buf = do {
     buf \<leftarrow> sc_write16be 1 uid buf;
     buf \<leftarrow> sc_write16be 3 sz buf;
     raw \<leftarrow> mem_read 0 (unat sz) data;
     buf \<leftarrow> mem_write 5 raw buf;
     Some (5 + unat sz, buf)
   }"
| "serialize_body (UHID_DESTROY uid) buf = do {
     buf \<leftarrow> sc_write16be 1 uid buf;
     Some (3, buf)
   }"
| "serialize_body (START_APP name) buf = do {
     (len, buf) \<leftarrow> write_string_tiny 1 name 255 buf;
     Some (1 + len, buf)
   }"
| "serialize_body (CAMERA_SET_TORCH on) buf = do {
     buf \<leftarrow> mem_set 1 (if on then 1 else 0) buf;
     Some (2, buf)
   }"
| "serialize_body (RESIZE_DISPLAY w h) buf = do {
     buf \<leftarrow> sc_write16be 1 w buf;
     buf \<leftarrow> sc_write16be 3 h buf;
     Some (5, buf)
   }"
| "serialize_body (SCAN_FILE path) buf = do {
     (len, buf) \<leftarrow> write_string 1 path SC_CONTROL_MSG_SCAN_FILE_PATH_MAX_LENGTH buf;
     Some (1 + len, buf)
   }"
| "serialize_body EXPAND_NOTIFICATION_PANEL buf = Some (1, buf)"
| "serialize_body EXPAND_SETTINGS_PANEL buf = Some (1, buf)"
| "serialize_body COLLAPSE_PANELS buf = Some (1, buf)"
| "serialize_body ROTATE_DEVICE buf = Some (1, buf)"
| "serialize_body OPEN_HARD_KEYBOARD_SETTINGS buf = Some (1, buf)"
| "serialize_body RESET_VIDEO buf = Some (1, buf)"
| "serialize_body CAMERA_ZOOM_IN buf = Some (1, buf)"
| "serialize_body CAMERA_ZOOM_OUT buf = Some (1, buf)"
| "serialize_body (UNKNOWN_TYPE _) buf = Some (0, buf)"

definition sc_control_msg_serialize :: "sc_control_msg \<Rightarrow> byte_buf \<Rightarrow> (nat \<times> byte_buf) option" where
  "sc_control_msg_serialize msg buf = do {
     buf \<leftarrow> mem_set 0 (msg_type msg) buf;
     serialize_body msg buf
   }"

fun sc_control_msg_is_droppable :: "sc_control_msg \<Rightarrow> bool" where
  "sc_control_msg_is_droppable (UHID_CREATE _ _ _ _ _ _) = False"
| "sc_control_msg_is_droppable (UHID_DESTROY _) = False"
| "sc_control_msg_is_droppable _ = True"

text \<open>The buffers \<^verbatim>\<open>sc_control_msg_destroy\<close> passes to \<^verbatim>\<open>free()\<close>: the owned strings of the message.\<close>

fun sc_control_msg_destroy :: "sc_control_msg \<Rightarrow> byte_buf option list" where
  "sc_control_msg_destroy (INJECT_TEXT text) = [text]"
| "sc_control_msg_destroy (SET_CLIPBOARD _ text _) = [text]"
| "sc_control_msg_destroy (START_APP name) = [name]"
| "sc_control_msg_destroy (SCAN_FILE path) = [path]"
| "sc_control_msg_destroy _ = []"

section \<open>The wire format\<close>

text \<open>What each message looks like on the control socket, as one byte sequence.\<close>

definition truncated :: "nat \<Rightarrow> byte_buf option \<Rightarrow> byte_buf" where
  "truncated m t =
     (case t of None \<Rightarrow> []
      | Some s \<Rightarrow> (case sc_str_utf8_truncation_index s m of None \<Rightarrow> [] | Some i \<Rightarrow> take i s))"

definition str_bytes :: "nat \<Rightarrow> byte_buf option \<Rightarrow> byte_buf" where
  "str_bytes m t = be32 (of_nat (length (truncated m t))) @ truncated m t"

definition tiny_bytes :: "nat \<Rightarrow> byte_buf option \<Rightarrow> byte_buf" where
  "tiny_bytes m t = of_nat (length (truncated m t)) # truncated m t"

definition position_bytes :: "sc_position \<Rightarrow> byte_buf" where
  "position_bytes p = be32 (point_x (point p)) @ be32 (point_y (point p))
     @ be16 (width (screen_size p)) @ be16 (height (screen_size p))"

fun body_bytes :: "sc_control_msg \<Rightarrow> byte_buf" where
  "body_bytes (INJECT_KEYCODE a k r m) = ucast a # be32 k @ be32 r @ be32 m"
| "body_bytes (INJECT_TEXT t) = str_bytes SC_CONTROL_MSG_INJECT_TEXT_MAX_LENGTH t"
| "body_bytes (INJECT_TOUCH_EVENT a ab b ptr pos press) =
     ucast a # be64 ptr @ position_bytes pos @ be16 (u16fp press) @ be32 ab @ be32 b"
| "body_bytes (INJECT_SCROLL_EVENT pos h v b) =
     position_bytes pos @ be16 (i16fp (scroll_norm h)) @ be16 (i16fp (scroll_norm v)) @ be32 b"
| "body_bytes (BACK_OR_SCREEN_ON a) = [ucast a]"
| "body_bytes (GET_CLIPBOARD ck) = [copy_key_value ck]"
| "body_bytes (SET_CLIPBOARD q t p) =
     be64 q @ of_bool p # str_bytes SC_CONTROL_MSG_CLIPBOARD_TEXT_MAX_LENGTH t"
| "body_bytes (SET_DISPLAY_POWER b) = [of_bool b]"
| "body_bytes (UHID_CREATE i v p n ds d) =
     be16 i @ be16 v @ be16 p @ tiny_bytes 127 n @ be16 ds @ take (unat ds) d"
| "body_bytes (UHID_INPUT i sz d) = be16 i @ be16 sz @ take (unat sz) d"
| "body_bytes (UHID_DESTROY i) = be16 i"
| "body_bytes (START_APP n) = tiny_bytes 255 n"
| "body_bytes (CAMERA_SET_TORCH b) = [of_bool b]"
| "body_bytes (RESIZE_DISPLAY w h) = be16 w @ be16 h"
| "body_bytes (SCAN_FILE p) = str_bytes SC_CONTROL_MSG_SCAN_FILE_PATH_MAX_LENGTH p"
| "body_bytes _ = []"

definition control_msg_bytes :: "sc_control_msg \<Rightarrow> byte_buf" where
  "control_msg_bytes m = msg_type m # body_bytes m"

text \<open>
  The messages the client builds: strings whose first byte starts a code point, fixed-point values
  the conversions accept, and sizes that match the data they describe.
\<close>

definition text_ok :: "byte_buf option \<Rightarrow> bool" where
  "text_ok t = (case t of None \<Rightarrow> True | Some s \<Rightarrow> utf8_start_ok s)"

fun wf_control_msg :: "sc_control_msg \<Rightarrow> bool" where
  "wf_control_msg (INJECT_TEXT t) = text_ok t"
| "wf_control_msg (INJECT_TOUCH_EVENT a ab b ptr pos press) = u16fp_ok press"
| "wf_control_msg (INJECT_SCROLL_EVENT pos h v b) =
     (i16fp_ok (scroll_norm h) \<and> i16fp_ok (scroll_norm v))"
| "wf_control_msg (SET_CLIPBOARD q t p) = text_ok t"
| "wf_control_msg (UHID_CREATE i v p n ds d) = (text_ok n \<and> unat ds = length d)"
| "wf_control_msg (UHID_INPUT i sz d) = (length d = SC_HID_MAX_SIZE \<and> unat sz \<le> SC_HID_MAX_SIZE)"
| "wf_control_msg (START_APP n) = text_ok n"
| "wf_control_msg (SCAN_FILE p) = text_ok p"
| "wf_control_msg (UNKNOWN_TYPE t) = False"
| "wf_control_msg _ = True"

section \<open>The serialiser implements the wire format\<close>

lemma length_truncated: "length (truncated m t) \<le> m"
  by (auto simp: truncated_def sc_str_utf8_truncation_index_def Let_def
      split: option.splits if_splits dest: utf8_truncation_loop_Some)

lemma length_position_bytes [simp]: "length (position_bytes p) = 12"
  by (simp add: position_bytes_def)

lemma length_str_bytes [simp]: "length (str_bytes m t) = 4 + length (truncated m t)"
  by (simp add: str_bytes_def)

lemma length_tiny_bytes [simp]: "length (tiny_bytes m t) = 1 + length (truncated m t)"
  by (simp add: tiny_bytes_def)

lemma mem_write_bind [mem_simps]:
  assumes "n = off + length xs"
  shows "Option.bind (mem_write off xs b) (\<lambda>b. Option.bind (mem_write n ys b) f) =
         Option.bind (mem_write off (xs @ ys) b) f"
  using mem_write_write [OF assms, of b ys] by (metis bind_assoc)

lemma write_position_eq [mem_simps]: "write_position off p b = mem_write off (position_bytes p) b"
  by (simp add: write_position_def position_bytes_def mem_simps mem_write_write)

lemma mem_write_before:
  assumes "n = off + length xs"
  shows "Option.bind (mem_write n ys b) (\<lambda>b. Option.bind (mem_write off xs b) f) =
         Option.bind (mem_write off (xs @ ys) b) f"
  by (auto simp: assms mem_write_def ac_simps)

lemma payload_eq:
  assumes "text_ok t"
  shows "write_string_payload off t m b =
    Option.bind (mem_write off (truncated m t) b) (\<lambda>b. Some (length (truncated m t), b))
    \<or> t = None"
proof (cases t)
  case (Some s)
  with assms have "utf8_start_ok s" by (simp add: text_ok_def)
  then obtain i where "sc_str_utf8_truncation_index s m = Some i" "i \<le> length s"
    by (rule truncation_index_Some)
  with Some show ?thesis by (simp add: write_string_payload_def truncated_def)
qed simp

lemma write_string_eq [mem_simps]:
  assumes "text_ok t"
  shows "write_string off t m b =
    Option.bind (mem_write off (str_bytes m t) b) (\<lambda>b. Some (length (str_bytes m t), b))"
proof (cases t)
  case None
  then show ?thesis
    by (simp add: write_string_def write_string_payload_def str_bytes_def truncated_def mem_simps)
next
  case (Some s)
  with payload_eq [OF assms, of "off + 4" m b]
  have "write_string_payload (off + 4) t m b =
    Option.bind (mem_write (off + 4) (truncated m t) b) (\<lambda>b. Some (length (truncated m t), b))"
    by simp
  then show ?thesis
    by (simp add: write_string_def str_bytes_def sc_write32be_eq mem_write_before)
qed

lemma write_string_tiny_eq [mem_simps]:
  assumes "text_ok t" "m \<le> 255"
  shows "write_string_tiny off t m b =
    Option.bind (mem_write off (tiny_bytes m t) b) (\<lambda>b. Some (length (tiny_bytes m t), b))"
proof (cases t)
  case None
  with assms show ?thesis
    by (simp add: write_string_tiny_def write_string_payload_def tiny_bytes_def truncated_def
        mem_set_eq_write)
next
  case (Some s)
  with payload_eq [OF assms(1), of "off + 1" m b]
  have "write_string_payload (off + 1) t m b =
    Option.bind (mem_write (off + 1) (truncated m t) b) (\<lambda>b. Some (length (truncated m t), b))"
    by simp
  with assms show ?thesis
    by (simp add: write_string_tiny_def tiny_bytes_def mem_set_eq_write mem_write_before)
qed

lemma serialize_eq:
  assumes "wf_control_msg m"
  shows "sc_control_msg_serialize m b =
    Option.bind (mem_write 0 (control_msg_bytes m) b) (\<lambda>b. Some (length (control_msg_bytes m), b))"
  using assms
  by (cases m)
    (simp_all add: sc_control_msg_serialize_def control_msg_bytes_def serialize_uhid_create_def
      mem_set_eq_write mem_simps u16fp_iff i16fp_iff, simp_all add: numeral_eq_Suc)

lemma take_desc_length: "length (take (unat (ds :: u16)) d) \<le> 65535"
  using unsigned_less [of ds, where ?'a = nat] by simp

lemma length_control_msg_bytes:
  assumes "wf_control_msg m"
  shows "length (control_msg_bytes m) \<le> SC_CONTROL_MSG_MAX_SIZE"
proof (cases m)
  case (UHID_CREATE i v p n ds d)
  then show ?thesis
    using take_desc_length [of ds d] length_truncated [of 127 n]
    by (simp add: control_msg_bytes_def msg_limits)
next
  case (UHID_INPUT i sz d)
  with assms show ?thesis by (simp add: control_msg_bytes_def msg_limits)
next
  case (INJECT_TEXT t)
  then show ?thesis
    using length_truncated [of 300 t] by (simp add: control_msg_bytes_def msg_limits)
next
  case (SET_CLIPBOARD q t p)
  then show ?thesis
    using length_truncated [of 262130 t] by (simp add: control_msg_bytes_def msg_limits)
next
  case (START_APP n)
  then show ?thesis
    using length_truncated [of 255 n] by (simp add: control_msg_bytes_def msg_limits)
next
  case (SCAN_FILE p)
  then show ?thesis
    using length_truncated [of 256 p] by (simp add: control_msg_bytes_def msg_limits)
qed (simp_all add: control_msg_bytes_def msg_limits)

section \<open>Properties\<close>

text \<open>C5. Serialising any well-formed message into the 256 KiB buffer of the controller never writes
  outside it and never stops on an assertion: it returns the length of the message's wire format,
  which is not zero, puts exactly these bytes at the start of the buffer and leaves the rest alone.\<close>

theorem serialize_correct:
  assumes "wf_control_msg m" "length buf = SC_CONTROL_MSG_MAX_SIZE"
  shows "sc_control_msg_serialize m buf =
           Some (length (control_msg_bytes m),
                 control_msg_bytes m @ drop (length (control_msg_bytes m)) buf) \<and>
         0 < length (control_msg_bytes m) \<and> length (control_msg_bytes m) \<le> SC_CONTROL_MSG_MAX_SIZE"
  using assms length_control_msg_bytes [OF assms(1)]
  by (simp add: serialize_eq mem_write_in) (simp add: control_msg_bytes_def)

theorem serialize_correct_witness:
  "wf_control_msg (RESIZE_DISPLAY 1920 1080) \<and>
   length (replicate SC_CONTROL_MSG_MAX_SIZE (0 :: u8)) = SC_CONTROL_MSG_MAX_SIZE \<and>
   sc_control_msg_serialize (RESIZE_DISPLAY 1920 1080) (replicate SC_CONTROL_MSG_MAX_SIZE 0) =
     Some (5, [21, 7, 128, 4, 56] @ replicate (SC_CONTROL_MSG_MAX_SIZE - 5) 0)"
proof -
  have h: "wf_control_msg (RESIZE_DISPLAY 1920 1080)"
    "length (replicate SC_CONTROL_MSG_MAX_SIZE (0 :: u8)) = SC_CONTROL_MSG_MAX_SIZE"
    by simp_all
  have "control_msg_bytes (RESIZE_DISPLAY 1920 1080) = [21, 7, 128, 4, 56]"
    by (simp add: control_msg_bytes_def be16_def drop_bit_eq_div)
  then show ?thesis using h serialize_correct [OF h] by simp
qed

text \<open>Pressures and scroll values the conversion to fixed point refuses: every value from
  \<open>65535/65536\<close> up to but excluding 1 stops on the assertion that only 1 reaches \<open>0xffff\<close>, so the
  serialisation of a touch event with such a pressure aborts.\<close>

theorem pressure_near_one_aborts:
  assumes "65535 / 65536 \<le> f" "f < 1" "length buf = SC_CONTROL_MSG_MAX_SIZE"
  shows "sc_float_to_u16fp f = None \<and>
         sc_control_msg_serialize (INJECT_TOUCH_EVENT a ab b ptr pos f) buf = None"
  using u16fp_gap [OF assms(1,2)] assms(3)
  by (simp add: sc_control_msg_serialize_def mem_simps mem_set_eq_write msg_limits)

theorem pressure_near_one_aborts_witness:
  "(65535 / 65536 :: rat) \<le> 0.99999 \<and> sc_float_to_u16fp 0.99999 = None"
proof -
  have h: "65535 / 65536 \<le> (0.99999 :: rat)" "(0.99999 :: rat) < 1"
    "length (replicate SC_CONTROL_MSG_MAX_SIZE (0 :: u8)) = SC_CONTROL_MSG_MAX_SIZE" by simp_all
  show ?thesis using h pressure_near_one_aborts [OF h] by blast
qed

end
