(* ===== verification/ServerReader.thy ===== *)
theory ServerReader
  imports ControlMsg
begin

text \<open>
  The other end of the control socket: \<^verbatim>\<open>ControlMessageReader.java\<close> and the fixed-point conversions
  of \<^verbatim>\<open>Binary.java\<close>, as a parser that returns the message and the rest of the stream. \<open>None\<close> is an
  exception (end of stream, unknown type, negative array size). A Java string built from UTF-8 bytes
  is represented by those bytes.
\<close>

section \<open>DataInputStream\<close>

fun readUnsignedByte :: "byte_buf \<Rightarrow> (u8 \<times> byte_buf) option" where
  "readUnsignedByte [] = None"
| "readUnsignedByte (b # s) = Some (b, s)"

definition readUnsignedShort :: "byte_buf \<Rightarrow> (u16 \<times> byte_buf) option" where
  "readUnsignedShort s = do { v \<leftarrow> sc_read16be 0 s; Some (v, drop 2 s) }"

definition readInt :: "byte_buf \<Rightarrow> (u32 \<times> byte_buf) option" where
  "readInt s = do { v \<leftarrow> sc_read32be 0 s; Some (v, drop 4 s) }"

definition readLong :: "byte_buf \<Rightarrow> (u64 \<times> byte_buf) option" where
  "readLong s = do { v \<leftarrow> sc_read64be 0 s; Some (v, drop 8 s) }"

definition readBoolean :: "byte_buf \<Rightarrow> (bool \<times> byte_buf) option" where
  "readBoolean s = do { (b, s) \<leftarrow> readUnsignedByte s; Some (b \<noteq> 0, s) }"

definition readFully :: "nat \<Rightarrow> byte_buf \<Rightarrow> (byte_buf \<times> byte_buf) option" where
  "readFully n s = (if n \<le> length s then Some (take n s, drop n s) else None)"

section \<open>ControlMessageReader\<close>

datatype ControlMessage =
    createInjectKeycode u8 u32 u32 u32
  | createInjectText byte_buf
  | createInjectTouchEvent u8 u64 sc_position rat u32 u32
  | createInjectScrollEvent sc_position rat rat u32
  | createBackOrScreenOn u8
  | createGetClipboard u8
  | createSetClipboard u64 byte_buf bool
  | createSetDisplayPower bool
  | createEmpty u8
  | createUhidCreate u16 u16 u16 byte_buf byte_buf
  | createUhidInput u16 byte_buf
  | createUhidDestroy u16
  | createStartApp byte_buf
  | createCameraSetTorch bool
  | createResizeDisplay u16 u16
  | createScanFile byte_buf

definition u16FixedPointToFloat :: "u16 \<Rightarrow> rat" where
  "u16FixedPointToFloat value = (if value = 0xffff then 1 else of_nat (unat value) / 2 ^ 16)"

definition i16FixedPointToFloat :: "u16 \<Rightarrow> rat" where
  "i16FixedPointToFloat value = (if value = 0x7fff then 1 else of_int (sint value) / 2 ^ 15)"

fun parse_length_loop :: "nat \<Rightarrow> u32 \<Rightarrow> byte_buf \<Rightarrow> (u32 \<times> byte_buf) option" where
  "parse_length_loop 0 v s = Some (v, s)"
| "parse_length_loop (Suc n) v s = do {
     (b, s) \<leftarrow> readUnsignedByte s;
     parse_length_loop n (push_bit 8 v OR ucast b) s
   }"

definition parseBufferLength :: "nat \<Rightarrow> byte_buf \<Rightarrow> (u32 \<times> byte_buf) option" where
  "parseBufferLength sizeBytes s = do {
     c_assert (sizeBytes > 0 \<and> sizeBytes \<le> 4);
     parse_length_loop sizeBytes 0 s
   }"

definition parseByteArray :: "nat \<Rightarrow> byte_buf \<Rightarrow> (byte_buf \<times> byte_buf) option" where
  "parseByteArray sizeBytes s = do {
     (len, s) \<leftarrow> parseBufferLength sizeBytes s;
     if sint len < 0 then None else readFully (unat len) s
   }"

definition parsePosition :: "byte_buf \<Rightarrow> (sc_position \<times> byte_buf) option" where
  "parsePosition s = do {
     (x, s) \<leftarrow> readInt s;
     (y, s) \<leftarrow> readInt s;
     (w, s) \<leftarrow> readUnsignedShort s;
     (h, s) \<leftarrow> readUnsignedShort s;
     Some (\<lparr>screen_size = \<lparr>width = w, height = h\<rparr>, point = \<lparr>point_x = x, point_y = y\<rparr>\<rparr>, s)
   }"

definition parseInjectKeycode :: "byte_buf \<Rightarrow> (ControlMessage \<times> byte_buf) option" where
  "parseInjectKeycode s = do {
     (action, s) \<leftarrow> readUnsignedByte s;
     (keycode, s) \<leftarrow> readInt s;
     (repeat, s) \<leftarrow> readInt s;
     (metaState, s) \<leftarrow> readInt s;
     Some (createInjectKeycode action keycode repeat metaState, s)
   }"

definition parseInjectTouchEvent :: "byte_buf \<Rightarrow> (ControlMessage \<times> byte_buf) option" where
  "parseInjectTouchEvent s = do {
     (action, s) \<leftarrow> readUnsignedByte s;
     (pointerId, s) \<leftarrow> readLong s;
     (position, s) \<leftarrow> parsePosition s;
     (p, s) \<leftarrow> readUnsignedShort s;
     (actionButton, s) \<leftarrow> readInt s;
     (buttons, s) \<leftarrow> readInt s;
     Some (createInjectTouchEvent action pointerId position (u16FixedPointToFloat p) actionButton buttons, s)
   }"

definition parseInjectScrollEvent :: "byte_buf \<Rightarrow> (ControlMessage \<times> byte_buf) option" where
  "parseInjectScrollEvent s = do {
     (position, s) \<leftarrow> parsePosition s;
     (h, s) \<leftarrow> readUnsignedShort s;
     (v, s) \<leftarrow> readUnsignedShort s;
     (buttons, s) \<leftarrow> readInt s;
     Some (createInjectScrollEvent position (i16FixedPointToFloat h * 16) (i16FixedPointToFloat v * 16) buttons, s)
   }"

definition parseSetClipboard :: "byte_buf \<Rightarrow> (ControlMessage \<times> byte_buf) option" where
  "parseSetClipboard s = do {
     (sequence, s) \<leftarrow> readLong s;
     (paste, s) \<leftarrow> readBoolean s;
     (text, s) \<leftarrow> parseByteArray 4 s;
     Some (createSetClipboard sequence text paste, s)
   }"

definition parseUhidCreate :: "byte_buf \<Rightarrow> (ControlMessage \<times> byte_buf) option" where
  "parseUhidCreate s = do {
     (uid, s) \<leftarrow> readUnsignedShort s;
     (vendorId, s) \<leftarrow> readUnsignedShort s;
     (productId, s) \<leftarrow> readUnsignedShort s;
     (name, s) \<leftarrow> parseByteArray 1 s;
     (data, s) \<leftarrow> parseByteArray 2 s;
     Some (createUhidCreate uid vendorId productId name data, s)
   }"

definition parseUhidInput :: "byte_buf \<Rightarrow> (ControlMessage \<times> byte_buf) option" where
  "parseUhidInput s = do {
     (uid, s) \<leftarrow> readUnsignedShort s;
     (data, s) \<leftarrow> parseByteArray 2 s;
     Some (createUhidInput uid data, s)
   }"

definition parseResizeDisplay :: "byte_buf \<Rightarrow> (ControlMessage \<times> byte_buf) option" where
  "parseResizeDisplay s = do {
     (w, s) \<leftarrow> readUnsignedShort s;
     (h, s) \<leftarrow> readUnsignedShort s;
     Some (createResizeDisplay w h, s)
   }"

text \<open>\<^verbatim>\<open>read()\<close>: the dispatch on the type byte.\<close>

definition reader_read :: "byte_buf \<Rightarrow> (ControlMessage \<times> byte_buf) option" where
  "reader_read s = do {
     (type, s) \<leftarrow> readUnsignedByte s;
     if type = 0 then parseInjectKeycode s
     else if type = 1 then do { (t, s) \<leftarrow> parseByteArray 4 s; Some (createInjectText t, s) }
     else if type = 2 then parseInjectTouchEvent s
     else if type = 3 then parseInjectScrollEvent s
     else if type = 4 then do { (a, s) \<leftarrow> readUnsignedByte s; Some (createBackOrScreenOn a, s) }
     else if type = 8 then do { (k, s) \<leftarrow> readUnsignedByte s; Some (createGetClipboard k, s) }
     else if type = 9 then parseSetClipboard s
     else if type = 10 then do { (on, s) \<leftarrow> readBoolean s; Some (createSetDisplayPower on, s) }
     else if type \<in> {5, 6, 7, 11, 15, 17, 19, 20} then Some (createEmpty type, s)
     else if type = 12 then parseUhidCreate s
     else if type = 13 then parseUhidInput s
     else if type = 14 then do { (i, s) \<leftarrow> readUnsignedShort s; Some (createUhidDestroy i, s) }
     else if type = 16 then do { (n, s) \<leftarrow> parseByteArray 1 s; Some (createStartApp n, s) }
     else if type = 18 then do { (on, s) \<leftarrow> readBoolean s; Some (createCameraSetTorch on, s) }
     else if type = 21 then parseResizeDisplay s
     else if type = 22 then do { (p, s) \<leftarrow> parseByteArray 4 s; Some (createScanFile p, s) }
     else None
   }"

section \<open>What the server makes of a client message\<close>

fun as_server :: "sc_control_msg \<Rightarrow> ControlMessage" where
  "as_server (INJECT_KEYCODE a k r m) = createInjectKeycode (ucast a) k r m"
| "as_server (INJECT_TEXT t) = createInjectText (truncated SC_CONTROL_MSG_INJECT_TEXT_MAX_LENGTH t)"
| "as_server (INJECT_TOUCH_EVENT a ab b ptr pos press) =
     createInjectTouchEvent (ucast a) ptr pos (u16FixedPointToFloat (u16fp press)) ab b"
| "as_server (INJECT_SCROLL_EVENT pos h v b) =
     createInjectScrollEvent pos (i16FixedPointToFloat (i16fp (scroll_norm h)) * 16)
       (i16FixedPointToFloat (i16fp (scroll_norm v)) * 16) b"
| "as_server (BACK_OR_SCREEN_ON a) = createBackOrScreenOn (ucast a)"
| "as_server (GET_CLIPBOARD ck) = createGetClipboard (copy_key_value ck)"
| "as_server (SET_CLIPBOARD q t p) =
     createSetClipboard q (truncated SC_CONTROL_MSG_CLIPBOARD_TEXT_MAX_LENGTH t) p"
| "as_server (SET_DISPLAY_POWER b) = createSetDisplayPower b"
| "as_server (UHID_CREATE i v p n ds d) = createUhidCreate i v p (truncated 127 n) d"
| "as_server (UHID_INPUT i sz d) = createUhidInput i (take (unat sz) d)"
| "as_server (UHID_DESTROY i) = createUhidDestroy i"
| "as_server (START_APP n) = createStartApp (truncated 255 n)"
| "as_server (CAMERA_SET_TORCH b) = createCameraSetTorch b"
| "as_server (RESIZE_DISPLAY w h) = createResizeDisplay w h"
| "as_server (SCAN_FILE p) = createScanFile (truncated SC_CONTROL_MSG_SCAN_FILE_PATH_MAX_LENGTH p)"
| "as_server m = createEmpty (msg_type m)"

lemma readUnsignedShort_be [enc_simps]: "readUnsignedShort (be16 v @ s) = Some (v, s)"
  using sc_read16be_at [of 0 "[]" v s] by (simp add: readUnsignedShort_def)

lemma readInt_be [enc_simps]: "readInt (be32 v @ s) = Some (v, s)"
  using sc_read32be_at [of 0 "[]" v s] by (simp add: readInt_def)

lemma readLong_be [enc_simps]: "readLong (be64 v @ s) = Some (v, s)"
  using sc_read64be_at [of 0 "[]" v s] by (simp add: readLong_def)

lemma readBoolean_of_bool [enc_simps]: "readBoolean (of_bool b # s) = Some (b, s)"
  by (simp add: readBoolean_def)

lemma parsePosition_bytes [enc_simps]: "parsePosition (position_bytes p @ s) = Some (p, s)"
  by (simp add: parsePosition_def position_bytes_def enc_simps)

lemma nested32:
  "push_bit 8 (push_bit 8 (push_bit 8 (ucast (ucast (drop_bit 24 v :: u32) :: u8))
     OR ucast (ucast (drop_bit 16 v) :: u8)) OR ucast (ucast (drop_bit 8 v) :: u8))
     OR ucast (ucast v :: u8) = v"
  by (subst join32 [symmetric, of v]) (simp only: push_bit_or push_bit_push_bit or.assoc, simp)

lemma nested16:
  "push_bit 8 (ucast (ucast (drop_bit 8 v :: u16) :: u8)) OR ucast (ucast v :: u8) = (ucast v :: u32)"
proof -
  have "bit v n \<Longrightarrow> n - 8 < 8" for n using bit_imp_le_length [of v n] by simp
  then show ?thesis by (intro bit_word_eqI) (auto simp: bit_simps)
qed

lemma loop4: "parse_length_loop 4 0 (a # b # c # d # s) =
  Some (push_bit 8 (push_bit 8 (push_bit 8 (ucast a) OR ucast b) OR ucast c) OR ucast d, s)"
  by (simp add: numeral_eq_Suc)

lemma loop2: "parse_length_loop 2 0 (a # b # s) = Some (push_bit 8 (ucast a) OR ucast b, s)"
  by (simp add: numeral_2_eq_2)

lemma parse4: "parseBufferLength 4 (be32 v @ s) = Some (v, s)"
  by (simp only: parseBufferLength_def be32_def append_Cons append_Nil loop4 nested32) simp

lemma parse2: "parseBufferLength 2 (be16 v @ s) = Some (ucast v, s)"
  by (simp only: parseBufferLength_def be16_def append_Cons append_Nil loop2 nested16) simp

lemma parse1: "parseBufferLength (Suc 0) (b # s) = Some (ucast b, s)"
  by (simp add: parseBufferLength_def)

lemma sint_of_nat_small: "n < 2 ^ 31 \<Longrightarrow> sint (of_nat n :: u32) = int n"
  by (simp add: signed_of_nat signed_take_bit_int_eq_self)

lemma unat_of_nat_small: "n < 2 ^ 32 \<Longrightarrow> unat (of_nat n :: u32) = n"
  by (simp add: unat_of_nat)

lemma parseByteArray_4 [enc_simps]:
  "length xs < 2 ^ 31 \<Longrightarrow> parseByteArray 4 (be32 (of_nat (length xs)) @ xs @ s) = Some (xs, s)"
  by (simp add: parseByteArray_def parse4 sint_of_nat_small unat_of_nat_small readFully_def)

lemma parseByteArray_2 [enc_simps]:
  assumes "unat v = length xs"
  shows "parseByteArray 2 (be16 v @ xs @ s) = Some (xs, s)"
proof -
  have "(ucast v :: u32) = of_nat (length xs)" by (simp flip: assms)
  moreover have "length xs < 2 ^ 16" using unsigned_less [of v, where ?'a = nat] assms by simp
  ultimately show ?thesis
    by (simp add: parseByteArray_def parse2 sint_of_nat_small unat_of_nat_small readFully_def)
qed

lemma parseByteArray_1 [enc_simps]:
  assumes "length xs < 2 ^ 8"
  shows "parseByteArray (Suc 0) (of_nat (length xs) # xs @ s) = Some (xs, s)"
proof -
  have "(ucast (of_nat (length xs) :: u8) :: u32) = of_nat (length xs)"
    using assms by (simp add: unsigned_of_nat take_bit_nat_eq_self)
  with assms show ?thesis
    by (simp add: parseByteArray_def parse1 sint_of_nat_small unat_of_nat_small readFully_def)
qed

lemma parse_str_bytes [enc_simps]:
  "m < 2 ^ 31 \<Longrightarrow> parseByteArray 4 (str_bytes m t @ s) = Some (truncated m t, s)"
  using length_truncated [of m t] by (simp add: str_bytes_def enc_simps)

lemma parse_tiny_bytes [enc_simps]:
  "m < 2 ^ 8 \<Longrightarrow> parseByteArray (Suc 0) (tiny_bytes m t @ s) = Some (truncated m t, s)"
  using length_truncated [of m t] parseByteArray_1 [of "truncated m t" s] by (simp add: tiny_bytes_def)

lemmas parse_defs = parseInjectKeycode_def parseInjectTouchEvent_def parseInjectScrollEvent_def
  parseSetClipboard_def parseUhidCreate_def parseUhidInput_def parseResizeDisplay_def

lemma reader_inverts:
  assumes "wf_control_msg m"
  shows "reader_read (control_msg_bytes m @ s) = Some (as_server m, s)"
  using assms
  by (cases m)
    (simp_all add: reader_read_def control_msg_bytes_def parse_defs enc_simps msg_limits)

text \<open>Reading a given number of messages from the stream, as the loop of the server's controller does.\<close>

fun server_reads :: "nat \<Rightarrow> byte_buf \<Rightarrow> (ControlMessage list \<times> byte_buf) option" where
  "server_reads 0 s = Some ([], s)"
| "server_reads (Suc n) s = do {
     (m, s) \<leftarrow> reader_read s;
     (ms, s) \<leftarrow> server_reads n s;
     Some (m # ms, s)
   }"

lemma server_reads_wire:
  "\<forall>m \<in> set ms. wf_control_msg m \<Longrightarrow>
   server_reads (length ms) (concat (map control_msg_bytes ms) @ s) = Some (map as_server ms, s)"
  by (induction ms) (simp_all add: reader_inverts)

section \<open>Precision of the fixed-point values\<close>

lemma u16_of_floor:
  assumes "0 \<le> k" "k < 65535"
  shows "u16FixedPointToFloat (word_of_int k) = of_int k / 2 ^ 16"
proof -
  have u: "unat (word_of_int k :: u16) = nat k"
    using assms by (simp add: unsigned_of_int take_bit_int_eq_self)
  then have "(word_of_int k :: u16) \<noteq> 0xffff"
    using assms by (auto dest: arg_cong [where f = unat])
  with u assms show ?thesis by (simp add: u16FixedPointToFloat_def)
qed

lemma u16fp_decode:
  assumes "u16fp_ok f"
  shows "u16FixedPointToFloat (u16fp f) \<le> f \<and> f < u16FixedPointToFloat (u16fp f) + 1 / 2 ^ 16"
proof (cases "f = 1")
  case True
  then show ?thesis by (simp add: u16fp_def u16FixedPointToFloat_def)
next
  case False
  with assms have f: "0 \<le> f" "f < 65535 / 65536" by (auto simp: u16fp_ok_def)
  define k where "k = \<lfloor>f * 65536\<rfloor>"
  have k: "0 \<le> k" "k < 65535" using f by (simp_all add: k_def floor_less_iff)
  have "of_int k \<le> f * 65536" "f * 65536 < of_int k + 1"
    unfolding k_def by linarith+
  with False show ?thesis
    by (simp add: u16fp_def u16_of_floor [OF k] flip: k_def)
qed

lemma i16_of_trunc:
  assumes "- 32768 \<le> k" "k < 32767"
  shows "i16FixedPointToFloat (word_of_int k) = of_int k / 2 ^ 15"
proof -
  have u: "sint (word_of_int k :: u16) = k"
    using assms by (simp add: signed_of_int signed_take_bit_int_eq_self)
  then have "(word_of_int k :: u16) \<noteq> 0x7fff"
    using assms by (auto dest: arg_cong [where f = sint])
  with u assms show ?thesis by (simp add: i16FixedPointToFloat_def)
qed

lemma i16fp_decode:
  assumes "i16fp_ok f"
  shows "\<bar>i16FixedPointToFloat (i16fp f) - f\<bar> < 1 / 2 ^ 15"
proof (cases "f = 1")
  case True
  then show ?thesis by (simp add: i16fp_def i16FixedPointToFloat_def)
next
  case False
  with assms have f: "- 1 \<le> f" "f < 32767 / 32768" by (auto simp: i16fp_ok_def)
  define k where "k = trunc_rat (f * 32768)"
  have "k < 32767"
    using f by (auto simp: k_def trunc_rat_def floor_less_iff) linarith
  moreover have "- 32768 \<le> k"
    unfolding k_def using f by (intro trunc_rat_mono_ge) auto
  moreover have "\<bar>of_int k / 2 ^ 15 - f\<bar> < 1 / 2 ^ 15"
    using trunc_rat_bounds(1) [of "f * 32768"] by (simp add: abs_less_iff field_simps flip: k_def)
  ultimately show ?thesis
    using False by (simp only: i16fp_def i16_of_trunc if_False flip: k_def)
qed

section \<open>Properties\<close>

text \<open>C6. Round trip over the control socket: the server's reader, run on the bytes of any well-formed
  client message followed by anything, returns that message as the server represents it (text
  truncated at the limit, pressure and scroll values quantised) and leaves exactly the rest of the
  stream.\<close>

theorem control_msg_roundtrip:
  assumes "wf_control_msg m"
  shows "reader_read (control_msg_bytes m @ rest) = Some (as_server m, rest)"
  using assms by (rule reader_inverts)

theorem control_msg_roundtrip_witness:
  "wf_control_msg (SET_CLIPBOARD 7 (Some [0x68, 0x69]) True) \<and>
   reader_read (control_msg_bytes (SET_CLIPBOARD 7 (Some [0x68, 0x69]) True) @ [5]) =
     Some (createSetClipboard 7 [0x68, 0x69] True, [5])"
proof -
  have wf: "wf_control_msg (SET_CLIPBOARD 7 (Some [0x68, 0x69]) True)"
    by (simp add: text_ok_def utf8_start_ok_def utf8_continuation_def)
  then show ?thesis
    using control_msg_roundtrip [OF wf, of "[5]"]
    by (simp add: truncated_def sc_str_utf8_truncation_index_def msg_limits)
qed

text \<open>Precision of the pressure on the wire: the server reads back a value at most the pressure
  sent, and within \<open>2^-16\<close> of it.\<close>

theorem pressure_precision:
  assumes "sc_float_to_u16fp f = Some w"
  shows "u16FixedPointToFloat w \<le> f \<and> f < u16FixedPointToFloat w + 1 / 2 ^ 16"
proof -
  from assms have "u16fp_ok f" "w = u16fp f" by (auto simp: u16fp_iff split: if_splits)
  then show ?thesis using u16fp_decode by simp
qed

theorem pressure_precision_witness:
  "sc_float_to_u16fp (1 / 2) = Some 0x8000 \<and>
   u16FixedPointToFloat 0x8000 \<le> 1 / 2 \<and> 1 / 2 < u16FixedPointToFloat 0x8000 + 1 / 2 ^ 16"
proof -
  have f: "sc_float_to_u16fp (1 / 2) = Some 0x8000"
    by (simp add: sc_float_to_u16fp_def trunc_rat_def)
  show ?thesis using f pressure_precision [OF f] by blast
qed

text \<open>Precision of scroll amounts on the wire: whatever the amount, what the server reads back is
  within \<open>2^-11\<close> of it clamped to [-16, 16].\<close>

theorem scroll_precision:
  assumes "sc_float_to_i16fp (scroll_norm f) = Some w"
  shows "\<bar>i16FixedPointToFloat w * 16 - min (max f (- 16)) 16\<bar> < 1 / 2 ^ 11"
proof -
  from assms have ok: "i16fp_ok (scroll_norm f)" and w: "w = i16fp (scroll_norm f)"
    by (auto simp: i16fp_iff split: if_splits)
  have "min (max f (- 16)) 16 = scroll_norm f * 16" by (simp add: scroll_norm_def min_def max_def)
  moreover have "\<bar>x * 16 - y * 16\<bar> < 1 / 2 ^ 11" if "\<bar>x - y\<bar> < 1 / 2 ^ 15" for x y :: rat
    using that unfolding left_diff_distrib [symmetric] abs_mult by simp
  ultimately show ?thesis using i16fp_decode [OF ok] by (simp only: w)
qed

theorem scroll_precision_witness:
  "sc_float_to_i16fp (scroll_norm 8) = Some 0x4000 \<and>
   \<bar>i16FixedPointToFloat 0x4000 * 16 - min (max 8 (- 16)) 16\<bar> < 1 / 2 ^ 11"
proof -
  have f: "sc_float_to_i16fp (scroll_norm 8) = Some 0x4000"
    by (simp add: sc_float_to_i16fp_def scroll_norm_def trunc_rat_def)
  show ?thesis using f scroll_precision [OF f] by blast
qed

end
