(* ===== verification/QueueSpec.thy ===== *)
theory QueueSpec
  imports Prelude
begin

text \<open>
  What the client code relies on when it stores items in a queue: FIFO order, no loss on a failed
  push, no abort. The locale is interpreted on the ring buffer of \<^verbatim>\<open>util/vecdeque.h\<close>.
\<close>

locale fifo_queue =
  fixes contents :: "'q \<Rightarrow> 'a list"
    and invar :: "'q \<Rightarrow> bool"
    and is_empty :: "'q \<Rightarrow> bool"
    and push :: "bool \<Rightarrow> 'a \<Rightarrow> 'q \<Rightarrow> (bool \<times> 'q) option"
    and pop :: "'q \<Rightarrow> ('a \<times> 'q) option"
    and room :: "'q \<Rightarrow> bool"
  assumes is_empty_iff: "invar q \<Longrightarrow> is_empty q \<longleftrightarrow> contents q = []"
    and push_total: "invar q \<Longrightarrow> \<exists>ok q'. push alloc x q = Some (ok, q')"
    and push_invar: "invar q \<Longrightarrow> push alloc x q = Some (ok, q') \<Longrightarrow> invar q'"
    and push_done: "invar q \<Longrightarrow> push alloc x q = Some (True, q') \<Longrightarrow> contents q' = contents q @ [x]"
    and push_failed: "invar q \<Longrightarrow> push alloc x q = Some (False, q') \<Longrightarrow> q' = q"
    and push_room: "invar q \<Longrightarrow> room q \<Longrightarrow> alloc \<Longrightarrow> push alloc x q = Some (ok, q') \<Longrightarrow> ok"
    and pop_nonempty: "invar q \<Longrightarrow> contents q = x # xs \<Longrightarrow>
          \<exists>q'. pop q = Some (x, q') \<and> invar q' \<and> contents q' = xs"
    and pop_empty: "invar q \<Longrightarrow> contents q = [] \<Longrightarrow> pop q = None"
begin

lemma push_cases:
  assumes "invar q"
  obtains (Pushed) q' where "push alloc x q = Some (True, q')" "invar q'" "contents q' = contents q @ [x]"
  | (Failed) "push alloc x q = Some (False, q)"
proof -
  obtain ok q' where p: "push alloc x q = Some (ok, q')" using push_total [OF assms] by blast
  show thesis
  proof (cases ok)
    case True
    with p have "push alloc x q = Some (True, q')" by simp
    from this push_invar [OF assms p] push_done [OF assms this] show thesis by (rule that(1))
  next
    case False
    with p have "push alloc x q = Some (False, q')" by simp
    with push_failed [OF assms this] that(2) show thesis by simp
  qed
qed

lemma pop_cases:
  assumes "invar q"
  obtains (Empty) "contents q = []" "pop q = None"
  | (Popped) x q' where "pop q = Some (x, q')" "invar q'" "contents q = x # contents q'"
proof (cases "contents q")
  case Nil
  with assms that(1) show thesis by (simp add: pop_empty)
next
  case (Cons x xs)
  from pop_nonempty [OF assms Cons] obtain q' where
    "pop q = Some (x, q')" "invar q'" "contents q' = xs" by blast
  with Cons that(2) show thesis by simp
qed

text \<open>Popping until the queue is empty, as the cleanup loops of the clients do.\<close>

fun drain :: "nat \<Rightarrow> 'q \<Rightarrow> ('a list \<times> 'q) option" where
  "drain 0 q = (if is_empty q then Some ([], q) else None)"
| "drain (Suc n) q =
     (if is_empty q then Some ([], q)
      else do { (x, q) \<leftarrow> pop q; (xs, q) \<leftarrow> drain n q; Some (x # xs, q) })"

lemma drain_all:
  "invar q \<Longrightarrow> length (contents q) \<le> n \<Longrightarrow>
   \<exists>q'. drain n q = Some (contents q, q') \<and> invar q' \<and> contents q' = []"
proof (induction n arbitrary: q)
  case 0
  then show ?case by (simp add: is_empty_iff)
next
  case (Suc n)
  from Suc.prems(1) show ?case
  proof (cases rule: pop_cases)
    case Empty
    with Suc.prems show ?thesis by (simp add: is_empty_iff)
  next
    case (Popped x q')
    with Suc.IH [of q'] Suc.prems show ?thesis by (auto simp: is_empty_iff)
  qed
qed

end

end
