(* ===== verification/Vecdeque.thy ===== *)
theory Vecdeque
  imports QueueSpec
begin

text \<open>
  \<^verbatim>\<open>app/src/util/vecdeque.h\<close>: the growable ring buffer behind the controller, recorder, file-pusher
  and AOA queues. An array cell that was never written is \<open>None\<close>; reading it aborts. Sizes are
  \<open>size_t\<close>: the growth step wraps at \<open>2^64\<close>, and the invariant keeps every other sum far below.
\<close>

record 'a vecdeque =
  cap :: nat
  origin :: nat
  vd_size :: nat
  data :: "'a option list"

definition sc_vecdeque_init :: "'a vecdeque" where
  "sc_vecdeque_init = \<lparr>cap = 0, origin = 0, vd_size = 0, data = []\<rparr>"

definition sc_vecdeque_is_empty :: "'a vecdeque \<Rightarrow> bool" where
  "sc_vecdeque_is_empty v \<longleftrightarrow> vd_size v = 0"

definition sc_vecdeque_is_full :: "'a vecdeque \<Rightarrow> bool" where
  "sc_vecdeque_is_full v \<longleftrightarrow> vd_size v = cap v"

definition SC_VECDEQUE_MINCAP :: nat where
  "SC_VECDEQUE_MINCAP = 10"

definition SIZE_MAX :: nat where
  "SIZE_MAX = 2 ^ 64 - 1"

definition sc_vecdeque_max_cap :: "nat \<Rightarrow> nat" where
  "sc_vecdeque_max_cap item_size = SIZE_MAX div 2 div item_size"

text \<open>The result is \<open>Some None\<close> when the allocation fails: the C function returns NULL and changes
  nothing.\<close>

definition sc_vecdeque_reallocdata :: "bool \<Rightarrow> nat \<Rightarrow> 'a vecdeque \<Rightarrow> 'a vecdeque option option" where
  "sc_vecdeque_reallocdata alloc newcap v = do {
     c_assert (newcap > cap v);
     if origin v + vd_size v \<le> cap v then
       Some (if alloc then Some (v\<lparr>cap := newcap, data := data v @ replicate (newcap - cap v) None\<rparr>)
             else None)
     else do {
       c_assert (vd_size v \<noteq> 0);
       if \<not> alloc then Some None
       else do {
         let right_len = min (vd_size v) (cap v - origin v);
         c_assert (right_len \<noteq> 0);
         right \<leftarrow> mem_read (origin v) right_len (data v);
         new \<leftarrow> mem_write 0 right (replicate newcap None);
         new \<leftarrow> (if vd_size v > right_len then do {
                   left \<leftarrow> mem_read 0 (vd_size v - right_len) (data v);
                   mem_write right_len left new
                 } else Some new);
         Some (Some (v\<lparr>cap := newcap, origin := 0, data := new\<rparr>))
       }
     }
   }"

definition sc_vecdeque_realloc :: "bool \<Rightarrow> nat \<Rightarrow> 'a vecdeque \<Rightarrow> (bool \<times> 'a vecdeque) option" where
  "sc_vecdeque_realloc alloc newcap v = do {
     p \<leftarrow> sc_vecdeque_reallocdata alloc newcap v;
     Some (case p of Some v' \<Rightarrow> (True, v') | None \<Rightarrow> (False, v))
   }"

definition sc_vecdeque_growsize :: "nat \<Rightarrow> nat" where
  "sc_vecdeque_growsize value = (value + value div 2) mod 2 ^ 64"

definition clamp :: "nat \<Rightarrow> nat \<Rightarrow> nat \<Rightarrow> nat" where
  "clamp v x y = min (max v x) y"

definition sc_vecdeque_reserve ::
  "nat \<Rightarrow> bool \<Rightarrow> nat \<Rightarrow> 'a vecdeque \<Rightarrow> (bool \<times> 'a vecdeque) option" where
  "sc_vecdeque_reserve item_size alloc mincap v = do {
     c_assert (mincap \<le> sc_vecdeque_max_cap item_size);
     let mincap1 = max mincap SC_VECDEQUE_MINCAP;
     if mincap1 \<le> cap v then Some (True, v)
     else if mincap1 \<le> sc_vecdeque_max_cap item_size then
       (let newsize = clamp (sc_vecdeque_growsize (cap v)) mincap1 (sc_vecdeque_max_cap item_size)
        in sc_vecdeque_realloc alloc newsize v)
     else Some (False, v)
   }"

definition sc_vecdeque_grow ::
  "nat \<Rightarrow> bool \<Rightarrow> 'a vecdeque \<Rightarrow> (bool \<times> 'a vecdeque) option" where
  "sc_vecdeque_grow item_size alloc v =
     (if cap v < sc_vecdeque_max_cap item_size then
        (let newsize = clamp (sc_vecdeque_growsize (cap v)) SC_VECDEQUE_MINCAP
                         (sc_vecdeque_max_cap item_size)
         in sc_vecdeque_realloc alloc newsize v)
      else Some (False, v))"

definition sc_vecdeque_grow_if_needed ::
  "nat \<Rightarrow> bool \<Rightarrow> 'a vecdeque \<Rightarrow> (bool \<times> 'a vecdeque) option" where
  "sc_vecdeque_grow_if_needed item_size alloc v =
     (if \<not> sc_vecdeque_is_full v then Some (True, v) else sc_vecdeque_grow item_size alloc v)"

definition sc_vecdeque_push_noresize :: "'a \<Rightarrow> 'a vecdeque \<Rightarrow> 'a vecdeque option" where
  "sc_vecdeque_push_noresize item v = do {
     c_assert (\<not> sc_vecdeque_is_full v);
     let v = v\<lparr>vd_size := vd_size v + 1\<rparr>;
     d \<leftarrow> mem_set ((origin v + vd_size v - 1) mod cap v) (Some item) (data v);
     Some (v\<lparr>data := d\<rparr>)
   }"

definition sc_vecdeque_push ::
  "nat \<Rightarrow> bool \<Rightarrow> 'a \<Rightarrow> 'a vecdeque \<Rightarrow> (bool \<times> 'a vecdeque) option" where
  "sc_vecdeque_push item_size alloc item v = do {
     (ok, v) \<leftarrow> sc_vecdeque_grow_if_needed item_size alloc v;
     if ok then do { v \<leftarrow> sc_vecdeque_push_noresize item v; Some (True, v) }
     else Some (False, v)
   }"

text \<open>\<^verbatim>\<open>sc_vecdeque_pop\<close> dereferences the pointer \<^verbatim>\<open>sc_vecdeque_popref\<close> returns; the cell keeps its
  content.\<close>

definition sc_vecdeque_popref :: "'a vecdeque \<Rightarrow> (nat \<times> 'a vecdeque) option" where
  "sc_vecdeque_popref v = do {
     c_assert (\<not> sc_vecdeque_is_empty v);
     let pos = origin v;
     Some (pos, v\<lparr>origin := (origin v + 1) mod cap v, vd_size := vd_size v - 1\<rparr>)
   }"

definition sc_vecdeque_pop :: "'a vecdeque \<Rightarrow> ('a \<times> 'a vecdeque) option" where
  "sc_vecdeque_pop v = do {
     (pos, v) \<leftarrow> sc_vecdeque_popref v;
     cell \<leftarrow> mem_get pos (data v);
     x \<leftarrow> cell;
     Some (x, v)
   }"

section \<open>Abstraction and invariant\<close>

definition vd_contents :: "'a vecdeque \<Rightarrow> 'a list" where
  "vd_contents v = map (\<lambda>i. the (data v ! ((origin v + i) mod cap v))) [0..<vd_size v]"

definition vd_invar :: "nat \<Rightarrow> 'a vecdeque \<Rightarrow> bool" where
  "vd_invar item_size v \<longleftrightarrow>
     length (data v) = cap v \<and> vd_size v \<le> cap v \<and> (cap v = 0 \<longrightarrow> origin v = 0) \<and>
     (cap v \<noteq> 0 \<longrightarrow> origin v < cap v) \<and> cap v \<le> sc_vecdeque_max_cap item_size \<and>
     (\<forall>i < vd_size v. data v ! ((origin v + i) mod cap v) \<noteq> None)"

lemma length_vd_contents [simp]: "length (vd_contents v) = vd_size v"
  by (simp add: vd_contents_def)

lemma nth_vd_contents:
  "i < vd_size v \<Longrightarrow> vd_contents v ! i = the (data v ! ((origin v + i) mod cap v))"
  by (simp add: vd_contents_def)

lemma max_cap_bound: "sc_vecdeque_max_cap item_size < 2 ^ 63"
proof -
  have "SIZE_MAX div 2 div item_size \<le> SIZE_MAX div 2" by (rule div_le_dividend)
  also have "\<dots> < 2 ^ 63" by (simp add: SIZE_MAX_def)
  finally show ?thesis by (simp add: sc_vecdeque_max_cap_def)
qed

text \<open>No \<open>size_t\<close> sum of the macros wraps.\<close>

lemma vd_no_overflow:
  assumes "vd_invar s v"
  shows "origin v + vd_size v < 2 ^ 64" "origin v + vd_size v + 1 < 2 ^ 64"
    "cap v + cap v div 2 < 2 ^ 64"
proof -
  have "cap v < 2 ^ 63" using assms max_cap_bound [of s] by (simp add: vd_invar_def)
  moreover have "origin v \<le> cap v" "vd_size v \<le> cap v"
    using assms by (auto simp: vd_invar_def)
  ultimately show "origin v + vd_size v < 2 ^ 64" "origin v + vd_size v + 1 < 2 ^ 64"
    "cap v + cap v div 2 < 2 ^ 64"
    by simp_all
qed

lemma growsize_ge: "vd_invar s v \<Longrightarrow> sc_vecdeque_growsize (cap v) = cap v + cap v div 2"
  using vd_no_overflow(3) [of s v] by (simp add: sc_vecdeque_growsize_def)

lemma invar_init: "vd_invar s sc_vecdeque_init"
  by (simp add: vd_invar_def sc_vecdeque_init_def)

lemma contents_init [simp]: "vd_contents sc_vecdeque_init = []"
  by (simp add: vd_contents_def sc_vecdeque_init_def)

lemma ring_index_le:
  assumes "i < c" "(b + i) mod c = (b + j) mod c" "j \<le> i"
  shows "i = (j::nat)"
proof -
  have "c dvd b + i - (b + j)"
    using assms by (subst mod_eq_dvd_iff_nat [symmetric]) auto
  with assms show ?thesis by (auto dest: dvd_imp_le)
qed

lemma ring_index_inj:
  assumes "i < c" "j < c" "(b + i) mod c = (b + j) mod c"
  shows "i = (j::nat)"
  using assms ring_index_le [of i c b j] ring_index_le [of j c b i] by (cases "j \<le> i") auto

section \<open>Pushing, popping, growing\<close>

lemma push_noresize:
  assumes inv: "vd_invar s v" and room: "vd_size v < cap v"
  obtains v' where "sc_vecdeque_push_noresize x v = Some v'" "vd_invar s v'"
    "vd_contents v' = vd_contents v @ [x]" "cap v' = cap v"
proof -
  let ?n = "vd_size v" and ?k = "(origin v + vd_size v) mod cap v"
  define v' where "v' = v\<lparr>vd_size := ?n + 1, data := (data v)[?k := Some x]\<rparr>"
  have len: "length (data v) = cap v" and k: "?k < cap v"
    using inv room by (simp_all add: vd_invar_def)
  have eq: "sc_vecdeque_push_noresize x v = Some v'"
    using room len k
    by (simp add: sc_vecdeque_push_noresize_def sc_vecdeque_is_full_def mem_set_in v'_def)
  have other: "(origin v + i) mod cap v \<noteq> ?k" if "i < ?n" for i
    using ring_index_inj [of i "cap v" ?n "origin v"] that room by auto
  have cell: "data v' ! ((origin v + i) mod cap v) = (if i = ?n then Some x else data v ! ((origin v + i) mod cap v))"
    if "i \<le> ?n" for i
    using that other [of i] len k by (auto simp: v'_def)
  have "vd_contents v' = vd_contents v @ [x]"
    using cell by (auto simp: vd_contents_def v'_def)
  moreover have "vd_invar s v'"
    using inv room cell by (auto simp: vd_invar_def v'_def less_Suc_eq)
  ultimately show thesis using that eq by (simp add: v'_def)
qed

lemma pop_spec:
  assumes inv: "vd_invar s v" and c: "vd_contents v = x # xs"
  shows "\<exists>v'. sc_vecdeque_pop v = Some (x, v') \<and> vd_invar s v' \<and> vd_contents v' = xs \<and> cap v' = cap v"
proof -
  have n: "vd_size v = Suc (length xs)" using arg_cong [OF c, of length] by simp
  have org: "origin v < cap v" using inv n by (auto simp: vd_invar_def)
  define v' where "v' = v\<lparr>origin := (origin v + 1) mod cap v, vd_size := vd_size v - 1\<rparr>"
  have first: "data v ! origin v = Some x"
  proof -
    have "the (data v ! origin v) = x" using nth_vd_contents [of 0 v] n c org by simp
    moreover have "data v ! origin v \<noteq> None"
      using inv n org by (auto simp: vd_invar_def dest: spec [where x = 0])
    ultimately show ?thesis by auto
  qed
  have shift: "(origin v' + i) mod cap v = (origin v + Suc i) mod cap v" for i
    by (simp add: v'_def mod_add_left_eq)
  have "sc_vecdeque_pop v = Some (x, v')"
    using inv n org first
    by (simp add: sc_vecdeque_pop_def sc_vecdeque_popref_def sc_vecdeque_is_empty_def vd_invar_def
        mem_get_in v'_def)
  moreover have "vd_contents v' = xs"
  proof (rule nth_equalityI)
    show "length (vd_contents v') = length xs" using n by (simp add: v'_def)
    fix i assume "i < length (vd_contents v')"
    then have i: "i < vd_size v'" by simp
    then have "Suc i < vd_size v" "cap v' = cap v" "data v' = data v" by (simp_all add: v'_def)
    with i have "vd_contents v' ! i = vd_contents v ! Suc i"
      by (simp only: nth_vd_contents shift)
    with c show "vd_contents v' ! i = xs ! i" by simp
  qed
  moreover have "data v' ! ((origin v' + i) mod cap v') \<noteq> None" if "i < vd_size v'" for i
  proof -
    have "Suc i < vd_size v" "cap v' = cap v" "data v' = data v" using that by (simp_all add: v'_def)
    with inv show ?thesis by (simp only: shift vd_invar_def not_False_eq_True)
  qed
  then have "vd_invar s v'"
    using inv n org by (simp add: vd_invar_def v'_def)
  ultimately show ?thesis by (auto simp: v'_def)
qed

lemma realloc_spec:
  assumes inv: "vd_invar s v" and nc: "cap v < newcap" "newcap \<le> sc_vecdeque_max_cap s"
  obtains (Failed) "sc_vecdeque_realloc alloc newcap v = Some (False, v)" "\<not> alloc"
  | (Grown) v' where "sc_vecdeque_realloc alloc newcap v = Some (True, v')" "vd_invar s v'"
      "vd_contents v' = vd_contents v" "cap v' = newcap" "vd_size v' = vd_size v"
proof (cases alloc)
  case False
  with nc inv have "sc_vecdeque_realloc alloc newcap v = Some (False, v)"
    by (auto simp: sc_vecdeque_realloc_def sc_vecdeque_reallocdata_def vd_invar_def)
  with False that(1) show thesis by simp
next
  case True
  show thesis
  proof (cases "origin v + vd_size v \<le> cap v")
    case in_place: True
    define v' where "v' = v\<lparr>cap := newcap, data := data v @ replicate (newcap - cap v) None\<rparr>"
    have "sc_vecdeque_realloc alloc newcap v = Some (True, v')"
      using nc True in_place
      by (simp add: sc_vecdeque_realloc_def sc_vecdeque_reallocdata_def v'_def)
    moreover have cell: "data v' ! ((origin v + i) mod newcap) = data v ! ((origin v + i) mod cap v)"
      if "i < vd_size v" for i
      using that inv nc in_place by (simp add: v'_def nth_append vd_invar_def)
    then have "vd_contents v' = vd_contents v"
      by (auto simp: vd_contents_def v'_def)
    moreover have "vd_invar s v'"
      using inv nc cell by (auto simp: vd_invar_def v'_def)
    ultimately show thesis using that(2) [of v'] by (simp add: v'_def)
  next
    case wrapped: False
    let ?r = "cap v - origin v" and ?n = "vd_size v"
    have b: "origin v < cap v" "?n \<le> cap v" "length (data v) = cap v" "min ?n ?r = ?r" "?r < ?n"
      using inv wrapped by (auto simp: vd_invar_def)
    define new where "new = drop (origin v) (data v) @ take (?n - ?r) (data v)
                              @ replicate (newcap - ?n) None"
    define v' where "v' = v\<lparr>cap := newcap, origin := 0, data := new\<rparr>"
    have "sc_vecdeque_realloc alloc newcap v = Some (True, v')"
      using nc True wrapped b
      by (simp add: sc_vecdeque_realloc_def sc_vecdeque_reallocdata_def Let_def mem_read_def
          mem_write_def v'_def new_def)
    moreover have cell: "new ! i = data v ! ((origin v + i) mod cap v)" if "i < ?n" for i
    proof (cases "i < ?r")
      case False
      then have "origin v + i = cap v + (i - ?r)" "i - ?r < cap v" using b that by auto
      then have "(origin v + i) mod cap v = i - ?r" by (metis mod_add_self1 mod_less)
      moreover have "i + origin v - cap v < ?n + origin v - cap v" using False that b by linarith
      ultimately show ?thesis using False that b by (simp add: new_def nth_append)
    qed (use b in \<open>simp add: new_def nth_append\<close>)
    then have "vd_contents v' = vd_contents v"
      using b nc by (auto simp: vd_contents_def v'_def)
    moreover have "vd_invar s v'"
      using inv nc b cell by (auto simp: vd_invar_def v'_def new_def)
    ultimately show thesis using that(2) [of v'] by (simp add: v'_def)
  qed
qed

lemma grow_spec:
  assumes inv: "vd_invar s v"
  obtains (Failed) "sc_vecdeque_grow s alloc v = Some (False, v)"
      "alloc \<Longrightarrow> cap v = sc_vecdeque_max_cap s"
  | (Grown) v' where "sc_vecdeque_grow s alloc v = Some (True, v')" "vd_invar s v'"
      "vd_contents v' = vd_contents v" "cap v < cap v'" "vd_size v' = vd_size v"
proof (cases "cap v < sc_vecdeque_max_cap s")
  case False
  with inv that(1) show thesis by (simp add: sc_vecdeque_grow_def vd_invar_def)
next
  case True
  define nc where "nc = clamp (sc_vecdeque_growsize (cap v)) SC_VECDEQUE_MINCAP (sc_vecdeque_max_cap s)"
  have nc: "cap v < nc" "nc \<le> sc_vecdeque_max_cap s"
    using True growsize_ge [OF inv] by (auto simp: nc_def clamp_def SC_VECDEQUE_MINCAP_def)
  have eq: "sc_vecdeque_grow s alloc v = sc_vecdeque_realloc alloc nc v"
    using True by (simp add: sc_vecdeque_grow_def nc_def)
  from inv nc show thesis
    by (cases rule: realloc_spec [where alloc = alloc]) (use eq nc that in auto)
qed

lemma reserve_spec:
  assumes inv: "vd_invar s v" and m: "mincap \<le> sc_vecdeque_max_cap s"
  obtains (Failed) "sc_vecdeque_reserve s alloc mincap v = Some (False, v)"
      "alloc \<Longrightarrow> sc_vecdeque_max_cap s < SC_VECDEQUE_MINCAP"
  | (Reserved) v' where "sc_vecdeque_reserve s alloc mincap v = Some (True, v')" "vd_invar s v'"
      "vd_contents v' = vd_contents v" "mincap \<le> cap v'"
proof -
  let ?m = "max mincap SC_VECDEQUE_MINCAP"
  consider "?m \<le> cap v" | "cap v < ?m" "?m \<le> sc_vecdeque_max_cap s" | "sc_vecdeque_max_cap s < ?m" "cap v < ?m"
    by linarith
  then show thesis
  proof cases
    case 1
    with m inv that(2) [of v] show thesis by (simp add: sc_vecdeque_reserve_def)
  next
    case 2
    define nc where "nc = clamp (sc_vecdeque_growsize (cap v)) ?m (sc_vecdeque_max_cap s)"
    have nc: "cap v < nc" "nc \<le> sc_vecdeque_max_cap s" "mincap \<le> nc"
      using 2 by (auto simp: nc_def clamp_def)
    have eq: "sc_vecdeque_reserve s alloc mincap v = sc_vecdeque_realloc alloc nc v"
      using m 2 by (auto simp: sc_vecdeque_reserve_def nc_def Let_def)
    from inv nc(1,2) show thesis
      by (cases rule: realloc_spec [where alloc = alloc]) (use eq nc that in auto)
  next
    case 3
    with m have "sc_vecdeque_max_cap s < SC_VECDEQUE_MINCAP" by linarith
    moreover have "sc_vecdeque_reserve s alloc mincap v = Some (False, v)"
      using m 3 by (auto simp: sc_vecdeque_reserve_def Let_def)
    ultimately show thesis using that(1) by blast
  qed
qed

lemma push_spec:
  assumes inv: "vd_invar s v"
  obtains (Failed) "sc_vecdeque_push s alloc x v = Some (False, v)"
      "alloc \<Longrightarrow> vd_size v = sc_vecdeque_max_cap s"
  | (Pushed) v' where "sc_vecdeque_push s alloc x v = Some (True, v')" "vd_invar s v'"
      "vd_contents v' = vd_contents v @ [x]" "cap v \<le> cap v'"
proof (cases "sc_vecdeque_is_full v")
  case False
  with inv have "vd_size v < cap v" by (simp add: sc_vecdeque_is_full_def vd_invar_def)
  with inv obtain v' where "sc_vecdeque_push_noresize x v = Some v'" "vd_invar s v'"
    "vd_contents v' = vd_contents v @ [x]" "cap v' = cap v" by (rule push_noresize)
  with False that(2) [of v'] show thesis
    by (simp add: sc_vecdeque_push_def sc_vecdeque_grow_if_needed_def)
next
  case True
  then have full: "vd_size v = cap v" by (simp add: sc_vecdeque_is_full_def)
  from inv show thesis
  proof (cases rule: grow_spec [where alloc = alloc])
    case Failed
    with True full that(1) show thesis
      by (simp add: sc_vecdeque_push_def sc_vecdeque_grow_if_needed_def)
  next
    case (Grown v1)
    with full have "vd_size v1 < cap v1" by simp
    with Grown obtain v' where "sc_vecdeque_push_noresize x v1 = Some v'" "vd_invar s v'"
      "vd_contents v' = vd_contents v1 @ [x]" "cap v' = cap v1" by (meson push_noresize)
    with True Grown that(2) [of v'] show thesis
      by (simp add: sc_vecdeque_push_def sc_vecdeque_grow_if_needed_def)
  qed
qed

lemma is_empty_contents: "sc_vecdeque_is_empty v \<longleftrightarrow> vd_contents v = []"
  by (simp add: sc_vecdeque_is_empty_def vd_contents_def)

lemma pop_empty_None: "vd_contents v = [] \<Longrightarrow> sc_vecdeque_pop v = None"
  by (simp add: is_empty_contents [symmetric] sc_vecdeque_pop_def sc_vecdeque_popref_def)

section \<open>The ring buffer is a queue\<close>

interpretation vd: fifo_queue vd_contents "vd_invar s" sc_vecdeque_is_empty "sc_vecdeque_push s"
  sc_vecdeque_pop "\<lambda>v. vd_size v < sc_vecdeque_max_cap s" for s
proof
  fix q :: "'a vecdeque" and alloc x ok q' xs
  assume inv: "vd_invar s q"
  show "sc_vecdeque_is_empty q \<longleftrightarrow> vd_contents q = []" by (rule is_empty_contents)
  show "\<exists>ok q'. sc_vecdeque_push s alloc x q = Some (ok, q')"
    using inv by (rule push_spec [where alloc = alloc and x = x]) blast+
  show "vd_invar s q'" if "sc_vecdeque_push s alloc x q = Some (ok, q')"
    using inv by (rule push_spec [where alloc = alloc and x = x]) (use that inv in auto)
  show "vd_contents q' = vd_contents q @ [x]" if "sc_vecdeque_push s alloc x q = Some (True, q')"
    using inv by (rule push_spec [where alloc = alloc and x = x]) (use that in auto)
  show "q' = q" if "sc_vecdeque_push s alloc x q = Some (False, q')"
    using inv by (rule push_spec [where alloc = alloc and x = x]) (use that in auto)
  show ok if "vd_size q < sc_vecdeque_max_cap s" alloc "sc_vecdeque_push s alloc x q = Some (ok, q')"
    using inv by (rule push_spec [where alloc = alloc and x = x]) (use that in auto)
  show "\<exists>q'. sc_vecdeque_pop q = Some (x, q') \<and> vd_invar s q' \<and> vd_contents q' = xs"
    if "vd_contents q = x # xs"
    using pop_spec [OF inv that] by blast
  show "sc_vecdeque_pop q = None" if "vd_contents q = []"
    using that by (rule pop_empty_None)
qed

section \<open>Properties\<close>

text \<open>C36. The ring buffer refines a FIFO list. On every buffer that satisfies the invariant, neither push
  nor pop aborts, both keep the invariant, and on the contents: a push appends its item, or fails and
  changes nothing, which happens only when the allocation of a larger array failed or the buffer holds
  the largest number of items; a pop of a buffer that is not empty removes and returns the first item.\<close>

theorem vecdeque_refines_list:
  assumes "vd_invar s v"
  shows "((\<exists>v'. sc_vecdeque_push s alloc x v = Some (True, v') \<and> vd_invar s v' \<and>
                vd_contents v' = vd_contents v @ [x]) \<or>
          sc_vecdeque_push s alloc x v = Some (False, v) \<and>
            (\<not> alloc \<or> length (vd_contents v) = sc_vecdeque_max_cap s)) \<and>
         (case vd_contents v of
            [] \<Rightarrow> sc_vecdeque_pop v = None
          | y # ys \<Rightarrow> \<exists>v'. sc_vecdeque_pop v = Some (y, v') \<and> vd_invar s v' \<and> vd_contents v' = ys)"
    (is "?push \<and> ?pop")
proof
  from assms show ?push by (cases rule: push_spec [where alloc = alloc and x = x]) auto
  from assms show ?pop by (cases rule: vd.pop_cases) auto
qed

theorem vecdeque_refines_list_witness:
  "\<exists>v' :: nat vecdeque. vd_invar 8 (sc_vecdeque_init :: nat vecdeque) \<and>
     sc_vecdeque_push 8 True 5 sc_vecdeque_init = Some (True, v') \<and> vd_contents v' = [5]"
  using vecdeque_refines_list [OF invar_init, of 8 True "5 :: nat"]
  by (auto simp: invar_init sc_vecdeque_max_cap_def SIZE_MAX_def)

text \<open>No \<^verbatim>\<open>size_t\<close> computation of the macros wraps: on a buffer that satisfies the invariant, the
  position of the next item, that of the next origin, the growth step and the size in bytes of the
  array are all below \<open>2^64\<close>, and the growth step is the exact factor 1.5.\<close>

theorem vecdeque_no_wraparound:
  assumes "vd_invar s v"
  shows "origin v + vd_size v + 1 < 2 ^ 64 \<and> cap v * s < 2 ^ 64 \<and>
         sc_vecdeque_growsize (cap v) = cap v + cap v div 2"
proof -
  have "cap v * s \<le> SIZE_MAX div 2"
  proof (cases "s = 0")
    case False
    have "cap v * s \<le> SIZE_MAX div 2 div s * s"
      using assms by (simp add: vd_invar_def sc_vecdeque_max_cap_def)
    also have "\<dots> \<le> SIZE_MAX div 2" by simp
    finally show ?thesis .
  qed simp
  moreover have "SIZE_MAX div 2 < 2 ^ 64" by (simp add: SIZE_MAX_def)
  ultimately have "cap v * s < 2 ^ 64" by (rule le_less_trans)
  with vd_no_overflow(2) [OF assms] growsize_ge [OF assms] show ?thesis by blast
qed

theorem vecdeque_no_wraparound_witness:
  "vd_invar 8 \<lparr>cap = 10, origin = 9, vd_size = 2, data = replicate 10 (Some True)\<rparr> \<and>
   sc_vecdeque_growsize 10 = 15"
proof -
  have "vd_invar 8 \<lparr>cap = 10, origin = 9, vd_size = 2, data = replicate 10 (Some True)\<rparr>"
    by (simp add: vd_invar_def sc_vecdeque_max_cap_def SIZE_MAX_def)
  with vecdeque_no_wraparound [OF this] show ?thesis by simp
qed

end
