(* ===== verification/Controller.thy ===== *)
theory Controller
  imports ControlMsg Vecdeque
begin

text \<open>
  \<^verbatim>\<open>app/src/controller.c\<close>: the queue of control messages and the thread that serialises them to the
  control socket. Every function of the API runs under the mutex, so one call is one step; the
  controller thread is split where it releases the mutex: the check of its wait condition (which ends
  in a wait, in the end of the thread, or with a message taken), and the processing of that message.
\<close>

section \<open>State\<close>

definition SC_CONTROL_MSG_QUEUE_LIMIT :: nat where
  "SC_CONTROL_MSG_QUEUE_LIMIT = 60"

record sc_controller =
  ctl_stopped :: bool
  ctl_queue :: "sc_control_msg vecdeque"
  resize_width :: u16
  resize_height :: u16

text \<open>Where the controller thread is: before evaluating the wait condition, blocked on the condition
  variable, processing a message outside the mutex, or ended with the \<^verbatim>\<open>error\<close> flag it reports.\<close>

datatype ctl_pc = Checking | Waiting | Processing sc_control_msg | Ended bool

record ctl_sys =
  ctl :: sc_controller
  ctl_thread :: ctl_pc
  serialized_msg :: byte_buf
  socket :: byte_buf
  accepted :: "sc_control_msg list"
  taken :: "sc_control_msg list"

text \<open>The fields \<open>accepted\<close> and \<open>taken\<close> are history: the messages for which \<^verbatim>\<open>sc_controller_push_msg\<close>
  returned true, and those the thread has taken, resize requests included, both in order.
  \<open>socket\<close> holds all the bytes sent so far.\<close>

section \<open>Operations\<close>

text \<open>\<^verbatim>\<open>sc_controller_init\<close>. The arguments say which of the four initialisations succeed; the result
  is \<open>None\<close> under \<open>Some\<close> when it returns false.\<close>

definition sc_controller_init ::
  "nat \<Rightarrow> bool \<Rightarrow> bool \<Rightarrow> bool \<Rightarrow> bool \<Rightarrow> sc_controller option option" where
  "sc_controller_init item_size alloc receiver_ok mutex_ok cond_ok = do {
     (ok, queue) \<leftarrow> sc_vecdeque_reserve item_size alloc (SC_CONTROL_MSG_QUEUE_LIMIT + 4) sc_vecdeque_init;
     if \<not> ok then Some None
     else if \<not> receiver_ok then Some None
     else if \<not> mutex_ok then Some None
     else if \<not> cond_ok then Some None
     else Some (Some \<lparr>ctl_stopped = False, ctl_queue = queue, resize_width = 0, resize_height = 0\<rparr>)
   }"

text \<open>The result of a push: whether the message was queued, whether the condition is signalled.\<close>

definition sc_controller_push_msg ::
  "nat \<Rightarrow> bool \<Rightarrow> sc_control_msg \<Rightarrow> sc_controller \<Rightarrow> (bool \<times> bool \<times> sc_controller) option" where
  "sc_controller_push_msg item_size alloc msg c = do {
     c_assert (\<not> is_RESIZE_DISPLAY msg);
     if vd_size (ctl_queue c) < SC_CONTROL_MSG_QUEUE_LIMIT then do {
       let was_empty = sc_vecdeque_is_empty (ctl_queue c);
       q \<leftarrow> sc_vecdeque_push_noresize msg (ctl_queue c);
       Some (True, was_empty, c\<lparr>ctl_queue := q\<rparr>)
     } else if \<not> sc_control_msg_is_droppable msg then do {
       (ok, q) \<leftarrow> sc_vecdeque_push item_size alloc msg (ctl_queue c);
       Some (ok, False, c\<lparr>ctl_queue := q\<rparr>)
     } else Some (False, False, c)
   }"

definition sc_controller_resize_display ::
  "u16 \<Rightarrow> u16 \<Rightarrow> sc_controller \<Rightarrow> (bool \<times> sc_controller) option" where
  "sc_controller_resize_display w h c = do {
     c_assert (w \<noteq> 0 \<and> h \<noteq> 0);
     let was_set = (resize_width c \<noteq> 0);
     Some (\<not> was_set, c\<lparr>resize_width := w, resize_height := h\<rparr>)
   }"

definition sc_controller_stop :: "sc_controller \<Rightarrow> sc_controller" where
  "sc_controller_stop c = c\<lparr>ctl_stopped := True\<rparr>"

text \<open>\<^verbatim>\<open>process_msg\<close>: \<open>w\<close> is the result of \<^verbatim>\<open>net_send_all\<close>, the number of bytes it wrote or a negative
  error. The result is the pair (ok, eos), the bytes written to the socket and the static buffer.\<close>

definition process_msg ::
  "int \<Rightarrow> sc_control_msg \<Rightarrow> byte_buf \<Rightarrow> ((bool \<times> bool) \<times> byte_buf \<times> byte_buf) option" where
  "process_msg w msg buf = do {
     (length, buf) \<leftarrow> sc_control_msg_serialize msg buf;
     if length = 0 then Some ((False, False), [], buf)
     else (let bytes = take (nat w) (take length buf) in
           if w \<noteq> int length then Some ((False, True), bytes, buf)
           else Some ((True, False), bytes, buf))
   }"

text \<open>The part of the loop of \<^verbatim>\<open>run_controller\<close> under the mutex, from the wait condition on.\<close>

definition run_controller_check :: "sc_controller \<Rightarrow> (ctl_pc \<times> sc_controller) option" where
  "run_controller_check c =
     (if \<not> ctl_stopped c \<and> resize_width c = 0 \<and> sc_vecdeque_is_empty (ctl_queue c)
      then Some (Waiting, c)
      else if ctl_stopped c then Some (Ended False, c)
      else do {
        let has_resize_display = (resize_width c \<noteq> 0);
        c_assert (has_resize_display \<or> \<not> sc_vecdeque_is_empty (ctl_queue c));
        if has_resize_display
        then Some (Processing (RESIZE_DISPLAY (resize_width c) (resize_height c)),
                   c\<lparr>resize_width := 0, resize_height := 0\<rparr>)
        else do {
          (msg, q) \<leftarrow> sc_vecdeque_pop (ctl_queue c);
          Some (Processing msg, c\<lparr>ctl_queue := q\<rparr>)
        }
      })"

text \<open>After \<^verbatim>\<open>process_msg\<close>: loop again, or end; \<^verbatim>\<open>error = !eos\<close>.\<close>

definition run_controller_after :: "bool \<times> bool \<Rightarrow> ctl_pc" where
  "run_controller_after = (\<lambda>(ok, eos). if ok then Checking else Ended (\<not> eos))"

section \<open>Steps\<close>

text \<open>\<^verbatim>\<open>sc_cond_signal\<close> wakes the controller thread if it waits; a wake-up may also be spurious.\<close>

definition cond_signal :: "bool \<Rightarrow> ctl_pc \<Rightarrow> ctl_pc" where
  "cond_signal sig pc = (if sig \<and> pc = Waiting then Checking else pc)"

datatype ctl_event =
    Push bool sc_control_msg
  | Resize u16 u16
  | Stop
  | Spurious
  | Check
  | Process int

fun ctl_step :: "nat \<Rightarrow> ctl_event \<Rightarrow> ctl_sys \<Rightarrow> ctl_sys option" where
  "ctl_step s (Push alloc msg) y = do {
     (pushed, sig, c) \<leftarrow> sc_controller_push_msg s alloc msg (ctl y);
     Some (y\<lparr>ctl := c, ctl_thread := cond_signal sig (ctl_thread y),
             accepted := (if pushed then accepted y @ [msg] else accepted y)\<rparr>)
   }"
| "ctl_step s (Resize w h) y = do {
     (sig, c) \<leftarrow> sc_controller_resize_display w h (ctl y);
     Some (y\<lparr>ctl := c, ctl_thread := cond_signal sig (ctl_thread y)\<rparr>)
   }"
| "ctl_step s Stop y =
     Some (y\<lparr>ctl := sc_controller_stop (ctl y), ctl_thread := cond_signal True (ctl_thread y)\<rparr>)"
| "ctl_step s Spurious y = Some (y\<lparr>ctl_thread := cond_signal True (ctl_thread y)\<rparr>)"
| "ctl_step s Check y =
     (if ctl_thread y = Checking then do {
        (pc, c) \<leftarrow> run_controller_check (ctl y);
        Some (y\<lparr>ctl := c, ctl_thread := pc,
                taken := (case pc of Processing m \<Rightarrow> taken y @ [m] | _ \<Rightarrow> taken y)\<rparr>)
      } else Some y)"
| "ctl_step s (Process w) y =
     (case ctl_thread y of
        Processing m \<Rightarrow> do {
          (r, bytes, buf) \<leftarrow> process_msg w m (serialized_msg y);
          Some (y\<lparr>ctl_thread := run_controller_after r, serialized_msg := buf,
                  socket := socket y @ bytes\<rparr>)
        }
      | _ \<Rightarrow> Some y)"

definition ctl_start :: "sc_controller \<Rightarrow> byte_buf \<Rightarrow> ctl_sys" where
  "ctl_start c buf = \<lparr>ctl = c, ctl_thread = Checking, serialized_msg = buf, socket = [],
                      accepted = [], taken = []\<rparr>"

text \<open>The calls the rest of the client makes: well-formed messages other than resize requests, and
  resize requests with a non-zero size.\<close>

fun good_event :: "ctl_event \<Rightarrow> bool" where
  "good_event (Push _ msg) \<longleftrightarrow> wf_control_msg msg \<and> \<not> is_RESIZE_DISPLAY msg"
| "good_event (Resize w h) \<longleftrightarrow> w \<noteq> 0 \<and> h \<noteq> 0"
| "good_event _ \<longleftrightarrow> True"

inductive ctl_reach :: "nat \<Rightarrow> ctl_sys \<Rightarrow> bool" for s where
  start: "sc_controller_init s alloc True True True = Some (Some c) \<Longrightarrow>
          length buf = SC_CONTROL_MSG_MAX_SIZE \<Longrightarrow> ctl_reach s (ctl_start c buf)"
| step: "ctl_reach s y \<Longrightarrow> good_event e \<Longrightarrow> ctl_step s e y = Some y' \<Longrightarrow> ctl_reach s y'"

text \<open>\<^verbatim>\<open>sc_controller_destroy\<close>: pops and destroys what is left; the result is what it frees.\<close>

fun sc_controller_destroy :: "nat \<Rightarrow> sc_control_msg vecdeque \<Rightarrow> byte_buf option list option" where
  "sc_controller_destroy 0 q = (if sc_vecdeque_is_empty q then Some [] else None)"
| "sc_controller_destroy (Suc fuel) q =
     (if sc_vecdeque_is_empty q then Some []
      else do {
        (msg, q) \<leftarrow> sc_vecdeque_pop q;
        freed \<leftarrow> sc_controller_destroy fuel q;
        Some (sc_control_msg_destroy msg @ freed)
      })"

section \<open>Invariant\<close>

abbreviation wire :: "sc_control_msg list \<Rightarrow> byte_buf" where
  "wire ms \<equiv> concat (map control_msg_bytes ms)"

text \<open>What is on the socket, by the state of the thread.\<close>

fun socket_ok :: "ctl_pc \<Rightarrow> sc_control_msg list \<Rightarrow> byte_buf \<Rightarrow> bool" where
  "socket_ok (Processing m) ms b \<longleftrightarrow> (\<exists>ts. ms = ts @ [m] \<and> b = wire ts)"
| "socket_ok (Ended err) ms b \<longleftrightarrow>
     \<not> err \<and> (b = wire ms \<or> (\<exists>ts m k. ms = ts @ [m] \<and> b = wire ts @ take k (control_msg_bytes m)))"
| "socket_ok _ ms b \<longleftrightarrow> b = wire ms"

definition idle :: "sc_controller \<Rightarrow> bool" where
  "idle c \<longleftrightarrow> \<not> ctl_stopped c \<and> resize_width c = 0 \<and> vd_contents (ctl_queue c) = []"

definition queue_ok :: "nat \<Rightarrow> sc_controller \<Rightarrow> bool" where
  "queue_ok s c \<longleftrightarrow> vd_invar s (ctl_queue c) \<and> SC_CONTROL_MSG_QUEUE_LIMIT + 4 \<le> cap (ctl_queue c) \<and>
     (\<forall>m \<in> set (vd_contents (ctl_queue c)). wf_control_msg m \<and> \<not> is_RESIZE_DISPLAY m)"

definition ctl_inv :: "nat \<Rightarrow> ctl_sys \<Rightarrow> bool" where
  "ctl_inv s y \<longleftrightarrow>
     queue_ok s (ctl y) \<and>
     length (serialized_msg y) = SC_CONTROL_MSG_MAX_SIZE \<and>
     (\<forall>m \<in> set (taken y). wf_control_msg m) \<and>
     accepted y = filter (\<lambda>m. \<not> is_RESIZE_DISPLAY m) (taken y) @ vd_contents (ctl_queue (ctl y)) \<and>
     (ctl_thread y = Waiting \<longrightarrow> idle (ctl y)) \<and>
     socket_ok (ctl_thread y) (taken y) (socket y)"

lemma cond_signal_socket [simp]: "socket_ok (cond_signal sig pc) ms b = socket_ok pc ms b"
  by (cases pc) (simp_all add: cond_signal_def)

lemma cond_signal_Waiting [simp]: "cond_signal sig pc = Waiting \<longleftrightarrow> pc = Waiting \<and> \<not> sig"
  by (auto simp: cond_signal_def)

lemma init_queue_ok:
  assumes "sc_controller_init s alloc r m c = Some (Some ct)"
  shows "queue_ok s ct" "idle ct"
proof -
  from assms have le: "SC_CONTROL_MSG_QUEUE_LIMIT + 4 \<le> sc_vecdeque_max_cap s"
    by (auto simp: sc_controller_init_def sc_vecdeque_reserve_def bind_Some_iff split: prod.splits)
  have "queue_ok s ct \<and> idle ct"
    using invar_init [where s = s and 'a = sc_control_msg] le
    by (cases rule: reserve_spec [where alloc = alloc])
      (use assms in \<open>auto simp: sc_controller_init_def queue_ok_def idle_def split: if_splits\<close>)
  then show "queue_ok s ct" "idle ct" by simp_all
qed

text \<open>A push never aborts, keeps the queue, and signals whenever the thread may be waiting.\<close>

lemma push_msg_spec:
  assumes q: "queue_ok s c" and m: "wf_control_msg msg" "\<not> is_RESIZE_DISPLAY msg"
  obtains (Queued) sig c' where "sc_controller_push_msg s alloc msg c = Some (True, sig, c')"
      "queue_ok s c'" "vd_contents (ctl_queue c') = vd_contents (ctl_queue c) @ [msg]"
      "vd_contents (ctl_queue c) = [] \<Longrightarrow> sig" "ctl_stopped c' = ctl_stopped c"
      "resize_width c' = resize_width c" "resize_height c' = resize_height c"
  | (Dropped) "sc_controller_push_msg s alloc msg c = Some (False, False, c)"
      "SC_CONTROL_MSG_QUEUE_LIMIT \<le> length (vd_contents (ctl_queue c))"
      "alloc \<Longrightarrow> sc_control_msg_is_droppable msg \<or> vd_size (ctl_queue c) = sc_vecdeque_max_cap s"
proof (cases "vd_size (ctl_queue c) < SC_CONTROL_MSG_QUEUE_LIMIT")
  case True
  with q have "vd_invar s (ctl_queue c)" "vd_size (ctl_queue c) < cap (ctl_queue c)"
    by (simp_all add: queue_ok_def)
  then obtain v where v: "sc_vecdeque_push_noresize msg (ctl_queue c) = Some v" "vd_invar s v"
    "vd_contents v = vd_contents (ctl_queue c) @ [msg]" "cap v = cap (ctl_queue c)"
    by (rule push_noresize)
  then show thesis
    using True m q that(1) [of "sc_vecdeque_is_empty (ctl_queue c)" "c\<lparr>ctl_queue := v\<rparr>"]
    by (simp add: sc_controller_push_msg_def queue_ok_def is_empty_contents)
next
  case full: False
  show thesis
  proof (cases "sc_control_msg_is_droppable msg")
    case True
    with full m that(2) show thesis by (simp add: sc_controller_push_msg_def)
  next
    case False
    from q have "vd_invar s (ctl_queue c)" by (simp add: queue_ok_def)
    then show thesis
    proof (cases rule: push_spec [where alloc = alloc and x = msg])
      case Failed
      with full False m that(2) show thesis by (simp add: sc_controller_push_msg_def)
    next
      case (Pushed v)
      moreover have "vd_contents (ctl_queue c) \<noteq> []"
        using full by (auto simp: SC_CONTROL_MSG_QUEUE_LIMIT_def dest: arg_cong [where f = length])
      ultimately show thesis
        using full False m q that(1) [of False "c\<lparr>ctl_queue := v\<rparr>"]
        by (simp add: sc_controller_push_msg_def queue_ok_def)
    qed
  qed
qed

lemma check_spec:
  assumes q: "queue_ok s c"
  obtains (Wait) "run_controller_check c = Some (Waiting, c)" "idle c"
  | (End) "run_controller_check c = Some (Ended False, c)" "ctl_stopped c"
  | (TakeResize) "run_controller_check c =
        Some (Processing (RESIZE_DISPLAY (resize_width c) (resize_height c)), c\<lparr>resize_width := 0, resize_height := 0\<rparr>)"
      "\<not> ctl_stopped c" "resize_width c \<noteq> 0"
  | (TakeMsg) m v where "run_controller_check c = Some (Processing m, c\<lparr>ctl_queue := v\<rparr>)"
      "\<not> ctl_stopped c" "resize_width c = 0" "vd_contents (ctl_queue c) = m # vd_contents v"
      "vd_invar s v" "cap v = cap (ctl_queue c)"
proof -
  consider "idle c" | "ctl_stopped c" | "\<not> ctl_stopped c" "resize_width c \<noteq> 0"
    | "\<not> ctl_stopped c" "resize_width c = 0" "vd_contents (ctl_queue c) \<noteq> []"
    by (auto simp: idle_def)
  then show thesis
  proof cases
    case 1
    with that(1) show thesis by (simp add: run_controller_check_def idle_def is_empty_contents)
  next
    case 2
    with that(2) show thesis by (simp add: run_controller_check_def)
  next
    case 3
    with that(3) show thesis by (simp add: run_controller_check_def)
  next
    case 4
    then obtain m ms where c: "vd_contents (ctl_queue c) = m # ms" by (cases "vd_contents (ctl_queue c)") auto
    with pop_spec [OF _ c] q obtain v where "sc_vecdeque_pop (ctl_queue c) = Some (m, v)"
      "vd_invar s v" "vd_contents v = ms" "cap v = cap (ctl_queue c)"
      by (auto simp: queue_ok_def)
    with 4 c that(4) [of m v] show thesis by (simp add: run_controller_check_def is_empty_contents)
  qed
qed

lemma process_spec:
  assumes "wf_control_msg m" "length buf = SC_CONTROL_MSG_MAX_SIZE"
  obtains buf' where "length buf' = SC_CONTROL_MSG_MAX_SIZE"
    "process_msg w m buf =
       Some ((w = int (length (control_msg_bytes m)), w \<noteq> int (length (control_msg_bytes m))),
             take (nat w) (control_msg_bytes m), buf')"
proof -
  let ?b = "control_msg_bytes m"
  have len: "length ?b \<le> length buf" using length_control_msg_bytes assms by simp
  then have "sc_control_msg_serialize m buf = Some (length ?b, ?b @ drop (length ?b) buf)"
    by (simp add: serialize_eq [OF assms(1)] mem_write_in)
  moreover have "length ?b \<noteq> 0" by (simp add: control_msg_bytes_def)
  ultimately show thesis
    using len assms(2) that [of "?b @ drop (length ?b) buf"] by (simp add: process_msg_def Let_def del: take_take)
qed

lemma init_inv:
  assumes "sc_controller_init s alloc True True True = Some (Some c)"
    "length buf = SC_CONTROL_MSG_MAX_SIZE"
  shows "ctl_inv s (ctl_start c buf)"
  using init_queue_ok [OF assms(1)] assms(2) by (simp add: ctl_inv_def ctl_start_def idle_def)

text \<open>No good event aborts, and every step keeps the invariant.\<close>

lemma push_step:
  assumes "ctl_inv s y" "good_event (Push alloc msg)"
  shows "\<exists>y'. ctl_step s (Push alloc msg) y = Some y' \<and> ctl_inv s y'"
proof -
  from assms have "queue_ok s (ctl y)" "wf_control_msg msg" "\<not> is_RESIZE_DISPLAY msg"
    by (simp_all add: ctl_inv_def)
  then show ?thesis
  proof (cases rule: push_msg_spec [where alloc = alloc])
    case (Queued sig c')
    with assms show ?thesis by (auto simp: ctl_inv_def idle_def)
  next
    case Dropped
    with assms show ?thesis by (auto simp: ctl_inv_def idle_def)
  qed
qed

lemma resize_step:
  assumes "ctl_inv s y" "good_event (Resize w h)"
  shows "\<exists>y'. ctl_step s (Resize w h) y = Some y' \<and> ctl_inv s y'"
  using assms
  by (auto simp: sc_controller_resize_display_def ctl_inv_def queue_ok_def idle_def)

lemma check_step:
  assumes inv: "ctl_inv s y"
  shows "\<exists>y'. ctl_step s Check y = Some y' \<and> ctl_inv s y'"
proof (cases "ctl_thread y = Checking")
  case True
  with inv have sock: "socket y = wire (taken y)" by (simp add: ctl_inv_def)
  from inv have "queue_ok s (ctl y)" by (simp add: ctl_inv_def)
  then show ?thesis
  proof (cases rule: check_spec)
    case (TakeMsg m v)
    then have "wf_control_msg m" "\<not> is_RESIZE_DISPLAY m" "queue_ok s ((ctl y)\<lparr>ctl_queue := v\<rparr>)"
      using inv by (auto simp: ctl_inv_def queue_ok_def)
    with TakeMsg True inv sock show ?thesis by (auto simp: ctl_inv_def)
  qed (use True inv sock in \<open>auto simp: ctl_inv_def queue_ok_def\<close>)
qed (use inv in auto)

lemma process_step:
  assumes inv: "ctl_inv s y"
  shows "\<exists>y'. ctl_step s (Process w) y = Some y' \<and> ctl_inv s y'"
proof (cases "ctl_thread y")
  case (Processing m)
  with inv obtain ts where ts: "taken y = ts @ [m]" "socket y = wire ts" by (auto simp: ctl_inv_def)
  with inv have "wf_control_msg m" "length (serialized_msg y) = SC_CONTROL_MSG_MAX_SIZE"
    by (simp_all add: ctl_inv_def)
  then obtain buf where "length buf = SC_CONTROL_MSG_MAX_SIZE"
    "process_msg w m (serialized_msg y) =
       Some ((w = int (length (control_msg_bytes m)), w \<noteq> int (length (control_msg_bytes m))),
             take (nat w) (control_msg_bytes m), buf)"
    by (rule process_spec)
  with Processing ts inv show ?thesis
    by (auto simp: ctl_inv_def run_controller_after_def)
qed (use inv in auto)

lemma ctl_step_inv:
  assumes "ctl_inv s y" "good_event e"
  shows "\<exists>y'. ctl_step s e y = Some y' \<and> ctl_inv s y'"
proof (cases e)
  case Push
  with assms push_step show ?thesis by blast
next
  case Resize
  with assms resize_step show ?thesis by blast
next
  case Check
  with assms check_step show ?thesis by blast
next
  case Process
  with assms process_step show ?thesis by blast
qed (use assms in \<open>auto simp: ctl_inv_def sc_controller_stop_def queue_ok_def\<close>)

lemma ctl_reach_inv: "ctl_reach s y \<Longrightarrow> ctl_inv s y"
proof (induction rule: ctl_reach.induct)
  case (start alloc c buf)
  then show ?case by (rule init_inv)
next
  case (step y e y')
  with ctl_step_inv [OF step.IH step.hyps(2)] show ?case by auto
qed

lemma progress_step:
  assumes inv: "ctl_inv s y" and "ctl_thread y = Checking" "\<not> ctl_stopped (ctl y)" "resize_width (ctl y) = 0"
    "vd_contents (ctl_queue (ctl y)) = m # ms"
  shows "\<exists>y1 y2. ctl_step s Check y = Some y1 \<and>
           ctl_step s (Process (int (length (control_msg_bytes m)))) y1 = Some y2 \<and>
           socket y2 = socket y @ control_msg_bytes m \<and>
           vd_contents (ctl_queue (ctl y2)) = ms \<and> ctl_thread y2 = Checking \<and> taken y2 = taken y @ [m]"
proof -
  from inv have q: "queue_ok s (ctl y)" by (simp add: ctl_inv_def)
  then show ?thesis
  proof (cases rule: check_spec)
    case (TakeMsg m' v)
    with assms(5) have m: "m' = m" "vd_contents v = ms" by simp_all
    have "wf_control_msg m" "length (serialized_msg y) = SC_CONTROL_MSG_MAX_SIZE"
      using inv assms(5) by (auto simp: ctl_inv_def queue_ok_def)
    then obtain buf where "process_msg (int (length (control_msg_bytes m))) m (serialized_msg y) =
       Some ((True, False), control_msg_bytes m, buf)"
      by (rule process_spec [where w = "int (length (control_msg_bytes m))"]) simp
    with TakeMsg m assms(2) show ?thesis by (simp add: run_controller_after_def)
  qed (use assms in \<open>simp_all add: idle_def\<close>)
qed

lemma destroy_eq:
  "vd_invar s q \<Longrightarrow> length (vd_contents q) \<le> n \<Longrightarrow>
   sc_controller_destroy n q = Some (concat (map sc_control_msg_destroy (vd_contents q)))"
proof (induction n arbitrary: q)
  case 0
  then show ?case by (simp add: is_empty_contents vd_contents_def)
next
  case (Suc n)
  from Suc.prems(1) show ?case
  proof (cases rule: vd.pop_cases)
    case Empty
    then show ?thesis by (simp add: is_empty_contents)
  next
    case (Popped x q')
    with Suc show ?thesis by (simp add: is_empty_contents)
  qed
qed

section \<open>Properties\<close>

text \<open>The controller \<^verbatim>\<open>sc_controller_init\<close> produces when everything succeeds, with messages of 128 bytes,
  and the system started on it: the concrete state the witnesses use.\<close>

definition fresh_controller :: sc_controller where
  "fresh_controller = \<lparr>ctl_stopped = False,
     ctl_queue = \<lparr>cap = 64, origin = 0, vd_size = 0, data = replicate 64 None\<rparr>,
     resize_width = 0, resize_height = 0\<rparr>"

definition fresh_system :: ctl_sys where
  "fresh_system = ctl_start fresh_controller (replicate SC_CONTROL_MSG_MAX_SIZE 0)"

lemma init_fresh: "sc_controller_init 128 True True True True = Some (Some fresh_controller)"
  by (simp add: sc_controller_init_def sc_vecdeque_reserve_def sc_vecdeque_max_cap_def SIZE_MAX_def
      SC_CONTROL_MSG_QUEUE_LIMIT_def SC_VECDEQUE_MINCAP_def sc_vecdeque_init_def clamp_def
      sc_vecdeque_growsize_def sc_vecdeque_realloc_def sc_vecdeque_reallocdata_def fresh_controller_def)

lemma reach_fresh: "ctl_reach 128 fresh_system"
  unfolding fresh_system_def by (rule ctl_reach.start [OF init_fresh]) simp

lemma contents_fresh [simp]: "vd_contents (ctl_queue fresh_controller) = []"
  by (simp add: vd_contents_def fresh_controller_def)

lemma fresh_simps [simp]:
  "ctl fresh_system = fresh_controller" "ctl_thread fresh_system = Checking"
  "socket fresh_system = []" "accepted fresh_system = []" "taken fresh_system = []"
  "ctl_stopped fresh_controller = False" "resize_width fresh_controller = 0"
  by (simp_all add: fresh_system_def ctl_start_def fresh_controller_def)

text \<open>The system after one push, and then after the thread has checked its condition.\<close>

lemma push_fresh:
  "ctl_step 128 (Push True COLLAPSE_PANELS) fresh_system =
     Some (fresh_system\<lparr>ctl := fresh_controller\<lparr>ctl_queue :=
             \<lparr>cap = 64, origin = 0, vd_size = 1, data = Some COLLAPSE_PANELS # replicate 63 None\<rparr>\<rparr>,
             ctl_thread := Checking, accepted := [COLLAPSE_PANELS]\<rparr>)"
  by (simp add: sc_controller_push_msg_def SC_CONTROL_MSG_QUEUE_LIMIT_def fresh_controller_def
      sc_vecdeque_push_noresize_def sc_vecdeque_is_full_def mem_set_def sc_vecdeque_is_empty_def
      cond_signal_def fresh_system_def ctl_start_def)
    (simp add: numeral_eq_Suc)

text \<open>C1. Nothing the client does with the controller aborts: from any state the system can reach,
  with messages that are well-formed and resize requests that are not empty, every call and every step
  of the controller thread runs to its end, whatever allocations and sends do; and the state it ends in
  is again a reachable one.\<close>

theorem controller_never_aborts:
  assumes "ctl_reach s y" "good_event e"
  shows "\<exists>y'. ctl_step s e y = Some y' \<and> ctl_reach s y'"
  using ctl_step_inv [OF ctl_reach_inv [OF assms(1)] assms(2)] ctl_reach.step [OF assms] by blast

theorem controller_never_aborts_witness:
  "ctl_reach 128 fresh_system \<and> good_event (Push False COLLAPSE_PANELS) \<and>
   (\<exists>y'. ctl_step 128 (Push False COLLAPSE_PANELS) fresh_system = Some y' \<and> ctl_reach 128 y')"
  using controller_never_aborts [OF reach_fresh, of "Push False COLLAPSE_PANELS"] reach_fresh by simp

text \<open>C2. The queue is FIFO and loses nothing: at any moment the messages accepted by
  \<^verbatim>\<open>sc_controller_push_msg\<close> are, in order, those the thread has taken (leaving out the resize requests,
  which do not go through the queue) followed by those still in the queue.\<close>

theorem controller_fifo:
  assumes "ctl_reach s y"
  shows "accepted y = filter (\<lambda>m. \<not> is_RESIZE_DISPLAY m) (taken y) @ vd_contents (ctl_queue (ctl y))"
  using ctl_reach_inv [OF assms] by (simp add: ctl_inv_def)

theorem controller_fifo_witness:
  "\<exists>y. ctl_step 128 (Push True COLLAPSE_PANELS) fresh_system = Some y \<and> ctl_reach 128 y \<and>
       accepted y = [COLLAPSE_PANELS] \<and> taken y = [] \<and> vd_contents (ctl_queue (ctl y)) = [COLLAPSE_PANELS]"
proof -
  from push_fresh obtain y where y: "ctl_step 128 (Push True COLLAPSE_PANELS) fresh_system = Some y"
    "accepted y = [COLLAPSE_PANELS]" "taken y = []" by simp
  then have r: "ctl_reach 128 y" using ctl_reach.step [OF reach_fresh, of "Push True COLLAPSE_PANELS"] by simp
  with y controller_fifo [OF r] show ?thesis by simp
qed

text \<open>C3. No lost wake-up: although the condition is signalled only when the queue was empty, or no resize
  request was set, a thread that waits has nothing to do: no message is queued, no resize request is
  pending, and the controller is not stopped.\<close>

theorem no_lost_wakeup:
  assumes "ctl_reach s y" "ctl_thread y = Waiting"
  shows "\<not> ctl_stopped (ctl y) \<and> resize_width (ctl y) = 0 \<and> vd_contents (ctl_queue (ctl y)) = []"
  using ctl_reach_inv [OF assms(1)] assms(2) by (simp add: ctl_inv_def idle_def)

theorem no_lost_wakeup_witness:
  "\<exists>y. ctl_step 128 Check fresh_system = Some y \<and> ctl_reach 128 y \<and> ctl_thread y = Waiting \<and>
       vd_contents (ctl_queue (ctl y)) = []"
proof -
  have "sc_vecdeque_is_empty (ctl_queue fresh_controller)" by (simp add: is_empty_contents)
  then have c: "ctl_step 128 Check fresh_system = Some (fresh_system\<lparr>ctl_thread := Waiting\<rparr>)"
    by (simp add: run_controller_check_def)
  then have r: "ctl_reach 128 (fresh_system\<lparr>ctl_thread := Waiting\<rparr>)"
    using ctl_reach.step [OF reach_fresh, of Check] by simp
  from no_lost_wakeup [OF r] c r show ?thesis by simp
qed

text \<open>When a message may be refused. In a reachable state a push returns true and appends the message
  at the end of the queue, unless 60 messages or more are already waiting; and if it returns false then
  nothing changes, and the message is droppable (not the creation or the destruction of a UHID device),
  or memory ran out, or the queue has its largest size.\<close>

theorem push_drop_policy:
  assumes "ctl_reach s y" "good_event (Push alloc msg)"
  shows "(\<exists>sig c. sc_controller_push_msg s alloc msg (ctl y) = Some (True, sig, c) \<and>
            vd_contents (ctl_queue c) = vd_contents (ctl_queue (ctl y)) @ [msg]) \<or>
         sc_controller_push_msg s alloc msg (ctl y) = Some (False, False, ctl y) \<and>
           60 \<le> length (vd_contents (ctl_queue (ctl y))) \<and>
           (sc_control_msg_is_droppable msg \<or> \<not> alloc \<or>
            length (vd_contents (ctl_queue (ctl y))) = sc_vecdeque_max_cap s)"
proof -
  have "queue_ok s (ctl y)" "wf_control_msg msg" "\<not> is_RESIZE_DISPLAY msg"
    using ctl_reach_inv [OF assms(1)] assms(2) by (simp_all add: ctl_inv_def)
  then show ?thesis
  proof (cases rule: push_msg_spec [where alloc = alloc])
    case Queued
    then show ?thesis by blast
  next
    case Dropped
    then show ?thesis by (auto simp: SC_CONTROL_MSG_QUEUE_LIMIT_def)
  qed
qed

theorem push_drop_policy_witness:
  "\<exists>sig c. sc_controller_push_msg 128 True COLLAPSE_PANELS fresh_controller = Some (True, sig, c) \<and>
           vd_contents (ctl_queue c) = [COLLAPSE_PANELS]"
  using push_drop_policy [OF reach_fresh, of True COLLAPSE_PANELS] by simp

text \<open>A resize request goes before every queued message, carries the last size asked for, and is
  sent once: after any number of \<^verbatim>\<open>sc_controller_resize_display\<close> calls, the next thing the thread
  takes is one resize message with the size of the last call, the queue is untouched and no request is
  left pending.\<close>

theorem resize_coalesced:
  assumes "ctl_reach s y" "ctl_thread y = Checking" "\<not> ctl_stopped (ctl y)"
    "\<forall>(w, h) \<in> set sizes. w \<noteq> 0 \<and> h \<noteq> 0" "sizes \<noteq> []"
  shows "\<exists>y' c. foldl (\<lambda>st (w, h). Option.bind st (ctl_step s (Resize w h))) (Some y) sizes = Some y' \<and>
           run_controller_check (ctl y') =
             Some (Processing (RESIZE_DISPLAY (fst (last sizes)) (snd (last sizes))), c) \<and>
           resize_width c = 0 \<and> ctl_queue c = ctl_queue (ctl y)"
proof -
  have fold: "\<exists>y'. foldl (\<lambda>st (w, h). Option.bind st (ctl_step s (Resize w h))) (Some z) zs = Some y' \<and>
      ctl y' = (ctl z)\<lparr>resize_width := fst (last zs), resize_height := snd (last zs)\<rparr>"
    if "zs \<noteq> []" "\<forall>(w, h) \<in> set zs. w \<noteq> 0 \<and> h \<noteq> 0" for z zs
    using that
  proof (induction zs arbitrary: z rule: list_nonempty_induct)
    case (single x)
    then show ?case by (auto simp: sc_controller_resize_display_def)
  next
    case (cons x xs)
    obtain w h where x: "x = (w, h)" by force
    with cons.prems have "w \<noteq> 0 \<and> h \<noteq> 0" by simp
    then obtain z1 where "ctl_step s (Resize w h) z = Some z1"
      "ctl z1 = (ctl z)\<lparr>resize_width := w, resize_height := h\<rparr>"
      by (simp add: sc_controller_resize_display_def)
    with cons.IH [of z1] cons.prems cons.hyps x show ?case by auto
  qed
  have "fst (last sizes) \<noteq> 0" using assms(4,5) last_in_set by fastforce
  with fold [OF assms(5,4), of y] assms(3) show ?thesis
    by (fastforce simp: run_controller_check_def)
qed

theorem resize_coalesced_witness:
  "\<exists>y' c. foldl (\<lambda>st (w, h). Option.bind st (ctl_step 128 (Resize w h))) (Some fresh_system)
             [(800, 600), (1024, 768)] = Some y' \<and>
           run_controller_check (ctl y') = Some (Processing (RESIZE_DISPLAY 1024 768), c) \<and>
           resize_width c = 0 \<and> ctl_queue c = ctl_queue fresh_controller"
  using resize_coalesced [OF reach_fresh, of "[(800, 600), (1024, 768)]"] by simp

text \<open>C34. Progress: when the thread is about to check its condition, is not stopped, and a message is
  queued with no resize request pending, one check and one send that succeeds put the complete bytes of
  the oldest message on the socket, remove it from the queue, and bring the thread back to its check.\<close>

theorem controller_progress:
  assumes "ctl_reach s y" "ctl_thread y = Checking" "\<not> ctl_stopped (ctl y)" "resize_width (ctl y) = 0"
    "vd_contents (ctl_queue (ctl y)) = m # ms"
  shows "\<exists>y1 y2. ctl_step s Check y = Some y1 \<and>
           ctl_step s (Process (int (length (control_msg_bytes m)))) y1 = Some y2 \<and>
           socket y2 = socket y @ control_msg_bytes m \<and>
           vd_contents (ctl_queue (ctl y2)) = ms \<and> ctl_thread y2 = Checking"
  using progress_step [OF ctl_reach_inv [OF assms(1)] assms(2-)] by blast

theorem controller_progress_witness:
  "\<exists>y0 y1 y2. ctl_step 128 (Push True COLLAPSE_PANELS) fresh_system = Some y0 \<and>
     ctl_step 128 Check y0 = Some y1 \<and>
     ctl_step 128 (Process (int (length (control_msg_bytes COLLAPSE_PANELS)))) y1 = Some y2 \<and>
     socket y2 = [7] \<and> vd_contents (ctl_queue (ctl y2)) = []"
proof -
  from push_fresh obtain y where y: "ctl_step 128 (Push True COLLAPSE_PANELS) fresh_system = Some y"
    "ctl_thread y = Checking" "\<not> ctl_stopped (ctl y)" "resize_width (ctl y) = 0"
    "vd_contents (ctl_queue (ctl y)) = [COLLAPSE_PANELS]" "socket y = []"
    by (simp add: vd_contents_def)
  then have "ctl_reach 128 y"
    using ctl_reach.step [OF reach_fresh, of "Push True COLLAPSE_PANELS"] by simp
  moreover have "control_msg_bytes COLLAPSE_PANELS = [7]" by (simp add: control_msg_bytes_def)
  ultimately show ?thesis
    using controller_progress [OF _ y(2-5), of 128] y(1) unfolding y(6) by auto
qed

text \<open>C35. \<^verbatim>\<open>sc_controller_destroy\<close> terminates, after as many rounds as there are messages, and frees the
  owned memory of exactly the messages that were still queued, each once and in order.\<close>

theorem controller_destroy_frees_queue:
  assumes "ctl_reach s y"
  shows "sc_controller_destroy (length (vd_contents (ctl_queue (ctl y)))) (ctl_queue (ctl y)) =
           Some (concat (map sc_control_msg_destroy (vd_contents (ctl_queue (ctl y)))))"
  using ctl_reach_inv [OF assms] by (intro destroy_eq [of s]) (simp_all add: ctl_inv_def queue_ok_def)

theorem controller_destroy_frees_queue_witness:
  "\<exists>y. ctl_step 128 (Push True (INJECT_TEXT (Some [0x61]))) fresh_system = Some y \<and>
       sc_controller_destroy 1 (ctl_queue (ctl y)) = Some [Some [0x61]]"
proof -
  let ?e = "Push True (INJECT_TEXT (Some [0x61]))"
  have g: "good_event ?e" by (simp add: text_ok_def utf8_start_ok_def utf8_continuation_def)
  obtain y where y: "ctl_step 128 ?e fresh_system = Some y" "ctl_reach 128 y"
    using ctl_step_inv [OF ctl_reach_inv [OF reach_fresh] g] ctl_reach.step [OF reach_fresh g] by blast
  have "accepted y = [INJECT_TEXT (Some [0x61])]" "taken y = []"
    using y(1) by (auto simp: sc_controller_push_msg_def SC_CONTROL_MSG_QUEUE_LIMIT_def fresh_controller_def
        bind_Some_iff)
  with ctl_reach_inv [OF y(2)] have "vd_contents (ctl_queue (ctl y)) = [INJECT_TEXT (Some [0x61])]"
    by (simp add: ctl_inv_def)
  with controller_destroy_frees_queue [OF y(2)] y(1) show ?thesis by simp
qed

end
