(* ===== verification/DeviceMsg.thy ===== *)
theory DeviceMsg
  imports Binary Str
begin

text \<open>
  \<^verbatim>\<open>app/src/device_msg.h\<close>, \<^verbatim>\<open>app/src/device_msg.c\<close>: messages from the device, parsed from a prefix of
  the receive buffer; and the code that writes them on the device, \<^verbatim>\<open>DeviceMessageWriter.java\<close> with
  \<^verbatim>\<open>StringUtils.getUtf8TruncationIndex\<close>.
\<close>

section \<open>Data\<close>

definition DEVICE_MSG_MAX_SIZE :: nat where
  "DEVICE_MSG_MAX_SIZE = 2 ^ 18"

definition DEVICE_MSG_TEXT_MAX_LENGTH :: nat where
  "DEVICE_MSG_TEXT_MAX_LENGTH = DEVICE_MSG_MAX_SIZE - 5"

datatype sc_device_msg =
    CLIPBOARD (dev_text: byte_buf)
  | ACK_CLIPBOARD (ack_sequence: u64)
  | UHID_OUTPUT (out_id: u16) (out_size: u16) (out_data: byte_buf)

text \<open>The \<^verbatim>\<open>ssize_t\<close> result: 0, -1, or the number of bytes consumed with the message.\<close>

datatype deserialized = Incomplete | Failure | Parsed nat sc_device_msg

section \<open>Parsing\<close>

definition sc_device_msg_deserialize :: "bool \<Rightarrow> byte_buf \<Rightarrow> deserialized option" where
  "sc_device_msg_deserialize alloc buf =
     (let len = length buf in
      if len = 0 then Some Incomplete
      else do {
        type \<leftarrow> mem_get 0 buf;
        if type = 0 then
          (if len < 5 then Some Incomplete
           else do {
             clipboard_len \<leftarrow> sc_read32be 1 buf;
             if unat clipboard_len > len - 5 then Some Incomplete
             else if \<not> alloc then Some Failure
             else do {
               text \<leftarrow> mem_read 5 (unat clipboard_len) buf;
               Some (Parsed (5 + unat clipboard_len) (CLIPBOARD text))
             }
           })
        else if type = 1 then
          (if len < 9 then Some Incomplete
           else do {
             sequence \<leftarrow> sc_read64be 1 buf;
             Some (Parsed 9 (ACK_CLIPBOARD sequence))
           })
        else if type = 2 then
          (if len < 5 then Some Incomplete
           else do {
             uid \<leftarrow> sc_read16be 1 buf;
             sz \<leftarrow> sc_read16be 3 buf;
             if unat sz > len - 5 then Some Incomplete
             else if \<not> alloc then Some Failure
             else do {
               data \<leftarrow> mem_read 5 (unat sz) buf;
               Some (Parsed (5 + unat sz) (UHID_OUTPUT uid sz data))
             }
           })
        else Some Failure
      })"

fun sc_device_msg_destroy :: "sc_device_msg \<Rightarrow> byte_buf list" where
  "sc_device_msg_destroy (CLIPBOARD text) = [text]"
| "sc_device_msg_destroy (UHID_OUTPUT _ _ data) = [data]"
| "sc_device_msg_destroy (ACK_CLIPBOARD _) = []"

section \<open>DeviceMessageWriter\<close>

text \<open>A \<^verbatim>\<open>DeviceMessage\<close> of the server; a Java string is its UTF-8 bytes.\<close>

datatype DeviceMessage =
    createClipboard byte_buf
  | createAckClipboard u64
  | createUhidOutput u16 byte_buf

definition getUtf8TruncationIndex :: "byte_buf \<Rightarrow> nat \<Rightarrow> nat option" where
  "getUtf8TruncationIndex utf8 maxLength =
     (if length utf8 \<le> maxLength then Some (length utf8) else utf8_truncation_loop utf8 maxLength)"

fun writer_write :: "DeviceMessage \<Rightarrow> byte_buf option" where
  "writer_write (createClipboard raw) = do {
     len \<leftarrow> getUtf8TruncationIndex raw DEVICE_MSG_TEXT_MAX_LENGTH;
     Some (0 # be32 (of_nat len) @ take len raw)
   }"
| "writer_write (createAckClipboard sequence) = Some (1 # be64 sequence)"
| "writer_write (createUhidOutput uid data) = Some (2 # be16 uid @ be16 (of_nat (length data)) @ data)"

section \<open>The client parses what the device writes\<close>

fun device_msg_bytes :: "sc_device_msg \<Rightarrow> byte_buf" where
  "device_msg_bytes (CLIPBOARD text) = 0 # be32 (of_nat (length text)) @ text"
| "device_msg_bytes (ACK_CLIPBOARD q) = 1 # be64 q"
| "device_msg_bytes (UHID_OUTPUT i sz d) = 2 # be16 i @ be16 sz @ d"

fun wf_device_msg :: "sc_device_msg \<Rightarrow> bool" where
  "wf_device_msg (CLIPBOARD text) = (length text \<le> DEVICE_MSG_TEXT_MAX_LENGTH)"
| "wf_device_msg (ACK_CLIPBOARD q) = True"
| "wf_device_msg (UHID_OUTPUT i sz d) = (unat sz = length d)"

lemmas dev_limits = DEVICE_MSG_MAX_SIZE_def DEVICE_MSG_TEXT_MAX_LENGTH_def

lemma device_msg_bytes_length: "wf_device_msg m \<Longrightarrow> length (device_msg_bytes m) \<le> DEVICE_MSG_MAX_SIZE"
proof (cases m)
  case (UHID_OUTPUT i sz d)
  moreover assume "wf_device_msg m"
  ultimately show ?thesis
    using unsigned_less [of sz, where ?'a = nat] by (simp add: dev_limits)
qed (simp_all add: dev_limits)

lemma device_msg_bytes_pos: "0 < length (device_msg_bytes m)"
  by (cases m) simp_all

lemma read32_1: "sc_read32be (Suc 0) (x # be32 v @ ys) = Some v"
  using sc_read32be_at [of 1 "[x]" v ys] by simp

lemma read64_1: "sc_read64be (Suc 0) (x # be64 v @ ys) = Some v"
  using sc_read64be_at [of 1 "[x]" v ys] by simp

lemma read16_1: "sc_read16be (Suc 0) (x # be16 v @ ys) = Some v"
  using sc_read16be_at [of 1 "[x]" v ys] by simp

lemma read16_3: "sc_read16be 3 (x # be16 u @ be16 v @ ys) = Some v"
  using sc_read16be_at [of 3 "x # be16 u" v ys] by simp

lemmas read_at = read32_1 read64_1 read16_1 read16_3

lemma text_length_word: "n \<le> DEVICE_MSG_TEXT_MAX_LENGTH \<Longrightarrow> unat (of_nat n :: u32) = n"
  by (simp add: unat_of_nat dev_limits)

lemma deserialize_complete:
  assumes "wf_device_msg m"
  shows "sc_device_msg_deserialize True (device_msg_bytes m @ rest) =
           Some (Parsed (length (device_msg_bytes m)) m)"
  using assms
  by (cases m)
    (simp_all add: sc_device_msg_deserialize_def mem_get_def read_at text_length_word mem_read_def
      drop_Cons')

text \<open>A result is never larger than the input, and consumes at least one byte.\<close>

lemma deserialize_bounds:
  "sc_device_msg_deserialize alloc buf = Some (Parsed n m) \<Longrightarrow> 0 < n \<and> n \<le> length buf"
  by (auto simp: sc_device_msg_deserialize_def Let_def bind_Some_iff split: if_splits)

section \<open>Properties\<close>

text \<open>A message of the device as the client represents it.\<close>

fun as_client :: "DeviceMessage \<Rightarrow> sc_device_msg" where
  "as_client (createClipboard raw) =
     CLIPBOARD (take (the (getUtf8TruncationIndex raw DEVICE_MSG_TEXT_MAX_LENGTH)) raw)"
| "as_client (createAckClipboard sequence) = ACK_CLIPBOARD sequence"
| "as_client (createUhidOutput uid data) = UHID_OUTPUT uid (of_nat (length data)) data"

fun device_message_ok :: "DeviceMessage \<Rightarrow> bool" where
  "device_message_ok (createUhidOutput _ data) \<longleftrightarrow> length data < 2 ^ 16"
| "device_message_ok _ \<longleftrightarrow> True"

lemma getUtf8_bounds:
  "getUtf8TruncationIndex raw n = Some i \<Longrightarrow> i \<le> n \<and> i \<le> length raw"
  by (auto simp: getUtf8TruncationIndex_def split: if_splits dest: utf8_truncation_loop_Some)

lemma writer_write_eq:
  assumes "writer_write d = Some b" "device_message_ok d"
  shows "b = device_msg_bytes (as_client d) \<and> wf_device_msg (as_client d)"
proof (cases d)
  case (createClipboard raw)
  with assms obtain i where "getUtf8TruncationIndex raw DEVICE_MSG_TEXT_MAX_LENGTH = Some i"
    "b = 0 # be32 (of_nat i) @ take i raw" by (auto simp: bind_Some_iff)
  with createClipboard getUtf8_bounds [of raw DEVICE_MSG_TEXT_MAX_LENGTH i] show ?thesis by simp
qed (use assms in \<open>auto simp: unat_of_nat\<close>)

text \<open>C37. Round trip of device messages: whatever the server's writer produces for a clipboard text, an
  acknowledgement or a UHID output of at most 65535 bytes, the client's parser recovers from it, with
  any bytes after it in the buffer, and reports having consumed exactly the bytes written.\<close>

theorem device_msg_roundtrip:
  assumes "writer_write d = Some b" "device_message_ok d"
  shows "sc_device_msg_deserialize True (b @ rest) = Some (Parsed (length b) (as_client d))"
  using writer_write_eq [OF assms] deserialize_complete by simp

theorem device_msg_roundtrip_witness:
  "writer_write (createUhidOutput 3 [1, 2]) = Some [2, 0, 3, 0, 2, 1, 2] \<and>
   sc_device_msg_deserialize True [2, 0, 3, 0, 2, 1, 2, 9] = Some (Parsed 7 (UHID_OUTPUT 3 2 [1, 2]))"
proof -
  have w: "writer_write (createUhidOutput 3 [1, 2]) = Some [2, 0, 3, 0, 2, 1, 2]"
    by (simp add: be16_def drop_bit_eq_div)
  from device_msg_roundtrip [OF w, of "[9]"] w show ?thesis by simp
qed

lemma read_total:
  "off + 2 \<le> length b \<Longrightarrow> \<exists>w. sc_read16be off b = Some w"
  "off + 4 \<le> length b \<Longrightarrow> \<exists>w. sc_read32be off b = Some w"
  "off + 8 \<le> length b \<Longrightarrow> \<exists>w. sc_read64be off b = Some w"
  by (simp_all add: sc_read16be_def sc_read32be_def sc_read64be_def mem_get_def)

text \<open>The parser never reads outside the buffer and never stops on an assertion, whatever bytes it
  is given, also those no server would send; a message it reports lies inside the buffer, its payload
  is the bytes after the header, and a UHID output has as many bytes as its size field says.\<close>

theorem device_msg_deserialize_safe:
  "\<exists>d. sc_device_msg_deserialize alloc buf = Some d \<and>
       (case d of
          Parsed n (CLIPBOARD t) \<Rightarrow> n \<le> length buf \<and> t = drop 5 (take n buf)
        | Parsed n (ACK_CLIPBOARD _) \<Rightarrow> n = 9 \<and> n \<le> length buf
        | Parsed n (UHID_OUTPUT _ sz x) \<Rightarrow> n \<le> length buf \<and> x = drop 5 (take n buf) \<and> length x = unat sz
        | _ \<Rightarrow> True)"
proof (cases buf)
  case Nil
  then show ?thesis by (simp add: sc_device_msg_deserialize_def)
next
  case (Cons t bs)
  consider "t = 0" "4 \<le> length bs" | "t = 1" "8 \<le> length bs" | "t = 2" "4 \<le> length bs"
    | "sc_device_msg_deserialize alloc buf = Some Incomplete"
    | "sc_device_msg_deserialize alloc buf = Some Failure"
    using Cons by (cases "t \<in> {0, 1, 2}"; cases "length bs < 4"; cases "length bs < 8")
      (auto simp: sc_device_msg_deserialize_def mem_get_def not_less)
  then show ?thesis
  proof cases
    case 1
    with read_total(2) [of 1 buf] Cons show ?thesis
      by (auto simp: sc_device_msg_deserialize_def mem_get_def mem_read_def drop_take)
  next
    case 2
    with read_total(3) [of 1 buf] Cons show ?thesis
      by (auto simp: sc_device_msg_deserialize_def mem_get_def)
  next
    case 3
    with read_total(1) [of 1 buf] read_total(1) [of 3 buf] Cons show ?thesis
      by (auto simp: sc_device_msg_deserialize_def mem_get_def mem_read_def drop_take)
  qed auto
qed

end
