(* ===== verification/Acksync.thy ===== *)
theory Acksync
  imports Prelude
begin

text \<open>
  \<^verbatim>\<open>app/src/util/acksync.c\<close>: waiting for the acknowledgement of a clipboard sequence number. Each
  function runs under the mutex; a wait is the sequence of states it finds when it gets the mutex back.
\<close>

definition SC_SEQUENCE_INVALID :: u64 where
  "SC_SEQUENCE_INVALID = 0"

record sc_acksync =
  as_stopped :: bool
  as_ack :: u64

datatype sc_acksync_wait_result = SC_ACKSYNC_WAIT_OK | SC_ACKSYNC_WAIT_TIMEOUT | SC_ACKSYNC_WAIT_INTR

definition sc_acksync_init :: "bool \<Rightarrow> bool \<Rightarrow> sc_acksync option" where
  "sc_acksync_init mutex_ok cond_ok =
     (if \<not> mutex_ok then None else if \<not> cond_ok then None
      else Some \<lparr>as_stopped = False, as_ack = SC_SEQUENCE_INVALID\<rparr>)"

definition sc_acksync_ack :: "u64 \<Rightarrow> sc_acksync \<Rightarrow> sc_acksync option" where
  "sc_acksync_ack sequence as = do {
     c_assert (sequence \<ge> as_ack as);
     Some (as\<lparr>as_ack := sequence\<rparr>)
   }"

definition sc_acksync_interrupt :: "sc_acksync \<Rightarrow> sc_acksync" where
  "sc_acksync_interrupt as = as\<lparr>as_stopped := True\<rparr>"

text \<open>The list gives, for each return of \<^verbatim>\<open>sc_cond_timedwait\<close>, the state then and whether the
  deadline has passed. The inner \<open>None\<close> is a wait that has not returned yet.\<close>

fun sc_acksync_wait_loop ::
  "u64 \<Rightarrow> sc_acksync \<Rightarrow> bool \<Rightarrow> (sc_acksync \<times> bool) list \<Rightarrow> sc_acksync_wait_result option option" where
  "sc_acksync_wait_loop ack as timed_out ws =
     (if \<not> as_stopped as \<and> as_ack as < ack \<and> \<not> timed_out then
        (case ws of [] \<Rightarrow> Some None
         | (as', timed_out') # ws' \<Rightarrow> sc_acksync_wait_loop ack as' timed_out' ws')
      else if as_stopped as then Some (Some SC_ACKSYNC_WAIT_INTR)
      else if as_ack as \<ge> ack then Some (Some SC_ACKSYNC_WAIT_OK)
      else do { c_assert timed_out; Some (Some SC_ACKSYNC_WAIT_TIMEOUT) })"

declare sc_acksync_wait_loop.simps [simp del]

definition sc_acksync_wait ::
  "u64 \<Rightarrow> sc_acksync \<Rightarrow> (sc_acksync \<times> bool) list \<Rightarrow> sc_acksync_wait_result option option" where
  "sc_acksync_wait ack as ws = sc_acksync_wait_loop ack as False ws"

text \<open>The state and flag in which the wait stops, if it does: the first with nothing to wait for.\<close>

fun wait_end :: "u64 \<Rightarrow> (sc_acksync \<times> bool) list \<Rightarrow> (sc_acksync \<times> bool) option" where
  "wait_end ack ws = find (\<lambda>(as, t). as_stopped as \<or> as_ack as \<ge> ack \<or> t) ws"

fun wait_result :: "u64 \<Rightarrow> sc_acksync \<times> bool \<Rightarrow> sc_acksync_wait_result" where
  "wait_result ack (as, t) =
     (if as_stopped as then SC_ACKSYNC_WAIT_INTR
      else if as_ack as \<ge> ack then SC_ACKSYNC_WAIT_OK else SC_ACKSYNC_WAIT_TIMEOUT)"

lemma wait_loop_eq:
  "sc_acksync_wait_loop ack as t ws =
   Some (map_option (wait_result ack) (wait_end ack ((as, t) # ws)))"
proof (induction ack as t ws rule: sc_acksync_wait_loop.induct)
  case (1 ack as t ws)
  show ?case
  proof (cases "\<not> as_stopped as \<and> as_ack as < ack \<and> \<not> t")
    case True
    with "1.IH" show ?thesis
      by (subst sc_acksync_wait_loop.simps) (auto simp: not_le split: list.splits)
  next
    case False
    then show ?thesis
      by (subst sc_acksync_wait_loop.simps) (auto simp: not_le)
  qed
qed

text \<open>A sequence of calls of \<^verbatim>\<open>sc_acksync_ack\<close>.\<close>

fun acks :: "u64 list \<Rightarrow> sc_acksync \<Rightarrow> sc_acksync option" where
  "acks [] as = Some as"
| "acks (q # qs) as = do { as \<leftarrow> sc_acksync_ack q as; acks qs as }"

section \<open>Properties\<close>

text \<open>\<^verbatim>\<open>sc_acksync_wait\<close> never fails its assertion, and decides at the first moment at which it gets
  the mutex and finds the object stopped, the sequence acknowledged or the deadline passed: an
  interruption wins over an acknowledgement, an acknowledgement over the timeout; it is still waiting
  only if none of these has occurred.\<close>

theorem acksync_wait_decides:
  "sc_acksync_wait ack as ws =
     Some (case find (\<lambda>(a, t). as_stopped a \<or> as_ack a \<ge> ack \<or> t) ((as, False) # ws) of
             None \<Rightarrow> None
           | Some (a, t) \<Rightarrow> Some (if as_stopped a then SC_ACKSYNC_WAIT_INTR
                                else if as_ack a \<ge> ack then SC_ACKSYNC_WAIT_OK
                                else SC_ACKSYNC_WAIT_TIMEOUT))"
  by (simp only: sc_acksync_wait_def wait_loop_eq wait_end.simps) (auto split: option.splits)

text \<open>Acknowledgements must arrive in order: a sequence of calls of \<^verbatim>\<open>sc_acksync_ack\<close> passes the
  assertions exactly when the numbers never decrease, and then the last one is the one recorded.\<close>

theorem acks_in_order:
  "acks qs as = (if sorted (as_ack as # qs) then Some (as\<lparr>as_ack := last (as_ack as # qs)\<rparr>) else None)"
  by (induction qs arbitrary: as) (auto simp: sc_acksync_ack_def c_assert_def)

end
