(* ===== verification/Receiver.thy ===== *)
theory Receiver
  imports DeviceMsg Acksync "HOL-Library.Multiset"
begin

text \<open>
  \<^verbatim>\<open>app/src/receiver.c\<close>: the thread that reads device messages from the control socket. The socket is
  the byte stream still to come; \<^verbatim>\<open>net_recv\<close> delivers it in pieces of arbitrary size. Outcomes of
  allocations and of posting a task to the main thread are functions of the number of messages handled
  so far.
\<close>

section \<open>State\<close>

datatype main_task = task_set_clipboard byte_buf | task_uhid_output u16 u16 byte_buf

record receiver_env =
  msg_alloc :: "nat \<Rightarrow> bool"
  task_alloc :: "nat \<Rightarrow> bool"
  post_ok :: "nat \<Rightarrow> bool"

text \<open>\<open>tasks\<close> are the tasks posted to the main thread, which own their buffers; \<open>freed\<close> the buffers the
  receiver released itself; \<open>leaked\<close> those it dropped without releasing them.\<close>

record sc_receiver =
  rcv_acksync :: "sc_acksync option"
  rcv_uhid_devices :: bool
  tasks :: "main_task list"
  freed :: "byte_buf list"
  leaked :: "byte_buf list"
  handled :: nat

definition sc_receiver_init :: "bool \<Rightarrow> sc_receiver option" where
  "sc_receiver_init mutex_ok =
     (if mutex_ok then Some \<lparr>rcv_acksync = None, rcv_uhid_devices = False, tasks = [], freed = [],
                            leaked = [], handled = 0\<rparr>
      else None)"

text \<open>\<^verbatim>\<open>sc_controller_configure\<close>\<close>

definition sc_controller_configure :: "sc_acksync option \<Rightarrow> bool \<Rightarrow> sc_receiver \<Rightarrow> sc_receiver" where
  "sc_controller_configure acksync uhid_devices r =
     r\<lparr>rcv_acksync := acksync, rcv_uhid_devices := uhid_devices\<rparr>"

section \<open>Message handling\<close>

fun process_device_msg :: "receiver_env \<Rightarrow> sc_device_msg \<Rightarrow> sc_receiver \<Rightarrow> sc_receiver option" where
  "process_device_msg e (CLIPBOARD text) r =
     (if post_ok e (handled r) then Some (r\<lparr>tasks := tasks r @ [task_set_clipboard text]\<rparr>)
      else Some (r\<lparr>freed := freed r @ [text]\<rparr>))"
| "process_device_msg e (ACK_CLIPBOARD sequence) r =
     (case rcv_acksync r of
        None \<Rightarrow> None
      | Some as \<Rightarrow> do {
          as \<leftarrow> sc_acksync_ack sequence as;
          Some (r\<lparr>rcv_acksync := Some as\<rparr>)
        })"
| "process_device_msg e (UHID_OUTPUT uid sz data) r =
     (if \<not> rcv_uhid_devices r
      then Some (r\<lparr>freed := freed r @ sc_device_msg_destroy (UHID_OUTPUT uid sz data)\<rparr>)
      else if \<not> task_alloc e (handled r) then Some (r\<lparr>leaked := leaked r @ [data]\<rparr>)
      else if post_ok e (handled r) then Some (r\<lparr>tasks := tasks r @ [task_uhid_output uid sz data]\<rparr>)
      else Some (r\<lparr>freed := freed r @ [data]\<rparr>))"

definition handle_msg :: "receiver_env \<Rightarrow> sc_device_msg \<Rightarrow> sc_receiver \<Rightarrow> sc_receiver option" where
  "handle_msg e m r = do {
     r \<leftarrow> process_device_msg e m r;
     Some (r\<lparr>handled := handled r + 1\<rparr>)
   }"

text \<open>\<^verbatim>\<open>process_msgs\<close>: the consumed length, or \<open>None\<close> for the result -1.\<close>

function process_msgs ::
  "receiver_env \<Rightarrow> byte_buf \<Rightarrow> nat \<Rightarrow> sc_receiver \<Rightarrow> (nat option \<times> sc_receiver) option" where
  "process_msgs e buf head r = do {
     d \<leftarrow> sc_device_msg_deserialize (msg_alloc e (handled r)) (drop head buf);
     (case d of
        Failure \<Rightarrow> Some (None, r)
      | Incomplete \<Rightarrow> Some (Some head, r)
      | Parsed n m \<Rightarrow> do {
          r \<leftarrow> handle_msg e m r;
          let head = head + n;
          c_assert (head \<le> length buf);
          if head = length buf then Some (Some head, r) else process_msgs e buf head r
        })
   }"
  by pat_completeness auto
termination
  by (relation "measure (\<lambda>(e, buf, head, r). length buf - head)")
    (auto dest: deserialize_bounds)

declare process_msgs.simps [simp del]

text \<open>\<^verbatim>\<open>run_receiver\<close>: \<open>ns\<close> are the sizes the successive calls of \<^verbatim>\<open>net_recv\<close> would return, capped by
  the room in the buffer and by what the stream still holds; a size of 0, and the end of the list, is
  the end of the connection. The result is the \<^verbatim>\<open>error\<close> flag and the receiver.\<close>

fun run_receiver ::
  "receiver_env \<Rightarrow> nat list \<Rightarrow> byte_buf \<Rightarrow> byte_buf \<Rightarrow> sc_receiver \<Rightarrow> (bool \<times> sc_receiver) option" where
  "run_receiver e [] stream buf r = do { c_assert (length buf < DEVICE_MSG_MAX_SIZE); Some (False, r) }"
| "run_receiver e (n # ns) stream buf r = do {
     c_assert (length buf < DEVICE_MSG_MAX_SIZE);
     let chunk = take (min n (DEVICE_MSG_MAX_SIZE - length buf)) stream;
     if chunk = [] then Some (False, r)
     else do {
       let buf = buf @ chunk;
       (consumed, r) \<leftarrow> process_msgs e buf 0 r;
       (case consumed of
          None \<Rightarrow> Some (True, r)
        | Some k \<Rightarrow> run_receiver e ns (drop (length chunk) stream) (drop k buf) r)
     }
   }"

section \<open>Messages split over several reads\<close>

text \<open>A strict prefix of a message is never taken for a message.\<close>

lemma deserialize_prefix:
  assumes "wf_device_msg m" "k < length (device_msg_bytes m)"
  shows "sc_device_msg_deserialize alloc (take k (device_msg_bytes m)) = Some Incomplete"
proof (cases m)
  case (CLIPBOARD t)
  let ?l = "of_nat (length t) :: u32"
  show ?thesis
  proof (cases "k < 5")
    case False
    then have "take k (device_msg_bytes m) = 0 # be32 ?l @ take (k - 5) t"
      using CLIPBOARD by (simp add: take_Cons')
    moreover have "unat ?l = length t" using assms CLIPBOARD by (simp add: text_length_word)
    moreover have "k - 5 < length t" using assms False CLIPBOARD by auto
    ultimately show ?thesis
      using False CLIPBOARD by (simp add: sc_device_msg_deserialize_def mem_get_def read_at)
  qed (use CLIPBOARD assms in \<open>auto simp: sc_device_msg_deserialize_def mem_get_def take_Cons'\<close>)
next
  case (ACK_CLIPBOARD q)
  with assms show ?thesis
    by (auto simp: sc_device_msg_deserialize_def mem_get_def take_Cons')
next
  case (UHID_OUTPUT i sz d)
  show ?thesis
  proof (cases "k < 5")
    case False
    then have "take k (device_msg_bytes m) = 2 # be16 i @ be16 sz @ take (k - 5) d"
      using UHID_OUTPUT by (simp add: take_Cons' numeral_eq_Suc)
    moreover have "k - 5 < length d" using assms False UHID_OUTPUT by auto
    ultimately show ?thesis
      using assms False UHID_OUTPUT by (simp add: sc_device_msg_deserialize_def mem_get_def read_at)
  qed (use UHID_OUTPUT assms in \<open>auto simp: sc_device_msg_deserialize_def mem_get_def take_Cons'\<close>)
qed

fun handle_all :: "receiver_env \<Rightarrow> sc_device_msg list \<Rightarrow> sc_receiver \<Rightarrow> sc_receiver option" where
  "handle_all e [] r = Some r"
| "handle_all e (m # ms) r = do { r \<leftarrow> handle_msg e m r; handle_all e ms r }"

abbreviation dev_wire :: "sc_device_msg list \<Rightarrow> byte_buf" where
  "dev_wire ms \<equiv> concat (map device_msg_bytes ms)"

text \<open>What can be in the buffer after some reads: whole messages, then a strict prefix of the next.\<close>

definition pending :: "sc_device_msg list \<Rightarrow> byte_buf \<Rightarrow> bool" where
  "pending ms p \<longleftrightarrow> p = [] \<or> (\<exists>m ms' k. ms = m # ms' \<and> k < length (device_msg_bytes m) \<and>
                                 p = take k (device_msg_bytes m))"

lemma process_msgs_pending:
  assumes "wf_device_msg m" "k < length (device_msg_bytes m)"
  shows "process_msgs e (pre @ take k (device_msg_bytes m)) (length pre) r = Some (Some (length pre), r)"
  using deserialize_prefix [OF assms]
  by (subst process_msgs.simps) simp

lemma process_msgs_all:
  assumes "\<forall>n. msg_alloc e n" "\<forall>m \<in> set ms. wf_device_msg m" "ms \<noteq> [] \<or> p \<noteq> []"
    "p = [] \<or> (\<exists>m k. wf_device_msg m \<and> k < length (device_msg_bytes m) \<and> p = take k (device_msg_bytes m))"
  shows "process_msgs e (pre @ dev_wire ms @ p) (length pre) r =
    map_option (\<lambda>r. (Some (length pre + length (dev_wire ms)), r)) (handle_all e ms r)"
  using assms(2,3)
proof (induction ms arbitrary: pre r)
  case Nil
  with assms(4) process_msgs_pending show ?case by auto
next
  case (Cons m ms)
  let ?b = "device_msg_bytes m"
  have d: "sc_device_msg_deserialize (msg_alloc e (handled r)) (?b @ dev_wire ms @ p) =
             Some (Parsed (length ?b) m)"
    using assms(1) Cons.prems deserialize_complete by simp
  show ?case
  proof (cases "handle_msg e m r")
    case None
    with d show ?thesis by (subst process_msgs.simps) simp
  next
    case (Some r')
    show ?thesis
    proof (cases "ms = [] \<and> p = []")
      case True
      with d Some show ?thesis by (subst process_msgs.simps) simp
    next
      case False
      with Cons.IH [of "pre @ ?b" r'] Cons.prems
      have "process_msgs e (pre @ ?b @ dev_wire ms @ p) (length pre + length ?b) r' =
        map_option (\<lambda>r. (Some (length pre + length ?b + length (dev_wire ms)), r)) (handle_all e ms r')"
        by auto
      moreover have "length (dev_wire ms @ p) \<noteq> 0"
        using False device_msg_bytes_pos by (cases ms) auto
      ultimately show ?thesis
        using d Some by (subst process_msgs.simps) (auto simp: add.assoc Let_def)
    qed
  qed
qed

text \<open>How a read splits what is left of the stream: the messages it completes and the new pending
  prefix.\<close>

lemma split_wire:
  assumes "k \<le> length (dev_wire ms)"
  obtains dn rest p where "ms = dn @ rest" "take k (dev_wire ms) = dev_wire dn @ p"
    "pending rest p" "drop k (dev_wire ms) = drop (length p) (dev_wire rest)"
    "length p \<le> length (dev_wire rest)"
  using assms
proof (induction ms arbitrary: k thesis)
  case Nil
  then show ?case by (simp add: pending_def)
next
  case (Cons m ms)
  let ?b = "device_msg_bytes m"
  show ?case
  proof (cases "k < length ?b")
    case True
    then show ?thesis
      using Cons.prems(1) [of "[]" "m # ms" "take k ?b"] by (auto simp: pending_def)
  next
    case False
    with Cons.prems(2) have "k - length ?b \<le> length (dev_wire ms)" by simp
    then obtain dn rest p where "ms = dn @ rest" "take (k - length ?b) (dev_wire ms) = dev_wire dn @ p"
      "pending rest p" "drop (k - length ?b) (dev_wire ms) = drop (length p) (dev_wire rest)"
      "length p \<le> length (dev_wire rest)"
      by (rule Cons.IH [rotated]) blast
    with False show ?thesis
      using Cons.prems(1) [of "m # dn" rest p] by simp
  qed
qed

lemma pending_length:
  assumes "pending ms p" "\<forall>m \<in> set ms. wf_device_msg m"
  shows "length p < DEVICE_MSG_MAX_SIZE"
proof (cases "p = []")
  case True
  then show ?thesis by (simp add: dev_limits)
next
  case False
  with assms(1) obtain m ms' k where "ms = m # ms'" "k < length (device_msg_bytes m)"
    "p = take k (device_msg_bytes m)" by (auto simp: pending_def)
  with assms(2) device_msg_bytes_length [of m] show ?thesis by simp
qed

lemma handle_all_append:
  "handle_all e (ms @ ms') r = Option.bind (handle_all e ms r) (handle_all e ms')"
  by (induction ms arbitrary: r) (auto simp: handle_msg_def split: Option.bind_splits)

lemma take_length_take: "take (length (take n xs)) xs = take n xs"
  by (cases "n \<le> length xs") simp_all

lemma pending_take:
  assumes "pending ms p"
  shows "p = take (length p) (dev_wire ms)" "length p \<le> length (dev_wire ms)"
    "length (dev_wire ms) \<le> length p \<Longrightarrow> ms = []"
proof -
  show "p = take (length p) (dev_wire ms)" "length p \<le> length (dev_wire ms)"
    using assms by (auto simp: pending_def)
  show "ms = []" if "length (dev_wire ms) \<le> length p"
  proof (cases ms)
    case (Cons m ms')
    with that assms device_msg_bytes_pos [of m] show ?thesis by (auto simp: pending_def)
  qed
qed

text \<open>One read: the chunk completes some messages, which are handled, and leaves a pending prefix.\<close>

lemma one_read:
  assumes "\<forall>n. msg_alloc e n" "\<forall>m \<in> set ms. wf_device_msg m" "pending ms p" "chunk \<noteq> []"
    and chunk: "chunk = take c (drop (length p) (dev_wire ms))"
  obtains dn rest p' where "ms = dn @ rest" "pending rest p'" "p @ chunk = dev_wire dn @ p'"
    "process_msgs e (p @ chunk) 0 r = map_option (Pair (Some (length (dev_wire dn)))) (handle_all e dn r)"
    "drop (length chunk) (drop (length p) (dev_wire ms)) = drop (length p') (dev_wire rest)"
proof -
  let ?k = "length p + length chunk"
  note pt = pending_take [OF assms(3)]
  have "?k \<le> length (dev_wire ms)" using pt(2) by (simp add: chunk)
  then obtain dn rest p' where sp: "ms = dn @ rest" "take ?k (dev_wire ms) = dev_wire dn @ p'"
    "pending rest p'" "drop ?k (dev_wire ms) = drop (length p') (dev_wire rest)"
    by (rule split_wire)
  have "take (length chunk) (drop (length p) (dev_wire ms)) = chunk"
    unfolding chunk by (rule take_length_take)
  with pt(1) have buf: "p @ chunk = dev_wire dn @ p'"
    unfolding sp(2) [symmetric] take_add by simp
  have "p' = [] \<or> (\<exists>m k. wf_device_msg m \<and> k < length (device_msg_bytes m) \<and> p' = take k (device_msg_bytes m))"
    using sp(1,3) assms(2) by (auto simp: pending_def)
  moreover have "dn \<noteq> [] \<or> p' \<noteq> []" using buf assms(4) by auto
  ultimately have "process_msgs e (p @ chunk) 0 r =
    map_option (Pair (Some (length (dev_wire dn)))) (handle_all e dn r)"
    using process_msgs_all [of e dn p' "[]" r] assms(1,2) sp(1) by (auto simp: buf)
  moreover have "drop (length chunk) (drop (length p) (dev_wire ms)) = drop (length p') (dev_wire rest)"
    using sp(4) by (simp only: drop_drop add.commute)
  ultimately show thesis using that sp(1,3) buf by blast
qed

lemma run_receiver_read:
  assumes "length p < DEVICE_MSG_MAX_SIZE" "chunk = take (min n (DEVICE_MSG_MAX_SIZE - length p)) s"
    "chunk \<noteq> []"
  shows "run_receiver e (n # ns) s p r = Option.bind (process_msgs e (p @ chunk) 0 r)
    (\<lambda>(consumed, r). case consumed of None \<Rightarrow> Some (True, r)
       | Some k \<Rightarrow> run_receiver e ns (drop (length chunk) s) (drop k (p @ chunk)) r)"
  using assms by (simp only: run_receiver.simps Let_def c_assert_def if_True if_False bind.bind_lunit)

text \<open>Whatever the sizes of the reads, the messages handled are a prefix of the messages sent, in order;
  and all of them when every read delivers something and there are enough reads.\<close>

lemma run_receiver_prefix:
  assumes "\<forall>n. msg_alloc e n" "\<forall>m \<in> set ms. wf_device_msg m" "pending ms p" "handle_all e ms r \<noteq> None"
  shows "\<exists>dn rest. ms = dn @ rest \<and>
    run_receiver e ns (drop (length p) (dev_wire ms)) p r = map_option (Pair False) (handle_all e dn r) \<and>
    (length (dev_wire ms) - length p \<le> length ns \<longrightarrow> 0 \<notin> set ns \<longrightarrow> rest = [])"
  using assms(2-)
proof (induction ns arbitrary: ms p r)
  case Nil
  then have "length p < DEVICE_MSG_MAX_SIZE" using pending_length by blast
  with pending_take(3) [OF Nil.prems(2)] show ?case
    by (intro exI [of _ "[]"] exI [of _ ms]) auto
next
  case (Cons n ns)
  let ?s = "drop (length p) (dev_wire ms)"
  define chunk where "chunk = take (min n (DEVICE_MSG_MAX_SIZE - length p)) ?s"
  have p: "length p < DEVICE_MSG_MAX_SIZE" using Cons.prems pending_length by blast
  show ?case
  proof (cases "chunk = []")
    case True
    then have "n = 0 \<or> length (dev_wire ms) \<le> length p" using p by (auto simp: chunk_def)
    with pending_take(3) [OF Cons.prems(2)] have "0 \<in> set (n # ns) \<or> ms = []" by auto
    with True p show ?thesis
      by (intro exI [of _ "[]"] exI [of _ ms]) (auto simp: chunk_def Let_def)
  next
    case False
    from one_read [OF assms(1) Cons.prems(1,2) False chunk_def] obtain dn rest p' where
      sp: "ms = dn @ rest" "pending rest p'" "p @ chunk = dev_wire dn @ p'"
      "process_msgs e (p @ chunk) 0 r = map_option (Pair (Some (length (dev_wire dn)))) (handle_all e dn r)"
      "drop (length chunk) ?s = drop (length p') (dev_wire rest)" .
    from Cons.prems(3) sp(1) obtain r' where r': "handle_all e dn r = Some r'" "handle_all e rest r' \<noteq> None"
      by (auto simp: handle_all_append split: Option.bind_splits)
    have "\<forall>m \<in> set rest. wf_device_msg m" using Cons.prems(1) sp(1) by simp
    from Cons.IH [OF this sp(2) r'(2)] obtain dn' rest' where
      IH: "rest = dn' @ rest'" "run_receiver e ns (drop (length p') (dev_wire rest)) p' r' =
        map_option (Pair False) (handle_all e dn' r')"
      "length (dev_wire rest) - length p' \<le> length ns \<longrightarrow> 0 \<notin> set ns \<longrightarrow> rest' = []"
      by blast
    have "run_receiver e (n # ns) ?s p r = map_option (Pair False) (handle_all e (dn @ dn') r)"
      unfolding run_receiver_read [OF p chunk_def False] sp(4,5)
      using r' IH(2) sp(3) by (simp add: handle_all_append)
    moreover have "rest' = []"
      if "length (dev_wire ms) - length p \<le> length (n # ns)" "0 \<notin> set (n # ns)"
    proof -
      have "length (dev_wire rest) - length p' = length (dev_wire ms) - length p - length chunk"
        using arg_cong [OF sp(5), of length] by (simp only: length_drop)
      moreover have "0 < length chunk" using False by simp
      ultimately have "length (dev_wire rest) - length p' \<le> length ns"
        using that(1) by (simp only: list.size)
      with IH(3) that(2) show ?thesis by simp
    qed
    moreover have "ms = (dn @ dn') @ rest'" using sp(1) IH(1) by simp
    ultimately show ?thesis by blast
  qed
qed

section \<open>Properties\<close>

text \<open>C38. Delivery does not depend on how the stream is cut into reads: if the device sends well-formed
  messages and handling them in order succeeds, then with any read sizes that are not zero, and enough
  of them, the receiver handles exactly these messages, each once and in order, ends without error, and
  its buffer never overflows.\<close>

theorem receiver_delivers_all:
  assumes "\<forall>n. msg_alloc e n" "\<forall>m \<in> set ms. wf_device_msg m" "handle_all e ms r = Some r'"
    "0 \<notin> set ns" "length (concat (map device_msg_bytes ms)) \<le> length ns"
  shows "run_receiver e ns (concat (map device_msg_bytes ms)) [] r = Some (False, r')"
proof -
  have "pending ms []" by (simp add: pending_def)
  with run_receiver_prefix [OF assms(1,2), of "[]" r ns] assms(3-) obtain dn rest where
    "ms = dn @ rest" "run_receiver e ns (dev_wire ms) [] r = map_option (Pair False) (handle_all e dn r)"
    "rest = []" by auto
  with assms(3) show ?thesis by simp
qed

theorem receiver_delivers_all_witness:
  "\<exists>r. sc_receiver_init True = Some r \<and>
     run_receiver \<lparr>msg_alloc = \<lambda>_. True, task_alloc = \<lambda>_. True, post_ok = \<lambda>_. True\<rparr>
       [1, 1, 2, 1, 9, 9, 9] [0, 0, 0, 0, 2, 0x68, 0x69] [] r =
     Some (False, r\<lparr>tasks := [task_set_clipboard [0x68, 0x69]], handled := 1\<rparr>)"
proof -
  let ?e = "\<lparr>msg_alloc = \<lambda>_. True, task_alloc = \<lambda>_. True, post_ok = \<lambda>_. True\<rparr> :: receiver_env"
  obtain r where r: "sc_receiver_init True = Some r" "tasks r = []" "handled r = 0"
    by (simp add: sc_receiver_init_def)
  let ?m = "CLIPBOARD [0x68, 0x69]"
  have h: "handle_all ?e [?m] r = Some (r\<lparr>tasks := [task_set_clipboard [0x68, 0x69]], handled := 1\<rparr>)"
    using r by (simp add: handle_msg_def)
  have b: "device_msg_bytes ?m = [0, 0, 0, 0, 2, 0x68, 0x69]"
    by (simp add: be32_def drop_bit_eq_div)
  from receiver_delivers_all [OF _ _ h, of "[1, 1, 2, 1, 9, 9, 9]"] b r(1) show ?thesis
    by (simp add: dev_limits del: run_receiver.simps device_msg_bytes.simps)
qed

text \<open>The buffers a message owns, and those a task posted to the main thread owns.\<close>

fun task_buffer :: "main_task \<Rightarrow> byte_buf" where
  "task_buffer (task_set_clipboard t) = t"
| "task_buffer (task_uhid_output _ _ d) = d"

abbreviation owned :: "sc_receiver \<Rightarrow> byte_buf list" where
  "owned r \<equiv> map task_buffer (tasks r) @ freed r @ leaked r"

lemma process_device_msg_owns:
  "process_device_msg e m r = Some r' \<Longrightarrow> mset (owned r') = mset (owned r) + mset (sc_device_msg_destroy m)"
  by (cases m) (auto split: if_splits option.splits simp: bind_Some_iff)

lemma process_device_msg_leaks:
  "process_device_msg e m r = Some r' \<Longrightarrow> task_alloc e (handled r) \<Longrightarrow> leaked r' = leaked r"
  by (cases m) (auto split: if_splits option.splits simp: bind_Some_iff)

text \<open>Ownership of the buffers the parser allocates: over any sequence of messages handled, every
  buffer is passed to a posted task, freed, or lost, and exactly one of these; and none is lost when
  allocating the tasks succeeds.\<close>

theorem receiver_buffers_accounted:
  assumes "handle_all e ms r = Some r'"
  shows "mset (map task_buffer (tasks r') @ freed r' @ leaked r') =
           mset (map task_buffer (tasks r) @ freed r @ leaked r) +
           mset (concat (map sc_device_msg_destroy ms)) \<and>
         ((\<forall>n. task_alloc e n) \<longrightarrow> leaked r' = leaked r)"
  using assms
proof (induction ms arbitrary: r)
  case (Cons m ms)
  then obtain r1 where r1: "process_device_msg e m r = Some r1"
    "handle_all e ms (r1\<lparr>handled := handled r1 + 1\<rparr>) = Some r'"
    by (auto simp: handle_msg_def bind_Some_iff)
  from Cons.IH [OF r1(2)] process_device_msg_owns [OF r1(1)] process_device_msg_leaks [OF r1(1)]
  show ?case by (simp add: ac_simps)
qed simp

theorem receiver_buffers_accounted_witness:
  "\<exists>r'. handle_all \<lparr>msg_alloc = \<lambda>_. True, task_alloc = \<lambda>_. False, post_ok = \<lambda>_. True\<rparr>
          [UHID_OUTPUT 1 1 [7]]
          \<lparr>rcv_acksync = None, rcv_uhid_devices = True, tasks = [], freed = [], leaked = [], handled = 0\<rparr>
        = Some r' \<and> leaked r' = [[7]] \<and>
        mset (map task_buffer (tasks r') @ freed r' @ leaked r') = {#[7]#}"
proof -
  let ?e = "\<lparr>msg_alloc = \<lambda>_. True, task_alloc = \<lambda>_. False, post_ok = \<lambda>_. True\<rparr> :: receiver_env"
  let ?r = "\<lparr>rcv_acksync = None, rcv_uhid_devices = True, tasks = [], freed = [], leaked = [], handled = 0\<rparr>"
  have h: "handle_all ?e [UHID_OUTPUT 1 1 [7]] ?r = Some (?r\<lparr>leaked := [[7]], handled := 1\<rparr>)"
    by (simp add: handle_msg_def)
  from receiver_buffers_accounted [OF h] h show ?thesis by simp
qed

end
