(* ===== verification/Strbuf.thy ===== *)
theory Strbuf
  imports Prelude
begin

text \<open>
  \<^verbatim>\<open>app/src/util/strbuf.c\<close>: a growable string buffer. A cell of the allocated block that was never
  written is \<open>None\<close>. Whether a block of some size can be allocated is the argument \<open>alloc\<close>.
\<close>

record sc_strbuf =
  sb_s :: "u8 option list"
  sb_len :: nat
  sb_cap :: nat

definition sc_strbuf_init :: "(nat \<Rightarrow> bool) \<Rightarrow> nat \<Rightarrow> sc_strbuf option" where
  "sc_strbuf_init alloc init_cap =
     (if \<not> alloc (init_cap + 1) then None
      else Some \<lparr>sb_s = replicate (init_cap + 1) None, sb_len = 0, sb_cap = init_cap\<rparr>)"

text \<open>\<^verbatim>\<open>realloc\<close> keeps the common prefix of the block.\<close>

definition c_realloc :: "nat \<Rightarrow> 'a option list \<Rightarrow> 'a option list" where
  "c_realloc n s = take n s @ replicate (n - length s) None"

definition sc_strbuf_reserve :: "(nat \<Rightarrow> bool) \<Rightarrow> nat \<Rightarrow> sc_strbuf \<Rightarrow> bool \<times> sc_strbuf" where
  "sc_strbuf_reserve alloc len buf =
     (if sb_len buf + len > sb_cap buf then
        (let new_cap = sb_cap buf * 3 div 2 + len in
         if \<not> alloc (new_cap + 1) then (False, buf)
         else (True, buf\<lparr>sb_s := c_realloc (new_cap + 1) (sb_s buf), sb_cap := new_cap\<rparr>))
      else (True, buf))"

text \<open>The common end of the three append functions: write the bytes, then the terminating NUL.\<close>

definition strbuf_put :: "byte_buf \<Rightarrow> sc_strbuf \<Rightarrow> sc_strbuf option" where
  "strbuf_put bytes buf = do {
     s \<leftarrow> mem_write (sb_len buf) (map Some bytes) (sb_s buf);
     let len = sb_len buf + length bytes;
     s \<leftarrow> mem_set len (Some 0) s;
     Some (buf\<lparr>sb_s := s, sb_len := len\<rparr>)
   }"

definition sc_strbuf_append ::
  "(nat \<Rightarrow> bool) \<Rightarrow> byte_buf \<Rightarrow> nat \<Rightarrow> sc_strbuf \<Rightarrow> (bool \<times> sc_strbuf) option" where
  "sc_strbuf_append alloc s len buf = do {
     c_assert (s \<noteq> []);
     c_assert (length s \<ge> len);
     let (ok, buf) = sc_strbuf_reserve alloc len buf;
     if \<not> ok then Some (False, buf)
     else do { buf \<leftarrow> strbuf_put (take len s) buf; Some (True, buf) }
   }"

definition sc_strbuf_append_char ::
  "(nat \<Rightarrow> bool) \<Rightarrow> u8 \<Rightarrow> sc_strbuf \<Rightarrow> (bool \<times> sc_strbuf) option" where
  "sc_strbuf_append_char alloc c buf =
     (let (ok, buf) = sc_strbuf_reserve alloc 1 buf in
      if \<not> ok then Some (False, buf)
      else do { buf \<leftarrow> strbuf_put [c] buf; Some (True, buf) })"

definition sc_strbuf_append_n ::
  "(nat \<Rightarrow> bool) \<Rightarrow> u8 \<Rightarrow> nat \<Rightarrow> sc_strbuf \<Rightarrow> (bool \<times> sc_strbuf) option" where
  "sc_strbuf_append_n alloc c n buf =
     (let (ok, buf) = sc_strbuf_reserve alloc n buf in
      if \<not> ok then Some (False, buf)
      else do { buf \<leftarrow> strbuf_put (replicate n c) buf; Some (True, buf) })"

text \<open>\<^verbatim>\<open>sc_strbuf_append_str\<close>; \<^verbatim>\<open>sc_strbuf_append_staticstr\<close> does the same on a literal.\<close>

definition sc_strbuf_append_str ::
  "(nat \<Rightarrow> bool) \<Rightarrow> byte_buf \<Rightarrow> sc_strbuf \<Rightarrow> (bool \<times> sc_strbuf) option" where
  "sc_strbuf_append_str alloc s buf = sc_strbuf_append alloc s (length s) buf"

definition sc_strbuf_shrink :: "(nat \<Rightarrow> bool) \<Rightarrow> sc_strbuf \<Rightarrow> sc_strbuf option" where
  "sc_strbuf_shrink alloc buf = do {
     c_assert (sb_len buf \<le> sb_cap buf);
     if sb_len buf \<noteq> sb_cap buf then do {
       c_assert (alloc (sb_len buf + 1));
       Some (buf\<lparr>sb_s := c_realloc (sb_len buf + 1) (sb_s buf), sb_cap := sb_len buf\<rparr>)
     } else Some buf
   }"

section \<open>Invariant and contents\<close>

definition sb_contents :: "sc_strbuf \<Rightarrow> byte_buf" where
  "sb_contents buf = map the (take (sb_len buf) (sb_s buf))"

definition sb_invar :: "sc_strbuf \<Rightarrow> bool" where
  "sb_invar buf \<longleftrightarrow> length (sb_s buf) = sb_cap buf + 1 \<and> sb_len buf \<le> sb_cap buf \<and>
     None \<notin> set (take (sb_len buf) (sb_s buf))"

text \<open>A buffer to which something was appended holds a C string.\<close>

definition sb_terminated :: "sc_strbuf \<Rightarrow> bool" where
  "sb_terminated buf \<longleftrightarrow> sb_s buf ! sb_len buf = Some 0"

lemma init_invar:
  "sc_strbuf_init alloc n = Some b \<Longrightarrow> sb_invar b \<and> sb_contents b = []"
  by (auto simp: sc_strbuf_init_def sb_invar_def sb_contents_def split: if_splits)

lemma reserve_cases:
  assumes "sb_invar b"
  obtains (Failed) "sc_strbuf_reserve alloc n b = (False, b)" "\<not> (\<forall>k. alloc k)"
  | (Room) b' where "sc_strbuf_reserve alloc n b = (True, b')" "sb_invar b'" "sb_contents b' = sb_contents b"
      "sb_len b' + n \<le> sb_cap b'" "sb_len b' = sb_len b"
proof (cases "sb_len b + n > sb_cap b")
  case False
  with assms that(2) [of b] show thesis by (simp add: sc_strbuf_reserve_def)
next
  case grow: True
  let ?nc = "sb_cap b * 3 div 2 + n"
  have le: "sb_cap b \<le> sb_cap b * 3 div 2" "sb_len b \<le> sb_cap b" using assms by (simp_all add: sb_invar_def)
  show thesis
  proof (cases "alloc (?nc + 1)")
    case True
    have "length (sb_s b) \<le> ?nc + 1" "sb_len b \<le> length (sb_s b)" using assms le by (auto simp: sb_invar_def)
    then have "c_realloc (?nc + 1) (sb_s b) = sb_s b @ replicate (?nc + 1 - length (sb_s b)) None"
      by (simp add: c_realloc_def)
    with \<open>length (sb_s b) \<le> ?nc + 1\<close> \<open>sb_len b \<le> length (sb_s b)\<close> assms grow True le
      that(2) [of "b\<lparr>sb_s := c_realloc (?nc + 1) (sb_s b), sb_cap := ?nc\<rparr>"] show thesis
      by (simp add: sc_strbuf_reserve_def sb_invar_def sb_contents_def Let_def)
  qed (use grow that(1) in \<open>auto simp: sc_strbuf_reserve_def Let_def\<close>)
qed

lemma put_spec:
  assumes "sb_invar b" "sb_len b + length xs \<le> sb_cap b"
  obtains b' where "strbuf_put xs b = Some b'" "sb_invar b'" "sb_terminated b'"
    "sb_contents b' = sb_contents b @ xs"
proof -
  let ?n = "sb_len b + length xs"
  have len: "?n < length (sb_s b)" using assms by (simp add: sb_invar_def)
  define s where "s = take (sb_len b) (sb_s b) @ map Some xs @ drop ?n (sb_s b)"
  have sl: "length s = length (sb_s b)" "take ?n s = take (sb_len b) (sb_s b) @ map Some xs"
    using len by (simp_all add: s_def)
  define b' where "b' = b\<lparr>sb_s := s[?n := Some 0], sb_len := ?n\<rparr>"
  have "strbuf_put xs b = Some b'"
    using len sl(1) by (simp add: strbuf_put_def mem_write_in mem_set_in b'_def Let_def flip: s_def)
  moreover have "take ?n (s[?n := Some 0]) = take (sb_len b) (sb_s b) @ map Some xs"
    using sl(2) by simp
  then have "sb_invar b'" "sb_contents b' = sb_contents b @ xs"
    using assms sl(1) by (auto simp: sb_invar_def sb_contents_def b'_def comp_def)
  moreover have "sb_terminated b'" using len sl(1) by (simp add: sb_terminated_def b'_def)
  ultimately show thesis using that by blast
qed

text \<open>What one append does: the buffer is unchanged if memory runs out, else the bytes are at its end.\<close>

definition appends :: "(nat \<Rightarrow> bool) \<Rightarrow> sc_strbuf \<Rightarrow> byte_buf \<Rightarrow> (bool \<times> sc_strbuf) option \<Rightarrow> bool" where
  "appends alloc b xs r \<longleftrightarrow>
     (r = Some (False, b) \<and> \<not> (\<forall>k. alloc k)) \<or>
     (\<exists>b'. r = Some (True, b') \<and> sb_invar b' \<and> sb_terminated b' \<and> sb_contents b' = sb_contents b @ xs)"

lemma put_after_reserve:
  assumes "sb_invar b" "length xs = n"
  shows "appends alloc b xs (let (ok, b) = sc_strbuf_reserve alloc n b in
           if \<not> ok then Some (False, b) else do { b \<leftarrow> strbuf_put xs b; Some (True, b) })"
  using assms(1)
proof (cases rule: reserve_cases [where alloc = alloc and n = n])
  case (Room b')
  with assms(2) have "sb_len b' + length xs \<le> sb_cap b'" by simp
  then obtain b2 where "strbuf_put xs b' = Some b2" "sb_invar b2" "sb_terminated b2"
    "sb_contents b2 = sb_contents b' @ xs" by (rule put_spec [OF Room(2)])
  with Room show ?thesis by (simp add: appends_def)
qed (simp add: appends_def)

lemma append_spec:
  assumes "sb_invar b"
  shows "s \<noteq> [] \<Longrightarrow> len \<le> length s \<Longrightarrow> appends alloc b (take len s) (sc_strbuf_append alloc s len b)"
    and "appends alloc b [c] (sc_strbuf_append_char alloc c b)"
    and "appends alloc b (replicate n c) (sc_strbuf_append_n alloc c n b)"
proof -
  show "appends alloc b (take len s) (sc_strbuf_append alloc s len b)" if "s \<noteq> []" "len \<le> length s"
  proof -
    have "sc_strbuf_append alloc s len b = (let (ok, b) = sc_strbuf_reserve alloc len b in
        if \<not> ok then Some (False, b) else do { b \<leftarrow> strbuf_put (take len s) b; Some (True, b) })"
      using that by (simp only: sc_strbuf_append_def c_assert_def if_True bind.bind_lunit not_False_eq_True)
    with that put_after_reserve [OF assms, of "take len s" len alloc] show ?thesis by (simp only: length_take min_absorb2)
  qed
  show "appends alloc b [c] (sc_strbuf_append_char alloc c b)"
    unfolding sc_strbuf_append_char_def
    by (rule put_after_reserve [OF assms, of "[c]" 1 alloc]) (simp only: list.size One_nat_def)
  show "appends alloc b (replicate n c) (sc_strbuf_append_n alloc c n b)"
    unfolding sc_strbuf_append_n_def
    by (rule put_after_reserve [OF assms, of "replicate n c" n alloc]) (simp only: length_replicate)
qed

lemma shrink_spec:
  assumes "sb_invar b" "sb_terminated b" "\<forall>k. alloc k"
  obtains b' where "sc_strbuf_shrink alloc b = Some b'" "sb_invar b'" "sb_terminated b'"
    "sb_contents b' = sb_contents b" "sb_cap b' = sb_len b"
proof (cases "sb_len b = sb_cap b")
  case True
  then have "sc_strbuf_shrink alloc b = Some b" by (simp add: sc_strbuf_shrink_def)
  then show thesis using assms True [symmetric] by (intro that) simp_all
next
  case False
  define b2 where "b2 = b\<lparr>sb_s := take (sb_len b + 1) (sb_s b), sb_cap := sb_len b\<rparr>"
  have l: "sb_len b + 1 \<le> length (sb_s b)" using assms False by (simp add: sb_invar_def)
  then have "sc_strbuf_shrink alloc b = Some b2"
    using assms False by (simp add: sc_strbuf_shrink_def c_realloc_def sb_invar_def b2_def)
  moreover have "sb_invar b2" "sb_contents b2 = sb_contents b"
    using assms l by (auto simp: sb_invar_def sb_contents_def min_def b2_def)
  moreover have "sb_terminated b2"
    using assms(2) by (simp add: sb_terminated_def b2_def)
  ultimately show thesis using that [of b2] by (simp add: b2_def)
qed

section \<open>Properties\<close>

text \<open>The string buffer never writes outside its block and appends exactly what it is given: starting
  from a buffer that satisfies the invariant, an append of a string, of a character or of repeated
  characters either reports that memory ran out and leaves the buffer as it was, or leaves a buffer with
  the bytes added at the end, terminated by a NUL inside the block.\<close>

theorem strbuf_append_correct:
  assumes "sb_invar b" "s \<noteq> []" "len \<le> length s"
    "(xs, r) \<in> {(take len s, sc_strbuf_append alloc s len b),
                (s, sc_strbuf_append_str alloc s b),
                ([c], sc_strbuf_append_char alloc c b),
                (replicate n c, sc_strbuf_append_n alloc c n b)}"
  shows "(r = Some (False, b) \<and> \<not> (\<forall>k. alloc k)) \<or>
         (\<exists>b'. r = Some (True, b') \<and> sb_invar b' \<and> sb_contents b' = sb_contents b @ xs \<and>
               sb_len b' < length (sb_s b') \<and> sb_s b' ! sb_len b' = Some 0)"
proof -
  from assms(4) append_spec [OF assms(1)] assms(2,3) have "appends alloc b xs r"
    by (auto simp: sc_strbuf_append_str_def) (metis order.refl take_all)
  then show ?thesis by (auto simp: appends_def sb_terminated_def sb_invar_def)
qed

theorem strbuf_append_correct_witness:
  "\<exists>b b'. sc_strbuf_init (\<lambda>_. True) 1 = Some b \<and> sb_invar b \<and>
     sc_strbuf_append (\<lambda>_. True) [0x61, 0x62, 0x63] 2 b = Some (True, b') \<and> sb_contents b' = [0x61, 0x62]"
proof -
  obtain b where b: "sc_strbuf_init (\<lambda>_. True) 1 = Some b" by (simp add: sc_strbuf_init_def)
  with init_invar have i: "sb_invar b" "sb_contents b = []" by blast+
  from strbuf_append_correct [OF i(1), of "[0x61, 0x62, 0x63]" 2 "[0x61, 0x62]"
      "sc_strbuf_append (\<lambda>_. True) [0x61, 0x62, 0x63] 2 b" "\<lambda>_. True"] i b
  show ?thesis by auto
qed

end
