(* ===== verification/StrText.thy ===== *)
theory StrText
  imports Str Strbuf
begin

text \<open>
  The rest of the text functions of \<^verbatim>\<open>app/src/util/str.c\<close>: copying, joining, searching, wrapping. A C
  string is the list of its bytes before the NUL; reading the byte at its length gives 0, further is
  outside the string.
\<close>

definition cstr_at :: "byte_buf \<Rightarrow> nat \<Rightarrow> u8 option" where
  "cstr_at s i = (if i < length s then Some (s ! i) else if i = length s then Some 0 else None)"

section \<open>Copying and joining\<close>

text \<open>The loop bound \<^verbatim>\<open>n - 1\<close> of \<^verbatim>\<open>sc_strncpy\<close> is a \<^verbatim>\<open>size_t\<close>: it wraps for \<open>n = 0\<close>.\<close>

function strncpy_loop :: "nat \<Rightarrow> byte_buf \<Rightarrow> nat \<Rightarrow> nat \<Rightarrow> byte_buf \<Rightarrow> (nat \<times> byte_buf) option" where
  "strncpy_loop bound src off i dest =
     (if i < bound then do {
        c \<leftarrow> cstr_at src i;
        if c \<noteq> 0 then do {
          dest \<leftarrow> mem_set (off + i) c dest;
          strncpy_loop bound src off (i + 1) dest
        } else Some (i, dest)
      } else Some (i, dest))"
  by pat_completeness auto
termination
  by (relation "measure (\<lambda>(bound, src, off, i, dest). length src - i)")
    (auto simp: cstr_at_def split: if_splits)

declare strncpy_loop.simps [simp del]

definition sc_strncpy :: "nat \<Rightarrow> byte_buf \<Rightarrow> nat \<Rightarrow> byte_buf \<Rightarrow> (nat \<times> byte_buf) option" where
  "sc_strncpy off src n dest = do {
     let bound = (if n = 0 then 2 ^ 64 - 1 else n - 1);
     (i, dest) \<leftarrow> strncpy_loop bound src off 0 dest;
     dest \<leftarrow> (if n \<noteq> 0 then mem_set (off + i) 0 dest else Some dest);
     c \<leftarrow> cstr_at src i;
     Some (if c = 0 then i else n, dest)
   }"

fun str_join_loop :: "u8 \<Rightarrow> nat \<Rightarrow> byte_buf list \<Rightarrow> nat \<Rightarrow> byte_buf \<Rightarrow> (nat \<times> byte_buf) option" where
  "str_join_loop sep n [] i dst = Some (i, dst)"
| "str_join_loop sep n (token # remaining) i dst = do {
     (i, dst) \<leftarrow> (if i \<noteq> 0 then do { dst \<leftarrow> mem_set i sep dst; Some (i + 1, dst) } else Some (i, dst));
     if i \<noteq> 0 \<and> i = n then do { dst \<leftarrow> mem_set (n - 1) 0 dst; Some (n, dst) }
     else do {
       (w, dst) \<leftarrow> sc_strncpy i token (n - i) dst;
       if w \<ge> n - i then do { dst \<leftarrow> mem_set (n - 1) 0 dst; Some (n, dst) }
       else str_join_loop sep n remaining (i + w) dst
     }
   }"

definition sc_str_join :: "byte_buf \<Rightarrow> byte_buf list \<Rightarrow> u8 \<Rightarrow> nat \<Rightarrow> (nat \<times> byte_buf) option" where
  "sc_str_join dst tokens sep n = str_join_loop sep n tokens 0 dst"

text \<open>\<^verbatim>\<open>sc_str_concat\<close>: the inner \<open>None\<close> is the NULL result; the block is returned with its NUL.\<close>

definition sc_str_concat :: "bool \<Rightarrow> byte_buf \<Rightarrow> byte_buf \<Rightarrow> u8 option list option option" where
  "sc_str_concat alloc start ending =
     (let start_len = length start; end_len = length ending in
      if \<not> alloc then Some None
      else do {
        r \<leftarrow> mem_write 0 (map Some start) (replicate (start_len + end_len + 1) None);
        r \<leftarrow> mem_write start_len (map Some (ending @ [0])) r;
        Some (Some r)
      })"

lemma concat_eq:
  "sc_str_concat True a b = Some (Some (map Some (a @ b @ [0])))"
  by (simp add: sc_str_concat_def mem_write_def)

lemma strncpy_loop_eq:
  assumes "0 \<notin> set src" "i \<le> k" "k = min bound (length src)" "off + k \<le> length dest"
  shows "strncpy_loop bound src off i dest =
    Some (k, take (off + i) dest @ take (k - i) (drop i src) @ drop (off + k) dest)"
  using assms
proof (induction bound src off i dest rule: strncpy_loop.induct)
  case (1 bound src off i dest)
  show ?case
  proof (cases "i < k")
    case False
    with "1.prems"(2) have "i = k" by linarith
    moreover from this have "strncpy_loop bound src off i dest = Some (i, dest)"
      using "1.prems" by (subst strncpy_loop.simps) (auto simp: cstr_at_def min_def split: if_splits)
    ultimately show ?thesis by simp
  next
    case True
    with "1.prems" have i: "i < bound" "i < length src" "off + i < length dest" "src ! i \<noteq> 0"
      by (auto simp: in_set_conv_nth)
    have "strncpy_loop bound src off i dest = strncpy_loop bound src off (i + 1) (dest[off + i := src ! i])"
      using i by (subst strncpy_loop.simps) (simp add: cstr_at_def mem_set_in)
    also have "\<dots> = Some (k, take (off + (i + 1)) (dest[off + i := src ! i]) @
        take (k - (i + 1)) (drop (i + 1) src) @ drop (off + k) (dest[off + i := src ! i]))"
      using "1.IH" [of "src ! i" "dest[off + i := src ! i]"] "1.prems" i True
      by (simp add: cstr_at_def mem_set_in)
    also have "take (off + (i + 1)) (dest[off + i := src ! i]) = take (off + i) dest @ [src ! i]"
      using i by (simp add: take_Suc_conv_app_nth)
    also have "drop (off + k) (dest[off + i := src ! i]) = drop (off + k) dest"
      using True by simp
    finally show ?thesis
      using True i by (simp add: Cons_nth_drop_Suc [symmetric] take_Cons')
  qed
qed

lemma strncpy_eq:
  assumes "0 \<notin> set src" "0 < n" "off + n \<le> length dest"
  shows "sc_strncpy off src n dest =
    (let k = min (n - 1) (length src) in
     Some (if length src < n then length src else n,
           take off dest @ take k src @ 0 # drop (off + k + 1) dest))"
proof -
  define k where "k = min (n - 1) (length src)"
  have k: "k \<le> length src" "off + k < length dest" using assms by (auto simp: k_def)
  have "strncpy_loop (n - 1) src off 0 dest = Some (k, take off dest @ take k src @ drop (off + k) dest)"
    using strncpy_loop_eq [of src 0 k "n - 1" off dest] assms k by (simp add: k_def)
  moreover have "(take off dest @ take k src @ drop (off + k) dest)[off + k := 0] =
    take off dest @ take k src @ 0 # drop (off + k + 1) dest"
    using k by (simp add: list_update_append Cons_nth_drop_Suc [symmetric])
  moreover have "cstr_at src k = Some (if length src < n then 0 else src ! k)" "length src < n \<or> src ! k \<noteq> 0"
    "length src < n \<Longrightarrow> k = length src"
    using assms by (auto simp: cstr_at_def k_def in_set_conv_nth)
  ultimately have "sc_strncpy off src n dest = Some (if length src < n then length src else n,
           take off dest @ take k src @ 0 # drop (off + k + 1) dest)"
    using assms(2) k by (auto simp: sc_strncpy_def mem_set_in)
  then show ?thesis by (simp only: Let_def flip: k_def)
qed

text \<open>What joining means: a separator goes before a token unless nothing was written yet.\<close>

definition joined :: "u8 \<Rightarrow> byte_buf \<Rightarrow> byte_buf list \<Rightarrow> byte_buf" where
  "joined sep = foldl (\<lambda>acc t. if acc = [] then t else acc @ sep # t)"

lemma joined_simps [simp]:
  "joined sep acc [] = acc"
  "joined sep acc (t # ts) = joined sep (if acc = [] then t else acc @ sep # t) ts"
  by (simp_all add: joined_def)

lemma joined_prefix: "\<exists>u. joined sep acc ts = acc @ u"
proof (induction ts arbitrary: acc)
  case (Cons t ts)
  from Cons [of "if acc = [] then t else acc @ sep # t"] show ?case by auto
qed simp

lemma str_join_loop_eq:
  assumes "\<forall>t \<in> set ts. 0 \<notin> set t" "length acc < n" "n \<le> length dst" "take (length acc) dst = acc"
    and R: "R = joined sep acc ts"
  shows "\<exists>dst'. str_join_loop sep n ts (length acc) dst =
           Some (if length R < n then length R else n, dst') \<and>
         length dst' = length dst \<and> drop n dst' = drop n dst \<and>
         (if length R < n
          then take (length R) dst' = R \<and> (if ts = [] then dst' = dst else dst' ! length R = 0)
          else take n dst' = take (n - 1) R @ [0])"
  using assms
proof (induction ts arbitrary: acc dst)
  case (Cons t ts)
  define acc1 where "acc1 = (if acc = [] then [] else acc @ [sep])"
  define acc2 where "acc2 = acc1 @ t"
  define d1 where "d1 = (if acc = [] then dst else dst[length acc := sep])"
  have R: "R = joined sep acc2 ts" using Cons.prems(5) by (simp add: acc2_def acc1_def)
  then obtain u where u: "R = acc2 @ u" using joined_prefix by blast
  have a1: "length acc1 \<le> n" "take (length acc1) d1 = acc1" "length d1 = length dst" "drop n d1 = drop n dst"
    using Cons.prems(2-4) by (auto simp: acc1_def d1_def take_Suc_conv_app_nth)
  have step: "str_join_loop sep n (t # ts) (length acc) dst =
    (if length acc1 = n then Some (n, d1[n - 1 := 0])
     else do {
       (w, dst) \<leftarrow> sc_strncpy (length acc1) t (n - length acc1) d1;
       if w \<ge> n - length acc1 then do { dst \<leftarrow> mem_set (n - 1) 0 dst; Some (n, dst) }
       else str_join_loop sep n ts (length acc1 + w) dst
     })"
    using Cons.prems(2,3) unfolding acc1_def d1_def by (auto simp: mem_set_in cong: if_cong)
  show ?case
  proof (cases "length acc2 < n")
    case False
    have trunc: "take n (xs[n - 1 := 0]) = take (n - 1) R @ [0]"
      if "take (n - 1) xs = take (n - 1) acc2" "n \<le> length xs" for xs
      using that False Cons.prems(2) u
      by (cases n) (simp_all add: take_Suc_conv_app_nth)
    have "\<not> length R < n" using False u by simp
    moreover have "\<exists>d. str_join_loop sep n (t # ts) (length acc) dst = Some (n, d[n - 1 := 0]) \<and>
      length d = length dst \<and> drop n d = drop n dst \<and> take (n - 1) d = take (n - 1) acc2"
    proof (cases "length acc1 = n")
      case True
      then have "take (n - 1) d1 = take (n - 1) acc2"
        using a1(2) by (simp add: acc2_def) (metis diff_le_self min.absorb1 take_take)
      with step True a1 show ?thesis by auto
    next
      case F: False
      let ?k = "n - length acc1 - 1"
      let ?d = "take (length acc1) d1 @ take ?k t @ 0 # drop (length acc1 + ?k + 1) d1"
      have "sc_strncpy (length acc1) t (n - length acc1) d1 = Some (n - length acc1, ?d)"
        using strncpy_eq [of t "n - length acc1" "length acc1" d1] F False a1 Cons.prems
        by (auto simp: Let_def acc2_def min_def)
      moreover have "length acc1 + ?k + 1 = n" "?k \<le> length t" using F False a1 by (auto simp: acc2_def)
      then have "length ?d = length dst" "drop n ?d = drop n dst" "take (n - 1) ?d = take (n - 1) acc2"
        using a1 Cons.prems(3) by (auto simp: acc2_def)
      ultimately show ?thesis
        using step F Cons.prems(2,3) by (intro exI [of _ ?d]) (simp add: mem_set_in)
    qed
    ultimately show ?thesis using trunc Cons.prems(2,3) by auto
  next
    case True
    let ?d = "acc2 @ 0 # drop (length acc2 + 1) d1"
    have l: "length acc1 < n" "length t < n - length acc1" using True by (auto simp: acc2_def)
    have "sc_strncpy (length acc1) t (n - length acc1) d1 = Some (length t, ?d)"
      using strncpy_eq [of t "n - length acc1" "length acc1" d1] l a1 Cons.prems
      by (simp add: Let_def acc2_def)
    with step l have eq: "str_join_loop sep n (t # ts) (length acc) dst = str_join_loop sep n ts (length acc2) ?d"
      by (simp add: acc2_def)
    have d: "length ?d = length dst" "drop n ?d = drop n dst" "take (length acc2) ?d = acc2" "?d ! length acc2 = 0"
      using True a1 Cons.prems(3) by (simp_all add: drop_Cons')
    from Cons.IH [of acc2 ?d] Cons.prems True d R obtain dst' where
      IH: "str_join_loop sep n ts (length acc2) ?d = Some (if length R < n then length R else n, dst')"
      "length dst' = length ?d" "drop n dst' = drop n ?d"
      "if length R < n then take (length R) dst' = R \<and> (if ts = [] then dst' = ?d else dst' ! length R = 0)
       else take n dst' = take (n - 1) R @ [0]" by auto
    moreover have "dst' ! length R = 0" if "length R < n" using IH(4) that d(4) R by (auto split: if_splits)
    ultimately show ?thesis using eq d by auto
  qed
qed simp

section \<open>Searching\<close>

text \<open>\<^verbatim>\<open>strncmp(a, b, n) == 0\<close> on C strings.\<close>

fun strncmp_eq :: "byte_buf \<Rightarrow> byte_buf \<Rightarrow> nat \<Rightarrow> bool" where
  "strncmp_eq a b 0 = True"
| "strncmp_eq [] [] (Suc n) = True"
| "strncmp_eq (x # a) (y # b) (Suc n) = (x = y \<and> strncmp_eq a b n)"
| "strncmp_eq _ _ (Suc n) = False"

text \<open>\<^verbatim>\<open>strchr(list, sep)\<close> as the rest of the list from the separator on, empty for NULL.\<close>

function sc_str_list_contains :: "byte_buf \<Rightarrow> u8 \<Rightarrow> byte_buf \<Rightarrow> bool" where
  "sc_str_list_contains list sep s =
     (let p = dropWhile (\<lambda>c. c \<noteq> sep) list; token_len = length list - length p in
      if strncmp_eq list s token_len then True
      else if p \<noteq> [] then sc_str_list_contains (tl p) sep s
      else False)"
  by pat_completeness auto
termination
proof (relation "measure (\<lambda>(list, sep, s). length list)")
  fix list s :: byte_buf and sep :: u8 and p
  assume "p = dropWhile (\<lambda>c. c \<noteq> sep) list" "p \<noteq> []"
  moreover have "length (tl p) < length p" using \<open>p \<noteq> []\<close> by (cases p) simp_all
  ultimately have "length (tl p) < length list"
    using length_dropWhile_le [of "\<lambda>c. c \<noteq> sep" list] by (simp only: order.strict_trans2)
  then show "((tl p, sep, s), list, sep, s) \<in> measure (\<lambda>(list, sep, s). length list)" by simp
qed simp

declare sc_str_list_contains.simps [simp del]

text \<open>The fields of a separated list.\<close>

fun fields :: "u8 \<Rightarrow> byte_buf \<Rightarrow> byte_buf list" where
  "fields sep [] = [[]]"
| "fields sep (c # cs) =
     (if c = sep then [] # fields sep cs else (c # hd (fields sep cs)) # tl (fields sep cs))"

lemma fields_unfold:
  "fields sep xs = takeWhile (\<lambda>c. c \<noteq> sep) xs #
     (case dropWhile (\<lambda>c. c \<noteq> sep) xs of [] \<Rightarrow> [] | _ # ys \<Rightarrow> fields sep ys)"
  by (induction xs) auto

lemma strncmp_eq_iff:
  "n \<le> length a \<Longrightarrow> strncmp_eq a b n \<longleftrightarrow> take n b = take n a"
  by (induction a b n rule: strncmp_eq.induct) (auto simp: take_Cons')

lemma takeWhile_length: "length xs - length (dropWhile P xs) = length (takeWhile P xs)"
  by (metis add_diff_cancel_right' length_append takeWhile_dropWhile_id)

text \<open>\<^verbatim>\<open>sc_str_index_of_column\<close>: \<open>rest\<close> is the string from \<open>idx\<close> on; the result -1 is \<open>None\<close>.\<close>

function str_index_loop :: "byte_buf \<Rightarrow> nat \<Rightarrow> byte_buf \<Rightarrow> nat \<Rightarrow> nat \<Rightarrow> nat option" where
  "str_index_loop seps col rest idx colidx =
     (if rest \<noteq> [] \<and> colidx \<noteq> col then
        (let r = length (takeWhile (\<lambda>c. c \<notin> set seps) rest); rest = drop r rest in
         if rest = [] then None
         else let k = length (takeWhile (\<lambda>c. c \<in> set seps) rest); rest' = drop k rest in
           str_index_loop seps col rest' (idx + r + k) (if rest' \<noteq> [] then colidx + 1 else colidx))
      else if col = colidx then Some idx else None)"
  by pat_completeness auto
termination
proof (relation "measure (\<lambda>(seps, col, rest, idx, colidx). length rest)")
  fix seps rest :: byte_buf and col idx colidx :: nat and r rest1 k rest'
  assume "rest \<noteq> [] \<and> colidx \<noteq> col" "r = length (takeWhile (\<lambda>c. c \<notin> set seps) rest)"
    "rest1 = drop r rest" "rest1 \<noteq> []" "k = length (takeWhile (\<lambda>c. c \<in> set seps) rest1)" "rest' = drop k rest1"
  moreover from this have "hd rest1 \<in> set seps"
    by (metis dropWhile_eq_drop hd_dropWhile)
  then have "0 < k" using calculation(4,5) by (cases rest1) simp_all
  moreover have "length rest1 \<le> length rest" using calculation(3) by simp
  ultimately have "length rest' < length rest" by simp
  then show "((seps, col, rest', idx + r + k, if rest' \<noteq> [] then colidx + 1 else colidx),
      seps, col, rest, idx, colidx) \<in> measure (\<lambda>(seps, col, rest, idx, colidx). length rest)"
    by simp
qed simp

declare str_index_loop.simps [simp del]

definition sc_str_index_of_column :: "byte_buf \<Rightarrow> nat \<Rightarrow> byte_buf \<Rightarrow> nat option" where
  "sc_str_index_of_column s col seps = str_index_loop seps col s 0 0"

section \<open>Editing in place\<close>

fun sc_str_remove_trailing_cr :: "byte_buf \<Rightarrow> nat \<Rightarrow> (nat \<times> byte_buf) option" where
  "sc_str_remove_trailing_cr s 0 = Some (0, s)"
| "sc_str_remove_trailing_cr s (Suc len) = do {
     c \<leftarrow> mem_get len s;
     if c \<noteq> 13 then Some (Suc len, s)
     else do { s \<leftarrow> mem_set len 0 s; sc_str_remove_trailing_cr s len }
   }"

lemma remove_trailing_cr_eq:
  "length l = len \<Longrightarrow>
   sc_str_remove_trailing_cr (l @ rest) len =
     (let l' = rev (dropWhile (\<lambda>c. c = 13) (rev l)) in
      Some (length l', l' @ replicate (len - length l') 0 @ rest))"
proof (induction len arbitrary: l rest)
  case (Suc n)
  then obtain b c where l: "l = b @ [c]" "length b = n" by (metis length_Suc_conv_rev)
  show ?case
  proof (cases "c = 13")
    case True
    have "length (rev (dropWhile (\<lambda>c. c = 13) (rev b))) \<le> n"
      using length_dropWhile_le [of _ "rev b"] l(2) by simp
    with True l Suc.IH [of b "0 # rest"] show ?thesis
      by (simp add: mem_get_def mem_set_def nth_append list_update_append Let_def Suc_diff_le
          replicate_app_Cons_same)
  qed (use l in \<open>simp add: mem_get_def nth_append\<close>)
qed simp

text \<open>One \<^verbatim>\<open>snprintf(buffer + i * 3, 4, "%02X ", data[i])\<close>; it also writes the NUL after the space.\<close>

definition hex_digit :: "u8 \<Rightarrow> u8" where
  "hex_digit d = (if d < 10 then 48 + d else 55 + d)"

definition hex_bytes :: "u8 \<Rightarrow> byte_buf" where
  "hex_bytes b = [hex_digit (drop_bit 4 b), hex_digit (b AND 0xf), 32]"

fun hex_loop :: "byte_buf \<Rightarrow> nat \<Rightarrow> u8 option list \<Rightarrow> u8 option list option" where
  "hex_loop [] i buffer = Some buffer"
| "hex_loop (b # data) i buffer = do {
     buffer \<leftarrow> mem_write (i * 3) (map Some (hex_bytes b @ [0])) buffer;
     hex_loop data (i + 1) buffer
   }"

definition sc_str_to_hex_string :: "bool \<Rightarrow> byte_buf \<Rightarrow> u8 option list option option" where
  "sc_str_to_hex_string alloc data =
     (if \<not> alloc then Some None
      else do {
        buffer \<leftarrow> hex_loop data 0 (replicate (length data * 3 + 1) None);
        buffer \<leftarrow> mem_set (length data * 3) (Some 0) buffer;
        Some (Some buffer)
      })"

lemma hex_loop_eq:
  "length pre = i * 3 \<Longrightarrow> length rest = length data * 3 + 1 \<Longrightarrow>
   \<exists>z. hex_loop data i (pre @ rest) = Some (pre @ map Some (concat (map hex_bytes data)) @ [z])"
proof (induction data arbitrary: i pre rest)
  case Nil
  then show ?case by (cases rest) auto
next
  case (Cons b data)
  let ?h = "map Some (hex_bytes b)"
  have h: "length ?h = 3" by (simp add: hex_bytes_def)
  have "mem_write (i * 3) (?h @ [Some 0]) (pre @ rest) = Some ((pre @ ?h) @ Some 0 # drop 4 rest)"
    using Cons.prems h by (simp add: mem_write_def)
  moreover obtain z where "hex_loop data (i + 1) ((pre @ ?h) @ Some 0 # drop 4 rest) =
      Some ((pre @ ?h) @ map Some (concat (map hex_bytes data)) @ [z])"
    using Cons.IH [of "pre @ ?h" "i + 1" "Some 0 # drop 4 rest"] Cons.prems h by auto
  ultimately show ?case by auto
qed

lemma to_hex_string_eq:
  "sc_str_to_hex_string True data = Some (Some (map Some (concat (map hex_bytes data) @ [0])))"
proof -
  obtain z where "hex_loop data 0 (replicate (length data * 3 + 1) None) =
      Some (map Some (concat (map hex_bytes data)) @ [z])"
    using hex_loop_eq [of "[]" 0 "replicate (length data * 3 + 1) None" data] by auto
  moreover have "length (concat (map hex_bytes data)) = length data * 3"
    by (induction data) (simp_all add: hex_bytes_def)
  ultimately show ?thesis by (simp add: sc_str_to_hex_string_def mem_set_def list_update_append)
qed

section \<open>Wrapping lines\<close>

text \<open>The \<^verbatim>\<open>APPEND*\<close> macros jump to \<^verbatim>\<open>error\<close>, where NULL is returned, when an append fails: \<open>Some None\<close>.\<close>

definition append_or_error ::
  "(bool \<times> sc_strbuf) option \<Rightarrow> (sc_strbuf \<Rightarrow> 'r option option) \<Rightarrow> 'r option option" where
  "append_or_error r f = do { (ok, buf) \<leftarrow> r; if ok then f buf else Some None }"

definition append_indent :: "(nat \<Rightarrow> bool) \<Rightarrow> nat \<Rightarrow> sc_strbuf \<Rightarrow> (bool \<times> sc_strbuf) option" where
  "append_indent alloc indent buf =
     (if indent \<noteq> 0 then sc_strbuf_append_n alloc 32 indent buf else Some (True, buf))"

text \<open>What goes before the next word: the result is the buffer and the column.\<close>

definition wrap_before ::
  "(nat \<Rightarrow> bool) \<Rightarrow> nat \<Rightarrow> bool \<Rightarrow> u8 \<Rightarrow> nat \<Rightarrow> sc_strbuf \<Rightarrow> (sc_strbuf \<times> nat) option option" where
  "wrap_before alloc indent wrap pending col buf =
     (if wrap then
        append_or_error (sc_strbuf_append_char alloc 10 buf) (\<lambda>buf.
        append_or_error (append_indent alloc indent buf) (\<lambda>buf. Some (Some (buf, indent))))
      else if pending \<noteq> 0 then
        append_or_error (sc_strbuf_append_char alloc pending buf) (\<lambda>buf.
        if pending = 10
        then append_or_error (append_indent alloc indent buf) (\<lambda>buf. Some (Some (buf, indent)))
        else Some (Some (buf, col + 1)))
      else Some (Some (buf, col)))"

abbreviation is_sep :: "u8 \<Rightarrow> bool" where
  "is_sep c \<equiv> c = 10 \<or> c = 32"

function wrap_loop ::
  "(nat \<Rightarrow> bool) \<Rightarrow> nat \<Rightarrow> nat \<Rightarrow> sc_strbuf \<Rightarrow> u8 \<Rightarrow> nat \<Rightarrow> byte_buf \<Rightarrow> (sc_strbuf \<times> u8) option option" where
  "wrap_loop alloc columns indent buf pending col input =
     (if input = [] then Some (Some (buf, pending))
      else
        let sep_idx = length (takeWhile (\<lambda>c. \<not> is_sep c) input);
            new_col = col + sep_idx + (if pending = 32 then 1 else 0);
            wrap = (new_col > columns);
            sep = (if sep_idx < length input then input ! sep_idx else 0) in
        do {
          r \<leftarrow> wrap_before alloc indent wrap pending col buf;
          (case r of
             None \<Rightarrow> Some None
           | Some (buf, col) \<Rightarrow>
               append_or_error
                 (if sep_idx \<noteq> 0 then sc_strbuf_append alloc input sep_idx buf else Some (True, buf))
                 (\<lambda>buf. wrap_loop alloc columns indent buf sep (col + sep_idx) (drop (sep_idx + 1) input)))
        })"
  by pat_completeness auto
termination
  by (relation "measure (\<lambda>(alloc, columns, indent, buf, pending, col, input). length input)") auto

declare wrap_loop.simps [simp del]

definition sc_str_wrap_lines ::
  "(nat \<Rightarrow> bool) \<Rightarrow> byte_buf \<Rightarrow> nat \<Rightarrow> nat \<Rightarrow> sc_strbuf option option" where
  "sc_str_wrap_lines alloc input columns indent = do {
     c_assert (indent < columns);
     (case sc_strbuf_init alloc (length input * 3 div 2) of
        None \<Rightarrow> Some None
      | Some buf \<Rightarrow>
          append_or_error (append_indent alloc indent buf) (\<lambda>buf. do {
            r \<leftarrow> wrap_loop alloc columns indent buf 0 indent input;
            (case r of
               None \<Rightarrow> Some None
             | Some (buf, pending) \<Rightarrow>
                 append_or_error
                   (if pending \<noteq> 0 then sc_strbuf_append_char alloc pending buf else Some (True, buf))
                   (\<lambda>buf. Some (Some buf)))
          }))
   }"

text \<open>The words of a text: its maximal runs of bytes that are neither spaces nor line breaks.\<close>

fun runs :: "byte_buf \<Rightarrow> byte_buf list" where
  "runs [] = [[]]"
| "runs (c # cs) = (if is_sep c then [] # runs cs else (c # hd (runs cs)) # tl (runs cs))"

definition words_of :: "byte_buf \<Rightarrow> byte_buf list" where
  "words_of xs = filter (\<lambda>w. w \<noteq> []) (runs xs)"

lemma runs_not_Nil [simp]: "runs xs \<noteq> []"
  by (cases xs) auto

lemma runs_sep: "is_sep s \<Longrightarrow> runs (a @ s # b) = runs a @ runs b"
  by (induction a) auto

lemma words_of_sep: "is_sep s \<Longrightarrow> words_of (a @ s # b) = words_of a @ words_of b"
  by (simp add: words_of_def runs_sep del: runs.simps)

lemma words_of_seps: "\<forall>c \<in> set s. is_sep c \<Longrightarrow> words_of (s @ b) = words_of b"
  using words_of_sep [of _ "[]"] by (induction s) (auto simp: words_of_def)

text \<open>Any non-empty run of separators separates words alike.\<close>

lemma words_of_mid:
  assumes "\<forall>c \<in> set s. is_sep c" "s \<noteq> []"
  shows "words_of (a @ s @ b) = words_of a @ words_of b"
proof (cases s)
  case (Cons c cs)
  with assms words_of_sep [of c a "cs @ b"] words_of_seps [of cs b] show ?thesis by simp
qed (use assms in simp)

text \<open>With memory available, the appends add their bytes.\<close>

lemma append_all_ok:
  assumes "sb_invar b" "\<forall>k. alloc k" "appends alloc b xs r"
  obtains b' where "r = Some (True, b')" "sb_invar b'" "sb_contents b' = sb_contents b @ xs" "sb_terminated b'"
  using assms by (auto simp: appends_def)

lemma append_indent_ok:
  assumes "sb_invar b" "\<forall>k. alloc k"
  obtains b' where "append_indent alloc n b = Some (True, b')" "sb_invar b'"
    "sb_contents b' = sb_contents b @ replicate n 32"
proof (cases "n = 0")
  case True
  with assms that [of b] show thesis by (simp add: append_indent_def)
next
  case False
  from append_all_ok [OF assms append_spec(3) [OF assms(1), where alloc = alloc and n = n and c = 32]]
  obtain b' where "sc_strbuf_append_n alloc 32 n b = Some (True, b')" "sb_invar b'"
    "sb_contents b' = sb_contents b @ replicate n 32" by blast
  with False that [of b'] show thesis by (simp add: append_indent_def)
qed

lemma wrap_before_ok:
  assumes b: "sb_invar b" "\<forall>k. alloc k" and p: "pending = 0 \<or> is_sep pending"
  obtains b' col' s where "wrap_before alloc indent wrap pending col b = Some (Some (b', col'))" "sb_invar b'"
    "sb_contents b' = sb_contents b @ s" "\<forall>c \<in> set s. is_sep c" "s = [] \<Longrightarrow> pending = 0"
proof -
  note result = that
  have nl: thesis if "wrap \<or> pending = 10"
  proof -
    from append_all_ok [OF b append_spec(2) [OF b(1), where alloc = alloc and c = 10]]
    obtain b1 where b1: "sc_strbuf_append_char alloc 10 b = Some (True, b1)" "sb_invar b1"
      "sb_contents b1 = sb_contents b @ [10]" by blast
    obtain b2 where "append_indent alloc indent b1 = Some (True, b2)" "sb_invar b2"
      "sb_contents b2 = sb_contents b1 @ replicate indent 32" by (rule append_indent_ok [OF b1(2) b(2)])
    with b1 that show thesis
      by (intro result [of b2 indent "10 # replicate indent 32"])
        (auto simp: wrap_before_def append_or_error_def)
  qed
  consider "wrap \<or> pending = 10" | "\<not> wrap" "pending = 0" | "\<not> wrap" "pending = 32" using p by blast
  then show thesis
  proof cases
    case 1
    with nl show thesis by blast
  next
    case 2
    with b result [of b col "[]"] show thesis by (simp add: wrap_before_def)
  next
    case 3
    from append_all_ok [OF b append_spec(2) [OF b(1), where alloc = alloc and c = 32]]
    obtain b1 where "sc_strbuf_append_char alloc 32 b = Some (True, b1)" "sb_invar b1"
      "sb_contents b1 = sb_contents b @ [32]" by blast
    with 3 result [of b1 "col + 1" "[32]"] show thesis by (simp add: wrap_before_def append_or_error_def)
  qed
qed

definition pend :: "u8 \<Rightarrow> byte_buf" where
  "pend p = (if p = 0 then [] else [p])"

lemma split_at_sep:
  assumes "0 \<notin> set input" "i = length (takeWhile (\<lambda>c. \<not> is_sep c) input)"
    "sep = (if i < length input then input ! i else 0)"
  shows "input = take i input @ pend sep @ drop (i + 1) input"
    "sep = 0 \<or> is_sep sep" "sep = 0 \<Longrightarrow> drop (i + 1) input = []"
proof -
  have "is_sep (input ! i)" if "i < length input"
    using nth_length_takeWhile [of "\<lambda>c. \<not> is_sep c" input] that assms(2) by simp
  with assms(1,3) show "sep = 0 \<or> is_sep sep" by auto
  have "input ! i \<noteq> 0" if "i < length input" using assms(1) nth_mem [OF that] by metis
  note nz = this
  then show "sep = 0 \<Longrightarrow> drop (i + 1) input = []" using assms(3) by (auto split: if_splits)
  show "input = take i input @ pend sep @ drop (i + 1) input"
    using nz assms(3) by (auto simp: pend_def id_take_nth_drop [symmetric])
qed

lemma words_step:
  assumes "\<forall>c \<in> set s. is_sep c" "s = [] \<Longrightarrow> p = 0" "p = 0 \<or> is_sep p" "p = 0 \<Longrightarrow> \<forall>c \<in> set a. is_sep c"
  shows "words_of (a @ s @ b) = words_of (a @ pend p @ b)"
proof (cases "p = 0")
  case True
  with assms(1,4) words_of_seps [of "a @ s" b] words_of_seps [of a b] show ?thesis
    by (auto simp: pend_def)
next
  case False
  with assms have "s \<noteq> []" "\<forall>c \<in> set (pend p). is_sep c" "pend p \<noteq> []" by (auto simp: pend_def)
  with assms(1) show ?thesis by (simp add: words_of_mid)
qed

lemma wrap_loop_ok:
  assumes "sb_invar b" "\<forall>k. alloc k" "pending = 0 \<or> is_sep pending" "0 \<notin> set input"
    "pending = 0 \<Longrightarrow> input \<noteq> [] \<Longrightarrow> \<forall>c \<in> set (sb_contents b). is_sep c"
  shows "\<exists>b' p. wrap_loop alloc columns indent b pending col input = Some (Some (b', p)) \<and> sb_invar b' \<and>
           (p = 0 \<or> is_sep p) \<and>
           words_of (sb_contents b' @ pend p) = words_of (sb_contents b @ pend pending @ input)"
  using assms
proof (induction "length input" arbitrary: b pending col input rule: less_induct)
  case less
  show ?case
  proof (cases "input = []")
    case True
    with less.prems show ?thesis by (subst wrap_loop.simps) auto
  next
    case False
    define i where "i = length (takeWhile (\<lambda>c. \<not> is_sep c) input)"
    define sep where "sep = (if i < length input then input ! i else 0)"
    define wrap where "wrap = (col + i + (if pending = 32 then 1 else 0) > columns)"
    note sp = split_at_sep [OF less.prems(4) i_def sep_def]
    obtain b1 col1 s where b1: "wrap_before alloc indent wrap pending col b = Some (Some (b1, col1))"
      "sb_invar b1" "sb_contents b1 = sb_contents b @ s" "\<forall>c \<in> set s. is_sep c" "s = [] \<Longrightarrow> pending = 0"
      using wrap_before_ok [OF less.prems(1-3)] by blast
    have "i \<le> length input" by (simp add: i_def length_takeWhile_le)
    obtain b2 where b2: "sb_invar b2" "sb_contents b2 = sb_contents b1 @ take i input"
      "(if i \<noteq> 0 then sc_strbuf_append alloc input i b1 else Some (True, b1)) = Some (True, b2)"
    proof (cases "i = 0")
      case True
      with b1 that [of b1] show thesis by simp
    next
      case F: False
      from append_all_ok [OF b1(2) less.prems(2) append_spec(1) [OF b1(2) False \<open>i \<le> length input\<close>]]
      obtain b2 where "sc_strbuf_append alloc input i b1 = Some (True, b2)" "sb_invar b2"
        "sb_contents b2 = sb_contents b1 @ take i input" by blast
      with F that [of b2] show thesis by simp
    qed
    have "wrap_loop alloc columns indent b pending col input =
      wrap_loop alloc columns indent b2 sep (col1 + i) (drop (i + 1) input)"
      using False b1(1) b2(3)
      unfolding wrap_loop.simps [of alloc columns indent b] Let_def
        i_def [symmetric] sep_def [symmetric] wrap_def [symmetric]
      by (simp add: append_or_error_def)
    moreover have "0 \<notin> set (drop (i + 1) input)" using less.prems(4) by (meson in_set_dropD)
    moreover have "length (drop (i + 1) input) < length input" using False by simp
    ultimately obtain b' p where
      IH: "wrap_loop alloc columns indent b pending col input = Some (Some (b', p))" "sb_invar b'" "p = 0 \<or> is_sep p"
      "words_of (sb_contents b' @ pend p) = words_of (sb_contents b2 @ pend sep @ drop (i + 1) input)"
      using less.hyps [of "drop (i + 1) input" b2 sep "col1 + i"] b2(1) less.prems(2) sp(2,3) by auto
    have "sb_contents b2 @ pend sep @ drop (i + 1) input = sb_contents b @ s @ input"
      using sp(1) b1(3) b2(2) by simp
    then have "words_of (sb_contents b' @ pend p) = words_of (sb_contents b @ pend pending @ input)"
      using IH(4) words_step [OF b1(4,5) less.prems(3) less.prems(5)] False by metis
    with IH show ?thesis by blast
  qed
qed

section \<open>Properties\<close>

text \<open>\<^verbatim>\<open>sc_str_join\<close> writes the tokens separated by the separator, as many bytes of it as fit: with a
  destination of at least \<open>n > 0\<close> bytes nothing outside the first \<open>n\<close> changes; if the joined text is
  shorter than \<open>n\<close> it is there with its NUL and its length is returned, else its first \<open>n - 1\<close> bytes and
  a NUL are there and \<open>n\<close> is returned.\<close>

theorem str_join_correct:
  assumes "\<forall>t \<in> set tokens. 0 \<notin> set t" "tokens \<noteq> []" "0 < n" "n \<le> length dst"
    and R: "R = joined sep [] tokens"
  shows "\<exists>dst'. sc_str_join dst tokens sep n = Some (if length R < n then length R else n, dst') \<and>
           length dst' = length dst \<and> drop n dst' = drop n dst \<and>
           (if length R < n then take (length R + 1) dst' = R @ [0]
            else take n dst' = take (n - 1) R @ [0])"
proof -
  from str_join_loop_eq [of tokens "[]" n dst R sep] assms obtain dst' where
    d: "sc_str_join dst tokens sep n = Some (if length R < n then length R else n, dst')"
    "length dst' = length dst" "drop n dst' = drop n dst"
    "if length R < n then take (length R) dst' = R \<and> dst' ! length R = 0 else take n dst' = take (n - 1) R @ [0]"
    by (auto simp: sc_str_join_def)
  then have "take (length R + 1) dst' = R @ [0]" if "length R < n"
    using that assms(4) by (simp add: take_Suc_conv_app_nth)
  with d show ?thesis by auto
qed

theorem str_join_correct_witness:
  "\<exists>dst'. sc_str_join (replicate 6 0x78) [[0x61, 0x62], [0x63]] 0x2c 6 = Some (4, dst') \<and>
          take 5 dst' = [0x61, 0x62, 0x2c, 0x63, 0]"
  using str_join_correct [of "[[0x61, 0x62], [0x63]]" 6 "replicate 6 0x78" "[0x61, 0x62, 0x2c, 0x63]" "0x2c"]
  by auto (simp add: numeral_eq_Suc)

text \<open>Wrapping changes only the white space of a text: with memory available, for any text and any
  indentation smaller than the number of columns, \<^verbatim>\<open>sc_str_wrap_lines\<close> terminates with a buffer that has
  the same words in the same order.\<close>

theorem wrap_lines_keeps_words:
  assumes "0 \<notin> set input" "indent < columns" "\<forall>k. alloc k"
  shows "\<exists>buf. sc_str_wrap_lines alloc input columns indent = Some (Some buf) \<and> sb_invar buf \<and>
               words_of (sb_contents buf) = words_of input"
proof -
  obtain b0 where b0: "sc_strbuf_init alloc (length input * 3 div 2) = Some b0"
    using assms(3) by (simp add: sc_strbuf_init_def)
  then have i: "sb_invar b0" "sb_contents b0 = []" using init_invar by blast+
  obtain b1 where b1: "append_indent alloc indent b0 = Some (True, b1)" "sb_invar b1"
    "sb_contents b1 = sb_contents b0 @ replicate indent 32" by (rule append_indent_ok [OF i(1) assms(3)])
  from wrap_loop_ok [OF b1(2) assms(3) _ assms(1), of 0 columns indent indent] b1(3) i(2) obtain b2 p where
    b2: "wrap_loop alloc columns indent b1 0 indent input = Some (Some (b2, p))" "sb_invar b2" "p = 0 \<or> is_sep p"
    "words_of (sb_contents b2 @ pend p) = words_of (replicate indent 32 @ input)"
    by (auto simp: pend_def)
  obtain b3 where b3: "sb_invar b3" "sb_contents b3 = sb_contents b2 @ pend p"
    "(if p \<noteq> 0 then sc_strbuf_append_char alloc p b2 else Some (True, b2)) = Some (True, b3)"
  proof (cases "p = 0")
    case True
    with b2 that [of b2] show thesis by (simp add: pend_def)
  next
    case False
    from append_all_ok [OF b2(2) assms(3) append_spec(2) [OF b2(2), where alloc = alloc and c = p]]
    obtain b3 where "sc_strbuf_append_char alloc p b2 = Some (True, b3)" "sb_invar b3"
      "sb_contents b3 = sb_contents b2 @ [p]" by blast
    with False that [of b3] show thesis by (simp add: pend_def)
  qed
  have "sc_str_wrap_lines alloc input columns indent = Some (Some b3)"
    using assms(2) b0 b1(1) b2(1) b3(3) by (simp add: sc_str_wrap_lines_def append_or_error_def)
  moreover have "words_of (replicate indent 32 @ input) = words_of input" by (rule words_of_seps) simp
  ultimately show ?thesis using b2(4) b3(1,2) by simp
qed

theorem wrap_lines_keeps_words_witness:
  "\<exists>buf. sc_str_wrap_lines (\<lambda>_. True) [0x61, 0x20, 0x62, 0x63] 3 1 = Some (Some buf) \<and>
         words_of (sb_contents buf) = [[0x61], [0x62, 0x63]]"
  using wrap_lines_keeps_words [of "[0x61, 0x20, 0x62, 0x63]" 1 3 "\<lambda>_. True"] by (auto simp: words_of_def)

text \<open>What \<^verbatim>\<open>sc_str_list_contains\<close> really decides: whether some element of the list is a prefix of the
  string searched, not whether the string is an element.\<close>

theorem list_contains_prefix:
  "sc_str_list_contains l sep s \<longleftrightarrow> (\<exists>f \<in> set (fields sep l). take (length f) s = f)"
proof (induction l sep s rule: sc_str_list_contains.induct)
  case (1 l sep s)
  let ?t = "takeWhile (\<lambda>c. c \<noteq> sep) l" and ?d = "dropWhile (\<lambda>c. c \<noteq> sep) l"
  have cmp: "strncmp_eq l s (length ?t) \<longleftrightarrow> take (length ?t) s = ?t"
    by (simp add: strncmp_eq_iff length_takeWhile_le) (metis takeWhile_eq_take)
  show ?case
  proof (cases ?d)
    case Nil
    then have t: "?t = l" by (metis append_Nil2 takeWhile_dropWhile_id)
    moreover have "fields sep l = [l]"
      using Nil t by (subst fields_unfold) (simp del: dropWhile_eq_Nil_conv takeWhile_eq_all_conv)
    ultimately show ?thesis
      using cmp [unfolded t] Nil
      by (subst sc_str_list_contains.simps) (simp add: Let_def del: dropWhile_eq_Nil_conv)
  next
    case (Cons x d)
    moreover have "length l - Suc (length d) = length ?t"
      using takeWhile_length [of l "\<lambda>c. c \<noteq> sep"] Cons by simp
    ultimately show ?thesis
      using cmp "1.IH" [OF refl refl]
      by (subst sc_str_list_contains.simps, subst fields_unfold) (auto simp: Let_def)
  qed
qed

theorem list_contains_prefix_witness:
  "sc_str_list_contains [0x61, 0x2c, 0x62] 0x2c [0x61, 0x62, 0x63]"
  using list_contains_prefix [of "[0x61, 0x2c, 0x62]" "0x2c" "[0x61, 0x62, 0x63]"] by auto

end
