(* ===== verification/StrParse.thy ===== *)
theory StrParse
  imports Prelude
begin

text \<open>
  The integer parsers of \<^verbatim>\<open>app/src/util/str.c\<close>, over a model of the C library function \<^verbatim>\<open>strtol\<close> with
  base 0. A \<^verbatim>\<open>long\<close> has 64 bits.
\<close>

definition LONG_MIN :: int where "LONG_MIN = - (2 ^ 63)"
definition LONG_MAX :: int where "LONG_MAX = 2 ^ 63 - 1"

definition in_long :: "int \<Rightarrow> bool" where
  "in_long v \<longleftrightarrow> LONG_MIN \<le> v \<and> v \<le> LONG_MAX"

section \<open>strtol\<close>

definition c_isspace :: "u8 \<Rightarrow> bool" where
  "c_isspace c \<longleftrightarrow> c = 32 \<or> (9 \<le> c \<and> c \<le> 13)"

text \<open>The value of a digit or letter; 36 for any other byte, which is no digit in any base.\<close>

definition digit_val :: "u8 \<Rightarrow> nat" where
  "digit_val c =
     (if 48 \<le> c \<and> c \<le> 57 then unat c - 48
      else if 97 \<le> c \<and> c \<le> 122 then unat c - 87
      else if 65 \<le> c \<and> c \<le> 90 then unat c - 55
      else 36)"

definition digits_value :: "nat \<Rightarrow> byte_buf \<Rightarrow> nat" where
  "digits_value base = foldl (\<lambda>a c. a * base + digit_val c) 0"

text \<open>The base and the length of the prefix after white space and sign: \<^verbatim>\<open>0x\<close> counts only when a
  hexadecimal digit follows.\<close>

fun base_prefix :: "byte_buf \<Rightarrow> nat \<times> nat" where
  "base_prefix (z # x # d # s) =
     (if z = 48 then (if (x = 120 \<or> x = 88) \<and> digit_val d < 16 then (16, 2) else (8, 0)) else (10, 0))"
| "base_prefix (z # s) = (if z = 48 then (8, 0) else (10, 0))"
| "base_prefix [] = (10, 0)"

text \<open>The result is the value, whether \<^verbatim>\<open>errno\<close> is \<^verbatim>\<open>ERANGE\<close>, and the index of \<^verbatim>\<open>endptr\<close>.\<close>

definition strtol0 :: "byte_buf \<Rightarrow> int \<times> bool \<times> nat" where
  "strtol0 s =
     (let ws = length (takeWhile c_isspace s);
          s1 = drop ws s;
          neg = (s1 \<noteq> [] \<and> hd s1 = 45);
          sgn_len = (if s1 \<noteq> [] \<and> (hd s1 = 45 \<or> hd s1 = 43) then 1 else 0);
          s2 = drop sgn_len s1;
          (base, pre) = base_prefix s2;
          digits = takeWhile (\<lambda>c. digit_val c < base) (drop pre s2);
          v = int (digits_value base digits);
          v = (if neg then - v else v);
          e = ws + sgn_len + pre + length digits in
      if digits = [] then (0, False, 0)
      else if v < LONG_MIN then (LONG_MIN, True, e)
      else if v > LONG_MAX then (LONG_MAX, True, e)
      else (v, False, e))"

section \<open>Parsers\<close>

definition sc_str_parse_integer :: "byte_buf \<Rightarrow> int option" where
  "sc_str_parse_integer s =
     (if s = [] then None
      else let (value, erange, e) = strtol0 s in
        if erange then None
        else if e < length s then None
        else Some value)"

text \<open>\<^verbatim>\<open>sc_str_parse_integers\<close>: the outer \<open>None\<close> is a write outside \<^verbatim>\<open>out\<close>, which has room for
  \<^verbatim>\<open>max_items\<close> values; the inner one is the result 0.\<close>

function parse_integers_loop :: "byte_buf \<Rightarrow> u8 \<Rightarrow> nat \<Rightarrow> int list \<Rightarrow> int list option option" where
  "parse_integers_loop s sep max_items out =
     (let (value, erange, e) = strtol0 s in
      if erange then Some None
      else if e = 0 \<or> (e < length s \<and> s ! e \<noteq> sep) then Some None
      else do {
        c_assert (length out < max_items);
        let out = out @ [value];
        if e < length s then
          (if length out \<ge> max_items then Some None
           else parse_integers_loop (drop (e + 1) s) sep max_items out)
        else Some (Some out)
      })"
  by pat_completeness auto
termination
  by (relation "measure (\<lambda>(s, sep, m, out). length s)") auto

declare parse_integers_loop.simps [simp del]

definition sc_str_parse_integers :: "byte_buf \<Rightarrow> u8 \<Rightarrow> nat \<Rightarrow> int list option option" where
  "sc_str_parse_integers s sep max_items = parse_integers_loop s sep max_items []"

text \<open>In \<^verbatim>\<open>sc_str_parse_integer_with_suffix\<close> the C division truncates towards zero.\<close>

definition sc_str_parse_integer_with_suffix :: "byte_buf \<Rightarrow> int option" where
  "sc_str_parse_integer_with_suffix s =
     (if s = [] then None
      else let (value, erange, e) = strtol0 s in
        if erange then None
        else do {
          mul \<leftarrow>
            (if e < length s then
               (if e = 0 then None
                else if (s ! e = 77 \<or> s ! e = 109) \<and> e + 1 = length s then Some 1000000
                else if (s ! e = 75 \<or> s ! e = 107) \<and> e + 1 = length s then Some 1000
                else None)
             else Some 1);
          if (value < 0 \<and> - ((- LONG_MIN) div mul) > value) \<or> (value > 0 \<and> LONG_MAX div mul < value)
          then None
          else Some (value * mul)
        })"

section \<open>Printed integers\<close>

fun dec :: "nat \<Rightarrow> byte_buf" where
  "dec n = (if n < 10 then [48 + of_nat n] else dec (n div 10) @ [48 + of_nat (n mod 10)])"

declare dec.simps [simp del]

definition show_int :: "int \<Rightarrow> byte_buf" where
  "show_int n = (if n < 0 then 45 # dec (nat (- n)) else dec (nat n))"

text \<open>What may follow a number: nothing, or a byte that neither is a digit nor makes a base prefix.\<close>

definition after_number :: "byte_buf \<Rightarrow> bool" where
  "after_number rest \<longleftrightarrow> rest = [] \<or> (digit_val (hd rest) \<ge> 10 \<and> hd rest \<noteq> 120 \<and> hd rest \<noteq> 88)"

lemma digit_byte: "n < 10 \<Longrightarrow> unat (48 + of_nat n :: u8) = 48 + n"
  by (simp add: unat_word_ariths unat_of_nat)

lemma digit_val_dec: "n < 10 \<Longrightarrow> digit_val (48 + of_nat n) = n"
  using digit_byte [of n] by (simp add: digit_val_def word_le_nat_alt)

lemma dec_digits: "c \<in> set (dec n) \<Longrightarrow> digit_val c < 10"
  by (induction n rule: dec.induct) (subst (asm) (2) dec.simps, auto simp: digit_val_dec split: if_splits)

lemma dec_value: "digits_value 10 (dec n) = n"
  by (induction n rule: dec.induct) (subst dec.simps, simp add: digits_value_def digit_val_dec)

lemma dec_not_Nil [simp]: "dec n \<noteq> []"
  by (subst dec.simps) simp

lemma dec_hd: "0 < n \<Longrightarrow> digit_val (hd (dec n)) \<noteq> 0 \<and> digit_val (hd (dec n)) < 10"
  by (induction n rule: dec.induct) (subst (1 2) dec.simps, auto simp: digit_val_dec)

lemma digit_not_space: "digit_val c < 10 \<Longrightarrow> \<not> c_isspace c \<and> c \<noteq> 45 \<and> c \<noteq> 43"
  by (auto simp: digit_val_def c_isspace_def word_le_nat_alt split: if_splits)

lemma digit_zero: "digit_val c = 0 \<longleftrightarrow> c = 48"
proof
  assume "digit_val c = 0"
  then have "unat c = unat (48 :: u8)"
    using unsigned_less [of c, where ?'a = nat]
    by (auto simp: digit_val_def word_le_nat_alt split: if_splits)
  then show "c = 48" by (simp only: word_unat_eq_iff)
qed (simp add: digit_val_def)

lemma takeWhile_digits:
  assumes "\<forall>c \<in> set ds. P c" "rest = [] \<or> \<not> P (hd rest)"
  shows "takeWhile P (ds @ rest) = ds"
  using assms by (cases rest) (auto simp: takeWhile_append)

text \<open>The digits of a printed number and the base they are read in.\<close>

lemma base_dec:
  assumes "after_number rest"
  shows "\<exists>base. base_prefix (dec n @ rest) = (base, 0) \<and>
           takeWhile (\<lambda>c. digit_val c < base) (dec n @ rest) = dec n \<and> digits_value base (dec n) = n"
proof (cases "n = 0")
  case True
  then have d: "dec n = [48]" by (subst dec.simps) simp
  have "base_prefix (48 # rest) = (8, 0)"
    using assms by (cases "48 # rest" rule: base_prefix.cases) (auto simp: after_number_def)
  moreover have "takeWhile (\<lambda>c. digit_val c < 8) ([48] @ rest) = [48]"
    using assms by (intro takeWhile_digits) (auto simp: after_number_def digit_val_def)
  ultimately show ?thesis using True d by (simp add: digits_value_def digit_val_def)
next
  case False
  then have "hd (dec n) \<noteq> 48" using dec_hd [of n] digit_zero by auto
  then have "base_prefix (dec n @ rest) = (10, 0)"
    by (cases "dec n @ rest" rule: base_prefix.cases) (auto simp: hd_append dest: arg_cong [where f = hd])
  moreover have "takeWhile (\<lambda>c. digit_val c < 10) (dec n @ rest) = dec n"
    using assms dec_digits by (intro takeWhile_digits) (auto simp: after_number_def)
  ultimately show ?thesis by (simp add: dec_value)
qed

lemma strtol0_show:
  assumes "after_number rest"
  shows "strtol0 (show_int n @ rest) =
    (if n < LONG_MIN then LONG_MIN else if n > LONG_MAX then LONG_MAX else n,
     \<not> in_long n, length (show_int n))"
proof -
  define k where "k = nat \<bar>n\<bar>"
  from base_dec [OF assms, of k] obtain base where b: "base_prefix (dec k @ rest) = (base, 0)"
    "takeWhile (\<lambda>c. digit_val c < base) (dec k @ rest) = dec k" "digits_value base (dec k) = k" by blast
  have hd: "digit_val (hd (dec k @ rest)) < 10" using dec_digits [of "hd (dec k)" k] by simp
  show ?thesis
  proof (cases "n < 0")
    case True
    then have s: "show_int n = 45 # dec k" "n = - int k" by (simp_all add: show_int_def k_def)
    have "takeWhile c_isspace (45 # dec k @ rest) = []" by (simp add: c_isspace_def)
    with s b show ?thesis
      by (auto simp: strtol0_def Let_def in_long_def LONG_MIN_def LONG_MAX_def)
  next
    case False
    then have s: "show_int n = dec k" "n = int k" by (simp_all add: show_int_def k_def)
    have "takeWhile c_isspace (dec k @ rest) = []"
      using digit_not_space [OF hd] by (cases "dec k @ rest") auto
    with s b digit_not_space [OF hd] show ?thesis
      by (auto simp: strtol0_def Let_def in_long_def LONG_MIN_def LONG_MAX_def)
  qed
qed

lemma show_int_not_Nil [simp]: "show_int n \<noteq> []"
  by (simp add: show_int_def)

section \<open>Properties\<close>

text \<open>Parsing a printed integer gives the integer back, for every value of a \<^verbatim>\<open>long\<close>, and every value
  outside its range is refused.\<close>

theorem parse_integer_roundtrip:
  "sc_str_parse_integer (show_int n) = (if in_long n then Some n else None)"
  using strtol0_show [of "[]" n]
  by (auto simp: sc_str_parse_integer_def after_number_def in_long_def)

text \<open>A number with a suffix is accepted exactly when the product fits a \<^verbatim>\<open>long\<close>: the overflow test by
  division neither lets a product overflow nor refuses one that fits.\<close>

theorem parse_suffix_exact:
  assumes "(suffix, mul) \<in> {([], 1), ([75], 1000), ([107], 1000), ([77], 1000000), ([109], 1000000)}"
  shows "sc_str_parse_integer_with_suffix (show_int n @ suffix) =
           (if in_long (n * mul) then Some (n * mul) else None)"
proof -
  have "after_number suffix" using assms by (auto simp: after_number_def digit_val_def)
  note st = strtol0_show [OF this, of n]
  have mul: "mul = 1 \<or> mul = 1000 \<or> mul = 1000000" using assms by auto
  show ?thesis
  proof (cases "in_long n")
    case False
    then have "\<not> in_long (n * mul)" using mul by (auto simp: in_long_def LONG_MIN_def LONG_MAX_def)
    with False st show ?thesis by (simp add: sc_str_parse_integer_with_suffix_def)
  next
    case True
    have "((n < 0 \<and> - ((- LONG_MIN) div mul) > n) \<or> (n > 0 \<and> LONG_MAX div mul < n)) \<longleftrightarrow> \<not> in_long (n * mul)"
      using mul True by (auto simp: in_long_def LONG_MIN_def LONG_MAX_def)
    moreover from True st have "strtol0 (show_int n @ suffix) = (n, False, length (show_int n))"
      by (auto simp: in_long_def)
    with assms have "sc_str_parse_integer_with_suffix (show_int n @ suffix) =
      (if (n < 0 \<and> - ((- LONG_MIN) div mul) > n) \<or> (n > 0 \<and> LONG_MAX div mul < n) then None else Some (n * mul))"
      by (simp only: insert_iff empty_iff prod.inject, elim disjE FalseE conjE)
        (simp_all add: sc_str_parse_integer_with_suffix_def nth_append)
    ultimately show ?thesis by (simp only: if_not_P if_P not_not cong: if_cong) simp
  qed
qed

theorem parse_suffix_exact_witness:
  "sc_str_parse_integer_with_suffix (show_int 8 @ [77]) = Some 8000000"
  using parse_suffix_exact [of "[77]" 1000000 8] by (simp add: in_long_def LONG_MIN_def LONG_MAX_def)

text \<open>Integers printed one after the other.\<close>

fun sep_ints :: "u8 \<Rightarrow> int list \<Rightarrow> byte_buf" where
  "sep_ints sep [] = []"
| "sep_ints sep [n] = show_int n"
| "sep_ints sep (n # m # ns) = show_int n @ sep # sep_ints sep (m # ns)"

lemma parse_integers_loop_show:
  assumes "after_number [sep]" "ns \<noteq> []" "\<forall>n \<in> set ns. in_long n" "length out < max_items"
  shows "parse_integers_loop (sep_ints sep ns) sep max_items out =
    Some (if length out + length ns \<le> max_items then Some (out @ ns) else None)"
  using assms
proof (induction sep ns arbitrary: out rule: sep_ints.induct)
  case (2 sep n)
  then have "strtol0 (show_int n) = (n, False, length (show_int n))"
    using strtol0_show [of "[]" n] by (auto simp: after_number_def in_long_def)
  with 2 show ?case by (subst parse_integers_loop.simps) simp
next
  case (3 sep n m ns)
  let ?r = "sep_ints sep (m # ns)"
  have "after_number (sep # ?r)" using 3 by (simp add: after_number_def)
  then have st: "strtol0 (show_int n @ sep # ?r) = (n, False, length (show_int n))"
    using strtol0_show [of "sep # ?r" n] 3 by (auto simp: in_long_def)
  have "parse_integers_loop (sep_ints sep (n # m # ns)) sep max_items out =
    (if length out + 1 \<ge> max_items then Some None else parse_integers_loop ?r sep max_items (out @ [n]))"
    using st 3 by (subst parse_integers_loop.simps) (simp add: nth_append)
  with 3 show ?case by auto
qed simp

text \<open>\<^verbatim>\<open>sc_str_parse_integers\<close> reads back any list of integers printed with a separator that can not be
  part of a number, if it is not longer than the output array; a longer list is refused, and in neither
  case is anything written outside the array.\<close>

theorem parse_integers_roundtrip:
  assumes "digit_val sep \<ge> 10" "sep \<noteq> 120" "sep \<noteq> 88" "ns \<noteq> []" "\<forall>n \<in> set ns. in_long n" "0 < max_items"
  shows "sc_str_parse_integers (sep_ints sep ns) sep max_items =
           Some (if length ns \<le> max_items then Some ns else None)"
  using parse_integers_loop_show [of sep ns "[]" max_items] assms
  by (simp add: sc_str_parse_integers_def after_number_def)

theorem parse_integers_roundtrip_witness:
  "sc_str_parse_integers (show_int 1234 @ 58 # show_int (- 5)) 58 2 = Some (Some [1234, - 5])"
  using parse_integers_roundtrip [of 58 "[1234, - 5]" 2]
  by (simp add: digit_val_def in_long_def LONG_MIN_def LONG_MAX_def)

end
