(* ===== verification/Traits.thy ===== *)
theory Traits
  imports Prelude
begin

text \<open>
  \<^verbatim>\<open>app/src/trait/\<close>: packet and frame sinks and the sources that feed them. A sink is its table of
  operations and the state they act on; an operation that fails an assertion is \<open>None\<close>. The contract
  every sink keeps, and every source relies on, is the locale \<open>stream_sink\<close>.
\<close>

section \<open>Sinks\<close>

record sc_stream_session =
  ses_width :: u32
  ses_height :: u32
  client_resized :: bool

record ('c, 'p, 's) sc_frame_sink_ops =
  sk_open :: "'c \<Rightarrow> sc_stream_session option \<Rightarrow> 's \<Rightarrow> (bool \<times> 's) option"
  sk_close :: "'s \<Rightarrow> 's option"
  sk_push :: "'p \<Rightarrow> 's \<Rightarrow> (bool \<times> 's) option"
  sk_push_session :: "(sc_stream_session \<Rightarrow> 's \<Rightarrow> (bool \<times> 's) option) option"

record ('c, 'p, 's) sc_packet_sink_ops = "('c, 'p, 's) sc_frame_sink_ops" +
  sk_disable :: "('s \<Rightarrow> 's option) option"

type_synonym ('c, 'p, 's, 'z) sink = "('c, 'p, 's, 'z) sc_frame_sink_ops_scheme \<times> 's"
type_synonym ('c, 'p, 's) frame_sink = "('c, 'p, 's) sc_frame_sink_ops \<times> 's"
type_synonym ('c, 'p, 's) packet_sink = "('c, 'p, 's) sc_packet_sink_ops \<times> 's"

definition SC_PACKET_SOURCE_MAX_SINKS :: nat where
  "SC_PACKET_SOURCE_MAX_SINKS = 2"

definition SC_FRAME_SOURCE_MAX_SINKS :: nat where
  "SC_FRAME_SOURCE_MAX_SINKS = 2"

section \<open>The loops shared by both sources\<close>

fun sinks_close_firsts :: "nat \<Rightarrow> ('c, 'p, 's, 'z) sink list \<Rightarrow> ('c, 'p, 's, 'z) sink list option" where
  "sinks_close_firsts 0 sinks = Some sinks"
| "sinks_close_firsts (Suc count) sinks = do {
     (ops, s) \<leftarrow> mem_get count sinks;
     s \<leftarrow> sk_close ops s;
     sinks_close_firsts count (sinks[count := (ops, s)])
   }"

function sinks_open_loop ::
  "'c \<Rightarrow> sc_stream_session option \<Rightarrow> nat \<Rightarrow> ('c, 'p, 's, 'z) sink list \<Rightarrow>
   (bool \<times> ('c, 'p, 's, 'z) sink list) option" where
  "sinks_open_loop ctx session i sinks =
     (if i < length sinks then do {
        (ops, s) \<leftarrow> mem_get i sinks;
        (ok, s) \<leftarrow> sk_open ops ctx session s;
        let sinks = sinks[i := (ops, s)];
        if ok then sinks_open_loop ctx session (i + 1) sinks
        else do { sinks \<leftarrow> sinks_close_firsts i sinks; Some (False, sinks) }
      } else Some (True, sinks))"
  by pat_completeness auto
termination
  by (relation "measure (\<lambda>(ctx, session, i, sinks). length sinks - i)") auto

function sinks_push_loop ::
  "'p \<Rightarrow> nat \<Rightarrow> ('c, 'p, 's, 'z) sink list \<Rightarrow> (bool \<times> ('c, 'p, 's, 'z) sink list) option" where
  "sinks_push_loop packet i sinks =
     (if i < length sinks then do {
        (ops, s) \<leftarrow> mem_get i sinks;
        (ok, s) \<leftarrow> sk_push ops packet s;
        let sinks = sinks[i := (ops, s)];
        if ok then sinks_push_loop packet (i + 1) sinks else Some (False, sinks)
      } else Some (True, sinks))"
  by pat_completeness auto
termination
  by (relation "measure (\<lambda>(packet, i, sinks). length sinks - i)") auto

function sinks_push_session_loop ::
  "sc_stream_session \<Rightarrow> nat \<Rightarrow> ('c, 'p, 's, 'z) sink list \<Rightarrow> (bool \<times> ('c, 'p, 's, 'z) sink list) option"
  where
  "sinks_push_session_loop session i sinks =
     (if i < length sinks then do {
        (ops, s) \<leftarrow> mem_get i sinks;
        (ok, s) \<leftarrow> (case sk_push_session ops of None \<Rightarrow> Some (True, s) | Some f \<Rightarrow> f session s);
        let sinks = sinks[i := (ops, s)];
        if ok then sinks_push_session_loop session (i + 1) sinks else Some (False, sinks)
      } else Some (True, sinks))"
  by pat_completeness auto
termination
  by (relation "measure (\<lambda>(session, i, sinks). length sinks - i)") auto

function sinks_disable_loop ::
  "nat \<Rightarrow> (('c, 'p, 's, 'z) sc_packet_sink_ops_scheme \<times> 's) list \<Rightarrow>
   (('c, 'p, 's, 'z) sc_packet_sink_ops_scheme \<times> 's) list option" where
  "sinks_disable_loop i sinks =
     (if i < length sinks then do {
        (ops, s) \<leftarrow> mem_get i sinks;
        s \<leftarrow> (case sk_disable ops of None \<Rightarrow> Some s | Some f \<Rightarrow> f s);
        sinks_disable_loop (i + 1) (sinks[i := (ops, s)])
      } else Some sinks)"
  by pat_completeness auto
termination
  by (relation "measure (\<lambda>(i, sinks). length sinks - i)") auto

declare sinks_open_loop.simps [simp del] sinks_push_loop.simps [simp del]
  sinks_push_session_loop.simps [simp del] sinks_disable_loop.simps [simp del]

section \<open>Packet source\<close>

definition sc_packet_source_init :: "('c, 'p, 's) packet_sink list" where
  "sc_packet_source_init = []"

definition sc_packet_source_add_sink ::
  "('c, 'p, 's) packet_sink \<Rightarrow> ('c, 'p, 's) packet_sink list \<Rightarrow> ('c, 'p, 's) packet_sink list option" where
  "sc_packet_source_add_sink sink sinks = do {
     c_assert (length sinks < SC_PACKET_SOURCE_MAX_SINKS);
     Some (sinks @ [sink])
   }"

definition sc_packet_source_sinks_open ::
  "'c \<Rightarrow> sc_stream_session option \<Rightarrow> ('c, 'p, 's) packet_sink list \<Rightarrow>
   (bool \<times> ('c, 'p, 's) packet_sink list) option" where
  "sc_packet_source_sinks_open ctx session sinks = do {
     c_assert (sinks \<noteq> []);
     sinks_open_loop ctx session 0 sinks
   }"

definition sc_packet_source_sinks_close ::
  "('c, 'p, 's) packet_sink list \<Rightarrow> ('c, 'p, 's) packet_sink list option" where
  "sc_packet_source_sinks_close sinks = do {
     c_assert (sinks \<noteq> []);
     sinks_close_firsts (length sinks) sinks
   }"

definition sc_packet_source_sinks_push ::
  "'p \<Rightarrow> ('c, 'p, 's) packet_sink list \<Rightarrow> (bool \<times> ('c, 'p, 's) packet_sink list) option" where
  "sc_packet_source_sinks_push packet sinks = do {
     c_assert (sinks \<noteq> []);
     sinks_push_loop packet 0 sinks
   }"

definition sc_packet_source_sinks_push_session ::
  "sc_stream_session \<Rightarrow> ('c, 'p, 's) packet_sink list \<Rightarrow>
   (bool \<times> ('c, 'p, 's) packet_sink list) option" where
  "sc_packet_source_sinks_push_session session sinks = do {
     c_assert (sinks \<noteq> []);
     sinks_push_session_loop session 0 sinks
   }"

definition sc_packet_source_sinks_disable ::
  "('c, 'p, 's) packet_sink list \<Rightarrow> ('c, 'p, 's) packet_sink list option" where
  "sc_packet_source_sinks_disable sinks = do {
     c_assert (sinks \<noteq> []);
     sinks_disable_loop 0 sinks
   }"

section \<open>Frame source\<close>

definition sc_frame_source_init :: "('c, 'p, 's) frame_sink list" where
  "sc_frame_source_init = []"

definition sc_frame_source_add_sink ::
  "('c, 'p, 's) frame_sink \<Rightarrow> ('c, 'p, 's) frame_sink list \<Rightarrow> ('c, 'p, 's) frame_sink list option" where
  "sc_frame_source_add_sink sink sinks = do {
     c_assert (length sinks < SC_FRAME_SOURCE_MAX_SINKS);
     Some (sinks @ [sink])
   }"

definition sc_frame_source_sinks_open ::
  "'c \<Rightarrow> sc_stream_session option \<Rightarrow> ('c, 'p, 's) frame_sink list \<Rightarrow>
   (bool \<times> ('c, 'p, 's) frame_sink list) option" where
  "sc_frame_source_sinks_open ctx session sinks = do {
     c_assert (sinks \<noteq> []);
     sinks_open_loop ctx session 0 sinks
   }"

definition sc_frame_source_sinks_close ::
  "('c, 'p, 's) frame_sink list \<Rightarrow> ('c, 'p, 's) frame_sink list option" where
  "sc_frame_source_sinks_close sinks = do {
     c_assert (sinks \<noteq> []);
     sinks_close_firsts (length sinks) sinks
   }"

definition sc_frame_source_sinks_push ::
  "'p \<Rightarrow> ('c, 'p, 's) frame_sink list \<Rightarrow> (bool \<times> ('c, 'p, 's) frame_sink list) option" where
  "sc_frame_source_sinks_push frame sinks = do {
     c_assert (sinks \<noteq> []);
     sinks_push_loop frame 0 sinks
   }"

definition sc_frame_source_sinks_push_session ::
  "sc_stream_session \<Rightarrow> ('c, 'p, 's) frame_sink list \<Rightarrow>
   (bool \<times> ('c, 'p, 's) frame_sink list) option" where
  "sc_frame_source_sinks_push_session session sinks = do {
     c_assert (sinks \<noteq> []);
     sinks_push_session_loop session 0 sinks
   }"

lemmas packet_source_defs = sc_packet_source_sinks_open_def sc_packet_source_sinks_close_def
  sc_packet_source_sinks_push_def sc_packet_source_sinks_push_session_def
  sc_packet_source_sinks_disable_def

lemmas frame_source_defs = sc_frame_source_sinks_open_def sc_frame_source_sinks_close_def
  sc_frame_source_sinks_push_def sc_frame_source_sinks_push_session_def

section \<open>The contract of a sink\<close>

text \<open>
  A sink is closed or opened. Opening a closed sink either succeeds and opens it, or fails and leaves
  it closed; an opened sink accepts or refuses data and stays opened until it is closed; none of these
  calls aborts. \<open>open_args\<close> is what the caller guarantees of the codec context and the session.
\<close>

locale stream_sink =
  fixes closed :: "('c, 'p, 's, 'z) sink \<Rightarrow> bool"
    and opened :: "('c, 'p, 's, 'z) sink \<Rightarrow> bool"
    and open_args :: "'c \<Rightarrow> sc_stream_session option \<Rightarrow> bool"
  assumes open_law: "closed (ops, s) \<Longrightarrow> open_args c se \<Longrightarrow>
      \<exists>ok s'. sk_open ops c se s = Some (ok, s') \<and> (if ok then opened else closed) (ops, s')"
    and close_law: "opened (ops, s) \<Longrightarrow> \<exists>s'. sk_close ops s = Some s' \<and> closed (ops, s')"
    and push_law: "opened (ops, s) \<Longrightarrow> \<exists>ok s'. sk_push ops p s = Some (ok, s') \<and> opened (ops, s')"
    and push_session_law: "opened (ops, s) \<Longrightarrow> sk_push_session ops = Some f \<Longrightarrow>
      \<exists>ok s'. f x s = Some (ok, s') \<and> opened (ops, s')"
begin

definition all_closed :: "('c, 'p, 's, 'z) sink list \<Rightarrow> bool" where
  "all_closed sinks = (\<forall>j < length sinks. closed (sinks ! j))"

definition all_opened :: "('c, 'p, 's, 'z) sink list \<Rightarrow> bool" where
  "all_opened sinks = (\<forall>j < length sinks. opened (sinks ! j))"

text \<open>\<open>split_at i\<close>: the first \<open>i\<close> sinks are opened and the others closed.\<close>

definition split_at :: "nat \<Rightarrow> ('c, 'p, 's, 'z) sink list \<Rightarrow> bool" where
  "split_at i sinks \<longleftrightarrow> i \<le> length sinks \<and>
     (\<forall>j < length sinks. (if j < i then opened else closed) (sinks ! j))"

lemma split_0: "split_at 0 sinks \<longleftrightarrow> all_closed sinks"
  by (simp add: split_at_def all_closed_def)

lemma split_all: "split_at (length sinks) sinks \<longleftrightarrow> all_opened sinks"
  by (simp add: split_at_def all_opened_def)

lemma split_down:
  assumes "split_at (Suc i) sinks" "closed x"
  shows "split_at i (sinks[i := x])"
  unfolding split_at_def
proof (intro conjI allI impI)
  fix j assume "j < length (sinks[i := x])"
  then have "(if j < Suc i then opened else closed) (sinks ! j)" "j < length sinks"
    using assms(1) by (simp_all add: split_at_def)
  then show "(if j < i then opened else closed) (sinks[i := x] ! j)"
    using assms(2) by (cases j i rule: linorder_cases) auto
qed (use assms in \<open>simp add: split_at_def\<close>)

lemma split_up: "split_at i sinks \<Longrightarrow> i < length sinks \<Longrightarrow> opened x \<Longrightarrow> split_at (Suc i) (sinks[i := x])"
  by (auto simp: split_at_def nth_list_update less_Suc_eq split: if_splits)

lemma split_same: "split_at i sinks \<Longrightarrow> closed x \<Longrightarrow> split_at i (sinks[i := x])"
  by (auto simp: split_at_def nth_list_update split: if_splits)

lemma close_firsts_ok:
  "split_at i sinks \<Longrightarrow>
   \<exists>sinks'. sinks_close_firsts i sinks = Some sinks' \<and> all_closed sinks' \<and> length sinks' = length sinks"
proof (induction i arbitrary: sinks)
  case 0
  then show ?case by (simp add: split_0)
next
  case (Suc i)
  obtain ops s where x: "sinks ! i = (ops, s)" by force
  have i: "i < length sinks" "opened (ops, s)"
    using Suc.prems x unfolding split_at_def by (fastforce, metis Suc_le_lessD lessI)
  obtain s' where s': "sk_close ops s = Some s'" "closed (ops, s')" using close_law [OF i(2)] by blast
  from Suc.IH [OF split_down [OF Suc.prems s'(2)]] show ?case using i x s' by (simp add: mem_get_def)
qed

lemma open_loop_ok:
  assumes "open_args c se" "split_at i sinks"
  shows "\<exists>ok sinks'. sinks_open_loop c se i sinks = Some (ok, sinks') \<and>
    (if ok then all_opened else all_closed) sinks' \<and> length sinks' = length sinks"
  using assms
proof (induction c se i sinks rule: sinks_open_loop.induct)
  case (1 c se i sinks)
  show ?case
  proof (cases "i < length sinks")
    case False
    with "1.prems" have "i = length sinks" by (simp add: split_at_def)
    with "1.prems" show ?thesis by (subst sinks_open_loop.simps) (auto simp: split_all intro: exI [of _ True])
  next
    case True
    obtain ops s where x: "sinks ! i = (ops, s)" by force
    have "closed (ops, s)" using "1.prems" True x by (auto simp: split_at_def)
    from open_law [OF this "1.prems"(1)] obtain ok s' where
      o: "sk_open ops c se s = Some (ok, s')" "(if ok then opened else closed) (ops, s')" by blast
    show ?thesis
    proof (cases ok)
      case ok: True
      with o have "split_at (i + 1) (sinks[i := (ops, s')])"
        using split_up [OF "1.prems"(2) True] by simp
      from "1.IH" [OF True _ refl _ refl refl ok "1.prems"(1) this] show ?thesis
        using True x o ok by (subst sinks_open_loop.simps) (simp add: mem_get_def)
    next
      case False
      with o have "split_at i (sinks[i := (ops, s')])" using split_same [OF "1.prems"(2)] by simp
      from close_firsts_ok [OF this] show ?thesis
        using True x o False by (subst sinks_open_loop.simps) (auto simp: mem_get_def)
    qed
  qed
qed

lemma all_opened_update:
  assumes "all_opened sinks" "opened x"
  shows "all_opened (sinks[i := x])"
  unfolding all_opened_def
proof (intro allI impI)
  fix j assume "j < length (sinks[i := x])"
  with assms show "opened (sinks[i := x] ! j)" by (cases "j = i") (simp_all add: all_opened_def)
qed

lemma push_loop_ok:
  "all_opened sinks \<Longrightarrow> \<exists>ok sinks'. sinks_push_loop p i sinks = Some (ok, sinks') \<and>
     all_opened sinks' \<and> length sinks' = length sinks"
proof (induction p i sinks rule: sinks_push_loop.induct)
  case (1 p i sinks)
  show ?case
  proof (cases "i < length sinks")
    case True
    obtain ops s where x: "sinks ! i = (ops, s)" by force
    have "opened (ops, s)" using "1.prems" True x by (metis all_opened_def)
    from push_law [OF this] obtain ok s' where
      o: "sk_push ops p s = Some (ok, s')" "opened (ops, s')" by blast
    from all_opened_update [OF "1.prems" o(2)] have u: "all_opened (sinks[i := (ops, s')])" .
    show ?thesis
    proof (cases ok)
      case ok: True
      from "1.IH" [OF True _ refl _ refl refl ok u] show ?thesis
        using True x o ok by (subst sinks_push_loop.simps) (simp add: mem_get_def)
    qed (use True x o u in \<open>subst sinks_push_loop.simps, auto simp: mem_get_def intro: exI [of _ False]\<close>)
  qed (use "1.prems" in \<open>subst sinks_push_loop.simps, auto intro: exI [of _ True]\<close>)
qed

lemma push_session_loop_ok:
  "all_opened sinks \<Longrightarrow> \<exists>ok sinks'. sinks_push_session_loop se i sinks = Some (ok, sinks') \<and>
     all_opened sinks' \<and> length sinks' = length sinks"
proof (induction se i sinks rule: sinks_push_session_loop.induct)
  case (1 se i sinks)
  show ?case
  proof (cases "i < length sinks")
    case True
    obtain ops s where x: "sinks ! i = (ops, s)" by force
    have "opened (ops, s)" using "1.prems" True x by (metis all_opened_def)
    then obtain ok s' where
      o: "(case sk_push_session ops of None \<Rightarrow> Some (True, s) | Some f \<Rightarrow> f se s) = Some (ok, s')"
        "opened (ops, s')"
      using push_session_law [of ops s _ se] by (cases "sk_push_session ops") auto
    from all_opened_update [OF "1.prems" o(2)] have u: "all_opened (sinks[i := (ops, s')])" .
    show ?thesis
    proof (cases ok)
      case ok: True
      from "1.IH" [OF True _ refl _ refl refl ok u] show ?thesis
        using True x o ok by (subst sinks_push_session_loop.simps) (simp add: mem_get_def)
    qed (use True x o u in \<open>subst sinks_push_session_loop.simps, auto simp: mem_get_def intro: exI [of _ False]\<close>)
  qed (use "1.prems" in \<open>subst sinks_push_session_loop.simps, auto intro: exI [of _ True]\<close>)
qed

end

text \<open>A packet sink may also be told that the stream is disabled, while it is closed.\<close>

locale packet_stream_sink = stream_sink closed opened open_args
  for closed :: "('c, 'p, 's) packet_sink \<Rightarrow> bool"
    and opened :: "('c, 'p, 's) packet_sink \<Rightarrow> bool"
    and open_args :: "'c \<Rightarrow> sc_stream_session option \<Rightarrow> bool" +
  assumes disable_law: "closed (ops, s) \<Longrightarrow> sk_disable ops = Some f \<Longrightarrow>
      \<exists>s'. f s = Some s' \<and> closed (ops, s')"
begin

lemma all_closed_update:
  assumes "all_closed sinks" "closed x"
  shows "all_closed (sinks[i := x])"
  unfolding all_closed_def
proof (intro allI impI)
  fix j assume "j < length (sinks[i := x])"
  with assms show "closed (sinks[i := x] ! j)" by (cases "j = i") (simp_all add: all_closed_def)
qed

lemma disable_loop_ok:
  "all_closed sinks \<Longrightarrow> \<exists>sinks'. sinks_disable_loop i sinks = Some sinks' \<and>
     all_closed sinks' \<and> length sinks' = length sinks"
proof (induction i sinks rule: sinks_disable_loop.induct)
  case (1 i sinks)
  show ?case
  proof (cases "i < length sinks")
    case True
    obtain ops s where x: "sinks ! i = (ops, s)" by force
    have "closed (ops, s)" using "1.prems" True x by (metis all_closed_def)
    then obtain s' where o: "(case sk_disable ops of None \<Rightarrow> Some s | Some f \<Rightarrow> f s) = Some s'"
        "closed (ops, s')"
      using disable_law [of ops s] by (cases "sk_disable ops") auto
    from "1.IH" [OF True _ refl o(1) all_closed_update [OF "1.prems" o(2)]] show ?thesis
      using True x o by (subst sinks_disable_loop.simps) (simp add: mem_get_def)
  qed (use "1.prems" in \<open>subst sinks_disable_loop.simps, simp\<close>)
qed

lemma source_open_ok:
  assumes "sinks \<noteq> []" "all_closed sinks" "open_args c se"
  shows "\<exists>ok sinks'. sc_packet_source_sinks_open c se sinks = Some (ok, sinks') \<and>
    (if ok then all_opened else all_closed) sinks' \<and> sinks' \<noteq> []"
proof -
  obtain ok sinks' where "sinks_open_loop c se 0 sinks = Some (ok, sinks')"
    "(if ok then all_opened else all_closed) sinks'" "length sinks' = length sinks"
    using open_loop_ok [of c se 0 sinks] assms by (auto simp: split_0)
  moreover from this(3) assms(1) have "sinks' \<noteq> []" by auto
  ultimately show ?thesis using assms by (simp add: packet_source_defs)
qed

lemma source_close_ok:
  assumes "sinks \<noteq> []" "all_opened sinks"
  shows "\<exists>sinks'. sc_packet_source_sinks_close sinks = Some sinks' \<and> all_closed sinks' \<and> sinks' \<noteq> []"
  using close_firsts_ok [of "length sinks" sinks] assms by (fastforce simp: packet_source_defs split_all)

lemma source_push_ok:
  assumes "sinks \<noteq> []" "all_opened sinks"
  shows "\<exists>ok sinks'. sc_packet_source_sinks_push p sinks = Some (ok, sinks') \<and>
    all_opened sinks' \<and> sinks' \<noteq> []"
  using push_loop_ok [of sinks p 0] assms by (fastforce simp: packet_source_defs)

lemma source_push_session_ok:
  assumes "sinks \<noteq> []" "all_opened sinks"
  shows "\<exists>ok sinks'. sc_packet_source_sinks_push_session x sinks = Some (ok, sinks') \<and>
    all_opened sinks' \<and> sinks' \<noteq> []"
  using push_session_loop_ok [of sinks x 0] assms by (fastforce simp: packet_source_defs)

lemma source_disable_ok:
  assumes "sinks \<noteq> []" "all_closed sinks"
  shows "\<exists>sinks'. sc_packet_source_sinks_disable sinks = Some sinks' \<and> all_closed sinks' \<and> sinks' \<noteq> []"
  using disable_loop_ok [of sinks 0] assms by (fastforce simp: packet_source_defs)

end

end
