(* ===== verification/Regulator.thy ===== *)
theory Regulator
  imports Traits "HOL-Library.Signed_Division" "HOL-Library.Sublist"
begin

text \<open>
  \<^verbatim>\<open>app/src/clock.c\<close>, \<^verbatim>\<open>app/src/util/average.c\<close> and \<^verbatim>\<open>app/src/video_regulator.c\<close>: the estimation of the clock of the device,
  and the thread that delays video frames. A tick is a number of microseconds in a signed 64-bit integer: its
  arithmetic is checked, and \<open>None\<close> stands for an overflow, as for a failed assertion. The queue is
  used through its contract (theory \<open>Vecdeque\<close>); the sinks behind the regulator (theory \<open>Traits\<close>) are the list of
  what they were given.
\<close>

section \<open>The clock\<close>

definition SC_CLOCK_RANGE :: nat where "SC_CLOCK_RANGE = 32"

text \<open>The result of an operation on \<^verbatim>\<open>sc_tick\<close>.\<close>

definition sc_tick :: "int \<Rightarrow> int option" where
  "sc_tick v = (if - (2 ^ 63) \<le> v \<and> v < 2 ^ 63 then Some v else None)"

record sc_clock =
  clk_range :: nat
  clk_offset :: int

definition sc_clock_init :: sc_clock where
  "sc_clock_init = \<lparr>clk_range = 0, clk_offset = 0\<rparr>"

definition sc_clock_update :: "int \<Rightarrow> int \<Rightarrow> sc_clock \<Rightarrow> sc_clock option" where
  "sc_clock_update system stream clock = do {
     let r = (if clk_range clock < SC_CLOCK_RANGE then clk_range clock + 1 else clk_range clock);
     offset \<leftarrow> sc_tick (system - stream);
     let clock_weight = r - 1;
     let value_weight = SC_CLOCK_RANGE - r + 1;
     a \<leftarrow> sc_tick (clk_offset clock * int clock_weight);
     b \<leftarrow> sc_tick (offset * int value_weight);
     c \<leftarrow> sc_tick (a + b);
     Some \<lparr>clk_range = r, clk_offset = c sdiv int SC_CLOCK_RANGE\<rparr>
   }"

definition sc_clock_to_system_time :: "sc_clock \<Rightarrow> int \<Rightarrow> int option" where
  "sc_clock_to_system_time clock stream = do { c_assert (clk_range clock \<noteq> 0); sc_tick (stream + clk_offset clock) }"

section \<open>Averages\<close>

text \<open>\<open>rnd\<close> is the rounding of the float operations.\<close>

record sc_average =
  av_avg :: rat
  av_range :: nat
  av_count :: nat

definition sc_average_init :: "nat \<Rightarrow> sc_average" where
  "sc_average_init n = \<lparr>av_avg = 0, av_range = n, av_count = 0\<rparr>"

definition sc_average_push :: "(rat \<Rightarrow> rat) \<Rightarrow> rat \<Rightarrow> sc_average \<Rightarrow> sc_average option" where
  "sc_average_push rnd v a = do {
     let count = (if av_count a < av_range a then av_count a + 1 else av_count a);
     c_assert (count \<noteq> 0);
     Some (a\<lparr>av_count := count,
       av_avg := rnd (rnd (rnd (rnd (of_nat (count - 1)) * av_avg a) + v) / rnd (of_nat count))\<rparr>)
   }"

definition sc_average_get :: "sc_average \<Rightarrow> rat option" where
  "sc_average_get a = do { c_assert (av_count a \<noteq> 0); Some (av_avg a) }"

section \<open>The regulator\<close>

record reg_frame =
  rf_pts :: int
  rf_data :: byte_buf

text \<open>A frame is \<open>None\<close> when its allocation failed after the packet was added to the queue.\<close>

datatype sc_delayed_packet =
    DELAYED_FRAME "reg_frame option"
  | DELAYED_SESSION sc_stream_session

record sc_video_regulator =
  vr_delay :: int
  first_frame_asap :: bool
  vr_clock :: sc_clock
  vr_queue :: "sc_delayed_packet list"
  vr_stopped :: bool

text \<open>\<open>vr\<close> is the memory before the call, whose other fields are kept.\<close>

definition sc_video_regulator_init :: "int \<Rightarrow> bool \<Rightarrow> sc_video_regulator \<Rightarrow> sc_video_regulator option" where
  "sc_video_regulator_init delay asap vr = do {
     c_assert (delay > 0);
     Some (vr\<lparr>vr_delay := delay, first_frame_asap := asap\<rparr>)
   }"

text \<open>The flags are the success of the mutex, of the two conditions, of the opening of the sinks and of the thread.\<close>

definition sc_video_regulator_frame_sink_open ::
  "bool \<Rightarrow> bool \<Rightarrow> bool \<Rightarrow> bool \<Rightarrow> bool \<Rightarrow> sc_video_regulator \<Rightarrow> bool \<times> sc_video_regulator" where
  "sc_video_regulator_frame_sink_open mutex_ok queue_cond_ok wait_cond_ok sinks_ok thread_ok vr =
     (if \<not> mutex_ok \<or> \<not> queue_cond_ok \<or> \<not> wait_cond_ok then (False, vr)
      else (sinks_ok \<and> thread_ok, vr\<lparr>vr_clock := sc_clock_init, vr_queue := [], vr_stopped := False\<rparr>))"

text \<open>The boolean is the result; the list is what is given to the sinks directly.\<close>

definition sc_video_regulator_frame_sink_push ::
  "int \<Rightarrow> bool \<Rightarrow> bool \<Rightarrow> bool \<Rightarrow> reg_frame \<Rightarrow> sc_video_regulator \<Rightarrow>
   (bool \<times> sc_delayed_packet list \<times> sc_video_regulator) option" where
  "sc_video_regulator_frame_sink_push now queue_ok frame_ok sink_ok f vr =
     (if vr_stopped vr then Some (False, [], vr)
      else do {
        clock \<leftarrow> sc_clock_update now (rf_pts f) (vr_clock vr);
        let vr = vr\<lparr>vr_clock := clock\<rparr>;
        Some (if first_frame_asap vr \<and> clk_range (vr_clock vr) = 1 then (sink_ok, [DELAYED_FRAME (Some f)], vr)
          else if \<not> queue_ok then (False, [], vr)
          else if \<not> frame_ok then (False, [], vr\<lparr>vr_queue := vr_queue vr @ [DELAYED_FRAME None]\<rparr>)
          else (True, [], vr\<lparr>vr_queue := vr_queue vr @ [DELAYED_FRAME (Some f)]\<rparr>))
      })"

definition sc_video_regulator_frame_sink_push_session ::
  "bool \<Rightarrow> sc_stream_session \<Rightarrow> sc_video_regulator \<Rightarrow> bool \<times> sc_video_regulator" where
  "sc_video_regulator_frame_sink_push_session queue_ok s vr =
     (if vr_stopped vr then (False, vr)
      else if \<not> queue_ok then (False, vr)
      else (True, vr\<lparr>vr_queue := vr_queue vr @ [DELAYED_SESSION s]\<rparr>))"

text \<open>The part of \<^verbatim>\<open>sc_video_regulator_frame_sink_close\<close> before the thread is joined.\<close>

definition sc_video_regulator_frame_sink_close :: "sc_video_regulator \<Rightarrow> sc_video_regulator" where
  "sc_video_regulator_frame_sink_close vr = vr\<lparr>vr_stopped := True\<rparr>"

text \<open>The thread: it waits for a packet, holds a frame until its deadline, then pushes it. In \<open>Buf_timed\<close> it is in
  \<^verbatim>\<open>sc_cond_timedwait\<close>, which returns because it was signalled or, not before the deadline, because of the
  timeout. A step happens at time \<open>now\<close>; \<open>sink_ok\<close> is the answer of the sinks.\<close>

datatype buffering = Buf_wait | Buf_timed reg_frame int int | Buf_push sc_delayed_packet | Buf_ended

definition buffering_hold :: "sc_video_regulator \<Rightarrow> reg_frame \<Rightarrow> int \<Rightarrow> buffering option" where
  "buffering_hold vr f max_deadline = do {
     t \<leftarrow> sc_clock_to_system_time (vr_clock vr) (rf_pts f);
     deadline \<leftarrow> sc_tick (t + vr_delay vr);
     Some (Buf_timed f max_deadline (if deadline > max_deadline then max_deadline else deadline))
   }"

definition buffering_stopped :: "sc_video_regulator \<Rightarrow> sc_video_regulator" where
  "buffering_stopped vr = vr\<lparr>vr_queue := []\<rparr>"

fun run_buffering ::
  "int \<Rightarrow> bool \<Rightarrow> bool \<Rightarrow> buffering \<Rightarrow> sc_video_regulator \<Rightarrow>
   (buffering \<times> sc_delayed_packet list \<times> sc_video_regulator) option" where
  "run_buffering now signaled sink_ok Buf_wait vr =
     (if vr_stopped vr then Some (Buf_ended, [], buffering_stopped vr)
      else case vr_queue vr of
        [] \<Rightarrow> Some (Buf_wait, [], vr)
      | p # ps \<Rightarrow> (case p of
          DELAYED_FRAME None \<Rightarrow> None
        | DELAYED_FRAME (Some f) \<Rightarrow> do {
            max_deadline \<leftarrow> sc_tick (now + vr_delay vr);
            b \<leftarrow> buffering_hold vr f max_deadline;
            Some (b, [], vr\<lparr>vr_queue := ps\<rparr>)
          }
        | DELAYED_SESSION s \<Rightarrow> Some (Buf_push p, [], vr\<lparr>vr_queue := ps\<rparr>)))"
| "run_buffering now signaled sink_ok (Buf_timed f max_deadline deadline) vr =
     (if \<not> signaled \<and> now < deadline then Some (Buf_timed f max_deadline deadline, [], vr)
      else if vr_stopped vr then Some (Buf_ended, [], buffering_stopped vr)
      else if \<not> signaled then Some (Buf_push (DELAYED_FRAME (Some f)), [], vr)
      else do {
        b \<leftarrow> buffering_hold vr f max_deadline;
        Some (b, [], vr)
      })"
| "run_buffering now signaled sink_ok (Buf_push p) vr =
     Some (if sink_ok then (Buf_wait, [p], vr) else (Buf_ended, [p], buffering_stopped (vr\<lparr>vr_stopped := True\<rparr>)))"
| "run_buffering now signaled sink_ok Buf_ended vr = Some (Buf_ended, [], vr)"

text \<open>The regulator in use: the calls of the decoder and the steps of the thread in any order, each some ticks after
  the one before. \<open>rg_given\<close> is what was accepted and \<open>rg_out\<close> what the sinks were given, and when.\<close>

datatype reg_event =
    RE_frame bool bool bool reg_frame
  | RE_session bool sc_stream_session
  | RE_close
  | RE_thread bool bool

record regulation =
  rg_vr :: sc_video_regulator
  rg_thread :: buffering
  rg_now :: int
  rg_given :: "sc_delayed_packet list"
  rg_out :: "(int \<times> sc_delayed_packet) list"

definition reg_start :: "int \<Rightarrow> sc_video_regulator \<Rightarrow> regulation" where
  "reg_start now vr = \<lparr>rg_vr = vr, rg_thread = Buf_wait, rg_now = now, rg_given = [], rg_out = []\<rparr>"

fun reg_event_step :: "int \<Rightarrow> reg_event \<Rightarrow> regulation \<Rightarrow> regulation option" where
  "reg_event_step now (RE_frame queue_ok frame_ok sink_ok f) s = do {
     (ok, ds, vr) \<leftarrow> sc_video_regulator_frame_sink_push now queue_ok frame_ok sink_ok f (rg_vr s);
     Some (s\<lparr>rg_vr := vr, rg_given := rg_given s @ (if ok \<or> ds \<noteq> [] then [DELAYED_FRAME (Some f)] else []),
       rg_out := rg_out s @ map (Pair now) ds\<rparr>)
   }"
| "reg_event_step now (RE_session queue_ok v) s =
     (case sc_video_regulator_frame_sink_push_session queue_ok v (rg_vr s) of (ok, vr) \<Rightarrow>
        Some (s\<lparr>rg_vr := vr, rg_given := rg_given s @ (if ok then [DELAYED_SESSION v] else [])\<rparr>))"
| "reg_event_step now RE_close s = Some (s\<lparr>rg_vr := sc_video_regulator_frame_sink_close (rg_vr s)\<rparr>)"
| "reg_event_step now (RE_thread signaled sink_ok) s = do {
     (b, ds, vr) \<leftarrow> run_buffering now signaled sink_ok (rg_thread s) (rg_vr s);
     Some (s\<lparr>rg_vr := vr, rg_thread := b, rg_out := rg_out s @ map (Pair now) ds\<rparr>)
   }"

definition reg_step :: "nat \<times> reg_event \<Rightarrow> regulation \<Rightarrow> regulation option" where
  "reg_step e s = reg_event_step (rg_now s + int (fst e)) (snd e) (s\<lparr>rg_now := rg_now s + int (fst e)\<rparr>)"

fun reg_run :: "(nat \<times> reg_event) list \<Rightarrow> regulation \<Rightarrow> regulation option" where
  "reg_run [] s = Some s"
| "reg_run (e # es) s = do { s' \<leftarrow> reg_step e s; reg_run es s' }"

text \<open>What the thread has taken from the queue and not pushed.\<close>

fun in_hand :: "buffering \<Rightarrow> sc_delayed_packet list" where
  "in_hand (Buf_timed f mx d) = [DELAYED_FRAME (Some f)]"
| "in_hand (Buf_push p) = [p]"
| "in_hand b = []"

section \<open>The clock stays among the offsets seen\<close>

lemma sdiv_between:
  fixes m M x n :: int
  assumes "0 < n"
  shows "m * n \<le> x \<Longrightarrow> m \<le> x sdiv n" "x \<le> M * n \<Longrightarrow> x sdiv n \<le> M"
proof -
  have s: "x sdiv n = (if 0 \<le> x then x div n else - (- x div n))"
    using assms by (auto simp: signed_divide_int_def sgn_if)
  show "m \<le> x sdiv n" if "m * n \<le> x"
  proof (cases "0 \<le> x")
    case True
    with s assms that zdiv_mono1 [of "m * n" x n] show ?thesis by simp
  next
    case False
    have "- x div n \<le> (- m * n) div n" using assms that zdiv_mono1 [of "- x" "- m * n" n] by simp
    then have "- x div n \<le> - m" using assms nonzero_mult_div_cancel_right [of n "- m"] by (simp del: mult_minus_left)
    with False s show ?thesis by simp
  qed
  show "x sdiv n \<le> M" if "x \<le> M * n"
  proof (cases "0 \<le> x")
    case True
    with s assms that zdiv_mono1 [of x "M * n" n] show ?thesis by simp
  next
    case False
    have "(- M * n) div n \<le> - x div n" using assms that zdiv_mono1 [of "- M * n" "- x" n] by simp
    then have "- M \<le> - x div n" using assms nonzero_mult_div_cancel_right [of n "- M"] by (simp del: mult_minus_left)
    with False s show ?thesis by simp
  qed
qed

text \<open>An update without overflow.\<close>

definition clock_next :: "int \<Rightarrow> int \<Rightarrow> sc_clock \<Rightarrow> sc_clock" where
  "clock_next system stream clock =
     (let r = (if clk_range clock < SC_CLOCK_RANGE then clk_range clock + 1 else clk_range clock)
      in \<lparr>clk_range = r,
          clk_offset = (clk_offset clock * int (r - 1) + (system - stream) * int (SC_CLOCK_RANGE - r + 1)) sdiv int SC_CLOCK_RANGE\<rparr>)"

text \<open>Times up to this bound, in microseconds more than two thousand years, do not overflow.\<close>

definition tick_bound :: int where "tick_bound = 2 ^ 56"

lemma weighted:
  fixes x :: int
  assumes "\<bar>x\<bar> \<le> b" "0 \<le> w" "w \<le> 32" "0 \<le> b"
  shows "\<bar>x * w\<bar> \<le> 32 * b"
proof -
  have "\<bar>x * w\<bar> = \<bar>x\<bar> * w" using assms(2) by (simp add: abs_mult)
  also have "\<dots> \<le> b * 32" using assms by (intro mult_mono) auto
  finally show ?thesis by simp
qed

lemma sc_clock_update_next:
  assumes "\<bar>clk_offset c\<bar> \<le> tick_bound" "\<bar>a - b\<bar> \<le> tick_bound" "clk_range c \<le> SC_CLOCK_RANGE"
  shows "sc_clock_update a b c = Some (clock_next a b c)"
proof -
  define r where "r = (if clk_range c < SC_CLOCK_RANGE then clk_range c + 1 else clk_range c)"
  have r: "int (r - 1) \<le> 32" "int (SC_CLOCK_RANGE - r + 1) \<le> 32" using assms(3) by (auto simp: r_def SC_CLOCK_RANGE_def)
  have w: "\<bar>clk_offset c * int (r - 1)\<bar> \<le> 32 * 2 ^ 56" "\<bar>(a - b) * int (SC_CLOCK_RANGE - r + 1)\<bar> \<le> 32 * 2 ^ 56"
    using weighted [of "clk_offset c" "2 ^ 56" "int (r - 1)"] weighted [of "a - b" "2 ^ 56" "int (SC_CLOCK_RANGE - r + 1)"] assms r
    by (simp_all add: tick_bound_def)
  define x where "x = clk_offset c * int (r - 1)"
  define y where "y = (a - b) * int (SC_CLOCK_RANGE - r + 1)"
  have "sc_tick (a - b) = Some (a - b)" "sc_tick x = Some x" "sc_tick y = Some y" "sc_tick (x + y) = Some (x + y)"
    using assms(2) w [folded x_def y_def] by (simp_all add: sc_tick_def tick_bound_def abs_le_iff)
  then show ?thesis
    by (simp only: sc_clock_update_def clock_next_def Let_def r_def [symmetric] x_def [symmetric] y_def [symmetric] bind.bind_lunit)
qed

lemma sdiv_exact: "0 < n \<Longrightarrow> (x * n) sdiv n = (x :: int)"
  using sdiv_between(1) [of n x "x * n"] sdiv_between(2) [of n "x * n" x] by simp

lemma update_between:
  assumes "clk_range c \<le> SC_CLOCK_RANGE"
  shows "(clk_range c \<noteq> 0 \<longrightarrow> m \<le> clk_offset c) \<Longrightarrow> m \<le> a - b \<Longrightarrow> m \<le> clk_offset (clock_next a b c)"
    and "(clk_range c \<noteq> 0 \<longrightarrow> clk_offset c \<le> M) \<Longrightarrow> a - b \<le> M \<Longrightarrow> clk_offset (clock_next a b c) \<le> M"
proof -
  define r where "r = (if clk_range c < SC_CLOCK_RANGE then clk_range c + 1 else clk_range c)"
  define w where "w = int (r - 1)"
  define v where "v = int (SC_CLOCK_RANGE - r + 1)"
  have r: "1 \<le> r" "r \<le> SC_CLOCK_RANGE" "r = 1 \<or> clk_range c \<noteq> 0"
    using assms(1) by (auto simp: r_def SC_CLOCK_RANGE_def)
  have wv: "w + v = int SC_CLOCK_RANGE" "0 \<le> w" "0 \<le> v" "w = 0 \<or> clk_range c \<noteq> 0" using r by (auto simp: w_def v_def)
  let ?x = "clk_offset c * w + (a - b) * v"
  have o: "clk_offset (clock_next a b c) = ?x sdiv int SC_CLOCK_RANGE"
    by (simp add: clock_next_def Let_def r_def w_def v_def)
  show "m \<le> clk_offset (clock_next a b c)" if "clk_range c \<noteq> 0 \<longrightarrow> m \<le> clk_offset c" "m \<le> a - b"
  proof -
    have "m * w \<le> clk_offset c * w" "m * v \<le> (a - b) * v" using that wv by (auto simp: mult_right_mono)
    then have "m * (w + v) \<le> ?x" by (simp add: distrib_left)
    with sdiv_between(1) [of "int SC_CLOCK_RANGE" m ?x] wv(1) o show ?thesis
      by (simp add: SC_CLOCK_RANGE_def)
  qed
  show "clk_offset (clock_next a b c) \<le> M" if "clk_range c \<noteq> 0 \<longrightarrow> clk_offset c \<le> M" "a - b \<le> M"
  proof -
    have "clk_offset c * w \<le> M * w" "(a - b) * v \<le> M * v" using that wv by (auto simp: mult_right_mono)
    then have "?x \<le> M * (w + v)" by (simp add: distrib_left)
    with sdiv_between(2) [of "int SC_CLOCK_RANGE" ?x M] wv(1) o show ?thesis
      by (simp add: SC_CLOCK_RANGE_def)
  qed
qed

lemma update_range:
  "clk_range c \<le> SC_CLOCK_RANGE \<Longrightarrow> clk_range (clock_next a b c) \<le> SC_CLOCK_RANGE \<and> clk_range (clock_next a b c) \<noteq> 0"
  by (auto simp: clock_next_def Let_def SC_CLOCK_RANGE_def)

text \<open>The clock after some updates since the initialisation, oldest first.\<close>

fun clock_run :: "(int \<times> int) list \<Rightarrow> sc_clock \<Rightarrow> sc_clock option" where
  "clock_run [] c = Some c"
| "clock_run ((system, stream) # ss) c = do { c \<leftarrow> sc_clock_update system stream c; clock_run ss c }"

lemma clock_run_between:
  assumes "\<forall>(system, stream) \<in> set ss. m \<le> system - stream \<and> system - stream \<le> M" "- tick_bound \<le> m" "M \<le> tick_bound"
    "clk_range c \<le> SC_CLOCK_RANGE" "\<bar>clk_offset c\<bar> \<le> tick_bound" "clk_range c \<noteq> 0 \<longrightarrow> m \<le> clk_offset c \<and> clk_offset c \<le> M"
  shows "\<exists>c'. clock_run ss c = Some c' \<and> (clk_range c \<noteq> 0 \<or> ss \<noteq> [] \<longrightarrow> clk_range c' \<noteq> 0 \<and> m \<le> clk_offset c' \<and> clk_offset c' \<le> M)"
  using assms
proof (induction ss arbitrary: c)
  case (Cons x ss)
  obtain a b where x: "x = (a, b)" by force
  let ?c = "clock_next a b c"
  have ab: "m \<le> a - b" "a - b \<le> M" using Cons.prems(1) by (simp_all add: x)
  have n: "sc_clock_update a b c = Some ?c" using Cons.prems(2-5) ab by (intro sc_clock_update_next) auto
  have o: "m \<le> clk_offset ?c" "clk_offset ?c \<le> M"
    using update_between [OF Cons.prems(4), where a = a and b = b] Cons.prems(6) ab by auto
  have "\<exists>c'. clock_run ss ?c = Some c' \<and> (clk_range ?c \<noteq> 0 \<or> ss \<noteq> [] \<longrightarrow> clk_range c' \<noteq> 0 \<and> m \<le> clk_offset c' \<and> clk_offset c' \<le> M)"
    by (rule Cons.IH) (use Cons.prems(1-3) o update_range [OF Cons.prems(4)] in \<open>auto simp: x\<close>)
  with n update_range [OF Cons.prems(4), of a b] show ?case by (auto simp: x)
qed auto

text \<open>The estimation of the clock is sound: after any updates whose offsets do not reach the bound of the ticks, a timestamp of
  the device converts without failing, to a time between the earliest and the latest that the offsets observed so
  far allow.\<close>

theorem clock_between_samples:
  assumes "ss \<noteq> []" "\<forall>(system, stream) \<in> set ss. m \<le> system - stream \<and> system - stream \<le> M"
    "- tick_bound \<le> m" "M \<le> tick_bound" "\<bar>pts\<bar> \<le> tick_bound"
  shows "\<exists>c t. clock_run ss sc_clock_init = Some c \<and> sc_clock_to_system_time c pts = Some t \<and> pts + m \<le> t \<and> t \<le> pts + M"
proof -
  obtain c where c: "clock_run ss sc_clock_init = Some c" "clk_range c \<noteq> 0" "m \<le> clk_offset c" "clk_offset c \<le> M"
    using clock_run_between [OF assms(2-4), of sc_clock_init] assms(1) by (auto simp: sc_clock_init_def tick_bound_def)
  with assms(3-5) have "sc_clock_to_system_time c pts = Some (pts + clk_offset c)"
    by (simp add: sc_clock_to_system_time_def sc_tick_def tick_bound_def abs_le_iff)
  with c show ?thesis by auto
qed

theorem clock_between_samples_witness:
  "\<exists>c t. clock_run [(1000, 10), (1100, 30), (1060, 50)] sc_clock_init = Some c \<and> sc_clock_to_system_time c 60 = Some t \<and>
    60 + 990 \<le> t \<and> t \<le> 60 + 1070"
  using clock_between_samples [of "[(1000, 10), (1100, 30), (1060, 50)]" 990 1070 60] by (simp add: tick_bound_def)

text \<open>With exact arithmetic the average of the first values is their mean.\<close>

lemma average_mean:
  assumes "length vs \<le> n" "vs \<noteq> []"
  shows "\<exists>a. fold (\<lambda>v a. Option.bind a (sc_average_push (\<lambda>z. z) v)) vs (Some (sc_average_init n)) = Some a \<and>
    av_count a = length vs \<and> av_range a = n \<and> sc_average_get a = Some (sum_list vs / of_nat (length vs))"
  using assms
proof (induction vs rule: rev_induct)
  case (snoc v vs)
  show ?case
  proof (cases "vs = []")
    case True
    with snoc.prems show ?thesis by (simp add: sc_average_init_def sc_average_push_def sc_average_get_def)
  next
    case False
    with snoc obtain a where a: "fold (\<lambda>v a. Option.bind a (sc_average_push (\<lambda>z. z) v)) vs (Some (sc_average_init n)) = Some a"
      "av_count a = length vs" "av_range a = n" "sc_average_get a = Some (sum_list vs / of_nat (length vs))" by auto
    then have m: "av_avg a * of_nat (length vs) = sum_list vs" using False by (simp add: sc_average_get_def)
    let ?a = "a\<lparr>av_count := Suc (length vs), av_avg := (of_nat (length vs) * av_avg a + v) / of_nat (Suc (length vs))\<rparr>"
    have "sc_average_push (\<lambda>z. z) v a = Some ?a" using a snoc.prems by (simp add: sc_average_push_def)
    moreover have "sc_average_get ?a = Some (sum_list (vs @ [v]) / of_nat (length (vs @ [v])))"
      using m by (simp add: sc_average_get_def mult.commute)
    ultimately show ?thesis using a snoc.prems by simp
  qed
qed simp

section \<open>The regulator at work\<close>

text \<open>The order is that of the calls, but for the first frame when it is not delayed: it is set aside.\<close>

fun without_first :: "('a \<Rightarrow> bool) \<Rightarrow> 'a list \<Rightarrow> 'a list" where
  "without_first P [] = []"
| "without_first P (x # xs) = (if P x then xs else x # without_first P xs)"

definition set_aside :: "bool \<Rightarrow> ('a \<Rightarrow> bool) \<Rightarrow> 'a list \<Rightarrow> 'a list" where
  "set_aside asap P xs = (if asap then without_first P xs else xs)"

fun is_frame :: "sc_delayed_packet \<Rightarrow> bool" where
  "is_frame (DELAYED_FRAME f) \<longleftrightarrow> True"
| "is_frame (DELAYED_SESSION v) \<longleftrightarrow> False"

lemma without_first_none: "\<forall>x \<in> set xs. \<not> P x \<Longrightarrow> without_first P (xs @ ys) = xs @ without_first P ys"
  by (induction xs) auto

lemma without_first_some: "\<exists>x \<in> set xs. P x \<Longrightarrow> without_first P (xs @ ys) = without_first P xs @ ys"
  by (induction xs) auto

lemma set_aside_snoc: "(asap \<longrightarrow> P y \<longrightarrow> (\<exists>x \<in> set xs. P x)) \<Longrightarrow> set_aside asap P (xs @ [y]) = set_aside asap P xs @ [y]"
  using without_first_none [of xs P "[y]"] without_first_some [of xs P "[y]"] without_first_none [of xs P "[]"]
  by (cases "\<exists>x \<in> set xs. P x") (auto simp: set_aside_def)

lemma set_aside_first: "asap \<Longrightarrow> \<forall>x \<in> set xs. \<not> P x \<Longrightarrow> P y \<Longrightarrow> set_aside asap P (xs @ [y]) = xs \<and> set_aside asap P xs = xs"
  using without_first_none [of xs P "[y]"] without_first_none [of xs P "[]"] by (simp add: set_aside_def)

lemma without_first_map: "map f (without_first (\<lambda>x. P (f x)) xs) = without_first P (map f xs)"
  by (induction xs) auto

lemma set_aside_Nil [simp]: "set_aside asap P [] = []"
  by (simp add: set_aside_def)

fun packet_ready :: "sc_clock \<Rightarrow> sc_delayed_packet \<Rightarrow> bool" where
  "packet_ready c (DELAYED_FRAME f) \<longleftrightarrow> (\<exists>g. f = Some g \<and> 0 \<le> rf_pts g \<and> rf_pts g \<le> tick_bound) \<and> clk_range c \<noteq> 0"
| "packet_ready c (DELAYED_SESSION v) \<longleftrightarrow> True"

definition reg_safe :: "regulation \<Rightarrow> bool" where
  "reg_safe s \<longleftrightarrow> 0 < vr_delay (rg_vr s) \<and> vr_delay (rg_vr s) \<le> tick_bound \<and> 0 \<le> rg_now s \<and> rg_now s \<le> tick_bound \<and>
     clk_range (vr_clock (rg_vr s)) \<le> SC_CLOCK_RANGE \<and> \<bar>clk_offset (vr_clock (rg_vr s))\<bar> \<le> tick_bound \<and>
     (\<forall>p \<in> set (in_hand (rg_thread s) @ vr_queue (rg_vr s)). packet_ready (vr_clock (rg_vr s)) p) \<and>
     (rg_thread s = Buf_ended \<longrightarrow> vr_stopped (rg_vr s) \<and> vr_queue (rg_vr s) = [])"

definition reg_order :: "regulation \<Rightarrow> bool" where
  "reg_order s \<longleftrightarrow>
     prefix (set_aside (first_frame_asap (rg_vr s)) is_frame (map snd (rg_out s))) (set_aside (first_frame_asap (rg_vr s)) is_frame (rg_given s)) \<and>
     (rg_thread s \<noteq> Buf_ended \<longrightarrow>
        set_aside (first_frame_asap (rg_vr s)) is_frame (map snd (rg_out s)) @ in_hand (rg_thread s) @ vr_queue (rg_vr s) =
        set_aside (first_frame_asap (rg_vr s)) is_frame (rg_given s))"

definition frame_in :: "sc_delayed_packet list \<Rightarrow> bool" where
  "frame_in ps \<longleftrightarrow> (\<exists>p \<in> set ps. is_frame p)"

definition reg_first :: "regulation \<Rightarrow> bool" where
  "reg_first s \<longleftrightarrow> (first_frame_asap (rg_vr s) \<longrightarrow>
     (if clk_range (vr_clock (rg_vr s)) = 0 then \<not> frame_in (map snd (rg_out s) @ in_hand (rg_thread s) @ vr_queue (rg_vr s) @ rg_given s)
      else frame_in (map snd (rg_out s)) \<and> frame_in (rg_given s)))"

lemma frame_in_simps [simp]:
  "\<not> frame_in []" "frame_in (p # ps) \<longleftrightarrow> is_frame p \<or> frame_in ps" "frame_in (ps @ qs) \<longleftrightarrow> frame_in ps \<or> frame_in qs"
  by (auto simp: frame_in_def)

fun packet_due :: "int \<Rightarrow> int \<Rightarrow> sc_delayed_packet \<Rightarrow> bool" where
  "packet_due m t (DELAYED_FRAME (Some f)) \<longleftrightarrow> m + rf_pts f \<le> t"
| "packet_due m t p \<longleftrightarrow> True"

fun buffering_due :: "int \<Rightarrow> int \<Rightarrow> int \<Rightarrow> buffering \<Rightarrow> bool" where
  "buffering_due m d now (Buf_timed f mx dl) \<longleftrightarrow>
     m + rf_pts f + d \<le> dl \<and> dl \<le> now + d \<and> m + rf_pts f + d \<le> mx \<and> mx \<le> now + d"
| "buffering_due m d now (Buf_push p) \<longleftrightarrow> packet_due (m + d) now p"
| "buffering_due m d now b \<longleftrightarrow> True"

definition reg_time :: "int \<Rightarrow> regulation \<Rightarrow> bool" where
  "reg_time m s \<longleftrightarrow> (clk_range (vr_clock (rg_vr s)) \<noteq> 0 \<longrightarrow> m \<le> clk_offset (vr_clock (rg_vr s))) \<and>
     (\<forall>p \<in> set (vr_queue (rg_vr s)). packet_due m (rg_now s) p) \<and>
     buffering_due m (vr_delay (rg_vr s)) (rg_now s) (rg_thread s) \<and>
     (\<forall>(t, p) \<in> set (set_aside (first_frame_asap (rg_vr s)) (\<lambda>q. is_frame (snd q)) (rg_out s)). packet_due (m + vr_delay (rg_vr s)) t p)"

text \<open>What is asked of the calls.\<close>

fun event_allocates :: "reg_event \<Rightarrow> bool" where
  "event_allocates (RE_frame queue_ok frame_ok sink_ok f) \<longleftrightarrow> frame_ok"
| "event_allocates e \<longleftrightarrow> True"

definition frames_allocated :: "(nat \<times> reg_event) list \<Rightarrow> bool" where
  "frames_allocated es \<longleftrightarrow> (\<forall>e \<in> set es. event_allocates (snd e))"

fun event_in_time :: "reg_event \<Rightarrow> bool" where
  "event_in_time (RE_frame queue_ok frame_ok sink_ok f) \<longleftrightarrow> 0 \<le> rf_pts f \<and> rf_pts f \<le> tick_bound"
| "event_in_time e \<longleftrightarrow> True"

definition times_bounded :: "int \<Rightarrow> int \<Rightarrow> (nat \<times> reg_event) list \<Rightarrow> bool" where
  "times_bounded delay now es \<longleftrightarrow> delay \<le> tick_bound \<and> 0 \<le> now \<and> now + int (\<Sum>e \<leftarrow> es. fst e) \<le> tick_bound \<and>
     (\<forall>e \<in> set es. event_in_time (snd e))"

fun event_offset_from :: "int \<Rightarrow> int \<Rightarrow> reg_event \<Rightarrow> bool" where
  "event_offset_from m now (RE_frame queue_ok frame_ok sink_ok f) \<longleftrightarrow> m \<le> now - rf_pts f"
| "event_offset_from m now e \<longleftrightarrow> True"

fun offsets_from :: "int \<Rightarrow> int \<Rightarrow> (nat \<times> reg_event) list \<Rightarrow> bool" where
  "offsets_from m now [] \<longleftrightarrow> True"
| "offsets_from m now ((dt, e) # es) \<longleftrightarrow> event_offset_from m (now + int dt) e \<and> offsets_from m (now + int dt) es"

lemma packet_ready_update: "packet_ready c p \<Longrightarrow> clk_range c \<le> SC_CLOCK_RANGE \<Longrightarrow> packet_ready (clock_next a b c) p"
  using update_range [of c a b] by (cases p) auto

lemma packet_due_later: "packet_due m t p \<Longrightarrow> t \<le> t' \<Longrightarrow> packet_due m t' p"
  by (cases "(m, t, p)" rule: packet_due.cases) auto

lemma buffering_due_later: "buffering_due m d t b \<Longrightarrow> t \<le> t' \<Longrightarrow> buffering_due m d t' b"
  by (cases b) (auto intro: packet_due_later)

text \<open>A step of the thread, for a packet at the head of the queue.\<close>

lemma hold_ready:
  assumes "clk_range (vr_clock vr) \<noteq> 0" "0 \<le> rf_pts f" "rf_pts f \<le> tick_bound" "\<bar>clk_offset (vr_clock vr)\<bar> \<le> tick_bound"
    "0 < vr_delay vr" "vr_delay vr \<le> tick_bound"
  obtains d where "buffering_hold vr f mx = Some (Buf_timed f mx d)"
    and "d = min mx (rf_pts f + clk_offset (vr_clock vr) + vr_delay vr)"
  using assms by (simp add: buffering_hold_def sc_clock_to_system_time_def min_def Let_def sc_tick_def tick_bound_def abs_le_iff)

lemma thread_cases [consumes 2, case_names ended idle frame session waiting dropped released again pushed refused]:
  assumes "reg_safe s" "rg_now s = now"
  obtains
    (ended) "rg_thread s = Buf_ended \<or> rg_thread s = Buf_wait \<and> vr_stopped (rg_vr s)"
      "run_buffering now sg ok (rg_thread s) (rg_vr s) = Some (Buf_ended, [], buffering_stopped (rg_vr s))"
      "in_hand (rg_thread s) = []" "vr_stopped (rg_vr s)"
  | (idle) "rg_thread s = Buf_wait" "vr_queue (rg_vr s) = []"
      "run_buffering now sg ok (rg_thread s) (rg_vr s) = Some (Buf_wait, [], rg_vr s)"
  | (frame) f ps d where "rg_thread s = Buf_wait" "vr_queue (rg_vr s) = DELAYED_FRAME (Some f) # ps"
      "run_buffering now sg ok (rg_thread s) (rg_vr s) =
         Some (Buf_timed f (now + vr_delay (rg_vr s)) d, [], (rg_vr s)\<lparr>vr_queue := ps\<rparr>)"
      "d = min (now + vr_delay (rg_vr s)) (rf_pts f + clk_offset (vr_clock (rg_vr s)) + vr_delay (rg_vr s))"
      "clk_range (vr_clock (rg_vr s)) \<noteq> 0"
  | (session) v ps where "rg_thread s = Buf_wait" "vr_queue (rg_vr s) = DELAYED_SESSION v # ps"
      "run_buffering now sg ok (rg_thread s) (rg_vr s) =
         Some (Buf_push (DELAYED_SESSION v), [], (rg_vr s)\<lparr>vr_queue := ps\<rparr>)"
  | (waiting) f mx d where "rg_thread s = Buf_timed f mx d"
      "run_buffering now sg ok (rg_thread s) (rg_vr s) = Some (Buf_timed f mx d, [], rg_vr s)"
  | (dropped) f mx d where "rg_thread s = Buf_timed f mx d" "vr_stopped (rg_vr s)"
      "run_buffering now sg ok (rg_thread s) (rg_vr s) = Some (Buf_ended, [], buffering_stopped (rg_vr s))"
  | (released) f mx d where "rg_thread s = Buf_timed f mx d" "d \<le> now"
      "run_buffering now sg ok (rg_thread s) (rg_vr s) = Some (Buf_push (DELAYED_FRAME (Some f)), [], rg_vr s)"
  | (again) f mx d d' where "rg_thread s = Buf_timed f mx d"
      "run_buffering now sg ok (rg_thread s) (rg_vr s) = Some (Buf_timed f mx d', [], rg_vr s)"
      "d' = min mx (rf_pts f + clk_offset (vr_clock (rg_vr s)) + vr_delay (rg_vr s))"
      "clk_range (vr_clock (rg_vr s)) \<noteq> 0"
  | (pushed) p where "rg_thread s = Buf_push p"
      "run_buffering now sg ok (rg_thread s) (rg_vr s) = Some (Buf_wait, [p], rg_vr s)"
  | (refused) p where "rg_thread s = Buf_push p"
      "run_buffering now sg ok (rg_thread s) (rg_vr s) = Some (Buf_ended, [p], buffering_stopped ((rg_vr s)\<lparr>vr_stopped := True\<rparr>))"
proof (cases "rg_thread s")
  case Buf_wait
  show thesis
  proof (cases "vr_stopped (rg_vr s)")
    case True
    with Buf_wait that(1) show thesis by simp
  next
    case ns: False
    show thesis
    proof (cases "vr_queue (rg_vr s)")
      case Nil
      with ns Buf_wait that(2) show thesis by simp
    next
      case (Cons p ps)
      with assms have r: "packet_ready (vr_clock (rg_vr s)) p" by (simp add: reg_safe_def)
      show thesis
      proof (cases p)
        case (DELAYED_FRAME g)
        with r obtain f where g: "g = Some f" "clk_range (vr_clock (rg_vr s)) \<noteq> 0" "0 \<le> rf_pts f" "rf_pts f \<le> tick_bound" by auto
        have b: "\<bar>clk_offset (vr_clock (rg_vr s))\<bar> \<le> tick_bound" "0 < vr_delay (rg_vr s)" "vr_delay (rg_vr s) \<le> tick_bound"
          "sc_tick (now + vr_delay (rg_vr s)) = Some (now + vr_delay (rg_vr s))"
          using assms by (auto simp: reg_safe_def sc_tick_def tick_bound_def)
        obtain d where "buffering_hold (rg_vr s) f (now + vr_delay (rg_vr s)) = Some (Buf_timed f (now + vr_delay (rg_vr s)) d)"
          "d = min (now + vr_delay (rg_vr s)) (rf_pts f + clk_offset (vr_clock (rg_vr s)) + vr_delay (rg_vr s))"
          using hold_ready [OF g(2-4) b(1-3)] by metis
        with ns Buf_wait Cons DELAYED_FRAME g b(4) show thesis by (intro that(3) [of f ps d]) simp_all
      next
        case (DELAYED_SESSION v)
        with ns Buf_wait Cons show thesis by (intro that(4) [of v ps]) simp_all
      qed
    qed
  qed
next
  case (Buf_timed f mx d)
  then have c: "clk_range (vr_clock (rg_vr s)) \<noteq> 0" "0 \<le> rf_pts f" "rf_pts f \<le> tick_bound"
    "\<bar>clk_offset (vr_clock (rg_vr s))\<bar> \<le> tick_bound" "0 < vr_delay (rg_vr s)" "vr_delay (rg_vr s) \<le> tick_bound"
    using assms(1) by (simp_all add: reg_safe_def)
  obtain d' where "buffering_hold (rg_vr s) f mx = Some (Buf_timed f mx d')"
    "d' = min mx (rf_pts f + clk_offset (vr_clock (rg_vr s)) + vr_delay (rg_vr s))"
    using hold_ready [OF c] by metis
  with Buf_timed c(1) that(5) [of f mx d] that(6) [of f mx d] that(7) [of f mx d] that(8) [of f mx d d'] show thesis
    by (cases "\<not> sg \<and> now < d"; cases "vr_stopped (rg_vr s)"; cases sg) simp_all
next
  case (Buf_push p)
  with that(9) [of p] that(10) [of p] show thesis by (cases ok) simp_all
next
  case Buf_ended
  then have "buffering_stopped (rg_vr s) = rg_vr s" "vr_stopped (rg_vr s)"
    using assms by (simp_all add: reg_safe_def buffering_stopped_def)
  with Buf_ended that(1) show thesis by simp
qed

text \<open>What each kind of event does to the state.\<close>

lemmas reg_defs = reg_safe_def reg_order_def reg_first_def reg_time_def buffering_stopped_def

text \<open>What the thread pushes is not the first frame when that one is not delayed.\<close>

lemma push_aside:
  assumes "reg_first s" "p \<in> set (in_hand (rg_thread s))"
  shows "set_aside (first_frame_asap (rg_vr s)) is_frame (map snd (rg_out s) @ [p]) =
      set_aside (first_frame_asap (rg_vr s)) is_frame (map snd (rg_out s)) @ [p]"
    "set_aside (first_frame_asap (rg_vr s)) (\<lambda>q. is_frame (snd q)) (rg_out s @ [(t, p)]) =
      set_aside (first_frame_asap (rg_vr s)) (\<lambda>q. is_frame (snd q)) (rg_out s) @ [(t, p)]"
proof -
  have "frame_in (map snd (rg_out s))" if "first_frame_asap (rg_vr s)" "is_frame p"
    using that assms by (auto simp: reg_first_def frame_in_def split: if_splits)
  then have "first_frame_asap (rg_vr s) \<longrightarrow> is_frame p \<longrightarrow> (\<exists>q \<in> set (rg_out s). is_frame (snd q))" by (auto simp: frame_in_def)
  then show "set_aside (first_frame_asap (rg_vr s)) is_frame (map snd (rg_out s) @ [p]) =
      set_aside (first_frame_asap (rg_vr s)) is_frame (map snd (rg_out s)) @ [p]"
    "set_aside (first_frame_asap (rg_vr s)) (\<lambda>q. is_frame (snd q)) (rg_out s @ [(t, p)]) =
      set_aside (first_frame_asap (rg_vr s)) (\<lambda>q. is_frame (snd q)) (rg_out s) @ [(t, p)]"
    by (intro set_aside_snoc, force)+
qed

lemma prefix_grown: "xs @ p # ys = zs \<Longrightarrow> prefix (xs @ [p]) zs"
  by auto

lemma thread_step:
  assumes "reg_safe s" "rg_now s = now" "reg_first s"
  obtains s' where "reg_event_step now (RE_thread sg ok) s = Some s'" "rg_now s' = now" "rg_given s' = rg_given s"
    "vr_delay (rg_vr s') = vr_delay (rg_vr s)" "first_frame_asap (rg_vr s') = first_frame_asap (rg_vr s)"
    "vr_clock (rg_vr s') = vr_clock (rg_vr s)" "vr_stopped (rg_vr s) \<longrightarrow> vr_stopped (rg_vr s')"
    "reg_safe s'" "reg_order s \<Longrightarrow> reg_order s'" "reg_first s'" "reg_time m s \<Longrightarrow> reg_time m s'"
  using assms(1,2)
proof (cases rule: thread_cases [where sg = sg and ok = ok])
  case ended
  show thesis
    by (rule that [of "s\<lparr>rg_vr := buffering_stopped (rg_vr s), rg_thread := Buf_ended\<rparr>"]) (use ended assms in \<open>auto simp: reg_defs split: if_splits\<close>)
next
  case idle
  with that [of s] assms show thesis by auto
next
  case (frame f ps d)
  let ?s = "s\<lparr>rg_vr := (rg_vr s)\<lparr>vr_queue := ps\<rparr>, rg_thread := Buf_timed f (now + vr_delay (rg_vr s)) d\<rparr>"
  show thesis
  proof (rule that [of ?s])
    show "reg_time m ?s" if "reg_time m s"
      using that frame assms(2) by (auto simp: reg_time_def min_def)
  qed (use frame assms in \<open>auto simp: reg_safe_def reg_order_def reg_first_def\<close>)
next
  case (session v ps)
  show thesis
    by (rule that [of "s\<lparr>rg_vr := (rg_vr s)\<lparr>vr_queue := ps\<rparr>, rg_thread := Buf_push (DELAYED_SESSION v)\<rparr>"]) (use session assms in \<open>auto simp: reg_defs split: if_splits\<close>)
next
  case (waiting f mx d)
  with that [of s] assms show thesis by auto
next
  case (dropped f mx d)
  show thesis
    by (rule that [of "s\<lparr>rg_vr := buffering_stopped (rg_vr s), rg_thread := Buf_ended\<rparr>"]) (use dropped assms in \<open>auto simp: reg_defs split: if_splits\<close>)
next
  case (released f mx d)
  show thesis
    by (rule that [of "s\<lparr>rg_thread := Buf_push (DELAYED_FRAME (Some f))\<rparr>"]) (use released assms in \<open>auto simp: reg_defs split: if_splits\<close>)
next
  case (again f mx d d')
  let ?s = "s\<lparr>rg_thread := Buf_timed f mx d'\<rparr>"
  show thesis
  proof (rule that [of ?s])
    show "reg_time m ?s" if "reg_time m s"
      using that again assms(2) by (auto simp: reg_time_def min_def)
  qed (use again assms in \<open>auto simp: reg_safe_def reg_order_def reg_first_def\<close>)
next
  case (pushed p)
  show thesis
    by (rule that [of "s\<lparr>rg_thread := Buf_wait, rg_out := rg_out s @ [(now, p)]\<rparr>"]) (use pushed assms push_aside(1) [OF assms(3), where p = p] push_aside(2) [OF assms(3), where p = p and t = now] in \<open>auto simp: reg_defs prefix_grown split: if_splits\<close>)
next
  case (refused p)
  show thesis
    by (rule that [of "s\<lparr>rg_vr := buffering_stopped ((rg_vr s)\<lparr>vr_stopped := True\<rparr>), rg_thread := Buf_ended, rg_out := rg_out s @ [(now, p)]\<rparr>"]) (use refused assms push_aside(1) [OF assms(3), where p = p] push_aside(2) [OF assms(3), where p = p and t = now] in \<open>auto simp: reg_defs prefix_grown split: if_splits\<close>)
qed

lemma clock_update_range: "clk_range (clock_next a b c) = Suc 0 \<longleftrightarrow> clk_range c = 0"
  by (auto simp: clock_next_def Let_def SC_CLOCK_RANGE_def split: if_splits)

lemma frame_step:
  assumes "reg_safe s" "rg_now s = now" "reg_order s" "reg_first s" "0 \<le> rf_pts f" "rf_pts f \<le> tick_bound"
  obtains s' where "reg_event_step now (RE_frame queue_ok True sink_ok f) s = Some s'" "rg_now s' = now"
    "vr_delay (rg_vr s') = vr_delay (rg_vr s)" "first_frame_asap (rg_vr s') = first_frame_asap (rg_vr s)"
    "reg_safe s'" "reg_order s'" "reg_first s'"
    "reg_time m s \<Longrightarrow> m \<le> now - rf_pts f \<Longrightarrow> reg_time m s'"
proof (cases "vr_stopped (rg_vr s)")
  case True
  with that [of s] assms show thesis by (simp add: sc_video_regulator_frame_sink_push_def)
next
  case ns: False
  define c where "c = clock_next now (rf_pts f) (vr_clock (rg_vr s))"
  have r: "clk_range (vr_clock (rg_vr s)) \<le> SC_CLOCK_RANGE" "\<bar>clk_offset (vr_clock (rg_vr s))\<bar> \<le> tick_bound"
    "\<bar>now - rf_pts f\<bar> \<le> tick_bound" using assms(1,2,5,6) by (auto simp: reg_safe_def)
  have u: "sc_clock_update now (rf_pts f) (vr_clock (rg_vr s)) = Some c"
    unfolding c_def by (rule sc_clock_update_next [OF r(2,3,1)])
  have c: "clk_range c \<noteq> 0" "clk_range c \<le> SC_CLOCK_RANGE" "\<bar>clk_offset c\<bar> \<le> tick_bound"
    using update_range [OF r(1)] update_between(1) [OF r(1), of "- tick_bound" now "rf_pts f"]
      update_between(2) [OF r(1), of tick_bound now "rf_pts f"] r by (auto simp: c_def abs_le_iff)
  have low: "m \<le> clk_offset c" if "reg_time m s" "m \<le> now - rf_pts f"
    using that update_between(1) [OF r(1), of m now "rf_pts f"] by (simp add: c_def reg_time_def)
  have ready: "\<forall>p \<in> set (in_hand (rg_thread s) @ vr_queue (rg_vr s)). packet_ready c p"
    using assms(1) packet_ready_update [of "vr_clock (rg_vr s)"] by (simp add: c_def reg_safe_def ball_Un)
  have ne: "rg_thread s \<noteq> Buf_ended" using ns assms(1) by (auto simp: reg_safe_def)
  let ?asap = "first_frame_asap (rg_vr s)"
  let ?s = "s\<lparr>rg_vr := (rg_vr s)\<lparr>vr_clock := c\<rparr>\<rparr>"
  let ?direct = "?asap \<and> clk_range c = 1"
  consider (direct) "?direct" | (full) "\<not> ?direct" "\<not> queue_ok" | (queued) "\<not> ?direct" queue_ok by blast
  then show thesis
  proof cases
    case direct
    then have z: "clk_range (vr_clock (rg_vr s)) = 0" by (simp add: c_def clock_update_range)
    with direct assms(4) have e: "\<not> frame_in (map snd (rg_out s))" "\<not> frame_in (rg_given s)" by (simp_all add: reg_first_def)
    have a: "set_aside ?asap is_frame (map snd (rg_out s) @ [DELAYED_FRAME (Some f)]) = map snd (rg_out s)"
      "set_aside ?asap is_frame (map snd (rg_out s)) = map snd (rg_out s)"
      "set_aside ?asap is_frame (rg_given s @ [DELAYED_FRAME (Some f)]) = rg_given s" "set_aside ?asap is_frame (rg_given s) = rg_given s"
      "set_aside ?asap (\<lambda>q. is_frame (snd q)) (rg_out s @ [(now, DELAYED_FRAME (Some f))]) = rg_out s"
      "set_aside ?asap (\<lambda>q. is_frame (snd q)) (rg_out s) = rg_out s"
      using direct e set_aside_first [of ?asap "map snd (rg_out s)" is_frame "DELAYED_FRAME (Some f)"]
        set_aside_first [of ?asap "rg_given s" is_frame "DELAYED_FRAME (Some f)"]
        set_aside_first [of ?asap "rg_out s" "\<lambda>q. is_frame (snd q)" "(now, DELAYED_FRAME (Some f))"] by (simp_all add: frame_in_def)
    let ?t = "?s\<lparr>rg_given := rg_given s @ [DELAYED_FRAME (Some f)], rg_out := rg_out s @ [(now, DELAYED_FRAME (Some f))]\<rparr>"
    show thesis
    proof (rule that [of ?t])
      show "reg_order ?t" using assms(3) a by (simp add: reg_order_def)
      show "reg_time m ?t" if "reg_time m s" "m \<le> now - rf_pts f" using that low a c by (simp add: reg_time_def)
    qed (use direct ns assms c ready ne in \<open>auto simp: sc_video_regulator_frame_sink_push_def u reg_safe_def reg_first_def\<close>)
  next
    case full
    then have o: "?asap \<longrightarrow> frame_in (map snd (rg_out s)) \<and> frame_in (rg_given s)"
      using assms(4) clock_update_range [of now "rf_pts f" "vr_clock (rg_vr s)"] by (auto simp: c_def reg_first_def split: if_splits)
    show thesis
      by (rule that [of ?s])
        (use full ns assms c low ready ne o in \<open>auto simp: sc_video_regulator_frame_sink_push_def u reg_defs split: if_splits\<close>)
  next
    case queued
    then have o: "?asap \<longrightarrow> frame_in (map snd (rg_out s)) \<and> frame_in (rg_given s)"
      using assms(4) clock_update_range [of now "rf_pts f" "vr_clock (rg_vr s)"] by (auto simp: c_def reg_first_def split: if_splits)
    then have a: "set_aside ?asap is_frame (rg_given s @ [DELAYED_FRAME (Some f)]) = set_aside ?asap is_frame (rg_given s) @ [DELAYED_FRAME (Some f)]"
      by (intro set_aside_snoc) (auto simp: frame_in_def)
    let ?q = "(rg_vr s)\<lparr>vr_clock := c, vr_queue := vr_queue (rg_vr s) @ [DELAYED_FRAME (Some f)]\<rparr>"
    let ?t = "s\<lparr>rg_vr := ?q, rg_given := rg_given s @ [DELAYED_FRAME (Some f)]\<rparr>"
    show thesis
    proof (rule that [of ?t])
      show "reg_order ?t" using assms(3) a by (auto simp: reg_order_def)
      show "reg_time m ?t" if "reg_time m s" "m \<le> now - rf_pts f" using that low c assms(2) by (simp add: reg_time_def)
    qed (use queued ns assms c ready ne o in \<open>auto simp: sc_video_regulator_frame_sink_push_def u reg_safe_def reg_first_def\<close>)
  qed
qed

lemma session_step:
  assumes "reg_safe s" "rg_now s = now" "reg_order s" "reg_first s"
  obtains s' where "reg_event_step now (RE_session queue_ok v) s = Some s'" "rg_now s' = now"
    "vr_delay (rg_vr s') = vr_delay (rg_vr s)" "first_frame_asap (rg_vr s') = first_frame_asap (rg_vr s)"
    "reg_safe s'" "reg_order s'" "reg_first s'" "reg_time m s \<Longrightarrow> reg_time m s'"
proof (cases "vr_stopped (rg_vr s) \<or> \<not> queue_ok")
  case True
  with that [of s] assms show thesis by (auto simp: sc_video_regulator_frame_sink_push_session_def)
next
  case False
  let ?s = "s\<lparr>rg_vr := (rg_vr s)\<lparr>vr_queue := vr_queue (rg_vr s) @ [DELAYED_SESSION v]\<rparr>, rg_given := rg_given s @ [DELAYED_SESSION v]\<rparr>"
  have a: "set_aside (first_frame_asap (rg_vr s)) is_frame (rg_given s @ [DELAYED_SESSION v]) =
    set_aside (first_frame_asap (rg_vr s)) is_frame (rg_given s) @ [DELAYED_SESSION v]"
    by (rule set_aside_snoc) simp
  show thesis
  proof (rule that [of ?s])
    show "reg_order ?s" using assms(3) a by (auto simp: reg_order_def)
  qed (use False assms in \<open>auto simp: sc_video_regulator_frame_sink_push_session_def reg_safe_def reg_first_def reg_time_def split: if_splits\<close>)
qed

lemma close_step:
  assumes "reg_safe s" "reg_order s" "reg_first s"
  shows "reg_safe (s\<lparr>rg_vr := sc_video_regulator_frame_sink_close (rg_vr s)\<rparr>)"
    and "reg_order (s\<lparr>rg_vr := sc_video_regulator_frame_sink_close (rg_vr s)\<rparr>)"
    and "reg_first (s\<lparr>rg_vr := sc_video_regulator_frame_sink_close (rg_vr s)\<rparr>)"
    and "reg_time m s \<Longrightarrow> reg_time m (s\<lparr>rg_vr := sc_video_regulator_frame_sink_close (rg_vr s)\<rparr>)"
  using assms by (auto simp: sc_video_regulator_frame_sink_close_def reg_defs)

lemma time_passes:
  fixes dt :: nat
  assumes "reg_safe s" "reg_order s" "reg_first s" "rg_now s + int dt \<le> tick_bound"
  defines "s' \<equiv> s\<lparr>rg_now := rg_now s + int dt\<rparr>"
  shows "reg_safe s'" "reg_order s'" "reg_first s'" "reg_time m s \<Longrightarrow> reg_time m s'"
proof -
  show "reg_safe s'" using assms(1,4) by (simp add: reg_safe_def s'_def)
  show "reg_order s'" using assms(2) by (simp add: reg_order_def s'_def)
  show "reg_first s'" using assms(3) by (auto simp: reg_first_def s'_def split: if_splits)
  show "reg_time m s'" if "reg_time m s"
    using that packet_due_later [of m "rg_now s" _ "rg_now s + int dt"]
      buffering_due_later [of m _ "rg_now s" _ "rg_now s + int dt"] by (auto simp: s'_def reg_time_def)
qed

definition reg_ready :: "(nat \<times> reg_event) list \<Rightarrow> regulation \<Rightarrow> bool" where
  "reg_ready es s \<longleftrightarrow> frames_allocated es \<and> times_bounded (vr_delay (rg_vr s)) (rg_now s) es"

lemma reg_step_inv:
  assumes "reg_safe s" "reg_order s" "reg_first s" "reg_ready (e # es) s"
  obtains s' where "reg_step e s = Some s'" "rg_now s' = rg_now s + int (fst e)"
    "vr_delay (rg_vr s') = vr_delay (rg_vr s)" "first_frame_asap (rg_vr s') = first_frame_asap (rg_vr s)"
    "reg_ready es s'" "reg_safe s'" "reg_order s'" "reg_first s'"
    "reg_time m s \<Longrightarrow> event_offset_from m (rg_now s + int (fst e)) (snd e) \<Longrightarrow> reg_time m s'"
proof -
  obtain dt ev where e: "e = (dt, ev)" by force
  define n where "n = rg_now s + int dt"
  define t where "t = s\<lparr>rg_now := n\<rparr>"
  have b: "n \<le> tick_bound" "event_in_time ev" "event_allocates ev"
    using assms(4) by (auto simp: reg_ready_def times_bounded_def frames_allocated_def e n_def)
  have t: "reg_safe t" "reg_order t" "reg_first t" "reg_time m s \<Longrightarrow> reg_time m t"
    using time_passes(1-3) [OF assms(1-3) b(1) [unfolded n_def]] time_passes(4) [OF assms(1-3) b(1) [unfolded n_def], where m = m]
    by (simp_all add: t_def n_def)
  have v: "rg_vr t = rg_vr s" "rg_now t = n" by (simp_all add: t_def)
  have st: "reg_step e s = reg_event_step n ev t" by (simp add: reg_step_def e t_def n_def)
  have ready: "reg_ready es s'" if "rg_now s' = n" "vr_delay (rg_vr s') = vr_delay (rg_vr t)" for s'
    using that assms(1,4) by (simp add: reg_ready_def times_bounded_def frames_allocated_def reg_safe_def e n_def v)
  show thesis
  proof (cases ev)
    case (RE_frame queue_ok frame_ok sink_ok f)
    then have f: "0 \<le> rf_pts f" "rf_pts f \<le> tick_bound" frame_ok using b by simp_all
    with RE_frame frame_step [OF t(1) v(2) t(2,3) f(1,2), of queue_ok sink_ok m] obtain s' where s': "reg_step e s = Some s'"
      "rg_now s' = n" "vr_delay (rg_vr s') = vr_delay (rg_vr t)" "first_frame_asap (rg_vr s') = first_frame_asap (rg_vr t)"
      "reg_safe s'" "reg_order s'" "reg_first s'" "reg_time m t \<Longrightarrow> m \<le> n - rf_pts f \<Longrightarrow> reg_time m s'"
      unfolding st by metis
    show thesis
      by (rule that [of s']) (use s' t(4) ready RE_frame in \<open>auto simp: v e n_def\<close>)
  next
    case (RE_session queue_ok w)
    with session_step [OF t(1) v(2) t(2,3), of queue_ok w m] obtain s' where s': "reg_step e s = Some s'"
      "rg_now s' = n" "vr_delay (rg_vr s') = vr_delay (rg_vr t)" "first_frame_asap (rg_vr s') = first_frame_asap (rg_vr t)"
      "reg_safe s'" "reg_order s'" "reg_first s'" "reg_time m t \<Longrightarrow> reg_time m s'"
      unfolding st by metis
    show thesis
      by (rule that [of s']) (use s' t(4) ready RE_session in \<open>auto simp: v e n_def\<close>)
  next
    case RE_close
    let ?s = "t\<lparr>rg_vr := sc_video_regulator_frame_sink_close (rg_vr t)\<rparr>"
    show thesis
    proof (rule that [of ?s])
      show "reg_safe ?s" "reg_order ?s" "reg_first ?s" using close_step [OF t(1-3)] by simp_all
      show "reg_time m ?s" if "reg_time m s" using close_step(4) [OF t(1-3)] t(4) that by simp
      show "reg_ready es ?s" by (rule ready) (simp_all add: v sc_video_regulator_frame_sink_close_def)
    qed (use st in \<open>auto simp: RE_close e n_def t_def sc_video_regulator_frame_sink_close_def\<close>)
  next
    case (RE_thread sg ok)
    with thread_step [OF t(1) v(2) t(3), of sg ok m] obtain s' where s': "reg_step e s = Some s'"
      "rg_now s' = n" "vr_delay (rg_vr s') = vr_delay (rg_vr t)" "first_frame_asap (rg_vr s') = first_frame_asap (rg_vr t)"
      "reg_safe s'" "reg_order t \<Longrightarrow> reg_order s'" "reg_first s'" "reg_time m t \<Longrightarrow> reg_time m s'"
      unfolding st by metis
    show thesis
      by (rule that [of s']) (use s' t ready RE_thread in \<open>auto simp: v e n_def\<close>)
  qed
qed

lemma reg_run_inv:
  assumes "reg_safe s" "reg_order s" "reg_first s" "reg_ready es s"
  shows "\<exists>s'. reg_run es s = Some s' \<and> reg_safe s' \<and> reg_order s' \<and> reg_first s' \<and>
    vr_delay (rg_vr s') = vr_delay (rg_vr s) \<and> first_frame_asap (rg_vr s') = first_frame_asap (rg_vr s) \<and>
    (reg_time m s \<and> offsets_from m (rg_now s) es \<longrightarrow> reg_time m s')"
  using assms
proof (induction es arbitrary: s)
  case (Cons e es)
  obtain s' where s': "reg_step e s = Some s'" "rg_now s' = rg_now s + int (fst e)"
    "vr_delay (rg_vr s') = vr_delay (rg_vr s)" "first_frame_asap (rg_vr s') = first_frame_asap (rg_vr s)"
    "reg_ready es s'" "reg_safe s'" "reg_order s'" "reg_first s'"
    "reg_time m s \<Longrightarrow> event_offset_from m (rg_now s + int (fst e)) (snd e) \<Longrightarrow> reg_time m s'"
    by (rule reg_step_inv [OF Cons.prems, where m = m]) blast
  with Cons.IH [OF s'(6-8,5)] show ?case by (cases e) auto
qed simp

lemma reg_start_inv:
  assumes "sc_video_regulator_init delay asap vr0 = Some vr1" "sc_video_regulator_frame_sink_open mo qo wo so th vr1 = (True, vr)"
    "times_bounded delay now es"
  shows "reg_safe (reg_start now vr)" "reg_order (reg_start now vr)" "reg_first (reg_start now vr)"
    "reg_time m (reg_start now vr)" "vr_delay vr = delay" "first_frame_asap vr = asap"
    "reg_ready es (reg_start now vr) \<longleftrightarrow> frames_allocated es"
  using assms by (auto simp: times_bounded_def tick_bound_def sc_video_regulator_init_def sc_video_regulator_frame_sink_open_def reg_start_def reg_defs
      sc_clock_init_def reg_ready_def c_assert_def split: if_splits)

text \<open>C13. The regulator keeps the stream in order. It is assumed that every accepted frame could be allocated (a failed
  allocation leads to a null pointer, see \<open>regulator_null_frame\<close>) and that timestamps, clock and delay stay below the
  bound of two thousand years. Then, whatever the interleaving of the calls of the decoder with the thread, the code
  does not fail or overflow; apart from the first frame of a regulator that passes it on at once, which may overtake
  session changes, what the sinks are given is an initial part of what was accepted, and until the thread ends nothing
  is lost: the rest is in the hand of the thread and in the queue, in that order.\<close>

theorem regulator_in_order:
  assumes "sc_video_regulator_init delay asap vr0 = Some vr1" "sc_video_regulator_frame_sink_open mo qo wo so th vr1 = (True, vr)"
    "frames_allocated es" "times_bounded delay now es"
  shows "\<exists>s. reg_run es (reg_start now vr) = Some s \<and>
    prefix (set_aside asap is_frame (map snd (rg_out s))) (set_aside asap is_frame (rg_given s)) \<and>
    (rg_thread s \<noteq> Buf_ended \<longrightarrow>
       set_aside asap is_frame (map snd (rg_out s)) @ in_hand (rg_thread s) @ vr_queue (rg_vr s) = set_aside asap is_frame (rg_given s))"
proof -
  note i = reg_start_inv [OF assms(1,2,4)]
  have "reg_ready es (reg_start now vr)" using i(7) assms(3) by simp
  from reg_run_inv [OF i(1-3) this, of 0] obtain s where "reg_run es (reg_start now vr) = Some s" "reg_order s"
    "first_frame_asap (rg_vr s) = asap" using i(6) by (auto simp: reg_start_def)
  then show ?thesis by (auto simp: reg_order_def)
qed

text \<open>C14. The regulator delays the frames by what was asked, under the same assumptions (every frame allocated, times below
  the bound): if no frame came sooner than \<open>m\<close> after its timestamp, no frame, but the first one of a regulator that
  passes it on at once, is given to the sinks before its timestamp plus \<open>m\<close> plus the delay, and the thread never
  waits for longer than the delay.\<close>

theorem regulator_delays:
  assumes "sc_video_regulator_init delay asap vr0 = Some vr1" "sc_video_regulator_frame_sink_open mo qo wo so th vr1 = (True, vr)"
    "frames_allocated es" "times_bounded delay now es" "offsets_from m now es"
  shows "\<exists>s. reg_run es (reg_start now vr) = Some s \<and>
    (\<forall>t f. (t, DELAYED_FRAME (Some f)) \<in> set (set_aside asap (\<lambda>q. is_frame (snd q)) (rg_out s)) \<longrightarrow> rf_pts f + m + delay \<le> t) \<and>
    (\<forall>f mx d. rg_thread s = Buf_timed f mx d \<longrightarrow> d \<le> rg_now s + delay)"
proof -
  note i = reg_start_inv [OF assms(1,2,4)]
  have "reg_ready es (reg_start now vr)" using i(7) assms(3) by simp
  from reg_run_inv [OF i(1-3) this, of m] obtain s where s: "reg_run es (reg_start now vr) = Some s" "reg_time m s"
    "vr_delay (rg_vr s) = delay" "first_frame_asap (rg_vr s) = asap"
    using i(4-6) assms(5) by (auto simp: reg_start_def)
  have "rf_pts f + m + delay \<le> t"
    if "(t, DELAYED_FRAME (Some f)) \<in> set (set_aside asap (\<lambda>q. is_frame (snd q)) (rg_out s))" for t f
    using s(2) that unfolding reg_time_def s(3,4) by (auto simp: add.commute add.left_commute)
  moreover have "d \<le> rg_now s + delay" if "rg_thread s = Buf_timed f mx d" for f mx d
    using s(2) that unfolding reg_time_def s(3,4) by simp
  ultimately show ?thesis using s(1) by blast
qed

text \<open>A run: two frames, with a session change between them.\<close>

definition demo_frame :: "int \<Rightarrow> reg_frame" where
  "demo_frame pts = \<lparr>rf_pts = pts, rf_data = [0]\<rparr>"

definition demo_session :: sc_stream_session where
  "demo_session = \<lparr>ses_width = 1080, ses_height = 1920, client_resized = False\<rparr>"

definition regulator_events :: "(nat \<times> reg_event) list" where
  "regulator_events =
     [(0, RE_frame True True True (demo_frame 0)), (5, RE_session True demo_session),
      (7, RE_frame True True True (demo_frame 10)), (1, RE_thread False True), (0, RE_thread False True),
      (1, RE_thread False True), (20, RE_thread True True), (30, RE_thread False True), (1, RE_thread False True)]"

definition demo_memory :: sc_video_regulator where
  "demo_memory = \<lparr>vr_delay = 0, first_frame_asap = False, vr_clock = \<lparr>clk_range = 7, clk_offset = 5\<rparr>,
     vr_queue = [DELAYED_FRAME None], vr_stopped = True\<rparr>"

definition demo_regulator :: "bool \<Rightarrow> sc_video_regulator" where
  "demo_regulator asap = \<lparr>vr_delay = 40, first_frame_asap = asap, vr_clock = sc_clock_init, vr_queue = [], vr_stopped = False\<rparr>"

lemma demo_regulator_init: "sc_video_regulator_init 40 asap demo_memory = Some (demo_memory\<lparr>vr_delay := 40, first_frame_asap := asap\<rparr>)"
  by (simp add: sc_video_regulator_init_def)

lemma demo_regulator_open:
  "sc_video_regulator_frame_sink_open True True True True True (demo_memory\<lparr>vr_delay := 40, first_frame_asap := asap\<rparr>) = (True, demo_regulator asap)"
  by (simp add: sc_video_regulator_frame_sink_open_def demo_regulator_def demo_memory_def)

lemma regulator_events_ready: "frames_allocated regulator_events" "times_bounded 40 1000 regulator_events" "offsets_from 1000 1000 regulator_events"
  by (simp_all add: regulator_events_def frames_allocated_def times_bounded_def tick_bound_def demo_frame_def)

theorem regulator_in_order_witness:
  "\<exists>s. reg_run regulator_events (reg_start 1000 (demo_regulator True)) = Some s \<and>
    prefix (set_aside True is_frame (map snd (rg_out s))) (set_aside True is_frame (rg_given s))"
  using regulator_in_order [OF demo_regulator_init demo_regulator_open regulator_events_ready(1,2), of True] by blast

theorem regulator_delays_witness:
  "\<exists>s. reg_run regulator_events (reg_start 1000 (demo_regulator True)) = Some s \<and>
    (\<forall>t f. (t, DELAYED_FRAME (Some f)) \<in> set (set_aside True (\<lambda>q. is_frame (snd q)) (rg_out s)) \<longrightarrow> rf_pts f + 1000 + 40 \<le> t)"
  using regulator_delays [OF demo_regulator_init demo_regulator_open regulator_events_ready, of True] by blast

lemma demo_run:
  "map_option (\<lambda>s. map (map_prod id (\<lambda>p. case p of DELAYED_FRAME (Some f) \<Rightarrow> rf_pts f | _ \<Rightarrow> -1)) (rg_out s))
     (reg_run regulator_events (reg_start 1000 (demo_regulator True))) =
   Some [(1000, 0), (1013, -1), (1065, 10)]"
  by code_simp

text \<open>A frame that could not be allocated stays in the queue, and the thread then reads the timestamp of a frame
  that is not there.\<close>

lemma regulator_null_frame:
  "reg_run [(0, RE_frame True False True (demo_frame 0)), (1, RE_thread False True)] (reg_start 1000 (demo_regulator False)) = None"
  by code_simp

text \<open>A session change accepted before the first frame is overtaken by that frame when it is not delayed.\<close>

lemma first_frame_overtakes:
  "map_option (\<lambda>s. (map snd (rg_out s), rg_given s))
     (reg_run [(0, RE_session True demo_session), (1, RE_frame True True True (demo_frame 0)), (1, RE_thread False True), (1, RE_thread False True)]
        (reg_start 1000 (demo_regulator True))) =
   Some ([DELAYED_FRAME (Some (demo_frame 0)), DELAYED_SESSION demo_session],
         [DELAYED_SESSION demo_session, DELAYED_FRAME (Some (demo_frame 0))])"
  by code_simp

end
