(* ===== verification/Audiobuf.thy ===== *)
theory Audiobuf
  imports Prelude
begin

text \<open>
  \<^verbatim>\<open>app/src/util/audiobuf.c\<close>: the ring buffer between the thread that decodes audio and the one that
  plays it, with one writer and one reader and no lock. The cursors are \<^verbatim>\<open>uint32_t\<close> values counted in
  samples and their arithmetic wraps; the array is bytes. \<^verbatim>\<open>read\<close> and \<^verbatim>\<open>write\<close> are split into loading the
  cursors, copying, and publishing the new cursor, so that the interleavings can be studied.
\<close>

section \<open>State and operations\<close>

record sc_audiobuf =
  ab_data :: byte_buf
  alloc_size :: u32
  sample_size :: nat
  ab_head :: u32
  ab_tail :: u32

text \<open>\<open>block\<close> is the result of \<^verbatim>\<open>sc_allocarray\<close>: its bytes are unspecified. A NULL block makes the result
  \<open>Some None\<close>.\<close>

definition sc_audiobuf_init :: "nat \<Rightarrow> u32 \<Rightarrow> byte_buf option \<Rightarrow> sc_audiobuf option option" where
  "sc_audiobuf_init ss capacity block = do {
     c_assert (ss \<noteq> 0);
     c_assert (capacity \<noteq> 0);
     Some (case block of
        None \<Rightarrow> None
      | Some d \<Rightarrow> Some \<lparr>ab_data = d, alloc_size = capacity + 1, sample_size = ss,
                       ab_head = 0, ab_tail = 0\<rparr>)
   }"

definition sc_audiobuf_to_samples :: "sc_audiobuf \<Rightarrow> nat \<Rightarrow> u32 option" where
  "sc_audiobuf_to_samples buf bytes = do {
     c_assert (bytes mod sample_size buf = 0);
     Some (of_nat (bytes div sample_size buf))
   }"

definition sc_audiobuf_to_bytes :: "sc_audiobuf \<Rightarrow> u32 \<Rightarrow> nat" where
  "sc_audiobuf_to_bytes buf samples = unat samples * sample_size buf"

definition sc_audiobuf_capacity :: "sc_audiobuf \<Rightarrow> u32 option" where
  "sc_audiobuf_capacity buf = do { c_assert (alloc_size buf \<noteq> 0); Some (alloc_size buf - 1) }"

definition sc_audiobuf_can_read :: "sc_audiobuf \<Rightarrow> u32" where
  "sc_audiobuf_can_read buf = (alloc_size buf + ab_head buf - ab_tail buf) mod alloc_size buf"

definition ab_can_write :: "sc_audiobuf \<Rightarrow> u32" where
  "ab_can_write buf = (alloc_size buf + ab_tail buf - ab_head buf - 1) mod alloc_size buf"

text \<open>The two \<^verbatim>\<open>memcpy\<close> of a read, up to the end of the array and from its start.\<close>

definition ab_copy_out :: "sc_audiobuf \<Rightarrow> u32 \<Rightarrow> byte_buf option" where
  "ab_copy_out buf samples_count = do {
     let tail = ab_tail buf;
     let right_count = min (alloc_size buf - tail) samples_count;
     right \<leftarrow> mem_read (unat tail * sample_size buf) (unat right_count * sample_size buf) (ab_data buf);
     left \<leftarrow> (if samples_count > right_count
              then mem_read 0 (unat (samples_count - right_count) * sample_size buf) (ab_data buf)
              else Some []);
     Some (right @ left)
   }"

text \<open>The two \<^verbatim>\<open>memcpy\<close> of a write; writing silence is writing zeros.\<close>

definition ab_copy_in :: "sc_audiobuf \<Rightarrow> byte_buf \<Rightarrow> u32 \<Rightarrow> byte_buf option" where
  "ab_copy_in buf src samples_count = do {
     let head = ab_head buf;
     let right_count = min (alloc_size buf - head) samples_count;
     let n = unat right_count * sample_size buf;
     right \<leftarrow> mem_read 0 n src;
     d \<leftarrow> mem_write (unat head * sample_size buf) right (ab_data buf);
     if samples_count > right_count then do {
       left \<leftarrow> mem_read n (unat (samples_count - right_count) * sample_size buf) src;
       mem_write 0 left d
     } else Some d
   }"

definition ab_advance :: "sc_audiobuf \<Rightarrow> u32 \<Rightarrow> u32 \<Rightarrow> u32" where
  "ab_advance buf cursor samples_count = (cursor + samples_count) mod alloc_size buf"

text \<open>The result of a read: the number of samples, the bytes copied to \<^verbatim>\<open>to\<close> (none for a NULL
  pointer) and the buffer.\<close>

definition sc_audiobuf_read ::
  "sc_audiobuf \<Rightarrow> bool \<Rightarrow> u32 \<Rightarrow> (u32 \<times> byte_buf \<times> sc_audiobuf) option" where
  "sc_audiobuf_read buf to samples_count = do {
     c_assert (samples_count \<noteq> 0);
     let can_read = sc_audiobuf_can_read buf;
     if can_read = 0 then Some (0, [], buf)
     else do {
       let samples_count = min samples_count can_read;
       bytes \<leftarrow> (if to then ab_copy_out buf samples_count else Some []);
       Some (samples_count, bytes, buf\<lparr>ab_tail := ab_advance buf (ab_tail buf) samples_count\<rparr>)
     }
   }"

definition sc_audiobuf_write :: "sc_audiobuf \<Rightarrow> byte_buf \<Rightarrow> u32 \<Rightarrow> (u32 \<times> sc_audiobuf) option" where
  "sc_audiobuf_write buf src samples_count =
     (let can_write = ab_can_write buf in
      if can_write = 0 then Some (0, buf)
      else do {
        let samples_count = min samples_count can_write;
        d \<leftarrow> ab_copy_in buf src samples_count;
        Some (samples_count, buf\<lparr>ab_data := d, ab_head := ab_advance buf (ab_head buf) samples_count\<rparr>)
      })"

definition sc_audiobuf_write_silence :: "sc_audiobuf \<Rightarrow> u32 \<Rightarrow> (u32 \<times> sc_audiobuf) option" where
  "sc_audiobuf_write_silence buf samples_count =
     sc_audiobuf_write buf (replicate (unat samples_count * sample_size buf) 0) samples_count"

section \<open>Invariant and contents\<close>

text \<open>Up to \<open>2^31\<close> samples no sum of two cursors wraps.\<close>

definition ab_invar :: "sc_audiobuf \<Rightarrow> bool" where
  "ab_invar b \<longleftrightarrow>
     0 < unat (alloc_size b) \<and> unat (alloc_size b) \<le> 2 ^ 31 \<and> 0 < sample_size b \<and>
     length (ab_data b) = unat (alloc_size b) * sample_size b \<and>
     unat (ab_head b) < unat (alloc_size b) \<and> unat (ab_tail b) < unat (alloc_size b)"

definition ab_count :: "sc_audiobuf \<Rightarrow> nat" where
  "ab_count b = (unat (alloc_size b) + unat (ab_head b) - unat (ab_tail b)) mod unat (alloc_size b)"

text \<open>\<open>n\<close> bytes of a ring from position \<open>p\<close>.\<close>

definition ring_get :: "'a list \<Rightarrow> nat \<Rightarrow> nat \<Rightarrow> 'a list" where
  "ring_get d p n = map (\<lambda>i. d ! ((p + i) mod length d)) [0..<n]"

definition ab_contents :: "sc_audiobuf \<Rightarrow> byte_buf" where
  "ab_contents b = ring_get (ab_data b) (unat (ab_tail b) * sample_size b) (ab_count b * sample_size b)"

lemma length_ring_get [simp]: "length (ring_get d p n) = n"
  by (simp add: ring_get_def)

lemma nth_ring_get [simp]: "i < n \<Longrightarrow> ring_get d p n ! i = d ! ((p + i) mod length d)"
  by (simp add: ring_get_def)

lemma take_ring_get: "n \<le> m \<Longrightarrow> take n (ring_get d p m) = ring_get d p n"
  by (simp add: ring_get_def take_map)

lemma drop_ring_get: "drop n (ring_get d p m) = ring_get d ((p + n) mod length d) (m - n)"
  by (rule nth_equalityI) (simp_all add: mod_add_left_eq add.assoc)

text \<open>The words are the numbers they stand for.\<close>

lemma count_eq:
  assumes "ab_invar b"
  shows "unat (sc_audiobuf_can_read b) = ab_count b"
    "unat (ab_can_write b) = unat (alloc_size b) - 1 - ab_count b"
    "ab_count b < unat (alloc_size b)"
    "(unat (ab_tail b) + ab_count b) mod unat (alloc_size b) = unat (ab_head b)"
proof -
  let ?A = "unat (alloc_size b)" and ?H = "unat (ab_head b)" and ?T = "unat (ab_tail b)"
  have b: "0 < ?A" "?A \<le> 2 ^ 31" "?H < ?A" "?T < ?A" using assms by (simp_all add: ab_invar_def)
  have "unat (alloc_size b + ab_head b) = ?A + ?H" "unat (alloc_size b + ab_tail b) = ?A + ?T"
    using b by (simp_all add: unat_word_ariths)
  then have "unat (alloc_size b + ab_head b - ab_tail b) = ?A + ?H - ?T"
    "unat (alloc_size b + ab_tail b - ab_head b) = ?A + ?T - ?H"
    using b by (simp_all add: unat_sub word_le_nat_alt)
  moreover from this have "unat (alloc_size b + ab_tail b - ab_head b - 1) = ?A + ?T - ?H - 1"
    using b by (subst unat_sub) (simp_all add: word_le_nat_alt)
  ultimately show "unat (sc_audiobuf_can_read b) = ab_count b"
    "unat (ab_can_write b) = ?A - 1 - ab_count b" "ab_count b < ?A" "(?T + ab_count b) mod ?A = ?H"
    using b
    by (auto simp: sc_audiobuf_can_read_def ab_can_write_def ab_count_def unat_mod_distrib mod_if not_less)
qed

lemma advance_eq:
  assumes "ab_invar b" "unat c < unat (alloc_size b)" "unat k < unat (alloc_size b)"
  shows "unat (ab_advance b c k) = (unat c + unat k) mod unat (alloc_size b)"
proof -
  have "unat (c + k) = unat c + unat k"
    using assms by (simp add: unat_word_ariths ab_invar_def)
  then show ?thesis by (simp add: ab_advance_def unat_mod_distrib)
qed

text \<open>Reading and writing a ring in two pieces.\<close>

lemma ring_get_split:
  assumes "p < length d" "n \<le> length d" "r = min (length d - p) n"
  shows "ring_get d p n = take r (drop p d) @ take (n - r) d"
proof (rule nth_equalityI)
  show "length (ring_get d p n) = length (take r (drop p d) @ take (n - r) d)" using assms by simp
  fix i assume "i < length (ring_get d p n)"
  then have i: "i < n" by simp
  show "ring_get d p n ! i = (take r (drop p d) @ take (n - r) d) ! i"
  proof (cases "p + i < length d")
    case True
    with i assms show ?thesis by (auto simp: nth_append)
  next
    case False
    with i assms have "r = length d - p" "(p + i) mod length d = i - r" "r \<le> i" "i - r < n - r"
      by (auto simp: mod_if)
    with i assms show ?thesis by (simp add: nth_append)
  qed
qed

definition ring_put :: "'a list \<Rightarrow> nat \<Rightarrow> 'a list \<Rightarrow> 'a list" where
  "ring_put d p xs = (let r = min (length d - p) (length xs) in
     drop r xs @ drop (length xs - r) (take p d) @ take r xs @ drop (p + r) d)"

lemma length_ring_put [simp]:
  "p < length d \<Longrightarrow> length xs \<le> length d \<Longrightarrow> length (ring_put d p xs) = length d"
  by (auto simp: ring_put_def Let_def min_def)

lemma nth_ring_put:
  assumes "p < length d" "length xs \<le> length d" "i < length d"
  shows "ring_put d p xs ! ((p + i) mod length d) =
    (if i < length xs then xs ! i else d ! ((p + i) mod length d))"
proof -
  define r where "r = min (length d - p) (length xs)"
  have e: "ring_put d p xs = drop r xs @ drop (length xs - r) (take p d) @ take r xs @ drop (p + r) d"
    by (simp add: ring_put_def Let_def r_def)
  show ?thesis
  proof (cases "p + i < length d")
    case True
    then have m: "(p + i) mod length d = p + i" by simp
    have l: "length xs - r \<le> p" using assms by (simp add: r_def)
    show ?thesis
    proof (cases "i < length xs")
      case i: True
      with True have "i < r" by (simp add: r_def)
      with m l i assms show ?thesis by (auto simp: e nth_append)
    next
      case False
      with True have "r = length xs" by (simp add: r_def)
      with m l False True assms show ?thesis by (simp add: e nth_append)
    qed
  next
    case False
    with assms have m: "(p + i) mod length d = p + i - length d" by (simp add: mod_if)
    show ?thesis
    proof (cases "i < length xs")
      case True
      with False assms have "r = length d - p" "p + i - length d < length xs - r" "r + (p + i - length d) = i"
        by (auto simp: r_def)
      with m True assms show ?thesis by (simp add: e nth_append)
    next
      case F: False
      with False assms have "length xs - r \<le> p + i - length d" "p + i - length d < p" "length xs - r \<le> p"
        by (auto simp: r_def)
      moreover from this have "p + i - length d - (length xs - r) < p - (length xs - r)"
        by (intro diff_less_mono)
      ultimately show ?thesis using m F False assms by (simp add: e nth_append)
    qed
  qed
qed

lemma copy_out_eq:
  assumes inv: "ab_invar b" and k: "unat k \<le> ab_count b"
  shows "ab_copy_out b k = Some (take (unat k * sample_size b) (ab_contents b))"
proof -
  let ?A = "unat (alloc_size b)" and ?T = "unat (ab_tail b)" and ?s = "sample_size b" and ?d = "ab_data b"
  define r where "r = min (?A - ?T) (unat k)"
  have b: "?T < ?A" "length ?d = ?A * ?s" "0 < ?s" using inv by (simp_all add: ab_invar_def)
  have kA: "unat k < ?A" using count_eq(3) [OF inv] k by simp
  have r: "unat (min (alloc_size b - ab_tail b) k) = r"
    using b(1) by (auto simp: r_def min_def word_le_nat_alt unat_sub)
  then have l: "k > min (alloc_size b - ab_tail b) k \<longleftrightarrow> r < unat k"
    "r < unat k \<Longrightarrow> unat (k - min (alloc_size b - ab_tail b) k) = unat k - r"
    by (auto simp: word_less_nat_alt unat_sub word_le_nat_alt)
  have "?T * ?s + r * ?s \<le> length ?d" "(unat k - r) * ?s \<le> length ?d"
    unfolding b(2) add_mult_distrib [symmetric] using b(1) kA by (auto simp: r_def intro: mult_le_mono1)
  then have "ab_copy_out b k = Some (take (r * ?s) (drop (?T * ?s) ?d) @ take ((unat k - r) * ?s) ?d)"
    using l by (auto simp: ab_copy_out_def Let_def r mem_read_in)
  also have "\<dots> = Some (ring_get ?d (?T * ?s) (unat k * ?s))"
  proof -
    have "r * ?s = min (length ?d - ?T * ?s) (unat k * ?s)"
      by (simp add: b(2) r_def nat_mult_min_left diff_mult_distrib)
    moreover have "?T * ?s < length ?d" "unat k * ?s \<le> length ?d" using b kA by simp_all
    ultimately show ?thesis using ring_get_split [of "?T * ?s" ?d "unat k * ?s"] by (simp add: diff_mult_distrib)
  qed
  also have "ring_get ?d (?T * ?s) (unat k * ?s) = take (unat k * ?s) (ab_contents b)"
    using k by (simp add: ab_contents_def take_ring_get)
  finally show ?thesis .
qed

lemma write_left:
  "n \<le> h \<Longrightarrow> h \<le> length d \<Longrightarrow> r + n \<le> length src \<Longrightarrow>
   mem_write 0 (take n (drop r src)) (take h d @ xs) = Some (take n (drop r src) @ drop n (take h d) @ xs)"
  by (simp add: mem_write_def)

lemma copy_in_eq:
  assumes inv: "ab_invar b" and k: "unat k < unat (alloc_size b)" and src: "unat k * sample_size b \<le> length src"
  shows "ab_copy_in b src k =
    Some (ring_put (ab_data b) (unat (ab_head b) * sample_size b) (take (unat k * sample_size b) src))"
proof -
  let ?A = "unat (alloc_size b)" and ?H = "unat (ab_head b)" and ?s = "sample_size b" and ?d = "ab_data b"
  define r where "r = min (?A - ?H) (unat k)"
  have b: "?H < ?A" "length ?d = ?A * ?s" "0 < ?s" using inv by (simp_all add: ab_invar_def)
  have r: "unat (min (alloc_size b - ab_head b) k) = r"
    using b(1) by (auto simp: r_def min_def word_le_nat_alt unat_sub)
  then have l: "k > min (alloc_size b - ab_head b) k \<longleftrightarrow> r < unat k"
    "r < unat k \<Longrightarrow> unat (k - min (alloc_size b - ab_head b) k) = unat k - r"
    by (auto simp: word_less_nat_alt unat_sub word_le_nat_alt)
  have rk: "r * ?s \<le> unat k * ?s" "r * ?s + (unat k - r) * ?s = unat k * ?s"
    by (simp_all add: r_def flip: add_mult_distrib)
  have le: "?H * ?s + r * ?s \<le> length ?d"
    unfolding b(2) add_mult_distrib [symmetric] using b(1) by (auto simp: r_def intro: mult_le_mono1)
  have rs: "r * ?s = min (length ?d - ?H * ?s) (unat k * ?s)"
    by (simp add: b(2) r_def nat_mult_min_left diff_mult_distrib)
  define d1 where "d1 = take (?H * ?s) ?d @ take (r * ?s) src @ drop (?H * ?s + r * ?s) ?d"
  have d1: "mem_write (?H * ?s) (take (r * ?s) src) ?d = Some d1"
    using le order.trans [OF rk(1) src] by (simp add: mem_write_in d1_def min_absorb2)
  have put: "ring_put ?d (?H * ?s) (take (unat k * ?s) src) =
    take ((unat k - r) * ?s) (drop (r * ?s) src) @ drop ((unat k - r) * ?s) (take (?H * ?s) ?d) @
    take (r * ?s) src @ drop (?H * ?s + r * ?s) ?d"
    using src rk rs by (simp add: ring_put_def Let_def diff_mult_distrib drop_take)
  have "ab_copy_in b src k = (if r < unat k
      then mem_write 0 (take ((unat k - r) * ?s) (drop (r * ?s) src)) d1 else Some d1)"
    using d1 l rk src by (simp add: ab_copy_in_def Let_def r mem_read_in)
  moreover have "mem_write 0 (take ((unat k - r) * ?s) (drop (r * ?s) src)) d1 =
      Some (ring_put ?d (?H * ?s) (take (unat k * ?s) src))" if "r < unat k"
  proof -
    from that have "r = ?A - ?H" by (simp add: r_def)
    then have "unat k - r \<le> ?H" using k b(1) by simp
    then have n: "(unat k - r) * ?s \<le> ?H * ?s" by simp
    moreover have "?H * ?s \<le> length ?d" using le by simp
    moreover have "r * ?s + (unat k - r) * ?s \<le> length src" using src rk(2) by simp
    ultimately show ?thesis
      unfolding put d1_def by (rule write_left)
  qed
  moreover have "d1 = ring_put ?d (?H * ?s) (take (unat k * ?s) src)" if "\<not> r < unat k"
    using that by (simp add: put d1_def)
  ultimately show ?thesis by simp
qed

section \<open>Publishing a cursor\<close>

lemma count_unique:
  assumes "ab_invar b" "c < unat (alloc_size b)"
    "(unat (ab_tail b) + c) mod unat (alloc_size b) = unat (ab_head b)"
  shows "ab_count b = c"
  using assms by (auto simp: ab_count_def ab_invar_def mod_if split: if_splits)

lemma ring_get_append:
  "ring_get d p (m + n) = ring_get d p m @ ring_get d ((p + m) mod length d) n"
  using append_take_drop_id [of m "ring_get d p (m + n)"] by (simp add: take_ring_get drop_ring_get)

lemma head_position:
  assumes "ab_invar b"
  shows "(unat (ab_tail b) * sample_size b + ab_count b * sample_size b) mod length (ab_data b) =
    unat (ab_head b) * sample_size b"
  using assms count_eq(4) [OF assms]
  by (simp add: ab_invar_def mod_mult_mult2 flip: add_mult_distrib)

lemma advance_tail:
  assumes inv: "ab_invar b" and k: "unat k \<le> ab_count b"
  defines "b' \<equiv> b\<lparr>ab_tail := ab_advance b (ab_tail b) k\<rparr>"
  shows "ab_invar b'" "ab_count b' = ab_count b - unat k"
    "ab_contents b' = drop (unat k * sample_size b) (ab_contents b)"
proof -
  let ?A = "unat (alloc_size b)" and ?T = "unat (ab_tail b)" and ?s = "sample_size b"
  note c = count_eq(3,4) [OF inv]
  have T: "unat (ab_tail b') = (?T + unat k) mod ?A"
    using advance_eq [OF inv, of "ab_tail b" k] inv k c by (simp add: b'_def ab_invar_def)
  show i: "ab_invar b'" using inv T by (simp add: ab_invar_def b'_def)
  show n: "ab_count b' = ab_count b - unat k"
  proof (rule count_unique [OF i])
    show "ab_count b - unat k < unat (alloc_size b')" using c by (simp add: b'_def less_imp_diff_less)
    show "(unat (ab_tail b') + (ab_count b - unat k)) mod unat (alloc_size b') = unat (ab_head b')"
      unfolding T using c k mod_add_left_eq [of "?T + unat k" ?A "ab_count b - unat k"]
      by (simp add: b'_def)
  qed
  have "length (ab_data b) = ?A * ?s" using inv by (simp add: ab_invar_def)
  then have "unat (ab_tail b') * ?s = (?T * ?s + unat k * ?s) mod length (ab_data b)"
    using T by (simp add: mod_mult_mult2 flip: add_mult_distrib)
  then show "ab_contents b' = drop (unat k * ?s) (ab_contents b)"
    by (simp add: ab_contents_def drop_ring_get n diff_mult_distrib) (simp add: b'_def)
qed

lemma advance_head:
  assumes inv: "ab_invar b" and k: "ab_count b + unat k < unat (alloc_size b)"
  defines "b' \<equiv> b\<lparr>ab_head := ab_advance b (ab_head b) k\<rparr>"
  shows "ab_invar b'" "ab_count b' = ab_count b + unat k"
    "ab_contents b' = ab_contents b @ ring_get (ab_data b) (unat (ab_head b) * sample_size b) (unat k * sample_size b)"
proof -
  let ?A = "unat (alloc_size b)"
  note c = count_eq(3,4) [OF inv]
  have H: "unat (ab_head b') = (unat (ab_head b) + unat k) mod ?A"
    using advance_eq [OF inv, of "ab_head b" k] inv k by (simp add: b'_def ab_invar_def)
  show i: "ab_invar b'" using inv H by (simp add: ab_invar_def b'_def)
  show n: "ab_count b' = ab_count b + unat k"
  proof (rule count_unique [OF i])
    show "ab_count b + unat k < unat (alloc_size b')" using k by (simp add: b'_def)
    have "(unat (ab_tail b) + ab_count b) mod ?A = unat (ab_head b)" by (rule c(2))
    then show "(unat (ab_tail b') + (ab_count b + unat k)) mod unat (alloc_size b') = unat (ab_head b')"
      using H by (simp add: b'_def) (metis add.assoc mod_add_left_eq)
  qed
  show "ab_contents b' = ab_contents b @ ring_get (ab_data b) (unat (ab_head b) * sample_size b) (unat k * sample_size b)"
    using head_position [OF inv]
    by (simp add: ab_contents_def n add_mult_distrib ring_get_append) (simp add: b'_def)
qed

text \<open>Copying into the free part changes nothing the reader can see.\<close>

lemma copy_in_invisible:
  assumes inv: "ab_invar b" and k: "ab_count b + k < unat (alloc_size b)"
    and xs: "length xs = k * sample_size b"
  defines "b' \<equiv> b\<lparr>ab_data := ring_put (ab_data b) (unat (ab_head b) * sample_size b) xs\<rparr>"
  shows "ab_invar b'" "ab_count b' = ab_count b" "ab_contents b' = ab_contents b"
    "ring_get (ab_data b') (unat (ab_head b) * sample_size b) (k * sample_size b) = xs"
proof -
  let ?A = "unat (alloc_size b)" and ?s = "sample_size b" and ?d = "ab_data b"
  let ?h = "unat (ab_head b) * ?s" and ?t = "unat (ab_tail b) * ?s" and ?c = "ab_count b * ?s"
  have b: "unat (ab_head b) < ?A" "length ?d = ?A * ?s" "0 < ?s" using inv by (simp_all add: ab_invar_def)
  have h: "?h < length ?d" using b by simp
  have ck: "?c + k * ?s \<le> length ?d"
    unfolding b(2) add_mult_distrib [symmetric] using k by (intro mult_le_mono1) simp
  then have lx: "length xs \<le> length ?d" using xs by simp
  note put = nth_ring_put [OF h lx]
  show "ab_invar b'" using inv h lx by (simp add: ab_invar_def b'_def)
  show n: "ab_count b' = ab_count b" by (simp add: ab_count_def b'_def)
  show "ab_contents b' = ab_contents b"
  proof (rule nth_equalityI)
    show "length (ab_contents b') = length (ab_contents b)" by (simp add: ab_contents_def n) (simp add: b'_def)
    fix i assume "i < length (ab_contents b')"
    then have i: "i < ?c" by (simp add: ab_contents_def n) (simp add: b'_def)
    let ?j = "length ?d - ?c + i"
    have "?t + ?c + ?j = ?t + i + length ?d" using ck by simp
    then have "(?t + i) mod length ?d = (?t + ?c + ?j) mod length ?d" by (simp only: mod_add_self2)
    also have "\<dots> = (?h + ?j) mod length ?d"
      using head_position [OF inv] by (metis mod_add_left_eq)
    finally have m: "(?t + i) mod length ?d = (?h + ?j) mod length ?d" .
    have "?j < length ?d" "\<not> ?j < length xs" using i ck xs by simp_all
    with put [of ?j] m have "ring_put ?d ?h xs ! ((?t + i) mod length ?d) = ?d ! ((?t + i) mod length ?d)"
      by simp
    then show "ab_contents b' ! i = ab_contents b ! i"
      using i h lx by (simp add: ab_contents_def n) (simp add: b'_def)
  qed
  show "ring_get (ab_data b') ?h (k * ?s) = xs"
    using put xs h lx by (intro nth_equalityI) (simp_all add: b'_def)
qed

section \<open>Reading and writing\<close>

lemma min_unat: "unat (min a b :: u32) = min (unat a) (unat b)"
  by (simp add: min_def word_le_nat_alt)

lemma read_spec:
  assumes inv: "ab_invar b" and n: "n \<noteq> 0"
  shows "\<exists>k b'. sc_audiobuf_read b to n =
      Some (k, if to then take (unat k * sample_size b) (ab_contents b) else [], b') \<and>
    unat k = min (unat n) (ab_count b) \<and> ab_invar b' \<and>
    ab_contents b' = drop (unat k * sample_size b) (ab_contents b)"
proof (cases "sc_audiobuf_can_read b = 0")
  case True
  then have "ab_count b = 0" using count_eq(1) [OF inv] by simp
  with True inv n show ?thesis by (simp add: sc_audiobuf_read_def)
next
  case False
  define k where "k = min n (sc_audiobuf_can_read b)"
  have k: "unat k = min (unat n) (ab_count b)" using count_eq(1) [OF inv] by (simp add: k_def min_unat)
  then have "unat k \<le> ab_count b" by simp
  with False n k advance_tail [OF inv this] copy_out_eq [OF inv this] show ?thesis
    by (simp add: sc_audiobuf_read_def flip: k_def)
qed

lemma write_spec:
  assumes inv: "ab_invar b" and src: "unat n * sample_size b \<le> length src"
  shows "\<exists>k b'. sc_audiobuf_write b src n = Some (k, b') \<and>
    unat k = min (unat n) (unat (alloc_size b) - 1 - ab_count b) \<and> ab_invar b' \<and>
    ab_contents b' = ab_contents b @ take (unat k * sample_size b) src"
proof (cases "ab_can_write b = 0")
  case True
  then have "unat (alloc_size b) - 1 - ab_count b = 0" using count_eq(2) [OF inv] by simp
  with True inv show ?thesis by (simp add: sc_audiobuf_write_def)
next
  case False
  define k where "k = min n (ab_can_write b)"
  have k: "unat k = min (unat n) (unat (alloc_size b) - 1 - ab_count b)"
    using count_eq(2) [OF inv] by (simp add: k_def min_unat)
  moreover have "0 < unat (alloc_size b)" using inv by (simp add: ab_invar_def)
  ultimately have room: "ab_count b + unat k < unat (alloc_size b)" using count_eq(3) [OF inv] by simp
  have "unat k * sample_size b \<le> unat n * sample_size b" using k by simp
  with src have ks: "unat k * sample_size b \<le> length src" by linarith
  define d where "d = ring_put (ab_data b) (unat (ab_head b) * sample_size b) (take (unat k * sample_size b) src)"
  note ci = copy_in_invisible [OF inv room, of "take (unat k * sample_size b) src", folded d_def]
  have "ab_copy_in b src k = Some d" using copy_in_eq [OF inv _ ks] room by (simp add: d_def)
  with False k show ?thesis
    using ci ks advance_head [of "b\<lparr>ab_data := d\<rparr>" k] room
    by (simp add: sc_audiobuf_write_def ab_advance_def flip: k_def)
qed

section \<open>One writer and one reader\<close>

text \<open>Where the two threads are in their call: the number of samples is fixed once the cursors are loaded;
  the writer then fills the array and publishes the head, the reader copies and publishes the tail.\<close>

datatype writer_pc = WIdle | WLoaded byte_buf u32 | WCopied byte_buf u32
datatype reader_pc = RIdle | RLoaded u32 | RCopied byte_buf u32

text \<open>\<open>written\<close> and \<open>got\<close> are the bytes published by the writer and returned to the reader so far.\<close>

record ab_sys =
  ab :: sc_audiobuf
  wpc :: writer_pc
  rpc :: reader_pc
  written :: byte_buf
  got :: byte_buf

datatype ab_event = WBegin byte_buf u32 | WCopy | WPublish | RBegin u32 | RCopy | RPublish

fun ab_step :: "ab_event \<Rightarrow> ab_sys \<Rightarrow> ab_sys option" where
  "ab_step (WBegin src n) y =
     (if wpc y = WIdle \<and> ab_can_write (ab y) \<noteq> 0
      then Some (y\<lparr>wpc := WLoaded src (min n (ab_can_write (ab y)))\<rparr>) else Some y)"
| "ab_step WCopy y =
     (case wpc y of
        WLoaded src k \<Rightarrow> do {
          d \<leftarrow> ab_copy_in (ab y) src k;
          Some (y\<lparr>ab := (ab y)\<lparr>ab_data := d\<rparr>, wpc := WCopied src k\<rparr>)
        }
      | _ \<Rightarrow> Some y)"
| "ab_step WPublish y =
     (case wpc y of
        WCopied src k \<Rightarrow>
          Some (y\<lparr>ab := (ab y)\<lparr>ab_head := ab_advance (ab y) (ab_head (ab y)) k\<rparr>, wpc := WIdle,
                  written := written y @ take (unat k * sample_size (ab y)) src\<rparr>)
      | _ \<Rightarrow> Some y)"
| "ab_step (RBegin n) y = do {
     c_assert (n \<noteq> 0);
     if rpc y = RIdle \<and> sc_audiobuf_can_read (ab y) \<noteq> 0
     then Some (y\<lparr>rpc := RLoaded (min n (sc_audiobuf_can_read (ab y)))\<rparr>) else Some y
   }"
| "ab_step RCopy y =
     (case rpc y of
        RLoaded k \<Rightarrow> do {
          bytes \<leftarrow> ab_copy_out (ab y) k;
          Some (y\<lparr>rpc := RCopied bytes k\<rparr>)
        }
      | _ \<Rightarrow> Some y)"
| "ab_step RPublish y =
     (case rpc y of
        RCopied bytes k \<Rightarrow>
          Some (y\<lparr>ab := (ab y)\<lparr>ab_tail := ab_advance (ab y) (ab_tail (ab y)) k\<rparr>, rpc := RIdle,
                  got := got y @ bytes\<rparr>)
      | _ \<Rightarrow> Some y)"

text \<open>A write names a source of enough bytes, a read asks for at least one sample.\<close>

fun ab_good :: "ab_sys \<Rightarrow> ab_event \<Rightarrow> bool" where
  "ab_good y (WBegin src n) \<longleftrightarrow> unat n * sample_size (ab y) \<le> length src"
| "ab_good y (RBegin n) \<longleftrightarrow> n \<noteq> 0"
| "ab_good y _ \<longleftrightarrow> True"

inductive ab_reach :: "ab_sys \<Rightarrow> bool" where
  start: "sc_audiobuf_init ss capacity (Some block) = Some (Some b) \<Longrightarrow> capacity < 2 ^ 31 \<Longrightarrow>
    length block = (unat capacity + 1) * ss \<Longrightarrow>
    ab_reach \<lparr>ab = b, wpc = WIdle, rpc = RIdle, written = [], got = []\<rparr>"
| step: "ab_reach y \<Longrightarrow> ab_good y e \<Longrightarrow> ab_step e y = Some y' \<Longrightarrow> ab_reach y'"

fun writer_ok :: "writer_pc \<Rightarrow> sc_audiobuf \<Rightarrow> bool" where
  "writer_ok WIdle b \<longleftrightarrow> True"
| "writer_ok (WLoaded src k) b \<longleftrightarrow>
     unat k * sample_size b \<le> length src \<and> ab_count b + unat k < unat (alloc_size b)"
| "writer_ok (WCopied src k) b \<longleftrightarrow>
     unat k * sample_size b \<le> length src \<and> ab_count b + unat k < unat (alloc_size b) \<and>
     ring_get (ab_data b) (unat (ab_head b) * sample_size b) (unat k * sample_size b) =
       take (unat k * sample_size b) src"

fun reader_ok :: "reader_pc \<Rightarrow> sc_audiobuf \<Rightarrow> bool" where
  "reader_ok RIdle b \<longleftrightarrow> True"
| "reader_ok (RLoaded k) b \<longleftrightarrow> unat k \<le> ab_count b"
| "reader_ok (RCopied bytes k) b \<longleftrightarrow>
     unat k \<le> ab_count b \<and> bytes = take (unat k * sample_size b) (ab_contents b)"

definition ab_sys_inv :: "ab_sys \<Rightarrow> bool" where
  "ab_sys_inv y \<longleftrightarrow> ab_invar (ab y) \<and> written y = got y @ ab_contents (ab y) \<and>
     writer_ok (wpc y) (ab y) \<and> reader_ok (rpc y) (ab y)"

lemma audiobuf_init_inv:
  assumes "sc_audiobuf_init ss capacity (Some block) = Some (Some b)" "capacity < 2 ^ 31"
    "length block = (unat capacity + 1) * ss"
  shows "ab_invar b \<and> ab_contents b = []"
proof -
  have "unat capacity < 2 ^ 31" using assms(2) by (simp add: word_less_nat_alt)
  then have "unat (capacity + 1) = unat capacity + 1" by (simp add: unat_word_ariths)
  moreover from \<open>unat capacity < 2 ^ 31\<close> have "unat capacity + 1 \<le> 2 ^ 31" by simp
  ultimately show ?thesis
    using assms(1,3)
    by (auto simp: sc_audiobuf_init_def ab_invar_def ab_contents_def ab_count_def bind_Some_iff ring_get_def)
qed

text \<open>The reader's moves keep what the writer relies on, and conversely.\<close>

lemma writer_step:
  assumes inv: "ab_sys_inv y" and e: "e \<in> {WBegin src n, WCopy, WPublish}" "ab_good y e"
  shows "\<exists>y'. ab_step e y = Some y' \<and> ab_sys_inv y'"
proof -
  let ?b = "ab y" and ?s = "sample_size (ab y)"
  have b: "ab_invar ?b" "written y = got y @ ab_contents ?b" "writer_ok (wpc y) ?b" "reader_ok (rpc y) ?b"
    using inv by (simp_all add: ab_sys_inv_def)
  from e(1) consider "e = WBegin src n" | src k where "e = WCopy" "wpc y = WLoaded src k"
    | src k where "e = WPublish" "wpc y = WCopied src k" | "ab_step e y = Some y"
    by (cases "wpc y") auto
  then show ?thesis
  proof cases
    case 1
    let ?k = "min n (ab_can_write ?b)"
    have "unat ?k \<le> unat n" "unat ?k \<le> unat (alloc_size ?b) - 1 - ab_count ?b"
      using count_eq(2) [OF b(1)] by (simp_all add: min_unat)
    moreover from this(1) have "unat ?k * ?s \<le> unat n * ?s" by (rule mult_le_mono1)
    then have "unat ?k * ?s \<le> length src" using e(2) 1 by (simp only: ab_good.simps)
    ultimately have "writer_ok (WLoaded src ?k) ?b"
      using count_eq(3) [OF b(1)] by simp
    with 1 inv show ?thesis by (simp add: ab_sys_inv_def)
  next
    case 2
    with b(3) have w: "unat k * ?s \<le> length src" "ab_count ?b + unat k < unat (alloc_size ?b)" by simp_all
    define d where "d = ring_put (ab_data ?b) (unat (ab_head ?b) * ?s) (take (unat k * ?s) src)"
    have "ab_copy_in ?b src k = Some d" using copy_in_eq [OF b(1) _ w(1)] w(2) by (simp add: d_def)
    moreover note ci = copy_in_invisible [OF b(1) w(2), of "take (unat k * ?s) src", folded d_def]
    have "reader_ok (rpc y) (?b\<lparr>ab_data := d\<rparr>)" using b(4) ci w(1) by (cases "rpc y") simp_all
    ultimately show ?thesis using 2 b ci w by (simp add: ab_sys_inv_def)
  next
    case 3
    with b(3) have w: "ab_count ?b + unat k < unat (alloc_size ?b)"
      "ring_get (ab_data ?b) (unat (ab_head ?b) * ?s) (unat k * ?s) = take (unat k * ?s) src" by simp_all
    note ah = advance_head [OF b(1) w(1)]
    have "reader_ok (rpc y) (?b\<lparr>ab_head := ab_advance ?b (ab_head ?b) k\<rparr>)"
      using b(4) ah by (cases "rpc y") (simp_all add: ab_contents_def [of "ab y"])
    with 3 b ah w(2) show ?thesis by (simp add: ab_sys_inv_def)
  qed (use inv in auto)
qed

lemma reader_step:
  assumes inv: "ab_sys_inv y" and e: "e \<in> {RBegin n, RCopy, RPublish}" "ab_good y e"
  shows "\<exists>y'. ab_step e y = Some y' \<and> ab_sys_inv y'"
proof -
  let ?b = "ab y" and ?s = "sample_size (ab y)"
  have b: "ab_invar ?b" "written y = got y @ ab_contents ?b" "writer_ok (wpc y) ?b" "reader_ok (rpc y) ?b"
    using inv by (simp_all add: ab_sys_inv_def)
  from e consider "e = RBegin n" "n \<noteq> 0" | k where "e = RCopy" "rpc y = RLoaded k"
    | bytes k where "e = RPublish" "rpc y = RCopied bytes k" | "ab_step e y = Some y"
    by (cases "rpc y") auto
  then show ?thesis
  proof cases
    case 1
    with inv count_eq(1) [OF b(1)] show ?thesis by (simp add: ab_sys_inv_def min_unat)
  next
    case 2
    with b copy_out_eq [OF b(1), of k] show ?thesis by (simp add: ab_sys_inv_def)
  next
    case 3
    with b(4) have r: "unat k \<le> ab_count ?b" "bytes = take (unat k * ?s) (ab_contents ?b)" by simp_all
    note at = advance_tail [OF b(1) r(1)]
    have "writer_ok (wpc y) (?b\<lparr>ab_tail := ab_advance ?b (ab_tail ?b) k\<rparr>)"
      using b(3) at(2) by (cases "wpc y") auto
    with 3 b at r(2) show ?thesis by (simp add: ab_sys_inv_def)
  qed (use inv in auto)
qed

lemma ab_step_inv:
  assumes "ab_sys_inv y" "ab_good y e"
  shows "\<exists>y'. ab_step e y = Some y' \<and> ab_sys_inv y'"
  using writer_step [OF assms(1), of e] reader_step [OF assms(1), of e] assms(2) by (cases e) blast+

lemma ab_reach_inv: "ab_reach y \<Longrightarrow> ab_sys_inv y"
proof (induction rule: ab_reach.induct)
  case (start ss capacity block b)
  with audiobuf_init_inv [OF start] show ?case by (simp add: ab_sys_inv_def)
next
  case (step y e y')
  with ab_step_inv [OF step.IH step.hyps(2)] show ?case by auto
qed

section \<open>Properties\<close>

text \<open>C39. The lock-free ring buffer is correct for one writer and one reader: however the steps of their
  calls interleave, no step reads or writes outside the array or fails an assertion, and the bytes the
  reader has received are exactly a prefix of the bytes the writer has published, the rest being what
  the buffer holds.\<close>

theorem audiobuf_spsc:
  assumes "ab_reach y" "ab_good y e"
  shows "(\<exists>y'. ab_step e y = Some y' \<and> ab_reach y') \<and> written y = got y @ ab_contents (ab y)"
  using ab_step_inv [OF ab_reach_inv [OF assms(1)] assms(2)] ab_reach.step [OF assms]
    ab_reach_inv [OF assms(1)] by (auto simp: ab_sys_inv_def)

theorem audiobuf_spsc_witness:
  "\<exists>b. sc_audiobuf_init 2 3 (Some (replicate 8 0)) = Some (Some b) \<and>
     (\<exists>y'. ab_step (WBegin [1, 2, 3, 4] 2) \<lparr>ab = b, wpc = WIdle, rpc = RIdle, written = [], got = []\<rparr> = Some y' \<and>
           ab_reach y')"
proof -
  obtain b where b: "sc_audiobuf_init 2 3 (Some (replicate 8 0)) = Some (Some b)" "sample_size b = 2"
    by (simp add: sc_audiobuf_init_def)
  have r: "ab_reach \<lparr>ab = b, wpc = WIdle, rpc = RIdle, written = [], got = []\<rparr>"
    by (rule ab_reach.start [OF b(1)]) simp_all
  from audiobuf_spsc [OF r, of "WBegin [1, 2, 3, 4] 2"] b show ?thesis by simp
qed

text \<open>A complete write and a complete read: the write accepts as many samples as asked for and as fit,
  and appends their bytes; the read returns as many as asked for and as there are, the oldest first, and
  removes them.\<close>

theorem audiobuf_write_read:
  assumes "ab_invar b" "unat n * sample_size b \<le> length src" "m \<noteq> 0"
  shows "(\<exists>k b'. sc_audiobuf_write b src n = Some (k, b') \<and> ab_invar b' \<and>
            unat k = min (unat n) (unat (alloc_size b) - 1 - ab_count b) \<and>
            ab_contents b' = ab_contents b @ take (unat k * sample_size b) src) \<and>
         (\<exists>k b'. sc_audiobuf_read b True m = Some (k, take (unat k * sample_size b) (ab_contents b), b') \<and>
            ab_invar b' \<and> unat k = min (unat m) (ab_count b) \<and>
            ab_contents b' = drop (unat k * sample_size b) (ab_contents b))"
  using read_spec [OF assms(1,3), of True] write_spec [OF assms(1,2)] by auto

theorem audiobuf_write_read_witness:
  "\<exists>k b'. sc_audiobuf_write \<lparr>ab_data = replicate 8 0, alloc_size = 4, sample_size = 2, ab_head = 3, ab_tail = 3\<rparr>
            [1, 2, 3, 4] 2 = Some (k, b') \<and> unat k = 2 \<and> ab_contents b' = [1, 2, 3, 4]"
proof -
  let ?b = "\<lparr>ab_data = replicate 8 0, alloc_size = 4, sample_size = 2, ab_head = 3, ab_tail = 3\<rparr>"
  have b: "ab_invar ?b" "ab_count ?b = 0" by (simp_all add: ab_invar_def ab_count_def)
  then have "ab_contents ?b = []" by (simp add: ab_contents_def ring_get_def)
  with audiobuf_write_read [OF b(1), of 2 "[1, 2, 3, 4]" 1] b(2) show ?thesis by auto
qed

end
