(* ===== verification/AudioRegulator.thy ===== *)
theory AudioRegulator
  imports Regulator Audiobuf
begin

text \<open>
  \<^verbatim>\<open>app/src/audio_regulator.c\<close> and the callback of \<^verbatim>\<open>app/src/audio_player.c\<close>: the decoder pushes audio frames,
  the player pulls samples, and in between the regulator keeps the buffering around its target by resampling, silence
  and dropping. The resampler of FFmpeg is a parameter: what it answers is part of the input of a push, and the
  compensations it is asked for are part of the result. A pull may happen at the two points of a push where the
  buffer is used without the lock; the other steps of a push and of a pull are atomic (the overlap of one read and one write
  of the buffer is in theory \<open>Audiobuf\<close>). \<open>rnd\<close> is the rounding of the float operations.
\<close>

section \<open>State and operations\<close>

record sc_audio_regulator =
  ar_target :: u32
  ar_buf :: sc_audiobuf
  ar_rate :: u32
  ar_sample_size :: nat
  swr_buf_alloc_size :: nat
  ar_avg :: sc_average
  samples_since_resync :: u32
  ar_underflow :: u32
  underflow_report :: u32
  compensation_active :: bool
  ar_received :: bool
  ar_played :: bool
  next_expected_pts :: int

datatype swr_call = swr_set_compensation int int

text \<open>The flags are the success of the calls of the initialisation, in order, with the memory of the ring buffer.\<close>

definition sc_audio_regulator_init ::
  "bool \<Rightarrow> bool \<Rightarrow> bool \<Rightarrow> byte_buf option \<Rightarrow> bool \<Rightarrow> nat \<Rightarrow> u32 \<Rightarrow> u32 \<Rightarrow> sc_audio_regulator option option" where
  "sc_audio_regulator_init swr_ok swr_init_ok mutex_ok block malloc_ok ss rate target =
     (if \<not> swr_ok \<or> \<not> swr_init_ok \<or> \<not> mutex_ok then Some None
      else do {
        buf \<leftarrow> sc_audiobuf_init ss (target + rate) block;
        case buf of
          None \<Rightarrow> Some None
        | Some b \<Rightarrow>
            if \<not> malloc_ok then Some None
            else Some (Some \<lparr>ar_target = target, ar_buf = b, ar_rate = rate, ar_sample_size = ss,
              swr_buf_alloc_size = sc_audiobuf_to_bytes b 4096, ar_avg = sc_average_init 128,
              samples_since_resync = 0, ar_underflow = 0, underflow_report = 0, compensation_active = False,
              ar_received = False, ar_played = False, next_expected_pts = 0\<rparr>)
      })"

text \<open>The bytes are those left in \<^verbatim>\<open>out\<close>.\<close>

definition sc_audio_regulator_pull :: "u32 \<Rightarrow> sc_audio_regulator \<Rightarrow> (byte_buf \<times> sc_audio_regulator) option" where
  "sc_audio_regulator_pull out_samples ar =
     (if \<not> ar_played ar \<and> sc_audiobuf_can_read (ar_buf ar) < ar_target ar
      then Some (replicate (unat out_samples * ar_sample_size ar) 0, ar)
      else do {
        (k, bytes, b) \<leftarrow> sc_audiobuf_read (ar_buf ar) True out_samples;
        let ar = ar\<lparr>ar_buf := b\<rparr>;
        let silence = out_samples - k;
        let out = bytes @ (if k < out_samples then replicate (sc_audiobuf_to_bytes b silence) 0 else []);
        let underflow = (if k < out_samples \<and> ar_received ar then ar_underflow ar + silence else ar_underflow ar);
        Some (out, ar\<lparr>ar_underflow := underflow, ar_played := True\<rparr>)
      })"

definition sc_audio_regulator_get_swr_buf :: "bool \<Rightarrow> u32 \<Rightarrow> sc_audio_regulator \<Rightarrow> bool \<times> sc_audio_regulator" where
  "sc_audio_regulator_get_swr_buf alloc_ok min_samples ar =
     (let min_buf_size = sc_audiobuf_to_bytes (ar_buf ar) min_samples in
      if min_buf_size > swr_buf_alloc_size ar then
        (if \<not> alloc_ok then (False, ar) else (True, ar\<lparr>swr_buf_alloc_size := min_buf_size + 4096\<rparr>))
      else (True, ar))"

text \<open>A push, in parts. First the discontinuities; \<open>reset_ret\<close> is what \<^verbatim>\<open>swr_set_compensation\<close> returns when the compensation is
  disabled.\<close>

definition ar_discontinuity ::
  "(rat \<Rightarrow> rat) \<Rightarrow> int \<Rightarrow> int \<Rightarrow> u32 \<Rightarrow> sc_audio_regulator \<Rightarrow> (swr_call list \<times> sc_audio_regulator) option" where
  "ar_discontinuity rnd reset_ret pts input_samples ar =
     (if next_expected_pts ar \<noteq> 0 \<and> pts - next_expected_pts ar > 100000 then do {
        let can_read = sc_audiobuf_can_read (ar_buf ar);
        (k, b) \<leftarrow> (if input_samples + can_read < ar_target ar
                  then sc_audiobuf_write_silence (ar_buf ar) (ar_target ar - can_read - input_samples)
                  else Some (0, ar_buf ar));
        c_assert (reset_ret = 0);
        Some ([swr_set_compensation 0 0],
          ar\<lparr>ar_buf := b, ar_avg := (ar_avg ar)\<lparr>av_avg := rnd (of_nat (unat (ar_target ar)))\<rparr>,
             compensation_active := False, samples_since_resync := 0, ar_underflow := 0\<rparr>)
      } else Some ([], ar))"

text \<open>The player may read \<open>n1\<close> samples before the lock is taken and \<open>n2\<close> after it is released. The
  result is \<^verbatim>\<open>written\<close>, \<^verbatim>\<open>skipped_samples\<close>, what the player took, and the buffer.\<close>

definition player_reads :: "u32 \<Rightarrow> sc_audiobuf \<Rightarrow> (byte_buf \<times> sc_audiobuf) option" where
  "player_reads n b = (if n = 0 then Some ([], b) else map_option snd (sc_audiobuf_read b True n))"

text \<open>When the buffer is still full with the lock, the oldest samples have to go; \<open>w\<close> samples were written.\<close>

definition ar_make_room ::
  "u32 \<Rightarrow> byte_buf \<Rightarrow> u32 \<Rightarrow> u32 \<Rightarrow> sc_audiobuf \<Rightarrow> (u32 \<times> byte_buf \<times> sc_audiobuf) option" where
  "ar_make_room n2 swr_buf samples w b = do {
     let remaining = samples - w;
     (skipped_samples, _, b) \<leftarrow> sc_audiobuf_read b False remaining;
     c_assert (skipped_samples = remaining);
     (t2, b) \<leftarrow> player_reads n2 b;
     (k, b) \<leftarrow> sc_audiobuf_write b (drop (sc_audiobuf_to_bytes b w) swr_buf) remaining;
     c_assert (k = remaining);
     Some (skipped_samples, t2, b)
   }"

text \<open>Only \<open>w1\<close> samples could be written without the lock.\<close>

definition ar_retry ::
  "u32 \<Rightarrow> u32 \<Rightarrow> byte_buf \<Rightarrow> u32 \<Rightarrow> u32 \<Rightarrow> sc_audiobuf \<Rightarrow> (u32 \<times> u32 \<times> byte_buf \<times> sc_audiobuf) option" where
  "ar_retry n1 n2 swr_buf samples w1 b = do {
     (t1, b) \<leftarrow> player_reads n1 b;
     (w2, b) \<leftarrow> sc_audiobuf_write b (drop (sc_audiobuf_to_bytes b w1) swr_buf) (samples - w1);
     if w1 + w2 < samples then do {
       (skipped_samples, t2, b) \<leftarrow> ar_make_room n2 swr_buf samples (w1 + w2) b;
       Some (w1 + w2, skipped_samples, t1 @ t2, b)
     } else Some (w1 + w2, 0, t1, b)
   }"

definition ar_store ::
  "u32 \<Rightarrow> u32 \<Rightarrow> byte_buf \<Rightarrow> u32 \<Rightarrow> sc_audiobuf \<Rightarrow> (u32 \<times> u32 \<times> byte_buf \<times> sc_audiobuf) option" where
  "ar_store n1 n2 swr_buf samples b = do {
     (w1, b) \<leftarrow> sc_audiobuf_write b swr_buf samples;
     if w1 < samples then ar_retry n1 n2 swr_buf samples w1 b else Some (w1, 0, [], b)
   }"

definition max_buffered_samples :: "bool \<Rightarrow> sc_audio_regulator \<Rightarrow> u32" where
  "max_buffered_samples played ar =
     (if played then ar_target ar * 11 div 10 + 60 * ar_rate ar div 1000
      else ar_target ar + 10 * ar_rate ar div 1000)"

text \<open>The result is the value of \<^verbatim>\<open>can_read\<close>, the samples skipped here and the buffer.\<close>

definition ar_skip :: "u32 \<Rightarrow> sc_audiobuf \<Rightarrow> (u32 \<times> u32 \<times> sc_audiobuf) option" where
  "ar_skip max_buffered b =
     (let can_read = sc_audiobuf_can_read b in
      if can_read > max_buffered then do {
        let skip_samples = can_read - max_buffered;
        (r, _, b) \<leftarrow> sc_audiobuf_read b False skip_samples;
        c_assert (r = skip_samples);
        Some (can_read, skip_samples, b)
      } else Some (can_read, 0, b))"

definition compensation_diff :: "(rat \<Rightarrow> rat) \<Rightarrow> u32 \<Rightarrow> sc_audio_regulator \<Rightarrow> rat \<Rightarrow> int" where
  "compensation_diff rnd can_read ar avg =
     (let x = rnd (rnd (of_nat (unat (ar_target ar))) - avg);
          diff = (if x < 0 then \<lceil>x\<rceil> else \<lfloor>x\<rfloor>);
          threshold = uint (if compensation_active ar then ar_rate ar div 1000 else ar_rate ar * 4 div 1000);
          diff = (if \<bar>diff\<bar> < threshold then 0 else if diff < 0 \<and> can_read < ar_target ar then 0 else diff);
          abs_max_diff = sint (4 * ar_rate ar) sdiv 50
      in max (- abs_max_diff) (min abs_max_diff diff))"

definition ar_compensate ::
  "(rat \<Rightarrow> rat) \<Rightarrow> bool \<Rightarrow> u32 \<Rightarrow> sc_audio_regulator \<Rightarrow> (swr_call list \<times> sc_audio_regulator) option" where
  "ar_compensate rnd comp_ok can_read ar =
     (if samples_since_resync ar \<ge> ar_rate ar then do {
        avg \<leftarrow> sc_average_get (ar_avg ar);
        let diff = compensation_diff rnd can_read ar avg;
        Some ([swr_set_compensation diff (sint (4 * ar_rate ar))],
          ar\<lparr>samples_since_resync := 0, underflow_report := 0,
             compensation_active := (if comp_ok then diff \<noteq> 0 else compensation_active ar)\<rparr>)
      } else Some ([], ar))"

text \<open>The correction of the average: \<open>uint32_t\<close> differences read as \<open>int32_t\<close>.\<close>

definition ar_adjust_average ::
  "(rat \<Rightarrow> rat) \<Rightarrow> u32 \<Rightarrow> u32 \<Rightarrow> u32 \<Rightarrow> u32 \<Rightarrow> u32 \<Rightarrow> sc_average \<Rightarrow> sc_average option" where
  "ar_adjust_average rnd w input_samples underflow skipped_samples can_read a =
     (let avg = rnd (av_avg a + rnd (of_int (sint (w - input_samples) + sint underflow - sint skipped_samples))) in
      sc_average_push rnd (rnd (of_nat (unat can_read))) (a\<lparr>av_avg := (if avg < 0 then 0 else avg)\<rparr>))"

text \<open>An input of the regulator: the frame, and what FFmpeg answers. \<open>in_converted\<close> is what \<^verbatim>\<open>swr_convert\<close> wrote.\<close>

record audio_input =
  in_pts :: int
  in_samples :: u32
  in_swr_delay :: int
  in_alloc_ok :: bool
  in_swr_ret :: int
  in_converted :: byte_buf
  in_reset_ret :: int
  in_comp_ok :: bool
  in_reads1 :: u32
  in_reads2 :: u32

definition in_dst_samples :: "audio_input \<Rightarrow> int" where
  "in_dst_samples i = in_swr_delay i + uint (in_samples i) + 256"

text \<open>The end of a push: \<open>w\<close> and \<open>skipped\<close> are \<^verbatim>\<open>written\<close> and \<^verbatim>\<open>skipped_samples\<close>.\<close>

definition ar_account ::
  "(rat \<Rightarrow> rat) \<Rightarrow> audio_input \<Rightarrow> u32 \<Rightarrow> u32 \<Rightarrow> sc_audio_regulator \<Rightarrow> (swr_call list \<times> sc_audio_regulator) option" where
  "ar_account rnd i w skipped ar = do {
     let played = ar_played ar;
     let underflow = (if played then ar_underflow ar else 0);
     (can_read, skip_samples, b) \<leftarrow> ar_skip (max_buffered_samples played ar) (ar_buf ar);
     let ar = ar\<lparr>ar_buf := b, ar_underflow := (if played then 0 else ar_underflow ar),
                 underflow_report := underflow_report ar + underflow, ar_received := True\<rparr>;
     if \<not> played then Some ([], ar)
     else do {
       avg \<leftarrow> ar_adjust_average rnd w (in_samples i) underflow (skipped + skip_samples) can_read (ar_avg ar);
       ar_compensate rnd (in_comp_ok i) can_read (ar\<lparr>ar_avg := avg, samples_since_resync := samples_since_resync ar + w\<rparr>)
     }
   }"

text \<open>After the conversion.\<close>

definition ar_push_converted ::
  "(rat \<Rightarrow> rat) \<Rightarrow> audio_input \<Rightarrow> sc_audio_regulator \<Rightarrow> (swr_call list \<times> byte_buf \<times> sc_audio_regulator) option" where
  "ar_push_converted rnd i ar = do {
     let samples = word_of_int (min (in_swr_ret i) (in_dst_samples i));
     cap \<leftarrow> sc_audiobuf_capacity (ar_buf ar);
     let swr_buf = (if samples > cap then drop (sc_audiobuf_to_bytes (ar_buf ar) (samples - cap)) (in_converted i) else in_converted i);
     let samples = min samples cap;
     (w, skipped, taken, b) \<leftarrow> ar_store (in_reads1 i) (in_reads2 i) swr_buf samples (ar_buf ar);
     (cs, ar) \<leftarrow> ar_account rnd i w skipped (ar\<lparr>ar_buf := b\<rparr>);
     Some (cs, taken, ar)
   }"

definition sc_audio_regulator_push ::
  "(rat \<Rightarrow> rat) \<Rightarrow> audio_input \<Rightarrow> sc_audio_regulator \<Rightarrow> (bool \<times> swr_call list \<times> byte_buf \<times> sc_audio_regulator) option" where
  "sc_audio_regulator_push rnd i ar = do {
     c_assert (in_pts i \<ge> 0);
     (cs, ar) \<leftarrow> ar_discontinuity rnd (in_reset_ret i) (in_pts i) (in_samples i) ar;
     c_assert (ar_rate ar \<noteq> 0);
     let ar = ar\<lparr>next_expected_pts := in_pts i + uint (in_samples i) * 1000000 div uint (ar_rate ar)\<rparr>;
     let (ok, ar) = sc_audio_regulator_get_swr_buf (in_alloc_ok i) (word_of_int (in_dst_samples i)) ar;
     if \<not> ok then Some (False, cs, [], ar)
     else do {
       c_assert (length (in_converted i) \<le> swr_buf_alloc_size ar);
       if in_swr_ret i < 0 then Some (False, cs, [], ar)
       else do {
         (cs', taken, ar) \<leftarrow> ar_push_converted rnd i ar;
         Some (True, cs @ cs', taken, ar)
       }
     }
   }"

section \<open>The audio player\<close>

text \<open>The callback asks for \<open>len\<close> bytes, by chunks of its buffer. \<open>put_ok\<close> tells for each chunk whether the stream
  takes it (a chunk beyond the list is taken). The result is the list of chunks.\<close>

function audio_player_chunks ::
  "nat \<Rightarrow> nat \<Rightarrow> bool list \<Rightarrow> sc_audio_regulator \<Rightarrow> (byte_buf list \<times> sc_audio_regulator) option" where
  "audio_player_chunks aout_buffer_size len put_ok ar =
     (if len = 0 then Some ([], ar)
      else if aout_buffer_size = 0 then None
      else do {
        let chunk_size = min aout_buffer_size len;
        (out, ar) \<leftarrow> sc_audio_regulator_pull (of_nat (chunk_size div ar_sample_size ar)) ar;
        c_assert (length out \<le> aout_buffer_size);
        if put_ok \<noteq> [] \<and> \<not> hd put_ok then Some ([out], ar)
        else do {
          (outs, ar) \<leftarrow> audio_player_chunks aout_buffer_size (len - chunk_size) (tl put_ok) ar;
          Some (out # outs, ar)
        }
      })"
  by pat_completeness auto
termination by (relation "measure (\<lambda>(a, len, p, ar). len)") auto

declare audio_player_chunks.simps [simp del]

record sc_audio_player =
  target_buffering_delay :: int
  output_buffer_duration :: int
  aout_buffer_size :: nat
  audioreg :: sc_audio_regulator

definition sc_audio_player_stream_callback ::
  "nat \<Rightarrow> bool list \<Rightarrow> sc_audio_player \<Rightarrow> (byte_buf list \<times> sc_audio_player) option" where
  "sc_audio_player_stream_callback additional_amount put_ok ap = do {
     c_assert (additional_amount mod ar_sample_size (audioreg ap) = 0);
     (outs, ar) \<leftarrow> audio_player_chunks (aout_buffer_size ap) additional_amount put_ok (audioreg ap);
     Some (outs, ap\<lparr>audioreg := ar\<rparr>)
   }"

definition sc_audio_player_init :: "int \<Rightarrow> int \<Rightarrow> sc_audio_player \<Rightarrow> sc_audio_player" where
  "sc_audio_player_init target_buffering duration ap =
     ap\<lparr>target_buffering_delay := target_buffering, output_buffer_duration := duration\<rparr>"

definition sc_audio_player_frame_sink_push ::
  "(rat \<Rightarrow> rat) \<Rightarrow> audio_input \<Rightarrow> sc_audio_player \<Rightarrow> (bool \<times> sc_audio_player) option" where
  "sc_audio_player_frame_sink_push rnd i ap = do {
     (ok, cs, taken, ar) \<leftarrow> sc_audio_regulator_push rnd i (audioreg ap);
     Some (ok, ap\<lparr>audioreg := ar\<rparr>)
   }"

text \<open>What the opening of the player depends on: the stream, and the success of the calls to FFmpeg, SDL and the
  allocator, in order.\<close>

record audio_open_env =
  ao_nb_channels :: int
  ao_sample_rate :: int
  ao_bytes_per_sample :: int
  ao_swr_alloc_ok :: bool
  ao_swr_init_ok :: bool
  ao_mutex_ok :: bool
  ao_block :: "byte_buf option"
  ao_swr_buf_ok :: bool
  ao_hint_ok :: bool
  ao_aout_ok :: bool
  ao_stream_ok :: bool
  ao_resume_ok :: bool

definition sc_audio_player_frame_sink_open :: "audio_open_env \<Rightarrow> sc_audio_player \<Rightarrow> (bool \<times> sc_audio_player) option" where
  "sc_audio_player_frame_sink_open e ap = do {
     c_assert (0 < ao_nb_channels e \<and> ao_nb_channels e < 256);
     c_assert (0 < ao_sample_rate e);
     c_assert (0 < ao_bytes_per_sample e);
     let target_buffering_samples = word_of_int (target_buffering_delay ap * ao_sample_rate e sdiv 1000000);
     let ss = nat (ao_nb_channels e * ao_bytes_per_sample e);
     r \<leftarrow> sc_audio_regulator_init (ao_swr_alloc_ok e) (ao_swr_init_ok e) (ao_mutex_ok e) (ao_block e) (ao_swr_buf_ok e)
           ss (word_of_int (ao_sample_rate e)) target_buffering_samples;
     case r of
       None \<Rightarrow> Some (False, ap)
     | Some ar \<Rightarrow> do {
         let aout_samples = output_buffer_duration ap * ao_sample_rate e sdiv 1000000;
         c_assert (0 \<le> aout_samples \<and> aout_samples \<le> 0xFFFF);
         if \<not> ao_hint_ok e then Some (False, ap\<lparr>audioreg := ar\<rparr>)
         else do {
           let ap = ap\<lparr>audioreg := ar, aout_buffer_size := nat (max 1024 aout_samples) * ss\<rparr>;
           Some (ao_aout_ok e \<and> ao_stream_ok e \<and> ao_resume_ok e, ap)
         }
       }
   }"

section \<open>The ring buffer seen from the regulator\<close>

definition same_shape :: "sc_audiobuf \<Rightarrow> sc_audiobuf \<Rightarrow> bool" where
  "same_shape b b' \<longleftrightarrow> alloc_size b' = alloc_size b \<and> sample_size b' = sample_size b"

lemma same_shape_trans: "same_shape a b \<Longrightarrow> same_shape b c \<Longrightarrow> same_shape a c"
  by (simp add: same_shape_def)

lemma same_shape_refl [simp]: "same_shape b b"
  by (simp add: same_shape_def)

lemma length_ab_contents [simp]: "length (ab_contents b) = ab_count b * sample_size b"
  by (simp add: ab_contents_def)

lemma count_from_contents:
  assumes "ab_invar b" "length (ab_contents b) = n * sample_size b"
  shows "ab_count b = n"
  using assms by (simp add: ab_invar_def)

lemma write_shape: "sc_audiobuf_write b src n = Some (k, b') \<Longrightarrow> same_shape b b'"
  by (auto simp: sc_audiobuf_write_def Let_def same_shape_def bind_eq_Some_conv split: if_splits)

lemma read_shape: "sc_audiobuf_read b to n = Some (k, bytes, b') \<Longrightarrow> same_shape b b'"
  by (auto simp: sc_audiobuf_read_def Let_def same_shape_def bind_eq_Some_conv split: if_splits)

lemma write_obtain:
  assumes "ab_invar b" "unat n * sample_size b \<le> length src"
  obtains k b' where "sc_audiobuf_write b src n = Some (k, b')" "ab_invar b'" "same_shape b b'"
    "unat k = min (unat n) (unat (alloc_size b) - 1 - ab_count b)" "ab_count b' = ab_count b + unat k"
    "ab_contents b' = ab_contents b @ take (unat k * sample_size b) src"
proof -
  obtain k b' where w: "sc_audiobuf_write b src n = Some (k, b')" "ab_invar b'"
    "unat k = min (unat n) (unat (alloc_size b) - 1 - ab_count b)"
    "ab_contents b' = ab_contents b @ take (unat k * sample_size b) src"
    using write_spec [OF assms] by blast
  have sh: "same_shape b b'" using w(1) by (rule write_shape)
  have "unat k * sample_size b \<le> unat n * sample_size b" using w(3) by simp
  with assms(2) have "unat k * sample_size b \<le> length src" by linarith
  then have "length (ab_contents b') = (ab_count b + unat k) * sample_size b'"
    using sh unfolding w(4) by (simp add: same_shape_def add_mult_distrib min_absorb2)
  from that [OF w(1,2) sh w(3) count_from_contents [OF w(2) this] w(4)] show thesis .
qed

lemma read_obtain:
  assumes "ab_invar b" "n \<noteq> 0"
  obtains k b' where "sc_audiobuf_read b to n = Some (k, if to then take (unat k * sample_size b) (ab_contents b) else [], b')"
    "ab_invar b'" "same_shape b b'" "unat k = min (unat n) (ab_count b)" "ab_count b' = ab_count b - unat k"
    "ab_contents b' = drop (unat k * sample_size b) (ab_contents b)"
proof -
  obtain k b' where r: "sc_audiobuf_read b to n = Some (k, if to then take (unat k * sample_size b) (ab_contents b) else [], b')"
    "ab_invar b'" "unat k = min (unat n) (ab_count b)"
    "ab_contents b' = drop (unat k * sample_size b) (ab_contents b)"
    using read_spec [OF assms, of to] by blast
  have sh: "same_shape b b'" using r(1) by (rule read_shape)
  have "length (ab_contents b') = (ab_count b - unat k) * sample_size b'"
    using sh unfolding r(4) by (simp add: same_shape_def diff_mult_distrib)
  from that [OF r(1,2) sh r(3) count_from_contents [OF r(2) this] r(4)] show thesis .
qed

text \<open>Samples flow through the buffer: what the player took and what is buffered are, in order, among what was
  produced.\<close>

definition flows :: "byte_buf \<Rightarrow> sc_audiobuf \<Rightarrow> sc_audiobuf \<Rightarrow> byte_buf \<Rightarrow> bool" where
  "flows taken b b' new \<longleftrightarrow>
     (\<forall>pl acc. subseq (pl @ ab_contents b) acc \<longrightarrow> subseq ((pl @ taken) @ ab_contents b') (acc @ new))"

lemma flows_trans: "flows t1 a b n1 \<Longrightarrow> flows t2 b c n2 \<Longrightarrow> flows (t1 @ t2) a c (n1 @ n2)"
  unfolding flows_def by (metis append.assoc)

lemma flows_refl [simp]: "flows [] b b []"
  by (simp add: flows_def)

lemma flows_write: "ab_contents b' = ab_contents b @ new \<Longrightarrow> flows [] b b' new"
  by (auto simp: flows_def intro: list_emb_append_mono simp flip: append_assoc)

lemma flows_read: "ab_contents b' = drop n (ab_contents b) \<Longrightarrow> flows (take n (ab_contents b)) b b' []"
  by (simp add: flows_def)

lemma subseq_take_drop: "subseq (take n xs) xs" "subseq (drop n xs) xs"
  by (metis append_take_drop_id list_emb_append2 list_emb_prefix subseq_order.order_refl)+

lemma flows_skip: "ab_contents b' = drop n (ab_contents b) \<Longrightarrow> flows [] b b' []"
  unfolding flows_def
proof (intro allI impI)
  fix pl acc
  assume e: "ab_contents b' = drop n (ab_contents b)" and s: "subseq (pl @ ab_contents b) acc"
  have "subseq (drop n (ab_contents b)) (ab_contents b)" by (rule subseq_take_drop)
  then have "subseq (pl @ drop n (ab_contents b)) (pl @ ab_contents b)"
    by (rule list_emb_append_mono [OF subseq_order.order_refl])
  with s show "subseq ((pl @ []) @ ab_contents b') (acc @ [])" by (simp add: e)
qed

lemma flows_mono: "flows t b b' new \<Longrightarrow> subseq new new' \<Longrightarrow> flows t b b' new'"
  unfolding flows_def by (meson list_emb_append_mono subseq_order.order_refl subseq_order.order_trans)

lemma player_reads_obtain:
  assumes "ab_invar b"
  obtains taken b' where "player_reads n b = Some (taken, b')" "ab_invar b'" "same_shape b b'" "ab_count b' \<le> ab_count b"
    "flows taken b b' []" "n = 0 \<Longrightarrow> taken = [] \<and> b' = b"
proof (cases "n = 0")
  case True
  with assms that [of "[]" b] show thesis by (simp add: player_reads_def)
next
  case False
  obtain k b' where "sc_audiobuf_read b True n = Some (k, take (unat k * sample_size b) (ab_contents b), b')"
    "ab_invar b'" "same_shape b b'" "ab_count b' = ab_count b - unat k"
    "ab_contents b' = drop (unat k * sample_size b) (ab_contents b)"
    using read_obtain [OF assms False, of True] by (metis (full_types))
  with False that [of "take (unat k * sample_size b) (ab_contents b)" b'] show thesis
    by (simp add: player_reads_def flows_read)
qed

lemma unat_rest: "(w :: u32) \<le> n \<Longrightarrow> unat (n - w) = unat n - unat w"
  by (simp add: unat_sub)

lemma unat_rest_less: "(w :: u32) < n \<Longrightarrow> unat (n - w) = unat n - unat w"
  by (simp add: unat_rest)

lemma unat_written: "unat (w1 :: u32) + unat w2 \<le> unat (n :: u32) \<Longrightarrow> unat (w1 + w2) = unat w1 + unat w2"
  using unsigned_less [of n, where ?'a = nat] by (simp add: unat_word_ariths)

lemma take_drop_join: "a + c = n \<Longrightarrow> take (a * s) xs @ take (c * s) (drop (a * s) xs) = take (n * s) xs"
  by (metis add_mult_distrib take_add)

lemma bytes_left:
  "unat (samples :: u32) * s \<le> length src \<Longrightarrow> w \<le> samples \<Longrightarrow> unat (samples - w) * s \<le> length (drop (unat w * s) src)"
  by (simp add: unat_rest diff_mult_distrib)

lemma make_room_obtain:
  assumes inv: "ab_invar b" and src: "unat samples * sample_size b \<le> length src" and cap: "unat samples < unat (alloc_size b)"
    and w: "w < samples" and full: "ab_count b = unat (alloc_size b) - 1"
  obtains taken b' where "ar_make_room n2 src samples w b = Some (samples - w, taken, b')" "ab_invar b'" "same_shape b b'"
    "flows taken b b' (take (unat (samples - w) * sample_size b) (drop (unat w * sample_size b) src))"
    "n2 = 0 \<Longrightarrow> taken = [] \<and> ab_contents b' = drop (unat (samples - w) * sample_size b) (ab_contents b) @
       take (unat (samples - w) * sample_size b) (drop (unat w * sample_size b) src)"
proof -
  let ?r = "samples - w" and ?s = "sample_size b"
  have r: "?r \<noteq> 0" "unat ?r \<le> unat samples" using w by (auto simp: unat_rest)
  obtain k b1 where b1: "sc_audiobuf_read b False ?r = Some (k, [], b1)" "ab_invar b1" "same_shape b b1"
    "unat k = min (unat ?r) (ab_count b)" "ab_count b1 = ab_count b - unat k" "ab_contents b1 = drop (unat k * ?s) (ab_contents b)"
    using read_obtain [OF inv r(1), of False] by (metis (full_types))
  have k: "k = ?r" using b1(4) r(2) cap full by (simp add: word_unat_eq_iff)
  obtain t b2 where b2: "player_reads n2 b1 = Some (t, b2)" "ab_invar b2" "same_shape b1 b2" "ab_count b2 \<le> ab_count b1"
    "flows t b1 b2 []" "n2 = 0 \<Longrightarrow> t = [] \<and> b2 = b1"
    using player_reads_obtain [OF b1(2)] by metis
  have sh: "alloc_size b2 = alloc_size b" "sample_size b2 = ?s" using b1(3) b2(3) by (simp_all add: same_shape_def)
  have src2: "unat ?r * sample_size b2 \<le> length (drop (unat w * ?s) src)" using bytes_left [OF src, of w] w sh by simp
  obtain j b3 where b3: "sc_audiobuf_write b2 (drop (unat w * ?s) src) ?r = Some (j, b3)" "ab_invar b3" "same_shape b2 b3"
    "unat j = min (unat ?r) (unat (alloc_size b2) - 1 - ab_count b2)"
    "ab_contents b3 = ab_contents b2 @ take (unat j * sample_size b2) (drop (unat w * ?s) src)"
    using write_obtain [OF b2(2) src2] by metis
  have j: "j = ?r" using b3(4) b2(4) b1(5) k sh full r(2) cap by (simp add: word_unat_eq_iff)
  have f: "flows t b b3 (take (unat ?r * ?s) (drop (unat w * ?s) src))"
    using flows_trans [OF flows_skip [OF b1(6)] flows_trans [OF b2(5) flows_write [OF b3(5)]]] j sh by simp
  show thesis
  proof (rule that [OF _ b3(2) _ f])
    show "ar_make_room n2 src samples w b = Some (?r, t, b3)"
      using b1(1) b2(1) b3(1) k j sh by (simp add: ar_make_room_def sc_audiobuf_to_bytes_def)
    show "same_shape b b3" using b1(3) b2(3) b3(3) by (metis same_shape_trans)
    show "t = [] \<and> ab_contents b3 = drop (unat ?r * ?s) (ab_contents b) @ take (unat ?r * ?s) (drop (unat w * ?s) src)" if "n2 = 0"
      using b2(6) [OF that] b3(5) b1(6) j k sh by simp
  qed
qed

lemma retry_obtain:
  assumes inv: "ab_invar b" and src: "unat samples * sample_size b \<le> length src" and cap: "unat samples < unat (alloc_size b)"
    and w1: "w1 < samples" and full: "ab_count b = unat (alloc_size b) - 1"
  obtains w sk taken b' where "ar_retry n1 n2 src samples w1 b = Some (w, sk, taken, b')" "ab_invar b'" "same_shape b b'"
    "flows taken b b' (take (unat (samples - w1) * sample_size b) (drop (unat w1 * sample_size b) src))"
    "n1 = 0 \<Longrightarrow> n2 = 0 \<Longrightarrow> taken = [] \<and> w = w1 \<and> sk = samples - w1 \<and>
       ab_contents b' = drop (unat sk * sample_size b) (ab_contents b) @ take (unat sk * sample_size b) (drop (unat w1 * sample_size b) src)"
proof -
  let ?s = "sample_size b" and ?src = "drop (unat w1 * sample_size b) src"
  obtain t1 b2 where b2: "player_reads n1 b = Some (t1, b2)" "ab_invar b2" "same_shape b b2" "ab_count b2 \<le> ab_count b"
    "flows t1 b b2 []" "n1 = 0 \<Longrightarrow> t1 = [] \<and> b2 = b"
    using player_reads_obtain [OF inv] by metis
  have sh2: "alloc_size b2 = alloc_size b" "sample_size b2 = ?s" using b2(3) by (simp_all add: same_shape_def)
  have src2: "unat (samples - w1) * sample_size b2 \<le> length ?src" using bytes_left [OF src, of w1] w1 sh2 by simp
  obtain w2 b3 where b3: "sc_audiobuf_write b2 ?src (samples - w1) = Some (w2, b3)" "ab_invar b3" "same_shape b2 b3"
    "unat w2 = min (unat (samples - w1)) (unat (alloc_size b2) - 1 - ab_count b2)" "ab_count b3 = ab_count b2 + unat w2"
    "ab_contents b3 = ab_contents b2 @ take (unat w2 * sample_size b2) ?src"
    using write_obtain [OF b2(2) src2] by metis
  have w: "unat (w1 + w2) = unat w1 + unat w2" "unat w1 + unat w2 \<le> unat samples"
    using b3(4) w1 unat_written [of w1 w2 samples] by (auto simp: unat_rest word_less_nat_alt)
  have sh: "same_shape b b3" using b2(3) b3(3) by (rule same_shape_trans)
  have f: "flows t1 b b3 (take (unat w2 * ?s) ?src)"
    using flows_trans [OF b2(5) flows_write [OF b3(6)]] sh2 by simp
  have quiet: "t1 = [] \<and> w2 = 0 \<and> ab_contents b3 = ab_contents b" if "n1 = 0"
    using b2(6) [OF that] b3(4,6) full by (simp add: unat_eq_0)
  have st: "ar_retry n1 n2 src samples w1 b = (if w1 + w2 < samples then do {
       (skipped_samples, t2, b) \<leftarrow> ar_make_room n2 src samples (w1 + w2) b3;
       Some (w1 + w2, skipped_samples, t1 @ t2, b) } else Some (w1 + w2, 0, t1, b3))"
    using b2(1) b3(1) sh2 by (simp add: ar_retry_def sc_audiobuf_to_bytes_def)
  show thesis
  proof (cases "w1 + w2 < samples")
    case False
    then have "unat w2 = unat (samples - w1)" using w unat_rest_less [OF w1] by (simp add: word_less_nat_alt)
    moreover have "n1 \<noteq> 0" using quiet False w1 by auto
    ultimately show thesis using False b3(2) sh f st that [of "w1 + w2" 0 t1 b3] by simp
  next
    case True
    have full3: "ab_count b3 = unat (alloc_size b3) - 1"
      using True b3(3,4,5) b2(4) full w sh2 w1 by (auto simp: word_less_nat_alt unat_rest same_shape_def)
    have s3: "alloc_size b3 = alloc_size b" "sample_size b3 = ?s" using sh by (simp_all add: same_shape_def)
    obtain t2 b4 where b4: "ar_make_room n2 src samples (w1 + w2) b3 = Some (samples - (w1 + w2), t2, b4)" "ab_invar b4" "same_shape b3 b4"
      "flows t2 b3 b4 (take (unat (samples - (w1 + w2)) * ?s) (drop (unat (w1 + w2) * ?s) src))"
      "n2 = 0 \<Longrightarrow> t2 = [] \<and> ab_contents b4 = drop (unat (samples - (w1 + w2)) * ?s) (ab_contents b3) @
         take (unat (samples - (w1 + w2)) * ?s) (drop (unat (w1 + w2) * ?s) src)"
      using make_room_obtain [OF b3(2) _ _ True full3, of src n2] src cap s3 by metis
    have "take (unat w2 * ?s) ?src @ take (unat (samples - (w1 + w2)) * ?s) (drop (unat (w1 + w2) * ?s) src) =
        take (unat (samples - w1) * ?s) ?src"
      using take_drop_join [of "unat w2" "unat (samples - (w1 + w2))" "unat (samples - w1)" ?s ?src] True w w1
      by (simp add: unat_rest add_mult_distrib add.commute)
    with flows_trans [OF f b4(4)] have "flows (t1 @ t2) b b4 (take (unat (samples - w1) * ?s) ?src)" by simp
    with that [of "w1 + w2" "samples - (w1 + w2)" "t1 @ t2" b4] st True b4 quiet same_shape_trans [OF sh b4(3)] show thesis by simp
  qed
qed

lemma store_obtain:
  assumes inv: "ab_invar b" and src: "unat samples * sample_size b \<le> length src" and cap: "unat samples < unat (alloc_size b)"
  obtains w sk taken b' where "ar_store n1 n2 src samples b = Some (w, sk, taken, b')" "ab_invar b'" "same_shape b b'"
    "flows taken b b' (take (unat samples * sample_size b) src)"
    "n1 = 0 \<Longrightarrow> n2 = 0 \<Longrightarrow> taken = [] \<and> w = samples - sk \<and>
       ab_contents b' = drop (unat sk * sample_size b) (ab_contents b @ take (unat samples * sample_size b) src) \<and>
       unat sk = ab_count b + unat samples - (unat (alloc_size b) - 1)"
proof -
  let ?s = "sample_size b"
  obtain w1 b1 where b1: "sc_audiobuf_write b src samples = Some (w1, b1)" "ab_invar b1" "same_shape b b1"
    "unat w1 = min (unat samples) (unat (alloc_size b) - 1 - ab_count b)" "ab_count b1 = ab_count b + unat w1"
    "ab_contents b1 = ab_contents b @ take (unat w1 * ?s) src"
    using write_obtain [OF inv src] by metis
  have s1: "alloc_size b1 = alloc_size b" "sample_size b1 = ?s" using b1(3) by (simp_all add: same_shape_def)
  have lt: "ab_count b < unat (alloc_size b)" using count_eq(3) [OF inv] .
  show thesis
  proof (cases "w1 < samples")
    case False
    then have w1: "w1 = samples" using b1(4) by (simp add: word_less_nat_alt word_unat_eq_iff)
    show thesis
      by (rule that [of w1 0 "[]" b1])
        (use b1 w1 lt flows_write [OF b1(6)] in \<open>auto simp: ar_store_def min_def split: if_splits\<close>)
  next
    case True
    then have full: "unat w1 = unat (alloc_size b) - 1 - ab_count b" "ab_count b1 = unat (alloc_size b1) - 1"
      using b1(4,5) lt s1 by (auto simp: word_less_nat_alt)
    obtain w sk t b2 where b2: "ar_retry n1 n2 src samples w1 b1 = Some (w, sk, t, b2)" "ab_invar b2" "same_shape b1 b2"
      "flows t b1 b2 (take (unat (samples - w1) * ?s) (drop (unat w1 * ?s) src))"
      "n1 = 0 \<Longrightarrow> n2 = 0 \<Longrightarrow> t = [] \<and> w = w1 \<and> sk = samples - w1 \<and>
       ab_contents b2 = drop (unat sk * ?s) (ab_contents b1) @ take (unat sk * ?s) (drop (unat w1 * ?s) src)"
      using retry_obtain [OF b1(2) _ _ True full(2), of src n1 n2] src cap s1 by metis
    have j: "take (unat w1 * ?s) src @ take (unat (samples - w1) * ?s) (drop (unat w1 * ?s) src) = take (unat samples * ?s) src"
      using True unat_rest_less [OF True] by (intro take_drop_join) (simp add: word_less_nat_alt)
    have sk: "unat (samples - w1) = ab_count b + unat samples - (unat (alloc_size b) - 1)" "unat (samples - w1) \<le> ab_count b1"
      using True full lt cap s1 unat_rest_less [OF True] by (simp_all add: word_less_nat_alt)
    have q: "t = [] \<and> w = samples - sk \<and> ab_contents b2 = drop (unat sk * ?s) (ab_contents b @ take (unat samples * ?s) src) \<and>
       unat sk = ab_count b + unat samples - (unat (alloc_size b) - 1)" if "n1 = 0" "n2 = 0"
      using b2(5) [OF that] sk b1(6) s1(2) mult_le_mono1 [OF sk(2), of ?s] length_ab_contents [of b1]
      by (simp flip: j)
    show thesis
      by (rule that [of w sk t b2])
        (use b1(1) b2(1,2) True same_shape_trans [OF b1(3) b2(3)] flows_trans [OF flows_write [OF b1(6)] b2(4)] j q in
          \<open>simp_all add: ar_store_def\<close>)
  qed
qed

section \<open>The invariant\<close>

definition ar_inv :: "sc_audio_regulator \<Rightarrow> bool" where
  "ar_inv ar \<longleftrightarrow> ab_invar (ar_buf ar) \<and> sample_size (ar_buf ar) = ar_sample_size ar \<and> ar_rate ar \<noteq> 0 \<and>
     0 < av_range (ar_avg ar) \<and> unat (alloc_size (ar_buf ar)) = unat (ar_target ar) + unat (ar_rate ar) + 1"

definition ar_config :: "sc_audio_regulator \<Rightarrow> u32 \<times> u32 \<times> nat" where
  "ar_config ar = (ar_target ar, ar_rate ar, ar_sample_size ar)"

definition ar_buffered :: "sc_audio_regulator \<Rightarrow> byte_buf" where
  "ar_buffered ar = ab_contents (ar_buf ar)"

text \<open>What FFmpeg promises: a delay that is not negative, and as many samples as announced, up to the size it is
  given; disabling the compensation succeeds; the sizes fit an \<open>int\<close>.\<close>

definition input_ok :: "nat \<Rightarrow> audio_input \<Rightarrow> bool" where
  "input_ok ss i \<longleftrightarrow> 0 \<le> in_pts i \<and> 0 \<le> in_swr_delay i \<and> in_reset_ret i = 0 \<and> in_dst_samples i < 2 ^ 31 \<and>
     length (in_converted i) = nat (min (in_swr_ret i) (in_dst_samples i)) * ss"

lemma capacity_eq:
  assumes "ab_invar b"
  shows "sc_audiobuf_capacity b = Some (alloc_size b - 1)" "unat (alloc_size b - 1) = unat (alloc_size b) - 1"
proof -
  have "alloc_size b \<noteq> 0" using assms by (auto simp: ab_invar_def)
  then show "sc_audiobuf_capacity b = Some (alloc_size b - 1)" by (simp add: sc_audiobuf_capacity_def)
  show "unat (alloc_size b - 1) = unat (alloc_size b) - 1" using assms by (simp add: ab_invar_def unat_sub word_le_nat_alt)
qed

text \<open>The silence a discontinuity asks for.\<close>

definition silence_inserted :: "audio_input \<Rightarrow> sc_audio_regulator \<Rightarrow> byte_buf" where
  "silence_inserted i ar =
     (let can_read = sc_audiobuf_can_read (ar_buf ar) in
      if next_expected_pts ar \<noteq> 0 \<and> in_pts i - next_expected_pts ar > 100000 \<and> in_samples i + can_read < ar_target ar
      then replicate (sc_audiobuf_to_bytes (ar_buf ar) (ar_target ar - can_read - in_samples i)) 0 else [])"

lemma discontinuity_obtain:
  assumes "ar_inv ar" "in_reset_ret i = 0"
  obtains cs ar' where "ar_discontinuity rnd (in_reset_ret i) (in_pts i) (in_samples i) ar = Some (cs, ar')" "ar_inv ar'" "ar_config ar' = ar_config ar"
    "ar_played ar' = ar_played ar" "flows [] (ar_buf ar) (ar_buf ar') (silence_inserted i ar)" "set cs \<subseteq> {swr_set_compensation 0 0}"
    "swr_buf_alloc_size ar' = swr_buf_alloc_size ar"
proof (cases "next_expected_pts ar \<noteq> 0 \<and> in_pts i - next_expected_pts ar > 100000 \<and>
    in_samples i + sc_audiobuf_can_read (ar_buf ar) < ar_target ar")
  case False
  let ?r = "the (ar_discontinuity rnd (in_reset_ret i) (in_pts i) (in_samples i) ar)"
  show thesis
    by (rule that [of "fst ?r" "snd ?r"])
      (use assms False in \<open>auto simp: ar_discontinuity_def silence_inserted_def Let_def ar_inv_def ar_config_def\<close>)
next
  case True
  let ?k = "ar_target ar - sc_audiobuf_can_read (ar_buf ar) - in_samples i" and ?b = "ar_buf ar"
  let ?z = "replicate (unat ?k * sample_size ?b) (0 :: u8)"
  have "ab_invar ?b" using assms by (simp add: ar_inv_def)
  then obtain w b' where b': "sc_audiobuf_write ?b ?z ?k = Some (w, b')" "ab_invar b'" "same_shape ?b b'"
    "ab_contents b' = ab_contents ?b @ take (unat w * sample_size ?b) ?z"
    using write_obtain [of ?b ?k ?z] by (metis length_replicate order_refl)
  have "flows [] ?b b' (silence_inserted i ar)"
    using flows_mono [OF flows_write [OF b'(4)]] True subseq_take_drop(1) [of _ ?z]
    by (simp add: silence_inserted_def Let_def sc_audiobuf_to_bytes_def)
  with True assms b' show thesis
    by (intro that [of "[swr_set_compensation 0 0]" "ar\<lparr>ar_buf := b', ar_avg := (ar_avg ar)\<lparr>av_avg := rnd (of_nat (unat (ar_target ar)))\<rparr>,
             compensation_active := False, samples_since_resync := 0, ar_underflow := 0\<rparr>"])
      (auto simp: ar_discontinuity_def sc_audiobuf_write_silence_def Let_def ar_inv_def ar_config_def same_shape_def)
qed

lemma skip_obtain:
  assumes "ab_invar b"
  obtains n k b' where "ar_skip mx b = Some (n, k, b')" "ab_invar b'" "same_shape b b'" "flows [] b b' []" "ab_count b' \<le> unat mx"
    "ab_contents b' = drop (unat k * sample_size b) (ab_contents b)" "unat k = ab_count b - unat mx" "unat n = ab_count b"
proof (cases "mx < sc_audiobuf_can_read b")
  case False
  with that [of "sc_audiobuf_can_read b" 0 b] assms count_eq(1) [OF assms] show thesis
    by (simp add: ar_skip_def Let_def word_less_nat_alt)
next
  case True
  let ?n = "sc_audiobuf_can_read b - mx"
  have n: "?n \<noteq> 0" "unat ?n = ab_count b - unat mx" using True unat_rest_less [OF True] count_eq(1) [OF assms] by auto
  obtain k b' where b': "sc_audiobuf_read b False ?n = Some (k, [], b')" "ab_invar b'" "same_shape b b'"
    "unat k = min (unat ?n) (ab_count b)" "ab_count b' = ab_count b - unat k" "ab_contents b' = drop (unat k * sample_size b) (ab_contents b)"
    using read_obtain [OF assms n(1), of False] by (metis (full_types))
  have k: "k = ?n" using b'(4) n(2) by (simp add: word_unat_eq_iff)
  show thesis
    by (rule that [of "sc_audiobuf_can_read b" ?n b'])
      (use True b' k n count_eq(1) [OF assms] flows_skip [OF b'(6)] in \<open>simp_all add: ar_skip_def Let_def word_less_nat_alt\<close>)
qed

fun compensation_bounded :: "u32 \<Rightarrow> swr_call \<Rightarrow> bool" where
  "compensation_bounded rate (swr_set_compensation d distance) \<longleftrightarrow>
     d = 0 \<and> distance = 0 \<or> distance = 4 * uint rate \<and> \<bar>d\<bar> * 50 \<le> distance"

lemma sint_small:
  assumes "uint (r :: u32) < 2 ^ 29"
  shows "sint (4 * r) = 4 * uint r"
proof -
  have "uint (4 * r) = 4 * uint r" using assms by (simp add: uint_word_ariths)
  moreover have "- 536870912 \<le> uint r" using uint_ge_0 [of r] by linarith
  ultimately show ?thesis using assms by (simp add: sint_uint signed_take_bit_int_eq_self_iff)
qed

lemma compensation_small:
  assumes "uint (ar_rate ar) < 2 ^ 29"
  shows "\<bar>compensation_diff rnd n ar avg\<bar> * 50 \<le> 4 * uint (ar_rate ar)"
proof -
  let ?m = "sint (4 * ar_rate ar) sdiv 50"
  have m: "?m = 4 * uint (ar_rate ar) div 50"
    by (simp add: sint_small [OF assms] signed_divide_int_def sgn_if)
  then have "0 \<le> ?m" by (simp add: pos_imp_zdiv_nonneg_iff)
  then have "\<bar>max (- ?m) (min ?m x)\<bar> \<le> ?m" for x by linarith
  then have "\<bar>compensation_diff rnd n ar avg\<bar> \<le> ?m" by (simp add: compensation_diff_def Let_def)
  with m show ?thesis by linarith
qed

lemma average_push_ok:
  "0 < av_range a \<Longrightarrow> \<exists>a'. sc_average_push rnd v a = Some a' \<and> av_range a' = av_range a \<and> av_count a' \<noteq> 0"
  by (cases "av_count a < av_range a") (simp_all add: sc_average_push_def Let_def)

lemma average_pushed:
  assumes "0 < av_range a"
  obtains a' where "ar_adjust_average rnd w n u k c a = Some a'" "av_range a' = av_range a" "av_count a' \<noteq> 0"
proof -
  obtain x v where "ar_adjust_average rnd w n u k c a = sc_average_push rnd v (a\<lparr>av_avg := x\<rparr>)"
    unfolding ar_adjust_average_def Let_def by blast
  with average_push_ok [of "a\<lparr>av_avg := x\<rparr>" rnd v] assms that show thesis by auto
qed

lemma compensate_obtain:
  assumes "av_count (ar_avg ar) \<noteq> 0" "uint (ar_rate ar) < 2 ^ 29"
  obtains cs ar' where "ar_compensate rnd ok n ar = Some (cs, ar')" "ar_buf ar' = ar_buf ar" "ar_avg ar' = ar_avg ar"
    "ar_config ar' = ar_config ar" "ar_played ar' = ar_played ar" "\<forall>c \<in> set cs. compensation_bounded (ar_rate ar) c"
proof (cases "ar_rate ar \<le> samples_since_resync ar")
  case False
  with that [of "[]" ar] show thesis by (simp add: ar_compensate_def)
next
  case True
  let ?d = "compensation_diff rnd n ar (av_avg (ar_avg ar))"
  show thesis
    by (rule that [of "[swr_set_compensation ?d (sint (4 * ar_rate ar))]" "ar\<lparr>samples_since_resync := 0, underflow_report := 0,
             compensation_active := (if ok then ?d \<noteq> 0 else compensation_active ar)\<rparr>"])
      (use True assms compensation_small [OF assms(2), of rnd n "av_avg (ar_avg ar)"] in
        \<open>simp_all add: ar_compensate_def sc_average_get_def ar_config_def sint_small Let_def\<close>)
qed

definition push_result :: "audio_input \<Rightarrow> sc_audio_regulator \<Rightarrow> byte_buf \<Rightarrow> swr_call list \<Rightarrow> byte_buf \<Rightarrow> sc_audio_regulator \<Rightarrow> bool" where
  "push_result i ar new cs taken ar' \<longleftrightarrow> ar_inv ar' \<and> ar_config ar' = ar_config ar \<and> ar_played ar' = ar_played ar \<and>
     flows taken (ar_buf ar) (ar_buf ar') new \<and> (\<forall>c \<in> set cs. compensation_bounded (ar_rate ar) c)"

lemma push_result_trans:
  assumes "push_result i ar n1 c1 t1 ar1" "push_result i ar1 n2 c2 t2 ar2"
  shows "push_result i ar (n1 @ n2) (c1 @ c2) (t1 @ t2) ar2"
  using assms flows_trans [of t1 "ar_buf ar" "ar_buf ar1" n1 t2 "ar_buf ar2" n2]
  by (auto simp: push_result_def ar_config_def)

lemma account_ok:
  assumes inv: "ar_inv ar" and rate: "uint (ar_rate ar) < 2 ^ 29"
  shows "\<exists>cs ar'. ar_account rnd i w sk ar = Some (cs, ar') \<and> push_result i ar [] cs [] ar' \<and>
    ab_count (ar_buf ar') \<le> unat (max_buffered_samples (ar_played ar) ar)"
proof -
  let ?p = "ar_played ar" and ?mx = "max_buffered_samples (ar_played ar) ar"
  have "ab_invar (ar_buf ar)" using inv by (simp add: ar_inv_def)
  then obtain c k b where b: "ar_skip ?mx (ar_buf ar) = Some (c, k, b)" "ab_invar b" "same_shape (ar_buf ar) b"
    "flows [] (ar_buf ar) b []" "ab_count b \<le> unat ?mx"
    using skip_obtain by metis
  define u where "u = (if ?p then ar_underflow ar else 0)"
  define ar1 where "ar1 = ar\<lparr>ar_buf := b, ar_underflow := (if ?p then 0 else ar_underflow ar),
    underflow_report := underflow_report ar + u, ar_received := True\<rparr>"
  have ar1: "ar_inv ar1" "ar_config ar1 = ar_config ar" "ar_played ar1 = ?p" "ar_buf ar1 = b" "ar_avg ar1 = ar_avg ar"
    using inv b(2,3) by (simp_all add: ar1_def ar_inv_def ar_config_def same_shape_def)
  show ?thesis
  proof (cases ?p)
    case False
    then have "ar_account rnd i w sk ar = Some ([], ar1)" using b(1) by (simp add: ar_account_def ar1_def u_def)
    with ar1 b show ?thesis by (simp add: push_result_def)
  next
    case True
    obtain a where a: "ar_adjust_average rnd w (in_samples i) u (sk + k) c (ar_avg ar) = Some a" "av_range a = av_range (ar_avg ar)"
      "av_count a \<noteq> 0"
      using average_pushed [of "ar_avg ar"] inv by (metis ar_inv_def)
    let ?ar2 = "ar1\<lparr>ar_avg := a, samples_since_resync := samples_since_resync ar1 + w\<rparr>"
    have r2: "uint (ar_rate ?ar2) < 2 ^ 29" using rate by (simp add: ar1_def)
    obtain cs ar3 where ar3: "ar_compensate rnd (in_comp_ok i) c ?ar2 = Some (cs, ar3)" "ar_buf ar3 = b" "ar_avg ar3 = a"
      "ar_config ar3 = ar_config ar" "ar_played ar3 = ?p" "\<forall>x \<in> set cs. compensation_bounded (ar_rate ar) x"
      using compensate_obtain [of ?ar2 rnd "in_comp_ok i" c, OF _ r2] a(3) by (auto simp: ar1_def ar_config_def)
    have "ar_account rnd i w sk ar = Some (cs, ar3)"
      using b(1) True a(1) ar3(1) by (simp add: ar_account_def ar1_def u_def)
    moreover have "ar_inv ar3" using ar1(1) ar3(2-4) ar1(4,5) a(2) by (simp add: ar_inv_def ar_config_def ar1_def)
    ultimately show ?thesis using ar3 b(4,5) by (simp add: push_result_def)
  qed
qed

lemma max_buffered_cong: "ar_config ar' = ar_config ar \<Longrightarrow> max_buffered_samples p ar' = max_buffered_samples p ar"
  by (simp add: max_buffered_samples_def ar_config_def)

lemma keep_last:
  assumes "length c = unat (n :: u32) * s"
  shows "unat (min n p) * s = length (if n > p then drop (unat (n - p) * s) c else c)"
proof (cases "n > p")
  case True
  then have "unat n - (unat n - unat p) = unat p" by (simp add: word_less_nat_alt)
  with True assms show ?thesis by (simp add: unat_rest_less min_absorb2 flip: diff_mult_distrib)
next
  case False
  then have "min n p = n" by (simp add: not_less min_absorb1)
  with False assms show ?thesis by simp
qed

lemma push_converted_ok:
  assumes inv: "ar_inv ar" and i: "input_ok (ar_sample_size ar) i" "0 \<le> in_swr_ret i" and rate: "uint (ar_rate ar) < 2 ^ 29"
  shows "\<exists>cs taken ar'. ar_push_converted rnd i ar = Some (cs, taken, ar') \<and>
    push_result i ar (in_converted i) cs taken ar' \<and> ab_count (ar_buf ar') \<le> unat (max_buffered_samples (ar_played ar) ar)"
proof -
  let ?b = "ar_buf ar" and ?c = "in_converted i"
  define n :: u32 where "n = word_of_int (min (in_swr_ret i) (in_dst_samples i))"
  define m where "m = min n (alloc_size ?b - 1)"
  define src where "src = (if n > alloc_size ?b - 1 then drop (sc_audiobuf_to_bytes ?b (n - (alloc_size ?b - 1))) ?c else ?c)"
  have b: "ab_invar ?b" "sample_size ?b = ar_sample_size ar" using inv by (simp_all add: ar_inv_def)
  have "0 \<le> min (in_swr_ret i) (in_dst_samples i)" "min (in_swr_ret i) (in_dst_samples i) < 2 ^ 32"
    using i uint_ge_0 [of "in_samples i"] by (auto simp: input_ok_def in_dst_samples_def min_def)
  then have "unat n = nat (min (in_swr_ret i) (in_dst_samples i))"
    by (simp add: n_def unat_eq_nat_uint uint_word_of_int)
  then have lc: "length ?c = unat n * sample_size ?b" using i b(2) by (simp add: input_ok_def)
  have m: "unat m < unat (alloc_size ?b)"
    using capacity_eq(2) [OF b(1)] b(1) unfolding m_def min_unat ab_invar_def by linarith
  have src: "unat m * sample_size ?b = length src" "subseq src ?c"
    using keep_last [OF lc, of "alloc_size ?b - 1"] by (auto simp: src_def m_def sc_audiobuf_to_bytes_def subseq_take_drop)
  obtain w sk t b1 where b1: "ar_store (in_reads1 i) (in_reads2 i) src m ?b = Some (w, sk, t, b1)" "ab_invar b1" "same_shape ?b b1"
    "flows t ?b b1 (take (unat m * sample_size ?b) src)"
    using store_obtain [OF b(1) _ m, of src "in_reads1 i" "in_reads2 i"] src(1) by (metis order_refl)
  let ?ar = "ar\<lparr>ar_buf := b1\<rparr>"
  have "push_result i ar ?c [] t ?ar"
    using inv b1(2,3) flows_mono [OF b1(4)] src by (simp add: push_result_def ar_inv_def ar_config_def same_shape_def)
  moreover from this have "ar_inv ?ar" by (simp add: push_result_def)
  then obtain cs ar' where "ar_account rnd i w sk ?ar = Some (cs, ar')" "push_result i ?ar [] cs [] ar'"
    "ab_count (ar_buf ar') \<le> unat (max_buffered_samples (ar_played ar) ar)"
    using account_ok [of ?ar rnd i w sk] rate max_buffered_cong [of ?ar ar] by (auto simp: ar_config_def)
  ultimately show ?thesis using push_result_trans [of i ar ?c "[]" t ?ar "[]" cs "[]" ar'] b1(1) capacity_eq(1) [OF b(1)]
    by (simp add: ar_push_converted_def n_def [symmetric] m_def [symmetric] src_def [symmetric])
qed

lemma swr_buf_fits:
  assumes "ar_inv ar" "input_ok (ar_sample_size ar) i"
    "sc_audio_regulator_get_swr_buf ok (word_of_int (in_dst_samples i)) ar = (True, ar')"
  shows "length (in_converted i) \<le> swr_buf_alloc_size ar'"
proof -
  have "0 \<le> in_dst_samples i" using assms(2) by (simp add: input_ok_def in_dst_samples_def)
  then have u: "unat (word_of_int (in_dst_samples i) :: u32) = nat (in_dst_samples i)"
    using assms(2) by (simp add: input_ok_def unat_eq_nat_uint uint_word_of_int)
  have "nat (min (in_swr_ret i) (in_dst_samples i)) * ar_sample_size ar \<le> nat (in_dst_samples i) * ar_sample_size ar"
    by (intro mult_le_mono1 nat_mono) simp
  then have "length (in_converted i) \<le> sc_audiobuf_to_bytes (ar_buf ar) (word_of_int (in_dst_samples i))"
    using assms(1,2) u by (simp add: input_ok_def sc_audiobuf_to_bytes_def ar_inv_def)
  then show ?thesis using assms(3) by (auto simp: sc_audio_regulator_get_swr_buf_def Let_def split: if_splits)
qed

lemma push_ok:
  assumes inv: "ar_inv ar" and i: "input_ok (ar_sample_size ar) i" and rate: "uint (ar_rate ar) < 2 ^ 29"
  shows "\<exists>ok cs taken ar'. sc_audio_regulator_push rnd i ar = Some (ok, cs, taken, ar') \<and>
    push_result i ar (silence_inserted i ar @ (if ok then in_converted i else [])) cs taken ar' \<and>
    (ok \<longrightarrow> ab_count (ar_buf ar') \<le> unat (max_buffered_samples (ar_played ar) ar))"
proof -
  let ?sil = "silence_inserted i ar"
  obtain c1 ar1 where ar1: "ar_discontinuity rnd (in_reset_ret i) (in_pts i) (in_samples i) ar = Some (c1, ar1)" "ar_inv ar1" "ar_config ar1 = ar_config ar"
    "ar_played ar1 = ar_played ar" "flows [] (ar_buf ar) (ar_buf ar1) ?sil" "set c1 \<subseteq> {swr_set_compensation 0 0}"
    using discontinuity_obtain [OF inv, of i rnd] i unfolding input_ok_def by metis
  have pos: "0 \<le> in_pts i" using i by (simp add: input_ok_def)
  have rest: "push_result i ar ?sil c1 [] (ar1\<lparr>next_expected_pts := x, swr_buf_alloc_size := y\<rparr>)" for x y
    using ar1 by (auto simp: push_result_def ar_inv_def ar_config_def)
  let ?n = "in_pts i + uint (in_samples i) * 1000000 div uint (ar_rate ar1)"
  let ?ar1 = "ar1\<lparr>next_expected_pts := ?n\<rparr>"
  obtain ok ar2 where g: "sc_audio_regulator_get_swr_buf (in_alloc_ok i) (word_of_int (in_dst_samples i)) ?ar1 = (ok, ar2)" by force
  obtain y where ar2: "ar2 = ar1\<lparr>next_expected_pts := ?n, swr_buf_alloc_size := y\<rparr>"
    using g that [of "swr_buf_alloc_size ar1"] by (auto simp: sc_audio_regulator_get_swr_buf_def Let_def split: if_splits)
  note r = rest [where x = ?n and y = y, folded ar2]
  have rate0: "ar_rate ar1 \<noteq> 0" using ar1(2) by (simp add: ar_inv_def)
  show ?thesis
  proof (cases "ok \<and> 0 \<le> in_swr_ret i")
    case False
    have "sc_audio_regulator_push rnd i ar = Some (False, c1, [], ar2)"
      using False ar1 pos rate0 g i swr_buf_fits [of ?ar1 i "in_alloc_ok i" ar2]
      by (cases ok) (auto simp: sc_audio_regulator_push_def ar_inv_def ar_config_def)
    with r show ?thesis by force
  next
    case True
    have c: "ar_inv ar2" "ar_config ar2 = ar_config ar" "ar_played ar2 = ar_played ar" using r by (simp_all add: push_result_def)
    then have c': "ar_sample_size ar2 = ar_sample_size ar" "ar_rate ar2 = ar_rate ar" "ar_target ar2 = ar_target ar"
      by (simp_all add: ar_config_def)
    have fits: "length (in_converted i) \<le> swr_buf_alloc_size ar2"
      using True ar1(2,3) i g swr_buf_fits [of ?ar1 i "in_alloc_ok i" ar2] by (simp add: ar_inv_def ar_config_def)
    obtain c2 t ar3 where ar3: "ar_push_converted rnd i ar2 = Some (c2, t, ar3)" "push_result i ar2 (in_converted i) c2 t ar3"
      "ab_count (ar_buf ar3) \<le> unat (max_buffered_samples (ar_played ar2) ar2)"
      using push_converted_ok [OF c(1), of i rnd] True i rate c' by auto
    have "sc_audio_regulator_push rnd i ar = Some (True, c1 @ c2, t, ar3)"
      using True ar1(1) pos rate0 g fits ar3(1) by (simp add: sc_audio_regulator_push_def)
    moreover have "push_result i ar (?sil @ (if True then in_converted i else [])) (c1 @ c2) t ar3"
      using push_result_trans [OF r ar3(2)] by simp
    ultimately show ?thesis using ar3(3) unfolding max_buffered_cong [OF c(2)] c(3) by blast
  qed
qed

section \<open>Pulling samples\<close>

lemma pull_ok:
  assumes inv: "ar_inv ar" and n: "n \<noteq> 0"
  obtains out ar' k where "sc_audio_regulator_pull n ar = Some (out, ar')" "ar_inv ar'" "ar_config ar' = ar_config ar"
    "length out = unat n * ar_sample_size ar" "k * ar_sample_size ar \<le> length (ar_buffered ar)"
    "out = take (k * ar_sample_size ar) (ar_buffered ar) @ replicate ((unat n - k) * ar_sample_size ar) 0" "k \<le> unat n"
    "ar_buffered ar' = drop (k * ar_sample_size ar) (ar_buffered ar)"
    "if ar_played ar \<or> unat (ar_target ar) \<le> ab_count (ar_buf ar) then k = min (unat n) (ab_count (ar_buf ar)) else k = 0 \<and> ar' = ar"
proof -
  let ?b = "ar_buf ar" and ?s = "ar_sample_size ar"
  have b: "ab_invar ?b" "sample_size ?b = ?s" using inv by (simp_all add: ar_inv_def)
  have t: "sc_audiobuf_can_read ?b < ar_target ar \<longleftrightarrow> \<not> unat (ar_target ar) \<le> ab_count ?b"
    using count_eq(1) [OF b(1)] by (simp add: word_less_nat_alt not_le)
  show thesis
  proof (cases "ar_played ar \<or> unat (ar_target ar) \<le> ab_count ?b")
    case False
    then have "sc_audio_regulator_pull n ar = Some (replicate (unat n * ?s) 0, ar)" using t by (simp add: sc_audio_regulator_pull_def)
    then show thesis by (rule that [where k = 0]) (use inv False in \<open>simp_all add: ar_buffered_def\<close>)
  next
    case True
    obtain k b' where r: "sc_audiobuf_read ?b True n = Some (k, take (unat k * ?s) (ab_contents ?b), b')" "ab_invar b'"
      "same_shape ?b b'" "unat k = min (unat n) (ab_count ?b)" "ab_contents b' = drop (unat k * ?s) (ab_contents ?b)"
      using read_obtain [OF b(1) n, of True] b(2) by (metis (full_types))
    have k: "unat k \<le> unat n" "k < n \<longleftrightarrow> unat k < unat n" "unat k * ?s \<le> length (ab_contents ?b)"
      using r(4) b(2) by (simp_all add: word_less_nat_alt)
    have sil: "(if k < n then replicate (sc_audiobuf_to_bytes b' (n - k)) 0 else []) = replicate ((unat n - unat k) * ?s) (0 :: u8)"
      using k r(3) b(2) unat_rest_less [of k n] by (auto simp: sc_audiobuf_to_bytes_def same_shape_def)
    define u where "u = (if k < n \<and> ar_received ar then ar_underflow ar + (n - k) else ar_underflow ar)"
    have "sc_audio_regulator_pull n ar =
      Some (take (unat k * ?s) (ab_contents ?b) @ replicate ((unat n - unat k) * ?s) 0, ar\<lparr>ar_buf := b', ar_underflow := u, ar_played := True\<rparr>)"
      using True t r(1) by (auto simp: sc_audio_regulator_pull_def Let_def sil u_def)
    then show thesis
    proof (rule that)
      show "ar_inv (ar\<lparr>ar_buf := b', ar_underflow := u, ar_played := True\<rparr>)"
        using inv r(2,3) by (simp add: ar_inv_def same_shape_def)
      show "length (take (unat k * ?s) (ab_contents ?b) @ replicate ((unat n - unat k) * ?s) 0) = unat n * ?s"
        using k(1,3) by (simp add: min_absorb2 flip: add_mult_distrib)
    qed (use r(4,5) k True in \<open>simp_all add: ar_config_def ar_buffered_def\<close>)
  qed
qed

lemma chunks_ok:
  assumes "ar_inv ar" "ar_sample_size ar = ss" "ss dvd aout" "0 < aout" "ss dvd len" "len < 2 ^ 32"
  shows "\<exists>outs ar'. audio_player_chunks aout len put_ok ar = Some (outs, ar') \<and> ar_inv ar' \<and> ar_config ar' = ar_config ar \<and>
    (\<forall>out \<in> set outs. length out \<le> aout) \<and> (False \<notin> set put_ok \<longrightarrow> length (concat outs) = len)"
  using assms
proof (induction aout len put_ok ar rule: audio_player_chunks.induct)
  case (1 aout len put_ok ar)
  show ?case
  proof (cases "len = 0")
    case True
    with "1.prems" show ?thesis by (subst audio_player_chunks.simps) simp
  next
    case False
    let ?c = "min aout len"
    have ss: "0 < ss" using "1.prems"(1,2) by (auto simp: ar_inv_def ab_invar_def)
    have c: "ss dvd ?c" "0 < ?c" "?c \<le> len" using "1.prems" False by (auto simp: min_def)
    then have m: "?c div ss * ss = ?c" "0 < ?c div ss"
      using ss dvd_imp_le [OF c(1,2)] by (simp_all add: div_greater_zero_iff)
    moreover have "?c div ss < 2 ^ 32" using "1.prems"(6) c(3) div_le_dividend [of ?c ss] by linarith
    ultimately have n: "unat (of_nat (?c div ss) :: u32) = ?c div ss" "(of_nat (?c div ss) :: u32) \<noteq> 0"
      by (simp_all add: unat_of_nat word_unat_eq_iff)
    obtain out ar1 where p: "sc_audio_regulator_pull (of_nat (?c div ss)) ar = Some (out, ar1)" "ar_inv ar1"
      "ar_config ar1 = ar_config ar" "length out = ?c"
      using pull_ok [OF "1.prems"(1) n(2)] n(1) m(1) "1.prems"(2) by metis
    have step: "audio_player_chunks aout len put_ok ar =
      (if put_ok \<noteq> [] \<and> \<not> hd put_ok then Some ([out], ar1)
       else do { (outs, ar) \<leftarrow> audio_player_chunks aout (len - ?c) (tl put_ok) ar1; Some (out # outs, ar) })"
      using False "1.prems"(2,4) p(1,4) by (subst audio_player_chunks.simps) simp
    show ?thesis
    proof (cases "put_ok \<noteq> [] \<and> \<not> hd put_ok")
      case True
      with step p show ?thesis by (cases put_ok) auto
    next
      case F: False
      have "\<exists>outs ar'. audio_player_chunks aout (len - ?c) (tl put_ok) ar1 = Some (outs, ar') \<and> ar_inv ar' \<and>
        ar_config ar' = ar_config ar1 \<and> (\<forall>out \<in> set outs. length out \<le> aout) \<and>
        (False \<notin> set (tl put_ok) \<longrightarrow> length (concat outs) = len - ?c)"
      proof (rule "1.IH" [of ?c "(out, ar1)" out ar1 "()"])
        show "ar_sample_size ar1 = ss" using p(3) "1.prems"(2) by (simp add: ar_config_def)
        show "ss dvd len - ?c" using c(1) "1.prems"(5) by (rule dvd_diff_nat [rotated])
      qed (use False F p "1.prems" in auto)
      with step F p c(3) show ?thesis by (cases put_ok) (auto simp: ar_config_def)
    qed
  qed
qed

section \<open>The regulator between the decoder and the player\<close>

text \<open>\<open>au_given\<close> is what the resampler produced, with the silence of the discontinuities, and \<open>au_real\<close> the samples
  of the buffer that the player was given.\<close>

datatype audio_event = AE_push audio_input | AE_pull u32

record audio_run =
  au_ar :: sc_audio_regulator
  au_given :: byte_buf
  au_real :: byte_buf

fun audio_step :: "(rat \<Rightarrow> rat) \<Rightarrow> audio_event \<Rightarrow> audio_run \<Rightarrow> audio_run option" where
  "audio_step rnd (AE_push i) s = do {
     (ok, cs, taken, ar) \<leftarrow> sc_audio_regulator_push rnd i (au_ar s);
     Some \<lparr>au_ar = ar, au_given = au_given s @ silence_inserted i (au_ar s) @ (if ok then in_converted i else []),
           au_real = au_real s @ taken\<rparr>
   }"
| "audio_step rnd (AE_pull n) s = do {
     (out, ar) \<leftarrow> sc_audio_regulator_pull n (au_ar s);
     Some (s\<lparr>au_ar := ar, au_real := au_real s @ take (length (ar_buffered (au_ar s)) - length (ar_buffered ar)) out\<rparr>)
   }"

fun audio_run_events :: "(rat \<Rightarrow> rat) \<Rightarrow> audio_event list \<Rightarrow> audio_run \<Rightarrow> audio_run option" where
  "audio_run_events rnd [] s = Some s"
| "audio_run_events rnd (e # es) s = do { s' \<leftarrow> audio_step rnd e s; audio_run_events rnd es s' }"

fun audio_event_ok :: "nat \<Rightarrow> audio_event \<Rightarrow> bool" where
  "audio_event_ok ss (AE_push i) \<longleftrightarrow> input_ok ss i"
| "audio_event_ok ss (AE_pull n) \<longleftrightarrow> n \<noteq> 0"

definition audio_start :: "sc_audio_regulator \<Rightarrow> audio_run" where
  "audio_start ar = \<lparr>au_ar = ar, au_given = [], au_real = []\<rparr>"

definition audio_flow :: "audio_run \<Rightarrow> bool" where
  "audio_flow s \<longleftrightarrow> subseq (au_real s @ ar_buffered (au_ar s)) (au_given s)"

lemma regulator_init_inv:
  assumes "sc_audio_regulator_init a b c (Some d) e ss rate target = Some (Some ar)"
    "rate \<noteq> 0" "unat target + unat rate < 2 ^ 31" "length d = (unat target + unat rate + 1) * ss"
  shows "ar_inv ar" "ar_config ar = (target, rate, ss)" "ar_buffered ar = []" "\<not> ar_played ar"
proof -
  have tr: "unat (target + rate) = unat target + unat rate" "unat (target + rate + 1) = unat target + unat rate + 1"
    using assms(3) by (simp_all add: unat_word_ariths)
  have ss: "0 < ss" using assms(1) by (auto simp: sc_audio_regulator_init_def sc_audiobuf_init_def c_assert_def split: if_splits)
  obtain x where "ar_buf ar = \<lparr>ab_data = d, alloc_size = target + rate + 1, sample_size = ss, ab_head = 0, ab_tail = 0\<rparr>"
    "ar_target ar = target" "ar_rate ar = rate" "ar_sample_size ar = ss" "ar_avg ar = sc_average_init 128" "\<not> ar_played ar"
    using assms(1) by (auto simp: sc_audio_regulator_init_def sc_audiobuf_init_def c_assert_def split: if_splits)
  with tr ss assms show "ar_inv ar" "ar_config ar = (target, rate, ss)" "ar_buffered ar = []" "\<not> ar_played ar"
    by (simp_all add: ar_inv_def ab_invar_def sc_average_init_def ar_config_def ar_buffered_def ab_contents_def ring_get_def ab_count_def)
qed

lemma audio_step_ok:
  assumes "ar_inv (au_ar s)" "ar_config (au_ar s) = (target, rate, ss)" "uint rate < 2 ^ 29" "audio_event_ok ss e" "audio_flow s"
  obtains s' where "audio_step rnd e s = Some s'" "ar_inv (au_ar s')" "ar_config (au_ar s') = (target, rate, ss)" "audio_flow s'"
proof (cases e)
  case (AE_push i)
  have c: "ar_sample_size (au_ar s) = ss" "ar_rate (au_ar s) = rate" using assms(2) by (simp_all add: ar_config_def)
  then obtain ok cs t ar' where p: "sc_audio_regulator_push rnd i (au_ar s) = Some (ok, cs, t, ar')"
    "push_result i (au_ar s) (silence_inserted i (au_ar s) @ (if ok then in_converted i else [])) cs t ar'"
    using push_ok [OF assms(1), of i rnd] assms(3,4) AE_push by auto
  show thesis
    by (rule that [of "\<lparr>au_ar = ar', au_given = au_given s @ silence_inserted i (au_ar s) @ (if ok then in_converted i else []),
      au_real = au_real s @ t\<rparr>"])
      (use p assms(2,5) AE_push in \<open>auto simp: push_result_def flows_def audio_flow_def ar_buffered_def\<close>)
next
  case (AE_pull n)
  let ?ar = "au_ar s"
  have n: "n \<noteq> 0" using assms(4) AE_pull by simp
  obtain out ar' k where p: "sc_audio_regulator_pull n ?ar = Some (out, ar')" "ar_inv ar'" "ar_config ar' = ar_config ?ar"
    "length out = unat n * ar_sample_size ?ar" "k * ar_sample_size ?ar \<le> length (ar_buffered ?ar)"
    "out = take (k * ar_sample_size ?ar) (ar_buffered ?ar) @ replicate ((unat n - k) * ar_sample_size ?ar) 0" "k \<le> unat n"
    "ar_buffered ar' = drop (k * ar_sample_size ?ar) (ar_buffered ?ar)"
    by (rule pull_ok [OF assms(1) n]) blast
  have "length (ar_buffered ?ar) - length (ar_buffered ar') = k * ar_sample_size ?ar"
    using p(5) unfolding p(8) length_drop by linarith
  then have "take (length (ar_buffered ?ar) - length (ar_buffered ar')) out = take (k * ar_sample_size ?ar) (ar_buffered ?ar)"
    using p(5) by (simp add: p(6) min_absorb2)
  then have st: "audio_step rnd e s = Some (s\<lparr>au_ar := ar', au_real := au_real s @ take (k * ar_sample_size ?ar) (ar_buffered ?ar)\<rparr>)"
    using p(1) AE_pull by simp
  show thesis
    by (rule that [OF st]) (use p(2,3,8) assms(2,5) in \<open>simp_all add: audio_flow_def\<close>)
qed

lemma audio_run_ok:
  assumes "ar_inv (au_ar s)" "ar_config (au_ar s) = (target, rate, ss)" "uint rate < 2 ^ 29" "list_all (audio_event_ok ss) es" "audio_flow s"
  shows "\<exists>s'. audio_run_events rnd es s = Some s' \<and> ar_inv (au_ar s') \<and> ar_config (au_ar s') = (target, rate, ss) \<and> audio_flow s'"
  using assms
proof (induction es arbitrary: s)
  case (Cons e es)
  obtain s' where "audio_step rnd e s = Some s'" "ar_inv (au_ar s')" "ar_config (au_ar s') = (target, rate, ss)" "audio_flow s'"
    using audio_step_ok [OF Cons.prems(1-3) _ Cons.prems(5), of e rnd] Cons.prems(4) by auto
  with Cons.IH [of s'] Cons.prems(3,4) show ?case by simp
qed simp

text \<open>C15. The audio regulator works without failing and never reorders. It is assumed of FFmpeg (\<open>input_ok\<close>) that a frame
  has a timestamp that is not negative, that the resampler writes the samples it announces and that disabling its
  compensation succeeds; a regulator whose reset failed would abort (\<open>failed_reset_aborts\<close>). Then for any sequence of
  pushes and pulls, with pulls inside the pushes where the buffer is used without the lock, and whatever allocation or
  conversion fails, no assertion fails and no access is out of bounds, and the
  samples given to the player followed by those still buffered are, in order and without repetition, among those the
  resampler produced and the silence of the discontinuities.\<close>

theorem audio_never_reordered:
  assumes "sc_audio_regulator_init a b c (Some d) e ss rate target = Some (Some ar)"
    "rate \<noteq> 0" "uint rate < 2 ^ 29" "unat target + unat rate < 2 ^ 31" "length d = (unat target + unat rate + 1) * ss"
    "list_all (audio_event_ok ss) es"
  shows "\<exists>s. audio_run_events rnd es (audio_start ar) = Some s \<and>
    subseq (au_real s @ ab_contents (ar_buf (au_ar s))) (au_given s)"
proof -
  note i = regulator_init_inv [OF assms(1,2,4,5)]
  have "audio_flow (audio_start ar)" using i(3) by (simp add: audio_flow_def audio_start_def)
  with audio_run_ok [of "audio_start ar" target rate ss es rnd] i assms(3,6) show ?thesis
    by (auto simp: audio_start_def audio_flow_def ar_buffered_def)
qed

text \<open>C16. The latency stays bounded: for the inputs of C15 no push aborts, and after a push that succeeds the buffer holds no more than the threshold of the
  regulator (the target plus 10 ms before the playback starts, 110% of the target plus 60 ms afterwards), whatever
  was buffered and received, and a compensation asked of the resampler changes the speed by at most 2%.\<close>

theorem audio_latency_bounded:
  assumes "ar_inv ar" "input_ok (ar_sample_size ar) i" "uint (ar_rate ar) < 2 ^ 29"
  shows "\<exists>ok cs taken ar'. sc_audio_regulator_push rnd i ar = Some (ok, cs, taken, ar') \<and> ar_inv ar' \<and>
    (ok \<longrightarrow> ab_count (ar_buf ar') \<le> unat (max_buffered_samples (ar_played ar) ar)) \<and>
    (\<forall>d distance. swr_set_compensation d distance \<in> set cs \<longrightarrow> \<bar>d\<bar> * 50 \<le> distance)"
proof -
  obtain ok cs taken ar' where p: "sc_audio_regulator_push rnd i ar = Some (ok, cs, taken, ar')" "ar_inv ar'"
    "ok \<longrightarrow> ab_count (ar_buf ar') \<le> unat (max_buffered_samples (ar_played ar) ar)" "\<forall>c \<in> set cs. compensation_bounded (ar_rate ar) c"
    using push_ok [OF assms, of rnd] by (auto simp: push_result_def)
  then have "\<forall>d distance. swr_set_compensation d distance \<in> set cs \<longrightarrow> \<bar>d\<bar> * 50 \<le> distance" by fastforce
  with p show ?thesis by blast
qed

definition player_ready :: "sc_audio_player \<Rightarrow> bool" where
  "player_ready ap \<longleftrightarrow> ar_inv (audioreg ap) \<and> ar_sample_size (audioreg ap) dvd aout_buffer_size ap \<and> 0 < aout_buffer_size ap"

text \<open>A player that could be opened is ready, for buffers below \<open>2^31\<close> samples.\<close>

lemma player_open_ready:
  assumes "sc_audio_player_frame_sink_open e ap = Some (True, ap')" "ao_block e = Some d"
    "ao_sample_rate e < 2 ^ 30" "0 \<le> target_buffering_delay ap * ao_sample_rate e sdiv 1000000"
    "target_buffering_delay ap * ao_sample_rate e sdiv 1000000 < 2 ^ 30"
    "int (length d) = (target_buffering_delay ap * ao_sample_rate e sdiv 1000000 + ao_sample_rate e + 1) *
       (ao_nb_channels e * ao_bytes_per_sample e)"
  shows "player_ready ap'"
proof -
  let ?t = "target_buffering_delay ap * ao_sample_rate e sdiv 1000000" and ?ss = "nat (ao_nb_channels e * ao_bytes_per_sample e)"
  have pos: "0 < ao_nb_channels e" "0 < ao_sample_rate e" "0 < ao_bytes_per_sample e"
    using assms(1) by (auto simp: sc_audio_player_frame_sink_open_def c_assert_def split: if_splits)
  obtain ar n where ar: "sc_audio_regulator_init (ao_swr_alloc_ok e) (ao_swr_init_ok e) (ao_mutex_ok e) (Some d) (ao_swr_buf_ok e)
      ?ss (word_of_int (ao_sample_rate e)) (word_of_int ?t) = Some (Some ar)"
    and ap': "audioreg ap' = ar" "aout_buffer_size ap' = max 1024 n * ?ss"
  proof -
    let ?n = "output_buffer_duration ap * ao_sample_rate e sdiv 1000000"
    have "nat (max 1024 ?n) = max 1024 (nat ?n)" by simp
    with assms(1,2) that [of _ "nat ?n"] show thesis
      by (auto simp: sc_audio_player_frame_sink_open_def Let_def bind_eq_Some_conv split: option.splits if_splits)
  qed
  have u: "unat (word_of_int ?t :: u32) = nat ?t" "unat (word_of_int (ao_sample_rate e) :: u32) = nat (ao_sample_rate e)"
    using assms(3-5) pos by (simp_all add: unat_eq_nat_uint uint_word_of_int)
  have ss: "0 < ?ss" using pos by simp
  have "length d = (nat ?t + nat (ao_sample_rate e) + 1) * ?ss"
  proof -
    have "int ((nat ?t + nat (ao_sample_rate e) + 1) * ?ss) = (?t + ao_sample_rate e + 1) * (ao_nb_channels e * ao_bytes_per_sample e)"
      using pos assms(4) by (simp add: distrib_right)
    with assms(6) show ?thesis by (metis of_nat_eq_iff)
  qed
  moreover have "nat ?t + nat (ao_sample_rate e) < 2 ^ 31" using assms(3-5) pos by simp
  moreover have "(word_of_int (ao_sample_rate e) :: u32) \<noteq> 0" using u(2) pos by (auto simp: word_unat_eq_iff)
  ultimately have "ar_inv ar" "ar_config ar = (word_of_int ?t, word_of_int (ao_sample_rate e), ?ss)"
    using regulator_init_inv [OF ar] u by simp_all
  then show ?thesis using ap' ss by (simp add: player_ready_def ar_config_def)
qed

text \<open>The player gets exactly what it asks for: the callback fills the stream with as many bytes as requested, chunk by
  chunk of its buffer, without failing, and the player stays ready.\<close>

theorem audio_callback_exact:
  assumes "player_ready ap" "ar_sample_size (audioreg ap) dvd len" "len < 2 ^ 31"
  shows "\<exists>outs ap'. sc_audio_player_stream_callback len put_ok ap = Some (outs, ap') \<and> player_ready ap' \<and>
    (\<forall>out \<in> set outs. length out \<le> aout_buffer_size ap) \<and> (False \<notin> set put_ok \<longrightarrow> length (concat outs) = len)"
proof -
  have "len < 2 ^ 32" using assms(3) by simp
  then obtain outs ar where "audio_player_chunks (aout_buffer_size ap) len put_ok (audioreg ap) = Some (outs, ar)" "ar_inv ar"
    "ar_config ar = ar_config (audioreg ap)" "\<forall>out \<in> set outs. length out \<le> aout_buffer_size ap"
    "False \<notin> set put_ok \<longrightarrow> length (concat outs) = len"
    using chunks_ok [of "audioreg ap" _ "aout_buffer_size ap" len put_ok] assms(1,2) unfolding player_ready_def by blast
  with assms(1,2) show ?thesis
    by (simp add: sc_audio_player_stream_callback_def player_ready_def ar_config_def dvd_imp_mod_0)
qed

text \<open>A small regulator: one byte per sample.\<close>

definition demo_audio :: sc_audio_regulator where
  "demo_audio = \<lparr>ar_target = 3, ar_buf = \<lparr>ab_data = replicate 12 0, alloc_size = 12, sample_size = 1, ab_head = 0, ab_tail = 0\<rparr>,
     ar_rate = 8, ar_sample_size = 1, swr_buf_alloc_size = 4096, ar_avg = sc_average_init 128,
     samples_since_resync = 0, ar_underflow = 0, underflow_report = 0, compensation_active = False,
     ar_received = False, ar_played = False, next_expected_pts = 0\<rparr>"

definition demo_input :: "int \<Rightarrow> byte_buf \<Rightarrow> audio_input" where
  "demo_input pts bytes = \<lparr>in_pts = pts, in_samples = 4, in_swr_delay = 0, in_alloc_ok = True,
     in_swr_ret = int (length bytes), in_converted = bytes, in_reset_ret = 0, in_comp_ok = True, in_reads1 = 0, in_reads2 = 0\<rparr>"

lemma demo_audio_init: "sc_audio_regulator_init True True True (Some (replicate 12 0)) True 1 8 3 = Some (Some demo_audio)"
  by (simp add: sc_audio_regulator_init_def sc_audiobuf_init_def demo_audio_def sc_audiobuf_to_bytes_def)

lemma demo_audio_inv: "ar_inv demo_audio" "ar_sample_size demo_audio = 1" "ar_rate demo_audio = 8"
  by (simp_all add: demo_audio_def ar_inv_def ab_invar_def sc_average_init_def)

lemma demo_input_ok: "input_ok 1 (demo_input 0 [1, 2, 3, 4])" "input_ok 1 (demo_input 700000 [5, 6, 7, 8])"
  by (simp_all add: demo_input_def input_ok_def in_dst_samples_def)

theorem audio_never_reordered_witness:
  "\<exists>s. audio_run_events (\<lambda>x. x) [AE_push (demo_input 0 [1, 2, 3, 4]), AE_pull 2, AE_push (demo_input 700000 [5, 6, 7, 8]), AE_pull 5]
      (audio_start demo_audio) = Some s \<and> subseq (au_real s @ ab_contents (ar_buf (au_ar s))) (au_given s)"
  using audio_never_reordered [OF demo_audio_init, where rnd = "\<lambda>x. x" and es = "[AE_push (demo_input 0 [1, 2, 3, 4]), AE_pull 2,
    AE_push (demo_input 700000 [5, 6, 7, 8]), AE_pull 5]"] demo_input_ok by simp

theorem audio_latency_bounded_witness:
  "\<exists>ok cs taken ar'. sc_audio_regulator_push (\<lambda>x. x) (demo_input 0 [1, 2, 3, 4]) demo_audio = Some (ok, cs, taken, ar') \<and>
    (ok \<longrightarrow> ab_count (ar_buf ar') \<le> unat (max_buffered_samples (ar_played demo_audio) demo_audio))"
  using audio_latency_bounded [OF demo_audio_inv(1), of "demo_input 0 [1, 2, 3, 4]" "\<lambda>x. x"] demo_audio_inv demo_input_ok(1) by auto

definition demo_player :: sc_audio_player where
  "demo_player = \<lparr>target_buffering_delay = 0, output_buffer_duration = 0, aout_buffer_size = 4, audioreg = demo_audio\<rparr>"

theorem audio_callback_exact_witness:
  "\<exists>outs ap'. sc_audio_player_stream_callback 10 [] demo_player = Some (outs, ap') \<and> length (concat outs) = 10"
  using audio_callback_exact [of demo_player 10 "[]"] demo_audio_inv by (auto simp: player_ready_def demo_player_def)

lemma demo_audio_run:
  "map_option (\<lambda>s. (au_real s, au_given s))
     (audio_run_events (\<lambda>x. x) [AE_push (demo_input 0 [1, 2, 3, 4]), AE_pull 2, AE_pull 5] (audio_start demo_audio)) =
   Some ([2, 3, 4], [1, 2, 3, 4])"
  by code_simp

lemma failed_reset_aborts:
  "audio_run_events (\<lambda>x. x) [AE_push (demo_input 0 [1, 2, 3, 4]), AE_push ((demo_input 700000 [5, 6, 7, 8])\<lparr>in_reset_ret := - 22\<rparr>)]
     (audio_start demo_audio) = None"
  by code_simp

text \<open>When old samples make room for new ones, the result \<^verbatim>\<open>written\<close> leaves out the samples that took their place: the
  buffering changes by the samples minus the skipped ones, but \<^verbatim>\<open>written\<close> minus the skipped ones, which
  the average is corrected with, subtracts the skipped ones twice.\<close>

lemma replaced_counted_twice:
  assumes "ab_invar b" "unat samples * sample_size b \<le> length src" "unat samples < unat (alloc_size b)"
  shows "\<exists>w sk b'. ar_store 0 0 src samples b = Some (w, sk, [], b') \<and>
    ab_count b' + unat sk = ab_count b + unat samples \<and> unat w + unat sk = unat samples \<and>
    unat sk = ab_count b + unat samples - (unat (alloc_size b) - 1)"
proof -
  obtain w sk t b' where s: "ar_store 0 0 src samples b = Some (w, sk, t, b')" "ab_invar b'" "same_shape b b'"
    and q: "t = []" "w = samples - sk" "ab_contents b' = drop (unat sk * sample_size b) (ab_contents b @ take (unat samples * sample_size b) src)"
      "unat sk = ab_count b + unat samples - (unat (alloc_size b) - 1)"
    using store_obtain [OF assms, of 0 0] by (metis (no_types, lifting))
  have le: "unat sk \<le> unat samples" "unat sk \<le> ab_count b + unat samples" using q(4) count_eq(3) [OF assms(1)] by simp_all
  have "length (ab_contents b') = (ab_count b + unat samples - unat sk) * sample_size b'"
    using s(3) assms(2) unfolding q(3) by (simp add: min_absorb2 same_shape_def add_mult_distrib diff_mult_distrib)
  then have "ab_count b' = ab_count b + unat samples - unat sk" by (rule count_from_contents [OF s(2)])
  moreover have "unat w = unat samples - unat sk" using q(2) le(1) by (simp add: unat_rest word_le_nat_alt)
  ultimately have "ab_count b' + unat sk = ab_count b + unat samples" "unat w + unat sk = unat samples" using le by simp_all
  with s(1) q(1,4) show ?thesis by blast
qed

end
