(* ===== verification/InputEvents.thy ===== *)
theory InputEvents
  imports ControlMsg
begin

text \<open>
  \<^verbatim>\<open>app/src/input_events.h\<close>: the input events the key, mouse and gamepad processors consume. An enum whose
  values are bit masks is a datatype, and a bitwise-or of its values is a set of them. The numbers SDL
  gives to scancodes, buttons, axes and event types are not part of the program: they are the fields of
  the parameter \<open>sdl\<close>.
\<close>

section \<open>Enumerations\<close>

datatype sc_mod =
    SC_MOD_LSHIFT | SC_MOD_RSHIFT | SC_MOD_LCTRL | SC_MOD_RCTRL | SC_MOD_LALT | SC_MOD_RALT
  | SC_MOD_LGUI | SC_MOD_RGUI | SC_MOD_NUM | SC_MOD_CAPS

datatype sc_action = SC_ACTION_DOWN | SC_ACTION_UP

datatype sc_mouse_button =
    SC_MOUSE_BUTTON_UNKNOWN | SC_MOUSE_BUTTON_LEFT | SC_MOUSE_BUTTON_RIGHT | SC_MOUSE_BUTTON_MIDDLE
  | SC_MOUSE_BUTTON_X1 | SC_MOUSE_BUTTON_X2

datatype sc_gamepad_axis =
    SC_GAMEPAD_AXIS_UNKNOWN | SC_GAMEPAD_AXIS_LEFTX | SC_GAMEPAD_AXIS_LEFTY | SC_GAMEPAD_AXIS_RIGHTX
  | SC_GAMEPAD_AXIS_RIGHTY | SC_GAMEPAD_AXIS_LEFT_TRIGGER | SC_GAMEPAD_AXIS_RIGHT_TRIGGER

datatype sc_gamepad_button =
    SC_GAMEPAD_BUTTON_UNKNOWN | SC_GAMEPAD_BUTTON_SOUTH | SC_GAMEPAD_BUTTON_EAST | SC_GAMEPAD_BUTTON_WEST
  | SC_GAMEPAD_BUTTON_NORTH | SC_GAMEPAD_BUTTON_BACK | SC_GAMEPAD_BUTTON_GUIDE | SC_GAMEPAD_BUTTON_START
  | SC_GAMEPAD_BUTTON_LEFT_STICK | SC_GAMEPAD_BUTTON_RIGHT_STICK | SC_GAMEPAD_BUTTON_LEFT_SHOULDER
  | SC_GAMEPAD_BUTTON_RIGHT_SHOULDER | SC_GAMEPAD_BUTTON_DPAD_UP | SC_GAMEPAD_BUTTON_DPAD_DOWN
  | SC_GAMEPAD_BUTTON_DPAD_LEFT | SC_GAMEPAD_BUTTON_DPAD_RIGHT

datatype sc_touch_action = SC_TOUCH_ACTION_MOVE | SC_TOUCH_ACTION_DOWN | SC_TOUCH_ACTION_UP

text \<open>The numbers of SDL the code looks at.\<close>

record sdl_consts =
  SDL_SCANCODE_LCTRL :: int
  SDL_SCANCODE_RGUI :: int
  SDL_SCANCODE_CAPSLOCK :: int
  SDL_SCANCODE_NUMLOCKCLEAR :: int
  SDL_GAMEPAD_BUTTON :: "sc_gamepad_button \<Rightarrow> int"
  SDL_EVENT_KEY_DOWN :: u32
  SDL_EVENT_KEY_UP :: u32
  SDL_EVENT_MOUSE_BUTTON_DOWN :: u32
  SDL_EVENT_MOUSE_BUTTON_UP :: u32
  SDL_EVENT_FINGER_MOTION :: u32
  SDL_EVENT_FINGER_DOWN :: u32
  SDL_EVENT_FINGER_UP :: u32
  SDL_EVENT_GAMEPAD_BUTTON_DOWN :: u32
  SDL_EVENT_GAMEPAD_BUTTON_UP :: u32

section \<open>Events\<close>

record sc_key_event =
  key_action :: sc_action
  key_keycode :: int
  key_scancode :: int
  key_mods_state :: "sc_mod set"
  key_repeat :: bool

record sc_mouse_click_event =
  click_position :: sc_position
  click_action :: sc_action
  click_button :: sc_mouse_button
  click_pointer_id :: u64
  click_buttons_state :: "sc_mouse_button set"

record sc_mouse_scroll_event =
  scroll_position :: sc_position
  hscroll :: rat
  vscroll :: rat
  scroll_buttons_state :: "sc_mouse_button set"

record sc_mouse_motion_event =
  motion_position :: sc_position
  motion_pointer_id :: u64
  xrel :: int
  yrel :: int
  motion_buttons_state :: "sc_mouse_button set"

record sc_touch_event =
  touch_position :: sc_position
  touch_action :: sc_touch_action
  touch_pointer_id :: u64
  touch_pressure :: rat

definition SC_GAMEPAD_ID_INVALID :: u32 where
  "SC_GAMEPAD_ID_INVALID = 0"

record sc_gamepad_button_event =
  gb_gamepad_id :: u32
  gb_action :: sc_action
  gb_button :: sc_gamepad_button

record sc_gamepad_axis_event =
  ga_gamepad_id :: u32
  ga_axis :: sc_gamepad_axis
  ga_value :: u16

section \<open>Conversions from SDL\<close>

definition sc_action_from_sdl_keyboard_type :: "sdl_consts \<Rightarrow> u32 \<Rightarrow> sc_action option" where
  "sc_action_from_sdl_keyboard_type sdl type = do {
     c_assert (type = SDL_EVENT_KEY_DOWN sdl \<or> type = SDL_EVENT_KEY_UP sdl);
     Some (if type = SDL_EVENT_KEY_DOWN sdl then SC_ACTION_DOWN else SC_ACTION_UP)
   }"

definition sc_action_from_sdl_mousebutton_type :: "sdl_consts \<Rightarrow> u32 \<Rightarrow> sc_action option" where
  "sc_action_from_sdl_mousebutton_type sdl type = do {
     c_assert (type = SDL_EVENT_MOUSE_BUTTON_DOWN sdl \<or> type = SDL_EVENT_MOUSE_BUTTON_UP sdl);
     Some (if type = SDL_EVENT_MOUSE_BUTTON_DOWN sdl then SC_ACTION_DOWN else SC_ACTION_UP)
   }"

definition sc_touch_action_from_sdl :: "sdl_consts \<Rightarrow> u32 \<Rightarrow> sc_touch_action option" where
  "sc_touch_action_from_sdl sdl type = do {
     c_assert (type = SDL_EVENT_FINGER_MOTION sdl \<or> type = SDL_EVENT_FINGER_DOWN sdl \<or>
               type = SDL_EVENT_FINGER_UP sdl);
     Some (if type = SDL_EVENT_FINGER_MOTION sdl then SC_TOUCH_ACTION_MOVE
           else if type = SDL_EVENT_FINGER_DOWN sdl then SC_TOUCH_ACTION_DOWN
           else SC_TOUCH_ACTION_UP)
   }"

definition sc_action_from_sdl_gamepad_button_type :: "sdl_consts \<Rightarrow> u32 \<Rightarrow> sc_action option" where
  "sc_action_from_sdl_gamepad_button_type sdl type = do {
     c_assert (type = SDL_EVENT_GAMEPAD_BUTTON_DOWN sdl \<or> type = SDL_EVENT_GAMEPAD_BUTTON_UP sdl);
     Some (if type = SDL_EVENT_GAMEPAD_BUTTON_DOWN sdl then SC_ACTION_DOWN else SC_ACTION_UP)
   }"

text \<open>The values documented by SDL: scancodes are the usage numbers of USB HID keyboards, gamepad buttons
  are numbered from 0 in the order of the enum.\<close>

definition sdl_documented :: "sdl_consts \<Rightarrow> bool" where
  "sdl_documented sdl \<longleftrightarrow>
     SDL_SCANCODE_LCTRL sdl = 224 \<and> SDL_SCANCODE_RGUI sdl = 231 \<and>
     SDL_SCANCODE_CAPSLOCK sdl = 57 \<and> SDL_SCANCODE_NUMLOCKCLEAR sdl = 83 \<and>
     (\<forall>b. b \<noteq> SC_GAMEPAD_BUTTON_UNKNOWN \<longrightarrow>
        0 \<le> SDL_GAMEPAD_BUTTON sdl b \<and> SDL_GAMEPAD_BUTTON sdl b \<le> 14)"

text \<open>A concrete instance, used by the witnesses.\<close>

definition sdl3 :: sdl_consts where
  "sdl3 = \<lparr>SDL_SCANCODE_LCTRL = 224, SDL_SCANCODE_RGUI = 231, SDL_SCANCODE_CAPSLOCK = 57,
     SDL_SCANCODE_NUMLOCKCLEAR = 83,
     SDL_GAMEPAD_BUTTON = (\<lambda>b. case b of
        SC_GAMEPAD_BUTTON_UNKNOWN \<Rightarrow> - 1 | SC_GAMEPAD_BUTTON_SOUTH \<Rightarrow> 0 | SC_GAMEPAD_BUTTON_EAST \<Rightarrow> 1
      | SC_GAMEPAD_BUTTON_WEST \<Rightarrow> 2 | SC_GAMEPAD_BUTTON_NORTH \<Rightarrow> 3 | SC_GAMEPAD_BUTTON_BACK \<Rightarrow> 4
      | SC_GAMEPAD_BUTTON_GUIDE \<Rightarrow> 5 | SC_GAMEPAD_BUTTON_START \<Rightarrow> 6 | SC_GAMEPAD_BUTTON_LEFT_STICK \<Rightarrow> 7
      | SC_GAMEPAD_BUTTON_RIGHT_STICK \<Rightarrow> 8 | SC_GAMEPAD_BUTTON_LEFT_SHOULDER \<Rightarrow> 9
      | SC_GAMEPAD_BUTTON_RIGHT_SHOULDER \<Rightarrow> 10 | SC_GAMEPAD_BUTTON_DPAD_UP \<Rightarrow> 11
      | SC_GAMEPAD_BUTTON_DPAD_DOWN \<Rightarrow> 12 | SC_GAMEPAD_BUTTON_DPAD_LEFT \<Rightarrow> 13
      | SC_GAMEPAD_BUTTON_DPAD_RIGHT \<Rightarrow> 14),
     SDL_EVENT_KEY_DOWN = 0x300, SDL_EVENT_KEY_UP = 0x301,
     SDL_EVENT_MOUSE_BUTTON_DOWN = 0x401, SDL_EVENT_MOUSE_BUTTON_UP = 0x402,
     SDL_EVENT_FINGER_MOTION = 0x702, SDL_EVENT_FINGER_DOWN = 0x700, SDL_EVENT_FINGER_UP = 0x701,
     SDL_EVENT_GAMEPAD_BUTTON_DOWN = 0x651, SDL_EVENT_GAMEPAD_BUTTON_UP = 0x652\<rparr>"

lemma sdl3_documented: "sdl_documented sdl3"
  by (simp add: sdl_documented_def sdl3_def split: sc_gamepad_button.split)

section \<open>HID reports\<close>

text \<open>\<^verbatim>\<open>app/src/hid/hid_event.h\<close>\<close>

record sc_hid_input =
  hid_id :: u16
  hid_data :: byte_buf
  hid_size :: u8

record sc_hid_open =
  open_id :: u16
  report_desc :: byte_buf

record sc_hid_close =
  close_id :: u16

text \<open>A report structure as the caller provides it: its bytes are unspecified.\<close>

definition hid_input_ok :: "sc_hid_input \<Rightarrow> bool" where
  "hid_input_ok h \<longleftrightarrow> length (hid_data h) = SC_HID_MAX_SIZE"

abbreviation hid_bytes :: "sc_hid_input \<Rightarrow> byte_buf" where
  "hid_bytes h \<equiv> take (unat (hid_size h)) (hid_data h)"

text \<open>The items of a report descriptor, by the USB HID specification: a short item has a prefix byte, whose two low
  bits give the number of data bytes (3 stands for 4) and whose other bits are the tag.\<close>

definition item_size :: "u8 \<Rightarrow> nat" where
  "item_size prefix = (let n = unat (prefix AND 3) in if n = 3 then 4 else n)"

definition item_tag :: "u8 \<Rightarrow> u8" where
  "item_tag prefix = prefix AND 0xfc"

end
