(* ===== verification/HidKeyboard.thy ===== *)
theory HidKeyboard
  imports InputEvents
begin

text \<open>
  \<^verbatim>\<open>app/src/hid/hid_keyboard.c\<close>: the keyboard as a HID device. The state is one flag per key; every event
  produces a complete report of the keys pressed.
\<close>

definition SC_HID_KEYBOARD_KEYS :: nat where "SC_HID_KEYBOARD_KEYS = 0x66"
definition SC_HID_ID_KEYBOARD :: u16 where "SC_HID_ID_KEYBOARD = 1"
definition SC_HID_KEYBOARD_MAX_KEYS :: nat where "SC_HID_KEYBOARD_MAX_KEYS = 6"
definition SC_HID_KEYBOARD_INDEX_KEYS :: nat where "SC_HID_KEYBOARD_INDEX_KEYS = 2"
definition SC_HID_KEYBOARD_INPUT_SIZE :: nat where
  "SC_HID_KEYBOARD_INPUT_SIZE = SC_HID_KEYBOARD_INDEX_KEYS + SC_HID_KEYBOARD_MAX_KEYS"

lemmas kb_consts = SC_HID_KEYBOARD_KEYS_def SC_HID_KEYBOARD_MAX_KEYS_def SC_HID_KEYBOARD_INDEX_KEYS_def
  SC_HID_KEYBOARD_INPUT_SIZE_def

definition SC_HID_KEYBOARD_REPORT_DESC :: byte_buf where
  "SC_HID_KEYBOARD_REPORT_DESC =
    [0x05, 0x01, 0x09, 0x06,
     0xA1, 0x01,
     0x05, 0x07, 0x19, 0xE0, 0x29, 0xE7, 0x15, 0x00, 0x25, 0x01, 0x75, 0x01, 0x95, 0x08, 0x81, 0x02,
     0x75, 0x08, 0x95, 0x01, 0x81, 0x01,
     0x05, 0x08, 0x19, 0x01, 0x29, 0x05, 0x75, 0x01, 0x95, 0x05, 0x91, 0x02,
     0x75, 0x03, 0x95, 0x01, 0x91, 0x01,
     0x05, 0x07, 0x19, 0x00, 0x29, of_nat SC_HID_KEYBOARD_KEYS - 1, 0x15, 0x00,
     0x25, of_nat SC_HID_KEYBOARD_KEYS - 1, 0x75, 0x08, 0x95, of_nat SC_HID_KEYBOARD_MAX_KEYS, 0x81, 0x00,
     0xC0]"

record sc_hid_keyboard =
  kb_keys :: "bool list"

definition sc_hid_keyboard_input_init :: "sc_hid_input \<Rightarrow> sc_hid_input option" where
  "sc_hid_keyboard_input_init hid_input = do {
     d \<leftarrow> mem_set 0 0 (hid_data hid_input);
     d \<leftarrow> mem_set 1 0 d;
     d \<leftarrow> mem_write SC_HID_KEYBOARD_INDEX_KEYS (replicate SC_HID_KEYBOARD_MAX_KEYS 0) d;
     Some (hid_input\<lparr>hid_id := SC_HID_ID_KEYBOARD, hid_size := of_nat SC_HID_KEYBOARD_INPUT_SIZE, hid_data := d\<rparr>)
   }"

definition sc_hid_mod_from_sdl_keymod :: "sc_mod set \<Rightarrow> u16" where
  "sc_hid_mod_from_sdl_keymod m =
     (if SC_MOD_LCTRL \<in> m then 0x01 else 0) OR
     (if SC_MOD_LSHIFT \<in> m then 0x02 else 0) OR
     (if SC_MOD_LALT \<in> m then 0x04 else 0) OR
     (if SC_MOD_LGUI \<in> m then 0x08 else 0) OR
     (if SC_MOD_RCTRL \<in> m then 0x10 else 0) OR
     (if SC_MOD_RSHIFT \<in> m then 0x20 else 0) OR
     (if SC_MOD_RALT \<in> m then 0x40 else 0) OR
     (if SC_MOD_RGUI \<in> m then 0x80 else 0)"

definition sc_hid_keyboard_init :: sc_hid_keyboard where
  "sc_hid_keyboard_init = \<lparr>kb_keys = replicate SC_HID_KEYBOARD_KEYS False\<rparr>"

definition scancode_is_modifier :: "sdl_consts \<Rightarrow> int \<Rightarrow> bool" where
  "scancode_is_modifier sdl scancode \<longleftrightarrow> scancode \<ge> SDL_SCANCODE_LCTRL sdl \<and> scancode \<le> SDL_SCANCODE_RGUI sdl"

text \<open>The loop over the keys: \<open>i\<close> is the key, \<open>count\<close> the number of keys found so far.\<close>

fun keys_loop :: "bool list \<Rightarrow> nat \<Rightarrow> nat \<Rightarrow> byte_buf \<Rightarrow> byte_buf option" where
  "keys_loop [] i count d = Some d"
| "keys_loop (k # ks) i count d =
     (if k then
        (if count \<ge> SC_HID_KEYBOARD_MAX_KEYS
         then mem_write SC_HID_KEYBOARD_INDEX_KEYS (replicate SC_HID_KEYBOARD_MAX_KEYS 1) d
         else do {
           d \<leftarrow> mem_set (SC_HID_KEYBOARD_INDEX_KEYS + count) (of_nat i) d;
           keys_loop ks (i + 1) (count + 1) d
         })
      else keys_loop ks (i + 1) count d)"

definition sc_hid_keyboard_generate_input_from_key ::
  "sdl_consts \<Rightarrow> sc_hid_keyboard \<Rightarrow> sc_hid_input \<Rightarrow> sc_key_event \<Rightarrow>
   (bool \<times> sc_hid_keyboard \<times> sc_hid_input) option" where
  "sc_hid_keyboard_generate_input_from_key sdl hid hid_input event = do {
     let scancode = key_scancode event;
     c_assert (scancode \<ge> 0);
     if scancode \<ge> int SC_HID_KEYBOARD_KEYS \<and> \<not> scancode_is_modifier sdl scancode
     then Some (False, hid, hid_input)
     else do {
       hid_input \<leftarrow> sc_hid_keyboard_input_init hid_input;
       let mods = sc_hid_mod_from_sdl_keymod (key_mods_state event);
       hid \<leftarrow> (if scancode < int SC_HID_KEYBOARD_KEYS
               then do {
                 ks \<leftarrow> mem_set (nat scancode) (key_action event = SC_ACTION_DOWN) (kb_keys hid);
                 Some (hid\<lparr>kb_keys := ks\<rparr>)
               }
               else Some hid);
       d \<leftarrow> mem_set 0 (ucast mods) (hid_data hid_input);
       d \<leftarrow> keys_loop (kb_keys hid) 0 0 d;
       Some (True, hid, hid_input\<lparr>hid_data := d\<rparr>)
     }
   }"

definition sc_hid_keyboard_generate_input_from_mods ::
  "sdl_consts \<Rightarrow> sc_hid_input \<Rightarrow> sc_mod set \<Rightarrow> (bool \<times> sc_hid_input) option" where
  "sc_hid_keyboard_generate_input_from_mods sdl hid_input mods_state =
     (let capslock = (SC_MOD_CAPS \<in> mods_state); numlock = (SC_MOD_NUM \<in> mods_state) in
      if \<not> capslock \<and> \<not> numlock then Some (False, hid_input)
      else do {
        hid_input \<leftarrow> sc_hid_keyboard_input_init hid_input;
        (i, d) \<leftarrow> (if capslock
                   then do {
                     d \<leftarrow> mem_set SC_HID_KEYBOARD_INDEX_KEYS (of_int (SDL_SCANCODE_CAPSLOCK sdl)) (hid_data hid_input);
                     Some (1, d)
                   }
                   else Some (0, hid_data hid_input));
        d \<leftarrow> (if numlock
              then mem_set (SC_HID_KEYBOARD_INDEX_KEYS + i) (of_int (SDL_SCANCODE_NUMLOCKCLEAR sdl)) d
              else Some d);
        Some (True, hid_input\<lparr>hid_data := d\<rparr>)
      })"

definition sc_hid_keyboard_generate_open :: sc_hid_open where
  "sc_hid_keyboard_generate_open = \<lparr>open_id = SC_HID_ID_KEYBOARD, report_desc = SC_HID_KEYBOARD_REPORT_DESC\<rparr>"

definition sc_hid_keyboard_generate_close :: sc_hid_close where
  "sc_hid_keyboard_generate_close = \<lparr>close_id = SC_HID_ID_KEYBOARD\<rparr>"

section \<open>The report\<close>

definition kb_ok :: "sc_hid_keyboard \<Rightarrow> bool" where
  "kb_ok hid \<longleftrightarrow> length (kb_keys hid) = SC_HID_KEYBOARD_KEYS"

text \<open>The pressed keys in increasing order.\<close>

definition pressed :: "bool list \<Rightarrow> nat list" where
  "pressed ks = filter (\<lambda>i. ks ! i) [0..<length ks]"

definition key_bytes :: "nat list \<Rightarrow> byte_buf" where
  "key_bytes ps =
     (if length ps \<le> SC_HID_KEYBOARD_MAX_KEYS
      then map of_nat ps @ replicate (SC_HID_KEYBOARD_MAX_KEYS - length ps) 0
      else replicate SC_HID_KEYBOARD_MAX_KEYS 1)"

definition pressed_from :: "nat \<Rightarrow> bool list \<Rightarrow> nat list" where
  "pressed_from i ks = map (\<lambda>j. i + j) (pressed ks)"

lemma pressed_from_simps:
  "pressed_from i [] = []"
  "pressed_from i (k # ks) = (if k then [i] else []) @ pressed_from (i + 1) ks"
proof -
  have "[0..<length (k # ks)] = 0 # map Suc [0..<length ks]" by (simp add: upt_conv_Cons map_Suc_upt del: upt_Suc)
  then show "pressed_from i (k # ks) = (if k then [i] else []) @ pressed_from (i + 1) ks"
    by (simp add: pressed_from_def pressed_def filter_map comp_def del: upt_Suc)
qed (simp add: pressed_from_def pressed_def)

lemma input_init_eq:
  assumes "hid_input_ok h"
  shows "sc_hid_keyboard_input_init h =
    Some (h\<lparr>hid_id := SC_HID_ID_KEYBOARD, hid_size := 8, hid_data := replicate 8 0 @ drop 8 (hid_data h)\<rparr>)"
proof -
  have "length (hid_data h) = Suc (Suc 13)" using assms by (simp add: hid_input_ok_def SC_HID_MAX_SIZE_def)
  then obtain a b r where h: "hid_data h = a # b # r" "length r = 13"
    by (auto simp only: length_Suc_conv)
  have "replicate 8 (0 :: u8) = 0 # 0 # replicate 6 0" by (simp add: numeral_eq_Suc)
  with h show ?thesis
    by (simp add: sc_hid_keyboard_input_init_def kb_consts mem_set_def mem_write_def)
qed

lemma keys_loop_eq:
  assumes "length pre = 2" "count = length ps" "count \<le> 6"
  shows "keys_loop ks i count (pre @ map of_nat ps @ replicate (6 - count) 0 @ rest) =
    Some (pre @ key_bytes (ps @ pressed_from i ks) @ rest)"
  using assms
proof (induction ks arbitrary: i count ps)
  case Nil
  then show ?case by (simp add: key_bytes_def kb_consts pressed_from_simps)
next
  case (Cons k ks)
  show ?case
  proof (cases "k \<and> count < 6")
    case True
    then have r: "replicate (6 - count) (0 :: u8) = 0 # replicate (6 - Suc count) 0"
      by (metis Suc_diff_Suc replicate_Suc)
    have "keys_loop (k # ks) i count (pre @ map of_nat ps @ replicate (6 - count) 0 @ rest) =
      keys_loop ks (i + 1) (Suc count) (pre @ map of_nat (ps @ [i]) @ replicate (6 - Suc count) 0 @ rest)"
      using True Cons.prems r by (simp add: kb_consts mem_set_def list_update_append)
    with Cons.IH [of "Suc count" "ps @ [i]" "i + 1"] True Cons.prems show ?thesis
      by (simp add: pressed_from_simps)
  next
    case False
    show ?thesis
    proof (cases k)
      case True
      with False Cons.prems have "count = 6" by simp
      with True Cons.prems show ?thesis
        by (simp add: pressed_from_simps key_bytes_def kb_consts mem_write_def)
    next
      case F: False
      with Cons.IH [of count ps "i + 1"] Cons.prems show ?thesis by (simp add: pressed_from_simps)
    qed
  qed
qed

text \<open>The complete report for an event that is not ignored.\<close>

definition key_after :: "sc_key_event \<Rightarrow> sc_hid_keyboard \<Rightarrow> bool list" where
  "key_after event hid =
     (if key_scancode event < int SC_HID_KEYBOARD_KEYS
      then (kb_keys hid)[nat (key_scancode event) := (key_action event = SC_ACTION_DOWN)] else kb_keys hid)"

lemma from_key_eq:
  assumes "kb_ok hid" "hid_input_ok h" "0 \<le> key_scancode event"
    "key_scancode event < int SC_HID_KEYBOARD_KEYS \<or> scancode_is_modifier sdl (key_scancode event)"
  shows "sc_hid_keyboard_generate_input_from_key sdl hid h event =
    Some (True, hid\<lparr>kb_keys := key_after event hid\<rparr>,
      h\<lparr>hid_id := SC_HID_ID_KEYBOARD, hid_size := 8,
        hid_data := ucast (sc_hid_mod_from_sdl_keymod (key_mods_state event)) # 0 #
          key_bytes (pressed (key_after event hid)) @ drop 8 (hid_data h)\<rparr>)"
proof -
  let ?m = "ucast (sc_hid_mod_from_sdl_keymod (key_mods_state event)) :: u8"
  have "pressed_from 0 ks = pressed ks" for ks by (simp add: pressed_from_def)
  then have loop: "keys_loop ks 0 0 (?m # 0 # replicate 6 0 @ rest) =
      Some (?m # 0 # key_bytes (pressed ks) @ rest)" for ks rest
    using keys_loop_eq [of "[?m, 0]" 0 "[]" ks 0 rest] by simp
  have upd: "(if key_scancode event < int SC_HID_KEYBOARD_KEYS
      then Option.bind (mem_set (nat (key_scancode event)) (key_action event = SC_ACTION_DOWN) (kb_keys hid))
        (\<lambda>ks. Some (hid\<lparr>kb_keys := ks\<rparr>))
      else Some hid) = Some (hid\<lparr>kb_keys := key_after event hid\<rparr>)"
    using assms(1,3) by (auto simp: kb_ok_def mem_set_def key_after_def nat_less_iff)
  have "replicate 8 (0 :: u8) = 0 # 0 # replicate 6 0" by (simp add: numeral_eq_Suc)
  with assms(3,4) loop upd show ?thesis
    by (auto simp: sc_hid_keyboard_generate_input_from_key_def input_init_eq [OF assms(2)] mem_set_def)
qed

text \<open>Many events: what the state remembers.\<close>

definition relevant :: "sdl_consts \<Rightarrow> sc_key_event \<Rightarrow> bool" where
  "relevant sdl e \<longleftrightarrow> key_scancode e < int SC_HID_KEYBOARD_KEYS \<or> scancode_is_modifier sdl (key_scancode e)"

fun keyboard_run ::
  "sdl_consts \<Rightarrow> sc_hid_keyboard \<Rightarrow> sc_hid_input \<Rightarrow> sc_key_event list \<Rightarrow> (sc_hid_keyboard \<times> sc_hid_input) option" where
  "keyboard_run sdl hid h [] = Some (hid, h)"
| "keyboard_run sdl hid h (e # es) = do {
     (_, hid, h) \<leftarrow> sc_hid_keyboard_generate_input_from_key sdl hid h e;
     keyboard_run sdl hid h es
   }"

text \<open>Whether a key is down after a list of events: the last event of that key decides.\<close>

definition is_down :: "sc_key_event list \<Rightarrow> nat \<Rightarrow> bool" where
  "is_down es k = (case find (\<lambda>e. key_scancode e = int k) (rev es) of
                     None \<Rightarrow> False | Some e \<Rightarrow> key_action e = SC_ACTION_DOWN)"

lemma is_down_snoc:
  "is_down (es @ [e]) k = (if key_scancode e = int k then key_action e = SC_ACTION_DOWN else is_down es k)"
  by (simp add: is_down_def)

definition kb_after :: "sc_key_event list \<Rightarrow> bool list" where
  "kb_after es = map (is_down es) [0..<SC_HID_KEYBOARD_KEYS]"

lemma kb_after_snoc:
  assumes "0 \<le> key_scancode e"
  shows "key_after e \<lparr>kb_keys = kb_after es\<rparr> = kb_after (es @ [e])"
proof (rule nth_equalityI)
  show "length (key_after e \<lparr>kb_keys = kb_after es\<rparr>) = length (kb_after (es @ [e]))"
    by (simp add: key_after_def kb_after_def)
  fix i assume "i < length (key_after e \<lparr>kb_keys = kb_after es\<rparr>)"
  then have "i < SC_HID_KEYBOARD_KEYS" by (simp add: key_after_def kb_after_def split: if_splits)
  with assms show "key_after e \<lparr>kb_keys = kb_after es\<rparr> ! i = kb_after (es @ [e]) ! i"
    by (auto simp: key_after_def kb_after_def is_down_snoc nth_list_update)
qed

lemma keyboard_run_append:
  "keyboard_run sdl hid h (es @ fs) =
     Option.bind (keyboard_run sdl hid h es) (\<lambda>(hid, h). keyboard_run sdl hid h fs)"
  by (induction es arbitrary: hid h) (auto split: Option.bind_splits)

lemma ignored_eq:
  assumes "0 \<le> key_scancode e" "\<not> relevant sdl e"
  shows "sc_hid_keyboard_generate_input_from_key sdl hid h e = Some (False, hid, h)"
    "key_after e hid = kb_keys hid"
  using assms by (auto simp: sc_hid_keyboard_generate_input_from_key_def relevant_def key_after_def)

lemma length_key_bytes [simp]: "length (key_bytes ps) = 6"
  by (simp add: key_bytes_def kb_consts)

lemma from_key_ok:
  assumes "hid_input_ok h" "0 \<le> key_scancode e"
    "sc_hid_keyboard_generate_input_from_key sdl \<lparr>kb_keys = kb_after es\<rparr> h e = Some (ok, hid', h')"
  shows "hid' = \<lparr>kb_keys = kb_after (es @ [e])\<rparr> \<and> hid_input_ok h' \<and> ok = relevant sdl e"
proof (cases "relevant sdl e")
  case True
  have "kb_ok \<lparr>kb_keys = kb_after es\<rparr>" by (simp add: kb_ok_def kb_after_def)
  from from_key_eq [OF this assms(1,2), of sdl] True assms(1,3) kb_after_snoc [OF assms(2)] show ?thesis
    by (auto simp: relevant_def hid_input_ok_def SC_HID_MAX_SIZE_def)
next
  case False
  with ignored_eq [OF assms(2) False, of "\<lparr>kb_keys = kb_after es\<rparr>"] kb_after_snoc [OF assms(2), of es] assms
  show ?thesis by auto
qed

lemma from_key_total:
  assumes "kb_ok hid" "hid_input_ok h" "0 \<le> key_scancode e"
  shows "\<exists>r. sc_hid_keyboard_generate_input_from_key sdl hid h e = Some r"
  using from_key_eq [OF assms] ignored_eq(1) [OF assms(3)] by (cases "relevant sdl e") (auto simp: relevant_def)

lemma keyboard_run_state:
  assumes "hid_input_ok h" "\<forall>e \<in> set es. 0 \<le> key_scancode e"
  shows "\<exists>h'. keyboard_run sdl sc_hid_keyboard_init h es = Some (\<lparr>kb_keys = kb_after es\<rparr>, h') \<and> hid_input_ok h'"
  using assms(2)
proof (induction es rule: rev_induct)
  case Nil
  have "is_down [] = (\<lambda>_. False)" by (rule ext) (simp add: is_down_def)
  then have "sc_hid_keyboard_init = \<lparr>kb_keys = kb_after []\<rparr>"
    by (simp add: sc_hid_keyboard_init_def kb_after_def map_replicate_const)
  with assms(1) show ?case by simp
next
  case (snoc e es)
  then obtain h1 where h1: "keyboard_run sdl sc_hid_keyboard_init h es = Some (\<lparr>kb_keys = kb_after es\<rparr>, h1)"
    "hid_input_ok h1" by auto
  have e: "0 \<le> key_scancode e" using snoc.prems by simp
  have "kb_ok \<lparr>kb_keys = kb_after es\<rparr>" by (simp add: kb_ok_def kb_after_def)
  from from_key_total [OF this h1(2) e, of sdl] obtain ok hid' h' where
    r: "sc_hid_keyboard_generate_input_from_key sdl \<lparr>kb_keys = kb_after es\<rparr> h1 e = Some (ok, hid', h')" by auto
  with from_key_ok [OF h1(2) e r] h1(1) show ?case by (simp add: keyboard_run_append)
qed

section \<open>Properties\<close>

text \<open>What the device sees of the keyboard: after any sequence of key events from the start, an event
  that is not ignored produces a report of 8 bytes that gives the modifiers held, a reserved zero, and
  exactly the keys that are down (those whose last event is a press) in increasing order, padded with
  zeros, when they are at most 6, or the roll-over error six times when they are more.\<close>

theorem keyboard_report_correct:
  assumes "hid_input_ok h" "\<forall>e \<in> set (es @ [e]). 0 \<le> key_scancode e" "relevant sdl e"
  shows "\<exists>hid h'. keyboard_run sdl sc_hid_keyboard_init h (es @ [e]) = Some (hid, h') \<and>
           hid_id h' = SC_HID_ID_KEYBOARD \<and>
           hid_bytes h' = ucast (sc_hid_mod_from_sdl_keymod (key_mods_state e)) # 0 #
             (let down = filter (is_down (es @ [e])) [0..<SC_HID_KEYBOARD_KEYS] in
              if length down \<le> 6 then map of_nat down @ replicate (6 - length down) 0 else replicate 6 1)"
proof -
  obtain h1 where h1: "keyboard_run sdl sc_hid_keyboard_init h es = Some (\<lparr>kb_keys = kb_after es\<rparr>, h1)"
    "hid_input_ok h1" using keyboard_run_state [OF assms(1), of es] assms(2) by auto
  have e: "0 \<le> key_scancode e" using assms(2) by simp
  have "kb_ok \<lparr>kb_keys = kb_after es\<rparr>" by (simp add: kb_ok_def kb_after_def)
  note gen = from_key_eq [OF this h1(2) e assms(3) [unfolded relevant_def]]
  have "pressed (kb_after (es @ [e])) = filter (is_down (es @ [e])) [0..<SC_HID_KEYBOARD_KEYS]"
    by (auto simp: pressed_def kb_after_def intro: filter_cong)
  with gen h1(1) kb_after_snoc [OF e, of es] show ?thesis
    by (simp add: keyboard_run_append key_bytes_def Let_def SC_HID_KEYBOARD_MAX_KEYS_def)
qed

theorem keyboard_report_correct_witness:
  "\<exists>hid h'. keyboard_run sdl3 sc_hid_keyboard_init \<lparr>hid_id = 0, hid_data = replicate 15 9, hid_size = 0\<rparr>
      [\<lparr>key_action = SC_ACTION_DOWN, key_keycode = 0, key_scancode = 4, key_mods_state = {SC_MOD_LSHIFT}, key_repeat = False\<rparr>]
    = Some (hid, h') \<and> hid_bytes h' = [2, 0, 4, 0, 0, 0, 0, 0]"
proof -
  let ?h = "\<lparr>hid_id = 0, hid_data = replicate 15 9, hid_size = 0\<rparr>"
  let ?e = "\<lparr>key_action = SC_ACTION_DOWN, key_keycode = 0, key_scancode = 4,
             key_mods_state = {SC_MOD_LSHIFT}, key_repeat = False\<rparr>"
  have "hid_input_ok ?h" "\<forall>e \<in> set ([] @ [?e]). 0 \<le> key_scancode e" "relevant sdl3 ?e"
    by (simp_all add: hid_input_ok_def SC_HID_MAX_SIZE_def relevant_def kb_consts)
  moreover have "filter (is_down ([] @ [?e])) [0..<SC_HID_KEYBOARD_KEYS] = [4]"
    by (simp add: is_down_def SC_HID_KEYBOARD_KEYS_def upt_rec)
  moreover have "ucast (sc_hid_mod_from_sdl_keymod (key_mods_state ?e)) = (2 :: u8)"
    by (simp add: sc_hid_mod_from_sdl_keymod_def)
  ultimately show ?thesis
    using keyboard_report_correct [of ?h "[]" ?e sdl3] by (auto simp: numeral_eq_Suc)
qed

end
