(* ===== verification/HidMouse.thy ===== *)
theory HidMouse
  imports InputEvents
begin

text \<open>
  \<^verbatim>\<open>app/src/hid/hid_mouse.c\<close>: the mouse as a HID device. Scroll amounts are floats: the addition to the
  residual rounds, by the parameter \<open>rnd\<close>; clamping, truncation and the subtraction of the integer part
  are exact in binary floating point.
\<close>

definition SC_HID_ID_MOUSE :: u16 where "SC_HID_ID_MOUSE = 2"
definition SC_HID_MOUSE_INPUT_SIZE :: nat where "SC_HID_MOUSE_INPUT_SIZE = 5"

definition SC_HID_MOUSE_REPORT_DESC :: byte_buf where
  "SC_HID_MOUSE_REPORT_DESC =
    [0x05, 0x01, 0x09, 0x02,
     0xA1, 0x01, 0x09, 0x01,
     0xA1, 0x00,
     0x05, 0x09, 0x19, 0x01, 0x29, 0x05, 0x15, 0x00, 0x25, 0x01, 0x95, 0x05, 0x75, 0x01, 0x81, 0x02,
     0x95, 0x01, 0x75, 0x03, 0x81, 0x01,
     0x05, 0x01, 0x09, 0x30, 0x09, 0x31, 0x09, 0x38, 0x15, 0x81, 0x25, 0x7F, 0x75, 0x08, 0x95, 0x03, 0x81, 0x06,
     0x05, 0x0C, 0x0A, 0x38, 0x02, 0x15, 0x81, 0x25, 0x7F, 0x75, 0x08, 0x95, 0x01, 0x81, 0x06,
     0xC0,
     0xC0]"

record sc_hid_mouse =
  residual_hscroll :: rat
  residual_vscroll :: rat

definition sc_hid_mouse_input_init :: "sc_hid_input \<Rightarrow> sc_hid_input" where
  "sc_hid_mouse_input_init hid_input =
     hid_input\<lparr>hid_id := SC_HID_ID_MOUSE, hid_size := of_nat SC_HID_MOUSE_INPUT_SIZE\<rparr>"

definition sc_hid_buttons_from_buttons_state :: "sc_mouse_button set \<Rightarrow> u8" where
  "sc_hid_buttons_from_buttons_state buttons_state =
     (if SC_MOUSE_BUTTON_LEFT \<in> buttons_state then 1 else 0) OR
     (if SC_MOUSE_BUTTON_RIGHT \<in> buttons_state then 2 else 0) OR
     (if SC_MOUSE_BUTTON_MIDDLE \<in> buttons_state then 4 else 0) OR
     (if SC_MOUSE_BUTTON_X1 \<in> buttons_state then 8 else 0) OR
     (if SC_MOUSE_BUTTON_X2 \<in> buttons_state then 16 else 0)"

definition sc_hid_mouse_init :: sc_hid_mouse where
  "sc_hid_mouse_init = \<lparr>residual_hscroll = 0, residual_vscroll = 0\<rparr>"

text \<open>The five stores \<^verbatim>\<open>data[0]\<close> to \<^verbatim>\<open>data[4]\<close> of the three functions below.\<close>

definition mouse_store :: "u8 \<Rightarrow> u8 \<Rightarrow> u8 \<Rightarrow> u8 \<Rightarrow> u8 \<Rightarrow> sc_hid_input \<Rightarrow> sc_hid_input option" where
  "mouse_store b x y v h hid_input = do {
     d \<leftarrow> mem_set 0 b (hid_data hid_input);
     d \<leftarrow> mem_set 1 x d;
     d \<leftarrow> mem_set 2 y d;
     d \<leftarrow> mem_set 3 v d;
     d \<leftarrow> mem_set 4 h d;
     Some (hid_input\<lparr>hid_data := d\<rparr>)
   }"

definition clamp127 :: "'a :: linordered_idom \<Rightarrow> 'a" where
  "clamp127 v = min (max v (- 127)) 127"

definition sc_hid_mouse_generate_input_from_motion ::
  "sc_hid_input \<Rightarrow> sc_mouse_motion_event \<Rightarrow> sc_hid_input option" where
  "sc_hid_mouse_generate_input_from_motion hid_input event =
     mouse_store (sc_hid_buttons_from_buttons_state (motion_buttons_state event))
       (of_int (clamp127 (xrel event))) (of_int (clamp127 (yrel event))) 0 0
       (sc_hid_mouse_input_init hid_input)"

definition sc_hid_mouse_generate_input_from_click ::
  "sc_hid_input \<Rightarrow> sc_mouse_click_event \<Rightarrow> sc_hid_input option" where
  "sc_hid_mouse_generate_input_from_click hid_input event =
     mouse_store (sc_hid_buttons_from_buttons_state (click_buttons_state event)) 0 0 0 0
       (sc_hid_mouse_input_init hid_input)"

text \<open>The integer to inject and the residual.\<close>

definition consume_scroll_integer :: "rat \<Rightarrow> int \<times> rat" where
  "consume_scroll_integer scroll =
     (let value = clamp127 scroll; consume = trunc_rat value in (consume, value - of_int consume))"

definition sc_hid_mouse_generate_input_from_scroll ::
  "(rat \<Rightarrow> rat) \<Rightarrow> sc_hid_mouse \<Rightarrow> sc_hid_input \<Rightarrow> sc_mouse_scroll_event \<Rightarrow>
   (bool \<times> sc_hid_mouse \<times> sc_hid_input) option" where
  "sc_hid_mouse_generate_input_from_scroll rnd hid hid_input event =
     (let hid_input = sc_hid_mouse_input_init hid_input;
          (h, rh) = consume_scroll_integer (rnd (residual_hscroll hid + hscroll event));
          (v, rv) = consume_scroll_integer (rnd (residual_vscroll hid + vscroll event));
          hid = \<lparr>residual_hscroll = rh, residual_vscroll = rv\<rparr> in
      if h = 0 \<and> v = 0 then Some (False, hid, hid_input)
      else do {
        hid_input \<leftarrow> mouse_store 0 0 0 (of_int v) (of_int h) hid_input;
        Some (True, hid, hid_input)
      })"

definition sc_hid_mouse_generate_open :: sc_hid_open where
  "sc_hid_mouse_generate_open = \<lparr>open_id = SC_HID_ID_MOUSE, report_desc = SC_HID_MOUSE_REPORT_DESC\<rparr>"

definition sc_hid_mouse_generate_close :: sc_hid_close where
  "sc_hid_mouse_generate_close = \<lparr>close_id = SC_HID_ID_MOUSE\<rparr>"

section \<open>Reports\<close>

lemma mouse_store_eq:
  assumes "hid_input_ok hi"
  obtains hi' where "mouse_store b x y v h (sc_hid_mouse_input_init hi) = Some hi'"
    "hid_id hi' = SC_HID_ID_MOUSE" "hid_bytes hi' = [b, x, y, v, h]" "hid_input_ok hi'"
proof -
  have "length (hid_data hi) = Suc (Suc (Suc (Suc (Suc 10))))"
    using assms by (simp add: hid_input_ok_def SC_HID_MAX_SIZE_def)
  then obtain a0 a1 a2 a3 a4 r where "hid_data hi = a0 # a1 # a2 # a3 # a4 # r" "length r = 10"
    by (auto simp only: length_Suc_conv)
  then show thesis
    using that [of "hi\<lparr>hid_id := SC_HID_ID_MOUSE, hid_size := 5, hid_data := b # x # y # v # h # r\<rparr>"]
    by (simp add: mouse_store_def sc_hid_mouse_input_init_def mem_set_def SC_HID_MOUSE_INPUT_SIZE_def
        hid_input_ok_def SC_HID_MAX_SIZE_def)
qed

text \<open>A signed byte holds a clamped value.\<close>

lemma sint_clamp: "\<bar>k\<bar> \<le> 127 \<Longrightarrow> sint (of_int k :: u8) = k"
  by (simp add: signed_of_int signed_take_bit_int_eq_self)

lemma abs_clamp127: "\<bar>clamp127 (k :: int)\<bar> \<le> 127"
  by (auto simp: clamp127_def)

lemma consume_bounds:
  assumes "consume_scroll_integer s = (c, r)"
  shows "of_int c + r = clamp127 s" "\<bar>r\<bar> < 1" "\<bar>c\<bar> \<le> 127" "0 \<le> of_int c * s"
proof -
  define v where "v = clamp127 s"
  have c: "c = trunc_rat v" "r = v - of_int c"
    using assms by (simp_all add: consume_scroll_integer_def Let_def v_def)
  then show "of_int c + r = clamp127 s" by (simp add: v_def)
  have b: "- 127 \<le> v" "v \<le> 127" by (simp_all add: v_def clamp127_def)
  show "\<bar>r\<bar> < 1" using trunc_rat_bounds(1) [of v] c by simp
  show "\<bar>c\<bar> \<le> 127" using b unfolding c(1) by (auto simp: trunc_rat_def abs_le_iff) linarith+
  have "0 \<le> s \<Longrightarrow> 0 \<le> v" "s \<le> 0 \<Longrightarrow> v \<le> 0" by (auto simp: v_def clamp127_def)
  then show "0 \<le> of_int c * s"
    unfolding c(1) by (auto simp: trunc_rat_def zero_le_mult_iff)
qed

section \<open>Properties\<close>

text \<open>Mouse motion and clicks: the report has 5 bytes, the buttons first, then the motion clamped to
  -127..127 as signed bytes, and no scrolling.\<close>

theorem mouse_motion_report:
  assumes "hid_input_ok h"
  shows "\<exists>h' x y. sc_hid_mouse_generate_input_from_motion h event = Some h' \<and>
           hid_bytes h' = [sc_hid_buttons_from_buttons_state (motion_buttons_state event), x, y, 0, 0] \<and>
           sint x = min (max (xrel event) (- 127)) 127 \<and> sint y = min (max (yrel event) (- 127)) 127"
proof -
  let ?x = "of_int (clamp127 (xrel event)) :: u8" and ?y = "of_int (clamp127 (yrel event)) :: u8"
  obtain h' where "sc_hid_mouse_generate_input_from_motion h event = Some h'"
    "hid_bytes h' = [sc_hid_buttons_from_buttons_state (motion_buttons_state event), ?x, ?y, 0, 0]"
    unfolding sc_hid_mouse_generate_input_from_motion_def by (rule mouse_store_eq [OF assms])
  moreover have "sint ?x = clamp127 (xrel event)" "sint ?y = clamp127 (yrel event)"
    by (simp_all only: sint_clamp abs_clamp127)
  ultimately show ?thesis unfolding clamp127_def by blast
qed

theorem mouse_motion_report_witness:
  "\<exists>h' x y. sc_hid_mouse_generate_input_from_motion \<lparr>hid_id = 0, hid_data = replicate 15 9, hid_size = 0\<rparr>
      \<lparr>motion_position = \<lparr>screen_size = \<lparr>width = 1, height = 1\<rparr>, point = \<lparr>point_x = 0, point_y = 0\<rparr>\<rparr>,
       motion_pointer_id = 0, xrel = 300, yrel = - 4, motion_buttons_state = {SC_MOUSE_BUTTON_LEFT}\<rparr> = Some h' \<and>
     hid_bytes h' = [1, x, y, 0, 0] \<and> sint x = 127 \<and> sint y = - 4"
proof -
  have "hid_input_ok \<lparr>hid_id = 0, hid_data = replicate 15 9, hid_size = 0\<rparr>"
    by (simp add: hid_input_ok_def SC_HID_MAX_SIZE_def)
  from mouse_motion_report [OF this, of "\<lparr>motion_position = \<lparr>screen_size = \<lparr>width = 1, height = 1\<rparr>,
       point = \<lparr>point_x = 0, point_y = 0\<rparr>\<rparr>, motion_pointer_id = 0, xrel = 300, yrel = - 4,
       motion_buttons_state = {SC_MOUSE_BUTTON_LEFT}\<rparr>"]
  show ?thesis by (simp add: sc_hid_buttons_from_buttons_state_def)
qed

text \<open>No scrolling is lost or made up: whatever the rounding of the float addition, the integer
  injected in each direction plus the residual kept is the accumulated amount clamped to -127..127, the
  residual is smaller than one step, the injected bytes are exactly these integers, and no report is
  produced exactly when both are zero.\<close>

theorem mouse_scroll_conserved:
  assumes "hid_input_ok h"
  shows "\<exists>ok hid' h' ch cv.
           sc_hid_mouse_generate_input_from_scroll rnd hid h event = Some (ok, hid', h') \<and>
           of_int ch + residual_hscroll hid' = clamp127 (rnd (residual_hscroll hid + hscroll event)) \<and>
           of_int cv + residual_vscroll hid' = clamp127 (rnd (residual_vscroll hid + vscroll event)) \<and>
           \<bar>residual_hscroll hid'\<bar> < 1 \<and> \<bar>residual_vscroll hid'\<bar> < 1 \<and>
           (ok \<longleftrightarrow> ch \<noteq> 0 \<or> cv \<noteq> 0) \<and>
           (ok \<longrightarrow> map sint (hid_bytes h') = [0, 0, 0, cv, ch])"
proof -
  obtain ch rh where h: "consume_scroll_integer (rnd (residual_hscroll hid + hscroll event)) = (ch, rh)" by force
  obtain cv rv where v: "consume_scroll_integer (rnd (residual_vscroll hid + vscroll event)) = (cv, rv)" by force
  note hb = consume_bounds [OF h] and vb = consume_bounds [OF v]
  obtain h1 where h1: "mouse_store 0 0 0 (of_int cv) (of_int ch) (sc_hid_mouse_input_init h) = Some h1"
    "hid_bytes h1 = [0, 0, 0, of_int cv, of_int ch]" by (rule mouse_store_eq [OF assms])
  have "map sint (hid_bytes h1) = [0, 0, 0, cv, ch]" using h1(2) hb(3) vb(3) by (simp add: sint_clamp)
  moreover have "sc_hid_mouse_generate_input_from_scroll rnd hid h event =
    Some (\<not> (ch = 0 \<and> cv = 0), \<lparr>residual_hscroll = rh, residual_vscroll = rv\<rparr>,
          if ch = 0 \<and> cv = 0 then sc_hid_mouse_input_init h else h1)"
    using h v h1(1) by (auto simp: sc_hid_mouse_generate_input_from_scroll_def Let_def)
  ultimately show ?thesis
    using hb(1,2) vb(1,2)
    by (intro exI [of _ "\<not> (ch = 0 \<and> cv = 0)"] exI [of _ "\<lparr>residual_hscroll = rh, residual_vscroll = rv\<rparr>"]
        exI [of _ "if ch = 0 \<and> cv = 0 then sc_hid_mouse_input_init h else h1"] exI [of _ ch] exI [of _ cv])
      (simp del: map_eq_Cons_conv)
qed

theorem mouse_scroll_conserved_witness:
  "\<exists>ok hid' h' cv.
     sc_hid_mouse_generate_input_from_scroll (\<lambda>x. x) sc_hid_mouse_init
       \<lparr>hid_id = 0, hid_data = replicate 15 9, hid_size = 0\<rparr>
       \<lparr>scroll_position = \<lparr>screen_size = \<lparr>width = 1, height = 1\<rparr>, point = \<lparr>point_x = 0, point_y = 0\<rparr>\<rparr>,
        hscroll = 0, vscroll = 5 / 2, scroll_buttons_state = {}\<rparr> = Some (ok, hid', h') \<and>
     of_int cv + residual_vscroll hid' = 5 / 2 \<and> \<bar>residual_vscroll hid'\<bar> < 1"
proof -
  let ?h = "\<lparr>hid_id = 0, hid_data = replicate 15 9, hid_size = 0\<rparr>"
  let ?e = "\<lparr>scroll_position = \<lparr>screen_size = \<lparr>width = 1, height = 1\<rparr>, point = \<lparr>point_x = 0, point_y = 0\<rparr>\<rparr>,
        hscroll = 0, vscroll = 5 / 2, scroll_buttons_state = {}\<rparr>"
  have "hid_input_ok ?h" by (simp add: hid_input_ok_def SC_HID_MAX_SIZE_def)
  from mouse_scroll_conserved [OF this, of "\<lambda>x. x" sc_hid_mouse_init ?e] obtain ok hid' h' cv where
    "sc_hid_mouse_generate_input_from_scroll (\<lambda>x. x) sc_hid_mouse_init ?h ?e = Some (ok, hid', h')"
    "of_int cv + residual_vscroll hid' = clamp127 (residual_vscroll sc_hid_mouse_init + vscroll ?e)"
    "\<bar>residual_vscroll hid'\<bar> < 1" by blast
  moreover have "clamp127 (residual_vscroll sc_hid_mouse_init + vscroll ?e) = 5 / 2"
    by (simp add: sc_hid_mouse_init_def clamp127_def)
  ultimately show ?thesis by metis
qed

end
