(* ===== verification/HidGamepad.thy ===== *)
theory HidGamepad
  imports InputEvents
begin

text \<open>
  \<^verbatim>\<open>app/src/hid/hid_gamepad.c\<close>: up to eight gamepads as HID devices. Each has a slot with the state of its
  buttons and axes; every event produces the complete report of its slot.
\<close>

definition SC_MAX_GAMEPADS :: nat where "SC_MAX_GAMEPADS = 8"
definition SC_HID_ID_GAMEPAD_FIRST :: u16 where "SC_HID_ID_GAMEPAD_FIRST = 3"
definition SC_HID_GAMEPAD_EVENT_SIZE :: nat where "SC_HID_GAMEPAD_EVENT_SIZE = 15"
definition SC_HID_BUTTONS_MASK :: u32 where "SC_HID_BUTTONS_MASK = 0xFFFF"

definition SC_GAMEPAD_BUTTONS_BIT_DPAD_UP :: u32 where "SC_GAMEPAD_BUTTONS_BIT_DPAD_UP = 0x10000"
definition SC_GAMEPAD_BUTTONS_BIT_DPAD_DOWN :: u32 where "SC_GAMEPAD_BUTTONS_BIT_DPAD_DOWN = 0x20000"
definition SC_GAMEPAD_BUTTONS_BIT_DPAD_LEFT :: u32 where "SC_GAMEPAD_BUTTONS_BIT_DPAD_LEFT = 0x40000"
definition SC_GAMEPAD_BUTTONS_BIT_DPAD_RIGHT :: u32 where "SC_GAMEPAD_BUTTONS_BIT_DPAD_RIGHT = 0x80000"

lemmas dpad_bits = SC_GAMEPAD_BUTTONS_BIT_DPAD_UP_def SC_GAMEPAD_BUTTONS_BIT_DPAD_DOWN_def
  SC_GAMEPAD_BUTTONS_BIT_DPAD_LEFT_def SC_GAMEPAD_BUTTONS_BIT_DPAD_RIGHT_def

definition SC_HID_GAMEPAD_REPORT_DESC :: byte_buf where
  "SC_HID_GAMEPAD_REPORT_DESC =
    [0x05, 0x01, 0x09, 0x05,
     0xA1, 0x01,
     0xA1, 0x00,
     0x05, 0x01, 0x09, 0x30, 0x09, 0x31, 0x09, 0x33, 0x09, 0x34, 0x15, 0x00,
     0x27, 0xFF, 0xFF, 0x00, 0x00, 0x75, 0x10, 0x95, 0x04, 0x81, 0x02,
     0x05, 0x01, 0x09, 0x32, 0x09, 0x35, 0x15, 0x00, 0x26, 0xFF, 0x7F, 0x75, 0x10, 0x95, 0x02, 0x81, 0x02,
     0x05, 0x09, 0x19, 0x01, 0x29, 0x10, 0x15, 0x00, 0x25, 0x01, 0x95, 0x10, 0x75, 0x01, 0x81, 0x02,
     0x05, 0x01, 0x09, 0x39, 0x15, 0x01, 0x25, 0x08, 0x75, 0x04, 0x95, 0x01, 0x81, 0x42,
     0xC0,
     0xC0]"

record sc_hid_gamepad_slot =
  slot_gamepad_id :: u32
  slot_buttons :: u32
  axis_left_x :: u16
  axis_left_y :: u16
  axis_right_x :: u16
  axis_right_y :: u16
  axis_left_trigger :: u16
  axis_right_trigger :: u16

record sc_hid_gamepad =
  slots :: "sc_hid_gamepad_slot list"

text \<open>\<^verbatim>\<open>AXIS_RESCALE\<close>: the value is an \<^verbatim>\<open>int16_t\<close>, the sum an \<^verbatim>\<open>int32_t\<close>, the result its low 16 bits.\<close>

definition AXIS_RESCALE :: "u16 \<Rightarrow> u16" where
  "AXIS_RESCALE v = ucast (scast v + 0x8000 :: u32)"

definition sc_hid_gamepad_slot_init :: "u32 \<Rightarrow> sc_hid_gamepad_slot option" where
  "sc_hid_gamepad_slot_init gamepad_id = do {
     c_assert (gamepad_id \<noteq> SC_GAMEPAD_ID_INVALID);
     Some \<lparr>slot_gamepad_id = gamepad_id, slot_buttons = 0,
           axis_left_x = AXIS_RESCALE 0, axis_left_y = AXIS_RESCALE 0,
           axis_right_x = AXIS_RESCALE 0, axis_right_y = AXIS_RESCALE 0,
           axis_left_trigger = 0, axis_right_trigger = 0\<rparr>
   }"

text \<open>The loop of \<^verbatim>\<open>sc_hid_gamepad_slot_find\<close>; -1 is \<open>None\<close>.\<close>

fun slot_find_from :: "nat \<Rightarrow> sc_hid_gamepad_slot list \<Rightarrow> u32 \<Rightarrow> nat option" where
  "slot_find_from i [] gamepad_id = None"
| "slot_find_from i (s # ss) gamepad_id =
     (if gamepad_id = slot_gamepad_id s then Some i else slot_find_from (i + 1) ss gamepad_id)"

definition sc_hid_gamepad_slot_find :: "sc_hid_gamepad \<Rightarrow> u32 \<Rightarrow> nat option" where
  "sc_hid_gamepad_slot_find hid gamepad_id = slot_find_from 0 (slots hid) gamepad_id"

text \<open>The other fields of the slots are not initialised; \<open>junk\<close> are their values.\<close>

definition sc_hid_gamepad_init :: "sc_hid_gamepad_slot list \<Rightarrow> sc_hid_gamepad" where
  "sc_hid_gamepad_init junk =
     \<lparr>slots = map (\<lambda>s. s\<lparr>slot_gamepad_id := SC_GAMEPAD_ID_INVALID\<rparr>) junk\<rparr>"

definition sc_hid_gamepad_slot_get_id :: "nat \<Rightarrow> u16 option" where
  "sc_hid_gamepad_slot_get_id slot_idx = do {
     c_assert (slot_idx < SC_MAX_GAMEPADS);
     Some (SC_HID_ID_GAMEPAD_FIRST + of_nat slot_idx)
   }"

text \<open>The result of opening: whether it succeeded, the state, and what to send when it did.\<close>

definition sc_hid_gamepad_generate_open ::
  "sc_hid_gamepad \<Rightarrow> u32 \<Rightarrow> (sc_hid_gamepad \<times> sc_hid_open option) option" where
  "sc_hid_gamepad_generate_open hid gamepad_id = do {
     c_assert (gamepad_id \<noteq> SC_GAMEPAD_ID_INVALID);
     (case sc_hid_gamepad_slot_find hid SC_GAMEPAD_ID_INVALID of
        None \<Rightarrow> Some (hid, None)
      | Some slot_idx \<Rightarrow> do {
          slot \<leftarrow> sc_hid_gamepad_slot_init gamepad_id;
          ss \<leftarrow> mem_set slot_idx slot (slots hid);
          i \<leftarrow> sc_hid_gamepad_slot_get_id slot_idx;
          Some (hid\<lparr>slots := ss\<rparr>, Some \<lparr>open_id = i, report_desc = SC_HID_GAMEPAD_REPORT_DESC\<rparr>)
        })
   }"

definition sc_hid_gamepad_generate_close ::
  "sc_hid_gamepad \<Rightarrow> u32 \<Rightarrow> (sc_hid_gamepad \<times> sc_hid_close option) option" where
  "sc_hid_gamepad_generate_close hid gamepad_id = do {
     c_assert (gamepad_id \<noteq> SC_GAMEPAD_ID_INVALID);
     (case sc_hid_gamepad_slot_find hid gamepad_id of
        None \<Rightarrow> Some (hid, None)
      | Some slot_idx \<Rightarrow> do {
          slot \<leftarrow> mem_get slot_idx (slots hid);
          ss \<leftarrow> mem_set slot_idx (slot\<lparr>slot_gamepad_id := SC_GAMEPAD_ID_INVALID\<rparr>) (slots hid);
          i \<leftarrow> sc_hid_gamepad_slot_get_id slot_idx;
          Some (hid\<lparr>slots := ss\<rparr>, Some \<lparr>close_id = i\<rparr>)
        })
   }"

definition sc_hid_gamepad_get_dpad_value :: "u32 \<Rightarrow> u8" where
  "sc_hid_gamepad_get_dpad_value buttons =
     (let up = (buttons AND SC_GAMEPAD_BUTTONS_BIT_DPAD_UP \<noteq> 0);
          down = (buttons AND SC_GAMEPAD_BUTTONS_BIT_DPAD_DOWN \<noteq> 0);
          left = (buttons AND SC_GAMEPAD_BUTTONS_BIT_DPAD_LEFT \<noteq> 0);
          right = (buttons AND SC_GAMEPAD_BUTTONS_BIT_DPAD_RIGHT \<noteq> 0) in
      if up then (if left then 8 else if right then 2 else 1)
      else if down then (if left then 6 else if right then 4 else 5)
      else if left then 7
      else if right then 3
      else 0)"

definition sc_hid_gamepad_event_from_slot ::
  "u16 \<Rightarrow> sc_hid_gamepad_slot \<Rightarrow> sc_hid_input \<Rightarrow> sc_hid_input option" where
  "sc_hid_gamepad_event_from_slot i slot hid_input = do {
     d \<leftarrow> sc_write16le 0 (axis_left_x slot) (hid_data hid_input);
     d \<leftarrow> sc_write16le 2 (axis_left_y slot) d;
     d \<leftarrow> sc_write16le 4 (axis_right_x slot) d;
     d \<leftarrow> sc_write16le 6 (axis_right_y slot) d;
     d \<leftarrow> sc_write16le 8 (axis_left_trigger slot) d;
     d \<leftarrow> sc_write16le 10 (axis_right_trigger slot) d;
     d \<leftarrow> sc_write16le 12 (ucast (slot_buttons slot AND SC_HID_BUTTONS_MASK)) d;
     d \<leftarrow> mem_set 14 (sc_hid_gamepad_get_dpad_value (slot_buttons slot)) d;
     Some (hid_input\<lparr>hid_id := i, hid_size := of_nat SC_HID_GAMEPAD_EVENT_SIZE, hid_data := d\<rparr>)
   }"

fun sc_hid_gamepad_get_button_id :: "sc_gamepad_button \<Rightarrow> u32" where
  "sc_hid_gamepad_get_button_id SC_GAMEPAD_BUTTON_SOUTH = 0x0001"
| "sc_hid_gamepad_get_button_id SC_GAMEPAD_BUTTON_EAST = 0x0002"
| "sc_hid_gamepad_get_button_id SC_GAMEPAD_BUTTON_WEST = 0x0008"
| "sc_hid_gamepad_get_button_id SC_GAMEPAD_BUTTON_NORTH = 0x0010"
| "sc_hid_gamepad_get_button_id SC_GAMEPAD_BUTTON_BACK = 0x0400"
| "sc_hid_gamepad_get_button_id SC_GAMEPAD_BUTTON_GUIDE = 0x1000"
| "sc_hid_gamepad_get_button_id SC_GAMEPAD_BUTTON_START = 0x0800"
| "sc_hid_gamepad_get_button_id SC_GAMEPAD_BUTTON_LEFT_STICK = 0x2000"
| "sc_hid_gamepad_get_button_id SC_GAMEPAD_BUTTON_RIGHT_STICK = 0x4000"
| "sc_hid_gamepad_get_button_id SC_GAMEPAD_BUTTON_LEFT_SHOULDER = 0x0040"
| "sc_hid_gamepad_get_button_id SC_GAMEPAD_BUTTON_RIGHT_SHOULDER = 0x0080"
| "sc_hid_gamepad_get_button_id SC_GAMEPAD_BUTTON_DPAD_UP = SC_GAMEPAD_BUTTONS_BIT_DPAD_UP"
| "sc_hid_gamepad_get_button_id SC_GAMEPAD_BUTTON_DPAD_DOWN = SC_GAMEPAD_BUTTONS_BIT_DPAD_DOWN"
| "sc_hid_gamepad_get_button_id SC_GAMEPAD_BUTTON_DPAD_LEFT = SC_GAMEPAD_BUTTONS_BIT_DPAD_LEFT"
| "sc_hid_gamepad_get_button_id SC_GAMEPAD_BUTTON_DPAD_RIGHT = SC_GAMEPAD_BUTTONS_BIT_DPAD_RIGHT"
| "sc_hid_gamepad_get_button_id SC_GAMEPAD_BUTTON_UNKNOWN = 0"

text \<open>The number of a button, with the -1 the program gives to the unknown one.\<close>

definition button_number :: "sdl_consts \<Rightarrow> sc_gamepad_button \<Rightarrow> int" where
  "button_number sdl b = (if b = SC_GAMEPAD_BUTTON_UNKNOWN then - 1 else SDL_GAMEPAD_BUTTON sdl b)"

text \<open>Both input functions return whether a report was produced, the state and the report.\<close>

definition sc_hid_gamepad_generate_input_from_button ::
  "sdl_consts \<Rightarrow> sc_hid_gamepad \<Rightarrow> sc_hid_input \<Rightarrow> sc_gamepad_button_event \<Rightarrow>
   (bool \<times> sc_hid_gamepad \<times> sc_hid_input) option" where
  "sc_hid_gamepad_generate_input_from_button sdl hid hid_input event =
     (if button_number sdl (gb_button event) < 0 \<or> button_number sdl (gb_button event) > 15
      then Some (False, hid, hid_input)
      else case sc_hid_gamepad_slot_find hid (gb_gamepad_id event) of
        None \<Rightarrow> Some (False, hid, hid_input)
      | Some slot_idx \<Rightarrow> do {
          c_assert (slot_idx < SC_MAX_GAMEPADS);
          slot \<leftarrow> mem_get slot_idx (slots hid);
          let button = sc_hid_gamepad_get_button_id (gb_button event);
          if button = 0 then Some (False, hid, hid_input)
          else do {
            let slot = (case gb_action event of
                SC_ACTION_DOWN \<Rightarrow> slot\<lparr>slot_buttons := slot_buttons slot OR button\<rparr>
              | SC_ACTION_UP \<Rightarrow> slot\<lparr>slot_buttons := slot_buttons slot AND NOT button\<rparr>);
            ss \<leftarrow> mem_set slot_idx slot (slots hid);
            i \<leftarrow> sc_hid_gamepad_slot_get_id slot_idx;
            hid_input \<leftarrow> sc_hid_gamepad_event_from_slot i slot hid_input;
            Some (True, hid\<lparr>slots := ss\<rparr>, hid_input)
          }
        })"

text \<open>The axis switch: \<open>None\<close> for an axis it ignores. \<^verbatim>\<open>MAX(0, value)\<close> is a signed comparison.\<close>

fun set_axis :: "sc_gamepad_axis \<Rightarrow> u16 \<Rightarrow> sc_hid_gamepad_slot \<Rightarrow> sc_hid_gamepad_slot option" where
  "set_axis SC_GAMEPAD_AXIS_LEFTX v s = Some (s\<lparr>axis_left_x := AXIS_RESCALE v\<rparr>)"
| "set_axis SC_GAMEPAD_AXIS_LEFTY v s = Some (s\<lparr>axis_left_y := AXIS_RESCALE v\<rparr>)"
| "set_axis SC_GAMEPAD_AXIS_RIGHTX v s = Some (s\<lparr>axis_right_x := AXIS_RESCALE v\<rparr>)"
| "set_axis SC_GAMEPAD_AXIS_RIGHTY v s = Some (s\<lparr>axis_right_y := AXIS_RESCALE v\<rparr>)"
| "set_axis SC_GAMEPAD_AXIS_LEFT_TRIGGER v s = Some (s\<lparr>axis_left_trigger := (if sint v < 0 then 0 else v)\<rparr>)"
| "set_axis SC_GAMEPAD_AXIS_RIGHT_TRIGGER v s = Some (s\<lparr>axis_right_trigger := (if sint v < 0 then 0 else v)\<rparr>)"
| "set_axis SC_GAMEPAD_AXIS_UNKNOWN v s = None"

definition sc_hid_gamepad_generate_input_from_axis ::
  "sc_hid_gamepad \<Rightarrow> sc_hid_input \<Rightarrow> sc_gamepad_axis_event \<Rightarrow>
   (bool \<times> sc_hid_gamepad \<times> sc_hid_input) option" where
  "sc_hid_gamepad_generate_input_from_axis hid hid_input event =
     (case sc_hid_gamepad_slot_find hid (ga_gamepad_id event) of
        None \<Rightarrow> Some (False, hid, hid_input)
      | Some slot_idx \<Rightarrow> do {
          c_assert (slot_idx < SC_MAX_GAMEPADS);
          slot \<leftarrow> mem_get slot_idx (slots hid);
          (case set_axis (ga_axis event) (ga_value event) slot of
             None \<Rightarrow> Some (False, hid, hid_input)
           | Some slot \<Rightarrow> do {
               ss \<leftarrow> mem_set slot_idx slot (slots hid);
               i \<leftarrow> sc_hid_gamepad_slot_get_id slot_idx;
               hid_input \<leftarrow> sc_hid_gamepad_event_from_slot i slot hid_input;
               Some (True, hid\<lparr>slots := ss\<rparr>, hid_input)
             })
        })"

section \<open>Slots\<close>

lemma slot_find_from_eq:
  "slot_find_from i ss g = map_option (\<lambda>j. i + j) (slot_find_from 0 ss g)"
proof (induction ss arbitrary: i)
  case (Cons s ss)
  show ?case
    using Cons.IH [of "i + 1"] Cons.IH [of 1] by (simp add: option.map_comp comp_def)
qed simp

lemma slot_find_cases:
  obtains (Found) i where "sc_hid_gamepad_slot_find hid g = Some i" "i < length (slots hid)"
      "slot_gamepad_id (slots hid ! i) = g" "\<forall>j < i. slot_gamepad_id (slots hid ! j) \<noteq> g"
  | (Absent) "sc_hid_gamepad_slot_find hid g = None" "\<forall>s \<in> set (slots hid). slot_gamepad_id s \<noteq> g"
proof -
  have "(\<exists>i. slot_find_from 0 ss g = Some i \<and> i < length ss \<and> slot_gamepad_id (ss ! i) = g \<and>
           (\<forall>j < i. slot_gamepad_id (ss ! j) \<noteq> g)) \<or>
        (slot_find_from 0 ss g = None \<and> (\<forall>s \<in> set ss. slot_gamepad_id s \<noteq> g))" for ss
  proof (induction ss)
    case (Cons s ss)
    then show ?case
      by (auto simp: slot_find_from_eq [of "Suc 0"] nth_Cons split: nat.splits)
  qed simp
  from this [of "slots hid"] that show thesis by (auto simp: sc_hid_gamepad_slot_find_def)
qed

definition gp_ids :: "sc_hid_gamepad \<Rightarrow> u32 set" where
  "gp_ids hid = slot_gamepad_id ` set (slots hid) - {SC_GAMEPAD_ID_INVALID}"

text \<open>Eight slots, and no gamepad in two of them.\<close>

definition gp_inv :: "sc_hid_gamepad \<Rightarrow> bool" where
  "gp_inv hid \<longleftrightarrow> length (slots hid) = SC_MAX_GAMEPADS \<and>
     (\<forall>i < SC_MAX_GAMEPADS. \<forall>j < SC_MAX_GAMEPADS.
        slot_gamepad_id (slots hid ! i) = slot_gamepad_id (slots hid ! j) \<longrightarrow>
        slot_gamepad_id (slots hid ! i) \<noteq> SC_GAMEPAD_ID_INVALID \<longrightarrow> i = j)"

lemma find_unique:
  assumes "gp_inv hid" "g \<noteq> SC_GAMEPAD_ID_INVALID" "i < SC_MAX_GAMEPADS" "slot_gamepad_id (slots hid ! i) = g"
  shows "sc_hid_gamepad_slot_find hid g = Some i"
proof (cases rule: slot_find_cases [of hid g])
  case (Found j)
  with assms show ?thesis by (auto simp: gp_inv_def)
next
  case Absent
  with assms show ?thesis by (auto simp: gp_inv_def)
qed

lemma init_gp_inv: "length junk = SC_MAX_GAMEPADS \<Longrightarrow> gp_inv (sc_hid_gamepad_init junk) \<and> gp_ids (sc_hid_gamepad_init junk) = {}"
  by (auto simp: gp_inv_def gp_ids_def sc_hid_gamepad_init_def)

text \<open>Replacing a slot whose gamepad, before and after, is in no other slot keeps the invariant.\<close>

lemma gp_inv_update:
  assumes "gp_inv hid" "i < SC_MAX_GAMEPADS"
    "slot_gamepad_id s = SC_GAMEPAD_ID_INVALID \<or> slot_gamepad_id s = slot_gamepad_id (slots hid ! i) \<or>
     slot_gamepad_id s \<notin> gp_ids hid"
  shows "gp_inv (hid\<lparr>slots := (slots hid)[i := s]\<rparr>)"
proof -
  have len: "length (slots hid) = SC_MAX_GAMEPADS" using assms(1) by (simp add: gp_inv_def)
  have new: "slot_gamepad_id s \<noteq> slot_gamepad_id (slots hid ! j)"
    if j: "j < SC_MAX_GAMEPADS" "j \<noteq> i" "slot_gamepad_id s \<noteq> SC_GAMEPAD_ID_INVALID" for j
  proof
    assume eq: "slot_gamepad_id s = slot_gamepad_id (slots hid ! j)"
    then have "slot_gamepad_id s \<in> gp_ids hid" using j len by (simp add: gp_ids_def)
    with assms(3) j(3) have "slot_gamepad_id s = slot_gamepad_id (slots hid ! i)" by blast
    with eq j assms(1,2) show False unfolding gp_inv_def by metis
  qed
  have old: "k = j" if "k < SC_MAX_GAMEPADS" "j < SC_MAX_GAMEPADS"
    "slot_gamepad_id (slots hid ! k) = slot_gamepad_id (slots hid ! j)"
    "slot_gamepad_id (slots hid ! k) \<noteq> SC_GAMEPAD_ID_INVALID" for k j
    using assms(1) that by (simp add: gp_inv_def)
  have "k = j" if "k < SC_MAX_GAMEPADS" "j < SC_MAX_GAMEPADS"
    "slot_gamepad_id ((slots hid)[i := s] ! k) = slot_gamepad_id ((slots hid)[i := s] ! j)"
    "slot_gamepad_id ((slots hid)[i := s] ! k) \<noteq> SC_GAMEPAD_ID_INVALID" for k j
    using that new [of k] new [of j] old [of k j] len by (cases "k = i"; cases "j = i") auto
  then show ?thesis using len unfolding gp_inv_def by simp
qed

text \<open>Filling a free slot adds its gamepad.\<close>

lemma gp_ids_update:
  assumes "i < length (slots hid)" "slot_gamepad_id (slots hid ! i) = SC_GAMEPAD_ID_INVALID"
  shows "gp_ids (hid\<lparr>slots := (slots hid)[i := s]\<rparr>) =
    (if slot_gamepad_id s = SC_GAMEPAD_ID_INVALID then {} else {slot_gamepad_id s}) \<union> gp_ids hid"
proof -
  let ?r = "set (take i (slots hid)) \<union> set (drop (Suc i) (slots hid))"
  have "set (slots hid) = insert (slots hid ! i) ?r"
    using assms(1) by (subst id_take_nth_drop [OF assms(1)]) auto
  moreover have "set ((slots hid)[i := s]) = insert s ?r" using assms(1) by (simp add: upd_conv_take_nth_drop)
  ultimately show ?thesis using assms(2) unfolding gp_ids_def by (simp only: sc_hid_gamepad.simps) auto
qed

section \<open>Reports\<close>

definition gamepad_report :: "sc_hid_gamepad_slot \<Rightarrow> byte_buf" where
  "gamepad_report s =
     le16 (axis_left_x s) @ le16 (axis_left_y s) @ le16 (axis_right_x s) @ le16 (axis_right_y s) @
     le16 (axis_left_trigger s) @ le16 (axis_right_trigger s) @ le16 (ucast (slot_buttons s)) @
     [sc_hid_gamepad_get_dpad_value (slot_buttons s)]"

lemma low_half: "(ucast (b AND 0xFFFF :: u32) :: u16) = ucast b"
proof -
  have m: "(0xFFFF :: u32) = mask 16" by (simp add: mask_eq_exp_minus_1)
  show ?thesis unfolding m by (auto intro!: bit_word_eqI simp: bit_simps)
qed

lemma event_from_slot_eq:
  assumes "hid_input_ok h"
  shows "sc_hid_gamepad_event_from_slot i s h =
    Some (h\<lparr>hid_id := i, hid_size := 15, hid_data := gamepad_report s\<rparr>)"
proof -
  have "length (hid_data h) = 15" using assms by (simp add: hid_input_ok_def SC_HID_MAX_SIZE_def)
  moreover have "length (gamepad_report s) = 15" by (simp add: gamepad_report_def)
  ultimately have "mem_write 0 (gamepad_report s) (hid_data h) = Some (gamepad_report s)"
    by (simp add: mem_write_def)
  then show ?thesis
    by (simp add: sc_hid_gamepad_event_from_slot_def sc_write16le_eq mem_set_eq_write mem_write_bind
        low_half SC_HID_BUTTONS_MASK_def SC_HID_GAMEPAD_EVENT_SIZE_def gamepad_report_def)
qed

text \<open>Where a hat switch value points: (x, y), with y growing downwards.\<close>

definition hat_direction :: "u8 \<Rightarrow> int \<times> int" where
  "hat_direction v =
     (if v = 1 then (0, - 1) else if v = 2 then (1, - 1) else if v = 3 then (1, 0) else if v = 4 then (1, 1)
      else if v = 5 then (0, 1) else if v = 6 then (- 1, 1) else if v = 7 then (- 1, 0)
      else if v = 8 then (- 1, - 1) else (0, 0))"

lemma rescale_eq: "unat (AXIS_RESCALE v) = nat (sint v + 0x8000)"
proof -
  have b: "- 32768 \<le> sint v" "sint v < 32768" using sint_range_size [of v] by (simp_all add: word_size)
  have "scast v + 0x8000 = (word_of_int (sint v + 0x8000) :: u32)"
    unfolding scast_eq [of v] by (simp only: of_int_add of_int_numeral)
  moreover have "(ucast (word_of_int k :: u32) :: u16) = word_of_int k" for k
    by (rule bit_word_eqI) (auto simp: bit_simps)
  ultimately have "AXIS_RESCALE v = word_of_int (sint v + 0x8000)" by (simp only: AXIS_RESCALE_def)
  moreover have "uint (word_of_int k :: u16) = k mod 2 ^ 16" for k
    by (simp add: unsigned_of_int take_bit_eq_mod)
  ultimately have "uint (AXIS_RESCALE v) = (sint v + 0x8000) mod 2 ^ 16" by (simp only:)
  also have "\<dots> = sint v + 0x8000" using b by simp
  finally show ?thesis by (simp flip: nat_uint_eq)
qed

lemma unat_pos_part: "unat (if sint v < 0 then 0 else v :: u16) = nat (max 0 (sint v))"
proof (cases "sint v < 0")
  case False
  moreover have "sint v < 32768" using sint_range_size [of v] by (simp add: word_size)
  ultimately have "uint v = sint v" using uint_sint [of v] by (simp add: take_bit_int_eq_self)
  with False show ?thesis by (simp flip: nat_uint_eq)
qed simp

lemma set_axis_fields:
  assumes "set_axis a v old = Some s"
  shows "unat (axis_left_x s) = (if a = SC_GAMEPAD_AXIS_LEFTX then nat (sint v + 32768) else unat (axis_left_x old))"
    "unat (axis_left_y s) = (if a = SC_GAMEPAD_AXIS_LEFTY then nat (sint v + 32768) else unat (axis_left_y old))"
    "unat (axis_right_x s) = (if a = SC_GAMEPAD_AXIS_RIGHTX then nat (sint v + 32768) else unat (axis_right_x old))"
    "unat (axis_right_y s) = (if a = SC_GAMEPAD_AXIS_RIGHTY then nat (sint v + 32768) else unat (axis_right_y old))"
    "unat (axis_left_trigger s) =
       (if a = SC_GAMEPAD_AXIS_LEFT_TRIGGER then nat (max 0 (sint v)) else unat (axis_left_trigger old))"
    "unat (axis_right_trigger s) =
       (if a = SC_GAMEPAD_AXIS_RIGHT_TRIGGER then nat (max 0 (sint v)) else unat (axis_right_trigger old))"
    "slot_buttons s = slot_buttons old"
  using assms unat_pos_part [of v]
  by (cases a; auto simp: rescale_eq)+

section \<open>Properties\<close>

text \<open>Opening and closing gamepads: with the invariant and a new gamepad, opening fails and changes
  nothing exactly when all eight slots are taken; else the gamepad gets a HID id between 3 and 10 of its
  own, the other gamepads keep theirs, and closing it later frees the same HID id and leaves the others
  open. Both keep the invariant.\<close>

theorem gamepad_open_close:
  assumes "gp_inv hid" "g \<noteq> SC_GAMEPAD_ID_INVALID" "g \<notin> gp_ids hid"
  shows "(\<forall>s \<in> set (slots hid). slot_gamepad_id s \<noteq> SC_GAMEPAD_ID_INVALID) \<and>
           sc_hid_gamepad_generate_open hid g = Some (hid, None) \<or>
         (\<exists>hid1 o1 hid2 c2 i.
           sc_hid_gamepad_generate_open hid g = Some (hid1, Some o1) \<and> gp_inv hid1 \<and>
           gp_ids hid1 = insert g (gp_ids hid) \<and> i < 8 \<and> open_id o1 = 3 + of_nat i \<and>
           sc_hid_gamepad_slot_find hid1 g = Some i \<and>
           (\<forall>k \<in> gp_ids hid. sc_hid_gamepad_slot_find hid1 k = sc_hid_gamepad_slot_find hid k) \<and>
           sc_hid_gamepad_generate_close hid1 g = Some (hid2, Some c2) \<and> gp_inv hid2 \<and>
           close_id c2 = open_id o1 \<and> gp_ids hid2 = gp_ids hid)"
proof (cases rule: slot_find_cases [of hid SC_GAMEPAD_ID_INVALID])
  case Absent
  with assms(2) show ?thesis by (simp add: sc_hid_gamepad_generate_open_def)
next
  case (Found i)
  have len: "length (slots hid) = SC_MAX_GAMEPADS" using assms(1) by (simp add: gp_inv_def)
  then have i: "i < SC_MAX_GAMEPADS" using Found by simp
  obtain s where s: "sc_hid_gamepad_slot_init g = Some s" "slot_gamepad_id s = g"
    using assms(2) by (simp add: sc_hid_gamepad_slot_init_def)
  define hid1 where "hid1 = hid\<lparr>slots := (slots hid)[i := s]\<rparr>"
  define hid2 where "hid2 = hid1\<lparr>slots := (slots hid1)[i := s\<lparr>slot_gamepad_id := SC_GAMEPAD_ID_INVALID\<rparr>]\<rparr>"
  define n where "n = (3 + of_nat i :: u16)"
  have o1: "sc_hid_gamepad_generate_open hid g =
      Some (hid1, Some \<lparr>open_id = n, report_desc = SC_HID_GAMEPAD_REPORT_DESC\<rparr>)"
    using assms(2) Found s i len
    by (simp add: sc_hid_gamepad_generate_open_def mem_set_def sc_hid_gamepad_slot_get_id_def hid1_def n_def
        SC_HID_ID_GAMEPAD_FIRST_def)
  have inv1: "gp_inv hid1" unfolding hid1_def using assms s i by (intro gp_inv_update) auto
  have inv2: "gp_inv hid2" unfolding hid2_def using inv1 i by (intro gp_inv_update) auto
  have at1: "slots hid1 ! i = s" using i len by (simp add: hid1_def)
  have f1: "sc_hid_gamepad_slot_find hid1 g = Some i"
    using find_unique [OF inv1 assms(2) i] at1 s(2) by simp
  have c2: "sc_hid_gamepad_generate_close hid1 g = Some (hid2, Some \<lparr>close_id = n\<rparr>)"
    using assms(2) f1 at1 i len
    by (simp add: sc_hid_gamepad_generate_close_def mem_set_def mem_get_def sc_hid_gamepad_slot_get_id_def
        hid2_def n_def SC_HID_ID_GAMEPAD_FIRST_def hid1_def)
  note ids = gp_ids_update [OF Found(2,3)]
  have "sc_hid_gamepad_slot_find hid1 k = sc_hid_gamepad_slot_find hid k" if k: "k \<in> gp_ids hid" for k
  proof (cases rule: slot_find_cases [of hid k])
    case F: (Found j)
    with k Found have "j \<noteq> i" "k \<noteq> SC_GAMEPAD_ID_INVALID" by (auto simp: gp_ids_def)
    with F find_unique [OF inv1, of k j] len show ?thesis by (simp add: hid1_def)
  qed (use k in \<open>auto simp: gp_ids_def\<close>)
  moreover have "gp_ids hid1 = insert g (gp_ids hid)" using ids [of s] s(2) assms(2) by (simp add: hid1_def)
  moreover have "gp_ids hid2 = gp_ids hid"
    using ids [of "s\<lparr>slot_gamepad_id := SC_GAMEPAD_ID_INVALID\<rparr>"] by (simp add: hid2_def hid1_def)
  moreover have "i < 8" using i by (simp add: SC_MAX_GAMEPADS_def)
  ultimately show ?thesis using o1 inv1 inv2 f1 c2 unfolding n_def by auto
qed

theorem gamepad_open_close_witness:
  "\<exists>hid1 o1. sc_hid_gamepad_generate_open
       (sc_hid_gamepad_init (replicate 8 \<lparr>slot_gamepad_id = 7, slot_buttons = 0, axis_left_x = 0, axis_left_y = 0,
          axis_right_x = 0, axis_right_y = 0, axis_left_trigger = 0, axis_right_trigger = 0\<rparr>)) 42 =
     Some (hid1, Some o1) \<and> gp_ids hid1 = {42}"
proof -
  let ?h = "sc_hid_gamepad_init (replicate 8 \<lparr>slot_gamepad_id = 7, slot_buttons = 0, axis_left_x = 0,
    axis_left_y = 0, axis_right_x = 0, axis_right_y = 0, axis_left_trigger = 0, axis_right_trigger = 0\<rparr>)"
  have i: "gp_inv ?h" "gp_ids ?h = {}"
    using init_gp_inv [of "replicate 8 \<lparr>slot_gamepad_id = 7, slot_buttons = 0, axis_left_x = 0,
      axis_left_y = 0, axis_right_x = 0, axis_right_y = 0, axis_left_trigger = 0, axis_right_trigger = 0\<rparr>"]
    by (simp_all add: SC_MAX_GAMEPADS_def)
  have "\<not> (\<forall>s \<in> set (slots ?h). slot_gamepad_id s \<noteq> SC_GAMEPAD_ID_INVALID)"
    by (simp add: sc_hid_gamepad_init_def)
  with gamepad_open_close [OF i(1), of 42] i(2) show ?thesis by (auto simp: SC_GAMEPAD_ID_INVALID_def)
qed

text \<open>Button reports: for an open gamepad and a known button, the event sets or clears exactly the bit
  of the button in the gamepad's slot, leaves the other slots alone, and produces the 15-byte report of
  the new state: six 16-bit little-endian axes, the low 16 button bits, and a hat switch value that points
  where the directional pad does (up wins over down, left over right).\<close>

theorem gamepad_button_report:
  assumes "sdl_documented sdl" "gp_inv hid" "hid_input_ok h" "sc_hid_gamepad_slot_find hid (gb_gamepad_id e) = Some i"
    "gb_button e \<noteq> SC_GAMEPAD_BUTTON_UNKNOWN"
  defines "b \<equiv> (if gb_action e = SC_ACTION_DOWN
                then slot_buttons (slots hid ! i) OR sc_hid_gamepad_get_button_id (gb_button e)
                else slot_buttons (slots hid ! i) AND NOT (sc_hid_gamepad_get_button_id (gb_button e)))"
  defines "s \<equiv> (slots hid ! i)\<lparr>slot_buttons := b\<rparr>"
  shows "\<exists>h'. sc_hid_gamepad_generate_input_from_button sdl hid h e =
           Some (True, hid\<lparr>slots := (slots hid)[i := s]\<rparr>, h') \<and>
         gp_inv (hid\<lparr>slots := (slots hid)[i := s]\<rparr>) \<and> hid_id h' = 3 + of_nat i \<and>
         hid_bytes h' = le16 (axis_left_x s) @ le16 (axis_left_y s) @ le16 (axis_right_x s) @
           le16 (axis_right_y s) @ le16 (axis_left_trigger s) @ le16 (axis_right_trigger s) @
           le16 (ucast b) @ [sc_hid_gamepad_get_dpad_value b] \<and>
         hat_direction (sc_hid_gamepad_get_dpad_value b) =
           (if bit b 18 then - 1 else if bit b 19 then 1 else 0, if bit b 16 then - 1 else if bit b 17 then 1 else 0)"
proof -
  have len: "length (slots hid) = SC_MAX_GAMEPADS" using assms(2) by (simp add: gp_inv_def)
  have i: "i < SC_MAX_GAMEPADS"
    by (rule slot_find_cases [of hid "gb_gamepad_id e"]) (use assms(4) len in auto)
  have num: "0 \<le> button_number sdl (gb_button e)" "button_number sdl (gb_button e) \<le> 15"
    using assms(1,5) by (auto simp: sdl_documented_def button_number_def intro: order.trans)
  have bid: "sc_hid_gamepad_get_button_id (gb_button e) \<noteq> 0"
    using assms(5) by (cases "gb_button e") (simp_all add: dpad_bits)
  have gen: "sc_hid_gamepad_generate_input_from_button sdl hid h e =
    Some (True, hid\<lparr>slots := (slots hid)[i := s]\<rparr>, h\<lparr>hid_id := 3 + of_nat i, hid_size := 15, hid_data := gamepad_report s\<rparr>)"
    using num bid i len assms(4) event_from_slot_eq [OF assms(3)]
    by (cases "gb_action e") (simp_all add: sc_hid_gamepad_generate_input_from_button_def mem_get_def mem_set_def
        sc_hid_gamepad_slot_get_id_def SC_HID_ID_GAMEPAD_FIRST_def s_def b_def Let_def)
  have inv: "gp_inv (hid\<lparr>slots := (slots hid)[i := s]\<rparr>)"
    using assms(2) i by (intro gp_inv_update) (simp_all add: s_def)
  have bits: "b AND 0x10000 \<noteq> 0 \<longleftrightarrow> bit b 16" "b AND 0x20000 \<noteq> 0 \<longleftrightarrow> bit b 17"
    "b AND 0x40000 \<noteq> 0 \<longleftrightarrow> bit b 18" "b AND 0x80000 \<noteq> 0 \<longleftrightarrow> bit b 19"
    using and_exp_eq_0_iff_not_bit [of b 16] and_exp_eq_0_iff_not_bit [of b 17]
      and_exp_eq_0_iff_not_bit [of b 18] and_exp_eq_0_iff_not_bit [of b 19] by simp_all
  have "hat_direction (sc_hid_gamepad_get_dpad_value b) =
      (if bit b 18 then - 1 else if bit b 19 then 1 else 0, if bit b 16 then - 1 else if bit b 17 then 1 else 0)"
    unfolding sc_hid_gamepad_get_dpad_value_def dpad_bits bits Let_def by (simp add: hat_direction_def)
  moreover have "length (gamepad_report s) = 15" by (simp add: gamepad_report_def)
  ultimately show ?thesis using gen inv by (simp add: gamepad_report_def s_def)
qed

theorem gamepad_button_report_witness:
  "\<exists>hid o1 h'. sc_hid_gamepad_generate_open (sc_hid_gamepad_init (replicate 8
        \<lparr>slot_gamepad_id = 7, slot_buttons = 5, axis_left_x = 0, axis_left_y = 0, axis_right_x = 0,
         axis_right_y = 0, axis_left_trigger = 0, axis_right_trigger = 0\<rparr>)) 42 = Some (hid, Some o1) \<and>
     (\<exists>hid2. sc_hid_gamepad_generate_input_from_button sdl3 hid \<lparr>hid_id = 0, hid_data = replicate 15 9, hid_size = 0\<rparr>
        \<lparr>gb_gamepad_id = 42, gb_action = SC_ACTION_DOWN, gb_button = SC_GAMEPAD_BUTTON_DPAD_UP\<rparr> = Some (True, hid2, h') \<and>
      hid_bytes h' = [0, 128, 0, 128, 0, 128, 0, 128, 0, 0, 0, 0, 0, 0, 1])"
proof -
  let ?j = "\<lparr>slot_gamepad_id = 7, slot_buttons = 5, axis_left_x = 0, axis_left_y = 0, axis_right_x = 0,
         axis_right_y = 0, axis_left_trigger = 0, axis_right_trigger = 0\<rparr>"
  let ?s = "\<lparr>slot_gamepad_id = 42, slot_buttons = 0, axis_left_x = 0x8000, axis_left_y = 0x8000,
         axis_right_x = 0x8000, axis_right_y = 0x8000, axis_left_trigger = 0, axis_right_trigger = 0\<rparr>"
  let ?hid = "\<lparr>slots = ?s # replicate 7 (?j\<lparr>slot_gamepad_id := 0\<rparr>)\<rparr>"
  let ?h = "\<lparr>hid_id = 0, hid_data = replicate 15 9, hid_size = 0\<rparr>"
  let ?e = "\<lparr>gb_gamepad_id = 42, gb_action = SC_ACTION_DOWN, gb_button = SC_GAMEPAD_BUTTON_DPAD_UP\<rparr>"
  have "replicate 8 ?j = ?j # replicate 7 ?j" by (simp add: numeral_eq_Suc)
  then have o: "sc_hid_gamepad_generate_open (sc_hid_gamepad_init (replicate 8 ?j)) 42 =
      Some (?hid, Some \<lparr>open_id = 3, report_desc = SC_HID_GAMEPAD_REPORT_DESC\<rparr>)"
    by (simp add: sc_hid_gamepad_generate_open_def sc_hid_gamepad_init_def SC_GAMEPAD_ID_INVALID_def mem_set_def
        sc_hid_gamepad_slot_find_def sc_hid_gamepad_slot_init_def sc_hid_gamepad_slot_get_id_def AXIS_RESCALE_def
        SC_MAX_GAMEPADS_def SC_HID_ID_GAMEPAD_FIRST_def map_replicate)
  have f: "sc_hid_gamepad_slot_find ?hid (gb_gamepad_id ?e) = Some 0" by (simp add: sc_hid_gamepad_slot_find_def)
  have "gp_inv ?hid"
    by (auto simp: gp_inv_def SC_MAX_GAMEPADS_def SC_GAMEPAD_ID_INVALID_def nth_Cons split: nat.splits if_splits)
  moreover have "hid_input_ok ?h" by (simp add: hid_input_ok_def SC_HID_MAX_SIZE_def)
  ultimately have "\<exists>h' hid2. sc_hid_gamepad_generate_input_from_button sdl3 ?hid ?h ?e = Some (True, hid2, h') \<and>
      hid_bytes h' = [0, 128, 0, 128, 0, 128, 0, 128, 0, 0, 0, 0, 0, 0, 1]"
    using gamepad_button_report [OF sdl3_documented _ _ f, of ?h]
    by (auto simp: le16_def be16_def drop_bit_eq_div dpad_bits sc_hid_gamepad_get_dpad_value_def)
  with o show ?thesis by blast
qed

text \<open>Axis reports: for an open gamepad and a known axis, the event changes exactly that axis of the
  gamepad's slot: sticks are shifted from -32768..32767 to 0..65535, triggers are cut at zero, and the
  report is that of the new state.\<close>

theorem gamepad_axis_report:
  assumes "gp_inv hid" "hid_input_ok h" "sc_hid_gamepad_slot_find hid (ga_gamepad_id e) = Some i"
    "ga_axis e \<noteq> SC_GAMEPAD_AXIS_UNKNOWN"
  shows "\<exists>s h'. sc_hid_gamepad_generate_input_from_axis hid h e = Some (True, hid\<lparr>slots := (slots hid)[i := s]\<rparr>, h') \<and>
           gp_inv (hid\<lparr>slots := (slots hid)[i := s]\<rparr>) \<and> hid_id h' = 3 + of_nat i \<and>
           hid_bytes h' = gamepad_report s \<and>
           (let stick = nat (sint (ga_value e) + 32768); trigger = nat (max 0 (sint (ga_value e)));
                old = slots hid ! i; a = ga_axis e in
            unat (axis_left_x s) = (if a = SC_GAMEPAD_AXIS_LEFTX then stick else unat (axis_left_x old)) \<and>
            unat (axis_left_y s) = (if a = SC_GAMEPAD_AXIS_LEFTY then stick else unat (axis_left_y old)) \<and>
            unat (axis_right_x s) = (if a = SC_GAMEPAD_AXIS_RIGHTX then stick else unat (axis_right_x old)) \<and>
            unat (axis_right_y s) = (if a = SC_GAMEPAD_AXIS_RIGHTY then stick else unat (axis_right_y old)) \<and>
            unat (axis_left_trigger s) = (if a = SC_GAMEPAD_AXIS_LEFT_TRIGGER then trigger else unat (axis_left_trigger old)) \<and>
            unat (axis_right_trigger s) = (if a = SC_GAMEPAD_AXIS_RIGHT_TRIGGER then trigger else unat (axis_right_trigger old)) \<and>
            slot_buttons s = slot_buttons old)"
proof -
  have len: "length (slots hid) = SC_MAX_GAMEPADS" using assms(1) by (simp add: gp_inv_def)
  have i: "i < SC_MAX_GAMEPADS"
    by (rule slot_find_cases [of hid "ga_gamepad_id e"]) (use assms(3) len in auto)
  obtain s where s: "set_axis (ga_axis e) (ga_value e) (slots hid ! i) = Some s"
    using assms(4) by (cases "ga_axis e") simp_all
  then have sid: "slot_gamepad_id s = slot_gamepad_id (slots hid ! i)" by (cases "ga_axis e") auto
  have "sc_hid_gamepad_generate_input_from_axis hid h e =
    Some (True, hid\<lparr>slots := (slots hid)[i := s]\<rparr>, h\<lparr>hid_id := 3 + of_nat i, hid_size := 15, hid_data := gamepad_report s\<rparr>)"
    using i len assms(3) s event_from_slot_eq [OF assms(2)]
    by (simp add: sc_hid_gamepad_generate_input_from_axis_def mem_get_def mem_set_def
        sc_hid_gamepad_slot_get_id_def SC_HID_ID_GAMEPAD_FIRST_def)
  moreover have "gp_inv (hid\<lparr>slots := (slots hid)[i := s]\<rparr>)"
    using assms(1) i sid by (intro gp_inv_update) simp_all
  moreover have "length (gamepad_report s) = 15" by (simp add: gamepad_report_def)
  moreover note set_axis_fields [OF s]
  ultimately show ?thesis
    by (intro exI [of _ s] exI [of _ "h\<lparr>hid_id := 3 + of_nat i, hid_size := 15, hid_data := gamepad_report s\<rparr>"])
      (simp add: Let_def)
qed

theorem gamepad_axis_report_witness:
  "\<exists>s h'. sc_hid_gamepad_generate_input_from_axis
        \<lparr>slots = map (\<lambda>g. \<lparr>slot_gamepad_id = g, slot_buttons = 0, axis_left_x = 0, axis_left_y = 0, axis_right_x = 0,
           axis_right_y = 0, axis_left_trigger = 0, axis_right_trigger = 0\<rparr>) [42, 0, 0, 0, 0, 0, 0, 0]\<rparr>
        \<lparr>hid_id = 0, hid_data = replicate 15 9, hid_size = 0\<rparr>
        \<lparr>ga_gamepad_id = 42, ga_axis = SC_GAMEPAD_AXIS_LEFTX, ga_value = 5\<rparr> = Some (True, s, h') \<and>
     unat (axis_left_x (slots s ! 0)) = 32773"
proof -
  let ?o = "\<lambda>g. \<lparr>slot_gamepad_id = g, slot_buttons = 0, axis_left_x = 0, axis_left_y = 0, axis_right_x = 0,
           axis_right_y = 0, axis_left_trigger = 0, axis_right_trigger = 0\<rparr>"
  let ?hid = "\<lparr>slots = map ?o [42, 0, 0, 0, 0, 0, 0, 0]\<rparr>"
  let ?h = "\<lparr>hid_id = 0, hid_data = replicate 15 9, hid_size = 0\<rparr>"
  let ?e = "\<lparr>ga_gamepad_id = 42, ga_axis = SC_GAMEPAD_AXIS_LEFTX, ga_value = 5\<rparr>"
  have "gp_inv ?hid"
    by (auto simp: gp_inv_def SC_MAX_GAMEPADS_def SC_GAMEPAD_ID_INVALID_def less_Suc_eq numeral_eq_Suc)
  moreover have "hid_input_ok ?h" by (simp add: hid_input_ok_def SC_HID_MAX_SIZE_def)
  moreover have "sc_hid_gamepad_slot_find ?hid (ga_gamepad_id ?e) = Some 0"
    by (simp add: sc_hid_gamepad_slot_find_def)
  ultimately obtain s h' where
    "sc_hid_gamepad_generate_input_from_axis ?hid ?h ?e = Some (True, ?hid\<lparr>slots := (slots ?hid)[0 := s]\<rparr>, h')"
    "unat (axis_left_x s) = nat (sint (5 :: u16) + 32768)"
    using gamepad_axis_report [of ?hid ?h ?e 0] by (auto simp: Let_def)
  then show ?thesis by auto
qed

end
