(* ===== verification/HidDescriptor.thy ===== *)
theory HidDescriptor
  imports HidKeyboard HidMouse HidGamepad
begin

text \<open>
  How a host reads the reports of a HID device (the USB HID specification, sections 6.2.2 and 8): the report descriptor it was
  given declares the fields of an input report, bit by bit, with what each is used for. Reading the reports of
  \<^verbatim>\<open>app/src/hid\<close> by their own descriptors gives back the state of the simulated devices.
\<close>

section \<open>Reading a descriptor\<close>

text \<open>The global items used by the descriptors; the logical minimum only matters for its sign.\<close>

record hid_globals =
  usage_page :: int
  logical_signed :: bool
  report_size :: nat
  report_count :: nat

text \<open>A field of a report. A constant field is padding; the field of an array has no usage of its own.\<close>

record hid_field =
  field_page :: int
  field_usage :: "int option"
  field_signed :: bool
  field_size :: nat
  field_constant :: bool

text \<open>An input item declares \<open>report_count\<close> fields. Its flags say whether they are constants (bit 0) and variables
  rather than an array (bit 1). The usages are given to the fields in order, the last to all that remain.\<close>

definition input_fields :: "hid_globals \<Rightarrow> int list \<Rightarrow> int \<Rightarrow> hid_field list" where
  "input_fields g usages flags =
     map (\<lambda>k. \<lparr>field_page = usage_page g,
               field_usage = (if bit flags 1 \<and> usages \<noteq> [] then Some (if k < length usages then usages ! k else last usages) else None),
               field_signed = logical_signed g, field_size = report_size g, field_constant = bit flags 0\<rparr>)
       [0..<report_count g]"

text \<open>The items of a descriptor: a prefix byte and its data bytes. \<open>usages\<close> and \<open>usage_min\<close> are the local items, which
  each main item clears.\<close>

function desc_fields :: "hid_globals \<Rightarrow> int list \<Rightarrow> int \<Rightarrow> byte_buf \<Rightarrow> hid_field list" where
  "desc_fields g usages usage_min [] = []"
| "desc_fields g usages usage_min (p # bs) =
     (let n = item_size p; data = take n bs; rest = drop n bs; v = horner_sum uint 256 data; tag = item_tag p in
      if tag = 0x04 then desc_fields (g\<lparr>usage_page := v\<rparr>) usages usage_min rest
      else if tag = 0x14 then desc_fields (g\<lparr>logical_signed := (data \<noteq> [] \<and> bit (last data) 7)\<rparr>) usages usage_min rest
      else if tag = 0x74 then desc_fields (g\<lparr>report_size := nat v\<rparr>) usages usage_min rest
      else if tag = 0x94 then desc_fields (g\<lparr>report_count := nat v\<rparr>) usages usage_min rest
      else if tag = 0x08 then desc_fields g (usages @ [v]) usage_min rest
      else if tag = 0x18 then desc_fields g usages v rest
      else if tag = 0x28 then desc_fields g (usages @ [usage_min..v]) usage_min rest
      else if tag = 0x80 then input_fields g usages v @ desc_fields g [] 0 rest
      else if tag \<in> {0x90, 0xA0, 0xB0, 0xC0} then desc_fields g [] 0 rest
      else desc_fields g usages usage_min rest)"
  by pat_completeness auto
termination
  by (relation "measure (\<lambda>(g, us, m, bs). length bs)") auto

definition report_fields :: "byte_buf \<Rightarrow> hid_field list" where
  "report_fields desc = desc_fields \<lparr>usage_page = 0, logical_signed = False, report_size = 0, report_count = 0\<rparr> [] 0 desc"

section \<open>Reading a report\<close>

definition byte_bits :: "u8 \<Rightarrow> bool list" where
  "byte_bits b = map (bit b) [0..<8]"

definition bits_value :: "bool \<Rightarrow> bool list \<Rightarrow> int" where
  "bits_value neg bs = horner_sum of_bool 2 bs - (if neg \<and> bs \<noteq> [] \<and> last bs then 2 ^ length bs else 0)"

text \<open>The values of the fields that are no padding, with their usages. A report must have all the bits of its fields and no
  complete byte more.\<close>

fun read_fields :: "hid_field list \<Rightarrow> bool list \<Rightarrow> (int \<times> int option \<times> int) list option" where
  "read_fields [] bits = (if length bits < 8 then Some [] else None)"
| "read_fields (f # fs) bits =
     (if length bits < field_size f then None
      else map_option
        (\<lambda>vs. if field_constant f then vs
              else (field_page f, field_usage f, bits_value (field_signed f) (take (field_size f) bits)) # vs)
        (read_fields fs (drop (field_size f) bits)))"

definition read_report :: "byte_buf \<Rightarrow> byte_buf \<Rightarrow> (int \<times> int option \<times> int) list option" where
  "read_report desc data = read_fields (report_fields desc) (concat (map byte_bits data))"

lemma length_byte_bits [simp]: "length (byte_bits b) = 8"
  by (simp add: byte_bits_def)

lemma byte_bits_explicit: "byte_bits b = [bit b 0, bit b 1, bit b 2, bit b 3, bit b 4, bit b 5, bit b 6, bit b 7]"
  by (simp add: byte_bits_def upt_rec numeral_eq_Suc)

lemma unsigned_value:
  "n = LENGTH('a) \<Longrightarrow> bits_value False (map (bit (w :: 'a :: len word)) [0..<n]) = uint w"
proof -
  assume n: "n = LENGTH('a)"
  have "horner_sum of_bool 2 (map (bit (uint w)) [0..<n]) = take_bit n (uint w)" by (rule horner_sum_bit_eq_take_bit)
  moreover have m: "map (bit (uint w)) [0..<n] = map (bit w) [0..<n]"
    by (rule map_cong) (auto simp: bit_uint_iff dest: bit_imp_le_length)
  ultimately show ?thesis using n unfolding m by (simp add: bits_value_def take_bit_int_eq_self)
qed

lemma byte_value: "bits_value False (byte_bits b) = uint b"
  by (simp add: byte_bits_def unsigned_value)

lemma signed_byte_value: "bits_value True (byte_bits b) = sint b"
proof -
  have "take_bit 8 (uint b) = uint b" using uint_lt2p [of b] by (simp add: take_bit_int_eq_self)
  then have "sint b = uint b - (if bit b 7 then 2 ^ 8 else 0)"
    by (simp add: sint_uint signed_take_bit_eq_take_bit_minus bit_uint_iff)
  moreover have "last (byte_bits b) = bit b 7" "byte_bits b \<noteq> []" by (simp_all add: byte_bits_explicit)
  ultimately show ?thesis using byte_value [of b] by (simp add: bits_value_def)
qed

lemma word16_value: "bits_value False (concat (map byte_bits (le16 w))) = uint w"
proof -
  have "concat (map byte_bits (le16 w)) = map (bit w) [0..<16]"
    by (simp add: byte_bits_explicit le16_def be16_def upt_rec numeral_eq_Suc bit_simps)
  then show ?thesis by (simp add: unsigned_value)
qed

lemma bit_value: "bits_value False [b] = of_bool b"
  by (simp add: bits_value_def)

abbreviation variable_field :: "int \<Rightarrow> bool \<Rightarrow> nat \<Rightarrow> int \<Rightarrow> hid_field" where
  "variable_field page neg n usage \<equiv>
     \<lparr>field_page = page, field_usage = Some usage, field_signed = neg, field_size = n, field_constant = False\<rparr>"

section \<open>The three devices\<close>

lemma mouse_fields:
  "report_fields SC_HID_MOUSE_REPORT_DESC =
     map (variable_field 9 False 1) [1, 2, 3, 4, 5] @
     [\<lparr>field_page = 9, field_usage = None, field_signed = False, field_size = 3, field_constant = True\<rparr>] @
     map (variable_field 1 True 8) [0x30, 0x31, 0x38] @ [variable_field 12 True 8 0x238]"
  by code_simp

lemma gamepad_fields:
  "report_fields SC_HID_GAMEPAD_REPORT_DESC =
     map (variable_field 1 False 16) [0x30, 0x31, 0x33, 0x34, 0x32, 0x35] @
     map (variable_field 9 False 1) [1, 2, 3, 4, 5, 6, 7, 8, 9, 10, 11, 12, 13, 14, 15, 16] @ [variable_field 1 False 4 0x39]"
  by code_simp

lemma keyboard_fields:
  "report_fields SC_HID_KEYBOARD_REPORT_DESC =
     map (variable_field 7 False 1) [0xE0, 0xE1, 0xE2, 0xE3, 0xE4, 0xE5, 0xE6, 0xE7] @
     [\<lparr>field_page = 7, field_usage = None, field_signed = False, field_size = 8, field_constant = True\<rparr>] @
     map (\<lambda>_. \<lparr>field_page = 7, field_usage = None, field_signed = False, field_size = 8, field_constant = False\<rparr>) [1, 2, 3, 4, 5, 6 :: int]"
  by code_simp

lemma read_mouse:
  "read_report SC_HID_MOUSE_REPORT_DESC [b, x, y, v, h] =
     Some [(9, Some 1, of_bool (bit b 0)), (9, Some 2, of_bool (bit b 1)), (9, Some 3, of_bool (bit b 2)),
           (9, Some 4, of_bool (bit b 3)), (9, Some 5, of_bool (bit b 4)),
           (1, Some 0x30, sint x), (1, Some 0x31, sint y), (1, Some 0x38, sint v), (12, Some 0x238, sint h)]"
  unfolding read_report_def mouse_fields
  by (simp add: byte_bits_explicit [of b] bit_value signed_byte_value)

lemma read_word:
  "read_fields (variable_field page False 16 u # fs) (concat (map byte_bits (le16 w)) @ bits) =
     map_option (Cons (page, Some u, uint w)) (read_fields fs bits)"
proof -
  have "length (concat (map byte_bits (le16 w))) = 16" by (simp add: le16_def be16_def)
  then show ?thesis by (simp add: word16_value del: map_concat)
qed

lemma hat_value:
  "bits_value False [bit (sc_hid_gamepad_get_dpad_value b) 0, bit (sc_hid_gamepad_get_dpad_value b) 1,
     bit (sc_hid_gamepad_get_dpad_value b) 2, bit (sc_hid_gamepad_get_dpad_value b) 3] = uint (sc_hid_gamepad_get_dpad_value b)"
  by (simp add: sc_hid_gamepad_get_dpad_value_def bits_value_def Let_def)

lemma sixteen: "[0..<16] = [0, 1, 2, 3, 4, 5, 6, 7, 8, 9, 10, 11, 12, 13, 14, 15]" "[0..<8] = [0, 1, 2, 3, 4, 5, 6, 7]"
  by code_simp+

lemma read_gamepad:
  "read_report SC_HID_GAMEPAD_REPORT_DESC (gamepad_report s) =
     Some ([(1, Some 0x30, uint (axis_left_x s)), (1, Some 0x31, uint (axis_left_y s)),
            (1, Some 0x33, uint (axis_right_x s)), (1, Some 0x34, uint (axis_right_y s)),
            (1, Some 0x32, uint (axis_left_trigger s)), (1, Some 0x35, uint (axis_right_trigger s))] @
           map (\<lambda>k. (9, Some (int k + 1), of_bool (bit (slot_buttons s) k))) [0..<16] @
           [(1, Some 0x39, uint (sc_hid_gamepad_get_dpad_value (slot_buttons s)))])"
proof -
  define w :: u16 where "w = ucast (slot_buttons s)"
  have w: "bit w k = bit (slot_buttons s) k" if "k < 16" for k using that by (simp add: w_def bit_ucast_iff)
  have buttons: "concat (map byte_bits (le16 w)) = map (bit (slot_buttons s)) [0..<16]"
  proof -
    have "concat (map byte_bits (le16 w)) = map (bit w) [0..<16]"
      by (simp add: byte_bits_explicit le16_def be16_def upt_rec numeral_eq_Suc bit_simps)
    also have "\<dots> = map (bit (slot_buttons s)) [0..<16]" by (rule map_cong) (simp_all add: w)
    finally show ?thesis .
  qed
  let ?hat = "byte_bits (sc_hid_gamepad_get_dpad_value (slot_buttons s))"
  have last: "read_fields (map (variable_field 9 False 1) [1, 2, 3, 4, 5, 6, 7, 8, 9, 10, 11, 12, 13, 14, 15, 16] @
        [variable_field 1 False 4 0x39]) (map (bit (slot_buttons s)) [0..<16] @ ?hat) =
      Some (map (\<lambda>k. (9, Some (int k + 1), of_bool (bit (slot_buttons s) k))) [0..<16] @
            [(1, Some 0x39, uint (sc_hid_gamepad_get_dpad_value (slot_buttons s)))])"
    unfolding sixteen using hat_value [of "slot_buttons s"] by (simp add: byte_bits_explicit bit_value)
  have "concat (map byte_bits (gamepad_report s)) = concat (map byte_bits (le16 (axis_left_x s))) @
      concat (map byte_bits (le16 (axis_left_y s))) @ concat (map byte_bits (le16 (axis_right_x s))) @
      concat (map byte_bits (le16 (axis_right_y s))) @ concat (map byte_bits (le16 (axis_left_trigger s))) @
      concat (map byte_bits (le16 (axis_right_trigger s))) @ map (bit (slot_buttons s)) [0..<16] @ ?hat"
    by (simp only: gamepad_report_def map_append concat_append w_def [symmetric] buttons append_assoc) simp
  then show ?thesis unfolding read_report_def gamepad_fields using last
    by (simp only: list.map append.simps append_assoc read_word option.map)
qed

lemma read_keyboard:
  assumes "length ks = 6"
  shows "read_report SC_HID_KEYBOARD_REPORT_DESC (m # r # ks) =
    Some (map (\<lambda>k. (7, Some (0xE0 + int k), of_bool (bit m k))) [0..<8] @ map (\<lambda>b. (7, None, uint b)) ks)"
proof -
  obtain a b c d e f where "ks = [a, b, c, d, e, f]"
    using assms by (auto simp: numeral_eq_Suc length_Suc_conv)
  then show ?thesis unfolding read_report_def keyboard_fields
    unfolding sixteen by (simp add: byte_bits_explicit [of m] bit_value byte_value)
qed

lemma bit_if: "bit (if c then w else 0) n \<longleftrightarrow> c \<and> bit (w :: 'a :: len word) n"
  by simp

lemma button_bits:
  "bit (sc_hid_buttons_from_buttons_state S) 0 \<longleftrightarrow> SC_MOUSE_BUTTON_LEFT \<in> S"
  "bit (sc_hid_buttons_from_buttons_state S) 1 \<longleftrightarrow> SC_MOUSE_BUTTON_RIGHT \<in> S"
  "bit (sc_hid_buttons_from_buttons_state S) 2 \<longleftrightarrow> SC_MOUSE_BUTTON_MIDDLE \<in> S"
  "bit (sc_hid_buttons_from_buttons_state S) 3 \<longleftrightarrow> SC_MOUSE_BUTTON_X1 \<in> S"
  "bit (sc_hid_buttons_from_buttons_state S) 4 \<longleftrightarrow> SC_MOUSE_BUTTON_X2 \<in> S"
  by (simp_all add: sc_hid_buttons_from_buttons_state_def bit_or_iff bit_if)

text \<open>The modifiers in the order of their usages.\<close>

definition hid_mods :: "sc_mod list" where
  "hid_mods = [SC_MOD_LCTRL, SC_MOD_LSHIFT, SC_MOD_LALT, SC_MOD_LGUI, SC_MOD_RCTRL, SC_MOD_RSHIFT, SC_MOD_RALT, SC_MOD_RGUI]"

lemma mod_bits: "k < 8 \<Longrightarrow> bit (ucast (sc_hid_mod_from_sdl_keymod S) :: u8) k \<longleftrightarrow> hid_mods ! k \<in> S"
proof -
  assume "k < 8"
  then have "k \<in> {0, 1, 2, 3, 4, 5, 6, 7}" by auto
  then show ?thesis
    by (elim insertE emptyE) (simp_all add: sc_hid_mod_from_sdl_keymod_def hid_mods_def bit_ucast_iff bit_or_iff bit_if)
qed

section \<open>What the device reads\<close>

text \<open>The wheels of a scroll report, as the code keeps what it does not send.\<close>

lemma read_scroll:
  assumes "hid_input_ok h" "sc_hid_mouse_generate_input_from_scroll rnd hid h e = Some (True, hid', h')"
  shows "\<exists>v hs. read_report SC_HID_MOUSE_REPORT_DESC (hid_bytes h') =
      Some (map (\<lambda>k. (9, Some (int k), 0)) [1..<6] @
            [(1, Some 0x30, 0), (1, Some 0x31, 0), (1, Some 0x38, v), (12, Some 0x238, hs)]) \<and>
    of_int v = clamp127 (rnd (residual_vscroll hid + vscroll e)) - residual_vscroll hid' \<and>
    of_int hs = clamp127 (rnd (residual_hscroll hid + hscroll e)) - residual_hscroll hid'"
proof -
  obtain ch rh where ch: "consume_scroll_integer (rnd (residual_hscroll hid + hscroll e)) = (ch, rh)" by force
  obtain cv rv where cv: "consume_scroll_integer (rnd (residual_vscroll hid + vscroll e)) = (cv, rv)" by force
  obtain h2 where h2: "mouse_store 0 0 0 (of_int cv) (of_int ch) (sc_hid_mouse_input_init h) = Some h2"
    "hid_bytes h2 = [0, 0, 0, of_int cv, of_int ch]" by (rule mouse_store_eq [OF assms(1)])
  from assms(2) h2(1) have r: "h' = h2" "residual_hscroll hid' = rh" "residual_vscroll hid' = rv"
    by (auto simp: sc_hid_mouse_generate_input_from_scroll_def ch cv Let_def split: if_splits)
  have "[1..<6] = [1, 2, 3, 4, 5 :: nat]" by code_simp
  then have "read_report SC_HID_MOUSE_REPORT_DESC (hid_bytes h') =
      Some (map (\<lambda>k. (9, Some (int k), 0)) [1..<6] @
            [(1, Some 0x30, 0), (1, Some 0x31, 0), (1, Some 0x38, cv), (12, Some 0x238, ch)])"
    using consume_bounds(3) [OF ch] consume_bounds(3) [OF cv] by (simp add: r(1) h2(2) read_mouse sint_clamp)
  with r(2,3) consume_bounds(1) [OF ch] consume_bounds(1) [OF cv] show ?thesis
    by (intro exI [of _ cv] exI [of _ ch]) (simp add: algebra_simps)
qed

lemma read_motion:
  assumes "hid_input_ok h"
  shows "\<exists>h'. sc_hid_mouse_generate_input_from_motion h m = Some h' \<and>
    read_report SC_HID_MOUSE_REPORT_DESC (hid_bytes h') =
      Some [(9, Some 1, of_bool (SC_MOUSE_BUTTON_LEFT \<in> motion_buttons_state m)),
            (9, Some 2, of_bool (SC_MOUSE_BUTTON_RIGHT \<in> motion_buttons_state m)),
            (9, Some 3, of_bool (SC_MOUSE_BUTTON_MIDDLE \<in> motion_buttons_state m)),
            (9, Some 4, of_bool (SC_MOUSE_BUTTON_X1 \<in> motion_buttons_state m)),
            (9, Some 5, of_bool (SC_MOUSE_BUTTON_X2 \<in> motion_buttons_state m)),
            (1, Some 0x30, clamp127 (xrel m)), (1, Some 0x31, clamp127 (yrel m)), (1, Some 0x38, 0), (12, Some 0x238, 0)]"
proof -
  obtain h' where h': "sc_hid_mouse_generate_input_from_motion h m = Some h'"
    "hid_bytes h' = [sc_hid_buttons_from_buttons_state (motion_buttons_state m),
       of_int (clamp127 (xrel m)), of_int (clamp127 (yrel m)), 0, 0]"
    unfolding sc_hid_mouse_generate_input_from_motion_def by (rule mouse_store_eq [OF assms])
  show ?thesis
  proof (intro exI conjI)
    show "sc_hid_mouse_generate_input_from_motion h m = Some h'" by (rule h'(1))
  qed (unfold h'(2) read_mouse button_bits, simp add: sint_clamp abs_clamp127)
qed

lemma read_key:
  assumes "hid_input_ok h" "kb_ok kb" "0 \<le> key_scancode e" "relevant sdl e"
  shows "\<exists>kb' h'. sc_hid_keyboard_generate_input_from_key sdl kb h e = Some (True, kb', h') \<and> kb_keys kb' = key_after e kb \<and>
    read_report SC_HID_KEYBOARD_REPORT_DESC (hid_bytes h') =
      Some (map (\<lambda>k. (7, Some (0xE0 + int k), of_bool (hid_mods ! k \<in> key_mods_state e))) [0..<8] @
            map (\<lambda>k. (7, None, int k))
              (let down = pressed (kb_keys kb') in
               if length down \<le> 6 then down @ replicate (6 - length down) 0 else replicate 6 1))"
proof -
  let ?m = "ucast (sc_hid_mod_from_sdl_keymod (key_mods_state e)) :: u8" and ?down = "pressed (key_after e kb)"
  let ?h = "h\<lparr>hid_id := SC_HID_ID_KEYBOARD, hid_size := 8, hid_data := ?m # 0 # key_bytes ?down @ drop 8 (hid_data h)\<rparr>"
  have gen: "sc_hid_keyboard_generate_input_from_key sdl kb h e = Some (True, kb\<lparr>kb_keys := key_after e kb\<rparr>, ?h)"
    by (rule from_key_eq [OF assms(2,1,3)]) (use assms(4) in \<open>simp add: relevant_def\<close>)
  have bytes: "hid_bytes ?h = ?m # 0 # key_bytes ?down" by simp
  have mods: "map (\<lambda>k. (7 :: int, Some (0xE0 + int k), of_bool (bit ?m k) :: int)) [0..<8] =
      map (\<lambda>k. (7, Some (0xE0 + int k), of_bool (hid_mods ! k \<in> key_mods_state e))) [0..<8]"
    by (rule map_cong) (simp_all add: mod_bits)
  have "length (key_after e kb) = 102" using assms(2) by (simp add: key_after_def kb_ok_def SC_HID_KEYBOARD_KEYS_def)
  then have "k < 2 ^ 8" if "k \<in> set ?down" for k using that by (auto simp: pressed_def)
  then have "uint (of_nat k :: u8) = int k" if "k \<in> set ?down" for k
    using that by (simp add: unsigned_of_nat take_bit_nat_eq_self)
  then have keys: "map (\<lambda>b. (7 :: int, None :: int option, uint b)) (key_bytes ?down) =
      map (\<lambda>k. (7, None, int k)) (if length ?down \<le> 6 then ?down @ replicate (6 - length ?down) 0 else replicate 6 1)"
    by (simp add: key_bytes_def kb_consts comp_def)
  from gen read_keyboard [of "key_bytes ?down" ?m 0] bytes mods keys show ?thesis
    by (intro exI [of _ "kb\<lparr>kb_keys := key_after e kb\<rparr>"] exI [of _ ?h]) (simp add: Let_def)
qed

lemma read_slot:
  assumes "hid_input_ok h"
  shows "\<exists>h'. sc_hid_gamepad_event_from_slot i slot h = Some h' \<and>
    read_report SC_HID_GAMEPAD_REPORT_DESC (hid_bytes h') = read_report SC_HID_GAMEPAD_REPORT_DESC (gamepad_report slot)"
proof -
  have "length (gamepad_report slot) = 15" by (simp add: gamepad_report_def)
  then show ?thesis by (simp add: event_from_slot_eq [OF assms])
qed

text \<open>C40. The device reads what the host means: read by the report descriptor the device was given, bit by bit, with the usages it
  declares, the reports that the generators produce are the state of the simulated devices. A motion report of the mouse is the
  buttons held and the motion clamped to -127..127, a scroll report the amounts taken from the two wheels; a keyboard report, for any
  state and any event that is not ignored, the eight modifiers held and the keys down after the event, padded with zeros, or the
  roll-over error when they are more than six; a gamepad report the six axes, the sixteen buttons and the
  direction pad of its slot. The report buffer is one of the program's, of 15 bytes, and the keyboard has its 102 keys.\<close>

theorem reports_match_descriptors:
  assumes "hid_input_ok h" "kb_ok kb" "0 \<le> key_scancode e" "relevant sdl e"
  shows "(\<exists>h'. sc_hid_mouse_generate_input_from_motion h m = Some h' \<and>
      read_report SC_HID_MOUSE_REPORT_DESC (hid_bytes h') =
        Some [(9, Some 1, of_bool (SC_MOUSE_BUTTON_LEFT \<in> motion_buttons_state m)),
              (9, Some 2, of_bool (SC_MOUSE_BUTTON_RIGHT \<in> motion_buttons_state m)),
              (9, Some 3, of_bool (SC_MOUSE_BUTTON_MIDDLE \<in> motion_buttons_state m)),
              (9, Some 4, of_bool (SC_MOUSE_BUTTON_X1 \<in> motion_buttons_state m)),
              (9, Some 5, of_bool (SC_MOUSE_BUTTON_X2 \<in> motion_buttons_state m)),
              (1, Some 0x30, min (max (xrel m) (- 127)) 127), (1, Some 0x31, min (max (yrel m) (- 127)) 127),
              (1, Some 0x38, 0), (12, Some 0x238, 0)]) \<and>
    (\<forall>hid' h'. sc_hid_mouse_generate_input_from_scroll rnd hid h w = Some (True, hid', h') \<longrightarrow>
      (\<exists>v hs. read_report SC_HID_MOUSE_REPORT_DESC (hid_bytes h') =
          Some (map (\<lambda>k. (9, Some (int k), 0)) [1..<6] @
                [(1, Some 0x30, 0), (1, Some 0x31, 0), (1, Some 0x38, v), (12, Some 0x238, hs)]) \<and>
        of_int v = clamp127 (rnd (residual_vscroll hid + vscroll w)) - residual_vscroll hid' \<and>
        of_int hs = clamp127 (rnd (residual_hscroll hid + hscroll w)) - residual_hscroll hid')) \<and>
    (\<exists>kb' h'. sc_hid_keyboard_generate_input_from_key sdl kb h e = Some (True, kb', h') \<and> kb_keys kb' = key_after e kb \<and>
      read_report SC_HID_KEYBOARD_REPORT_DESC (hid_bytes h') =
        Some (map (\<lambda>k. (7, Some (0xE0 + int k), of_bool (hid_mods ! k \<in> key_mods_state e))) [0..<8] @
              map (\<lambda>k. (7, None, int k))
                (let down = pressed (kb_keys kb') in
                 if length down \<le> 6 then down @ replicate (6 - length down) 0 else replicate 6 1))) \<and>
    (\<exists>h'. sc_hid_gamepad_event_from_slot i slot h = Some h' \<and>
      read_report SC_HID_GAMEPAD_REPORT_DESC (hid_bytes h') =
        Some ([(1, Some 0x30, uint (axis_left_x slot)), (1, Some 0x31, uint (axis_left_y slot)),
               (1, Some 0x33, uint (axis_right_x slot)), (1, Some 0x34, uint (axis_right_y slot)),
               (1, Some 0x32, uint (axis_left_trigger slot)), (1, Some 0x35, uint (axis_right_trigger slot))] @
              map (\<lambda>k. (9, Some (int k + 1), of_bool (bit (slot_buttons slot) k))) [0..<16] @
              [(1, Some 0x39, uint (sc_hid_gamepad_get_dpad_value (slot_buttons slot)))]))"
proof (intro conjI allI impI)
  show "\<exists>v hs. read_report SC_HID_MOUSE_REPORT_DESC (hid_bytes h') =
        Some (map (\<lambda>k. (9, Some (int k), 0)) [1..<6] @
              [(1, Some 0x30, 0), (1, Some 0x31, 0), (1, Some 0x38, v), (12, Some 0x238, hs)]) \<and>
      of_int v = clamp127 (rnd (residual_vscroll hid + vscroll w)) - residual_vscroll hid' \<and>
      of_int hs = clamp127 (rnd (residual_hscroll hid + hscroll w)) - residual_hscroll hid'"
    if "sc_hid_mouse_generate_input_from_scroll rnd hid h w = Some (True, hid', h')" for hid' h'
    by (rule read_scroll [OF assms(1) that])
qed (use read_motion [OF assms(1), of m] read_key [OF assms] read_slot [OF assms(1), of i slot]
    in \<open>simp_all only: read_gamepad clamp127_def\<close>)

theorem reports_match_descriptors_witness:
  "\<exists>h'. sc_hid_mouse_generate_input_from_motion \<lparr>hid_id = 0, hid_data = replicate 15 9, hid_size = 0\<rparr>
      \<lparr>motion_position = \<lparr>screen_size = \<lparr>width = 1, height = 1\<rparr>, point = \<lparr>point_x = 0, point_y = 0\<rparr>\<rparr>,
       motion_pointer_id = 0, xrel = 300, yrel = - 4, motion_buttons_state = {SC_MOUSE_BUTTON_X2}\<rparr> = Some h' \<and>
    read_report SC_HID_MOUSE_REPORT_DESC (hid_bytes h') =
      Some [(9, Some 1, 0), (9, Some 2, 0), (9, Some 3, 0), (9, Some 4, 0), (9, Some 5, 1),
            (1, Some 0x30, 127), (1, Some 0x31, - 4), (1, Some 0x38, 0), (12, Some 0x238, 0)]"
proof -
  let ?h = "\<lparr>hid_id = 0, hid_data = replicate 15 9, hid_size = 0\<rparr> :: sc_hid_input"
  let ?e = "\<lparr>key_action = SC_ACTION_DOWN, key_keycode = 97, key_scancode = 4, key_mods_state = {}, key_repeat = False\<rparr>"
  have a: "hid_input_ok ?h" "kb_ok sc_hid_keyboard_init" "0 \<le> key_scancode ?e" "relevant sdl ?e" for sdl
    by (simp_all add: hid_input_ok_def SC_HID_MAX_SIZE_def kb_ok_def sc_hid_keyboard_init_def relevant_def SC_HID_KEYBOARD_KEYS_def)
  from reports_match_descriptors [OF a, where m = "\<lparr>motion_position = \<lparr>screen_size = \<lparr>width = 1, height = 1\<rparr>,
      point = \<lparr>point_x = 0, point_y = 0\<rparr>\<rparr>, motion_pointer_id = 0, xrel = 300, yrel = - 4,
      motion_buttons_state = {SC_MOUSE_BUTTON_X2}\<rparr>", THEN conjunct1]
  show ?thesis by simp
qed

end
