(* ===== verification/Uhid.thy ===== *)
theory Uhid
  imports ServerReader Controller HidKeyboard HidMouse HidGamepad
begin

text \<open>
  \<^verbatim>\<open>app/src/uhid/\<close>: keyboard, mouse and gamepads simulated on the device, by HID reports sent as control
  messages. A handler gives the messages it passes to \<^verbatim>\<open>sc_controller_push_msg\<close>, in order; it ignores
  whether they are accepted. \<open>stack\<close> is the uninitialised array of the message it builds, \<open>h\<close> the
  uninitialised report.
\<close>

section \<open>Sending\<close>

text \<open>\<^verbatim>\<open>sc_keyboard_uhid_send_input\<close>, \<^verbatim>\<open>sc_mouse_uhid_send_input\<close> and \<^verbatim>\<open>sc_gamepad_uhid_send_input\<close> are the
  same function.\<close>

definition uhid_send_input :: "byte_buf \<Rightarrow> sc_hid_input \<Rightarrow> sc_control_msg option" where
  "uhid_send_input stack hid_input = do {
     c_assert (unat (hid_size hid_input) \<le> SC_HID_MAX_SIZE);
     bytes \<leftarrow> mem_read 0 (unat (hid_size hid_input)) (hid_data hid_input);
     d \<leftarrow> mem_write 0 bytes stack;
     Some (UHID_INPUT (hid_id hid_input) (ucast (hid_size hid_input)) d)
   }"

section \<open>Keyboard\<close>

record sc_keyboard_uhid =
  uk_hid :: sc_hid_keyboard
  device_mod :: "sc_mod set"

text \<open>\<open>sdl_mod\<close> is the result of \<^verbatim>\<open>SDL_GetModState\<close>, the state of the host keyboard.\<close>

definition sc_keyboard_uhid_synchronize_mod ::
  "sdl_consts \<Rightarrow> sc_mod set \<Rightarrow> sc_hid_input \<Rightarrow> byte_buf \<Rightarrow> sc_keyboard_uhid \<Rightarrow>
   (sc_keyboard_uhid \<times> sc_control_msg list) option" where
  "sc_keyboard_uhid_synchronize_mod sdl sdl_mod h stack kb = do {
     let m = sdl_mod \<inter> {SC_MOD_CAPS, SC_MOD_NUM};
     let diff = (m - device_mod kb) \<union> (device_mod kb - m);
     if diff \<noteq> {} then do {
       let kb = kb\<lparr>device_mod := m\<rparr>;
       (ok, hid_input) \<leftarrow> sc_hid_keyboard_generate_input_from_mods sdl h diff;
       if \<not> ok then Some (kb, [])
       else do { msg \<leftarrow> uhid_send_input stack hid_input; Some (kb, [msg]) }
     } else Some (kb, [])
   }"

definition toggle_mod :: "sc_mod \<Rightarrow> sc_mod set \<Rightarrow> sc_mod set" where
  "toggle_mod m ms = (if m \<in> ms then ms - {m} else insert m ms)"

definition keyboard_uhid_process_key ::
  "sdl_consts \<Rightarrow> sc_mod set \<Rightarrow> sc_hid_input \<Rightarrow> byte_buf \<Rightarrow> sc_key_event \<Rightarrow> sc_keyboard_uhid \<Rightarrow>
   (sc_keyboard_uhid \<times> sc_control_msg list) option" where
  "keyboard_uhid_process_key sdl sdl_mod h stack event kb =
     (if key_repeat event then Some (kb, [])
      else do {
        (ok, hid, hid_input) \<leftarrow> sc_hid_keyboard_generate_input_from_key sdl (uk_hid kb) h event;
        let kb = kb\<lparr>uk_hid := hid\<rparr>;
        if \<not> ok then Some (kb, [])
        else do {
          (kb, msgs) \<leftarrow>
            (if key_scancode event = SDL_SCANCODE_CAPSLOCK sdl
             then Some (kb\<lparr>device_mod := toggle_mod SC_MOD_CAPS (device_mod kb)\<rparr>, [])
             else if key_scancode event = SDL_SCANCODE_NUMLOCKCLEAR sdl
             then Some (kb\<lparr>device_mod := toggle_mod SC_MOD_NUM (device_mod kb)\<rparr>, [])
             else sc_keyboard_uhid_synchronize_mod sdl sdl_mod h stack kb);
          msg \<leftarrow> uhid_send_input stack hid_input;
          Some (kb, msgs @ [msg])
        }
      })"

definition sc_keyboard_uhid_to_sc_mod :: "u8 \<Rightarrow> sc_mod set" where
  "sc_keyboard_uhid_to_sc_mod hid_led =
     (if hid_led AND 0x01 \<noteq> 0 then {SC_MOD_NUM} else {}) \<union>
     (if hid_led AND 0x02 \<noteq> 0 then {SC_MOD_CAPS} else {})"

definition sc_keyboard_uhid_process_hid_output ::
  "byte_buf \<Rightarrow> sc_keyboard_uhid \<Rightarrow> sc_keyboard_uhid option" where
  "sc_keyboard_uhid_process_hid_output d kb = do {
     c_assert (length d \<noteq> 0);
     if length d = 0 then Some kb
     else do {
       hid_led \<leftarrow> mem_get 0 d;
       Some (kb\<lparr>device_mod := sc_keyboard_uhid_to_sc_mod hid_led\<rparr>)
     }
   }"

text \<open>The message \<^verbatim>\<open>UHID_CREATE\<close> of an open request.\<close>

definition uhid_create_msg :: "u16 \<Rightarrow> u16 \<Rightarrow> u16 \<Rightarrow> byte_buf option \<Rightarrow> sc_hid_open \<Rightarrow> sc_control_msg" where
  "uhid_create_msg i vendor product name hid_open =
     UHID_CREATE i vendor product name (of_nat (length (sc_hid_open.report_desc hid_open)))
       (sc_hid_open.report_desc hid_open)"

text \<open>Initialisation fails exactly when the message is not accepted.\<close>

definition sc_keyboard_uhid_init :: "(sc_keyboard_uhid \<times> sc_control_msg) option" where
  "sc_keyboard_uhid_init = do {
     let kb = \<lparr>uk_hid = sc_hid_keyboard_init, device_mod = {}\<rparr>;
     let hid_open = sc_hid_keyboard_generate_open;
     c_assert (open_id hid_open = SC_HID_ID_KEYBOARD);
     Some (kb, uhid_create_msg SC_HID_ID_KEYBOARD 0 0 None hid_open)
   }"

section \<open>Output reports\<close>

type_synonym sc_uhid_devices = "sc_keyboard_uhid option"

definition sc_uhid_devices_process_hid_output ::
  "u16 \<Rightarrow> byte_buf \<Rightarrow> sc_uhid_devices \<Rightarrow> sc_uhid_devices option" where
  "sc_uhid_devices_process_hid_output i d devices =
     (if i = SC_HID_ID_KEYBOARD then
        (case devices of
           Some kb \<Rightarrow> do { kb \<leftarrow> sc_keyboard_uhid_process_hid_output d kb; Some (Some kb) }
         | None \<Rightarrow> Some None)
      else Some devices)"

section \<open>Mouse\<close>

definition mouse_uhid_process_motion ::
  "sc_hid_input \<Rightarrow> byte_buf \<Rightarrow> sc_mouse_motion_event \<Rightarrow> sc_control_msg list option" where
  "mouse_uhid_process_motion h stack event = do {
     hid_input \<leftarrow> sc_hid_mouse_generate_input_from_motion h event;
     msg \<leftarrow> uhid_send_input stack hid_input;
     Some [msg]
   }"

definition mouse_uhid_process_click ::
  "sc_hid_input \<Rightarrow> byte_buf \<Rightarrow> sc_mouse_click_event \<Rightarrow> sc_control_msg list option" where
  "mouse_uhid_process_click h stack event = do {
     hid_input \<leftarrow> sc_hid_mouse_generate_input_from_click h event;
     msg \<leftarrow> uhid_send_input stack hid_input;
     Some [msg]
   }"

definition mouse_uhid_process_scroll ::
  "(rat \<Rightarrow> rat) \<Rightarrow> sc_hid_input \<Rightarrow> byte_buf \<Rightarrow> sc_mouse_scroll_event \<Rightarrow> sc_hid_mouse \<Rightarrow>
   (sc_hid_mouse \<times> sc_control_msg list) option" where
  "mouse_uhid_process_scroll rnd h stack event mouse = do {
     (ok, mouse, hid_input) \<leftarrow> sc_hid_mouse_generate_input_from_scroll rnd mouse h event;
     if \<not> ok then Some (mouse, [])
     else do { msg \<leftarrow> uhid_send_input stack hid_input; Some (mouse, [msg]) }
   }"

definition sc_mouse_uhid_init :: "(sc_hid_mouse \<times> sc_control_msg) option" where
  "sc_mouse_uhid_init = do {
     let hid_open = sc_hid_mouse_generate_open;
     c_assert (open_id hid_open = SC_HID_ID_MOUSE);
     Some (sc_hid_mouse_init, uhid_create_msg SC_HID_ID_MOUSE 0 0 None hid_open)
   }"

section \<open>Gamepads\<close>

definition SC_GAMEPAD_UHID_VENDOR_ID :: u16 where "SC_GAMEPAD_UHID_VENDOR_ID = 0x045e"
definition SC_GAMEPAD_UHID_PRODUCT_ID :: u16 where "SC_GAMEPAD_UHID_PRODUCT_ID = 0x028e"

definition ascii :: "string \<Rightarrow> byte_buf" where
  "ascii s = map (\<lambda>c. of_nat (of_char c)) s"

definition SC_GAMEPAD_UHID_NAME :: byte_buf where
  "SC_GAMEPAD_UHID_NAME = ascii ''Microsoft X-Box 360 Pad''"

definition sc_gamepad_uhid_send_open :: "sc_hid_open \<Rightarrow> sc_control_msg" where
  "sc_gamepad_uhid_send_open hid_open =
     uhid_create_msg (open_id hid_open) SC_GAMEPAD_UHID_VENDOR_ID SC_GAMEPAD_UHID_PRODUCT_ID
       (Some SC_GAMEPAD_UHID_NAME) hid_open"

definition sc_gamepad_uhid_send_close :: "sc_hid_close \<Rightarrow> sc_control_msg" where
  "sc_gamepad_uhid_send_close hid_close = UHID_DESTROY (close_id hid_close)"

text \<open>\<open>known\<close> says that \<^verbatim>\<open>SDL_GetGamepadFromID\<close> finds the gamepad.\<close>

definition gamepad_uhid_process_added ::
  "bool \<Rightarrow> u32 \<Rightarrow> sc_hid_gamepad \<Rightarrow> (sc_hid_gamepad \<times> sc_control_msg list) option" where
  "gamepad_uhid_process_added known gamepad_id hid = do {
     (hid, r) \<leftarrow> sc_hid_gamepad_generate_open hid gamepad_id;
     (case r of
        None \<Rightarrow> Some (hid, [])
      | Some hid_open \<Rightarrow> do { c_assert known; Some (hid, [sc_gamepad_uhid_send_open hid_open]) })
   }"

definition gamepad_uhid_process_removed ::
  "u32 \<Rightarrow> sc_hid_gamepad \<Rightarrow> (sc_hid_gamepad \<times> sc_control_msg list) option" where
  "gamepad_uhid_process_removed gamepad_id hid = do {
     (hid, r) \<leftarrow> sc_hid_gamepad_generate_close hid gamepad_id;
     (case r of
        None \<Rightarrow> Some (hid, [])
      | Some hid_close \<Rightarrow> Some (hid, [sc_gamepad_uhid_send_close hid_close]))
   }"

definition gamepad_uhid_process_axis ::
  "sc_hid_input \<Rightarrow> byte_buf \<Rightarrow> sc_gamepad_axis_event \<Rightarrow> sc_hid_gamepad \<Rightarrow>
   (sc_hid_gamepad \<times> sc_control_msg list) option" where
  "gamepad_uhid_process_axis h stack event hid = do {
     (ok, hid, hid_input) \<leftarrow> sc_hid_gamepad_generate_input_from_axis hid h event;
     if \<not> ok then Some (hid, [])
     else do { msg \<leftarrow> uhid_send_input stack hid_input; Some (hid, [msg]) }
   }"

definition gamepad_uhid_process_button ::
  "sdl_consts \<Rightarrow> sc_hid_input \<Rightarrow> byte_buf \<Rightarrow> sc_gamepad_button_event \<Rightarrow> sc_hid_gamepad \<Rightarrow>
   (sc_hid_gamepad \<times> sc_control_msg list) option" where
  "gamepad_uhid_process_button sdl h stack event hid = do {
     (ok, hid, hid_input) \<leftarrow> sc_hid_gamepad_generate_input_from_button sdl hid h event;
     if \<not> ok then Some (hid, [])
     else do { msg \<leftarrow> uhid_send_input stack hid_input; Some (hid, [msg]) }
   }"

section \<open>The messages\<close>

text \<open>What the server makes of an input message: the identifier and exactly the bytes of the report.\<close>

lemma send_input_ok:
  assumes "hid_input_ok hi" "unat (hid_size hi) \<le> SC_HID_MAX_SIZE" "length stack = SC_HID_MAX_SIZE"
  shows "\<exists>m. uhid_send_input stack hi = Some m \<and> wf_control_msg m \<and> \<not> is_RESIZE_DISPLAY m \<and>
    as_server m = createUhidInput (hid_id hi) (hid_bytes hi)"
proof -
  have "unat (ucast (hid_size hi) :: u16) = unat (hid_size hi)"
    using assms(2) by (simp add: unsigned_ucast_eq take_bit_nat_eq_self SC_HID_MAX_SIZE_def)
  with assms show ?thesis
    by (simp add: uhid_send_input_def hid_input_ok_def mem_read_def mem_write_def)
qed

text \<open>A message the controller accepts and the report it carries to the server.\<close>

definition carries :: "u16 \<Rightarrow> byte_buf \<Rightarrow> sc_control_msg \<Rightarrow> bool" where
  "carries i report m \<longleftrightarrow> good_event (Push True m) \<and> as_server m = createUhidInput i report"

lemma send_carries:
  assumes "hid_input_ok hi" "unat (hid_size hi) \<le> SC_HID_MAX_SIZE" "length stack = SC_HID_MAX_SIZE"
  shows "\<exists>m. uhid_send_input stack hi = Some m \<and> carries (hid_id hi) (hid_bytes hi) m"
  using send_input_ok [OF assms] by (auto simp: carries_def)

subsection \<open>Keyboard\<close>

definition key_report :: "sc_key_event \<Rightarrow> sc_hid_keyboard \<Rightarrow> byte_buf" where
  "key_report e hid = ucast (sc_hid_mod_from_sdl_keymod (key_mods_state e)) # 0 #
     key_bytes (pressed (key_after e hid))"

text \<open>A report in which exactly the lock keys to toggle are pressed.\<close>

definition lock_report :: "sdl_consts \<Rightarrow> sc_mod set \<Rightarrow> byte_buf" where
  "lock_report sdl diff =
     (let keys = (if SC_MOD_CAPS \<in> diff then [of_int (SDL_SCANCODE_CAPSLOCK sdl)] else []) @
                 (if SC_MOD_NUM \<in> diff then [of_int (SDL_SCANCODE_NUMLOCKCLEAR sdl)] else [])
      in 0 # 0 # keys @ replicate (6 - length keys) 0)"

lemma from_mods_eq:
  assumes "hid_input_ok h" "SC_MOD_CAPS \<in> diff \<or> SC_MOD_NUM \<in> diff"
  shows "sc_hid_keyboard_generate_input_from_mods sdl h diff =
    Some (True, h\<lparr>hid_id := SC_HID_ID_KEYBOARD, hid_size := 8,
                  hid_data := lock_report sdl diff @ drop 8 (hid_data h)\<rparr>)"
proof -
  have "replicate 8 (0 :: u8) = [0, 0, 0, 0, 0, 0, 0, 0]" "replicate 6 (0 :: u8) = [0, 0, 0, 0, 0, 0]"
    "replicate 5 (0 :: u8) = [0, 0, 0, 0, 0]" "replicate 4 (0 :: u8) = [0, 0, 0, 0]"
    by (simp_all add: numeral_eq_Suc)
  with assms show ?thesis
    by (auto simp: sc_hid_keyboard_generate_input_from_mods_def input_init_eq lock_report_def mem_set_def
        kb_consts Let_def)
qed

lemma length_lock_report: "length (lock_report sdl diff) = 8"
  by (simp add: lock_report_def)

lemma send_key:
  assumes "length stack = SC_HID_MAX_SIZE" "length r = 8" "hid_input_ok h"
  shows "\<exists>m. uhid_send_input stack (h\<lparr>hid_id := i, hid_size := 8, hid_data := r @ drop 8 (hid_data h)\<rparr>) = Some m \<and>
    carries i r m"
  using send_carries [of "h\<lparr>hid_id := i, hid_size := 8, hid_data := r @ drop 8 (hid_data h)\<rparr>" stack] assms
  by (simp add: hid_input_ok_def SC_HID_MAX_SIZE_def)

lemma synchronize_ok:
  fixes sdl_mod :: "sc_mod set"
  assumes "hid_input_ok h" "length stack = SC_HID_MAX_SIZE" "device_mod kb \<subseteq> {SC_MOD_CAPS, SC_MOD_NUM}"
  defines "m \<equiv> sdl_mod \<inter> {SC_MOD_CAPS, SC_MOD_NUM}"
  defines "diff \<equiv> (m - device_mod kb) \<union> (device_mod kb - m)"
  shows "\<exists>ms. sc_keyboard_uhid_synchronize_mod sdl sdl_mod h stack kb = Some (kb\<lparr>device_mod := m\<rparr>, ms) \<and>
    list_all2 (carries SC_HID_ID_KEYBOARD) (if diff = {} then [] else [lock_report sdl diff]) ms"
proof (cases "diff = {}")
  case True
  then have "m = device_mod kb" by (auto simp: diff_def)
  with True show ?thesis
    by (simp add: sc_keyboard_uhid_synchronize_mod_def Let_def diff_def flip: m_def)
next
  case False
  then have l: "SC_MOD_CAPS \<in> diff \<or> SC_MOD_NUM \<in> diff" using assms(3) by (auto simp: diff_def m_def)
  obtain msg where "uhid_send_input stack (h\<lparr>hid_id := SC_HID_ID_KEYBOARD, hid_size := 8,
      hid_data := lock_report sdl diff @ drop 8 (hid_data h)\<rparr>) = Some msg"
    "carries SC_HID_ID_KEYBOARD (lock_report sdl diff) msg"
    using send_key [OF assms(2) length_lock_report assms(1)] by blast
  moreover have "(diff \<noteq> {}) = True" using False by simp
  ultimately show ?thesis
    using from_mods_eq [OF assms(1) l, of sdl]
    by (simp only: sc_keyboard_uhid_synchronize_mod_def Let_def flip: m_def diff_def) simp
qed

text \<open>A key event on the simulated keyboard: an event that is neither a repetition nor ignored
  produces, for the server, the report of the keys now down; before it, when the locks of the host differ
  from those the device is believed to have and the key is not itself a lock key, one report that presses
  exactly the lock keys that differ, after which the device is believed to have the locks of the host.
  All messages are accepted by the controller as well-formed.\<close>

theorem uhid_key_messages:
  assumes "hid_input_ok h" "length stack = SC_HID_MAX_SIZE" "kb_ok (uk_hid kb)"
    "device_mod kb \<subseteq> {SC_MOD_CAPS, SC_MOD_NUM}"
    "\<not> key_repeat e" "0 \<le> key_scancode e" "relevant sdl e"
  shows "let locks = sdl_mod \<inter> {SC_MOD_CAPS, SC_MOD_NUM};
             diff = (locks - device_mod kb) \<union> (device_mod kb - locks);
             caps = (key_scancode e = SDL_SCANCODE_CAPSLOCK sdl);
             num = (key_scancode e = SDL_SCANCODE_NUMLOCKCLEAR sdl)
         in \<exists>kb' ms. keyboard_uhid_process_key sdl sdl_mod h stack e kb = Some (kb', ms) \<and>
              kb_ok (uk_hid kb') \<and> device_mod kb' \<subseteq> {SC_MOD_CAPS, SC_MOD_NUM} \<and>
              device_mod kb' = (if caps then toggle_mod SC_MOD_CAPS (device_mod kb)
                                else if num then toggle_mod SC_MOD_NUM (device_mod kb) else locks) \<and>
              list_all2 (carries SC_HID_ID_KEYBOARD)
                ((if caps \<or> num \<or> diff = {} then [] else [lock_report sdl diff]) @ [key_report e (uk_hid kb)]) ms"
proof -
  let ?hid = "(uk_hid kb)\<lparr>kb_keys := key_after e (uk_hid kb)\<rparr>"
  let ?hi = "h\<lparr>hid_id := SC_HID_ID_KEYBOARD, hid_size := 8,
    hid_data := key_report e (uk_hid kb) @ drop 8 (hid_data h)\<rparr>"
  define kb1 where "kb1 = kb\<lparr>uk_hid := ?hid\<rparr>"
  define l where "l = sdl_mod \<inter> {SC_MOD_CAPS, SC_MOD_NUM}"
  define diff where "diff = (l - device_mod kb) \<union> (device_mod kb - l)"
  have d: "device_mod kb1 = device_mod kb" "kb_ok (uk_hid kb1)"
    using assms(3) by (simp_all add: kb1_def kb_ok_def key_after_def)
  have g: "sc_hid_keyboard_generate_input_from_key sdl (uk_hid kb) h e = Some (True, ?hid, ?hi)"
    using from_key_eq [OF assms(3,1,6), of sdl] assms(7) by (simp add: relevant_def key_report_def)
  obtain msg where m: "uhid_send_input stack ?hi = Some msg" "carries SC_HID_ID_KEYBOARD (key_report e (uk_hid kb)) msg"
    using send_key [OF assms(2) _ assms(1), of "key_report e (uk_hid kb)" SC_HID_ID_KEYBOARD]
    by (auto simp: key_report_def)
  obtain ms where sync: "sc_keyboard_uhid_synchronize_mod sdl sdl_mod h stack kb1 = Some (kb1\<lparr>device_mod := l\<rparr>, ms)"
    "list_all2 (carries SC_HID_ID_KEYBOARD) (if diff = {} then [] else [lock_report sdl diff]) ms"
    using synchronize_ok [of h stack kb1 sdl sdl_mod] assms(1,2,4) unfolding d l_def diff_def by blast
  have p: "keyboard_uhid_process_key sdl sdl_mod h stack e kb =
    Option.bind
      (if key_scancode e = SDL_SCANCODE_CAPSLOCK sdl
       then Some (kb1\<lparr>device_mod := toggle_mod SC_MOD_CAPS (device_mod kb)\<rparr>, [])
       else if key_scancode e = SDL_SCANCODE_NUMLOCKCLEAR sdl
       then Some (kb1\<lparr>device_mod := toggle_mod SC_MOD_NUM (device_mod kb)\<rparr>, [])
       else Some (kb1\<lparr>device_mod := l\<rparr>, ms))
      (\<lambda>(kb, msgs). Some (kb, msgs @ [msg]))"
    using g m(1) sync(1) assms(5) d(1) by (simp add: keyboard_uhid_process_key_def Let_def flip: kb1_def)
  have t: "toggle_mod c (device_mod kb) \<subseteq> {SC_MOD_CAPS, SC_MOD_NUM}" if "c \<in> {SC_MOD_CAPS, SC_MOD_NUM}" for c
    using assms(4) that by (auto simp: toggle_mod_def)
  have "l \<subseteq> {SC_MOD_CAPS, SC_MOD_NUM}" by (simp add: l_def)
  with p m(2) sync(2) d t show ?thesis
    unfolding Let_def l_def [symmetric] diff_def [symmetric]
    by (cases "key_scancode e = SDL_SCANCODE_CAPSLOCK sdl"; cases "key_scancode e = SDL_SCANCODE_NUMLOCKCLEAR sdl")
      (simp_all add: list_all2_appendI)
qed

theorem uhid_key_messages_witness:
  "\<exists>kb' ms. keyboard_uhid_process_key sdl3 {SC_MOD_CAPS} \<lparr>hid_id = 0, hid_data = replicate 15 9, hid_size = 0\<rparr>
       (replicate 15 7) \<lparr>key_action = SC_ACTION_DOWN, key_keycode = 97, key_scancode = 4, key_mods_state = {},
         key_repeat = False\<rparr> \<lparr>uk_hid = sc_hid_keyboard_init, device_mod = {}\<rparr> = Some (kb', ms) \<and>
     device_mod kb' = {SC_MOD_CAPS} \<and> length ms = 2"
proof -
  let ?h = "\<lparr>hid_id = 0, hid_data = replicate 15 9, hid_size = 0\<rparr> :: sc_hid_input"
  let ?e = "\<lparr>key_action = SC_ACTION_DOWN, key_keycode = 97, key_scancode = 4, key_mods_state = {}, key_repeat = False\<rparr>"
  let ?kb = "\<lparr>uk_hid = sc_hid_keyboard_init, device_mod = {}\<rparr>"
  have a: "hid_input_ok ?h" "length (replicate 15 (7 :: u8)) = SC_HID_MAX_SIZE" "kb_ok (uk_hid ?kb)"
    "device_mod ?kb \<subseteq> {SC_MOD_CAPS, SC_MOD_NUM}" "\<not> key_repeat ?e" "0 \<le> key_scancode ?e" "relevant sdl3 ?e"
    by (simp_all add: hid_input_ok_def SC_HID_MAX_SIZE_def kb_ok_def sc_hid_keyboard_init_def relevant_def
        SC_HID_KEYBOARD_KEYS_def)
  from uhid_key_messages [OF a, of "{SC_MOD_CAPS}"] show ?thesis
    by (auto simp: Let_def sdl3_def dest!: list_all2_lengthD)
qed

subsection \<open>Gamepads\<close>

text \<open>What the server does with the messages: it keeps the set of devices created, and refuses to create
  one twice and to use one that does not exist.\<close>

fun device_step :: "u16 set \<Rightarrow> sc_control_msg \<Rightarrow> u16 set option" where
  "device_step D (UHID_CREATE i v p n ds d) = (if i \<in> D then None else Some (insert i D))"
| "device_step D (UHID_INPUT i sz d) = (if i \<in> D then Some D else None)"
| "device_step D (UHID_DESTROY i) = (if i \<in> D then Some (D - {i}) else None)"
| "device_step D _ = None"

fun device_run :: "sc_control_msg list \<Rightarrow> u16 set \<Rightarrow> u16 set option" where
  "device_run [] D = Some D"
| "device_run (m # ms) D = Option.bind (device_step D m) (device_run ms)"

lemma device_run_append: "device_run (ms @ ns) D = Option.bind (device_run ms D) (device_run ns)"
  by (induction ms arbitrary: D) (auto simp: Option.bind_assoc intro!: bind_option_cong)

definition open_hids :: "sc_hid_gamepad \<Rightarrow> u16 set" where
  "open_hids hid = {3 + of_nat i | i. i < SC_MAX_GAMEPADS \<and> slot_gamepad_id (slots hid ! i) \<noteq> SC_GAMEPAD_ID_INVALID}"

lemma hid_of_inj: "i < SC_MAX_GAMEPADS \<Longrightarrow> j < SC_MAX_GAMEPADS \<Longrightarrow> (3 + of_nat i :: u16) = 3 + of_nat j \<longleftrightarrow> i = j"
  by (simp add: SC_MAX_GAMEPADS_def word_of_nat_eq_iff take_bit_nat_eq_self)

lemma open_hids_iff:
  "i < SC_MAX_GAMEPADS \<Longrightarrow> 3 + of_nat i \<in> open_hids hid \<longleftrightarrow> slot_gamepad_id (slots hid ! i) \<noteq> SC_GAMEPAD_ID_INVALID"
  unfolding open_hids_def using hid_of_inj by blast

lemma open_hids_update:
  assumes "gp_inv hid" "i < SC_MAX_GAMEPADS"
  shows "open_hids (hid\<lparr>slots := (slots hid)[i := s]\<rparr>) =
    (if slot_gamepad_id s = SC_GAMEPAD_ID_INVALID then open_hids hid - {3 + of_nat i}
     else insert (3 + of_nat i) (open_hids hid))" (is "?l = ?r")
proof (rule set_eqI)
  fix n
  have len: "length (slots hid) = SC_MAX_GAMEPADS" using assms(1) by (simp add: gp_inv_def)
  show "n \<in> ?l \<longleftrightarrow> n \<in> ?r"
  proof (cases "\<exists>j < SC_MAX_GAMEPADS. n = 3 + of_nat j")
    case True
    then obtain j where j: "j < SC_MAX_GAMEPADS" "n = 3 + of_nat j" by blast
    then have "n \<in> ?l \<longleftrightarrow> slot_gamepad_id ((slots hid)[i := s] ! j) \<noteq> SC_GAMEPAD_ID_INVALID"
      using open_hids_iff [OF j(1), of "hid\<lparr>slots := (slots hid)[i := s]\<rparr>"] by simp
    moreover have "n = 3 + of_nat i \<longleftrightarrow> j = i" using hid_of_inj [OF j(1) assms(2)] j(2) by simp
    moreover have "n \<in> open_hids hid \<longleftrightarrow> slot_gamepad_id (slots hid ! j) \<noteq> SC_GAMEPAD_ID_INVALID"
      using open_hids_iff [OF j(1)] j(2) by simp
    ultimately show ?thesis using len j(1) by (cases "j = i") auto
  next
    case False
    then show ?thesis using assms(2) by (auto simp: open_hids_def)
  qed
qed

datatype gp_event = Added u32 | Removed u32 | Axis sc_gamepad_axis_event | Button sc_gamepad_button_event

text \<open>SDL adds a gamepad once until it is removed, and never uses the identifier 0.\<close>

fun gp_valid :: "sc_hid_gamepad \<Rightarrow> gp_event \<Rightarrow> bool" where
  "gp_valid hid (Added g) = (g \<noteq> SC_GAMEPAD_ID_INVALID \<and> g \<notin> gp_ids hid)"
| "gp_valid hid (Removed g) = (g \<noteq> SC_GAMEPAD_ID_INVALID)"
| "gp_valid hid (Axis e) = (ga_gamepad_id e \<noteq> SC_GAMEPAD_ID_INVALID)"
| "gp_valid hid (Button e) = (gb_gamepad_id e \<noteq> SC_GAMEPAD_ID_INVALID)"

fun gp_handle ::
  "sdl_consts \<Rightarrow> sc_hid_input \<Rightarrow> byte_buf \<Rightarrow> gp_event \<Rightarrow> sc_hid_gamepad \<Rightarrow>
   (sc_hid_gamepad \<times> sc_control_msg list) option" where
  "gp_handle sdl h stack (Added g) hid = gamepad_uhid_process_added True g hid"
| "gp_handle sdl h stack (Removed g) hid = gamepad_uhid_process_removed g hid"
| "gp_handle sdl h stack (Axis e) hid = gamepad_uhid_process_axis h stack e hid"
| "gp_handle sdl h stack (Button e) hid = gamepad_uhid_process_button sdl h stack e hid"

definition gp_step_ok :: "sc_hid_gamepad \<Rightarrow> (sc_hid_gamepad \<times> sc_control_msg list) option \<Rightarrow> bool" where
  "gp_step_ok hid r \<longleftrightarrow> (\<exists>hid' ms. r = Some (hid', ms) \<and> gp_inv hid' \<and>
     device_run ms (open_hids hid) = Some (open_hids hid') \<and> (\<forall>m \<in> set ms. good_event (Push True m)))"

lemma gp_step_idle: "gp_inv hid \<Longrightarrow> gp_step_ok hid (Some (hid, []))"
  by (simp add: gp_step_ok_def)

lemma find_slot:
  assumes "gp_inv hid" "sc_hid_gamepad_slot_find hid g = Some i"
  shows "i < SC_MAX_GAMEPADS" "length (slots hid) = SC_MAX_GAMEPADS" "slot_gamepad_id (slots hid ! i) = g"
  using assms by (cases rule: slot_find_cases [of hid g]; simp add: gp_inv_def)+

text \<open>A slot whose gamepad does not change, and its report.\<close>

lemma gp_step_input:
  assumes "gp_inv hid" "hid_input_ok h" "length stack = SC_HID_MAX_SIZE" "i < SC_MAX_GAMEPADS"
    "slot_gamepad_id s = slot_gamepad_id (slots hid ! i)" "slot_gamepad_id (slots hid ! i) \<noteq> SC_GAMEPAD_ID_INVALID"
  shows "gp_step_ok hid (Option.bind (uhid_send_input stack
      (h\<lparr>hid_id := 3 + of_nat i, hid_size := 15, hid_data := gamepad_report s\<rparr>))
      (\<lambda>msg. Some (hid\<lparr>slots := (slots hid)[i := s]\<rparr>, [msg])))"
proof -
  let ?hi = "h\<lparr>hid_id := 3 + of_nat i, hid_size := 15, hid_data := gamepad_report s\<rparr>"
  have len: "length (gamepad_report s) = 15" by (simp add: gamepad_report_def)
  obtain m where m: "uhid_send_input stack ?hi = Some m" "carries (3 + of_nat i) (hid_bytes ?hi) m"
    using send_carries [of ?hi stack] assms(3) len by (auto simp: hid_input_ok_def SC_HID_MAX_SIZE_def)
  moreover have "device_step D m = (if 3 + of_nat i \<in> D then Some D else None)" for D
    using m(1) by (auto simp: uhid_send_input_def bind_Some_iff)
  moreover have "3 + of_nat i \<in> open_hids hid" using open_hids_iff [OF assms(4)] assms(6) by simp
  moreover have "gp_inv (hid\<lparr>slots := (slots hid)[i := s]\<rparr>)"
    by (rule gp_inv_update) (use assms in simp_all)
  ultimately show ?thesis
    using open_hids_update [OF assms(1,4), of s] assms(5,6)
    by (auto simp: gp_step_ok_def carries_def insert_absorb)
qed

lemma gp_added_ok:
  assumes "gp_inv hid" "gp_valid hid (Added g)"
  shows "gp_step_ok hid (gamepad_uhid_process_added True g hid)"
proof (cases "sc_hid_gamepad_slot_find hid SC_GAMEPAD_ID_INVALID")
  case None
  with assms show ?thesis
    by (simp add: gamepad_uhid_process_added_def sc_hid_gamepad_generate_open_def gp_step_idle)
next
  case (Some i)
  note i = find_slot [OF assms(1) Some]
  obtain s where s: "sc_hid_gamepad_slot_init g = Some s" "slot_gamepad_id s = g"
    using assms(2) by (simp add: sc_hid_gamepad_slot_init_def)
  have "gp_inv (hid\<lparr>slots := (slots hid)[i := s]\<rparr>)"
    by (rule gp_inv_update) (use assms s i in simp_all)
  moreover have "3 + of_nat i \<notin> open_hids hid" using open_hids_iff [OF i(1)] i(3) by simp
  moreover have "unat (of_nat (length SC_HID_GAMEPAD_REPORT_DESC) :: u16) = length SC_HID_GAMEPAD_REPORT_DESC"
    "utf8_start_ok SC_GAMEPAD_UHID_NAME"
    by code_simp+
  ultimately show ?thesis
    using assms(2) Some i s open_hids_update [OF assms(1) i(1), of s]
    by (simp add: gamepad_uhid_process_added_def sc_hid_gamepad_generate_open_def mem_set_def
        sc_hid_gamepad_slot_get_id_def SC_HID_ID_GAMEPAD_FIRST_def gp_step_ok_def sc_gamepad_uhid_send_open_def
        uhid_create_msg_def text_ok_def)
qed

lemma gp_removed_ok:
  assumes "gp_inv hid" "gp_valid hid (Removed g)"
  shows "gp_step_ok hid (gamepad_uhid_process_removed g hid)"
proof (cases "sc_hid_gamepad_slot_find hid g")
  case None
  with assms show ?thesis
    by (simp add: gamepad_uhid_process_removed_def sc_hid_gamepad_generate_close_def gp_step_idle)
next
  case (Some i)
  note i = find_slot [OF assms(1) Some]
  let ?s = "(slots hid ! i)\<lparr>slot_gamepad_id := SC_GAMEPAD_ID_INVALID\<rparr>"
  have "gp_inv (hid\<lparr>slots := (slots hid)[i := ?s]\<rparr>)" by (rule gp_inv_update) (use assms i in simp_all)
  moreover have "3 + of_nat i \<in> open_hids hid" using open_hids_iff [OF i(1)] i(3) assms(2) by simp
  ultimately show ?thesis
    using assms(2) Some i open_hids_update [OF assms(1) i(1), of ?s]
    by (simp add: gamepad_uhid_process_removed_def sc_hid_gamepad_generate_close_def mem_set_def mem_get_def
        sc_hid_gamepad_slot_get_id_def SC_HID_ID_GAMEPAD_FIRST_def gp_step_ok_def sc_gamepad_uhid_send_close_def)
qed

lemma set_axis_id: "set_axis a v s = Some s' \<Longrightarrow> slot_gamepad_id s' = slot_gamepad_id s"
  by (cases a) auto

lemma gp_axis_ok:
  assumes "gp_inv hid" "hid_input_ok h" "length stack = SC_HID_MAX_SIZE" "gp_valid hid (Axis e)"
  shows "gp_step_ok hid (gamepad_uhid_process_axis h stack e hid)"
proof (cases "sc_hid_gamepad_slot_find hid (ga_gamepad_id e)")
  case None
  with assms(1) show ?thesis
    by (simp add: gamepad_uhid_process_axis_def sc_hid_gamepad_generate_input_from_axis_def gp_step_idle)
next
  case (Some i)
  note i = find_slot [OF assms(1) Some]
  show ?thesis
  proof (cases "set_axis (ga_axis e) (ga_value e) (slots hid ! i)")
    case None
    with Some i assms(1) show ?thesis
      by (simp add: gamepad_uhid_process_axis_def sc_hid_gamepad_generate_input_from_axis_def mem_get_def
          gp_step_idle)
  next
    case s: (Some s)
    from gp_step_input [OF assms(1-3) i(1) set_axis_id [OF s]] assms(4) i Some s show ?thesis
      by (simp add: gamepad_uhid_process_axis_def sc_hid_gamepad_generate_input_from_axis_def mem_get_def
          mem_set_def sc_hid_gamepad_slot_get_id_def SC_HID_ID_GAMEPAD_FIRST_def event_from_slot_eq [OF assms(2)])
  qed
qed

lemma gp_button_ok:
  assumes "gp_inv hid" "hid_input_ok h" "length stack = SC_HID_MAX_SIZE" "gp_valid hid (Button e)"
  shows "gp_step_ok hid (gamepad_uhid_process_button sdl h stack e hid)"
proof (cases "sc_hid_gamepad_slot_find hid (gb_gamepad_id e) = None \<or> sc_hid_gamepad_get_button_id (gb_button e) = 0
    \<or> button_number sdl (gb_button e) < 0 \<or> button_number sdl (gb_button e) > 15")
  case True
  then have "gamepad_uhid_process_button sdl h stack e hid = Some (hid, [])"
    using find_slot [OF assms(1), of "gb_gamepad_id e"]
    by (cases "sc_hid_gamepad_slot_find hid (gb_gamepad_id e)")
      (auto simp: gamepad_uhid_process_button_def sc_hid_gamepad_generate_input_from_button_def mem_get_def)
  with gp_step_idle [OF assms(1)] show ?thesis by simp
next
  case False
  then obtain i where f: "sc_hid_gamepad_slot_find hid (gb_gamepad_id e) = Some i" by auto
  note i = find_slot [OF assms(1) f]
  let ?b = "sc_hid_gamepad_get_button_id (gb_button e)"
  let ?s = "case gb_action e of SC_ACTION_DOWN \<Rightarrow> (slots hid ! i)\<lparr>slot_buttons := slot_buttons (slots hid ! i) OR ?b\<rparr>
    | SC_ACTION_UP \<Rightarrow> (slots hid ! i)\<lparr>slot_buttons := slot_buttons (slots hid ! i) AND NOT ?b\<rparr>"
  have "slot_gamepad_id ?s = slot_gamepad_id (slots hid ! i)" by (cases "gb_action e") simp_all
  from gp_step_input [OF assms(1-3) i(1) this] assms(4) i f False show ?thesis
    by (simp add: gamepad_uhid_process_button_def sc_hid_gamepad_generate_input_from_button_def mem_get_def
        mem_set_def sc_hid_gamepad_slot_get_id_def SC_HID_ID_GAMEPAD_FIRST_def event_from_slot_eq [OF assms(2)] Let_def)
qed

text \<open>The gamepads SDL reports as present after an event; a program run sees each added once.\<close>

fun plugged :: "gp_event \<Rightarrow> u32 set \<Rightarrow> u32 set" where
  "plugged (Added g) P = insert g P"
| "plugged (Removed g) P = P - {g}"
| "plugged _ P = P"

fun sdl_events :: "u32 set \<Rightarrow> gp_event list \<Rightarrow> bool" where
  "sdl_events P [] = True"
| "sdl_events P (e # es) =
     ((case e of Added g \<Rightarrow> g \<noteq> SC_GAMEPAD_ID_INVALID \<and> g \<notin> P
       | Removed g \<Rightarrow> g \<noteq> SC_GAMEPAD_ID_INVALID
       | Axis a \<Rightarrow> ga_gamepad_id a \<noteq> SC_GAMEPAD_ID_INVALID
       | Button b \<Rightarrow> gb_gamepad_id b \<noteq> SC_GAMEPAD_ID_INVALID) \<and>
      sdl_events (plugged e P) es)"

fun gp_run ::
  "sdl_consts \<Rightarrow> sc_hid_input \<Rightarrow> byte_buf \<Rightarrow> gp_event list \<Rightarrow> sc_hid_gamepad \<Rightarrow>
   (sc_hid_gamepad \<times> sc_control_msg list) option" where
  "gp_run sdl h stack [] hid = Some (hid, [])"
| "gp_run sdl h stack (e # es) hid = do {
     (hid, ms) \<leftarrow> gp_handle sdl h stack e hid;
     (hid, ns) \<leftarrow> gp_run sdl h stack es hid;
     Some (hid, ms @ ns)
   }"

lemma gp_step:
  assumes "gp_inv hid" "hid_input_ok h" "length stack = SC_HID_MAX_SIZE" "gp_valid hid e"
  shows "gp_step_ok hid (gp_handle sdl h stack e hid)"
  using assms by (cases e) (simp_all add: gp_added_ok gp_removed_ok gp_axis_ok gp_button_ok)

text \<open>Writing a slot: its gamepad appears, and the one it had before is gone.\<close>

lemma gp_ids_write:
  assumes "gp_inv hid" "i < SC_MAX_GAMEPADS" "slot_gamepad_id (slots hid ! i) = g"
  shows "gp_ids (hid\<lparr>slots := (slots hid)[i := s]\<rparr>) \<subseteq> insert (slot_gamepad_id s) (gp_ids hid - {g})"
proof
  fix k assume "k \<in> gp_ids (hid\<lparr>slots := (slots hid)[i := s]\<rparr>)"
  then obtain j where j: "j < length (slots hid)" "slot_gamepad_id ((slots hid)[i := s] ! j) = k"
    "k \<noteq> SC_GAMEPAD_ID_INVALID"
    by (auto simp: gp_ids_def in_set_conv_nth)
  show "k \<in> insert (slot_gamepad_id s) (gp_ids hid - {g})"
  proof (cases "j = i")
    case False
    then have "slot_gamepad_id (slots hid ! j) = k" using j by simp
    moreover from this have "k \<noteq> g" using False j assms by (auto simp: gp_inv_def)
    ultimately show ?thesis using j by (auto simp: gp_ids_def)
  qed (use j in simp)
qed

lemma gp_ids_found:
  assumes "gp_inv hid" "k \<in> gp_ids (hid\<lparr>slots := (slots hid)[i := s]\<rparr>)" "sc_hid_gamepad_slot_find hid g = Some i"
  shows "k \<in> insert (slot_gamepad_id s) (gp_ids hid - {g}) \<and> k \<noteq> SC_GAMEPAD_ID_INVALID"
  using gp_ids_write [OF assms(1) find_slot(1,3) [OF assms(1,3)]] assms(2) by (auto simp: gp_ids_def)

lemma gp_ids_keep:
  assumes "gp_inv hid" "sc_hid_gamepad_slot_find hid g = Some i" "slot_gamepad_id s = slot_gamepad_id (slots hid ! i)"
    "g \<noteq> SC_GAMEPAD_ID_INVALID"
  shows "gp_ids (hid\<lparr>slots := (slots hid)[i := s]\<rparr>) \<subseteq> gp_ids hid"
proof -
  have "slot_gamepad_id s \<in> gp_ids hid"
    using find_slot [OF assms(1,2)] assms(3,4)
    by (auto simp: gp_ids_def intro!: image_eqI [of _ _ "slots hid ! i"])
  with gp_ids_found [OF assms(1) _ assms(2), of _ s] show ?thesis by blast
qed

lemma gp_handle_ids:
  assumes "gp_inv hid" "gp_valid hid e" "gp_handle sdl h stack e hid = Some (hid', ms)"
  shows "gp_ids hid' \<subseteq> plugged e (gp_ids hid)"
proof -
  note w = gp_ids_found [OF assms(1)] and keep = gp_ids_keep [OF assms(1)]
  show ?thesis
  proof (cases e)
    case (Added g)
    show ?thesis using Added assms(3) w
      by (fastforce simp: gamepad_uhid_process_added_def sc_hid_gamepad_generate_open_def
        sc_hid_gamepad_slot_init_def sc_hid_gamepad_slot_get_id_def mem_set_def bind_Some_iff split: option.splits if_splits)
  next
    case (Removed g)
    show ?thesis
    proof (cases "sc_hid_gamepad_slot_find hid g")
      case None
      then have "g \<notin> gp_ids hid" by (cases rule: slot_find_cases [of hid g]) (auto simp: gp_ids_def)
      with None Removed assms(3) show ?thesis
        by (auto simp: gamepad_uhid_process_removed_def sc_hid_gamepad_generate_close_def bind_Some_iff)
    next
      case (Some i)
      note w [OF _ Some, of _ "(slots hid ! i)\<lparr>slot_gamepad_id := SC_GAMEPAD_ID_INVALID\<rparr>"]
      with Some Removed assms(2,3) find_slot [OF assms(1) Some] show ?thesis
        by (auto simp: gamepad_uhid_process_removed_def sc_hid_gamepad_generate_close_def
          sc_hid_gamepad_slot_get_id_def mem_set_def mem_get_def)
    qed
  next
    case (Axis a)
    show ?thesis using Axis assms(2,3) keep set_axis_id
      by (fastforce simp: gamepad_uhid_process_axis_def sc_hid_gamepad_generate_input_from_axis_def
        mem_set_def mem_get_def bind_Some_iff split: option.splits if_splits)
  next
    case (Button b)
    let ?k = "sc_hid_gamepad_get_button_id (gb_button b)"
    let ?s = "\<lambda>s. s\<lparr>slot_buttons := case gb_action b of SC_ACTION_DOWN \<Rightarrow> slot_buttons s OR ?k
      | SC_ACTION_UP \<Rightarrow> slot_buttons s AND NOT ?k\<rparr>"
    have "hid' = hid \<or> (\<exists>i. sc_hid_gamepad_slot_find hid (gb_gamepad_id b) = Some i \<and>
      hid' = hid\<lparr>slots := (slots hid)[i := ?s (slots hid ! i)]\<rparr>)"
      using Button assms(3)
      by (cases "gb_action b") (auto simp: gamepad_uhid_process_button_def Let_def mem_set_def mem_get_def
          sc_hid_gamepad_generate_input_from_button_def bind_Some_iff split: option.splits if_splits)
    then show ?thesis using keep [of "gb_gamepad_id b" _ "?s _"] Button assms(2) by auto
  qed
qed

lemma gp_runs:
  assumes "hid_input_ok h" "length stack = SC_HID_MAX_SIZE" "gp_inv hid" "gp_ids hid \<subseteq> P" "sdl_events P es"
  shows "gp_step_ok hid (gp_run sdl h stack es hid)"
  using assms(3-5)
proof (induction es arbitrary: hid P)
  case Nil
  then show ?case by (simp add: gp_step_ok_def)
next
  case (Cons e es)
  have v: "gp_valid hid e" using Cons.prems(2,3) by (cases e) auto
  obtain hid1 ms where 1: "gp_handle sdl h stack e hid = Some (hid1, ms)" "gp_inv hid1"
    "device_run ms (open_hids hid) = Some (open_hids hid1)" "\<forall>m \<in> set ms. good_event (Push True m)"
    using gp_step [OF Cons.prems(1) assms(1,2) v, of sdl] unfolding gp_step_ok_def by blast
  have "gp_ids hid1 \<subseteq> plugged e P"
    using gp_handle_ids [OF Cons.prems(1) v 1(1)] Cons.prems(2) by (cases e) auto
  then have "gp_step_ok hid1 (gp_run sdl h stack es hid1)" using Cons.IH 1(2) Cons.prems(3) by simp
  then show ?case using 1 by (fastforce simp: gp_step_ok_def device_run_append)
qed

text \<open>C32. Whatever sequence of events SDL delivers for the gamepads (each identifier added at most once
  until it is removed, never 0), the handlers never fail an assertion, and the messages they push respect the
  protocol of the server: no device is created twice, no report and no destruction names a device that is not
  there, and the devices left are exactly those of the occupied slots; every message is one the controller
  accepts.\<close>

theorem uhid_gamepad_protocol:
  assumes "hid_input_ok h" "length stack = SC_HID_MAX_SIZE" "length junk = SC_MAX_GAMEPADS" "sdl_events {} es"
  shows "\<exists>hid ms. gp_run sdl h stack es (sc_hid_gamepad_init junk) = Some (hid, ms) \<and> gp_inv hid \<and>
    device_run ms {} = Some (open_hids hid) \<and> (\<forall>m \<in> set ms. good_event (Push True m))"
proof -
  note init = init_gp_inv [OF assms(3)]
  have "open_hids (sc_hid_gamepad_init junk) = {}"
    using assms(3) by (auto simp: open_hids_def sc_hid_gamepad_init_def)
  with gp_runs [OF assms(1,2) conjunct1 [OF init] _ assms(4)] init show ?thesis
    by (simp add: gp_step_ok_def)
qed

theorem uhid_gamepad_protocol_witness:
  "\<exists>hid ms. gp_run sdl3 \<lparr>hid_id = 0, hid_data = replicate 15 9, hid_size = 0\<rparr> (replicate 15 7)
      [Added 4, Added 9, Axis \<lparr>ga_gamepad_id = 9, ga_axis = SC_GAMEPAD_AXIS_LEFTX, ga_value = 5\<rparr>, Removed 4, Added 4]
      (sc_hid_gamepad_init (replicate 8 \<lparr>slot_gamepad_id = 1, slot_buttons = 2, axis_left_x = 3, axis_left_y = 4,
         axis_right_x = 5, axis_right_y = 6, axis_left_trigger = 7, axis_right_trigger = 8\<rparr>)) = Some (hid, ms) \<and>
    device_run ms {} = Some (open_hids hid)"
proof -
  let ?junk = "replicate 8 \<lparr>slot_gamepad_id = 1, slot_buttons = 2, axis_left_x = 3, axis_left_y = 4,
    axis_right_x = 5, axis_right_y = 6, axis_left_trigger = 7, axis_right_trigger = 8\<rparr> :: sc_hid_gamepad_slot list"
  let ?es = "[Added 4, Added 9, Axis \<lparr>ga_gamepad_id = 9, ga_axis = SC_GAMEPAD_AXIS_LEFTX, ga_value = 5\<rparr>,
    Removed 4, Added 4]"
  have "hid_input_ok \<lparr>hid_id = 0, hid_data = replicate 15 9, hid_size = 0\<rparr>"
    "length (replicate 15 (7 :: u8)) = SC_HID_MAX_SIZE" "length ?junk = SC_MAX_GAMEPADS" "sdl_events {} ?es"
    by (simp_all add: hid_input_ok_def SC_HID_MAX_SIZE_def SC_MAX_GAMEPADS_def SC_GAMEPAD_ID_INVALID_def)
  from uhid_gamepad_protocol [OF this, of sdl3] show ?thesis by blast
qed

end
