(* ===== verification/KeyTables.thy ===== *)
theory KeyTables
  imports InputEvents
begin

text \<open>
  The tables of \<^verbatim>\<open>app/src/keyboard_sdk.c\<close> that translate key codes, with the Android key codes of
  \<^verbatim>\<open>app/src/android/keycodes.h\<close> they mention and the search of \<^verbatim>\<open>app/src/util/intmap.c\<close>. The enumerators of
  \<^verbatim>\<open>enum sc_keycode\<close> are given by their names without the prefix; their values are those of SDL, and the
  parameter \<open>kc\<close> gives the value of an enumerator.
\<close>

section \<open>Android key codes\<close>

definition AKEYCODE_0 :: int where "AKEYCODE_0 = 7"
definition AKEYCODE_1 :: int where "AKEYCODE_1 = 8"
definition AKEYCODE_2 :: int where "AKEYCODE_2 = 9"
definition AKEYCODE_3 :: int where "AKEYCODE_3 = 10"
definition AKEYCODE_4 :: int where "AKEYCODE_4 = 11"
definition AKEYCODE_5 :: int where "AKEYCODE_5 = 12"
definition AKEYCODE_6 :: int where "AKEYCODE_6 = 13"
definition AKEYCODE_7 :: int where "AKEYCODE_7 = 14"
definition AKEYCODE_8 :: int where "AKEYCODE_8 = 15"
definition AKEYCODE_9 :: int where "AKEYCODE_9 = 16"
definition AKEYCODE_STAR :: int where "AKEYCODE_STAR = 17"
definition AKEYCODE_POUND :: int where "AKEYCODE_POUND = 18"
definition AKEYCODE_DPAD_UP :: int where "AKEYCODE_DPAD_UP = 19"
definition AKEYCODE_DPAD_DOWN :: int where "AKEYCODE_DPAD_DOWN = 20"
definition AKEYCODE_DPAD_LEFT :: int where "AKEYCODE_DPAD_LEFT = 21"
definition AKEYCODE_DPAD_RIGHT :: int where "AKEYCODE_DPAD_RIGHT = 22"
definition AKEYCODE_A :: int where "AKEYCODE_A = 29"
definition AKEYCODE_B :: int where "AKEYCODE_B = 30"
definition AKEYCODE_C :: int where "AKEYCODE_C = 31"
definition AKEYCODE_D :: int where "AKEYCODE_D = 32"
definition AKEYCODE_E :: int where "AKEYCODE_E = 33"
definition AKEYCODE_F :: int where "AKEYCODE_F = 34"
definition AKEYCODE_G :: int where "AKEYCODE_G = 35"
definition AKEYCODE_H :: int where "AKEYCODE_H = 36"
definition AKEYCODE_I :: int where "AKEYCODE_I = 37"
definition AKEYCODE_J :: int where "AKEYCODE_J = 38"
definition AKEYCODE_K :: int where "AKEYCODE_K = 39"
definition AKEYCODE_L :: int where "AKEYCODE_L = 40"
definition AKEYCODE_M :: int where "AKEYCODE_M = 41"
definition AKEYCODE_N :: int where "AKEYCODE_N = 42"
definition AKEYCODE_O :: int where "AKEYCODE_O = 43"
definition AKEYCODE_P :: int where "AKEYCODE_P = 44"
definition AKEYCODE_Q :: int where "AKEYCODE_Q = 45"
definition AKEYCODE_R :: int where "AKEYCODE_R = 46"
definition AKEYCODE_S :: int where "AKEYCODE_S = 47"
definition AKEYCODE_T :: int where "AKEYCODE_T = 48"
definition AKEYCODE_U :: int where "AKEYCODE_U = 49"
definition AKEYCODE_V :: int where "AKEYCODE_V = 50"
definition AKEYCODE_W :: int where "AKEYCODE_W = 51"
definition AKEYCODE_X :: int where "AKEYCODE_X = 52"
definition AKEYCODE_Y :: int where "AKEYCODE_Y = 53"
definition AKEYCODE_Z :: int where "AKEYCODE_Z = 54"
definition AKEYCODE_COMMA :: int where "AKEYCODE_COMMA = 55"
definition AKEYCODE_PERIOD :: int where "AKEYCODE_PERIOD = 56"
definition AKEYCODE_ALT_LEFT :: int where "AKEYCODE_ALT_LEFT = 57"
definition AKEYCODE_ALT_RIGHT :: int where "AKEYCODE_ALT_RIGHT = 58"
definition AKEYCODE_SHIFT_LEFT :: int where "AKEYCODE_SHIFT_LEFT = 59"
definition AKEYCODE_SHIFT_RIGHT :: int where "AKEYCODE_SHIFT_RIGHT = 60"
definition AKEYCODE_TAB :: int where "AKEYCODE_TAB = 61"
definition AKEYCODE_SPACE :: int where "AKEYCODE_SPACE = 62"
definition AKEYCODE_ENTER :: int where "AKEYCODE_ENTER = 66"
definition AKEYCODE_DEL :: int where "AKEYCODE_DEL = 67"
definition AKEYCODE_GRAVE :: int where "AKEYCODE_GRAVE = 68"
definition AKEYCODE_MINUS :: int where "AKEYCODE_MINUS = 69"
definition AKEYCODE_EQUALS :: int where "AKEYCODE_EQUALS = 70"
definition AKEYCODE_LEFT_BRACKET :: int where "AKEYCODE_LEFT_BRACKET = 71"
definition AKEYCODE_RIGHT_BRACKET :: int where "AKEYCODE_RIGHT_BRACKET = 72"
definition AKEYCODE_BACKSLASH :: int where "AKEYCODE_BACKSLASH = 73"
definition AKEYCODE_SEMICOLON :: int where "AKEYCODE_SEMICOLON = 74"
definition AKEYCODE_APOSTROPHE :: int where "AKEYCODE_APOSTROPHE = 75"
definition AKEYCODE_SLASH :: int where "AKEYCODE_SLASH = 76"
definition AKEYCODE_AT :: int where "AKEYCODE_AT = 77"
definition AKEYCODE_PLUS :: int where "AKEYCODE_PLUS = 81"
definition AKEYCODE_PAGE_UP :: int where "AKEYCODE_PAGE_UP = 92"
definition AKEYCODE_PAGE_DOWN :: int where "AKEYCODE_PAGE_DOWN = 93"
definition AKEYCODE_ESCAPE :: int where "AKEYCODE_ESCAPE = 111"
definition AKEYCODE_FORWARD_DEL :: int where "AKEYCODE_FORWARD_DEL = 112"
definition AKEYCODE_CTRL_LEFT :: int where "AKEYCODE_CTRL_LEFT = 113"
definition AKEYCODE_CTRL_RIGHT :: int where "AKEYCODE_CTRL_RIGHT = 114"
definition AKEYCODE_META_LEFT :: int where "AKEYCODE_META_LEFT = 117"
definition AKEYCODE_META_RIGHT :: int where "AKEYCODE_META_RIGHT = 118"
definition AKEYCODE_MOVE_HOME :: int where "AKEYCODE_MOVE_HOME = 122"
definition AKEYCODE_MOVE_END :: int where "AKEYCODE_MOVE_END = 123"
definition AKEYCODE_INSERT :: int where "AKEYCODE_INSERT = 124"
definition AKEYCODE_NUMPAD_0 :: int where "AKEYCODE_NUMPAD_0 = 144"
definition AKEYCODE_NUMPAD_1 :: int where "AKEYCODE_NUMPAD_1 = 145"
definition AKEYCODE_NUMPAD_2 :: int where "AKEYCODE_NUMPAD_2 = 146"
definition AKEYCODE_NUMPAD_3 :: int where "AKEYCODE_NUMPAD_3 = 147"
definition AKEYCODE_NUMPAD_4 :: int where "AKEYCODE_NUMPAD_4 = 148"
definition AKEYCODE_NUMPAD_5 :: int where "AKEYCODE_NUMPAD_5 = 149"
definition AKEYCODE_NUMPAD_6 :: int where "AKEYCODE_NUMPAD_6 = 150"
definition AKEYCODE_NUMPAD_7 :: int where "AKEYCODE_NUMPAD_7 = 151"
definition AKEYCODE_NUMPAD_8 :: int where "AKEYCODE_NUMPAD_8 = 152"
definition AKEYCODE_NUMPAD_9 :: int where "AKEYCODE_NUMPAD_9 = 153"
definition AKEYCODE_NUMPAD_DIVIDE :: int where "AKEYCODE_NUMPAD_DIVIDE = 154"
definition AKEYCODE_NUMPAD_MULTIPLY :: int where "AKEYCODE_NUMPAD_MULTIPLY = 155"
definition AKEYCODE_NUMPAD_SUBTRACT :: int where "AKEYCODE_NUMPAD_SUBTRACT = 156"
definition AKEYCODE_NUMPAD_ADD :: int where "AKEYCODE_NUMPAD_ADD = 157"
definition AKEYCODE_NUMPAD_DOT :: int where "AKEYCODE_NUMPAD_DOT = 158"
definition AKEYCODE_NUMPAD_ENTER :: int where "AKEYCODE_NUMPAD_ENTER = 160"
definition AKEYCODE_NUMPAD_EQUALS :: int where "AKEYCODE_NUMPAD_EQUALS = 161"
definition AKEYCODE_NUMPAD_LEFT_PAREN :: int where "AKEYCODE_NUMPAD_LEFT_PAREN = 162"
definition AKEYCODE_NUMPAD_RIGHT_PAREN :: int where "AKEYCODE_NUMPAD_RIGHT_PAREN = 163"

section \<open>Key codes of the host\<close>

definition sc_keycode_names :: "string list" where
  "sc_keycode_names = [
    ''UNKNOWN'', ''RETURN'', ''ESCAPE'', ''BACKSPACE'', ''TAB'', ''SPACE'', ''EXCLAIM'', ''QUOTEDBL'',
    ''HASH'', ''PERCENT'', ''DOLLAR'', ''AMPERSAND'', ''QUOTE'', ''LEFTPAREN'', ''RIGHTPAREN'',
    ''ASTERISK'', ''PLUS'', ''COMMA'', ''MINUS'', ''PERIOD'', ''SLASH'', ''0'', ''1'', ''2'', ''3'',
    ''4'', ''5'', ''6'', ''7'', ''8'', ''9'', ''COLON'', ''SEMICOLON'', ''LESS'', ''EQUALS'',
    ''GREATER'', ''QUESTION'', ''AT'', ''LEFTBRACKET'', ''BACKSLASH'', ''RIGHTBRACKET'', ''CARET'',
    ''UNDERSCORE'', ''BACKQUOTE'', ''a'', ''b'', ''c'', ''d'', ''e'', ''f'', ''g'', ''h'', ''i'', ''j'',
    ''k'', ''l'', ''m'', ''n'', ''o'', ''p'', ''q'', ''r'', ''s'', ''t'', ''u'', ''v'', ''w'', ''x'',
    ''y'', ''z'', ''CAPSLOCK'', ''F1'', ''F2'', ''F3'', ''F4'', ''F5'', ''F6'', ''F7'', ''F8'', ''F9'',
    ''F10'', ''F11'', ''F12'', ''PRINTSCREEN'', ''SCROLLLOCK'', ''PAUSE'', ''INSERT'', ''HOME'',
    ''PAGEUP'', ''DELETE'', ''END'', ''PAGEDOWN'', ''RIGHT'', ''LEFT'', ''DOWN'', ''UP'', ''KP_DIVIDE'',
    ''KP_MULTIPLY'', ''KP_MINUS'', ''KP_PLUS'', ''KP_ENTER'', ''KP_1'', ''KP_2'', ''KP_3'', ''KP_4'',
    ''KP_5'', ''KP_6'', ''KP_7'', ''KP_8'', ''KP_9'', ''KP_0'', ''KP_PERIOD'', ''KP_EQUALS'',
    ''KP_LEFTPAREN'', ''KP_RIGHTPAREN'', ''LCTRL'', ''LSHIFT'', ''LALT'', ''LGUI'', ''RCTRL'',
    ''RSHIFT'', ''RALT'', ''RGUI'']"

section \<open>Integer maps\<close>

record sc_intmap_entry =
  entry_key :: int
  entry_value :: int

text \<open>The loop over the entries; NULL is \<open>None\<close>.\<close>

fun sc_intmap_find_entry :: "sc_intmap_entry list \<Rightarrow> int \<Rightarrow> sc_intmap_entry option" where
  "sc_intmap_find_entry [] key = None"
| "sc_intmap_find_entry (entry # entries) key =
     (if entry_key entry = key then Some entry else sc_intmap_find_entry entries key)"

section \<open>Tables\<close>

definition special_keys :: "(string \<times> int) list" where
  "special_keys = [
    (''RETURN'', AKEYCODE_ENTER), (''KP_ENTER'', AKEYCODE_NUMPAD_ENTER), (''ESCAPE'', AKEYCODE_ESCAPE),
    (''BACKSPACE'', AKEYCODE_DEL), (''TAB'', AKEYCODE_TAB), (''PAGEUP'', AKEYCODE_PAGE_UP),
    (''DELETE'', AKEYCODE_FORWARD_DEL), (''HOME'', AKEYCODE_MOVE_HOME), (''END'', AKEYCODE_MOVE_END),
    (''PAGEDOWN'', AKEYCODE_PAGE_DOWN), (''RIGHT'', AKEYCODE_DPAD_RIGHT), (''LEFT'', AKEYCODE_DPAD_LEFT),
    (''DOWN'', AKEYCODE_DPAD_DOWN), (''UP'', AKEYCODE_DPAD_UP), (''LCTRL'', AKEYCODE_CTRL_LEFT),
    (''RCTRL'', AKEYCODE_CTRL_RIGHT), (''LSHIFT'', AKEYCODE_SHIFT_LEFT),
    (''RSHIFT'', AKEYCODE_SHIFT_RIGHT), (''LALT'', AKEYCODE_ALT_LEFT), (''RALT'', AKEYCODE_ALT_RIGHT),
    (''LGUI'', AKEYCODE_META_LEFT), (''RGUI'', AKEYCODE_META_RIGHT)]"

definition kp_nav_keys :: "(string \<times> int) list" where
  "kp_nav_keys = [
    (''KP_0'', AKEYCODE_INSERT), (''KP_1'', AKEYCODE_MOVE_END), (''KP_2'', AKEYCODE_DPAD_DOWN),
    (''KP_3'', AKEYCODE_PAGE_DOWN), (''KP_4'', AKEYCODE_DPAD_LEFT), (''KP_6'', AKEYCODE_DPAD_RIGHT),
    (''KP_7'', AKEYCODE_MOVE_HOME), (''KP_8'', AKEYCODE_DPAD_UP), (''KP_9'', AKEYCODE_PAGE_UP),
    (''KP_PERIOD'', AKEYCODE_FORWARD_DEL)]"

definition alphaspace_keys :: "(string \<times> int) list" where
  "alphaspace_keys = [
    (''a'', AKEYCODE_A), (''b'', AKEYCODE_B), (''c'', AKEYCODE_C), (''d'', AKEYCODE_D),
    (''e'', AKEYCODE_E), (''f'', AKEYCODE_F), (''g'', AKEYCODE_G), (''h'', AKEYCODE_H),
    (''i'', AKEYCODE_I), (''j'', AKEYCODE_J), (''k'', AKEYCODE_K), (''l'', AKEYCODE_L),
    (''m'', AKEYCODE_M), (''n'', AKEYCODE_N), (''o'', AKEYCODE_O), (''p'', AKEYCODE_P),
    (''q'', AKEYCODE_Q), (''r'', AKEYCODE_R), (''s'', AKEYCODE_S), (''t'', AKEYCODE_T),
    (''u'', AKEYCODE_U), (''v'', AKEYCODE_V), (''w'', AKEYCODE_W), (''x'', AKEYCODE_X),
    (''y'', AKEYCODE_Y), (''z'', AKEYCODE_Z), (''SPACE'', AKEYCODE_SPACE)]"

definition numbers_punct_keys :: "(string \<times> int) list" where
  "numbers_punct_keys = [
    (''HASH'', AKEYCODE_POUND), (''PERCENT'', AKEYCODE_PERIOD), (''QUOTE'', AKEYCODE_APOSTROPHE),
    (''ASTERISK'', AKEYCODE_STAR), (''PLUS'', AKEYCODE_PLUS), (''COMMA'', AKEYCODE_COMMA),
    (''MINUS'', AKEYCODE_MINUS), (''PERIOD'', AKEYCODE_PERIOD), (''SLASH'', AKEYCODE_SLASH),
    (''0'', AKEYCODE_0), (''1'', AKEYCODE_1), (''2'', AKEYCODE_2), (''3'', AKEYCODE_3),
    (''4'', AKEYCODE_4), (''5'', AKEYCODE_5), (''6'', AKEYCODE_6), (''7'', AKEYCODE_7),
    (''8'', AKEYCODE_8), (''9'', AKEYCODE_9), (''SEMICOLON'', AKEYCODE_SEMICOLON),
    (''EQUALS'', AKEYCODE_EQUALS), (''AT'', AKEYCODE_AT), (''LEFTBRACKET'', AKEYCODE_LEFT_BRACKET),
    (''BACKSLASH'', AKEYCODE_BACKSLASH), (''RIGHTBRACKET'', AKEYCODE_RIGHT_BRACKET),
    (''BACKQUOTE'', AKEYCODE_GRAVE), (''KP_1'', AKEYCODE_NUMPAD_1), (''KP_2'', AKEYCODE_NUMPAD_2),
    (''KP_3'', AKEYCODE_NUMPAD_3), (''KP_4'', AKEYCODE_NUMPAD_4), (''KP_5'', AKEYCODE_NUMPAD_5),
    (''KP_6'', AKEYCODE_NUMPAD_6), (''KP_7'', AKEYCODE_NUMPAD_7), (''KP_8'', AKEYCODE_NUMPAD_8),
    (''KP_9'', AKEYCODE_NUMPAD_9), (''KP_0'', AKEYCODE_NUMPAD_0), (''KP_DIVIDE'', AKEYCODE_NUMPAD_DIVIDE),
    (''KP_MULTIPLY'', AKEYCODE_NUMPAD_MULTIPLY), (''KP_MINUS'', AKEYCODE_NUMPAD_SUBTRACT),
    (''KP_PLUS'', AKEYCODE_NUMPAD_ADD), (''KP_PERIOD'', AKEYCODE_NUMPAD_DOT),
    (''KP_EQUALS'', AKEYCODE_NUMPAD_EQUALS), (''KP_LEFTPAREN'', AKEYCODE_NUMPAD_LEFT_PAREN),
    (''KP_RIGHTPAREN'', AKEYCODE_NUMPAD_RIGHT_PAREN)]"

text \<open>The array a table stands for.\<close>

definition entries_of :: "(string \<Rightarrow> int) \<Rightarrow> (string \<times> int) list \<Rightarrow> sc_intmap_entry list" where
  "entries_of kc table = map (\<lambda>(name, v). \<lparr>entry_key = kc name, entry_value = v\<rparr>) table"

text \<open>Searching an array by the code of a key is searching its table by the name of the key, as long as
  different names have different codes.\<close>

lemma find_entry_of:
  assumes "inj_on kc N" "fst ` set table \<subseteq> N" "n \<in> N"
  shows "map_option entry_value (sc_intmap_find_entry (entries_of kc table) (kc n)) = map_of table n"
  using assms(2) by (induction table) (use assms(1,3) in \<open>auto simp: entries_of_def dest: inj_onD\<close>)

lemma table_names:
  "fst ` set special_keys \<subseteq> set sc_keycode_names" "fst ` set kp_nav_keys \<subseteq> set sc_keycode_names"
  "fst ` set alphaspace_keys \<subseteq> set sc_keycode_names" "fst ` set numbers_punct_keys \<subseteq> set sc_keycode_names"
  by (simp_all add: special_keys_def kp_nav_keys_def alphaspace_keys_def numbers_punct_keys_def sc_keycode_names_def)

text \<open>The key codes of SDL 3 in the order of the enumeration, a concrete instance for the witnesses.\<close>

definition sdl3_values :: "int list" where
  "sdl3_values = [
    0, 13, 27, 8, 9, 32, 33, 34, 35, 37, 36, 38, 39, 40, 41, 42, 43, 44, 45, 46, 47, 48, 49, 50, 51, 52,
    53, 54, 55, 56, 57, 58, 59, 60, 61, 62, 63, 64, 91, 92, 93, 94, 95, 96, 97, 98, 99, 100, 101, 102,
    103, 104, 105, 106, 107, 108, 109, 110, 111, 112, 113, 114, 115, 116, 117, 118, 119, 120, 121, 122,
    0x40000039, 0x4000003a, 0x4000003b, 0x4000003c, 0x4000003d, 0x4000003e, 0x4000003f, 0x40000040,
    0x40000041, 0x40000042, 0x40000043, 0x40000044, 0x40000045, 0x40000046, 0x40000047, 0x40000048,
    0x40000049, 0x4000004a, 0x4000004b, 127, 0x4000004d, 0x4000004e, 0x4000004f, 0x40000050, 0x40000051,
    0x40000052, 0x40000054, 0x40000055, 0x40000056, 0x40000057, 0x40000058, 0x40000059, 0x4000005a,
    0x4000005b, 0x4000005c, 0x4000005d, 0x4000005e, 0x4000005f, 0x40000060, 0x40000061, 0x40000062,
    0x40000063, 0x40000067, 0x400000b6, 0x400000b7, 0x400000e0, 0x400000e1, 0x400000e2, 0x400000e3,
    0x400000e4, 0x400000e5, 0x400000e6, 0x400000e7]"

definition sdl3_keys :: "string \<Rightarrow> int" where
  "sdl3_keys n = the (map_of (zip sc_keycode_names sdl3_values) n)"

lemma sdl3_keys_distinct: "inj_on sdl3_keys (set sc_keycode_names)"
proof -
  have d: "distinct sc_keycode_names" by (simp add: sc_keycode_names_def)
  have "distinct sdl3_values" by (simp add: sdl3_values_def)
  moreover have "length sdl3_values = length sc_keycode_names"
    by (simp add: sdl3_values_def sc_keycode_names_def)
  ultimately have "map sdl3_keys sc_keycode_names = sdl3_values"
    using d by (auto intro!: nth_equalityI simp: sdl3_keys_def map_of_zip_nth)
  with \<open>distinct sdl3_values\<close> have "distinct (map sdl3_keys sc_keycode_names)" by simp
  then show ?thesis by (simp add: distinct_map)
qed

end
