(* ===== verification/KeyboardSdk.thy ===== *)
theory KeyboardSdk
  imports KeyTables Controller
begin

text \<open>
  \<^verbatim>\<open>app/src/keyboard_sdk.c\<close>: keys and text typed on the host become injection messages. A handler gives the
  messages it passes to \<^verbatim>\<open>sc_controller_push_msg\<close>; it does not look at the result, except to free the text of a
  refused message. \<open>kc\<close> gives the SDL value of an enumerator of \<^verbatim>\<open>enum sc_keycode\<close>.
\<close>

section \<open>Constants of Android\<close>

definition AKEY_EVENT_ACTION_DOWN :: u32 where "AKEY_EVENT_ACTION_DOWN = 0"
definition AKEY_EVENT_ACTION_UP :: u32 where "AKEY_EVENT_ACTION_UP = 1"

definition AMETA_SHIFT_ON :: u32 where "AMETA_SHIFT_ON = 0x01"
definition AMETA_ALT_ON :: u32 where "AMETA_ALT_ON = 0x02"
definition AMETA_ALT_LEFT_ON :: u32 where "AMETA_ALT_LEFT_ON = 0x10"
definition AMETA_ALT_RIGHT_ON :: u32 where "AMETA_ALT_RIGHT_ON = 0x20"
definition AMETA_SHIFT_LEFT_ON :: u32 where "AMETA_SHIFT_LEFT_ON = 0x40"
definition AMETA_SHIFT_RIGHT_ON :: u32 where "AMETA_SHIFT_RIGHT_ON = 0x80"
definition AMETA_CTRL_ON :: u32 where "AMETA_CTRL_ON = 0x1000"
definition AMETA_CTRL_LEFT_ON :: u32 where "AMETA_CTRL_LEFT_ON = 0x2000"
definition AMETA_CTRL_RIGHT_ON :: u32 where "AMETA_CTRL_RIGHT_ON = 0x4000"
definition AMETA_META_ON :: u32 where "AMETA_META_ON = 0x10000"
definition AMETA_META_LEFT_ON :: u32 where "AMETA_META_LEFT_ON = 0x20000"
definition AMETA_META_RIGHT_ON :: u32 where "AMETA_META_RIGHT_ON = 0x40000"
definition AMETA_CAPS_LOCK_ON :: u32 where "AMETA_CAPS_LOCK_ON = 0x100000"
definition AMETA_NUM_LOCK_ON :: u32 where "AMETA_NUM_LOCK_ON = 0x200000"

section \<open>State and conversions\<close>

datatype sc_key_inject_mode = SC_KEY_INJECT_MODE_MIXED | SC_KEY_INJECT_MODE_TEXT | SC_KEY_INJECT_MODE_RAW

record sc_keyboard_sdk =
  kb_repeat :: u32
  key_inject_mode :: sc_key_inject_mode
  forward_key_repeat :: bool

fun convert_keycode_action :: "sc_action \<Rightarrow> u32" where
  "convert_keycode_action SC_ACTION_DOWN = AKEY_EVENT_ACTION_DOWN"
| "convert_keycode_action SC_ACTION_UP = AKEY_EVENT_ACTION_UP"

definition convert_keycode :: "(string \<Rightarrow> int) \<Rightarrow> int \<Rightarrow> sc_mod set \<Rightarrow> sc_key_inject_mode \<Rightarrow> int option" where
  "convert_keycode kc key mods mode =
     (case sc_intmap_find_entry (entries_of kc special_keys) key of
        Some entry \<Rightarrow> Some (entry_value entry)
      | None \<Rightarrow>
          (case (if mods \<inter> {SC_MOD_NUM, SC_MOD_LSHIFT, SC_MOD_RSHIFT} = {}
                 then sc_intmap_find_entry (entries_of kc kp_nav_keys) key else None) of
             Some entry \<Rightarrow> Some (entry_value entry)
           | None \<Rightarrow>
               if mode = SC_KEY_INJECT_MODE_TEXT \<and> mods \<inter> {SC_MOD_LCTRL, SC_MOD_RCTRL} = {} then None
               else (case sc_intmap_find_entry (entries_of kc alphaspace_keys) key of
                  Some entry \<Rightarrow> Some (entry_value entry)
                | None \<Rightarrow>
                    if mode = SC_KEY_INJECT_MODE_RAW
                    then map_option entry_value (sc_intmap_find_entry (entries_of kc numbers_punct_keys) key)
                    else None)))"

definition autocomplete_metastate :: "u32 \<Rightarrow> u32" where
  "autocomplete_metastate m0 =
     (let m1 = (if m0 AND (AMETA_SHIFT_LEFT_ON OR AMETA_SHIFT_RIGHT_ON) \<noteq> 0 then m0 OR AMETA_SHIFT_ON else m0);
          m2 = (if m1 AND (AMETA_CTRL_LEFT_ON OR AMETA_CTRL_RIGHT_ON) \<noteq> 0 then m1 OR AMETA_CTRL_ON else m1);
          m3 = (if m2 AND (AMETA_ALT_LEFT_ON OR AMETA_ALT_RIGHT_ON) \<noteq> 0 then m2 OR AMETA_ALT_ON else m2)
      in if m3 AND (AMETA_META_LEFT_ON OR AMETA_META_RIGHT_ON) \<noteq> 0 then m3 OR AMETA_META_ON else m3)"

text \<open>One \<^verbatim>\<open>if (mod & ...) metastate |= ...\<close> per modifier, in the order of the source.\<close>

definition meta_flags :: "(sc_mod \<times> u32) list" where
  "meta_flags =
     [(SC_MOD_LSHIFT, AMETA_SHIFT_LEFT_ON), (SC_MOD_RSHIFT, AMETA_SHIFT_RIGHT_ON),
      (SC_MOD_LCTRL, AMETA_CTRL_LEFT_ON), (SC_MOD_RCTRL, AMETA_CTRL_RIGHT_ON),
      (SC_MOD_LALT, AMETA_ALT_LEFT_ON), (SC_MOD_RALT, AMETA_ALT_RIGHT_ON),
      (SC_MOD_LGUI, AMETA_META_LEFT_ON), (SC_MOD_RGUI, AMETA_META_RIGHT_ON),
      (SC_MOD_NUM, AMETA_NUM_LOCK_ON), (SC_MOD_CAPS, AMETA_CAPS_LOCK_ON)]"

definition convert_meta_state :: "sc_mod set \<Rightarrow> u32" where
  "convert_meta_state mods =
     autocomplete_metastate (fold (\<lambda>(m, flag) s. if m \<in> mods then s OR flag else s) meta_flags 0)"

definition convert_input_key ::
  "(string \<Rightarrow> int) \<Rightarrow> sc_key_event \<Rightarrow> sc_key_inject_mode \<Rightarrow> u32 \<Rightarrow> sc_control_msg option" where
  "convert_input_key kc event mode count =
     (case convert_keycode kc (key_keycode event) (key_mods_state event) mode of
        None \<Rightarrow> None
      | Some code \<Rightarrow>
          Some (INJECT_KEYCODE (convert_keycode_action (key_action event)) (of_int code) count
                  (convert_meta_state (key_mods_state event))))"

section \<open>Handlers\<close>

definition keyboard_sdk_process_key ::
  "(string \<Rightarrow> int) \<Rightarrow> sc_key_event \<Rightarrow> sc_keyboard_sdk \<Rightarrow> sc_keyboard_sdk \<times> sc_control_msg list" where
  "keyboard_sdk_process_key kc event kb =
     (if key_repeat event \<and> \<not> forward_key_repeat kb then (kb, [])
      else
        let kb = kb\<lparr>kb_repeat := (if key_repeat event then kb_repeat kb + 1 else 0)\<rparr> in
        (case convert_input_key kc event (key_inject_mode kb) (kb_repeat kb) of
           Some msg \<Rightarrow> (kb, [msg])
         | None \<Rightarrow> (kb, [])))"

text \<open>\<^verbatim>\<open>isalpha\<close> in the C locale, and the byte of a C string at an index up to its length.\<close>

definition c_isalpha :: "u8 \<Rightarrow> bool" where
  "c_isalpha c \<longleftrightarrow> 65 \<le> c \<and> c \<le> 90 \<or> 97 \<le> c \<and> c \<le> 122"

definition c_char_at :: "byte_buf \<Rightarrow> nat \<Rightarrow> u8 option" where
  "c_char_at s i = (if i < length s then Some (s ! i) else if i = length s then Some 0 else None)"

text \<open>\<open>alloc\<close> says whether \<^verbatim>\<open>strdup\<close> succeeds.\<close>

definition keyboard_sdk_process_text ::
  "bool \<Rightarrow> byte_buf \<Rightarrow> sc_keyboard_sdk \<Rightarrow> sc_control_msg list option" where
  "keyboard_sdk_process_text alloc s kb =
     (if key_inject_mode kb = SC_KEY_INJECT_MODE_RAW then Some []
      else do {
        c \<leftarrow> c_char_at s 0;
        if key_inject_mode kb = SC_KEY_INJECT_MODE_MIXED \<and> (c_isalpha c \<or> c = 32)
        then do {
          next_char \<leftarrow> c_char_at s 1;
          c_assert (next_char = 0);
          Some []
        }
        else if alloc then Some [INJECT_TEXT (Some s)]
        else Some []
      })"

definition sc_keyboard_sdk_init :: "sc_key_inject_mode \<Rightarrow> bool \<Rightarrow> sc_keyboard_sdk" where
  "sc_keyboard_sdk_init mode fwd = \<lparr>kb_repeat = 0, key_inject_mode = mode, forward_key_repeat = fwd\<rparr>"

section \<open>Modifiers\<close>

text \<open>The bits of the meta state: the side flags, the locks, and the flags that depend on the sides.\<close>

definition meta_bit :: "sc_mod set \<Rightarrow> nat \<Rightarrow> bool" where
  "meta_bit mods n \<longleftrightarrow>
     n = 0 \<and> (SC_MOD_LSHIFT \<in> mods \<or> SC_MOD_RSHIFT \<in> mods) \<or>
     n = 1 \<and> (SC_MOD_LALT \<in> mods \<or> SC_MOD_RALT \<in> mods) \<or>
     n = 4 \<and> SC_MOD_LALT \<in> mods \<or> n = 5 \<and> SC_MOD_RALT \<in> mods \<or>
     n = 6 \<and> SC_MOD_LSHIFT \<in> mods \<or> n = 7 \<and> SC_MOD_RSHIFT \<in> mods \<or>
     n = 12 \<and> (SC_MOD_LCTRL \<in> mods \<or> SC_MOD_RCTRL \<in> mods) \<or>
     n = 13 \<and> SC_MOD_LCTRL \<in> mods \<or> n = 14 \<and> SC_MOD_RCTRL \<in> mods \<or>
     n = 16 \<and> (SC_MOD_LGUI \<in> mods \<or> SC_MOD_RGUI \<in> mods) \<or>
     n = 17 \<and> SC_MOD_LGUI \<in> mods \<or> n = 18 \<and> SC_MOD_RGUI \<in> mods \<or>
     n = 20 \<and> SC_MOD_CAPS \<in> mods \<or> n = 21 \<and> SC_MOD_NUM \<in> mods"

lemma fold_flags:
  "bit (fold (\<lambda>(m, flag) s. if m \<in> mods then s OR flag else s) fs s) n \<longleftrightarrow>
   bit s n \<or> (\<exists>(m, flag) \<in> set fs. m \<in> mods \<and> bit (flag :: u32) n)"
  by (induction fs arbitrary: s) (auto simp: bit_or_iff split: if_splits)

lemma ameta_bits:
  "bit AMETA_SHIFT_ON n \<longleftrightarrow> n = 0"
  "bit AMETA_ALT_ON n \<longleftrightarrow> n = 1"
  "bit AMETA_ALT_LEFT_ON n \<longleftrightarrow> n = 4"
  "bit AMETA_ALT_RIGHT_ON n \<longleftrightarrow> n = 5"
  "bit AMETA_SHIFT_LEFT_ON n \<longleftrightarrow> n = 6"
  "bit AMETA_SHIFT_RIGHT_ON n \<longleftrightarrow> n = 7"
  "bit AMETA_CTRL_ON n \<longleftrightarrow> n = 12"
  "bit AMETA_CTRL_LEFT_ON n \<longleftrightarrow> n = 13"
  "bit AMETA_CTRL_RIGHT_ON n \<longleftrightarrow> n = 14"
  "bit AMETA_META_ON n \<longleftrightarrow> n = 16"
  "bit AMETA_META_LEFT_ON n \<longleftrightarrow> n = 17"
  "bit AMETA_META_RIGHT_ON n \<longleftrightarrow> n = 18"
  "bit AMETA_CAPS_LOCK_ON n \<longleftrightarrow> n = 20"
  "bit AMETA_NUM_LOCK_ON n \<longleftrightarrow> n = 21"
  by (rule flag_bit; simp add: AMETA_SHIFT_ON_def AMETA_ALT_ON_def AMETA_ALT_LEFT_ON_def AMETA_ALT_RIGHT_ON_def AMETA_SHIFT_LEFT_ON_def
      AMETA_SHIFT_RIGHT_ON_def AMETA_CTRL_ON_def AMETA_CTRL_LEFT_ON_def AMETA_CTRL_RIGHT_ON_def AMETA_META_ON_def
      AMETA_META_LEFT_ON_def AMETA_META_RIGHT_ON_def AMETA_CAPS_LOCK_ON_def AMETA_NUM_LOCK_ON_def)+

lemma and_two_bits:
  fixes m :: u32
  assumes "\<And>k. bit a k \<longleftrightarrow> k = i" "\<And>k. bit b k \<longleftrightarrow> k = j"
  shows "m AND (a OR b) \<noteq> 0 \<longleftrightarrow> bit m i \<or> bit m j"
  using bit_imp_le_length [of m i] bit_imp_le_length [of m j]
  by (auto simp: bit_eq_iff [of "m AND (a OR b)"] bit_and_iff bit_or_iff assms)

lemma autocomplete_bit:
  "bit (autocomplete_metastate m) n \<longleftrightarrow> bit m n \<or> n = 0 \<and> (bit m 6 \<or> bit m 7) \<or>
     n = 12 \<and> (bit m 13 \<or> bit m 14) \<or> n = 1 \<and> (bit m 4 \<or> bit m 5) \<or> n = 16 \<and> (bit m 17 \<or> bit m 18)"
  unfolding autocomplete_metastate_def Let_def or_if_bit
    and_two_bits [OF ameta_bits(5) ameta_bits(6)] and_two_bits [OF ameta_bits(8) ameta_bits(9)]
    and_two_bits [OF ameta_bits(3) ameta_bits(4)] and_two_bits [OF ameta_bits(11) ameta_bits(12)]
  by (auto simp: ameta_bits)

lemma meta_state_bits: "bit (convert_meta_state mods) n \<longleftrightarrow> meta_bit mods n"
proof -
  have "bit (fold (\<lambda>(m, flag) s. if m \<in> mods then s OR flag else s) meta_flags 0) k \<longleftrightarrow>
    k = 6 \<and> SC_MOD_LSHIFT \<in> mods \<or> k = 7 \<and> SC_MOD_RSHIFT \<in> mods \<or> k = 13 \<and> SC_MOD_LCTRL \<in> mods \<or>
    k = 14 \<and> SC_MOD_RCTRL \<in> mods \<or> k = 4 \<and> SC_MOD_LALT \<in> mods \<or> k = 5 \<and> SC_MOD_RALT \<in> mods \<or>
    k = 17 \<and> SC_MOD_LGUI \<in> mods \<or> k = 18 \<and> SC_MOD_RGUI \<in> mods \<or> k = 21 \<and> SC_MOD_NUM \<in> mods \<or>
    k = 20 \<and> SC_MOD_CAPS \<in> mods" for k
    unfolding fold_flags by (simp add: meta_flags_def ameta_bits conj_commute)
  then show ?thesis
    unfolding convert_meta_state_def autocomplete_bit meta_bit_def by (simp only:) auto
qed

section \<open>Keys and text\<close>

text \<open>The conversion by the name of a key.\<close>

definition named_keycode :: "string \<Rightarrow> sc_mod set \<Rightarrow> sc_key_inject_mode \<Rightarrow> int option" where
  "named_keycode n mods mode =
     (if map_of special_keys n \<noteq> None then map_of special_keys n
      else if mods \<inter> {SC_MOD_NUM, SC_MOD_LSHIFT, SC_MOD_RSHIFT} = {} \<and> map_of kp_nav_keys n \<noteq> None
      then map_of kp_nav_keys n
      else if mode = SC_KEY_INJECT_MODE_TEXT \<and> mods \<inter> {SC_MOD_LCTRL, SC_MOD_RCTRL} = {} then None
      else if map_of alphaspace_keys n \<noteq> None then map_of alphaspace_keys n
      else if mode = SC_KEY_INJECT_MODE_RAW then map_of numbers_punct_keys n
      else None)"

lemma convert_keycode_named:
  assumes "inj_on kc (set sc_keycode_names)" "n \<in> set sc_keycode_names"
  shows "convert_keycode kc (kc n) mods mode = named_keycode n mods mode"
proof -
  note [simp] = find_entry_of [OF assms(1) table_names(1) assms(2), symmetric]
    find_entry_of [OF assms(1) table_names(2) assms(2), symmetric]
    find_entry_of [OF assms(1) table_names(3) assms(2), symmetric]
    find_entry_of [OF assms(1) table_names(4) assms(2), symmetric]
  show ?thesis by (simp add: convert_keycode_def named_keycode_def split: option.split)
qed

text \<open>The keys that print, and those that do something else: the special keys, and on the numeric pad the navigation keys when
  neither Num Lock nor Shift is on. No printing key is special.\<close>

definition printing_names :: "string set" where
  "printing_names = fst ` set (alphaspace_keys @ numbers_punct_keys)"


definition not_typing :: "string \<Rightarrow> sc_mod set \<Rightarrow> bool" where
  "not_typing n mods \<longleftrightarrow> n \<in> fst ` set special_keys \<or>
     n \<in> fst ` set kp_nav_keys \<and> mods \<inter> {SC_MOD_NUM, SC_MOD_LSHIFT, SC_MOD_RSHIFT} = {}"

lemma printing_keys: "n \<in> printing_names \<Longrightarrow> mods \<inter> {SC_MOD_NUM, SC_MOD_LSHIFT, SC_MOD_RSHIFT} \<noteq> {} \<Longrightarrow> \<not> not_typing n mods"
  by (auto simp: printing_names_def not_typing_def special_keys_def alphaspace_keys_def numbers_punct_keys_def)









section \<open>Repetitions\<close>

fun sdk_keys ::
  "(string \<Rightarrow> int) \<Rightarrow> sc_key_event list \<Rightarrow> sc_keyboard_sdk \<Rightarrow> sc_keyboard_sdk \<times> sc_control_msg list" where
  "sdk_keys kc [] kb = (kb, [])"
| "sdk_keys kc (e # es) kb =
     (let (kb, ms) = keyboard_sdk_process_key kc e kb; (kb, ns) = sdk_keys kc es kb in (kb, ms @ ns))"

lemma repeated_keys:
  assumes "convert_keycode kc (key_keycode e) (key_mods_state e) (key_inject_mode kb) = Some code" "key_repeat e"
  shows "sdk_keys kc (replicate k e) kb =
    (if forward_key_repeat kb
     then (kb\<lparr>kb_repeat := kb_repeat kb + of_nat k\<rparr>,
           map (\<lambda>i. INJECT_KEYCODE (convert_keycode_action (key_action e)) (of_int code) (kb_repeat kb + of_nat i)
                  (convert_meta_state (key_mods_state e))) [1..<Suc k])
     else (kb, []))"
  using assms(1)
proof (induction k arbitrary: kb)
  case (Suc k)
  have "[1..<Suc (Suc k)] = 1 # map Suc [1..<Suc k]" by (simp add: upt_conv_Cons map_Suc_upt del: upt_Suc)
  then show ?case
    using Suc.IH [of "kb\<lparr>kb_repeat := kb_repeat kb + 1\<rparr>"] Suc.IH [of kb] Suc.prems assms(2)
    by (simp add: keyboard_sdk_process_key_def convert_input_key_def Let_def add.assoc comp_def del: upt_Suc)
qed simp

text \<open>A key held down: for the press and its \<open>k\<close> repetitions the device gets the press with count 0 and, when
  repetitions are forwarded, one message for each with the counts 1 to \<open>k\<close> in this order (modulo 2 to the 32);
  all have the same key code and a meta state whose bits are exactly those of the modifiers held, the flags of
  both sides included.\<close>

theorem sdk_key_held:
  assumes "convert_keycode kc (key_keycode e) (key_mods_state e) (key_inject_mode kb) = Some code" "\<not> key_repeat e"
  shows "\<exists>kb' meta. sdk_keys kc (e # replicate k (e\<lparr>key_repeat := True\<rparr>)) kb =
      (kb', map (\<lambda>i. INJECT_KEYCODE (convert_keycode_action (key_action e)) (of_int code) (of_nat i) meta)
              [0..<(if forward_key_repeat kb then Suc k else 1)]) \<and>
    (\<forall>n. bit meta n \<longleftrightarrow> meta_bit (key_mods_state e) n)"
proof -
  have u: "[0..<Suc k] = 0 # [1..<Suc k]" "[0..<Suc 0] = [0]" by (simp_all add: upt_conv_Cons del: upt_Suc)
  have "keyboard_sdk_process_key kc e kb = (kb\<lparr>kb_repeat := 0\<rparr>,
      [INJECT_KEYCODE (convert_keycode_action (key_action e)) (of_int code) 0 (convert_meta_state (key_mods_state e))])"
    using assms by (simp add: keyboard_sdk_process_key_def convert_input_key_def)
  with repeated_keys [of kc "e\<lparr>key_repeat := True\<rparr>" "kb\<lparr>kb_repeat := 0\<rparr>" code k] assms(1)
  have "sdk_keys kc (e # replicate k (e\<lparr>key_repeat := True\<rparr>)) kb =
    (if forward_key_repeat kb then kb\<lparr>kb_repeat := of_nat k\<rparr> else kb\<lparr>kb_repeat := 0\<rparr>,
     map (\<lambda>i. INJECT_KEYCODE (convert_keycode_action (key_action e)) (of_int code) (of_nat i)
       (convert_meta_state (key_mods_state e))) [0..<(if forward_key_repeat kb then Suc k else 1)])"
    by (simp add: u del: upt_Suc)
  then show ?thesis using meta_state_bits by blast
qed

theorem sdk_key_held_witness:
  "\<exists>kb' meta. sdk_keys sdl3_keys
      (\<lparr>key_action = SC_ACTION_DOWN, key_keycode = sdl3_keys ''LEFT'', key_scancode = 80, key_mods_state = {SC_MOD_LALT},
         key_repeat = False\<rparr> #
       replicate 2 \<lparr>key_action = SC_ACTION_DOWN, key_keycode = sdl3_keys ''LEFT'', key_scancode = 80,
         key_mods_state = {SC_MOD_LALT}, key_repeat = True\<rparr>)
      (sc_keyboard_sdk_init SC_KEY_INJECT_MODE_MIXED True) =
    (kb', map (\<lambda>i. INJECT_KEYCODE AKEY_EVENT_ACTION_DOWN (of_int AKEYCODE_DPAD_LEFT) (of_nat i) meta) [0..<Suc 2]) \<and>
    bit meta 4"
proof -
  let ?e = "\<lparr>key_action = SC_ACTION_DOWN, key_keycode = sdl3_keys ''LEFT'', key_scancode = 80,
    key_mods_state = {SC_MOD_LALT}, key_repeat = False\<rparr>"
  let ?kb = "sc_keyboard_sdk_init SC_KEY_INJECT_MODE_MIXED True"
  have "''LEFT'' \<in> set sc_keycode_names" by (simp add: sc_keycode_names_def)
  then have "convert_keycode sdl3_keys (key_keycode ?e) (key_mods_state ?e) (key_inject_mode ?kb) =
    Some AKEYCODE_DPAD_LEFT"
    by (simp add: convert_keycode_named [OF sdl3_keys_distinct] named_keycode_def special_keys_def)
  from sdk_key_held [OF this, of 2] show ?thesis
    by (simp add: sc_keyboard_sdk_init_def meta_bit_def del: upt_Suc) blast
qed

text \<open>The default mode aborts on committed text: in mixed mode a text event of two or more bytes (an input
  method may commit a whole word) that starts with a letter or a space fails the assertion
  that letters come one at a time; in the other modes no text does.\<close>

theorem sdk_mixed_text_aborts:
  "keyboard_sdk_process_text alloc s kb = None \<longleftrightarrow>
     key_inject_mode kb = SC_KEY_INJECT_MODE_MIXED \<and> 2 \<le> length s \<and> (c_isalpha (s ! 0) \<or> s ! 0 = 32) \<and> s ! 1 \<noteq> 0"
  by (cases "key_inject_mode kb"; cases s; cases "tl s")
    (auto simp: keyboard_sdk_process_text_def c_char_at_def c_isalpha_def)

text \<open>In raw mode the percent key is injected as the period key, which the table gives to both.\<close>

lemma percent_is_period:
  "map_of numbers_punct_keys ''PERCENT'' = map_of numbers_punct_keys ''PERIOD''"
  by (simp add: numbers_punct_keys_def)

end
