(* ===== verification/MouseSdk.thy ===== *)
theory MouseSdk
  imports InputEvents Controller
begin

text \<open>
  \<^verbatim>\<open>app/src/mouse_sdk.c\<close>: mouse and touch events become injection messages. A handler gives the messages it
  passes to \<^verbatim>\<open>sc_controller_push_msg\<close>. A mask of mouse buttons is the set of its buttons; the enumerator
  \<^verbatim>\<open>SC_MOUSE_BUTTON_UNKNOWN\<close> is the empty mask.
\<close>

section \<open>Constants of Android\<close>

definition AMOTION_EVENT_ACTION_DOWN :: u32 where "AMOTION_EVENT_ACTION_DOWN = 0"
definition AMOTION_EVENT_ACTION_UP :: u32 where "AMOTION_EVENT_ACTION_UP = 1"
definition AMOTION_EVENT_ACTION_MOVE :: u32 where "AMOTION_EVENT_ACTION_MOVE = 2"
definition AMOTION_EVENT_ACTION_HOVER_MOVE :: u32 where "AMOTION_EVENT_ACTION_HOVER_MOVE = 7"

definition AMOTION_EVENT_BUTTON_PRIMARY :: u32 where "AMOTION_EVENT_BUTTON_PRIMARY = push_bit 0 1"
definition AMOTION_EVENT_BUTTON_SECONDARY :: u32 where "AMOTION_EVENT_BUTTON_SECONDARY = push_bit 1 1"
definition AMOTION_EVENT_BUTTON_TERTIARY :: u32 where "AMOTION_EVENT_BUTTON_TERTIARY = push_bit 2 1"
definition AMOTION_EVENT_BUTTON_BACK :: u32 where "AMOTION_EVENT_BUTTON_BACK = push_bit 3 1"
definition AMOTION_EVENT_BUTTON_FORWARD :: u32 where "AMOTION_EVENT_BUTTON_FORWARD = push_bit 4 1"

section \<open>Conversions\<close>

definition convert_mouse_buttons :: "sc_mouse_button set \<Rightarrow> u32" where
  "convert_mouse_buttons state =
     (let b = (if SC_MOUSE_BUTTON_LEFT \<in> state then AMOTION_EVENT_BUTTON_PRIMARY else 0);
          b = (if SC_MOUSE_BUTTON_RIGHT \<in> state then b OR AMOTION_EVENT_BUTTON_SECONDARY else b);
          b = (if SC_MOUSE_BUTTON_MIDDLE \<in> state then b OR AMOTION_EVENT_BUTTON_TERTIARY else b);
          b = (if SC_MOUSE_BUTTON_X1 \<in> state then b OR AMOTION_EVENT_BUTTON_BACK else b)
      in if SC_MOUSE_BUTTON_X2 \<in> state then b OR AMOTION_EVENT_BUTTON_FORWARD else b)"

fun convert_mouse_action :: "sc_action \<Rightarrow> u32" where
  "convert_mouse_action SC_ACTION_DOWN = AMOTION_EVENT_ACTION_DOWN"
| "convert_mouse_action SC_ACTION_UP = AMOTION_EVENT_ACTION_UP"

fun convert_touch_action :: "sc_touch_action \<Rightarrow> u32" where
  "convert_touch_action SC_TOUCH_ACTION_MOVE = AMOTION_EVENT_ACTION_MOVE"
| "convert_touch_action SC_TOUCH_ACTION_DOWN = AMOTION_EVENT_ACTION_DOWN"
| "convert_touch_action SC_TOUCH_ACTION_UP = AMOTION_EVENT_ACTION_UP"

section \<open>Handlers\<close>

record sc_mouse_sdk =
  mouse_hover :: bool

definition mouse_sdk_process_motion :: "sc_mouse_motion_event \<Rightarrow> sc_mouse_sdk \<Rightarrow> sc_control_msg list" where
  "mouse_sdk_process_motion event m =
     (let pressed = motion_buttons_state event - {SC_MOUSE_BUTTON_UNKNOWN} \<noteq> {} in
      if \<not> mouse_hover m \<and> \<not> pressed then []
      else [INJECT_TOUCH_EVENT
              (if pressed then AMOTION_EVENT_ACTION_MOVE else AMOTION_EVENT_ACTION_HOVER_MOVE)
              0 (convert_mouse_buttons (motion_buttons_state event)) (motion_pointer_id event)
              (motion_position event) 1])"

definition mouse_sdk_process_click :: "sc_mouse_click_event \<Rightarrow> sc_mouse_sdk \<Rightarrow> sc_control_msg list" where
  "mouse_sdk_process_click event m =
     [INJECT_TOUCH_EVENT (convert_mouse_action (click_action event))
        (convert_mouse_buttons {click_button event}) (convert_mouse_buttons (click_buttons_state event))
        (click_pointer_id event) (click_position event)
        (if click_action event = SC_ACTION_DOWN then 1 else 0)]"

definition mouse_sdk_process_scroll :: "sc_mouse_scroll_event \<Rightarrow> sc_mouse_sdk \<Rightarrow> sc_control_msg list" where
  "mouse_sdk_process_scroll event m =
     [INJECT_SCROLL_EVENT (scroll_position event) (hscroll event) (vscroll event)
        (convert_mouse_buttons (scroll_buttons_state event))]"

definition mouse_sdk_process_touch :: "sc_touch_event \<Rightarrow> sc_mouse_sdk \<Rightarrow> sc_control_msg list" where
  "mouse_sdk_process_touch event m =
     [INJECT_TOUCH_EVENT (convert_touch_action (touch_action event)) 0 0 (touch_pointer_id event)
        (touch_position event) (touch_pressure event)]"

definition sc_mouse_sdk_init :: "bool \<Rightarrow> sc_mouse_sdk" where
  "sc_mouse_sdk_init hover = \<lparr>mouse_hover = hover\<rparr>"

section \<open>Buttons\<close>

fun button_bit :: "sc_mouse_button \<Rightarrow> nat" where
  "button_bit SC_MOUSE_BUTTON_LEFT = 0"
| "button_bit SC_MOUSE_BUTTON_RIGHT = 1"
| "button_bit SC_MOUSE_BUTTON_MIDDLE = 2"
| "button_bit SC_MOUSE_BUTTON_X1 = 3"
| "button_bit SC_MOUSE_BUTTON_X2 = 4"
| "button_bit SC_MOUSE_BUTTON_UNKNOWN = 5"

lemma button_flags:
  "bit AMOTION_EVENT_BUTTON_PRIMARY n \<longleftrightarrow> n = 0" "bit AMOTION_EVENT_BUTTON_SECONDARY n \<longleftrightarrow> n = 1"
  "bit AMOTION_EVENT_BUTTON_TERTIARY n \<longleftrightarrow> n = 2" "bit AMOTION_EVENT_BUTTON_BACK n \<longleftrightarrow> n = 3"
  "bit AMOTION_EVENT_BUTTON_FORWARD n \<longleftrightarrow> n = 4"
  by (rule flag_bit; simp add: AMOTION_EVENT_BUTTON_PRIMARY_def AMOTION_EVENT_BUTTON_SECONDARY_def
      AMOTION_EVENT_BUTTON_TERTIARY_def AMOTION_EVENT_BUTTON_BACK_def AMOTION_EVENT_BUTTON_FORWARD_def push_bit_eq_mult)+

lemma convert_buttons_bit:
  "bit (convert_mouse_buttons S) n \<longleftrightarrow>
     n = 0 \<and> SC_MOUSE_BUTTON_LEFT \<in> S \<or> n = 1 \<and> SC_MOUSE_BUTTON_RIGHT \<in> S \<or> n = 2 \<and> SC_MOUSE_BUTTON_MIDDLE \<in> S \<or>
     n = 3 \<and> SC_MOUSE_BUTTON_X1 \<in> S \<or> n = 4 \<and> SC_MOUSE_BUTTON_X2 \<in> S"
  unfolding convert_mouse_buttons_def Let_def or_if_bit by (auto simp: button_flags)

lemma convert_insert: "convert_mouse_buttons (insert b S) = convert_mouse_buttons S OR convert_mouse_buttons {b}"
  by (rule bit_word_eqI) (auto simp: bit_or_iff convert_buttons_bit)

lemma convert_remove:
  "convert_mouse_buttons (S - {b}) = convert_mouse_buttons S AND NOT (convert_mouse_buttons {b})"
  by (rule bit_word_eqI) (auto simp: bit_and_iff bit_not_iff convert_buttons_bit)

lemma convert_absent: "b \<notin> S \<Longrightarrow> convert_mouse_buttons {b} AND convert_mouse_buttons S = 0"
  by (rule bit_word_eqI) (auto simp: bit_and_iff convert_buttons_bit)

lemma convert_present: "b \<in> S \<Longrightarrow> convert_mouse_buttons {b} AND convert_mouse_buttons S = convert_mouse_buttons {b}"
  by (rule bit_word_eqI) (auto simp: bit_and_iff convert_buttons_bit)

lemma convert_zero: "convert_mouse_buttons S = 0 \<longleftrightarrow> S - {SC_MOUSE_BUTTON_UNKNOWN} = {}"
proof
  assume z: "convert_mouse_buttons S = 0"
  have "b \<notin> S" if "b \<noteq> SC_MOUSE_BUTTON_UNKNOWN" for b
    using convert_buttons_bit [of S "button_bit b"] that unfolding z by (cases b) simp_all
  then show "S - {SC_MOUSE_BUTTON_UNKNOWN} = {}" by blast
next
  assume "S - {SC_MOUSE_BUTTON_UNKNOWN} = {}"
  then show "convert_mouse_buttons S = 0" by (auto intro!: bit_word_eqI simp: convert_buttons_bit)
qed

section \<open>The stream of mouse messages\<close>

text \<open>What Android requires of a mouse: the buttons of every event are those held, a press adds one button
  that was up, a release removes one that was down, and the pointer moves with a button held or hovers with
  none. The state is the mask of the buttons held.\<close>

definition android_touch :: "u32 \<Rightarrow> u32 \<Rightarrow> u32 \<Rightarrow> u32 \<Rightarrow> rat \<Rightarrow> bool" where
  "android_touch cur action action_button buttons press \<longleftrightarrow>
     action = AMOTION_EVENT_ACTION_DOWN \<and> action_button \<noteq> 0 \<and> action_button AND cur = 0 \<and>
       buttons = cur OR action_button \<and> press = 1 \<or>
     action = AMOTION_EVENT_ACTION_UP \<and> action_button \<noteq> 0 \<and> action_button AND cur = action_button \<and>
       buttons = cur AND NOT action_button \<and> press = 0 \<or>
     action = AMOTION_EVENT_ACTION_MOVE \<and> cur \<noteq> 0 \<and> buttons = cur \<or>
     action = AMOTION_EVENT_ACTION_HOVER_MOVE \<and> cur = 0 \<and> buttons = 0"

fun android_mouse :: "u32 \<Rightarrow> sc_control_msg list \<Rightarrow> u32 option" where
  "android_mouse cur [] = Some cur"
| "android_mouse cur (INJECT_TOUCH_EVENT a ab b ptr pos press # ms) =
     (if android_touch cur a ab b press then android_mouse b ms else None)"
| "android_mouse cur (INJECT_SCROLL_EVENT pos h v b # ms) = (if b = cur then android_mouse cur ms else None)"
| "android_mouse cur (_ # ms) = None"

text \<open>The events of the host, each with the mask of the buttons held after it.\<close>

datatype mouse_event = Motion sc_mouse_motion_event | Click sc_mouse_click_event | Scroll sc_mouse_scroll_event

fun held_after :: "mouse_event \<Rightarrow> sc_mouse_button set" where
  "held_after (Motion e) = motion_buttons_state e"
| "held_after (Click e) = click_buttons_state e"
| "held_after (Scroll e) = scroll_buttons_state e"

fun host_event :: "sc_mouse_button set \<Rightarrow> mouse_event \<Rightarrow> bool" where
  "host_event S (Motion e) \<longleftrightarrow> motion_buttons_state e = S"
| "host_event S (Scroll e) \<longleftrightarrow> scroll_buttons_state e = S \<and>
     i16fp_ok (scroll_norm (hscroll e)) \<and> i16fp_ok (scroll_norm (vscroll e))"
| "host_event S (Click e) \<longleftrightarrow> click_button e \<noteq> SC_MOUSE_BUTTON_UNKNOWN \<and>
     (case click_action e of
        SC_ACTION_DOWN \<Rightarrow> click_button e \<notin> S \<and> click_buttons_state e = insert (click_button e) S
      | SC_ACTION_UP \<Rightarrow> click_button e \<in> S \<and> click_buttons_state e = S - {click_button e})"

fun host_events :: "sc_mouse_button set \<Rightarrow> mouse_event list \<Rightarrow> bool" where
  "host_events S [] \<longleftrightarrow> True"
| "host_events S (e # es) \<longleftrightarrow> host_event S e \<and> host_events (held_after e) es"

fun mouse_sdk_process :: "sc_mouse_sdk \<Rightarrow> mouse_event \<Rightarrow> sc_control_msg list" where
  "mouse_sdk_process m (Motion e) = mouse_sdk_process_motion e m"
| "mouse_sdk_process m (Click e) = mouse_sdk_process_click e m"
| "mouse_sdk_process m (Scroll e) = mouse_sdk_process_scroll e m"

lemmas touch_defs = android_touch_def AMOTION_EVENT_ACTION_DOWN_def AMOTION_EVENT_ACTION_UP_def
  AMOTION_EVENT_ACTION_MOVE_def AMOTION_EVENT_ACTION_HOVER_MOVE_def

lemma motion_step:
  "android_mouse (convert_mouse_buttons (motion_buttons_state v)) (mouse_sdk_process_motion v m @ ms) =
   android_mouse (convert_mouse_buttons (motion_buttons_state v)) ms"
proof (cases "motion_buttons_state v - {SC_MOUSE_BUTTON_UNKNOWN} = {}")
  case True
  moreover from this have "convert_mouse_buttons (motion_buttons_state v) = 0" by (simp only: convert_zero)
  ultimately show ?thesis by (simp add: mouse_sdk_process_motion_def touch_defs)
next
  case False
  moreover from this have "convert_mouse_buttons (motion_buttons_state v) \<noteq> 0" by (simp only: convert_zero) simp
  ultimately show ?thesis by (simp add: mouse_sdk_process_motion_def touch_defs)
qed

lemma click_step:
  assumes "host_event S (Click v)"
  shows "android_mouse (convert_mouse_buttons S) (mouse_sdk_process_click v m @ ms) =
    android_mouse (convert_mouse_buttons (click_buttons_state v)) ms"
proof -
  have nz: "convert_mouse_buttons {click_button v} \<noteq> 0" using assms by (simp add: convert_zero)
  show ?thesis
  proof (cases "click_action v")
    case SC_ACTION_DOWN
    with assms have "click_button v \<notin> S" "click_buttons_state v = insert (click_button v) S" by simp_all
    with convert_absent [OF this(1)] nz SC_ACTION_DOWN show ?thesis
      by (simp add: mouse_sdk_process_click_def touch_defs convert_insert [of "click_button v" S])
  next
    case SC_ACTION_UP
    with assms have "click_button v \<in> S" "click_buttons_state v = S - {click_button v}" by simp_all
    with convert_present [OF this(1)] nz SC_ACTION_UP show ?thesis
      by (simp add: mouse_sdk_process_click_def touch_defs convert_remove [of S "click_button v"])
  qed
qed

lemma mouse_sdk_step:
  assumes "host_event S e"
  shows "android_mouse (convert_mouse_buttons S) (mouse_sdk_process m e @ ms) =
      android_mouse (convert_mouse_buttons (held_after e)) ms"
    "\<forall>x \<in> set (mouse_sdk_process m e). good_event (Push True x)"
proof -
  show "android_mouse (convert_mouse_buttons S) (mouse_sdk_process m e @ ms) =
      android_mouse (convert_mouse_buttons (held_after e)) ms"
    using assms click_step [of S] motion_step by (cases e) (auto simp: mouse_sdk_process_scroll_def)
  show "\<forall>x \<in> set (mouse_sdk_process m e). good_event (Push True x)"
    using assms by (cases e) (auto simp: mouse_sdk_process_motion_def mouse_sdk_process_click_def
        mouse_sdk_process_scroll_def Let_def u16fp_ok_def split: if_splits)
qed

text \<open>The mouse messages form a stream Android accepts: as long as the events of the host report the buttons
  held consistently, starting with none, every message carries the mask of the buttons held, presses and
  releases change exactly one button, the pointer moves only with a button held and hovers only with none;
  and the controller accepts every message.\<close>

theorem sdk_mouse_stream:
  assumes "host_events {} es"
  shows "android_mouse 0 (concat (map (mouse_sdk_process m) es)) =
      Some (if es = [] then 0 else convert_mouse_buttons (held_after (last es))) \<and>
    (\<forall>x \<in> set (concat (map (mouse_sdk_process m) es)). good_event (Push True x))"
proof -
  have "android_mouse (convert_mouse_buttons S) (concat (map (mouse_sdk_process m) es)) =
      Some (convert_mouse_buttons (if es = [] then S else held_after (last es))) \<and>
    (\<forall>x \<in> set (concat (map (mouse_sdk_process m) es)). good_event (Push True x))"
    if "host_events S es" for S
    using that
  proof (induction es arbitrary: S)
    case (Cons e es)
    then have "host_event S e" "host_events (held_after e) es" by simp_all
    from mouse_sdk_step [OF this(1), of m] Cons.IH [OF this(2)] show ?case by (simp add: ball_Un)
  qed simp
  from this [OF assms] have r: "android_mouse (convert_mouse_buttons {}) (concat (map (mouse_sdk_process m) es)) =
      Some (convert_mouse_buttons (if es = [] then {} else held_after (last es)))"
    "\<forall>x \<in> set (concat (map (mouse_sdk_process m) es)). good_event (Push True x)" by blast+
  have "convert_mouse_buttons {} = 0" by (simp add: convert_zero)
  with r show ?thesis by simp
qed

definition some_position :: sc_position where
  "some_position = \<lparr>screen_size = \<lparr>width = 100, height = 200\<rparr>, point = \<lparr>point_x = 5, point_y = 6\<rparr>\<rparr>"

theorem sdk_mouse_stream_witness:
  "android_mouse 0 (concat (map (mouse_sdk_process \<lparr>mouse_hover = False\<rparr>)
     [Motion \<lparr>motion_position = some_position, motion_pointer_id = 0, xrel = 1, yrel = 0, motion_buttons_state = {}\<rparr>,
      Click \<lparr>click_position = some_position, click_action = SC_ACTION_DOWN, click_button = SC_MOUSE_BUTTON_LEFT,
        click_pointer_id = 0, click_buttons_state = {SC_MOUSE_BUTTON_LEFT}\<rparr>,
      Motion \<lparr>motion_position = some_position, motion_pointer_id = 0, xrel = 1, yrel = 0,
        motion_buttons_state = {SC_MOUSE_BUTTON_LEFT}\<rparr>])) =
   Some (convert_mouse_buttons {SC_MOUSE_BUTTON_LEFT})" (is "android_mouse 0 (concat (map _ ?es)) = _")
proof -
  have "host_events {} ?es" by simp
  from conjunct1 [OF sdk_mouse_stream [OF this]] show ?thesis by simp
qed

end
