(* ===== verification/Orientation.thy ===== *)
theory Orientation
  imports ControlMsg
begin

text \<open>
  The display orientations of \<^verbatim>\<open>app/src/options.h\<close> and \<^verbatim>\<open>app/src/options.c\<close>: three bits, a horizontal flip
  followed by a clockwise rotation by a multiple of 90 degrees. An orientation is the value of its enumerator.
\<close>

section \<open>Definitions\<close>

definition SC_ORIENTATION_0 :: u32 where "SC_ORIENTATION_0 = 0"
definition SC_ORIENTATION_90 :: u32 where "SC_ORIENTATION_90 = 1"
definition SC_ORIENTATION_180 :: u32 where "SC_ORIENTATION_180 = 2"
definition SC_ORIENTATION_270 :: u32 where "SC_ORIENTATION_270 = 3"
definition SC_ORIENTATION_FLIP_0 :: u32 where "SC_ORIENTATION_FLIP_0 = 4"
definition SC_ORIENTATION_FLIP_90 :: u32 where "SC_ORIENTATION_FLIP_90 = 5"
definition SC_ORIENTATION_FLIP_180 :: u32 where "SC_ORIENTATION_FLIP_180 = 6"
definition SC_ORIENTATION_FLIP_270 :: u32 where "SC_ORIENTATION_FLIP_270 = 7"

lemmas orientation_defs = SC_ORIENTATION_0_def SC_ORIENTATION_90_def SC_ORIENTATION_180_def SC_ORIENTATION_270_def
  SC_ORIENTATION_FLIP_0_def SC_ORIENTATION_FLIP_90_def SC_ORIENTATION_FLIP_180_def SC_ORIENTATION_FLIP_270_def

definition sc_orientation_is_mirror :: "u32 \<Rightarrow> bool option" where
  "sc_orientation_is_mirror orientation = do {
     c_assert (orientation AND NOT 7 = 0);
     Some (orientation AND 4 \<noteq> 0)
   }"

definition sc_orientation_is_swap :: "u32 \<Rightarrow> bool option" where
  "sc_orientation_is_swap orientation = do {
     c_assert (orientation AND NOT 7 = 0);
     Some (orientation AND 1 \<noteq> 0)
   }"

definition sc_orientation_get_rotation :: "u32 \<Rightarrow> u32 option" where
  "sc_orientation_get_rotation orientation = do {
     c_assert (orientation AND NOT 7 = 0);
     Some (orientation AND 3)
   }"

definition sc_orientation_apply :: "u32 \<Rightarrow> u32 \<Rightarrow> u32 option" where
  "sc_orientation_apply src transform = do {
     c_assert (src AND NOT 7 = 0);
     c_assert (transform AND NOT 7 = 0);
     let transform_hflip = transform AND 4;
     let transform_rotation = transform AND 3;
     let src_hflip = src AND 4;
     let src_rotation = src AND 3;
     let src_swap = src AND 1;
     let src_rotation = (if src_swap \<noteq> 0 \<and> transform_hflip \<noteq> 0 then src_rotation + 2 else src_rotation);
     let result_hflip = src_hflip XOR transform_hflip;
     let result_rotation = (transform_rotation + src_rotation) mod 4;
     Some (result_hflip OR result_rotation)
   }"

definition sc_orientation_get_name :: "u32 \<Rightarrow> string" where
  "sc_orientation_get_name orientation =
     (if orientation = SC_ORIENTATION_0 then ''0''
      else if orientation = SC_ORIENTATION_90 then ''90''
      else if orientation = SC_ORIENTATION_180 then ''180''
      else if orientation = SC_ORIENTATION_270 then ''270''
      else if orientation = SC_ORIENTATION_FLIP_0 then ''flip0''
      else if orientation = SC_ORIENTATION_FLIP_90 then ''flip90''
      else if orientation = SC_ORIENTATION_FLIP_180 then ''flip180''
      else if orientation = SC_ORIENTATION_FLIP_270 then ''flip270''
      else ''(unknown)'')"

section \<open>Orientations as transformations\<close>

text \<open>What an orientation does to a vector of the picture: x to the right, y downwards.\<close>

definition hflip :: "int \<times> int \<Rightarrow> int \<times> int" where
  "hflip = (\<lambda>(x, y). (- x, y))"

definition rotate90 :: "int \<times> int \<Rightarrow> int \<times> int" where
  "rotate90 = (\<lambda>(x, y). (- y, x))"

definition act :: "u32 \<Rightarrow> int \<times> int \<Rightarrow> int \<times> int" where
  "act orientation p =
     (rotate90 ^^ unat (orientation AND 3)) (if orientation AND 4 \<noteq> 0 then hflip p else p)"

definition orientation_ok :: "u32 \<Rightarrow> bool" where
  "orientation_ok orientation \<longleftrightarrow> orientation < 8"

lemma orientation_cases:
  assumes "orientation_ok n"
  shows "n \<in> {0, 1, 2, 3, 4, 5, 6, 7}"
proof -
  have "unat n < unat (8 :: u32)" using assms unfolding orientation_ok_def by (simp only: word_less_nat_alt)
  moreover have "n = of_nat (unat n)" by simp
  ultimately obtain k where k: "n = of_nat k" "k < 8" using that [of "unat n"] by simp
  from k(2) have "k \<in> {0, 1, 2, 3, 4, 5, 6, 7}" by auto
  with k(1) show ?thesis by auto
qed

lemma rotations:
  "rotate90 (x, y) = (- y, x)" "(rotate90 ^^ 2) (x, y) = (- x, - y)" "(rotate90 ^^ 3) (x, y) = (y, - x)"
  by (simp_all add: numeral_eq_Suc rotate90_def)

lemma act_values:
  "act 0 (x, y) = (x, y)" "act 1 (x, y) = (- y, x)" "act 2 (x, y) = (- x, - y)" "act 3 (x, y) = (y, - x)"
  "act 4 (x, y) = (- x, y)" "act 5 (x, y) = (- y, - x)" "act 6 (x, y) = (x, - y)" "act 7 (x, y) = (y, x)"
  by (simp_all add: act_def hflip_def rotations)

text \<open>C31. \<^verbatim>\<open>sc_orientation_apply\<close> composes orientations: for every two orientations it returns the orientation whose
  effect on the picture is that of the first followed by that of the second, and orientations with the same
  effect are equal, so that the result is the only right one.\<close>

theorem orientation_apply_composes:
  assumes "orientation_ok a" "orientation_ok b"
  shows "\<exists>c. sc_orientation_apply a b = Some c \<and> orientation_ok c \<and> act c = act b \<circ> act a \<and>
    (\<forall>d. orientation_ok d \<longrightarrow> act d = act b \<circ> act a \<longrightarrow> d = c)"
proof -
  have inj: "d = c" if "act d = act c" "orientation_ok d" "orientation_ok c" for c d
    using orientation_cases [OF that(2)] orientation_cases [OF that(3)] fun_cong [OF that(1), of "(1, 2)"]
    by (elim insertE emptyE) (simp_all add: act_values)
  have "\<exists>c. sc_orientation_apply a b = Some c \<and> orientation_ok c \<and> act c = act b \<circ> act a"
    using orientation_cases [OF assms(1)] orientation_cases [OF assms(2)]
    by (elim insertE emptyE)
      (simp_all add: sc_orientation_apply_def orientation_ok_def fun_eq_iff act_values)
  with inj show ?thesis by metis
qed

theorem orientation_apply_composes_witness:
  "\<exists>c. sc_orientation_apply SC_ORIENTATION_90 SC_ORIENTATION_FLIP_0 = Some c \<and>
    act c = act SC_ORIENTATION_FLIP_0 \<circ> act SC_ORIENTATION_90"
  using orientation_apply_composes [of SC_ORIENTATION_90 SC_ORIENTATION_FLIP_0]
  by (auto simp: orientation_ok_def orientation_defs)

text \<open>The names of the orientations are distinct.\<close>

lemma orientation_name_inj:
  assumes "orientation_ok a" "orientation_ok b" "sc_orientation_get_name a = sc_orientation_get_name b"
  shows "a = b"
  using orientation_cases [OF assms(1)] orientation_cases [OF assms(2)] assms(3)
  by (elim insertE emptyE) (simp_all add: sc_orientation_get_name_def orientation_defs)

end
