(* ===== verification/ScreenGeometry.thy ===== *)
theory ScreenGeometry
  imports Orientation Binary
begin

text \<open>
  The geometry of the window in \<^verbatim>\<open>app/src/screen.c\<close>: the optimal window size, the rectangle of the content in the
  window, and the conversion of window coordinates to frame coordinates. Sizes keep their width; a division by
  zero and a conversion out of the range of the target is \<open>None\<close>. A float is its rational value; the operations
  that may round apply the parameter \<open>rnd\<close>, the others are exact at these magnitudes.
\<close>

section \<open>Sizes\<close>

definition get_oriented_size :: "sc_size \<Rightarrow> u32 \<Rightarrow> sc_size option" where
  "get_oriented_size s orientation = do {
     swap \<leftarrow> sc_orientation_is_swap orientation;
     Some (if swap then \<lparr>width = height s, height = width s\<rparr>
           else \<lparr>width = width s, height = height s\<rparr>)
   }"

definition c_div :: "u32 \<Rightarrow> u32 \<Rightarrow> u32 option" where
  "c_div a b = (if b = 0 then None else Some (a div b))"

definition DISPLAY_MARGINS :: int where "DISPLAY_MARGINS = 96"

text \<open>\<open>display\<close> is the size SDL reports for the usable bounds of the primary display, if it does.\<close>

definition get_preferred_display_bounds :: "(int \<times> int) option \<Rightarrow> sc_size option" where
  "get_preferred_display_bounds display =
     map_option (\<lambda>(w, h). \<lparr>width = of_int (max 0 (w - DISPLAY_MARGINS)),
                            height = of_int (max 0 (h - DISPLAY_MARGINS))\<rparr>) display"

definition is_optimal_size :: "sc_size \<Rightarrow> sc_size \<Rightarrow> bool option" where
  "is_optimal_size current_size content_size = do {
     q \<leftarrow> c_div (ucast (width current_size) * ucast (height content_size)) (ucast (width content_size));
     if ucast (height current_size) = q then Some True
     else do {
       q \<leftarrow> c_div (ucast (height current_size) * ucast (width content_size)) (ucast (height content_size));
       Some (ucast (width current_size) = q)
     }
   }"

definition get_optimal_size :: "(int \<times> int) option \<Rightarrow> sc_size \<Rightarrow> sc_size \<Rightarrow> bool \<Rightarrow> sc_size option" where
  "get_optimal_size display current_size content_size within_display_bounds =
     (if width content_size = 0 \<or> height content_size = 0 then Some current_size
      else do {
        let window_size =
          (case (if within_display_bounds then get_preferred_display_bounds display else None) of
             None \<Rightarrow> current_size
           | Some display_size \<Rightarrow>
               \<lparr>width = min (width current_size) (width display_size),
                height = min (height current_size) (height display_size)\<rparr>);
        optimal \<leftarrow> is_optimal_size window_size content_size;
        if optimal then Some window_size
        else do {
          let keep_width = ((ucast (width content_size) * ucast (height window_size) :: u32)
                          > ucast (height content_size) * ucast (width window_size));
          if keep_width then do {
            q \<leftarrow> c_div (ucast (height content_size) * ucast (width window_size)) (ucast (width content_size));
            Some (window_size\<lparr>height := ucast q\<rparr>)
          } else do {
            q \<leftarrow> c_div (ucast (width content_size) * ucast (height window_size)) (ucast (height content_size));
            Some (window_size\<lparr>width := ucast q\<rparr>)
          }
        }
      })"

definition get_initial_optimal_size ::
  "(int \<times> int) option \<Rightarrow> sc_size \<Rightarrow> u16 \<Rightarrow> u16 \<Rightarrow> sc_size option" where
  "get_initial_optimal_size display content_size req_width req_height =
     (if req_width = 0 \<and> req_height = 0 then get_optimal_size display content_size content_size True
      else do {
        w \<leftarrow> (if req_width \<noteq> 0 then Some req_width
              else map_option ucast (c_div (ucast req_height * ucast (width content_size)) (ucast (height content_size))));
        h \<leftarrow> (if req_height \<noteq> 0 then Some req_height
              else map_option ucast (c_div (ucast req_width * ucast (height content_size)) (ucast (width content_size))));
        Some \<lparr>width = w, height = h\<rparr>
      })"

section \<open>The content in the window\<close>

datatype sc_render_fit =
    SC_RENDER_FIT_AUTO | SC_RENDER_FIT_LETTERBOX | SC_RENDER_FIT_STRETCHED | SC_RENDER_FIT_UNSCALED

record SDL_FRect =
  rect_x :: rat
  rect_y :: rat
  rect_w :: rat
  rect_h :: rat

abbreviation num :: "u16 \<Rightarrow> rat" where
  "num n \<equiv> of_nat (unat n)"

definition compute_content_rect ::
  "(rat \<Rightarrow> rat) \<Rightarrow> sc_size \<Rightarrow> sc_size \<Rightarrow> bool \<Rightarrow> sc_render_fit \<Rightarrow> SDL_FRect option" where
  "compute_content_rect rnd window_size content_size is_icon render_fit =
     (let ww = num (width window_size); wh = num (height window_size);
          cw = num (width content_size); ch = num (height content_size) in
      if is_icon \<and> width content_size \<le> width window_size \<and> height content_size \<le> height window_size
      then Some \<lparr>rect_x = (ww - cw) / 2, rect_y = (wh - ch) / 2, rect_w = cw, rect_h = ch\<rparr>
      else if \<not> is_icon \<and> render_fit = SC_RENDER_FIT_UNSCALED
      then Some \<lparr>rect_x = max 0 ((ww - cw) / 2), rect_y = max 0 ((wh - ch) / 2), rect_w = cw, rect_h = ch\<rparr>
      else if \<not> is_icon \<and> render_fit = SC_RENDER_FIT_STRETCHED
      then Some \<lparr>rect_x = 0, rect_y = 0, rect_w = ww, rect_h = wh\<rparr>
      else do {
        c_assert (is_icon \<or> render_fit = SC_RENDER_FIT_LETTERBOX);
        optimal \<leftarrow> is_optimal_size window_size content_size;
        if optimal then Some \<lparr>rect_x = 0, rect_y = 0, rect_w = ww, rect_h = wh\<rparr>
        else do {
          let keep_width = ((ucast (width content_size) * ucast (height window_size) :: u32)
                          > ucast (height content_size) * ucast (width window_size));
          if keep_width then do {
            let h = rnd (rnd (ww * ch) / cw);
            Some \<lparr>rect_x = 0, rect_y = rnd (wh - h) / 2, rect_w = ww, rect_h = h\<rparr>
          } else do {
            let w = rnd (rnd (wh * cw) / ch);
            Some \<lparr>rect_x = rnd (ww - w) / 2, rect_y = 0, rect_w = w, rect_h = wh\<rparr>
          }
        }
      })"

section \<open>From the window to the frame\<close>

definition to_int32 :: "rat \<Rightarrow> int option" where
  "to_int32 z = (if - (2 ^ 31) \<le> trunc_rat z \<and> trunc_rat z < 2 ^ 31 then Some (trunc_rat z) else None)"

text \<open>The \<^verbatim>\<open>switch\<close> over the orientations.\<close>

definition unorient :: "u32 \<Rightarrow> int \<Rightarrow> int \<Rightarrow> int \<times> int \<Rightarrow> (int \<times> int) option" where
  "unorient orientation w h p =
     (let (x, y) = p in
      if orientation = SC_ORIENTATION_0 then Some (x, y)
      else if orientation = SC_ORIENTATION_90 then Some (y, w - x)
      else if orientation = SC_ORIENTATION_180 then Some (w - x, h - y)
      else if orientation = SC_ORIENTATION_270 then Some (h - y, x)
      else if orientation = SC_ORIENTATION_FLIP_0 then Some (w - x, y)
      else if orientation = SC_ORIENTATION_FLIP_90 then Some (h - y, w - x)
      else if orientation = SC_ORIENTATION_FLIP_180 then Some (x, h - y)
      else do { c_assert (orientation = SC_ORIENTATION_FLIP_270); Some (y, x) })"

text \<open>The first cast is to \<^verbatim>\<open>int64_t\<close>, then the product is exact, converted to a float and divided.\<close>

definition scale_coord :: "(rat \<Rightarrow> rat) \<Rightarrow> int \<Rightarrow> rat \<Rightarrow> int \<Rightarrow> rat \<Rightarrow> int option" where
  "scale_coord rnd x origin full len =
     to_int32 (rnd (rnd (of_int (trunc_rat (rnd (rnd (of_int x) - origin)) * full)) / len))"

definition sc_screen_convert_window_to_frame_coords ::
  "(rat \<Rightarrow> rat) \<Rightarrow> u32 \<Rightarrow> sc_size \<Rightarrow> SDL_FRect \<Rightarrow> int \<Rightarrow> int \<Rightarrow> (int \<times> int) option" where
  "sc_screen_convert_window_to_frame_coords rnd orientation content_size rect x y = do {
     let w = int (unat (width content_size));
     let h = int (unat (height content_size));
     c_assert (rect_w rect \<noteq> 0 \<and> rect_h rect \<noteq> 0);
     x \<leftarrow> scale_coord rnd x (rect_x rect) w (rect_w rect);
     y \<leftarrow> scale_coord rnd y (rect_y rect) h (rect_h rect);
     unorient orientation w h (x, y)
   }"

section \<open>Optimal sizes\<close>

lemma unat16: "unat (a :: u16) < 65536" "unat (ucast a :: u32) = unat a"
proof -
  show "unat a < 65536" using unsigned_less [of a, where 'a = nat] by simp
  then show "unat (ucast a :: u32) = unat a" by (simp add: unsigned_ucast_eq take_bit_nat_eq_self)
qed

lemma product16: "unat (ucast (a :: u16) * ucast (b :: u16) :: u32) = unat a * unat b"
proof -
  have "unat a * unat b \<le> 65535 * 65535"
    using unat16(1) [of a] unat16(1) [of b] by (intro mult_le_mono) simp_all
  then show ?thesis by (simp add: unat_word_ariths unat16(2))
qed

lemma ucast_eq_iff: "ucast (h :: u16) = (q :: u32) \<longleftrightarrow> unat h = unat q"
  by (simp only: word_unat_eq_iff unat16(2))

lemma c_div16:
  assumes "c \<noteq> 0"
  shows "\<exists>q. c_div (ucast (a :: u16) * ucast (b :: u16)) (ucast (c :: u16)) = Some q \<and>
    unat q = unat a * unat b div unat c"
proof -
  have "(ucast c :: u32) \<noteq> 0" using assms unat16(2) [of c] by (metis unat_eq_zero)
  then show ?thesis by (simp add: c_div_def unat_div product16 unat16(2))
qed

definition optimal :: "nat \<Rightarrow> nat \<Rightarrow> nat \<Rightarrow> nat \<Rightarrow> bool" where
  "optimal w h cw ch \<longleftrightarrow> h = w * ch div cw \<or> w = h * cw div ch"

lemma is_optimal_size_eq:
  assumes "width con \<noteq> 0" "height con \<noteq> 0"
  shows "is_optimal_size cur con =
    Some (optimal (unat (width cur)) (unat (height cur)) (unat (width con)) (unat (height con)))"
proof -
  obtain q where "c_div (ucast (width cur) * ucast (height con)) (ucast (width con)) = Some q"
    "unat q = unat (width cur) * unat (height con) div unat (width con)"
    using c_div16 [OF assms(1)] by blast
  moreover obtain r where "c_div (ucast (height cur) * ucast (width con)) (ucast (height con)) = Some r"
    "unat r = unat (height cur) * unat (width con) div unat (height con)"
    using c_div16 [OF assms(2)] by blast
  ultimately show ?thesis by (auto simp: is_optimal_size_def optimal_def ucast_eq_iff)
qed

lemma shrink_to_optimal:
  fixes q :: u32
  assumes "unat q = unat a * unat b div unat c" "unat a * unat b \<le> unat c * unat d" "(c :: u16) \<noteq> 0"
  shows "unat (ucast q :: u16) = unat (a :: u16) * unat (b :: u16) div unat c" "ucast q \<le> (d :: u16)"
proof -
  have "unat c > 0" using assms(3) unat_eq_zero [of c] by blast
  then have "unat q \<le> unat d"
    unfolding assms(1) using div_le_mono [OF assms(2), of "unat c"] by simp
  moreover from this have "unat (ucast q :: u16) = unat q"
    using unat16(1) [of d] by (simp add: unsigned_ucast_eq take_bit_nat_eq_self)
  ultimately show "unat (ucast q :: u16) = unat a * unat b div unat c" "ucast q \<le> d"
    using assms(1) by (simp_all add: word_le_nat_alt)
qed

definition constrained :: "(int \<times> int) option \<Rightarrow> sc_size \<Rightarrow> bool \<Rightarrow> sc_size" where
  "constrained display s bounded =
     (case (if bounded then get_preferred_display_bounds display else None) of
        None \<Rightarrow> s
      | Some d \<Rightarrow> \<lparr>width = min (width s) (width d), height = min (height s) (height d)\<rparr>)"

lemma optimal_size_fits:
  assumes "width con \<noteq> 0" "height con \<noteq> 0"
  shows "\<exists>r. get_optimal_size display cur con bounded = Some r \<and>
    width r \<le> width (constrained display cur bounded) \<and> height r \<le> height (constrained display cur bounded) \<and>
    (width r = width (constrained display cur bounded) \<or> height r = height (constrained display cur bounded)) \<and>
    is_optimal_size r con = Some True"
proof -
  define w where "w = constrained display cur bounded"
  have e: "get_optimal_size display cur con bounded =
    (if optimal (unat (width w)) (unat (height w)) (unat (width con)) (unat (height con)) then Some w
     else if unat (width con) * unat (height w) > unat (height con) * unat (width w) then
       map_option (\<lambda>q. w\<lparr>height := ucast q\<rparr>) (c_div (ucast (height con) * ucast (width w)) (ucast (width con)))
     else
       map_option (\<lambda>q. w\<lparr>width := ucast q\<rparr>) (c_div (ucast (width con) * ucast (height w)) (ucast (height con))))"
    using assms
    by (simp add: get_optimal_size_def is_optimal_size_eq word_less_nat_alt product16 Let_def map_conv_bind_option comp_def
        constrained_def flip: w_def [unfolded constrained_def])
  show ?thesis unfolding w_def [symmetric]
  proof (cases "optimal (unat (width w)) (unat (height w)) (unat (width con)) (unat (height con))")
    case True
    then show "\<exists>r. get_optimal_size display cur con bounded = Some r \<and> width r \<le> width w \<and> height r \<le> height w \<and>
      (width r = width w \<or> height r = height w) \<and> is_optimal_size r con = Some True"
      using assms by (simp add: e is_optimal_size_eq)
  next
    case not_optimal: False
    show "\<exists>r. get_optimal_size display cur con bounded = Some r \<and> width r \<le> width w \<and> height r \<le> height w \<and>
      (width r = width w \<or> height r = height w) \<and> is_optimal_size r con = Some True"
    proof (cases "unat (width con) * unat (height w) > unat (height con) * unat (width w)")
      case True
      obtain q where q: "c_div (ucast (height con) * ucast (width w)) (ucast (width con)) = Some q"
        "unat q = unat (height con) * unat (width w) div unat (width con)"
        using c_div16 [OF assms(1)] by blast
      from shrink_to_optimal [OF q(2) less_imp_le [OF True] assms(1)] not_optimal True q(1) show ?thesis
        using assms by (simp add: e is_optimal_size_eq optimal_def mult.commute)
    next
      case False
      obtain q where q: "c_div (ucast (width con) * ucast (height w)) (ucast (height con)) = Some q"
        "unat q = unat (width con) * unat (height w) div unat (height con)"
        using c_div16 [OF assms(2)] by blast
      from shrink_to_optimal [OF q(2) leI [OF False] assms(2)] not_optimal False q(1) show ?thesis
        using assms by (simp add: e is_optimal_size_eq optimal_def mult.commute)
    qed
  qed
qed

text \<open>The optimal window size: for any content that is not empty, it never exceeds the current size nor, when
  asked to, the usable area of the display; it keeps one dimension of the constrained size; and it is optimal
  for the content, that is the black borders are gone. No 32-bit product wraps and no result is truncated.\<close>

theorem optimal_size_correct:
  assumes "width con \<noteq> 0" "height con \<noteq> 0"
  shows "\<exists>r. get_optimal_size display cur con bounded = Some r \<and>
    width r \<le> width (constrained display cur bounded) \<and> height r \<le> height (constrained display cur bounded) \<and>
    (width r = width (constrained display cur bounded) \<or> height r = height (constrained display cur bounded)) \<and>
    is_optimal_size r con = Some True"
  by (rule optimal_size_fits [OF assms])

theorem optimal_size_correct_witness:
  "\<exists>r. get_optimal_size (Some (1920, 1080)) \<lparr>width = 1080, height = 2400\<rparr> \<lparr>width = 1080, height = 2400\<rparr> True = Some r \<and>
    is_optimal_size r \<lparr>width = 1080, height = 2400\<rparr> = Some True"
  using optimal_size_correct [of "\<lparr>width = 1080, height = 2400\<rparr>" "Some (1920, 1080)"
    "\<lparr>width = 1080, height = 2400\<rparr>" True] by auto

section \<open>Coordinates\<close>

text \<open>What is needed of the rounding of single-precision floats: integers of up to 24 bits are exact, the
  error is at most one unit in the last place, or one unit of the smallest positive float, and the sign does not matter.\<close>

definition float_rounding :: "(rat \<Rightarrow> rat) \<Rightarrow> bool" where
  "float_rounding rnd \<longleftrightarrow> (\<forall>n. \<bar>n\<bar> \<le> 2 ^ 24 \<longrightarrow> rnd (of_int n) = of_int n) \<and> (\<forall>z. rnd (- z) = - rnd z) \<and>
     (\<forall>z. 0 \<le> z \<longrightarrow> 0 \<le> rnd z \<and> rnd z \<le> z * (1 + 1 / 2 ^ 23) + 1 / 2 ^ 149)"

lemma round_up:
  assumes "float_rounding rnd" "0 \<le> z" "z \<le> b" "1 \<le> b"
  shows "0 \<le> rnd z" "rnd z \<le> b * (1 + 1 / 2 ^ 22)"
proof -
  from assms(1,2) have r: "0 \<le> rnd z" "rnd z \<le> z * (1 + 1 / 2 ^ 23) + 1 / 2 ^ 149"
    by (simp_all add: float_rounding_def)
  show "0 \<le> rnd z" by (rule r(1))
  have "z * (1 + 1 / 2 ^ 23) \<le> b * (1 + 1 / 2 ^ 23)" using assms(3) by (intro mult_right_mono) simp_all
  moreover have "(1 / 2 ^ 149 :: rat) \<le> 1 / 2 ^ 23" by (intro divide_left_mono power_increasing) simp_all
  moreover have "(1 / 2 ^ 23 :: rat) \<le> b * (1 / 2 ^ 23)" using assms(4) by simp
  moreover have "b * (1 + 1 / 2 ^ 22) = b * (1 + 1 / 2 ^ 23) + b * (1 / 2 ^ 23)" by (simp add: field_simps)
  ultimately show "rnd z \<le> b * (1 + 1 / 2 ^ 22)" using r(2) by linarith
qed

lemma scale_coord_bounds:
  assumes "float_rounding rnd" "\<bar>x\<bar> \<le> 2 ^ 24" "origin \<le> of_int x" "of_int x + 1 \<le> origin + len" "len \<le> 2 ^ 16"
    "1 \<le> full" "full < 65536"
  shows "\<exists>n. scale_coord rnd x origin full len = Some n \<and> 0 \<le> n \<and> n < full"
proof -
  let ?k = "1 + 1 / 2 ^ 22 :: rat" and ?f = "of_int full :: rat"
  define a where "a = rnd (rnd (of_int x) - origin)"
  define t where "t = trunc_rat a"
  define b where "b = rnd (of_int (t * full))"
  define c where "c = rnd (b / len)"
  have len: "1 \<le> len" using assms(3,4) by linarith
  have up: "0 \<le> rnd z \<and> rnd z \<le> z * ?k + 1 / 2 ^ 60" if "0 \<le> z" for z
  proof -
    have "z * (1 + 1 / 2 ^ 23) \<le> z * ?k" using that by (intro mult_left_mono) simp_all
    moreover have "(1 / 2 ^ 149 :: rat) \<le> 1 / 2 ^ 60" by simp
    ultimately show ?thesis using assms(1) that unfolding float_rounding_def by (meson add_mono order_trans)
  qed
  have "rnd (of_int x) = of_int x" using assms(1,2) by (simp add: float_rounding_def)
  then have a: "0 \<le> a" "a \<le> (of_int x - origin) * ?k + 1 / 2 ^ 60"
    using up [of "of_int x - origin"] assms(3) unfolding a_def by simp_all
  have "(of_int x - origin) * ?k \<le> (len - 1) * ?k" using assms(4) by (intro mult_right_mono) simp_all
  then have "a \<le> (len - 1) * ?k + 1 / 2 ^ 60" using a(2) by linarith
  moreover have t: "0 \<le> t" "of_int t \<le> a" using a(1) by (simp_all add: t_def trunc_rat_nonneg)
  ultimately have "of_int t \<le> (len - 1) * ?k + 1 / 2 ^ 60" by linarith
  also have "\<dots> \<le> len * (1 - 1 / 2 ^ 17)" using assms(5) by (simp add: field_simps)
  finally have t_len: "of_int t / len \<le> 1 - 1 / 2 ^ 17" using len by (simp add: pos_divide_le_eq mult.commute)
  have b: "0 \<le> b" "b \<le> of_int (t * full) * ?k + 1 / 2 ^ 60"
    using up [of "of_int (t * full)"] t(1) assms(6) unfolding b_def by simp_all
  have c: "0 \<le> c" "c \<le> b / len * ?k + 1 / 2 ^ 60"
    using up [of "b / len"] b(1) len unfolding c_def by simp_all
  have "b / len \<le> (of_int (t * full) * ?k + 1 / 2 ^ 60) / len" using b(2) len by (intro divide_right_mono) simp_all
  also have "\<dots> = of_int t / len * ?f * ?k + 1 / 2 ^ 60 / len" by (simp add: add_divide_distrib)
  also have "\<dots> \<le> (1 - 1 / 2 ^ 17) * ?f * ?k + 1 / 2 ^ 60"
    using t_len len assms(6) by (intro add_mono mult_right_mono) (simp_all add: divide_le_eq)
  finally have "b / len * ?k \<le> ((1 - 1 / 2 ^ 17) * ?f * ?k + 1 / 2 ^ 60) * ?k" by (intro mult_right_mono) simp_all
  then have "c \<le> ((1 - 1 / 2 ^ 17) * ?f * ?k + 1 / 2 ^ 60) * ?k + 1 / 2 ^ 60" using c(2) by linarith
  also have "\<dots> < ?f" using assms(6) by (simp add: algebra_simps)
  finally have "\<lfloor>c\<rfloor> < full" by (simp add: floor_less_iff)
  moreover have "0 \<le> \<lfloor>c\<rfloor>" using c(1) by simp
  moreover have "\<lfloor>c\<rfloor> < 2 ^ 31" 
    by (rule less_trans [OF \<open>\<lfloor>c\<rfloor> < full\<close>]) (use assms(7) in simp)
  moreover have "scale_coord rnd x origin full len = to_int32 c"
    by (simp add: scale_coord_def c_def b_def t_def a_def)
  ultimately show ?thesis using c(1) by (simp add: to_int32_def trunc_rat_nonneg del: floor_less_numeral)
qed

lemma rounded_abs:
  assumes "float_rounding rnd" "\<bar>z\<bar> \<le> b" "1 \<le> b"
  shows "\<bar>rnd z\<bar> \<le> b * (1 + 1 / 2 ^ 22)"
proof (cases "0 \<le> z")
  case True
  with round_up [OF assms(1) True _ assms(3)] assms(2) show ?thesis by simp
next
  case False
  then have "0 \<le> rnd (- z)" "rnd (- z) \<le> b * (1 + 1 / 2 ^ 22)"
    using round_up [OF assms(1), of "- z" b] assms(2,3) by simp_all
  moreover have "rnd (- z) = - rnd z" using assms(1) by (simp add: float_rounding_def)
  ultimately show ?thesis by simp
qed

text \<open>A point less than \<open>2^14\<close> pixels away from the content also converts, when the content is at least one pixel large.\<close>

lemma scale_coord_near:
  assumes "float_rounding rnd" "\<bar>x\<bar> \<le> 2 ^ 24" "\<bar>of_int x - origin\<bar> \<le> 2 ^ 14 + 1" "1 \<le> len" "0 \<le> full" "full < 65536"
  shows "scale_coord rnd x origin full len \<noteq> None"
proof -
  let ?k = "1 + 1 / 2 ^ 22 :: rat"
  define t where "t = trunc_rat (rnd (rnd (of_int x) - origin))"
  define b where "b = rnd (of_int (t * full))"
  define c where "c = rnd (b / len)"
  have "rnd (of_int x) = of_int x" using assms(1,2) by (simp add: float_rounding_def)
  then have "\<bar>rnd (rnd (of_int x) - origin)\<bar> \<le> (2 ^ 14 + 1) * ?k" using rounded_abs [OF assms(1,3)] by simp
  then have t: "\<bar>of_int t\<bar> \<le> (2 ^ 14 + 1) * ?k" unfolding t_def using trunc_rat_bounds(2) order_trans by blast
  have "\<bar>of_int (t * full)\<bar> = \<bar>of_int t\<bar> * (of_int full :: rat)" using assms(5) by (simp add: abs_mult)
  also have "\<dots> \<le> (2 ^ 14 + 1) * ?k * 65536" using t assms(5,6) by (intro mult_mono) auto
  finally have b: "\<bar>b\<bar> \<le> (2 ^ 14 + 1) * ?k * 65536 * ?k" unfolding b_def by (intro rounded_abs [OF assms(1)]) simp_all
  have "\<bar>b / len\<bar> \<le> \<bar>b\<bar>" using assms(4) divide_left_mono [of 1 len "\<bar>b\<bar>"] by (simp add: abs_divide)
  then have "\<bar>b / len\<bar> \<le> (2 ^ 14 + 1) * ?k * 65536 * ?k" using b by (rule order_trans)
  then have "\<bar>c\<bar> \<le> (2 ^ 14 + 1) * ?k * 65536 * ?k * ?k" unfolding c_def by (intro rounded_abs [OF assms(1)]) simp_all
  then have "\<bar>of_int (trunc_rat c) :: rat\<bar> \<le> (2 ^ 14 + 1) * ?k * 65536 * ?k * ?k" using trunc_rat_bounds(2) order_trans by blast
  also have "\<dots> < 2 ^ 31" by simp
  finally have "\<bar>trunc_rat c\<bar> < 2 ^ 31" by (simp flip: of_int_abs)
  then have "- (2 ^ 31) \<le> trunc_rat c \<and> trunc_rat c < 2 ^ 31" by linarith
  moreover have "scale_coord rnd x origin full len = to_int32 c" by (simp add: scale_coord_def c_def b_def t_def)
  ultimately show ?thesis by (simp add: to_int32_def)
qed

lemma unorient_total: "orientation_ok orientation \<Longrightarrow> unorient orientation w h p \<noteq> None"
  using orientation_cases [of orientation] by (cases p) (auto simp: unorient_def orientation_defs)

lemma convert_near:
  assumes "float_rounding rnd" "orientation_ok orientation" "1 \<le> rect_w rect" "1 \<le> rect_h rect"
    "\<bar>x\<bar> \<le> 2 ^ 24" "\<bar>of_int x - rect_x rect\<bar> \<le> 2 ^ 14 + 1" "\<bar>y\<bar> \<le> 2 ^ 24" "\<bar>of_int y - rect_y rect\<bar> \<le> 2 ^ 14 + 1"
  shows "sc_screen_convert_window_to_frame_coords rnd orientation con rect x y \<noteq> None"
proof -
  have lim: "int (unat (width con)) < 65536" "int (unat (height con)) < 65536"
    using unat16(1) [of "width con"] unat16(1) [of "height con"] by linarith+
  obtain u where u: "scale_coord rnd x (rect_x rect) (int (unat (width con))) (rect_w rect) = Some u"
    using scale_coord_near [OF assms(1,5,6,3) _ lim(1)] by auto
  obtain v where v: "scale_coord rnd y (rect_y rect) (int (unat (height con))) (rect_h rect) = Some v"
    using scale_coord_near [OF assms(1,7,8,4) _ lim(2)] by auto
  have "rect_w rect \<noteq> 0" "rect_h rect \<noteq> 0" using assms(3,4) by linarith+
  with u v unorient_total [OF assms(2), of "int (unat (width con))" "int (unat (height con))" "(u, v)"] show ?thesis
    by (auto simp: sc_screen_convert_window_to_frame_coords_def)
qed

text \<open>Where a pixel of the frame is shown in the content: the flip, then the rotations, each of which turns the picture by
  90 degrees clockwise and swaps its dimensions. The pixels of a row of \<open>w\<close> are numbered from 0 to \<open>w - 1\<close>.\<close>

definition pixel_turn :: "int \<times> int \<times> int \<times> int \<Rightarrow> int \<times> int \<times> int \<times> int" where
  "pixel_turn = (\<lambda>(x, y, w, h). (h - 1 - y, x, h, w))"

definition pixel_shown_at :: "u32 \<Rightarrow> int \<Rightarrow> int \<Rightarrow> int \<times> int \<Rightarrow> int \<times> int \<times> int \<times> int" where
  "pixel_shown_at orientation fw fh p =
     (pixel_turn ^^ unat (orientation AND 3))
       (if orientation AND 4 \<noteq> 0 then (fw - 1 - fst p, snd p, fw, fh) else (fst p, snd p, fw, fh))"

text \<open>The axes of the frame that are shown in the opposite direction.\<close>

definition mirrors_x :: "u32 \<Rightarrow> bool" where
  "mirrors_x orientation \<longleftrightarrow> orientation \<in> {SC_ORIENTATION_180, SC_ORIENTATION_270, SC_ORIENTATION_FLIP_0, SC_ORIENTATION_FLIP_90}"

definition mirrors_y :: "u32 \<Rightarrow> bool" where
  "mirrors_y orientation \<longleftrightarrow> orientation \<in> {SC_ORIENTATION_90, SC_ORIENTATION_180, SC_ORIENTATION_FLIP_90, SC_ORIENTATION_FLIP_180}"

lemma pixel_turns:
  "pixel_turn (x, y, w, h) = (h - 1 - y, x, h, w)" "(pixel_turn ^^ 2) (x, y, w, h) = (w - 1 - x, h - 1 - y, w, h)"
  "(pixel_turn ^^ 3) (x, y, w, h) = (y, w - 1 - x, h, w)"
  by (simp_all add: numeral_eq_Suc pixel_turn_def)

lemma unorient_pixel:
  assumes "orientation_ok orientation" "get_oriented_size frame orientation = Some con"
  shows "\<exists>u v. unorient orientation (int (unat (width con))) (int (unat (height con))) (x, y) = Some (u, v) \<and>
    pixel_shown_at orientation (int (unat (width frame))) (int (unat (height frame)))
      (u - of_bool (mirrors_x orientation), v - of_bool (mirrors_y orientation)) =
      (x, y, int (unat (width con)), int (unat (height con)))"
  using orientation_cases [OF assms(1)] assms(2-)
  by (elim insertE emptyE)
    (auto simp: unorient_def orientation_defs get_oriented_size_def sc_orientation_is_swap_def pixel_shown_at_def pixel_turns
      mirrors_x_def mirrors_y_def)

lemma shown_pixel_inside:
  assumes "orientation_ok orientation" "pixel_shown_at orientation fw fh (u, v) = (x, y, w, h)" "0 \<le> x" "x < w" "0 \<le> y" "y < h"
  shows "0 \<le> u \<and> u < fw \<and> 0 \<le> v \<and> v < fh"
  using orientation_cases [OF assms(1)] assms(2-)
  by (elim insertE emptyE) (auto simp: pixel_shown_at_def pixel_turns orientation_defs)

lemma oriented_nonzero:
  assumes "get_oriented_size frame orientation = Some con" "width frame \<noteq> 0" "height frame \<noteq> 0"
  shows "width con \<noteq> 0" "height con \<noteq> 0"
proof -
  obtain b where "con = (if b then \<lparr>width = height frame, height = width frame\<rparr>
      else \<lparr>width = width frame, height = height frame\<rparr>)"
    using assms(1) unfolding get_oriented_size_def bind_Some_iff by blast
  with assms(2,3) show "width con \<noteq> 0" "height con \<noteq> 0" by simp_all
qed

text \<open>The points of the window that lie on a pixel of the content: the content is between 1 and \<open>2^16\<close> pixels large and the
  pixel does not stick out of it.\<close>

definition in_content :: "SDL_FRect \<Rightarrow> int \<Rightarrow> int \<Rightarrow> bool" where
  "in_content rect x y \<longleftrightarrow> \<bar>x\<bar> \<le> 2 ^ 24 \<and> \<bar>y\<bar> \<le> 2 ^ 24 \<and> rect_w rect \<le> 2 ^ 16 \<and> rect_h rect \<le> 2 ^ 16 \<and>
     rect_x rect \<le> of_int x \<and> of_int x + 1 \<le> rect_x rect + rect_w rect \<and>
     rect_y rect \<le> of_int y \<and> of_int y + 1 \<le> rect_y rect + rect_h rect"

text \<open>C30. Clicks hit the right pixel: for a window pixel inside the content rectangle (at most \<open>2^16\<close> pixels large), a
  frame that is not empty, any of the eight orientations and floats that round correctly, the conversion succeeds, the scaled
  coordinates are those of a pixel of the content, and the result is the pixel of the frame that is shown there: exactly along an
  axis that the orientation does not mirror, and up to one pixel along one that it mirrors (where the code gives the
  next pixel, which may be one past the last, see \<open>mirrored_axis_off_by_one\<close>).\<close>

theorem window_to_frame_coords:
  assumes "float_rounding rnd" "orientation_ok orientation" "get_oriented_size frame orientation = Some con"
    "width frame \<noteq> 0" "height frame \<noteq> 0" "in_content rect x y"
  shows "\<exists>u v sx sy du dv. sc_screen_convert_window_to_frame_coords rnd orientation con rect x y = Some (u, v) \<and>
    scale_coord rnd x (rect_x rect) (int (unat (width con))) (rect_w rect) = Some sx \<and>
    scale_coord rnd y (rect_y rect) (int (unat (height con))) (rect_h rect) = Some sy \<and>
    0 \<le> sx \<and> sx < int (unat (width con)) \<and> 0 \<le> sy \<and> sy < int (unat (height con)) \<and>
    du \<in> (if mirrors_x orientation then {0, 1} else {0}) \<and> dv \<in> (if mirrors_y orientation then {0, 1} else {0}) \<and>
    0 \<le> u - du \<and> u - du < int (unat (width frame)) \<and> 0 \<le> v - dv \<and> v - dv < int (unat (height frame)) \<and>
    pixel_shown_at orientation (int (unat (width frame))) (int (unat (height frame))) (u - du, v - dv) =
      (sx, sy, int (unat (width con)), int (unat (height con)))"
proof -
  note p = assms(6) [unfolded in_content_def]
  have "width con \<noteq> 0" "height con \<noteq> 0" by (rule oriented_nonzero [OF assms(3-5)])+
  then have pos: "1 \<le> int (unat (width con))" "1 \<le> int (unat (height con))"
    using unat_eq_zero [of "width con"] unat_eq_zero [of "height con"] by linarith+
  have lim: "int (unat (width con)) < 65536" "int (unat (height con)) < 65536"
    using unat16(1) [of "width con"] unat16(1) [of "height con"] by linarith+
  obtain sx where sx: "scale_coord rnd x (rect_x rect) (int (unat (width con))) (rect_w rect) = Some sx"
    "0 \<le> sx" "sx < int (unat (width con))"
    using scale_coord_bounds [OF assms(1) _ _ _ _ pos(1) lim(1)] p by blast
  obtain sy where sy: "scale_coord rnd y (rect_y rect) (int (unat (height con))) (rect_h rect) = Some sy"
    "0 \<le> sy" "sy < int (unat (height con))"
    using scale_coord_bounds [OF assms(1) _ _ _ _ pos(2) lim(2)] p by blast
  from unorient_pixel [OF assms(2,3), of sx sy] obtain u v where
    uv: "unorient orientation (int (unat (width con))) (int (unat (height con))) (sx, sy) = Some (u, v)"
    "pixel_shown_at orientation (int (unat (width frame))) (int (unat (height frame)))
      (u - of_bool (mirrors_x orientation), v - of_bool (mirrors_y orientation)) =
      (sx, sy, int (unat (width con)), int (unat (height con)))" by blast
  have "rect_w rect \<noteq> 0" "rect_h rect \<noteq> 0" using p by linarith+
  then have c: "sc_screen_convert_window_to_frame_coords rnd orientation con rect x y = Some (u, v)"
    using uv(1) sx(1) sy(1) by (simp add: sc_screen_convert_window_to_frame_coords_def)
  have range: "0 \<le> u - of_bool (mirrors_x orientation) \<and> u - of_bool (mirrors_x orientation) < int (unat (width frame)) \<and>
      0 \<le> v - of_bool (mirrors_y orientation) \<and> v - of_bool (mirrors_y orientation) < int (unat (height frame))"
    using shown_pixel_inside [OF assms(2) uv(2)] sx(2,3) sy(2,3) by simp
  show ?thesis
    by (rule exI [of _ u], rule exI [of _ v], rule exI [of _ sx], rule exI [of _ sy],
        rule exI [of _ "of_bool (mirrors_x orientation)"], rule exI [of _ "of_bool (mirrors_y orientation)"])
      (use c sx sy uv(2) range in simp)
qed

theorem window_to_frame_coords_witness:
  "\<exists>u v dv. sc_screen_convert_window_to_frame_coords (\<lambda>z. z) SC_ORIENTATION_90 \<lparr>width = 2400, height = 1080\<rparr>
     \<lparr>rect_x = 0, rect_y = 30, rect_w = 1200, rect_h = 540\<rparr> 10 40 = Some (u, v) \<and> dv \<in> {0, 1} \<and>
     pixel_shown_at SC_ORIENTATION_90 1080 2400 (u, v - dv) = (20, 20, 2400, 1080)"
proof -
  have r: "float_rounding (\<lambda>z. z)" by (simp add: float_rounding_def)
  have o1: "orientation_ok SC_ORIENTATION_90"
    "get_oriented_size \<lparr>width = 1080, height = 2400\<rparr> SC_ORIENTATION_90 = Some \<lparr>width = 2400, height = 1080\<rparr>"
    by (simp_all add: orientation_ok_def get_oriented_size_def sc_orientation_is_swap_def SC_ORIENTATION_90_def)
  have m: "\<not> mirrors_x SC_ORIENTATION_90" "mirrors_y SC_ORIENTATION_90" by (simp_all add: mirrors_x_def mirrors_y_def orientation_defs)
  have i: "in_content \<lparr>rect_x = 0, rect_y = 30, rect_w = 1200, rect_h = 540\<rparr> 10 40" by (simp add: in_content_def)
  from window_to_frame_coords [OF r o1 _ _ i] m
  show ?thesis by (auto simp: scale_coord_def to_int32_def trunc_rat_def)
qed

text \<open>Along a mirrored axis the code is one pixel off, and the left edge of the content gives a column out of the frame.\<close>

lemma mirrored_axis_off_by_one:
  assumes "orientation_ok orientation" "get_oriented_size frame orientation = Some con"
  shows "\<exists>u v. unorient orientation (int (unat (width con))) (int (unat (height con))) (x, y) = Some (u, v) \<and>
    pixel_shown_at orientation (int (unat (width frame))) (int (unat (height frame)))
      (u - of_bool (mirrors_x orientation), v - of_bool (mirrors_y orientation)) =
      (x, y, int (unat (width con)), int (unat (height con)))"
    "unorient SC_ORIENTATION_FLIP_0 1080 2400 (0, 5) = Some (1080, 5)"
  using unorient_pixel [OF assms] by (simp_all add: unorient_def orientation_defs)

end
