(* ===== verification/ScreenWindow.thy ===== *)
theory ScreenWindow
  imports ScreenGeometry Controller
begin

text \<open>
  The window of \<^verbatim>\<open>app/src/screen.c\<close>: how it follows the size and the orientation of the content, and how it asks
  the device for another display size, from its first frame to the icon it shows after a disconnection. The window itself
  belongs to SDL: \<open>env\<close> is what SDL (and the allocations and threads an operation uses) reports during a
  call, and an operation gives the requests it makes, in order. \<open>rnd\<close> rounds floats.
\<close>

section \<open>State\<close>

record window_env =
  is_windowed :: bool
  is_fullscreen :: bool
  window_size :: sc_size
  window_x :: int
  window_y :: int
  display_bounds :: "(int \<times> int) option"
  tick_now :: int
  fullscreen_ok :: bool
  texture_ok :: bool
  frame_alloc_ok :: bool
  disconnect_ok :: bool
  continuous_resizing :: bool

datatype window_request =
    Set_aspect_ratio sc_size
  | Set_window_size sc_size
  | Set_window_position int int
  | Set_fullscreen bool
  | Show_window
  | Hide_window
  | Start_fps_counter
  | Capture_mouse
  | Render
  | Resize_display u16 u16
  | Interrupt_disconnect

record sc_resize_tracker =
  tracker_time :: int
  tracker_size :: sc_size

record screen_req =
  req_x :: "int option"
  req_y :: "int option"
  req_width :: u16
  req_height :: u16
  req_fullscreen :: bool
  req_start_fps_counter :: bool

record sc_window =
  win_video :: bool
  win_camera :: bool
  window_aspect_ratio_lock :: bool
  flex_display :: bool
  relative_mode :: bool
  win_req :: screen_req
  render_fit :: sc_render_fit
  frame_size :: sc_size
  content_size :: sc_size
  resize_pending :: bool
  windowed_content_size :: sc_size
  win_orientation :: u32
  win_rect :: SDL_FRect
  window_shown :: bool
  win_paused :: bool
  win_resume_frame :: "(int \<times> int) option"
  win_disconnected :: bool
  disconnect_started :: bool
  resize_tracker :: sc_resize_tracker

type_synonym win_result = "(sc_window \<times> window_request list) option"

section \<open>Operations\<close>

definition set_aspect_ratio :: "sc_window \<Rightarrow> sc_size \<Rightarrow> window_request list option" where
  "set_aspect_ratio screen s = do {
     c_assert (width s \<noteq> 0 \<and> height s \<noteq> 0);
     Some (if window_aspect_ratio_lock screen then [Set_aspect_ratio s] else [])
   }"

definition sc_screen_track_resize :: "window_env \<Rightarrow> sc_size \<Rightarrow> sc_window \<Rightarrow> sc_window" where
  "sc_screen_track_resize env s screen =
     screen\<lparr>resize_tracker := \<lparr>tracker_time = tick_now env, tracker_size = s\<rparr>\<rparr>"

definition sc_screen_update_content_rect :: "(rat \<Rightarrow> rat) \<Rightarrow> window_env \<Rightarrow> sc_window \<Rightarrow> sc_window option" where
  "sc_screen_update_content_rect rnd env screen = do {
     let is_icon = (\<not> win_video screen \<or> win_disconnected screen);
     rect \<leftarrow> compute_content_rect rnd (window_size env) (content_size screen) is_icon (render_fit screen);
     Some (screen\<lparr>win_rect := rect\<rparr>)
   }"

definition sc_screen_render :: "(rat \<Rightarrow> rat) \<Rightarrow> window_env \<Rightarrow> bool \<Rightarrow> sc_window \<Rightarrow> win_result" where
  "sc_screen_render rnd env update_content_rect screen = do {
     c_assert (window_shown screen);
     screen \<leftarrow> (if update_content_rect then sc_screen_update_content_rect rnd env screen else Some screen);
     Some (screen, [Render])
   }"

definition sc_screen_request_resize_display :: "u16 \<Rightarrow> u16 \<Rightarrow> sc_window \<Rightarrow> window_request list option" where
  "sc_screen_request_resize_display w h screen = do {
     c_assert (flex_display screen);
     c_assert (\<not> win_camera screen);
     swap \<leftarrow> sc_orientation_is_swap (win_orientation screen);
     Some [if swap then Resize_display h w else Resize_display w h]
   }"

text \<open>\<^verbatim>\<open>sc_screen_on_resize\<close> for the two window events it handles; \<open>d1\<close> and \<open>d2\<close> are the new size.\<close>

definition SC_TICK_FROM_MS :: "int \<Rightarrow> int" where
  "SC_TICK_FROM_MS ms = ms * 1000"

definition on_window_resized :: "window_env \<Rightarrow> int \<Rightarrow> int \<Rightarrow> sc_window \<Rightarrow> win_result" where
  "on_window_resized env d1 d2 screen =
     (if \<not> flex_display screen then Some (screen, [])
      else do {
        c_assert (0 \<le> d1 \<and> d1 \<le> 0xFFFF);
        c_assert (0 \<le> d2 \<and> d2 \<le> 0xFFFF);
        let w = of_int d1;
        let h = of_int d2;
        let tracker = resize_tracker screen;
        let tracker = (if tracker_time tracker \<noteq> 0 \<and> tick_now env \<ge> tracker_time tracker + SC_TICK_FROM_MS 3000
                       then tracker\<lparr>tracker_time := 0\<rparr> else tracker);
        if tracker_time tracker \<noteq> 0 \<and> width (tracker_size tracker) = w \<and> height (tracker_size tracker) = h
        then Some (screen\<lparr>resize_tracker := tracker\<lparr>tracker_time := 0\<rparr>\<rparr>, [])
        else do {
          let screen = screen\<lparr>resize_tracker := tracker\<rparr>;
          rs \<leftarrow> sc_screen_request_resize_display w h screen;
          Some (screen, rs)
        }
      })"

definition sc_screen_on_resize ::
  "(rat \<Rightarrow> rat) \<Rightarrow> window_env \<Rightarrow> (int \<times> int) option \<Rightarrow> sc_window \<Rightarrow> win_result" where
  "sc_screen_on_resize rnd env resized screen =
     (if \<not> window_shown screen then Some (screen, [])
      else case resized of
        None \<Rightarrow> sc_screen_render rnd env True screen
      | Some (d1, d2) \<Rightarrow> on_window_resized env d1 d2 screen)"

definition sc_screen_toggle_fullscreen :: "window_env \<Rightarrow> sc_window \<Rightarrow> window_request list option" where
  "sc_screen_toggle_fullscreen env screen = do {
     c_assert (win_video screen);
     Some (if fullscreen_ok env then [Set_fullscreen (\<not> is_fullscreen env)] else [])
   }"

definition sc_screen_show_initial_window :: "(rat \<Rightarrow> rat) \<Rightarrow> int \<Rightarrow> window_env \<Rightarrow> sc_window \<Rightarrow> win_result" where
  "sc_screen_show_initial_window rnd centered env screen = do {
     let x = (case req_x (win_req screen) of Some x \<Rightarrow> x | None \<Rightarrow> centered);
     let y = (case req_y (win_req screen) of Some y \<Rightarrow> y | None \<Rightarrow> centered);
     s \<leftarrow> get_initial_optimal_size (display_bounds env) (content_size screen)
            (req_width (win_req screen)) (req_height (win_req screen));
     let screen = (if flex_display screen \<and> width s = width (content_size screen)
                      \<and> height s = height (content_size screen)
                   then sc_screen_track_resize env s screen else screen);
     c_assert (is_windowed env);
     aspect \<leftarrow> set_aspect_ratio screen (content_size screen);
     full \<leftarrow> (if req_fullscreen (win_req screen) then sc_screen_toggle_fullscreen env screen else Some []);
     let fps = (if req_start_fps_counter (win_req screen) then [Start_fps_counter] else []);
     screen \<leftarrow> sc_screen_update_content_rect rnd env (screen\<lparr>window_shown := True\<rparr>);
     Some (screen, aspect @ [Set_window_size s, Set_window_position x y] @ full @ fps @ [Show_window])
   }"

definition sc_screen_hide_window :: "sc_window \<Rightarrow> win_result" where
  "sc_screen_hide_window screen = Some (screen\<lparr>window_shown := False\<rparr>, [Hide_window])"

definition resize_for_content :: "window_env \<Rightarrow> sc_size \<Rightarrow> sc_size \<Rightarrow> sc_window \<Rightarrow> window_request list option" where
  "resize_for_content env old_content_size new_content_size screen = do {
     c_assert (win_video screen);
     target \<leftarrow> (if flex_display screen then Some new_content_size
       else do {
         w \<leftarrow> c_div (ucast (width (window_size env)) * ucast (width new_content_size)) (ucast (width old_content_size));
         h \<leftarrow> c_div (ucast (height (window_size env)) * ucast (height new_content_size)) (ucast (height old_content_size));
         Some \<lparr>width = ucast w, height = ucast h\<rparr>
       });
     target \<leftarrow> get_optimal_size (display_bounds env) target new_content_size True;
     c_assert (is_windowed env);
     aspect \<leftarrow> set_aspect_ratio screen new_content_size;
     Some (aspect @ [Set_window_size target])
   }"

definition set_content_size :: "window_env \<Rightarrow> sc_size \<Rightarrow> bool \<Rightarrow> sc_window \<Rightarrow> win_result" where
  "set_content_size env new_content_size resize screen = do {
     c_assert (win_video screen);
     (screen, rs) \<leftarrow>
       (if \<not> resize then Some (screen, [])
        else if is_windowed env then do {
          rs \<leftarrow> resize_for_content env (content_size screen) new_content_size screen;
          Some (screen, rs)
        }
        else if flex_display screen then do {
          rs \<leftarrow> sc_screen_request_resize_display (width (window_size env)) (height (window_size env)) screen;
          Some (screen, rs)
        }
        else if \<not> resize_pending screen
        then Some (screen\<lparr>windowed_content_size := content_size screen, resize_pending := True\<rparr>, [])
        else Some (screen, []));
     Some (screen\<lparr>content_size := new_content_size\<rparr>, rs)
   }"

definition apply_pending_resize :: "window_env \<Rightarrow> sc_window \<Rightarrow> win_result" where
  "apply_pending_resize env screen = do {
     c_assert (win_video screen);
     c_assert (is_windowed env);
     if resize_pending screen then do {
       rs \<leftarrow> resize_for_content env (windowed_content_size screen) (content_size screen) screen;
       Some (screen\<lparr>resize_pending := False\<rparr>, rs)
     }
     else Some (screen, [])
   }"

definition sc_screen_set_orientation :: "(rat \<Rightarrow> rat) \<Rightarrow> window_env \<Rightarrow> u32 \<Rightarrow> sc_window \<Rightarrow> win_result" where
  "sc_screen_set_orientation rnd env orientation screen = do {
     c_assert (win_video screen);
     if orientation = win_orientation screen then Some (screen, [])
     else do {
       new_content_size \<leftarrow> get_oriented_size (frame_size screen) orientation;
       (screen, rs) \<leftarrow> set_content_size env new_content_size True screen;
       let screen = screen\<lparr>win_orientation := orientation\<rparr>;
       (screen, render) \<leftarrow> sc_screen_render rnd env True screen;
       Some (screen, rs @ render)
     }
   }"

text \<open>The result of \<^verbatim>\<open>sc_screen_apply_frame\<close> comes first; \<open>fw\<close> and \<open>fh\<close> are the size of the frame.\<close>

definition sc_screen_apply_frame ::
  "(rat \<Rightarrow> rat) \<Rightarrow> window_env \<Rightarrow> int \<Rightarrow> int \<Rightarrow> bool \<Rightarrow> sc_window \<Rightarrow> (bool \<times> sc_window \<times> window_request list) option" where
  "sc_screen_apply_frame rnd env fw fh can_resize screen = do {
     c_assert (win_video screen);
     c_assert (window_shown screen);
     let new_frame_size = \<lparr>width = of_int fw, height = of_int fh\<rparr>;
     if width new_frame_size = 0 \<or> height new_frame_size = 0 then Some (False, screen, [])
     else do {
       (screen, rs) \<leftarrow>
         (if width (frame_size screen) \<noteq> width new_frame_size \<or> height (frame_size screen) \<noteq> height new_frame_size
          then do {
            let screen = screen\<lparr>frame_size := new_frame_size\<rparr>;
            new_content_size \<leftarrow> get_oriented_size new_frame_size (win_orientation screen);
            let screen = (if flex_display screen then sc_screen_track_resize env new_content_size screen else screen);
            (screen, rs) \<leftarrow> set_content_size env new_content_size can_resize screen;
            screen \<leftarrow> sc_screen_update_content_rect rnd env screen;
            Some (screen, rs)
          }
          else Some (screen, []));
       if \<not> texture_ok env then Some (False, screen, rs)
       else do {
         (screen, render) \<leftarrow> sc_screen_render rnd env False screen;
         Some (True, screen, rs @ render)
       }
     }
   }"

text \<open>A new frame: while the display is paused it is only stored (\<open>win_resume_frame\<close> is its size), and shown when it resumes.\<close>

definition window_update_frame ::
  "(rat \<Rightarrow> rat) \<Rightarrow> window_env \<Rightarrow> int \<Rightarrow> int \<Rightarrow> bool \<Rightarrow> sc_window \<Rightarrow> (bool \<times> sc_window \<times> window_request list) option" where
  "window_update_frame rnd env fw fh can_resize screen = do {
     c_assert (win_video screen);
     if win_paused screen
     then Some (if win_resume_frame screen = None \<and> \<not> frame_alloc_ok env then (False, screen, [])
                else (True, screen\<lparr>win_resume_frame := Some (fw, fh)\<rparr>, []))
     else sc_screen_apply_frame rnd env fw fh can_resize screen
   }"

definition sc_screen_set_paused :: "(rat \<Rightarrow> rat) \<Rightarrow> window_env \<Rightarrow> bool \<Rightarrow> sc_window \<Rightarrow> win_result" where
  "sc_screen_set_paused rnd env paused screen = do {
     c_assert (win_video screen);
     if \<not> paused \<and> \<not> win_paused screen then Some (screen, [])
     else do {
       (screen, rs) \<leftarrow>
         (case (if win_paused screen then win_resume_frame screen else None) of
            None \<Rightarrow> Some (screen, [])
          | Some (fw, fh) \<Rightarrow> do {
              (ok, screen, rs) \<leftarrow> sc_screen_apply_frame rnd env fw fh True (screen\<lparr>win_resume_frame := None\<rparr>);
              Some (screen, rs)
            });
       Some (screen\<lparr>win_paused := paused\<rparr>, rs)
     }
   }"

definition sc_screen_resize_to_fit :: "window_env \<Rightarrow> sc_window \<Rightarrow> window_request list option" where
  "sc_screen_resize_to_fit env screen = do {
     c_assert (win_video screen);
     let ws = window_size env;
     let cs = content_size screen;
     if \<not> is_windowed env \<or> render_fit screen = SC_RENDER_FIT_STRETCHED then Some []
     else if render_fit screen = SC_RENDER_FIT_UNSCALED then do {
       aspect \<leftarrow> set_aspect_ratio screen cs;
       let x_offset = (if width cs < width ws then (int (unat (width ws)) - int (unat (width cs))) div 2 else 0);
       let y_offset = (if height cs < height ws then (int (unat (height ws)) - int (unat (height cs))) div 2 else 0);
       c_assert (x_offset \<ge> 0 \<and> y_offset \<ge> 0);
       Some (aspect @ [Set_window_size cs] @
             (if x_offset \<noteq> 0 \<or> y_offset \<noteq> 0
              then [Set_window_position (window_x env + x_offset) (window_y env + y_offset)] else []))
     }
     else do {
       c_assert (render_fit screen = SC_RENDER_FIT_LETTERBOX);
       os \<leftarrow> get_optimal_size (display_bounds env) ws cs False;
       c_assert (width os \<le> width ws);
       c_assert (height os \<le> height ws);
       aspect \<leftarrow> set_aspect_ratio screen cs;
       Some (aspect @ [Set_window_size os,
              Set_window_position (window_x env + (int (unat (width ws)) - int (unat (width os))) div 2)
                (window_y env + (int (unat (height ws)) - int (unat (height os))) div 2)])
     }
   }"

definition sc_screen_resize_to_pixel_perfect :: "window_env \<Rightarrow> sc_window \<Rightarrow> window_request list option" where
  "sc_screen_resize_to_pixel_perfect env screen = do {
     c_assert (win_video screen);
     if \<not> is_windowed env then Some []
     else do {
       aspect \<leftarrow> set_aspect_ratio screen (content_size screen);
       Some (aspect @ [Set_window_size (content_size screen)])
     }
   }"

section \<open>Events\<close>

text \<open>The events of the window and of the threads, and the calls the input manager makes for the other events. An input
  event without such a call changes nothing here.\<close>

datatype screen_event =
    Ev_open_window sc_size
  | Ev_new_frame "int \<times> int \<times> bool"
  | Ev_exposed
  | Ev_resized int int
  | Ev_pixel_size_changed
  | Ev_restored
  | Ev_enter_fullscreen
  | Ev_leave_fullscreen
  | Ev_device_disconnected
  | Ev_icon_loaded int int
  | Ev_disconnect_timeout
  | Ev_quit
  | Ev_input
  | Call_set_orientation u32
  | Call_set_paused bool
  | Call_toggle_fullscreen
  | Call_resize_to_fit
  | Call_resize_to_pixel_perfect

definition resume_windowed :: "(rat \<Rightarrow> rat) \<Rightarrow> window_env \<Rightarrow> sc_window \<Rightarrow> win_result" where
  "resume_windowed rnd env screen = do {
     (screen, rs) \<leftarrow> apply_pending_resize env screen;
     (screen, render) \<leftarrow> sc_screen_render rnd env True screen;
     Some (screen, rs @ render)
   }"

text \<open>What an event that is given to the input manager does to the window.\<close>

fun input_manager_call :: "(rat \<Rightarrow> rat) \<Rightarrow> window_env \<Rightarrow> screen_event \<Rightarrow> sc_window \<Rightarrow> win_result" where
  "input_manager_call rnd env (Call_set_orientation orientation) screen = sc_screen_set_orientation rnd env orientation screen"
| "input_manager_call rnd env (Call_set_paused paused) screen = sc_screen_set_paused rnd env paused screen"
| "input_manager_call rnd env Call_toggle_fullscreen screen =
     do { rs \<leftarrow> sc_screen_toggle_fullscreen env screen; Some (screen, rs) }"
| "input_manager_call rnd env Call_resize_to_fit screen =
     do { rs \<leftarrow> sc_screen_resize_to_fit env screen; Some (screen, rs) }"
| "input_manager_call rnd env Call_resize_to_pixel_perfect screen =
     do { rs \<leftarrow> sc_screen_resize_to_pixel_perfect env screen; Some (screen, rs) }"
| "input_manager_call rnd env _ screen = Some (screen, [])"

text \<open>Where resizing blocks the event loop (\<open>continuous_resizing\<close>), the two resize events are handled by a watcher,
  which is there only with a video; elsewhere by the event handler.\<close>

definition resize_event :: "(rat \<Rightarrow> rat) \<Rightarrow> window_env \<Rightarrow> (int \<times> int) option \<Rightarrow> sc_window \<Rightarrow> win_result" where
  "resize_event rnd env resized screen =
     (if continuous_resizing env \<and> \<not> win_video screen then Some (screen, [])
      else sc_screen_on_resize rnd env resized screen)"

fun sc_screen_handle_event ::
  "(rat \<Rightarrow> rat) \<Rightarrow> int \<Rightarrow> window_env \<Rightarrow> screen_event \<Rightarrow> sc_window \<Rightarrow> win_result" where
  "sc_screen_handle_event rnd centered env (Ev_open_window s) screen = do {
     let screen = screen\<lparr>frame_size := s\<rparr>;
     c \<leftarrow> get_oriented_size (frame_size screen) (win_orientation screen);
     (screen, rs) \<leftarrow> sc_screen_show_initial_window rnd centered env (screen\<lparr>content_size := c\<rparr>);
     (screen, render) \<leftarrow> sc_screen_render rnd env False screen;
     Some (screen, rs @ (if relative_mode screen then [Capture_mouse] else []) @ render)
   }"
| "sc_screen_handle_event rnd centered env (Ev_new_frame (fw, fh, can_resize)) screen = do {
     (ok, screen, rs) \<leftarrow> window_update_frame rnd env fw fh can_resize screen;
     Some (screen, rs)
   }"
| "sc_screen_handle_event rnd centered env Ev_exposed screen = sc_screen_render rnd env True screen"
| "sc_screen_handle_event rnd centered env (Ev_resized d1 d2) screen = resize_event rnd env (Some (d1, d2)) screen"
| "sc_screen_handle_event rnd centered env Ev_pixel_size_changed screen = resize_event rnd env None screen"
| "sc_screen_handle_event rnd centered env Ev_restored screen =
     (if win_video screen \<and> is_windowed env then resume_windowed rnd env screen else Some (screen, []))"
| "sc_screen_handle_event rnd centered env Ev_enter_fullscreen screen =
     do { c_assert (win_video screen); Some (screen, []) }"
| "sc_screen_handle_event rnd centered env Ev_leave_fullscreen screen = do {
     c_assert (win_video screen);
     if is_windowed env then resume_windowed rnd env screen else Some (screen, [])
   }"
| "sc_screen_handle_event rnd centered env Ev_device_disconnected screen = do {
     c_assert (\<not> win_disconnected screen);
     let screen = screen\<lparr>win_disconnected := True\<rparr>;
     if \<not> window_shown screen then Some (screen, [])
     else do {
       (screen, rs) \<leftarrow> sc_screen_render rnd env True screen;
       Some (if disconnect_ok env then screen\<lparr>disconnect_started := True\<rparr> else screen, rs)
     }
   }"
| "sc_screen_handle_event rnd centered env ev screen = input_manager_call rnd env ev screen"

text \<open>One turn of the loop of \<^verbatim>\<open>sc_screen_handle_disconnection\<close>; the boolean says whether the loop goes on.\<close>

definition disconnection_event ::
  "(rat \<Rightarrow> rat) \<Rightarrow> window_env \<Rightarrow> screen_event \<Rightarrow> sc_window \<Rightarrow> (bool \<times> sc_window \<times> window_request list) option" where
  "disconnection_event rnd env ev screen =
     (case ev of
        Ev_exposed \<Rightarrow> map_option (Pair True) (sc_screen_render rnd env True screen)
      | Ev_icon_loaded w h \<Rightarrow> map_option (Pair True)
          (if texture_ok env
           then sc_screen_render rnd env True (screen\<lparr>content_size := \<lparr>width = of_int w, height = of_int h\<rparr>\<rparr>)
           else Some (screen, []))
      | Ev_disconnect_timeout \<Rightarrow> Some (False, screen, [])
      | Ev_quit \<Rightarrow> Some (False, screen, if disconnect_started screen then [Interrupt_disconnect] else [])
      | Ev_resized d1 d2 \<Rightarrow> map_option (Pair True)
          (if continuous_resizing env then resize_event rnd env (Some (d1, d2)) screen else Some (screen, []))
      | Ev_pixel_size_changed \<Rightarrow> map_option (Pair True)
          (if continuous_resizing env then resize_event rnd env None screen else Some (screen, []))
      | _ \<Rightarrow> map_option (Pair True) (input_manager_call rnd env ev screen))"

text \<open>The events of a program: those before the disconnection go to the handler; after it, the loop of the disconnection
  is entered only with a window and a running timeout.\<close>

definition window_event :: "(rat \<Rightarrow> rat) \<Rightarrow> int \<Rightarrow> window_env \<Rightarrow> screen_event \<Rightarrow> sc_window \<Rightarrow> win_result" where
  "window_event rnd centered env ev screen =
     (if \<not> win_disconnected screen then sc_screen_handle_event rnd centered env ev screen
      else if window_shown screen \<and> disconnect_started screen then map_option snd (disconnection_event rnd env ev screen)
      else Some (screen, []))"

section \<open>The window follows the content\<close>

text \<open>The part of the invariant that configuration fixes, and the part that holds once the window is shown.\<close>

abbreviation not_empty :: "sc_size \<Rightarrow> bool" where
  "not_empty s \<equiv> width s \<noteq> 0 \<and> height s \<noteq> 0"

definition win_config :: "sc_window \<Rightarrow> bool" where
  "win_config screen \<longleftrightarrow> orientation_ok (win_orientation screen) \<and>
     render_fit screen \<noteq> SC_RENDER_FIT_AUTO \<and> (flex_display screen \<longrightarrow> win_video screen \<and> \<not> win_camera screen)"

definition win_inv :: "sc_window \<Rightarrow> bool" where
  "win_inv screen \<longleftrightarrow> win_config screen \<and> (resize_pending screen \<longrightarrow> not_empty (windowed_content_size screen)) \<and>
     (window_shown screen \<longrightarrow> not_empty (content_size screen) \<and> (win_video screen \<longrightarrow> not_empty (frame_size screen))) \<and>
     (window_shown screen \<and> win_video screen \<and> \<not> win_disconnected screen \<longrightarrow>
        get_oriented_size (frame_size screen) (win_orientation screen) = Some (content_size screen))"

text \<open>The requests for another display size are accepted by the controller, provided the sizes reported are not empty (\<open>z\<close>).\<close>

definition requests_ok :: "bool \<Rightarrow> window_request list \<Rightarrow> bool" where
  "requests_ok z rs \<longleftrightarrow> (z \<longrightarrow> (\<forall>w h. Resize_display w h \<in> set rs \<longrightarrow> good_event (Resize w h)))"

lemma requests_simps [simp]:
  "requests_ok z []" "requests_ok z (rs @ qs) \<longleftrightarrow> requests_ok z rs \<and> requests_ok z qs"
  "requests_ok z (r # rs) \<longleftrightarrow> (z \<longrightarrow> (\<forall>w h. r = Resize_display w h \<longrightarrow> w \<noteq> 0 \<and> h \<noteq> 0)) \<and> requests_ok z rs"
  by (auto simp: requests_ok_def)

lemma orientation_mask:
  assumes "orientation_ok n"
  shows "n AND NOT 7 = 0"
  using orientation_cases [OF assms] by (elim insertE emptyE) simp_all

lemma orientation_mask_ok:
  assumes "n AND NOT 7 = 0"
  shows "orientation_ok n"
proof -
  have "n = n AND 7 OR n AND NOT 7" by (simp flip: bit.conj_disj_distrib)
  with assms have "n = n AND 7" by simp
  moreover have "n AND 7 \<le> 7" by (rule word_and_le1)
  ultimately have "n \<le> 7" by simp
  then show ?thesis unfolding orientation_ok_def by (rule order_le_less_trans) simp
qed

lemma is_swap_ok: "orientation_ok n \<Longrightarrow> sc_orientation_is_swap n = Some (n AND 1 \<noteq> 0)"
  using orientation_mask [of n] by (simp add: sc_orientation_is_swap_def)

lemma oriented_ok:
  assumes "orientation_ok n"
  shows "\<exists>c. get_oriented_size s n = Some c \<and> (not_empty s \<longrightarrow> not_empty c)"
  by (simp add: get_oriented_size_def is_swap_ok [OF assms])

lemma content_rect_ok:
  assumes "fit \<noteq> SC_RENDER_FIT_AUTO" "not_empty con"
  shows "\<exists>r. compute_content_rect rnd w con icon fit = Some r"
  using assms by (cases fit; cases icon) (auto simp: compute_content_rect_def is_optimal_size_eq Let_def)

lemma update_rect_ok:
  assumes "win_config screen" "not_empty (content_size screen)"
  shows "\<exists>r. sc_screen_update_content_rect rnd env screen = Some (screen\<lparr>win_rect := r\<rparr>)"
proof -
  obtain r where "compute_content_rect rnd (window_size env) (content_size screen)
      (\<not> win_video screen \<or> win_disconnected screen) (render_fit screen) = Some r"
    using content_rect_ok assms unfolding win_config_def by blast
  then show ?thesis by (intro exI [of _ r]) (simp add: sc_screen_update_content_rect_def)
qed

lemma render_ok:
  assumes "win_config screen" "not_empty (content_size screen)" "window_shown screen"
  shows "\<exists>r. sc_screen_render rnd env u screen = Some (screen\<lparr>win_rect := r\<rparr>, [Render])"
proof (cases u)
  case True
  obtain r where "sc_screen_update_content_rect rnd env screen = Some (screen\<lparr>win_rect := r\<rparr>)"
    using update_rect_ok [OF assms(1,2)] by blast
  with True assms(3) show ?thesis by (intro exI [of _ r]) (simp add: sc_screen_render_def)
next
  case False
  with assms(3) show ?thesis by (intro exI [of _ "win_rect screen"]) (simp add: sc_screen_render_def)
qed

lemma request_resize_ok:
  assumes "win_config screen" "flex_display screen" "z \<longrightarrow> w \<noteq> 0 \<and> h \<noteq> 0"
  shows "\<exists>rs. sc_screen_request_resize_display w h screen = Some rs \<and> requests_ok z rs"
  using assms by (auto simp: sc_screen_request_resize_display_def win_config_def is_swap_ok)

lemma aspect_ok: "not_empty s \<Longrightarrow> \<exists>rs. set_aspect_ratio screen s = Some rs \<and> requests_ok z rs"
  by (auto simp: set_aspect_ratio_def)

lemma resize_for_content_ok:
  assumes "win_video screen" "not_empty old" "not_empty new" "is_windowed env"
  shows "\<exists>rs. resize_for_content env old new screen = Some rs \<and> requests_ok z rs"
proof -
  obtain w where w: "c_div (ucast (width (window_size env)) * ucast (width new)) (ucast (width old)) = Some w"
    using c_div16 assms(2) by blast
  obtain h where h: "c_div (ucast (height (window_size env)) * ucast (height new)) (ucast (height old)) = Some h"
    using c_div16 assms(2) by blast
  have t: "\<exists>r. get_optimal_size (display_bounds env) t new True = Some r" for t
    using optimal_size_fits [of new] assms(3) by blast
  obtain a where "set_aspect_ratio screen new = Some a" "requests_ok z a" using aspect_ok assms(3) by blast
  with w h t [of new] t [of "\<lparr>width = ucast w, height = ucast h\<rparr>"] assms show ?thesis
    by (auto simp: resize_for_content_def)
qed

lemma set_content_size_ok:
  assumes "win_config screen" "win_video screen" "resize_pending screen \<longrightarrow> not_empty (windowed_content_size screen)"
    "not_empty (content_size screen)" "not_empty new" "z \<longrightarrow> not_empty (window_size env)"
  shows "\<exists>p w rs. set_content_size env new resize screen =
      Some (screen\<lparr>content_size := new, resize_pending := p, windowed_content_size := w\<rparr>, rs) \<and>
    requests_ok z rs \<and> (p \<longrightarrow> not_empty w)"
proof -
  obtain rs where rs: "resize_for_content env (content_size screen) new screen = Some rs" "requests_ok z rs"
    if "is_windowed env"
    using resize_for_content_ok [OF assms(2,4,5)] by blast
  obtain qs where qs: "sc_screen_request_resize_display (width (window_size env)) (height (window_size env)) screen =
      Some qs" "requests_ok z qs" if "flex_display screen"
    using request_resize_ok [OF assms(1)] assms(6) by blast
  note v = assms(2)
  consider "resize" "is_windowed env" | "resize" "\<not> is_windowed env" "flex_display screen"
    | "resize" "\<not> is_windowed env" "\<not> flex_display screen" "\<not> resize_pending screen"
    | "\<not> resize \<or> \<not> is_windowed env \<and> \<not> flex_display screen \<and> resize_pending screen" by blast
  then show ?thesis
  proof cases
    case 1
    with rs v assms(3) show ?thesis
      by (intro exI [of _ "resize_pending screen"] exI [of _ "windowed_content_size screen"] exI [of _ rs])
        (simp add: set_content_size_def)
  next
    case 2
    with qs v assms(3) show ?thesis
      by (intro exI [of _ "resize_pending screen"] exI [of _ "windowed_content_size screen"] exI [of _ qs])
        (simp add: set_content_size_def)
  next
    case 3
    with v assms(4) show ?thesis
      by (intro exI [of _ True] exI [of _ "content_size screen"] exI [of _ "[]"]) (simp add: set_content_size_def)
  next
    case 4
    with v assms(3) show ?thesis
      by (intro exI [of _ "resize_pending screen"] exI [of _ "windowed_content_size screen"] exI [of _ "[]"])
        (auto simp: set_content_size_def)
  qed
qed

definition win_ok :: "bool \<Rightarrow> win_result \<Rightarrow> bool" where
  "win_ok z r \<longleftrightarrow> (\<exists>screen rs. r = Some (screen, rs) \<and> win_inv screen \<and> requests_ok z rs)"

lemma win_okI: "r = Some (screen, rs) \<Longrightarrow> win_inv screen \<Longrightarrow> requests_ok z rs \<Longrightarrow> win_ok z r"
  by (auto simp: win_ok_def)

lemma win_okE: "win_ok z r \<Longrightarrow> (\<And>screen rs. r = Some (screen, rs) \<Longrightarrow> win_inv screen \<Longrightarrow> requests_ok z rs \<Longrightarrow> thesis) \<Longrightarrow> thesis"
  by (auto simp: win_ok_def)

lemma win_ok_same: "win_inv screen \<Longrightarrow> requests_ok z rs \<Longrightarrow> win_ok z (Some (screen, rs))"
  by (simp add: win_ok_def)

lemma shown_content: "win_inv screen \<Longrightarrow> window_shown screen \<Longrightarrow> not_empty (content_size screen)"
  by (simp add: win_inv_def)

lemma win_inv_rect: "win_inv (screen\<lparr>win_rect := r\<rparr>) = win_inv screen"
  by (simp add: win_inv_def win_config_def)

lemma win_inv_flags [simp]:
  "win_inv (screen\<lparr>win_paused := b\<rparr>) = win_inv screen" "win_inv (screen\<lparr>win_resume_frame := f\<rparr>) = win_inv screen"
  "win_inv (screen\<lparr>disconnect_started := b\<rparr>) = win_inv screen" "win_inv (screen\<lparr>resize_tracker := t\<rparr>) = win_inv screen"
  by (simp_all add: win_inv_def win_config_def)

lemma win_inv_config: "win_inv screen \<Longrightarrow> win_config screen"
  by (simp add: win_inv_def)

lemma render_win_ok:
  assumes "win_inv screen" "window_shown screen"
  shows "win_ok z (sc_screen_render rnd env u screen)"
proof -
  obtain r where "sc_screen_render rnd env u screen = Some (screen\<lparr>win_rect := r\<rparr>, [Render])"
    using render_ok [OF win_inv_config [OF assms(1)] shown_content [OF assms] assms(2)] by blast
  then show ?thesis by (rule win_okI) (simp_all add: win_inv_rect assms(1))
qed

lemma initial_size_ok:
  assumes "not_empty con"
  shows "\<exists>ws. get_initial_optimal_size display con w h = Some ws"
proof -
  obtain ws where "get_optimal_size display con con True = Some ws" using optimal_size_fits assms by blast
  moreover obtain q where "c_div (ucast h * ucast (width con)) (ucast (height con)) = Some q"
    using c_div16 assms by blast
  moreover obtain r where "c_div (ucast w * ucast (height con)) (ucast (width con)) = Some r"
    using c_div16 assms by blast
  ultimately show ?thesis by (cases "w = 0"; cases "h = 0") (simp_all add: get_initial_optimal_size_def)
qed

lemma open_window_ok:
  assumes "win_inv screen" "not_empty s" "is_windowed env" "req_fullscreen (win_req screen) \<longrightarrow> win_video screen"
  shows "win_ok z (sc_screen_handle_event rnd centered env (Ev_open_window s) screen)"
proof -
  have c: "win_config screen" by (rule win_inv_config [OF assms(1)])
  obtain c0 where c0: "get_oriented_size s (win_orientation screen) = Some c0" "not_empty c0"
    using oriented_ok [of "win_orientation screen" s] c assms(2) by (auto simp: win_config_def)
  obtain ws where ws: "get_initial_optimal_size (display_bounds env) c0 (req_width (win_req screen))
      (req_height (win_req screen)) = Some ws"
    using initial_size_ok [OF c0(2)] by blast
  define screen1 where "screen1 = (let s1 = screen\<lparr>frame_size := s, content_size := c0\<rparr> in
    if flex_display screen \<and> width ws = width c0 \<and> height ws = height c0 then sc_screen_track_resize env ws s1 else s1)"
  have s1: "win_inv (screen1\<lparr>window_shown := True\<rparr>)" "content_size screen1 = c0"
    "win_video screen1 = win_video screen" "win_req screen1 = win_req screen" "flex_display screen1 = flex_display screen"
    "relative_mode screen1 = relative_mode screen"
    using assms(1,2) c0 c by (auto simp: screen1_def Let_def win_inv_def win_config_def sc_screen_track_resize_def)
  obtain r where r: "sc_screen_update_content_rect rnd env (screen1\<lparr>window_shown := True\<rparr>) =
      Some (screen1\<lparr>window_shown := True, win_rect := r\<rparr>)"
    using update_rect_ok [OF win_inv_config [OF s1(1)]] c0(2) s1(2) by auto
  have full: "\<exists>rs. sc_screen_toggle_fullscreen env screen1 = Some rs \<and> requests_ok z rs" if "req_fullscreen (win_req screen)"
    using s1(3) assms(4) that by (simp add: sc_screen_toggle_fullscreen_def)
  obtain a where a: "set_aspect_ratio screen1 c0 = Some a" "requests_ok z a" using aspect_ok c0(2) by blast
  have "\<exists>rs. sc_screen_show_initial_window rnd centered env (screen\<lparr>frame_size := s, content_size := c0\<rparr>) =
      Some (screen1\<lparr>window_shown := True, win_rect := r\<rparr>, rs) \<and> requests_ok z rs"
    using full a assms(3) s1 r ws
    by (auto simp: sc_screen_show_initial_window_def Let_def screen1_def [unfolded Let_def, symmetric])
  then show ?thesis
    using c0(1) s1(1) by (auto simp: win_ok_def sc_screen_render_def win_inv_rect)
qed

lemma open_window_aborts:
  assumes "\<not> not_empty s \<or> \<not> is_windowed env \<or> req_fullscreen (win_req screen) \<and> \<not> win_video screen"
  shows "sc_screen_handle_event rnd centered env (Ev_open_window s) screen = None"
proof -
  have "not_empty s = not_empty c" if "get_oriented_size s n = Some c" for c n
    using that by (auto simp: get_oriented_size_def split: bind_splits if_splits)
  then show ?thesis using assms
    by (auto simp: sc_screen_show_initial_window_def set_aspect_ratio_def sc_screen_toggle_fullscreen_def
        sc_screen_track_resize_def Let_def split: bind_splits if_splits)
qed

lemma content_change_ok:
  assumes "win_config screen" "win_video screen" "resize_pending screen \<longrightarrow> not_empty (windowed_content_size screen)"
    "not_empty (content_size screen)" "z \<longrightarrow> not_empty (window_size env)" "not_empty fs" "orientation_ok n"
    "get_oriented_size fs n = Some new"
  shows "\<exists>screen' rs. set_content_size env new resize screen = Some (screen', rs) \<and> requests_ok z rs \<and>
    win_inv (screen'\<lparr>frame_size := fs, win_orientation := n\<rparr>) \<and> window_shown screen' = window_shown screen \<and>
    win_orientation screen' = win_orientation screen \<and> frame_size screen' = frame_size screen"
proof -
  have new: "not_empty new" using oriented_nonzero [OF assms(8)] assms(6) by blast
  obtain p w rs where r: "set_content_size env new resize screen =
      Some (screen\<lparr>content_size := new, resize_pending := p, windowed_content_size := w\<rparr>, rs)"
    "requests_ok z rs" "p \<longrightarrow> not_empty w"
    using set_content_size_ok [OF assms(1-4) new assms(5)] by blast
  have "win_inv (screen\<lparr>content_size := new, resize_pending := p, windowed_content_size := w,
      frame_size := fs, win_orientation := n\<rparr>)"
    using assms new r(3) by (simp add: win_inv_def win_config_def)
  with r(1,2) show ?thesis
    by (intro exI [of _ "screen\<lparr>content_size := new, resize_pending := p, windowed_content_size := w\<rparr>"] exI [of _ rs])
      simp
qed

lemma set_content_size_keeps:
  "set_content_size env new resize screen = Some (screen', rs) \<Longrightarrow>
     resize_tracker screen' = resize_tracker screen \<and> window_shown screen' = window_shown screen \<and>
     flex_display screen' = flex_display screen \<and> win_video screen'"
  by (auto simp: set_content_size_def bind_Some_iff split: if_splits)

lemma set_orientation_ok:
  assumes "win_inv screen" "win_video screen" "n \<noteq> win_orientation screen \<longrightarrow> window_shown screen \<and> orientation_ok n"
    "z \<longrightarrow> not_empty (window_size env)"
  shows "win_ok z (sc_screen_set_orientation rnd env n screen)"
proof (cases "n = win_orientation screen")
  case True
  with assms(1,2) show ?thesis by (simp add: sc_screen_set_orientation_def win_ok_def)
next
  case False
  with assms(3) have sh: "window_shown screen" "orientation_ok n" by simp_all
  have v: "resize_pending screen \<longrightarrow> not_empty (windowed_content_size screen)" "not_empty (frame_size screen)"
    using assms(1,2) sh(1) by (simp_all add: win_inv_def)
  obtain new where new: "get_oriented_size (frame_size screen) n = Some new" using oriented_ok [OF sh(2)] by blast
  obtain screen' rs where c: "set_content_size env new True screen = Some (screen', rs)" "requests_ok z rs"
    "win_inv (screen'\<lparr>frame_size := frame_size screen, win_orientation := n\<rparr>)" "window_shown screen' = window_shown screen"
    "frame_size screen' = frame_size screen"
    using content_change_ok [OF win_inv_config [OF assms(1)] assms(2) v(1) shown_content [OF assms(1) sh(1)] assms(4) v(2) sh(2) new]
    by blast
  have "screen'\<lparr>frame_size := frame_size screen, win_orientation := n\<rparr> = screen'\<lparr>win_orientation := n\<rparr>"
    using c(5) by simp
  with c(3) have i: "win_inv (screen'\<lparr>win_orientation := n\<rparr>)" by simp
  have "window_shown (screen'\<lparr>win_orientation := n\<rparr>)" using c(4) sh(1) by simp
  from render_win_ok [OF i this] obtain screen2 rs2 where
    "sc_screen_render rnd env True (screen'\<lparr>win_orientation := n\<rparr>) = Some (screen2, rs2)" "win_inv screen2" "requests_ok z rs2"
    by (rule win_okE)
  with False assms(2) new c(1,2) show ?thesis by (simp add: sc_screen_set_orientation_def win_ok_def)
qed

lemma set_orientation_aborts:
  assumes "\<not> win_video screen \<or> n \<noteq> win_orientation screen \<and> (\<not> window_shown screen \<or> \<not> orientation_ok n)"
  shows "sc_screen_set_orientation rnd env n screen = None"
proof -
  have "get_oriented_size s n = None" if "\<not> orientation_ok n" for s
    using that orientation_mask_ok [of n] by (auto simp: get_oriented_size_def sc_orientation_is_swap_def split: bind_splits)
  then show ?thesis using assms
    by (auto simp: sc_screen_set_orientation_def sc_screen_render_def Let_def dest!: set_content_size_keeps split: bind_splits)
qed

lemma apply_frame_ok:
  assumes "win_inv screen" "win_video screen" "window_shown screen" "z \<longrightarrow> not_empty (window_size env)"
  shows "\<exists>ok screen' rs. sc_screen_apply_frame rnd env fw fh can_resize screen = Some (ok, screen', rs) \<and>
    win_inv screen' \<and> requests_ok z rs"
proof -
  let ?fs = "\<lparr>width = of_int fw, height = of_int fh\<rparr> :: sc_size"
  have v: "win_video screen" "resize_pending screen \<longrightarrow> not_empty (windowed_content_size screen)"
    "orientation_ok (win_orientation screen)"
    using assms(1,2) by (simp_all add: win_inv_def win_config_def)
  have draw: "sc_screen_render rnd env False scr = Some (scr, [Render])" if "window_shown scr" for scr
    using that by (simp add: sc_screen_render_def)
  show ?thesis
  proof (cases "not_empty ?fs \<and> (width (frame_size screen) \<noteq> width ?fs \<or> height (frame_size screen) \<noteq> height ?fs)")
    case False
    then show ?thesis
      using draw [OF assms(3)] assms(1-3) by (auto simp: sc_screen_apply_frame_def Let_def)
  next
    case True
    obtain new where new: "get_oriented_size ?fs (win_orientation screen) = Some new" using oriented_ok [OF v(3)] by blast
    define screen1 where "screen1 = (let s1 = screen\<lparr>frame_size := ?fs\<rparr> in
      if flex_display screen then sc_screen_track_resize env new s1 else s1)"
    have s1: "win_config screen1" "win_video screen1" "resize_pending screen1 \<longrightarrow> not_empty (windowed_content_size screen1)"
      "not_empty (content_size screen1)" "window_shown screen1" "frame_size screen1 = ?fs"
      "win_orientation screen1 = win_orientation screen"
      using win_inv_config [OF assms(1)] v shown_content [OF assms(1,3)] assms(3)
      by (simp_all add: screen1_def Let_def win_config_def sc_screen_track_resize_def)
    obtain screen2 rs where c: "set_content_size env new can_resize screen1 = Some (screen2, rs)" "requests_ok z rs"
      "win_inv (screen2\<lparr>frame_size := ?fs, win_orientation := win_orientation screen\<rparr>)" "window_shown screen2"
      "win_orientation screen2 = win_orientation screen" "frame_size screen2 = ?fs"
      using content_change_ok [OF s1(1-4) assms(4) _ v(3) new, of can_resize] True s1(5-7) by auto
    have "screen2\<lparr>frame_size := ?fs, win_orientation := win_orientation screen\<rparr> = screen2" using c(5,6) by simp
    with c(3) have i: "win_inv screen2" by simp
    obtain r where r: "sc_screen_update_content_rect rnd env screen2 = Some (screen2\<lparr>win_rect := r\<rparr>)"
      using update_rect_ok [OF win_inv_config [OF i] shown_content [OF i c(4)]] by blast
    have "(if flex_display (screen\<lparr>frame_size := ?fs\<rparr>) then sc_screen_track_resize env new (screen\<lparr>frame_size := ?fs\<rparr>)
      else screen\<lparr>frame_size := ?fs\<rparr>) = screen1" by (simp add: screen1_def)
    with draw [of "screen2\<lparr>win_rect := r\<rparr>"] i c(1,2,4) r True v(1) assms(3) new show ?thesis
      by (auto simp: sc_screen_apply_frame_def Let_def win_inv_rect)
  qed
qed

lemma new_frame_ok:
  assumes "win_inv screen" "win_video screen" "win_paused screen \<or> window_shown screen" "z \<longrightarrow> not_empty (window_size env)"
  shows "win_ok z (sc_screen_handle_event rnd centered env (Ev_new_frame f) screen)"
proof -
  obtain fw fh can_resize where f: "f = (fw, fh, can_resize)" by (cases f)
  show ?thesis
  proof (cases "win_paused screen")
    case True
    with assms(1,2) show ?thesis by (simp add: f window_update_frame_def win_ok_def)
  next
    case False
    with assms(3) have sh: "window_shown screen" by simp
    obtain ok screen' rs where "sc_screen_apply_frame rnd env fw fh can_resize screen = Some (ok, screen', rs)"
      "win_inv screen'" "requests_ok z rs" using apply_frame_ok [OF assms(1,2) sh assms(4)] by blast
    with False assms(2) show ?thesis by (simp add: f window_update_frame_def win_ok_def)
  qed
qed

lemma set_paused_ok:
  assumes "win_inv screen" "win_video screen" "win_paused screen \<and> win_resume_frame screen \<noteq> None \<longrightarrow> window_shown screen"
    "z \<longrightarrow> not_empty (window_size env)"
  shows "win_ok z (sc_screen_set_paused rnd env b screen)"
proof (cases "win_paused screen \<and> win_resume_frame screen \<noteq> None")
  case True
  then obtain fw fh where f: "win_paused screen" "win_resume_frame screen = Some (fw, fh)" "window_shown screen" using assms(3) by auto
  define paused where "paused = screen\<lparr>win_resume_frame := None\<rparr>"
  have "win_inv paused" "win_video paused" "window_shown paused" using assms(1,2) f(3) by (simp_all add: paused_def)
  from apply_frame_ok [OF this assms(4)] obtain ok screen' rs where
    "sc_screen_apply_frame rnd env fw fh True (screen\<lparr>win_resume_frame := None\<rparr>) = Some (ok, screen', rs)"
    "win_inv screen'" "requests_ok z rs" unfolding paused_def by blast
  with f(1,2) assms(2) show ?thesis by (simp add: sc_screen_set_paused_def win_ok_def)
next
  case False
  then consider "\<not> win_paused screen" | "win_resume_frame screen = None" by blast
  then show ?thesis by cases (use assms(1,2) in \<open>auto simp: sc_screen_set_paused_def win_ok_def\<close>)
qed

lemma resume_ok:
  assumes "win_inv screen" "win_video screen" "window_shown screen" "is_windowed env"
  shows "win_ok z (resume_windowed rnd env screen)"
proof -
  obtain screen' rs where a: "apply_pending_resize env screen = Some (screen', rs)" "win_inv screen'" "requests_ok z rs"
    "window_shown screen'"
  proof (cases "resize_pending screen")
    case True
    then have "not_empty (windowed_content_size screen)" using assms(1) by (simp add: win_inv_def)
    then obtain rs where "resize_for_content env (windowed_content_size screen) (content_size screen) screen = Some rs"
      "requests_ok z rs"
      using resize_for_content_ok [OF assms(2) _ shown_content [OF assms(1,3)] assms(4)] by blast
    with True assms that show ?thesis by (simp add: apply_pending_resize_def win_inv_def win_config_def)
  next
    case False
    with assms that show ?thesis by (simp add: apply_pending_resize_def)
  qed
  from render_win_ok [OF a(2,4)] obtain screen2 rs2 where
    "sc_screen_render rnd env True screen' = Some (screen2, rs2)" "win_inv screen2" "requests_ok z rs2" by (rule win_okE)
  with a(1,3) show ?thesis by (simp add: resume_windowed_def win_ok_def)
qed

lemma resume_aborts: "\<not> window_shown screen \<Longrightarrow> resume_windowed rnd env screen = None"
  by (auto simp: resume_windowed_def apply_pending_resize_def sc_screen_render_def split: bind_splits if_splits)

lemma of_int16_nonzero: "0 < d \<Longrightarrow> d \<le> 0xFFFF \<Longrightarrow> (of_int d :: u16) \<noteq> 0"
  by (simp add: word_of_int_eq_0_iff zdvd_not_zless)

text \<open>A size that fits the fields of \<^verbatim>\<open>sc_size\<close>.\<close>

definition fits16 :: "int \<Rightarrow> int \<Rightarrow> bool" where
  "fits16 w h \<longleftrightarrow> 0 \<le> w \<and> w \<le> 0xFFFF \<and> 0 \<le> h \<and> h \<le> 0xFFFF"

lemma resized_ok:
  assumes "win_inv screen" "flex_display screen \<longrightarrow> fits16 d1 d2" "z \<longrightarrow> 0 < d1 \<and> 0 < d2"
  shows "win_ok z (on_window_resized env d1 d2 screen)"
proof (cases "flex_display screen")
  case True
  have "z \<longrightarrow> (of_int d1 :: u16) \<noteq> 0 \<and> (of_int d2 :: u16) \<noteq> 0"
    using True assms(2,3) of_int16_nonzero [of d1] of_int16_nonzero [of d2] by (auto simp: fits16_def)
  from request_resize_ok [OF win_inv_config [OF assms(1)] True this]
  obtain rs where "sc_screen_request_resize_display (of_int d1) (of_int d2) screen = Some rs" "requests_ok z rs" by blast
  then have "sc_screen_request_resize_display (of_int d1) (of_int d2) (screen\<lparr>resize_tracker := t\<rparr>) = Some rs"
    "requests_ok z rs" for t
    by (simp_all add: sc_screen_request_resize_display_def)
  with assms True show ?thesis
    by (auto simp: on_window_resized_def Let_def win_ok_def fits16_def)
next
  case False
  with assms(1) show ?thesis by (simp add: on_window_resized_def win_ok_def)
qed

lemma resized_aborts: "flex_display screen \<Longrightarrow> \<not> fits16 d1 d2 \<Longrightarrow> on_window_resized env d1 d2 screen = None"
  by (auto simp: on_window_resized_def fits16_def)

lemma on_resize_ok:
  assumes "win_inv screen"
  shows "window_shown screen \<and> flex_display screen \<longrightarrow> fits16 d1 d2 \<Longrightarrow> z \<longrightarrow> 0 < d1 \<and> 0 < d2 \<Longrightarrow>
      win_ok z (sc_screen_on_resize rnd env (Some (d1, d2)) screen)"
    "win_ok z (sc_screen_on_resize rnd env None screen)"
  using assms render_win_ok [OF assms] resized_ok [OF assms, of d1 d2 z]
  by (simp_all add: sc_screen_on_resize_def win_ok_same)

lemma resize_to_fit_ok:
  assumes "win_inv screen" "win_video screen" "is_windowed env \<and> render_fit screen \<noteq> SC_RENDER_FIT_STRETCHED \<longrightarrow> not_empty (content_size screen)"
  shows "\<exists>rs. sc_screen_resize_to_fit env screen = Some rs \<and> requests_ok z rs"
proof (cases "is_windowed env \<and> render_fit screen \<noteq> SC_RENDER_FIT_STRETCHED")
  case False
  with assms(2) show ?thesis by (auto simp: sc_screen_resize_to_fit_def)
next
  case True
  with assms(3) have ne: "not_empty (content_size screen)" by simp
  have c: "win_video screen" "render_fit screen \<noteq> SC_RENDER_FIT_AUTO"
    using assms(1,2) by (simp_all add: win_inv_def win_config_def)
  obtain a where a: "set_aspect_ratio screen (content_size screen) = Some a" "requests_ok z a" using aspect_ok ne by blast
  obtain os where os: "get_optimal_size (display_bounds env) (window_size env) (content_size screen) False = Some os"
    "width os \<le> width (window_size env)" "height os \<le> height (window_size env)"
    using optimal_size_fits [of "content_size screen" "display_bounds env" "window_size env" False] ne
    by (auto simp: constrained_def)
  show ?thesis
  proof (cases "render_fit screen")
    case SC_RENDER_FIT_UNSCALED
    have "0 \<le> (if width b < width d then (int (unat (width d)) - int (unat (width b))) div 2 else 0)"
      "0 \<le> (if height b < height d then (int (unat (height d)) - int (unat (height b))) div 2 else 0)" for b d :: sc_size
      by (simp_all add: word_less_def order_less_imp_le)
    with SC_RENDER_FIT_UNSCALED a c(1) show ?thesis
      by (simp only: sc_screen_resize_to_fit_def Let_def) (simp add: c_assert_simps)
  qed (use a c os in \<open>auto simp: sc_screen_resize_to_fit_def Let_def\<close>)
qed

lemma fit_aborts:
  "\<not> win_video screen \<or> is_windowed env \<and> render_fit screen \<noteq> SC_RENDER_FIT_STRETCHED \<and> \<not> not_empty (content_size screen) \<Longrightarrow>
     sc_screen_resize_to_fit env screen = None"
  "\<not> win_video screen \<or> is_windowed env \<and> \<not> not_empty (content_size screen) \<Longrightarrow>
     sc_screen_resize_to_pixel_perfect env screen = None"
  by (auto simp: sc_screen_resize_to_fit_def sc_screen_resize_to_pixel_perfect_def set_aspect_ratio_def Let_def split: bind_splits)

lemma pixel_perfect_ok:
  "win_video screen \<Longrightarrow> is_windowed env \<longrightarrow> not_empty (content_size screen) \<Longrightarrow>
     \<exists>rs. sc_screen_resize_to_pixel_perfect env screen = Some rs \<and> requests_ok z rs"
  by (auto simp: sc_screen_resize_to_pixel_perfect_def set_aspect_ratio_def)

section \<open>Every event of the program\<close>

text \<open>The events at which the program aborts, by a failed assertion of \<^verbatim>\<open>screen.c\<close> or a division by zero. Before the
  disconnection: a window opened for an empty frame, not windowed or fullscreen without video; a new frame without a video,
  or before the window is opened; a window exposed, restored or leaving fullscreen before it is shown; fullscreen without a
  video; a resize that does not fit 16 bits, for a flexible display; and the calls of the input manager without a video, with an
  invalid orientation or before the window is shown. After it, only resizes and these calls.\<close>

definition aborts_on :: "window_env \<Rightarrow> screen_event \<Rightarrow> sc_window \<Rightarrow> bool" where
  "aborts_on env ev screen \<longleftrightarrow>
     (let before = (\<not> win_disconnected screen) in
      (before \<or> window_shown screen \<and> disconnect_started screen) \<and>
      (case ev of
         Ev_open_window s \<Rightarrow> before \<and>
           (\<not> not_empty s \<or> \<not> is_windowed env \<or> req_fullscreen (win_req screen) \<and> \<not> win_video screen)
       | Ev_new_frame f \<Rightarrow> before \<and> (\<not> win_video screen \<or> \<not> win_paused screen \<and> \<not> window_shown screen)
       | Ev_exposed \<Rightarrow> \<not> window_shown screen
       | Ev_resized d1 d2 \<Rightarrow> (before \<or> continuous_resizing env) \<and> window_shown screen \<and> flex_display screen \<and> \<not> fits16 d1 d2
       | Ev_restored \<Rightarrow> before \<and> win_video screen \<and> is_windowed env \<and> \<not> window_shown screen
       | Ev_enter_fullscreen \<Rightarrow> before \<and> \<not> win_video screen
       | Ev_leave_fullscreen \<Rightarrow> before \<and> (\<not> win_video screen \<or> is_windowed env \<and> \<not> window_shown screen)
       | Call_set_orientation n \<Rightarrow>
           \<not> win_video screen \<or> n \<noteq> win_orientation screen \<and> (\<not> window_shown screen \<or> \<not> orientation_ok n)
       | Call_set_paused b \<Rightarrow>
           \<not> win_video screen \<or> win_paused screen \<and> win_resume_frame screen \<noteq> None \<and> \<not> window_shown screen
       | Call_toggle_fullscreen \<Rightarrow> \<not> win_video screen
       | Call_resize_to_fit \<Rightarrow> \<not> win_video screen \<or>
           is_windowed env \<and> render_fit screen \<noteq> SC_RENDER_FIT_STRETCHED \<and> \<not> not_empty (content_size screen)
       | Call_resize_to_pixel_perfect \<Rightarrow> \<not> win_video screen \<or> is_windowed env \<and> \<not> not_empty (content_size screen)
       | _ \<Rightarrow> False))"

text \<open>The window is initialised hidden for a video, and shown with its icon without one. An icon has a size of 16 bits that is
  not empty.\<close>

definition icon_ok :: "screen_event \<Rightarrow> bool" where
  "icon_ok ev \<longleftrightarrow> (case ev of Ev_icon_loaded w h \<Rightarrow> 0 < w \<and> w \<le> 0xFFFF \<and> 0 < h \<and> h \<le> 0xFFFF | _ \<Rightarrow> True)"

definition win_initial :: "sc_window \<Rightarrow> bool" where
  "win_initial screen \<longleftrightarrow> win_config screen \<and> \<not> resize_pending screen \<and> \<not> win_paused screen \<and> win_resume_frame screen = None \<and>
     \<not> win_disconnected screen \<and> \<not> disconnect_started screen \<and>
     (if win_video screen then \<not> window_shown screen else window_shown screen \<and> not_empty (content_size screen))"

inductive win_reach :: "(rat \<Rightarrow> rat) \<Rightarrow> int \<Rightarrow> sc_window \<Rightarrow> bool" for rnd centered where
  start: "win_initial screen \<Longrightarrow> win_reach rnd centered screen"
| event: "win_reach rnd centered screen \<Longrightarrow> icon_ok ev \<Longrightarrow>
     window_event rnd centered env ev screen = Some (screen', rs) \<Longrightarrow> win_reach rnd centered screen'"

definition sizes_reported :: "window_env \<Rightarrow> screen_event \<Rightarrow> bool" where
  "sizes_reported env ev \<longleftrightarrow> not_empty (window_size env) \<and> (case ev of Ev_resized d1 d2 \<Rightarrow> 0 < d1 \<and> 0 < d2 | _ \<Rightarrow> True)"

lemma calls_ok:
  assumes "win_inv screen" "\<not> aborts_on env ev screen" "\<not> win_disconnected screen \<or> window_shown screen \<and> disconnect_started screen"
    "z \<longrightarrow> not_empty (window_size env)"
  shows "win_ok z (input_manager_call rnd env ev screen)"
proof -
  note same = win_ok_same [OF assms(1)]
  show ?thesis
  proof (cases ev)
    case (Call_set_orientation n)
    with assms show ?thesis by (auto simp: aborts_on_def Let_def intro!: set_orientation_ok)
  next
    case (Call_set_paused b)
    with assms show ?thesis by (auto simp: aborts_on_def Let_def intro!: set_paused_ok)
  next
    case Call_toggle_fullscreen
    with assms show ?thesis by (auto simp: aborts_on_def Let_def sc_screen_toggle_fullscreen_def intro!: same)
  next
    case Call_resize_to_fit
    with assms have "win_video screen"
      "is_windowed env \<and> render_fit screen \<noteq> SC_RENDER_FIT_STRETCHED \<longrightarrow> not_empty (content_size screen)"
      by (auto simp: aborts_on_def Let_def)
    from resize_to_fit_ok [OF assms(1) this] obtain rs where "sc_screen_resize_to_fit env screen = Some rs" "requests_ok z rs"
      by blast
    with Call_resize_to_fit show ?thesis by (simp add: same)
  next
    case Call_resize_to_pixel_perfect
    with assms have "win_video screen" "is_windowed env \<longrightarrow> not_empty (content_size screen)" by (auto simp: aborts_on_def Let_def)
    from pixel_perfect_ok [OF this] obtain rs where "sc_screen_resize_to_pixel_perfect env screen = Some rs" "requests_ok z rs"
      by blast
    with Call_resize_to_pixel_perfect show ?thesis by (simp add: same)
  qed (simp_all add: same)
qed

lemma calls_abort:
  assumes "aborts_on env ev screen" "(\<exists>n. ev = Call_set_orientation n) \<or> (\<exists>b. ev = Call_set_paused b) \<or>
    ev \<in> {Call_toggle_fullscreen, Call_resize_to_fit, Call_resize_to_pixel_perfect}"
  shows "input_manager_call rnd env ev screen = None"
proof (cases ev)
  case (Call_set_orientation n)
  with assms show ?thesis by (auto simp: aborts_on_def Let_def intro!: set_orientation_aborts)
next
  case (Call_set_paused b)
  with assms show ?thesis
    by (auto simp: aborts_on_def Let_def sc_screen_set_paused_def sc_screen_apply_frame_def split: bind_splits option.splits)
qed (use assms in \<open>auto simp: aborts_on_def Let_def fit_aborts sc_screen_toggle_fullscreen_def\<close>)

lemma before_ok:
  assumes "win_inv screen" "\<not> aborts_on env ev screen" "\<not> win_disconnected screen" "z \<longrightarrow> sizes_reported env ev"
  shows "win_ok z (sc_screen_handle_event rnd centered env ev screen)"
proof -
  have w: "z \<longrightarrow> not_empty (window_size env)" using assms(4) by (simp add: sizes_reported_def)
  have call: "win_ok z (input_manager_call rnd env ev screen)" using calls_ok [OF assms(1,2) _ w] assms(3) by blast
  note same = win_ok_same [OF assms(1)] and render = render_win_ok [OF assms(1)]
  show ?thesis
  proof (cases ev)
    case (Ev_open_window s)
    with assms(2,3) open_window_ok [OF assms(1)] show ?thesis by (auto simp: aborts_on_def Let_def simp del: sc_screen_handle_event.simps)
  next
    case (Ev_new_frame f)
    with assms(2,3) new_frame_ok [OF assms(1) _ _ w] show ?thesis
      by (auto simp: aborts_on_def Let_def simp del: sc_screen_handle_event.simps)
  next
    case (Ev_resized d1 d2)
    with assms(2-4) on_resize_ok(1) [OF assms(1), of d1 d2 z] show ?thesis
      by (auto simp: aborts_on_def Let_def resize_event_def sizes_reported_def same)
  next
    case Ev_pixel_size_changed
    with on_resize_ok(2) [OF assms(1)] show ?thesis by (auto simp: resize_event_def same)
  next
    case Ev_device_disconnected
    have i: "win_inv (screen\<lparr>win_disconnected := True\<rparr>)" using assms(1) by (simp add: win_inv_def win_config_def)
    show ?thesis
    proof (cases "window_shown screen")
      case True
      with i render_win_ok [OF i, of z rnd env True] obtain s rs where
        "sc_screen_render rnd env True (screen\<lparr>win_disconnected := True\<rparr>) = Some (s, rs)" "win_inv s" "requests_ok z rs"
        by (auto simp: win_ok_def)
      with Ev_device_disconnected True assms(3) show ?thesis by (simp add: win_ok_def Let_def)
    qed (use Ev_device_disconnected i assms(3) in \<open>simp add: win_ok_def Let_def\<close>)
  qed (use assms(2,3) call in \<open>auto simp: aborts_on_def Let_def same render resume_ok [OF assms(1)]\<close>)
qed

lemma before_abort:
  assumes "win_inv screen" "aborts_on env ev screen" "\<not> win_disconnected screen"
  shows "sc_screen_handle_event rnd centered env ev screen = None"
proof (cases ev)
  case (Ev_open_window s)
  with assms(2) show ?thesis by (simp add: aborts_on_def Let_def open_window_aborts del: sc_screen_handle_event.simps)
next
  case (Ev_new_frame f)
  with assms(2) show ?thesis
    by (cases f) (auto simp: aborts_on_def Let_def window_update_frame_def sc_screen_apply_frame_def split: bind_splits)
next
  case (Ev_resized d1 d2)
  then have "window_shown screen" "flex_display screen" "\<not> fits16 d1 d2" using assms(2) by (auto simp: aborts_on_def Let_def)
  moreover from this have "win_video screen" using win_inv_config [OF assms(1)] by (simp add: win_config_def)
  ultimately show ?thesis using Ev_resized by (simp add: resize_event_def sc_screen_on_resize_def resized_aborts)
next
  case Ev_exposed
  with assms(2) show ?thesis by (simp add: aborts_on_def Let_def sc_screen_render_def)
next
  case Ev_restored
  with assms(2) show ?thesis by (simp add: aborts_on_def Let_def resume_aborts)
next
  case Ev_leave_fullscreen
  with assms(2) show ?thesis by (auto simp: aborts_on_def Let_def resume_aborts split: bind_splits)
next
  case Ev_enter_fullscreen
  with assms(2) show ?thesis by (auto simp: aborts_on_def Let_def)
qed (use assms(2) calls_abort [OF assms(2)] in \<open>simp_all add: aborts_on_def Let_def\<close>)

lemma after_ok:
  assumes "win_inv screen" "\<not> aborts_on env ev screen" "win_disconnected screen" "window_shown screen" "disconnect_started screen"
    "z \<longrightarrow> sizes_reported env ev" "icon_ok ev"
  shows "win_ok z (map_option snd (disconnection_event rnd env ev screen))"
proof -
  have w: "z \<longrightarrow> not_empty (window_size env)" using assms(6) by (simp add: sizes_reported_def)
  have call: "win_ok z (input_manager_call rnd env ev screen)" using calls_ok [OF assms(1,2) _ w] assms(4,5) by blast
  have snd: "map_option snd (map_option (Pair b) r) = r" for b :: bool and r :: win_result by (simp add: option.map_comp comp_def option.map_ident)
  note same = win_ok_same [OF assms(1)] and render = render_win_ok [OF assms(1,4)]
  show ?thesis
  proof (cases ev)
    case (Ev_icon_loaded w h)
    define screen' where "screen' = screen\<lparr>content_size := \<lparr>width = of_int w, height = of_int h\<rparr>\<rparr>"
    have "not_empty (content_size screen')" using assms(7) of_int16_nonzero by (simp add: Ev_icon_loaded icon_ok_def screen'_def)
    then have i: "win_inv screen'" "window_shown screen'"
      using assms(1,3,4) by (simp_all add: screen'_def win_inv_def win_config_def)
    from render_win_ok [OF i] same Ev_icon_loaded show ?thesis
      by (simp add: disconnection_event_def snd screen'_def [symmetric])
  next
    case (Ev_resized d1 d2)
    with assms on_resize_ok(1) [OF assms(1), of d1 d2 z] show ?thesis
      by (auto simp: disconnection_event_def snd aborts_on_def Let_def resize_event_def sizes_reported_def same)
  next
    case Ev_pixel_size_changed
    with on_resize_ok(2) [OF assms(1)] show ?thesis by (auto simp: disconnection_event_def snd resize_event_def same)
  qed (use call in \<open>simp_all add: disconnection_event_def snd same render\<close>)
qed

lemma after_abort:
  assumes "win_inv screen" "aborts_on env ev screen" "win_disconnected screen" "window_shown screen" "disconnect_started screen"
  shows "disconnection_event rnd env ev screen = None"
proof (cases ev)
  case (Ev_resized d1 d2)
  then have "continuous_resizing env" "flex_display screen" "\<not> fits16 d1 d2"
    using assms(2,3) by (auto simp: aborts_on_def Let_def)
  moreover from this have "win_video screen" using win_inv_config [OF assms(1)] by (simp add: win_config_def)
  ultimately show ?thesis using Ev_resized assms(4)
    by (simp add: disconnection_event_def resize_event_def sc_screen_on_resize_def resized_aborts)
qed (use assms(2-4) calls_abort [OF assms(2)] in \<open>simp_all add: disconnection_event_def aborts_on_def Let_def\<close>)

lemma event_aborts:
  assumes "win_inv screen" "icon_ok ev"
  shows "window_event rnd centered env ev screen = None \<longleftrightarrow> aborts_on env ev screen"
    "\<not> aborts_on env ev screen \<Longrightarrow> win_ok (sizes_reported env ev) (window_event rnd centered env ev screen)"
proof -
  show ok: "win_ok (sizes_reported env ev) (window_event rnd centered env ev screen)" if "\<not> aborts_on env ev screen"
    using before_ok [OF assms(1) that] after_ok [OF assms(1) that _ _ _ _ assms(2)] win_ok_same [OF assms(1)]
    by (auto simp: window_event_def)
  show "window_event rnd centered env ev screen = None \<longleftrightarrow> aborts_on env ev screen"
  proof (cases "aborts_on env ev screen")
    case True
    then have "win_disconnected screen \<Longrightarrow> window_shown screen \<and> disconnect_started screen" by (auto simp: aborts_on_def Let_def)
    with True before_abort [OF assms(1) True] after_abort [OF assms(1) True] show ?thesis by (auto simp: window_event_def)
  next
    case False
    with ok show ?thesis by (auto simp: win_ok_def)
  qed
qed

lemma win_reach_inv: "win_reach rnd centered screen \<Longrightarrow> win_inv screen"
proof (induction rule: win_reach.induct)
  case (start screen)
  then show ?case by (simp add: win_initial_def win_inv_def split: if_splits)
next
  case (event screen ev env screen' rs)
  have "\<not> aborts_on env ev screen" using event_aborts(1) [OF event.IH event.hyps(2), of rnd centered env] event.hyps(3) by auto
  from event_aborts(2) [OF event.IH event.hyps(2) this, of rnd centered] event.hyps(3) show ?case by (simp add: win_ok_def)
qed

text \<open>C29. When the window aborts, and that it follows the content: from its initialisation on, with or without a video, through
  the disconnection to the end, after any events of SDL and the threads and any calls of the input manager, handling an event fails
  if and only if it is one of those of \<open>aborts_on\<close>; otherwise, when the window is shown, its content is not empty
  and, until the disconnection, has the size of the frame turned by the orientation; and a request to
  resize the display of the device has a size the controller accepts, unless SDL reports an empty size. It is assumed that the
  options are resolved (a rendering fit that is not the automatic one, a flexible display only with a video that is no camera, one of the
  eight orientations), and that icons are not empty and fit 16 bits.\<close>

theorem window_follows_content:
  assumes "win_reach rnd centered screen" "icon_ok ev"
  shows "(window_event rnd centered env ev screen = None \<longleftrightarrow> aborts_on env ev screen) \<and>
    (\<forall>screen' rs. window_event rnd centered env ev screen = Some (screen', rs) \<longrightarrow>
       (window_shown screen' \<longrightarrow> not_empty (content_size screen')) \<and>
       (window_shown screen' \<and> win_video screen' \<and> \<not> win_disconnected screen' \<longrightarrow>
          get_oriented_size (frame_size screen') (win_orientation screen') = Some (content_size screen')) \<and>
       (sizes_reported env ev \<longrightarrow> (\<forall>w h. Resize_display w h \<in> set rs \<longrightarrow> good_event (Resize w h))))"
proof -
  note i = win_reach_inv [OF assms(1)]
  have a: "window_event rnd centered env ev screen = None \<longleftrightarrow> aborts_on env ev screen" by (rule event_aborts(1) [OF i assms(2)])
  have "win_inv screen' \<and> requests_ok (sizes_reported env ev) rs" if "window_event rnd centered env ev screen = Some (screen', rs)"
    for screen' rs
  proof -
    have "\<not> aborts_on env ev screen" using a that by auto
    from event_aborts(2) [OF i assms(2) this, of rnd centered] that show ?thesis by (simp add: win_ok_def)
  qed
  with a shown_content show ?thesis unfolding win_inv_def requests_ok_def by blast
qed

section \<open>Resizing a flexible display\<close>

lemma update_rect_keeps:
  "sc_screen_update_content_rect rnd env screen = Some screen' \<Longrightarrow> \<exists>r. screen' = screen\<lparr>win_rect := r\<rparr>"
  by (auto simp: sc_screen_update_content_rect_def bind_Some_iff Let_def)

text \<open>No echo: when the frames of a flexible display change size, the window is resized to follow them, and
  the resize event this causes (the same size, within three seconds) asks the device for nothing; the next
  resize by the user is a request again.\<close>

theorem resize_not_echoed:
  assumes "window_shown screen" "\<not> win_paused screen" "flex_display screen" "not_empty fs"
    "width fs \<noteq> width (frame_size screen) \<or> height fs \<noteq> height (frame_size screen)"
    "get_oriented_size fs (win_orientation screen) = Some new" "tick_now env \<noteq> 0"
    "tick_now env' < tick_now env + 3000000"
    "sc_screen_handle_event rnd centered env (Ev_new_frame (uint (width fs), uint (height fs), can_resize)) screen =
       Some (screen', rs)"
  shows "sc_screen_handle_event rnd centered env' (Ev_resized (uint (width new)) (uint (height new))) screen' =
    Some (screen'\<lparr>resize_tracker := \<lparr>tracker_time = 0, tracker_size = new\<rparr>\<rparr>, [])"
proof -
  let ?s = "sc_screen_track_resize env new (screen\<lparr>frame_size := fs\<rparr>)"
  have fs: "\<lparr>width = width fs, height = height fs\<rparr> = fs" by simp
  obtain s1 qs r where s1: "set_content_size env new can_resize ?s = Some (s1, qs)"
    "screen' = s1\<lparr>win_rect := r\<rparr>"
    using assms(1-6,9) fs
    by (auto simp: window_update_frame_def sc_screen_apply_frame_def sc_screen_render_def bind_Some_iff Let_def
        dest!: update_rect_keeps split: if_splits)
  from set_content_size_keeps [OF s1(1)] have "resize_tracker screen' = \<lparr>tracker_time = tick_now env, tracker_size = new\<rparr>"
    "window_shown screen'" "flex_display screen'" "win_video screen'"
    using s1(2) assms(1,3) by (simp_all add: sc_screen_track_resize_def)
  moreover have "uint n \<le> 0xFFFF" for n :: u16 using uint_lt2p [of n] by simp
  ultimately show ?thesis
    using assms(7,8) by (simp add: resize_event_def sc_screen_on_resize_def on_window_resized_def SC_TICK_FROM_MS_def)
qed

section \<open>A concrete window\<close>

definition flex_screen :: sc_window where
  "flex_screen = \<lparr>win_video = True, win_camera = False, window_aspect_ratio_lock = False, flex_display = True,
    relative_mode = False, win_req = \<lparr>req_x = None, req_y = None, req_width = 0, req_height = 0,
      req_fullscreen = False, req_start_fps_counter = False\<rparr>, render_fit = SC_RENDER_FIT_STRETCHED,
    frame_size = \<lparr>width = 640, height = 480\<rparr>, content_size = \<lparr>width = 640, height = 480\<rparr>, resize_pending = False,
    windowed_content_size = \<lparr>width = 0, height = 0\<rparr>, win_orientation = SC_ORIENTATION_0,
    win_rect = \<lparr>rect_x = 0, rect_y = 0, rect_w = 640, rect_h = 480\<rparr>, window_shown = True, win_paused = False,
    win_resume_frame = None, win_disconnected = False, disconnect_started = False,
    resize_tracker = \<lparr>tracker_time = 0, tracker_size = \<lparr>width = 0, height = 0\<rparr>\<rparr>\<rparr>"

definition flex_env :: window_env where
  "flex_env = \<lparr>is_windowed = True, is_fullscreen = False, window_size = \<lparr>width = 640, height = 480\<rparr>, window_x = 0,
    window_y = 0, display_bounds = None, tick_now = 5, fullscreen_ok = True, texture_ok = True, frame_alloc_ok = True,
    disconnect_ok = True, continuous_resizing = False\<rparr>"

lemma flex_ok: "win_inv flex_screen"
  by (simp add: win_inv_def win_config_def flex_screen_def orientation_ok_def SC_ORIENTATION_0_def
      get_oriented_size_def sc_orientation_is_swap_def)

text \<open>A window opened, then disconnected, then showing an icon.\<close>

theorem window_follows_content_witness:
  "\<exists>s1 s2 s3 rs1 rs2 rs3. window_event (\<lambda>z. z) 0 flex_env (Ev_open_window \<lparr>width = 1080, height = 2400\<rparr>)
       (flex_screen\<lparr>window_shown := False\<rparr>) = Some (s1, rs1) \<and>
     window_event (\<lambda>z. z) 0 flex_env Ev_device_disconnected s1 = Some (s2, rs2) \<and>
     window_event (\<lambda>z. z) 0 flex_env (Ev_icon_loaded 256 256) s2 = Some (s3, rs3) \<and> win_reach (\<lambda>z. z) 0 s3 \<and>
     window_event (\<lambda>z. z) 0 flex_env Ev_exposed (flex_screen\<lparr>window_shown := False\<rparr>) = None"
proof -
  let ?s = "flex_screen\<lparr>window_shown := False\<rparr>" and ?o = "Ev_open_window \<lparr>width = 1080, height = 2400\<rparr>"
  have r0: "win_reach (\<lambda>z. z) 0 ?s"
    by (rule win_reach.start) (simp add: win_initial_def win_config_def flex_screen_def orientation_ok_def SC_ORIENTATION_0_def)
  note f0 = window_follows_content [OF r0]
  have "\<not> aborts_on flex_env ?o ?s" by (simp add: aborts_on_def flex_screen_def flex_env_def)
  with f0 [of ?o flex_env] obtain s1 rs1 where e1: "window_event (\<lambda>z. z) 0 flex_env ?o ?s = Some (s1, rs1)"
    by (cases "window_event (\<lambda>z. z) 0 flex_env ?o ?s") (auto simp: icon_ok_def)
  have r1: "win_reach (\<lambda>z. z) 0 s1" by (rule win_reach.event [OF r0 _ e1]) (simp add: icon_ok_def)
  have "\<not> aborts_on env Ev_device_disconnected s" "\<not> aborts_on env (Ev_icon_loaded w h) s" for env s w h
    by (simp_all add: aborts_on_def)
  note safe = this
  from window_follows_content [OF r1, of Ev_device_disconnected flex_env] safe(1)
  obtain s2 rs2 where e2: "window_event (\<lambda>z. z) 0 flex_env Ev_device_disconnected s1 = Some (s2, rs2)"
    by (cases "window_event (\<lambda>z. z) 0 flex_env Ev_device_disconnected s1") (auto simp: icon_ok_def)
  have r2: "win_reach (\<lambda>z. z) 0 s2" by (rule win_reach.event [OF r1 _ e2]) (simp add: icon_ok_def)
  have i: "icon_ok (Ev_icon_loaded 256 256)" by (simp add: icon_ok_def)
  from window_follows_content [OF r2 i, of flex_env] safe(2)
  obtain s3 rs3 where e3: "window_event (\<lambda>z. z) 0 flex_env (Ev_icon_loaded 256 256) s2 = Some (s3, rs3)"
    by (cases "window_event (\<lambda>z. z) 0 flex_env (Ev_icon_loaded 256 256) s2") auto
  have r3: "win_reach (\<lambda>z. z) 0 s3" by (rule win_reach.event [OF r2 i e3])
  have "aborts_on flex_env Ev_exposed ?s" by (simp add: aborts_on_def flex_screen_def)
  with f0 [of Ev_exposed flex_env] have "window_event (\<lambda>z. z) 0 flex_env Ev_exposed ?s = None" by (simp add: icon_ok_def)
  with e1 e2 e3 r3 show ?thesis by blast
qed

theorem resize_not_echoed_witness:
  "\<exists>screen' rs screen''.
    sc_screen_handle_event (\<lambda>z. z) 0 flex_env (Ev_new_frame (800, 600, True)) flex_screen = Some (screen', rs) \<and>
    sc_screen_handle_event (\<lambda>z. z) 0 (flex_env\<lparr>tick_now := 1000\<rparr>) (Ev_resized 800 600) screen' = Some (screen'', [])"
proof -
  let ?fs = "\<lparr>width = 800, height = 600\<rparr> :: sc_size"
  have o: "get_oriented_size ?fs (win_orientation flex_screen) = Some ?fs"
    by (simp add: flex_screen_def get_oriented_size_def sc_orientation_is_swap_def SC_ORIENTATION_0_def)
  have "win_video flex_screen" "win_paused flex_screen \<or> window_shown flex_screen" "False \<longrightarrow> not_empty (window_size flex_env)"
    by (simp_all add: flex_screen_def)
  then obtain screen' rs where r:
    "sc_screen_handle_event (\<lambda>z. z) 0 flex_env (Ev_new_frame (800, 600, True)) flex_screen = Some (screen', rs)"
    by (rule win_okE [OF new_frame_ok [OF flex_ok]])
  have a: "window_shown flex_screen" "\<not> win_paused flex_screen" "flex_display flex_screen" "not_empty ?fs"
    "width ?fs \<noteq> width (frame_size flex_screen) \<or> height ?fs \<noteq> height (frame_size flex_screen)"
    by (simp_all add: flex_screen_def)
  have t: "tick_now flex_env \<noteq> 0" "tick_now (flex_env\<lparr>tick_now := 1000\<rparr>) < tick_now flex_env + 3000000"
    by (simp_all add: flex_env_def)
  have "sc_screen_handle_event (\<lambda>z. z) 0 flex_env (Ev_new_frame (uint (width ?fs), uint (height ?fs), True))
    flex_screen = Some (screen', rs)" using r by (simp del: sc_screen_handle_event.simps)
  from resize_not_echoed [OF a o t this] r show ?thesis by (simp del: sc_screen_handle_event.simps)
qed

end
