(* ===== verification/InputManager.thy ===== *)
theory InputManager
  imports Acksync KeyboardSdk MouseSdk ScreenWindow
begin

text \<open>
  \<^verbatim>\<open>app/src/input_manager.c\<close> and \<^verbatim>\<open>app/src/shortcut_mod.h\<close>: the dispatch of SDL input events to the processors, the
  shortcuts and the simulation of a second finger. A handler gives the actions it performs, in order: messages
  pushed to the controller, calls of the processors and of the screen. \<open>env\<close> is what SDL, the screen and the
  allocator report during a call; \<open>kc\<close> gives the value SDL assigns to a key.
\<close>

section \<open>State\<close>

datatype sc_mouse_binding =
    SC_MOUSE_BINDING_AUTO | SC_MOUSE_BINDING_DISABLED | SC_MOUSE_BINDING_CLICK | SC_MOUSE_BINDING_BACK
  | SC_MOUSE_BINDING_HOME | SC_MOUSE_BINDING_APP_SWITCH | SC_MOUSE_BINDING_EXPAND_NOTIFICATION_PANEL

record sc_mouse_binding_set =
  right_click :: sc_mouse_binding
  middle_click :: sc_mouse_binding
  click4 :: sc_mouse_binding
  click5 :: sc_mouse_binding

text \<open>What the manager sees of the processors: the flags, and which optional operations they have.\<close>

record key_processor =
  async_paste :: bool
  kp_hid :: bool
  has_process_text :: bool

record mouse_processor =
  mp_relative_mode :: bool
  has_process_touch :: bool
  has_process_scroll :: bool

record sc_input_manager =
  im_controller :: bool
  im_kp :: "key_processor option"
  im_mp :: "mouse_processor option"
  im_gp :: bool
  im_camera :: bool
  bindings_pri :: sc_mouse_binding_set
  bindings_sec :: sc_mouse_binding_set
  legacy_paste :: bool
  clipboard_autosync :: bool
  sdl_shortcut_mods :: "sc_mod set"
  vfinger_down :: bool
  vfinger_invert_x :: bool
  vfinger_invert_y :: bool
  mouse_buttons_state :: "sc_mouse_button set"
  im_key_repeat :: u32
  last_keycode :: int
  last_mod :: "sc_mod set"
  next_sequence :: u64
  im_disconnected :: bool

record im_env =
  env_screen :: sc_window
  env_paused :: bool
  env_mod_state :: "sc_mod set"
  env_clipboard :: "byte_buf option"
  env_dup_ok :: bool
  env_push_ok :: bool
  env_window_size :: sc_size
  env_mouse_x :: rat
  env_mouse_y :: rat
  env_fps_started :: bool

datatype im_action =
    Push_msg sc_control_msg
  | Kp_key sc_key_event u64
  | Kp_text byte_buf
  | Mp_motion sc_mouse_motion_event
  | Mp_click sc_mouse_click_event
  | Mp_scroll sc_mouse_scroll_event
  | Mp_touch sc_touch_event
  | Gp_added u32
  | Gp_removed u32
  | Gp_axis sc_gamepad_axis_event
  | Gp_button sc_gamepad_button_event
  | Screen screen_event
  | Set_paused bool
  | Fps_start
  | Fps_stop
  | Push_quit
  | File_request bool byte_buf

definition SC_POINTER_ID_MOUSE :: u64 where "SC_POINTER_ID_MOUSE = - 1"
definition SC_POINTER_ID_GENERIC_FINGER :: u64 where "SC_POINTER_ID_GENERIC_FINGER = - 2"
definition SC_POINTER_ID_VIRTUAL_FINGER :: u64 where "SC_POINTER_ID_VIRTUAL_FINGER = - 3"

definition AKEYCODE_HOME :: int where "AKEYCODE_HOME = 3"
definition AKEYCODE_BACK :: int where "AKEYCODE_BACK = 4"
definition AKEYCODE_VOLUME_UP :: int where "AKEYCODE_VOLUME_UP = 24"
definition AKEYCODE_VOLUME_DOWN :: int where "AKEYCODE_VOLUME_DOWN = 25"
definition AKEYCODE_POWER :: int where "AKEYCODE_POWER = 26"
definition AKEYCODE_MENU :: int where "AKEYCODE_MENU = 82"
definition AKEYCODE_APP_SWITCH :: int where "AKEYCODE_APP_SWITCH = 187"

section \<open>Shortcut modifiers\<close>

datatype sc_shortcut_mod =
    SC_SHORTCUT_MOD_LCTRL | SC_SHORTCUT_MOD_RCTRL | SC_SHORTCUT_MOD_LALT | SC_SHORTCUT_MOD_RALT
  | SC_SHORTCUT_MOD_LSUPER | SC_SHORTCUT_MOD_RSUPER

definition SC_SDL_SHORTCUT_MODS_MASK :: "sc_mod set" where
  "SC_SDL_SHORTCUT_MODS_MASK =
     {SC_MOD_LCTRL, SC_MOD_RCTRL} \<union> {SC_MOD_LALT, SC_MOD_RALT} \<union> {SC_MOD_LGUI, SC_MOD_RGUI}"

definition sc_shortcut_mods_to_sdl :: "sc_shortcut_mod set \<Rightarrow> sc_mod set" where
  "sc_shortcut_mods_to_sdl ms =
     (if SC_SHORTCUT_MOD_LCTRL \<in> ms then {SC_MOD_LCTRL} else {}) \<union>
     (if SC_SHORTCUT_MOD_RCTRL \<in> ms then {SC_MOD_RCTRL} else {}) \<union>
     (if SC_SHORTCUT_MOD_LALT \<in> ms then {SC_MOD_LALT} else {}) \<union>
     (if SC_SHORTCUT_MOD_RALT \<in> ms then {SC_MOD_RALT} else {}) \<union>
     (if SC_SHORTCUT_MOD_LSUPER \<in> ms then {SC_MOD_LGUI} else {}) \<union>
     (if SC_SHORTCUT_MOD_RSUPER \<in> ms then {SC_MOD_RGUI} else {})"

definition sc_shortcut_mods_is_shortcut_mod :: "sc_mod set \<Rightarrow> sc_mod set \<Rightarrow> bool option" where
  "sc_shortcut_mods_is_shortcut_mod shortcut_mods mods = do {
     c_assert (shortcut_mods \<subseteq> SC_SDL_SHORTCUT_MODS_MASK);
     Some (mods \<inter> shortcut_mods \<noteq> {})
   }"

definition sc_shortcut_mods_is_shortcut_key :: "(string \<Rightarrow> int) \<Rightarrow> sc_mod set \<Rightarrow> int \<Rightarrow> bool" where
  "sc_shortcut_mods_is_shortcut_key kc shortcut_mods key \<longleftrightarrow>
     SC_MOD_LCTRL \<in> shortcut_mods \<and> key = kc ''LCTRL'' \<or> SC_MOD_RCTRL \<in> shortcut_mods \<and> key = kc ''RCTRL'' \<or>
     SC_MOD_LALT \<in> shortcut_mods \<and> key = kc ''LALT'' \<or> SC_MOD_RALT \<in> shortcut_mods \<and> key = kc ''RALT'' \<or>
     SC_MOD_LGUI \<in> shortcut_mods \<and> key = kc ''LGUI'' \<or> SC_MOD_RGUI \<in> shortcut_mods \<and> key = kc ''RGUI''"

section \<open>Requests\<close>

type_synonym im_actions = "im_action list option"

definition has_controller :: "sc_input_manager \<Rightarrow> unit option" where
  "has_controller im = c_assert (im_controller im \<and> \<not> im_camera im)"

definition has_keyboard :: "sc_input_manager \<Rightarrow> unit option" where
  "has_keyboard im = c_assert (im_controller im \<and> im_kp im \<noteq> None \<and> \<not> im_camera im)"

definition send_keycode :: "sc_input_manager \<Rightarrow> int \<Rightarrow> sc_action \<Rightarrow> im_actions" where
  "send_keycode im keycode action = do {
     has_keyboard im;
     Some [Push_msg (INJECT_KEYCODE
       (if action = SC_ACTION_DOWN then AKEY_EVENT_ACTION_DOWN else AKEY_EVENT_ACTION_UP) (of_int keycode) 0 0)]
   }"

definition action_home :: "sc_input_manager \<Rightarrow> sc_action \<Rightarrow> im_actions" where
  "action_home im action = send_keycode im AKEYCODE_HOME action"

definition action_back :: "sc_input_manager \<Rightarrow> sc_action \<Rightarrow> im_actions" where
  "action_back im action = send_keycode im AKEYCODE_BACK action"

definition action_app_switch :: "sc_input_manager \<Rightarrow> sc_action \<Rightarrow> im_actions" where
  "action_app_switch im action = send_keycode im AKEYCODE_APP_SWITCH action"

definition action_power :: "sc_input_manager \<Rightarrow> sc_action \<Rightarrow> im_actions" where
  "action_power im action = send_keycode im AKEYCODE_POWER action"

definition action_volume_up :: "sc_input_manager \<Rightarrow> sc_action \<Rightarrow> im_actions" where
  "action_volume_up im action = send_keycode im AKEYCODE_VOLUME_UP action"

definition action_volume_down :: "sc_input_manager \<Rightarrow> sc_action \<Rightarrow> im_actions" where
  "action_volume_down im action = send_keycode im AKEYCODE_VOLUME_DOWN action"

definition action_menu :: "sc_input_manager \<Rightarrow> sc_action \<Rightarrow> im_actions" where
  "action_menu im action = send_keycode im AKEYCODE_MENU action"

definition press_back_or_turn_screen_on :: "sc_input_manager \<Rightarrow> sc_action \<Rightarrow> im_actions" where
  "press_back_or_turn_screen_on im action = do {
     has_keyboard im;
     Some [Push_msg (BACK_OR_SCREEN_ON
       (if action = SC_ACTION_DOWN then AKEY_EVENT_ACTION_DOWN else AKEY_EVENT_ACTION_UP))]
   }"

definition expand_notification_panel :: "sc_input_manager \<Rightarrow> im_actions" where
  "expand_notification_panel im = do { has_controller im; Some [Push_msg EXPAND_NOTIFICATION_PANEL] }"

definition expand_settings_panel :: "sc_input_manager \<Rightarrow> im_actions" where
  "expand_settings_panel im = do { has_controller im; Some [Push_msg EXPAND_SETTINGS_PANEL] }"

definition collapse_panels :: "sc_input_manager \<Rightarrow> im_actions" where
  "collapse_panels im = do { has_controller im; Some [Push_msg COLLAPSE_PANELS] }"

definition get_device_clipboard :: "sc_input_manager \<Rightarrow> sc_copy_key \<Rightarrow> im_actions" where
  "get_device_clipboard im ck = do { has_keyboard im; Some [Push_msg (GET_CLIPBOARD ck)] }"

text \<open>The boolean is the result of the C function.\<close>

definition set_device_clipboard :: "im_env \<Rightarrow> sc_input_manager \<Rightarrow> bool \<Rightarrow> u64 \<Rightarrow> (bool \<times> im_action list) option" where
  "set_device_clipboard env im paste sequence = do {
     has_keyboard im;
     (case env_clipboard env of
        None \<Rightarrow> Some (False, [])
      | Some s \<Rightarrow>
          if \<not> env_dup_ok env then Some (False, [])
          else Some (env_push_ok env, [Push_msg (SET_CLIPBOARD sequence (Some s) paste)]))
   }"

definition set_display_power :: "sc_input_manager \<Rightarrow> bool \<Rightarrow> im_actions" where
  "set_display_power im on = do { has_controller im; Some [Push_msg (SET_DISPLAY_POWER on)] }"

definition switch_fps_counter_state :: "im_env \<Rightarrow> im_actions" where
  "switch_fps_counter_state env = Some [if env_fps_started env then Fps_stop else Fps_start]"

definition clipboard_paste :: "im_env \<Rightarrow> sc_input_manager \<Rightarrow> im_actions" where
  "clipboard_paste env im = do {
     has_keyboard im;
     (case env_clipboard env of
        None \<Rightarrow> Some []
      | Some s \<Rightarrow> if s = [] \<or> \<not> env_dup_ok env then Some [] else Some [Push_msg (INJECT_TEXT (Some s))])
   }"

definition rotate_device :: "sc_input_manager \<Rightarrow> im_actions" where
  "rotate_device im = do { has_controller im; Some [Push_msg ROTATE_DEVICE] }"

definition open_hard_keyboard_settings :: "sc_input_manager \<Rightarrow> im_actions" where
  "open_hard_keyboard_settings im = do { has_controller im; Some [Push_msg OPEN_HARD_KEYBOARD_SETTINGS] }"

definition reset_video :: "sc_input_manager \<Rightarrow> im_actions" where
  "reset_video im = do { c_assert (im_controller im); Some [Push_msg RESET_VIDEO] }"

definition camera_set_torch :: "sc_input_manager \<Rightarrow> bool \<Rightarrow> im_actions" where
  "camera_set_torch im on = do {
     c_assert (im_controller im \<and> im_camera im);
     Some [Push_msg (CAMERA_SET_TORCH on)]
   }"

definition camera_zoom_in :: "sc_input_manager \<Rightarrow> im_actions" where
  "camera_zoom_in im = do { c_assert (im_controller im \<and> im_camera im); Some [Push_msg CAMERA_ZOOM_IN] }"

definition camera_zoom_out :: "sc_input_manager \<Rightarrow> im_actions" where
  "camera_zoom_out im = do { c_assert (im_controller im \<and> im_camera im); Some [Push_msg CAMERA_ZOOM_OUT] }"

definition apply_orientation_transform :: "im_env \<Rightarrow> u32 \<Rightarrow> im_actions" where
  "apply_orientation_transform env transform = do {
     n \<leftarrow> sc_orientation_apply (win_orientation (env_screen env)) transform;
     Some [Screen (Call_set_orientation n)]
   }"

definition sc_input_manager_process_text_input :: "im_env \<Rightarrow> byte_buf \<Rightarrow> sc_input_manager \<Rightarrow> im_actions" where
  "sc_input_manager_process_text_input env s im =
     (case im_kp im of
        None \<Rightarrow> Some []
      | Some kp \<Rightarrow>
          if im_camera im \<or> env_paused env \<or> im_disconnected im then Some []
          else if \<not> has_process_text kp then Some []
          else do {
            shortcut \<leftarrow> sc_shortcut_mods_is_shortcut_mod (sdl_shortcut_mods im) (env_mod_state env);
            Some (if shortcut then [] else [Kp_text s])
          })"

section \<open>Keys\<close>

record key_input =
  ki_down :: bool
  ki_key :: int
  ki_scancode :: int
  ki_mods :: "sc_mod set"
  ki_repeat :: bool

abbreviation ctrl_in :: "sc_mod set \<Rightarrow> bool" where
  "ctrl_in mods \<equiv> mods \<inter> {SC_MOD_LCTRL, SC_MOD_RCTRL} \<noteq> {}"

abbreviation shift_in :: "sc_mod set \<Rightarrow> bool" where
  "shift_in mods \<equiv> mods \<inter> {SC_MOD_LSHIFT, SC_MOD_RSHIFT} \<noteq> {}"

text \<open>A \<^verbatim>\<open>switch\<close> of the handler either returns from the function, after some actions, or falls through.\<close>

datatype flow = Return "im_action list" | Fall_through

definition return_if :: "bool \<Rightarrow> im_actions \<Rightarrow> flow option" where
  "return_if c acts = (if c then map_option Return acts else Some (Return []))"

text \<open>The counter of identical shortcut presses.\<close>

definition count_key :: "key_input \<Rightarrow> sc_input_manager \<Rightarrow> sc_input_manager" where
  "count_key e im =
     (if ki_down e \<and> \<not> ki_repeat e \<and> \<not> im_disconnected im then
        (if ki_key e = last_keycode im \<and> ki_mods e = last_mod im
         then im\<lparr>im_key_repeat := im_key_repeat im + 1\<rparr>
         else im\<lparr>im_key_repeat := 0, last_keycode := ki_key e, last_mod := ki_mods e\<rparr>)
      else im)"

text \<open>The shortcuts that do not concern the device.\<close>

definition shortcut_local :: "(string \<Rightarrow> int) \<Rightarrow> im_env \<Rightarrow> key_input \<Rightarrow> flow option" where
  "shortcut_local kc env e =
     (let key = ki_key e; shift = shift_in (ki_mods e);
          video = win_video (env_screen env);
          press = (video \<and> \<not> ki_repeat e \<and> ki_down e) in
      if key = kc ''z'' then return_if press (Some [Set_paused (\<not> shift)])
      else if key = kc ''DOWN'' \<and> shift
      then return_if press (apply_orientation_transform env SC_ORIENTATION_FLIP_180)
      else if key = kc ''UP'' \<and> shift
      then return_if press (apply_orientation_transform env SC_ORIENTATION_FLIP_180)
      else if key = kc ''LEFT''
      then return_if press (apply_orientation_transform env (if shift then SC_ORIENTATION_FLIP_0 else SC_ORIENTATION_270))
      else if key = kc ''RIGHT''
      then return_if press (apply_orientation_transform env (if shift then SC_ORIENTATION_FLIP_0 else SC_ORIENTATION_90))
      else if key = kc ''f'' then return_if (press \<and> \<not> shift) (Some [Screen Call_toggle_fullscreen])
      else if key = kc ''w'' then return_if (press \<and> \<not> shift) (Some [Screen Call_resize_to_fit])
      else if key = kc ''g'' then return_if (press \<and> \<not> shift) (Some [Screen Call_resize_to_pixel_perfect])
      else if key = kc ''i'' then return_if (press \<and> \<not> shift) (switch_fps_counter_state env)
      else if key = kc ''q'' then Some (Return [Push_quit])
      else Some Fall_through)"

text \<open>The shortcuts for a device that is controlled, from any source, then for a display, then for a camera.\<close>

definition shortcut_any_source :: "(string \<Rightarrow> int) \<Rightarrow> im_env \<Rightarrow> key_input \<Rightarrow> sc_input_manager \<Rightarrow> flow option" where
  "shortcut_any_source kc env e im =
     (if ki_key e = kc ''r'' \<and> shift_in (ki_mods e)
      then return_if (\<not> ki_repeat e \<and> ki_down e \<and> \<not> env_paused env) (reset_video im)
      else Some Fall_through)"

definition paste_shortcut :: "im_env \<Rightarrow> bool \<Rightarrow> sc_input_manager \<Rightarrow> im_actions" where
  "paste_shortcut env shift im =
     (if shift \<or> legacy_paste im then clipboard_paste env im
      else map_option snd (set_device_clipboard env im True SC_SEQUENCE_INVALID))"

definition panel_shortcut :: "bool \<Rightarrow> sc_input_manager \<Rightarrow> im_actions" where
  "panel_shortcut shift im =
     (if shift then collapse_panels im
      else if im_key_repeat im = 0 then expand_notification_panel im
      else expand_settings_panel im)"

definition shortcut_display :: "(string \<Rightarrow> int) \<Rightarrow> im_env \<Rightarrow> key_input \<Rightarrow> sc_input_manager \<Rightarrow> flow option" where
  "shortcut_display kc env e im =
     (let key = ki_key e; shift = shift_in (ki_mods e); kp = (im_kp im \<noteq> None);
          action = (if ki_down e then SC_ACTION_DOWN else SC_ACTION_UP);
          active = (\<not> ki_repeat e \<and> \<not> env_paused env);
          press = (active \<and> ki_down e) in
      if key = kc ''h'' then return_if (kp \<and> \<not> shift \<and> active) (action_home im action)
      else if key = kc ''b'' \<or> key = kc ''BACKSPACE'' then return_if (kp \<and> \<not> shift \<and> active) (action_back im action)
      else if key = kc ''s'' then return_if (kp \<and> \<not> shift \<and> active) (action_app_switch im action)
      else if key = kc ''m'' then return_if (kp \<and> \<not> shift \<and> active) (action_menu im action)
      else if key = kc ''p'' then return_if (kp \<and> \<not> shift \<and> active) (action_power im action)
      else if key = kc ''o'' then return_if (im_controller im \<and> press) (set_display_power im shift)
      else if key = kc ''DOWN'' then return_if (kp \<and> \<not> shift \<and> \<not> env_paused env) (action_volume_down im action)
      else if key = kc ''UP'' then return_if (kp \<and> \<not> shift \<and> \<not> env_paused env) (action_volume_up im action)
      else if key = kc ''c'' then return_if (kp \<and> \<not> shift \<and> press) (get_device_clipboard im SC_COPY_KEY_COPY)
      else if key = kc ''x'' then return_if (kp \<and> \<not> shift \<and> press) (get_device_clipboard im SC_COPY_KEY_CUT)
      else if key = kc ''v'' then return_if (kp \<and> press) (paste_shortcut env shift im)
      else if key = kc ''n'' then return_if press (panel_shortcut shift im)
      else if key = kc ''r'' then return_if (\<not> shift \<and> press) (rotate_device im)
      else if key = kc ''k''
      then return_if (\<not> shift \<and> press \<and> (case im_kp im of Some k \<Rightarrow> kp_hid k | None \<Rightarrow> False)) (open_hard_keyboard_settings im)
      else Some Fall_through)"

definition shortcut_camera :: "(string \<Rightarrow> int) \<Rightarrow> im_env \<Rightarrow> key_input \<Rightarrow> sc_input_manager \<Rightarrow> flow option" where
  "shortcut_camera kc env e im =
     (let key = ki_key e; shift = shift_in (ki_mods e) in
      if key = kc ''t'' then return_if (\<not> ki_repeat e \<and> ki_down e) (camera_set_torch im (\<not> shift))
      else if key = kc ''DOWN'' then return_if (\<not> shift \<and> ki_down e \<and> \<not> env_paused env) (camera_zoom_out im)
      else if key = kc ''UP'' then return_if (\<not> shift \<and> ki_down e \<and> \<not> env_paused env) (camera_zoom_in im)
      else Some Fall_through)"

definition or_else :: "flow option \<Rightarrow> flow option \<Rightarrow> flow option" where
  "or_else a b = do { f \<leftarrow> a; case f of Return acts \<Rightarrow> Some (Return acts) | Fall_through \<Rightarrow> b }"

text \<open>The branch for shortcuts, which always returns.\<close>

definition process_shortcut :: "(string \<Rightarrow> int) \<Rightarrow> im_env \<Rightarrow> key_input \<Rightarrow> sc_input_manager \<Rightarrow> im_actions" where
  "process_shortcut kc env e im = do {
     f \<leftarrow> or_else (shortcut_local kc env e)
            (if im_disconnected im then Some Fall_through
             else or_else (if im_controller im then shortcut_any_source kc env e im else Some Fall_through)
                 (or_else (if im_controller im \<and> \<not> im_camera im then shortcut_display kc env e im else Some Fall_through)
                    (if im_controller im \<and> im_camera im then shortcut_camera kc env e im else Some Fall_through)));
     Some (case f of Return acts \<Rightarrow> acts | Fall_through \<Rightarrow> [])
   }"

text \<open>A key that is no shortcut, given to the processor; Ctrl+v may first synchronise the clipboard. The
  boolean says whether the key is still to be given to the processor, with the sequence to wait for.\<close>

definition sync_clipboard ::
  "(string \<Rightarrow> int) \<Rightarrow> im_env \<Rightarrow> key_input \<Rightarrow> key_processor \<Rightarrow> sc_input_manager \<Rightarrow>
   (bool \<times> u64 \<times> sc_input_manager \<times> im_action list) option" where
  "sync_clipboard kc env e kp im =
     (if clipboard_autosync im \<and> ctrl_in (ki_mods e) \<and> \<not> shift_in (ki_mods e) \<and> ki_key e = kc ''v'' \<and>
         ki_down e \<and> \<not> ki_repeat e
      then
        (if legacy_paste im then do { acts \<leftarrow> clipboard_paste env im; Some (False, SC_SEQUENCE_INVALID, im, acts) }
         else do {
           let sequence = (if async_paste kp then next_sequence im else SC_SEQUENCE_INVALID);
           (ok, acts) \<leftarrow> set_device_clipboard env im False sequence;
           if \<not> ok then Some (False, SC_SEQUENCE_INVALID, im, acts)
           else if async_paste kp then Some (True, sequence, im\<lparr>next_sequence := next_sequence im + 1\<rparr>, acts)
           else Some (True, SC_SEQUENCE_INVALID, im, acts)
         })
      else Some (True, SC_SEQUENCE_INVALID, im, []))"

definition process_plain_key ::
  "(string \<Rightarrow> int) \<Rightarrow> im_env \<Rightarrow> key_input \<Rightarrow> sc_input_manager \<Rightarrow> (sc_input_manager \<times> im_action list) option" where
  "process_plain_key kc env e im =
     (case im_kp im of
        None \<Rightarrow> Some (im, [])
      | Some kp \<Rightarrow>
          if env_paused env then Some (im, [])
          else do {
            c_assert (\<not> im_camera im);
            (proceed, ack_to_wait, im, acts) \<leftarrow> sync_clipboard kc env e kp im;
            if \<not> proceed \<or> ki_key e = kc ''UNKNOWN'' \<or> ki_scancode e = 0 then Some (im, acts)
            else Some (im, acts @ [Kp_key
              \<lparr>key_action = (if ki_down e then SC_ACTION_DOWN else SC_ACTION_UP), key_keycode = ki_key e,
               key_scancode = ki_scancode e, key_mods_state = ki_mods e, key_repeat = ki_repeat e\<rparr> ack_to_wait])
          })"

definition sc_input_manager_process_key ::
  "(string \<Rightarrow> int) \<Rightarrow> im_env \<Rightarrow> key_input \<Rightarrow> sc_input_manager \<Rightarrow> (sc_input_manager \<times> im_action list) option" where
  "sc_input_manager_process_key kc env e im = do {
     by_mod \<leftarrow> sc_shortcut_mods_is_shortcut_mod (sdl_shortcut_mods im) (ki_mods e);
     let is_shortcut = (by_mod \<or> sc_shortcut_mods_is_shortcut_key kc (sdl_shortcut_mods im) (ki_key e));
     let im = count_key e im;
     if ki_key e = kc ''F11'' then
       Some (im, if win_video (env_screen env) \<and> \<not> ki_repeat e \<and> ki_down e \<and>
                    \<not> ctrl_in (ki_mods e) \<and> \<not> shift_in (ki_mods e) \<and>
                    ki_mods e \<inter> {SC_MOD_LALT, SC_MOD_RALT} = {} \<and> ki_mods e \<inter> {SC_MOD_LGUI, SC_MOD_RGUI} = {}
                 then [Screen Call_toggle_fullscreen] else [])
     else if is_shortcut then do { acts \<leftarrow> process_shortcut kc env e im; Some (im, acts) }
     else process_plain_key kc env e im
   }"

section \<open>Pointer\<close>

text \<open>The coordinates of a point on the frame are those of \<^verbatim>\<open>int32_t\<close>. The conversion asserts that there is a video.\<close>

definition to_point :: "int \<times> int \<Rightarrow> sc_point" where
  "to_point p = \<lparr>point_x = of_int (fst p), point_y = of_int (snd p)\<rparr>"

definition frame_coords :: "(rat \<Rightarrow> rat) \<Rightarrow> im_env \<Rightarrow> int \<Rightarrow> int \<Rightarrow> (int \<times> int) option" where
  "frame_coords rnd env x y = do {
     c_assert (win_video (env_screen env));
     sc_screen_convert_window_to_frame_coords rnd (win_orientation (env_screen env)) (content_size (env_screen env))
       (win_rect (env_screen env)) x y
   }"

text \<open>The boolean is the result of the C function.\<close>

definition simulate_virtual_finger ::
  "im_env \<Rightarrow> sc_input_manager \<Rightarrow> u32 \<Rightarrow> sc_point \<Rightarrow> (bool \<times> im_action list) option" where
  "simulate_virtual_finger env im action p = do {
     c_assert (im_controller im);
     Some (env_push_ok env,
       [Push_msg (INJECT_TOUCH_EVENT action 0 0 SC_POINTER_ID_VIRTUAL_FINGER
          \<lparr>screen_size = frame_size (env_screen env), point = p\<rparr>
          (if action = AMOTION_EVENT_ACTION_UP then 0 else 1))])
   }"

definition inverse_point :: "sc_point \<Rightarrow> sc_size \<Rightarrow> bool \<Rightarrow> bool \<Rightarrow> sc_point" where
  "inverse_point p s invert_x invert_y =
     \<lparr>point_x = (if invert_x then ucast (width s) - point_x p else point_x p),
      point_y = (if invert_y then ucast (height s) - point_y p else point_y p)\<rparr>"

definition sc_input_manager_get_position ::
  "(rat \<Rightarrow> rat) \<Rightarrow> im_env \<Rightarrow> mouse_processor \<Rightarrow> int \<Rightarrow> int \<Rightarrow> sc_position option" where
  "sc_input_manager_get_position rnd env mp x y =
     (if mp_relative_mode mp
      then Some \<lparr>screen_size = \<lparr>width = 0, height = 0\<rparr>, point = \<lparr>point_x = 0, point_y = 0\<rparr>\<rparr>
      else do {
        p \<leftarrow> frame_coords rnd env x y;
        Some \<lparr>screen_size = frame_size (env_screen env), point = to_point p\<rparr>
      })"

text \<open>The mouse events of SDL: \<open>from_touch\<close> is the comparison of the device with \<^verbatim>\<open>SDL_TOUCH_MOUSEID\<close>.\<close>

record motion_input =
  mi_from_touch :: bool
  mi_x :: rat
  mi_y :: rat
  mi_xrel :: rat
  mi_yrel :: rat

record button_input =
  bi_from_touch :: bool
  bi_down :: bool
  bi_button :: sc_mouse_button
  bi_clicks :: nat
  bi_x :: rat
  bi_y :: rat

record touch_input =
  ti_action :: sc_touch_action
  ti_finger :: u64
  ti_x :: rat
  ti_y :: rat
  ti_pressure :: rat

text \<open>The position of the virtual finger for a mouse at a position of the window.\<close>

definition vfinger_point :: "(rat \<Rightarrow> rat) \<Rightarrow> im_env \<Rightarrow> sc_input_manager \<Rightarrow> rat \<Rightarrow> rat \<Rightarrow> sc_point option" where
  "vfinger_point rnd env im x y = do {
     x \<leftarrow> to_int32 x;
     y \<leftarrow> to_int32 y;
     mouse \<leftarrow> frame_coords rnd env x y;
     Some (inverse_point (to_point mouse) (frame_size (env_screen env)) (vfinger_invert_x im) (vfinger_invert_y im))
   }"

definition sc_input_manager_process_mouse_motion ::
  "(rat \<Rightarrow> rat) \<Rightarrow> im_env \<Rightarrow> motion_input \<Rightarrow> sc_input_manager \<Rightarrow> im_actions" where
  "sc_input_manager_process_mouse_motion rnd env e im =
     (case im_mp im of
        None \<Rightarrow> Some []
      | Some mp \<Rightarrow>
          if im_camera im \<or> env_paused env \<or> im_disconnected im \<or> mi_from_touch e then Some []
          else do {
            x \<leftarrow> to_int32 (mi_x e);
            y \<leftarrow> to_int32 (mi_y e);
            position \<leftarrow> sc_input_manager_get_position rnd env mp x y;
            dx \<leftarrow> to_int32 (mi_xrel e);
            dy \<leftarrow> to_int32 (mi_yrel e);
            let evt = \<lparr>motion_position = position,
                       motion_pointer_id = (if vfinger_down im then SC_POINTER_ID_GENERIC_FINGER else SC_POINTER_ID_MOUSE),
                       xrel = dx, yrel = dy, motion_buttons_state = mouse_buttons_state im\<rparr>;
            c_assert (\<not> mp_relative_mode mp \<or> \<not> vfinger_down im);
            if vfinger_down im then do {
              vfinger \<leftarrow> vfinger_point rnd env im (mi_x e) (mi_y e);
              (ok, acts) \<leftarrow> simulate_virtual_finger env im AMOTION_EVENT_ACTION_MOVE vfinger;
              Some (Mp_motion evt # acts)
            } else Some [Mp_motion evt]
          })"

definition sc_input_manager_process_touch ::
  "(rat \<Rightarrow> rat) \<Rightarrow> im_env \<Rightarrow> touch_input \<Rightarrow> sc_input_manager \<Rightarrow> im_actions" where
  "sc_input_manager_process_touch rnd env e im =
     (case im_mp im of
        None \<Rightarrow> Some []
      | Some mp \<Rightarrow>
          if im_camera im \<or> env_paused env \<or> im_disconnected im \<or> \<not> has_process_touch mp then Some []
          else do {
            x \<leftarrow> to_int32 (rnd (ti_x e * of_nat (unat (width (env_window_size env)))));
            y \<leftarrow> to_int32 (rnd (ti_y e * of_nat (unat (height (env_window_size env)))));
            p \<leftarrow> frame_coords rnd env x y;
            Some [Mp_touch \<lparr>touch_position = \<lparr>screen_size = frame_size (env_screen env), point = to_point p\<rparr>,
                            touch_action = ti_action e, touch_pointer_id = ti_finger e, touch_pressure = ti_pressure e\<rparr>]
          })"

fun sc_input_manager_get_binding :: "sc_mouse_binding_set \<Rightarrow> sc_mouse_button \<Rightarrow> sc_mouse_binding" where
  "sc_input_manager_get_binding bs SC_MOUSE_BUTTON_LEFT = SC_MOUSE_BINDING_CLICK"
| "sc_input_manager_get_binding bs SC_MOUSE_BUTTON_RIGHT = right_click bs"
| "sc_input_manager_get_binding bs SC_MOUSE_BUTTON_MIDDLE = middle_click bs"
| "sc_input_manager_get_binding bs SC_MOUSE_BUTTON_X1 = click4 bs"
| "sc_input_manager_get_binding bs SC_MOUSE_BUTTON_X2 = click5 bs"
| "sc_input_manager_get_binding bs SC_MOUSE_BUTTON_UNKNOWN = SC_MOUSE_BINDING_DISABLED"

text \<open>The \<^verbatim>\<open>switch\<close> over the bindings: the click binding falls through.\<close>

fun run_binding :: "sc_input_manager \<Rightarrow> button_input \<Rightarrow> sc_mouse_binding \<Rightarrow> flow option" where
  "run_binding im e SC_MOUSE_BINDING_AUTO = None"
| "run_binding im e SC_MOUSE_BINDING_DISABLED = Some (Return [])"
| "run_binding im e SC_MOUSE_BINDING_BACK =
     return_if (im_kp im \<noteq> None)
       (press_back_or_turn_screen_on im (if bi_down e then SC_ACTION_DOWN else SC_ACTION_UP))"
| "run_binding im e SC_MOUSE_BINDING_HOME =
     return_if (im_kp im \<noteq> None) (action_home im (if bi_down e then SC_ACTION_DOWN else SC_ACTION_UP))"
| "run_binding im e SC_MOUSE_BINDING_APP_SWITCH =
     return_if (im_kp im \<noteq> None) (action_app_switch im (if bi_down e then SC_ACTION_DOWN else SC_ACTION_UP))"
| "run_binding im e SC_MOUSE_BINDING_EXPAND_NOTIFICATION_PANEL =
     return_if (bi_down e) (if bi_clicks e < 2 then expand_notification_panel im else expand_settings_panel im)"
| "run_binding im e SC_MOUSE_BINDING_CLICK = Some Fall_through"

text \<open>A point of the window outside the content.\<close>

definition outside_content :: "(rat \<Rightarrow> rat) \<Rightarrow> im_env \<Rightarrow> int \<Rightarrow> int \<Rightarrow> bool" where
  "outside_content rnd env x y \<longleftrightarrow>
     (let r = win_rect (env_screen env) in
      rnd (of_int x) < rect_x r \<or> rnd (of_int x) \<ge> rnd (rect_x r + rect_w r) \<or>
      rnd (of_int y) < rect_y r \<or> rnd (of_int y) \<ge> rnd (rect_y r + rect_h r))"

definition double_click_outside :: "(rat \<Rightarrow> rat) \<Rightarrow> im_env \<Rightarrow> button_input \<Rightarrow> sc_input_manager \<Rightarrow> flow option" where
  "double_click_outside rnd env e im =
     (if win_video (env_screen env) \<and> \<not> (case im_mp im of Some mp \<Rightarrow> mp_relative_mode mp | None \<Rightarrow> False) \<and>
         bi_button e = SC_MOUSE_BUTTON_LEFT \<and> bi_clicks e = 2
      then do {
        x \<leftarrow> to_int32 (bi_x e);
        y \<leftarrow> to_int32 (bi_y e);
        if outside_content rnd env x y then return_if (bi_down e) (Some [Screen Call_resize_to_fit])
        else Some Fall_through
      }
      else Some Fall_through)"

text \<open>The rest of the handler: the click for the processor, then the virtual finger.\<close>

definition change_vfinger :: "im_env \<Rightarrow> button_input \<Rightarrow> sc_input_manager \<Rightarrow> bool" where
  "change_vfinger env e im \<longleftrightarrow> bi_button e = SC_MOUSE_BUTTON_LEFT \<and>
     (bi_down e \<and> \<not> vfinger_down im \<and> (ctrl_in (env_mod_state env) \<or> shift_in (env_mod_state env)) \<or>
      \<not> bi_down e \<and> vfinger_down im)"

definition process_vfinger ::
  "(rat \<Rightarrow> rat) \<Rightarrow> im_env \<Rightarrow> button_input \<Rightarrow> sc_input_manager \<Rightarrow> (sc_input_manager \<times> im_action list) option" where
  "process_vfinger rnd env e im =
     (if change_vfinger env e im then do {
        let im = (if bi_down e
                  then im\<lparr>vfinger_invert_x := (ctrl_in (env_mod_state env) \<noteq> shift_in (env_mod_state env)),
                          vfinger_invert_y := ctrl_in (env_mod_state env)\<rparr>
                  else im);
        vfinger \<leftarrow> vfinger_point rnd env im (bi_x e) (bi_y e);
        (ok, acts) \<leftarrow> simulate_virtual_finger env im
          (if bi_down e then AMOTION_EVENT_ACTION_DOWN else AMOTION_EVENT_ACTION_UP) vfinger;
        Some (if ok then im\<lparr>vfinger_down := bi_down e\<rparr> else im, acts)
      }
      else Some (im, []))"

definition process_click ::
  "(rat \<Rightarrow> rat) \<Rightarrow> im_env \<Rightarrow> button_input \<Rightarrow> sc_input_manager \<Rightarrow> (sc_input_manager \<times> im_action list) option" where
  "process_click rnd env e im =
     (case im_mp im of
        None \<Rightarrow> Some (im, [])
      | Some mp \<Rightarrow>
          if env_paused env then Some (im, [])
          else do {
            let im = (if bi_down e then im\<lparr>mouse_buttons_state := insert (bi_button e) (mouse_buttons_state im)\<rparr> else im);
            x \<leftarrow> to_int32 (bi_x e);
            y \<leftarrow> to_int32 (bi_y e);
            position \<leftarrow> sc_input_manager_get_position rnd env mp x y;
            let evt = \<lparr>click_position = position,
                       click_action = (if bi_down e then SC_ACTION_DOWN else SC_ACTION_UP),
                       click_button = bi_button e,
                       click_pointer_id = (if vfinger_down im \<or> change_vfinger env e im
                                           then SC_POINTER_ID_GENERIC_FINGER else SC_POINTER_ID_MOUSE),
                       click_buttons_state = mouse_buttons_state im\<rparr>;
            if mp_relative_mode mp then do { c_assert (\<not> vfinger_down im); Some (im, [Mp_click evt]) }
            else do {
              (im, acts) \<leftarrow> process_vfinger rnd env e im;
              Some (im, Mp_click evt # acts)
            }
          })"

definition sc_input_manager_process_mouse_button ::
  "(rat \<Rightarrow> rat) \<Rightarrow> im_env \<Rightarrow> button_input \<Rightarrow> sc_input_manager \<Rightarrow> (sc_input_manager \<times> im_action list) option" where
  "sc_input_manager_process_mouse_button rnd env e im =
     (if im_camera im \<or> im_disconnected im \<or> bi_from_touch e \<or> bi_button e = SC_MOUSE_BUTTON_UNKNOWN then Some (im, [])
      else do {
        let im = (if bi_down e then im else im\<lparr>mouse_buttons_state := mouse_buttons_state im - {bi_button e}\<rparr>);
        f \<leftarrow> or_else
          (if im_controller im \<and> \<not> env_paused env
           then run_binding im e (sc_input_manager_get_binding
                  (if shift_in (env_mod_state env) then bindings_sec im else bindings_pri im) (bi_button e))
           else Some Fall_through)
          (double_click_outside rnd env e im);
        (case f of Return acts \<Rightarrow> Some (im, acts) | Fall_through \<Rightarrow> process_click rnd env e im)
      })"

text \<open>The handler of the wheel tests the keyboard, then reads the mouse processor: a null pointer is \<open>None\<close>.\<close>

definition sc_input_manager_process_mouse_wheel ::
  "(rat \<Rightarrow> rat) \<Rightarrow> im_env \<Rightarrow> rat \<Rightarrow> rat \<Rightarrow> sc_input_manager \<Rightarrow> im_actions" where
  "sc_input_manager_process_mouse_wheel rnd env dx dy im =
     (if im_camera im \<or> im_kp im = None \<or> env_paused env \<or> im_disconnected im then Some []
      else do {
        mp \<leftarrow> im_mp im;
        if \<not> has_process_scroll mp then Some []
        else do {
          x \<leftarrow> to_int32 (env_mouse_x env);
          y \<leftarrow> to_int32 (env_mouse_y env);
          position \<leftarrow> sc_input_manager_get_position rnd env mp x y;
          Some [Mp_scroll \<lparr>scroll_position = position, hscroll = dx, vscroll = dy,
                           scroll_buttons_state = mouse_buttons_state im\<rparr>]
        }
      })"

section \<open>Gamepads, files and disconnection\<close>

text \<open>An added gamepad carries the identifier of its joystick, when SDL could open it.\<close>

definition sc_input_manager_process_gamepad_added :: "u32 option \<Rightarrow> sc_input_manager \<Rightarrow> im_action list" where
  "sc_input_manager_process_gamepad_added joystick im =
     (if im_camera im \<or> \<not> im_gp im \<or> im_disconnected im then []
      else case joystick of None \<Rightarrow> [] | Some i \<Rightarrow> [Gp_added i])"

definition sc_input_manager_process_gamepad_removed :: "u32 \<Rightarrow> sc_input_manager \<Rightarrow> im_action list" where
  "sc_input_manager_process_gamepad_removed i im =
     (if im_camera im \<or> \<not> im_gp im \<or> im_disconnected im then [] else [Gp_removed i])"

definition sc_input_manager_process_gamepad_axis ::
  "im_env \<Rightarrow> sc_gamepad_axis_event \<Rightarrow> sc_input_manager \<Rightarrow> im_action list" where
  "sc_input_manager_process_gamepad_axis env e im =
     (if im_camera im \<or> \<not> im_gp im \<or> env_paused env \<or> im_disconnected im then []
      else if ga_axis e = SC_GAMEPAD_AXIS_UNKNOWN then [] else [Gp_axis e])"

definition sc_input_manager_process_gamepad_button ::
  "im_env \<Rightarrow> sc_gamepad_button_event \<Rightarrow> sc_input_manager \<Rightarrow> im_action list" where
  "sc_input_manager_process_gamepad_button env e im =
     (if im_camera im \<or> \<not> im_gp im \<or> env_paused env \<or> im_disconnected im then []
      else if gb_button e = SC_GAMEPAD_BUTTON_UNKNOWN then [] else [Gp_button e])"

text \<open>\<^verbatim>\<open>strrchr\<close>: the rest of the string from the last occurrence on. 46 is the dot.\<close>

fun strrchr :: "byte_buf \<Rightarrow> u8 \<Rightarrow> byte_buf option" where
  "strrchr [] c = None"
| "strrchr (a # s) c = (case strrchr s c of Some r \<Rightarrow> Some r | None \<Rightarrow> if a = c then Some (a # s) else None)"

definition is_apk :: "byte_buf \<Rightarrow> bool" where
  "is_apk file = (case strrchr file 46 of None \<Rightarrow> False | Some ext \<Rightarrow> ext = [46, 97, 112, 107])"

definition sc_input_manager_process_file :: "im_env \<Rightarrow> byte_buf \<Rightarrow> sc_input_manager \<Rightarrow> im_action list" where
  "sc_input_manager_process_file env file im =
     (if im_camera im \<or> \<not> im_controller im \<or> im_disconnected im then []
      else if \<not> env_dup_ok env then []
      else [File_request (is_apk file) file])"

definition sc_input_manager_on_device_disconnected ::
  "im_env \<Rightarrow> sc_input_manager \<Rightarrow> sc_input_manager \<times> im_action list" where
  "sc_input_manager_on_device_disconnected env im =
     (im\<lparr>im_disconnected := True\<rparr>, if env_fps_started env then [Fps_stop] else [])"

section \<open>Dispatch\<close>

datatype im_event =
    In_text byte_buf
  | In_key key_input
  | In_motion motion_input
  | In_wheel rat rat
  | In_button button_input
  | In_touch touch_input
  | In_gamepad_added "u32 option"
  | In_gamepad_removed u32
  | In_gamepad_axis sc_gamepad_axis_event
  | In_gamepad_button sc_gamepad_button_event
  | In_drop_file byte_buf
  | In_disconnected
  | In_other

fun sc_input_manager_handle_event ::
  "(rat \<Rightarrow> rat) \<Rightarrow> (string \<Rightarrow> int) \<Rightarrow> im_env \<Rightarrow> im_event \<Rightarrow> sc_input_manager \<Rightarrow>
   (sc_input_manager \<times> im_action list) option" where
  "sc_input_manager_handle_event rnd kc env (In_text s) im =
     map_option (Pair im) (sc_input_manager_process_text_input env s im)"
| "sc_input_manager_handle_event rnd kc env (In_key e) im = sc_input_manager_process_key kc env e im"
| "sc_input_manager_handle_event rnd kc env (In_motion e) im =
     map_option (Pair im) (sc_input_manager_process_mouse_motion rnd env e im)"
| "sc_input_manager_handle_event rnd kc env (In_wheel dx dy) im =
     map_option (Pair im) (sc_input_manager_process_mouse_wheel rnd env dx dy im)"
| "sc_input_manager_handle_event rnd kc env (In_button e) im = sc_input_manager_process_mouse_button rnd env e im"
| "sc_input_manager_handle_event rnd kc env (In_touch e) im =
     map_option (Pair im) (sc_input_manager_process_touch rnd env e im)"
| "sc_input_manager_handle_event rnd kc env (In_gamepad_added j) im =
     Some (im, sc_input_manager_process_gamepad_added j im)"
| "sc_input_manager_handle_event rnd kc env (In_gamepad_removed i) im =
     Some (im, sc_input_manager_process_gamepad_removed i im)"
| "sc_input_manager_handle_event rnd kc env (In_gamepad_axis e) im =
     Some (im, sc_input_manager_process_gamepad_axis env e im)"
| "sc_input_manager_handle_event rnd kc env (In_gamepad_button e) im =
     Some (im, sc_input_manager_process_gamepad_button env e im)"
| "sc_input_manager_handle_event rnd kc env (In_drop_file s) im = Some (im, sc_input_manager_process_file env s im)"
| "sc_input_manager_handle_event rnd kc env In_disconnected im =
     Some (sc_input_manager_on_device_disconnected env im)"
| "sc_input_manager_handle_event rnd kc env In_other im = Some (im, [])"

section \<open>Initialisation\<close>

record sc_input_manager_params =
  par_controller :: bool
  par_kp :: "key_processor option"
  par_mp :: "mouse_processor option"
  par_gp :: bool
  par_camera :: bool
  par_bindings_pri :: sc_mouse_binding_set
  par_bindings_sec :: sc_mouse_binding_set
  par_legacy_paste :: bool
  par_clipboard_autosync :: bool
  par_shortcut_mods :: "sc_shortcut_mod set"

definition sc_input_manager_init :: "(string \<Rightarrow> int) \<Rightarrow> sc_input_manager_params \<Rightarrow> sc_input_manager" where
  "sc_input_manager_init kc p =
     \<lparr>im_controller = par_controller p, im_kp = par_kp p, im_mp = par_mp p, im_gp = par_gp p,
      im_camera = par_camera p, bindings_pri = par_bindings_pri p, bindings_sec = par_bindings_sec p,
      legacy_paste = par_legacy_paste p, clipboard_autosync = par_clipboard_autosync p,
      sdl_shortcut_mods = sc_shortcut_mods_to_sdl (par_shortcut_mods p),
      vfinger_down = False, vfinger_invert_x = False, vfinger_invert_y = False, mouse_buttons_state = {},
      im_key_repeat = 0, last_keycode = kc ''UNKNOWN'', last_mod = {}, next_sequence = 1, im_disconnected = False\<rparr>"

end
