(* ===== verification/InputDispatch.thy ===== *)
theory InputDispatch
  imports InputManager
begin

text \<open>
  What the input manager guarantees: it aborts only on a turn of the wheel with a keyboard and no mouse, and keeps its configuration; the
  messages it pushes are ones the controller accepts; shortcuts stay on the host; acknowledgements are
  awaited only for requests made; the virtual finger goes down and up like a finger; and the mouse events it
  forwards are those of one consistent mouse.
\<close>

section \<open>Configuration and results\<close>

text \<open>What the program sets up: the modifiers are those of the shortcuts, no binding is left to be chosen, no
  keyboard for a camera, and a processor only if there is a controller. A keyboard may be there without a mouse.\<close>

definition no_auto :: "sc_mouse_binding_set \<Rightarrow> bool" where
  "no_auto bs \<longleftrightarrow> SC_MOUSE_BINDING_AUTO \<notin> {right_click bs, middle_click bs, click4 bs, click5 bs}"

definition im_inv :: "sc_input_manager \<Rightarrow> bool" where
  "im_inv im \<longleftrightarrow> sdl_shortcut_mods im \<subseteq> SC_SDL_SHORTCUT_MODS_MASK \<and>
     no_auto (bindings_pri im) \<and> no_auto (bindings_sec im) \<and>
     (im_camera im \<longrightarrow> im_kp im = None) \<and>
     (im_kp im \<noteq> None \<longrightarrow> im_controller im) \<and> (im_mp im \<noteq> None \<longrightarrow> im_controller im) \<and>
     (\<forall>mp. im_mp im = Some mp \<longrightarrow> vfinger_down im \<longrightarrow> \<not> mp_relative_mode mp)"

definition im_fixed :: "sc_input_manager \<Rightarrow> _" where
  "im_fixed im = (im_controller im, im_kp im, im_mp im, im_gp im, im_camera im, bindings_pri im, bindings_sec im,
     legacy_paste im, clipboard_autosync im, sdl_shortcut_mods im)"

text \<open>What an action needs of the component it is for.\<close>

fun good_action :: "sc_input_manager \<Rightarrow> im_action \<Rightarrow> bool" where
  "good_action im (Push_msg m) \<longleftrightarrow> im_controller im \<and> good_event (Push True m)"
| "good_action im (Kp_key e ack) \<longleftrightarrow> im_kp im \<noteq> None \<and> \<not> im_camera im"
| "good_action im (Kp_text s) \<longleftrightarrow> (\<exists>kp. im_kp im = Some kp \<and> has_process_text kp) \<and> \<not> im_disconnected im"
| "good_action im (Mp_motion e) \<longleftrightarrow> im_mp im \<noteq> None \<and> \<not> im_disconnected im"
| "good_action im (Mp_click e) \<longleftrightarrow> im_mp im \<noteq> None \<and> \<not> im_disconnected im"
| "good_action im (Mp_scroll e) \<longleftrightarrow> (\<exists>mp. im_mp im = Some mp \<and> has_process_scroll mp) \<and> \<not> im_disconnected im"
| "good_action im (Mp_touch e) \<longleftrightarrow> (\<exists>mp. im_mp im = Some mp \<and> has_process_touch mp) \<and> \<not> im_disconnected im"
| "good_action im (Gp_added i) \<longleftrightarrow> im_gp im \<and> \<not> im_disconnected im"
| "good_action im (Gp_removed i) \<longleftrightarrow> im_gp im \<and> \<not> im_disconnected im"
| "good_action im (Gp_axis e) \<longleftrightarrow> im_gp im \<and> \<not> im_disconnected im \<and> ga_axis e \<noteq> SC_GAMEPAD_AXIS_UNKNOWN"
| "good_action im (Gp_button e) \<longleftrightarrow> im_gp im \<and> \<not> im_disconnected im \<and> gb_button e \<noteq> SC_GAMEPAD_BUTTON_UNKNOWN"
| "good_action im (File_request b s) \<longleftrightarrow> im_controller im \<and> \<not> im_disconnected im"
| "good_action im (Screen (Call_set_orientation n)) \<longleftrightarrow> orientation_ok n"
| "good_action im _ \<longleftrightarrow> True"

definition good_acts :: "sc_input_manager \<Rightarrow> im_actions \<Rightarrow> bool" where
  "good_acts im r \<longleftrightarrow> (\<exists>acts. r = Some acts \<and> (\<forall>a \<in> set acts. good_action im a))"

definition good_flow :: "sc_input_manager \<Rightarrow> flow option \<Rightarrow> bool" where
  "good_flow im r \<longleftrightarrow> r = Some Fall_through \<or> (\<exists>acts. r = Some (Return acts) \<and> good_acts im (Some acts))"

definition good_result :: "sc_input_manager \<Rightarrow> (sc_input_manager \<times> im_action list) option \<Rightarrow> bool" where
  "good_result im r \<longleftrightarrow>
     (\<exists>im' acts. r = Some (im', acts) \<and> im_inv im' \<and> im_fixed im' = im_fixed im \<and> good_acts im (Some acts))"

text \<open>A position of the window that the conversions for a mouse processor are defined on; the relative mode converts no position
  to the frame. \<open>event_coords_ok\<close> asks it of the coordinates that the handlers use.\<close>

definition pos_ok :: "(rat \<Rightarrow> rat) \<Rightarrow> im_env \<Rightarrow> mouse_processor \<Rightarrow> rat \<Rightarrow> rat \<Rightarrow> bool" where
  "pos_ok rnd env mp x y \<longleftrightarrow> (\<exists>i j. to_int32 x = Some i \<and> to_int32 y = Some j \<and>
     (\<not> mp_relative_mode mp \<longrightarrow> frame_coords rnd env i j \<noteq> None))"

fun event_coords_ok :: "(rat \<Rightarrow> rat) \<Rightarrow> im_env \<Rightarrow> mouse_processor option \<Rightarrow> im_event \<Rightarrow> bool" where
  "event_coords_ok rnd env mpo (In_motion e) \<longleftrightarrow> (\<forall>mp. mpo = Some mp \<longrightarrow>
     pos_ok rnd env mp (mi_x e) (mi_y e) \<and> to_int32 (mi_xrel e) \<noteq> None \<and> to_int32 (mi_yrel e) \<noteq> None)"
| "event_coords_ok rnd env mpo (In_button e) \<longleftrightarrow> to_int32 (bi_x e) \<noteq> None \<and> to_int32 (bi_y e) \<noteq> None \<and>
     (\<forall>mp. mpo = Some mp \<longrightarrow> pos_ok rnd env mp (bi_x e) (bi_y e))"
| "event_coords_ok rnd env mpo (In_wheel dx dy) \<longleftrightarrow>
     (\<forall>mp. mpo = Some mp \<longrightarrow> pos_ok rnd env mp (env_mouse_x env) (env_mouse_y env))"
| "event_coords_ok rnd env mpo (In_touch e) \<longleftrightarrow> (\<forall>mp. mpo = Some mp \<longrightarrow> has_process_touch mp \<longrightarrow>
     (\<exists>i j. to_int32 (rnd (ti_x e * of_nat (unat (width (env_window_size env))))) = Some i \<and>
       to_int32 (rnd (ti_y e * of_nat (unat (height (env_window_size env))))) = Some j \<and> frame_coords rnd env i j \<noteq> None))"
| "event_coords_ok rnd env mpo _ \<longleftrightarrow> True"

text \<open>The wheel of a keyboard without a mouse, whose handler reads a null pointer.\<close>

fun null_wheel :: "im_env \<Rightarrow> im_event \<Rightarrow> sc_input_manager \<Rightarrow> bool" where
  "null_wheel env (In_wheel dx dy) im \<longleftrightarrow>
     im_kp im \<noteq> None \<and> im_mp im = None \<and> \<not> im_camera im \<and> \<not> env_paused env \<and> \<not> im_disconnected im"
| "null_wheel env _ im \<longleftrightarrow> False"

text \<open>What SDL and the screen report: a valid orientation and a clipboard that is text.\<close>

definition env_ok :: "im_env \<Rightarrow> bool" where
  "env_ok env \<longleftrightarrow> orientation_ok (win_orientation (env_screen env)) \<and> text_ok (env_clipboard env)"

section \<open>Requests\<close>

lemma good_acts_simps [simp]:
  "good_acts im None \<longleftrightarrow> False" "good_acts im (Some []) \<longleftrightarrow> True"
  "good_acts im (Some (a # acts)) \<longleftrightarrow> good_action im a \<and> good_acts im (Some acts)"
  "good_acts im (Some (acts @ bs)) \<longleftrightarrow> good_acts im (Some acts) \<and> good_acts im (Some bs)"
  by (auto simp: good_acts_def)

lemma good_flow_simps [simp]:
  "good_flow im None \<longleftrightarrow> False" "good_flow im (Some Fall_through) \<longleftrightarrow> True"
  "good_flow im (Some (Return acts)) \<longleftrightarrow> good_acts im (Some acts)"
  by (auto simp: good_flow_def)

lemma good_return_if: "(c \<Longrightarrow> good_acts im r) \<Longrightarrow> good_flow im (return_if c r)"
  by (auto simp: return_if_def good_acts_def)

lemma good_flow_if: "(c \<Longrightarrow> good_flow im a) \<Longrightarrow> (\<not> c \<Longrightarrow> good_flow im b) \<Longrightarrow> good_flow im (if c then a else b)"
  by simp

lemma good_or_else: "good_flow im a \<Longrightarrow> good_flow im b \<Longrightarrow> good_flow im (or_else a b)"
  by (auto simp: or_else_def good_flow_def)

lemma good_push_keys:
  assumes "im_controller im" "im_kp im \<noteq> None" "\<not> im_camera im"
  shows "good_acts im (send_keycode im k a)" "good_acts im (press_back_or_turn_screen_on im a)"
    "good_acts im (get_device_clipboard im ck)"
    "good_acts im (action_home im a)" "good_acts im (action_back im a)" "good_acts im (action_app_switch im a)"
    "good_acts im (action_power im a)" "good_acts im (action_volume_up im a)"
    "good_acts im (action_volume_down im a)" "good_acts im (action_menu im a)"
  using assms by (simp_all add: has_keyboard_def send_keycode_def press_back_or_turn_screen_on_def
      get_device_clipboard_def action_home_def action_back_def action_app_switch_def action_power_def
      action_volume_up_def action_volume_down_def action_menu_def)

lemma good_push_panels:
  assumes "im_controller im" "\<not> im_camera im"
  shows "good_acts im (expand_notification_panel im)" "good_acts im (expand_settings_panel im)"
    "good_acts im (collapse_panels im)" "good_acts im (set_display_power im on)" "good_acts im (rotate_device im)"
    "good_acts im (open_hard_keyboard_settings im)" "good_acts im (panel_shortcut shift im)"
  using assms by (simp_all add: has_controller_def expand_notification_panel_def expand_settings_panel_def
      collapse_panels_def set_display_power_def rotate_device_def open_hard_keyboard_settings_def panel_shortcut_def)

lemma good_push_camera:
  assumes "im_controller im" "im_camera im"
  shows "good_acts im (camera_set_torch im on)" "good_acts im (camera_zoom_in im)" "good_acts im (camera_zoom_out im)"
  using assms by (simp_all add: camera_set_torch_def camera_zoom_in_def camera_zoom_out_def)

lemma good_reset_video: "im_controller im \<Longrightarrow> good_acts im (reset_video im)"
  by (simp add: reset_video_def)

lemma good_clipboard:
  assumes "im_controller im" "im_kp im \<noteq> None" "\<not> im_camera im" "env_ok env"
  shows "\<exists>ok acts. set_device_clipboard env im paste q = Some (ok, acts) \<and> good_acts im (Some acts)"
    "good_acts im (clipboard_paste env im)" "good_acts im (paste_shortcut env shift im)"
proof -
  show 1: "\<exists>ok acts. set_device_clipboard env im paste q = Some (ok, acts) \<and> good_acts im (Some acts)" for paste q
    using assms by (auto simp: set_device_clipboard_def has_keyboard_def env_ok_def split: option.splits)
  show 2: "good_acts im (clipboard_paste env im)"
    using assms by (auto simp: clipboard_paste_def has_keyboard_def env_ok_def split: option.splits)
  show "good_acts im (paste_shortcut env shift im)"
    using 1 [of True SC_SEQUENCE_INVALID] 2 by (auto simp: paste_shortcut_def)
qed

lemma orientation_apply_ok:
  assumes "orientation_ok a" "orientation_ok b"
  shows "\<exists>c. sc_orientation_apply a b = Some c \<and> orientation_ok c"
  using orientation_cases [OF assms(1)] orientation_cases [OF assms(2)]
  by (elim insertE emptyE) (simp_all add: sc_orientation_apply_def orientation_ok_def)

lemma transforms_ok:
  "orientation_ok SC_ORIENTATION_FLIP_180" "orientation_ok SC_ORIENTATION_FLIP_0"
  "orientation_ok SC_ORIENTATION_90" "orientation_ok SC_ORIENTATION_270"
  by (simp_all add: orientation_ok_def orientation_defs)

lemma good_transform:
  "env_ok env \<Longrightarrow> orientation_ok t \<Longrightarrow> good_acts im (apply_orientation_transform env t)"
  using orientation_apply_ok [of "win_orientation (env_screen env)" t]
  by (auto simp: apply_orientation_transform_def env_ok_def)

section \<open>Keys\<close>

lemma good_shortcut_local: "env_ok env \<Longrightarrow> good_flow im (shortcut_local kc env e)"
  unfolding shortcut_local_def Let_def switch_fps_counter_state_def
  by (intro good_flow_if good_return_if good_transform transforms_ok) (simp_all add: transforms_ok)

lemma good_shortcut_any_source: "im_controller im \<Longrightarrow> good_flow im (shortcut_any_source kc env e im)"
  by (auto simp: shortcut_any_source_def intro!: good_return_if good_reset_video)

lemma good_shortcut_display:
  assumes "im_controller im" "\<not> im_camera im" "env_ok env"
  shows "good_flow im (shortcut_display kc env e im)"
  unfolding shortcut_display_def Let_def using assms
  by (intro good_flow_if good_return_if good_push_keys good_push_panels good_clipboard(3)) simp_all

lemma good_shortcut_camera:
  "im_controller im \<Longrightarrow> im_camera im \<Longrightarrow> good_flow im (shortcut_camera kc env e im)"
  by (auto simp: shortcut_camera_def Let_def intro!: good_return_if good_push_camera)

lemma good_process_shortcut:
  assumes "env_ok env"
  shows "good_acts im (process_shortcut kc env e im)"
proof -
  let ?f = "or_else (shortcut_local kc env e)
     (if im_disconnected im then Some Fall_through
      else or_else (if im_controller im then shortcut_any_source kc env e im else Some Fall_through)
          (or_else (if im_controller im \<and> \<not> im_camera im then shortcut_display kc env e im else Some Fall_through)
             (if im_controller im \<and> im_camera im then shortcut_camera kc env e im else Some Fall_through)))"
  have "good_flow im ?f"
    using assms by (auto intro!: good_or_else good_shortcut_local good_shortcut_any_source good_shortcut_display
        good_shortcut_camera simp del: good_flow_simps(3))
  then show ?thesis unfolding process_shortcut_def by (auto simp: good_flow_def)
qed

lemma seq_keeps [simp]:
  "im_inv (im\<lparr>next_sequence := q\<rparr>) = im_inv im" "im_fixed (im\<lparr>next_sequence := q\<rparr>) = im_fixed im"
  by (simp_all add: im_inv_def im_fixed_def)

lemma good_sync_clipboard:
  assumes "im_controller im" "im_kp im \<noteq> None" "\<not> im_camera im" "env_ok env" "im_inv im"
  shows "\<exists>proceed ack im' acts. sync_clipboard kc env e kp im = Some (proceed, ack, im', acts) \<and>
    im_inv im' \<and> im_fixed im' = im_fixed im \<and> im_disconnected im' = im_disconnected im \<and> good_acts im (Some acts)"
proof -
  obtain acts where p: "clipboard_paste env im = Some acts" "good_acts im (Some acts)"
    using good_clipboard(2) [OF assms(1-4)] by (auto simp: good_acts_def)
  obtain ok bcts where s: "set_device_clipboard env im False (if async_paste kp then next_sequence im else SC_SEQUENCE_INVALID) =
      Some (ok, bcts)" "good_acts im (Some bcts)"
    using good_clipboard(1) [OF assms(1-4)] by blast
  show ?thesis using p s assms(5)
    by (simp add: sync_clipboard_def Let_def)
qed

lemma good_process_plain_key:
  assumes "env_ok env" "im_inv im"
  shows "good_result im (process_plain_key kc env e im)"
proof (cases "im_kp im")
  case None
  with assms show ?thesis by (simp add: process_plain_key_def good_result_def)
next
  case (Some kp)
  with assms have c: "im_controller im" "im_kp im \<noteq> None" "\<not> im_camera im" by (auto simp: im_inv_def)
  obtain proceed ack im' acts where r: "sync_clipboard kc env e kp im = Some (proceed, ack, im', acts)"
    "im_inv im'" "im_fixed im' = im_fixed im" "good_acts im (Some acts)"
    using good_sync_clipboard [OF c assms] by blast
  show ?thesis using Some c r assms(2) by (simp add: process_plain_key_def good_result_def)
qed

lemma count_key_keeps [simp]:
  "im_inv (count_key e im) = im_inv im" "im_fixed (count_key e im) = im_fixed im"
  "good_action (count_key e im) a = good_action im a" "good_acts (count_key e im) r = good_acts im r"
  "im_kp (count_key e im) = im_kp im" "next_sequence (count_key e im) = next_sequence im"
  "im_disconnected (count_key e im) = im_disconnected im" "vfinger_down (count_key e im) = vfinger_down im"
  "vfinger_invert_x (count_key e im) = vfinger_invert_x im" "vfinger_invert_y (count_key e im) = vfinger_invert_y im"
  "mouse_buttons_state (count_key e im) = mouse_buttons_state im"
proof -
  show a: "good_action (count_key e im) a = good_action im a" for a
    by (rule good_action.cases [of "(im, a)"]) (auto simp: count_key_def)
  show "good_acts (count_key e im) r = good_acts im r" by (simp add: good_acts_def a)
qed (simp_all add: count_key_def im_inv_def im_fixed_def)

lemma good_process_key:
  assumes "env_ok env" "im_inv im"
  shows "good_result im (sc_input_manager_process_key kc env e im)"
proof -
  have k: "good_result im (process_plain_key kc env e (count_key e im))"
    using good_process_plain_key [of env "count_key e im"] assms by (simp add: good_result_def)
  have s: "good_acts im (process_shortcut kc env e (count_key e im))"
    using good_process_shortcut [OF assms(1), of "count_key e im"] by simp
  have m: "sdl_shortcut_mods im \<subseteq> SC_SDL_SHORTCUT_MODS_MASK" using assms(2) by (simp add: im_inv_def)
  show ?thesis using k s m assms(2)
    by (auto simp: sc_input_manager_process_key_def sc_shortcut_mods_is_shortcut_mod_def Let_def good_result_def good_acts_def)
qed

section \<open>Pointer\<close>

lemma pos_obtain:
  assumes "pos_ok rnd env mp x y"
  obtains i j pos where "to_int32 x = Some i" "to_int32 y = Some j" "sc_input_manager_get_position rnd env mp i j = Some pos"
    "\<not> mp_relative_mode mp \<longrightarrow> (\<exists>p. frame_coords rnd env i j = Some p)"
  using assms by (cases "mp_relative_mode mp") (auto simp: pos_ok_def sc_input_manager_get_position_def)

lemma good_motion:
  assumes "im_inv im" "event_coords_ok rnd env (im_mp im) (In_motion e)"
  shows "good_acts im (sc_input_manager_process_mouse_motion rnd env e im)"
proof (cases "im_mp im")
  case (Some mp)
  with assms(2) obtain dx dy where p: "pos_ok rnd env mp (mi_x e) (mi_y e)"
    and d: "to_int32 (mi_xrel e) = Some dx" "to_int32 (mi_yrel e) = Some dy" by auto
  obtain i j pos where c: "to_int32 (mi_x e) = Some i" "to_int32 (mi_y e) = Some j"
    "sc_input_manager_get_position rnd env mp i j = Some pos" "\<not> mp_relative_mode mp \<longrightarrow> (\<exists>p. frame_coords rnd env i j = Some p)"
    using p by (rule pos_obtain)
  moreover have "im_controller im" "vfinger_down im \<Longrightarrow> \<not> mp_relative_mode mp"
    using Some assms(1) by (auto simp: im_inv_def)
  ultimately show ?thesis using Some d
    by (auto simp: sc_input_manager_process_mouse_motion_def Let_def vfinger_point_def simulate_virtual_finger_def u16fp_ok_def
        AMOTION_EVENT_ACTION_UP_def AMOTION_EVENT_ACTION_MOVE_def)
qed (simp add: sc_input_manager_process_mouse_motion_def)

lemma good_touch:
  assumes "event_coords_ok rnd env (im_mp im) (In_touch e)"
  shows "good_acts im (sc_input_manager_process_touch rnd env e im)"
  using assms by (cases "im_mp im") (auto simp: sc_input_manager_process_touch_def)

lemma good_wheel:
  assumes "event_coords_ok rnd env (im_mp im) (In_wheel dx dy)" "\<not> null_wheel env (In_wheel dx dy) im"
  shows "good_acts im (sc_input_manager_process_mouse_wheel rnd env dx dy im)"
proof (cases "im_mp im")
  case (Some mp)
  with assms(1) have "pos_ok rnd env mp (env_mouse_x env) (env_mouse_y env)" by simp
  then show ?thesis using Some by (auto simp: sc_input_manager_process_mouse_wheel_def elim!: pos_obtain)
qed (use assms(2) in \<open>auto simp: sc_input_manager_process_mouse_wheel_def\<close>)

lemma binding_not_auto: "no_auto bs \<Longrightarrow> sc_input_manager_get_binding bs b \<noteq> SC_MOUSE_BINDING_AUTO"
  by (cases b) (auto simp: no_auto_def)

lemma good_binding:
  assumes "im_controller im" "\<not> im_camera im" "b \<noteq> SC_MOUSE_BINDING_AUTO"
  shows "good_flow im (run_binding im e b)"
  using assms by (cases b) (auto intro!: good_return_if good_push_keys good_push_panels)

lemma good_double_click:
  "to_int32 (bi_x e) \<noteq> None \<Longrightarrow> to_int32 (bi_y e) \<noteq> None \<Longrightarrow> good_flow im (double_click_outside rnd env e im)"
  by (auto simp: double_click_outside_def return_if_def)

lemma good_vfinger:
  assumes "im_inv im" "im_mp im = Some mp" "\<not> mp_relative_mode mp" "pos_ok rnd env mp (bi_x e) (bi_y e)"
  shows "\<exists>im' acts. process_vfinger rnd env e im = Some (im', acts) \<and> im_inv im' \<and> im_fixed im' = im_fixed im \<and>
    im_disconnected im' = im_disconnected im \<and> good_acts im (Some acts)"
proof -
  have "im_controller im" using assms(1,2) by (simp add: im_inv_def)
  with assms show ?thesis
    by (auto simp: process_vfinger_def Let_def vfinger_point_def simulate_virtual_finger_def u16fp_ok_def
        im_inv_def im_fixed_def AMOTION_EVENT_ACTION_UP_def AMOTION_EVENT_ACTION_DOWN_def pos_ok_def)
qed

lemma buttons_keep [simp]:
  "im_inv (im\<lparr>mouse_buttons_state := S\<rparr>) = im_inv im" "im_fixed (im\<lparr>mouse_buttons_state := S\<rparr>) = im_fixed im"
  "good_action (im\<lparr>mouse_buttons_state := S\<rparr>) a = good_action im a"
  "good_acts (im\<lparr>mouse_buttons_state := S\<rparr>) r = good_acts im r"
  "good_flow (im\<lparr>mouse_buttons_state := S\<rparr>) f = good_flow im f"
proof -
  show a: "good_action (im\<lparr>mouse_buttons_state := S\<rparr>) a = good_action im a" for a
    by (rule good_action.cases [of "(im, a)"]) auto
  show b: "good_acts (im\<lparr>mouse_buttons_state := S\<rparr>) r = good_acts im r" for r by (simp add: good_acts_def a)
  show "good_flow (im\<lparr>mouse_buttons_state := S\<rparr>) f = good_flow im f" by (simp add: good_flow_def b)
qed (simp_all add: im_inv_def im_fixed_def)

lemma good_click:
  assumes "im_inv im" "\<not> im_disconnected im" "\<And>mp. im_mp im = Some mp \<Longrightarrow> pos_ok rnd env mp (bi_x e) (bi_y e)"
  shows "good_result im (process_click rnd env e im)"
proof (cases "im_mp im = None \<or> env_paused env")
  case True
  with assms show ?thesis by (auto simp: process_click_def good_result_def split: option.split)
next
  case False
  then obtain mp where mp: "im_mp im = Some mp" "\<not> env_paused env" by auto
  note p = assms(3) [OF mp(1)]
  then obtain i j pos where c: "to_int32 (bi_x e) = Some i" "to_int32 (bi_y e) = Some j"
    "sc_input_manager_get_position rnd env mp i j = Some pos" by (rule pos_obtain)
  define jm where "jm = (if bi_down e then im\<lparr>mouse_buttons_state := insert (bi_button e) (mouse_buttons_state im)\<rparr> else im)"
  have jm: "im_inv jm" "im_fixed jm = im_fixed im" "im_mp jm = Some mp" "im_mp im = Some mp" "good_acts jm r = good_acts im r" for r
    using assms(1) mp(1) by (simp_all add: jm_def)
  show ?thesis
  proof (cases "mp_relative_mode mp")
    case True
    then have "\<not> vfinger_down jm" using jm(1,3) by (auto simp: im_inv_def)
    with True mp c jm assms show ?thesis
      by (simp add: process_click_def Let_def jm_def [symmetric] good_result_def)
  next
    case False
    obtain im' acts where "process_vfinger rnd env e jm = Some (im', acts)" "im_inv im'"
      "im_fixed im' = im_fixed jm" "good_acts jm (Some acts)" using good_vfinger [OF jm(1,3) False p] by blast
    with False mp c jm assms show ?thesis
      by (simp add: process_click_def Let_def jm_def [symmetric] good_result_def)
  qed
qed

lemma good_button:
  assumes "im_inv im" "event_coords_ok rnd env (im_mp im) (In_button e)"
  shows "good_result im (sc_input_manager_process_mouse_button rnd env e im)"
proof (cases "im_camera im \<or> im_disconnected im \<or> bi_from_touch e \<or> bi_button e = SC_MOUSE_BUTTON_UNKNOWN")
  case True
  with assms show ?thesis by (auto simp: sc_input_manager_process_mouse_button_def good_result_def)
next
  case False
  define jm where "jm = (if bi_down e then im else im\<lparr>mouse_buttons_state := mouse_buttons_state im - {bi_button e}\<rparr>)"
  have jm: "im_inv jm" "im_fixed jm = im_fixed im" "good_acts jm r = good_acts im r" "\<not> im_disconnected jm" "\<not> im_camera jm"
    "im_camera im = False" "im_disconnected im = False" "im_mp jm = im_mp im" for r
    using assms(1) False by (simp_all add: jm_def)
  let ?f = "or_else (if im_controller jm \<and> \<not> env_paused env
     then run_binding jm e (sc_input_manager_get_binding
            (if shift_in (env_mod_state env) then bindings_sec jm else bindings_pri jm) (bi_button e))
     else Some Fall_through) (double_click_outside rnd env e jm)"
  have "good_flow jm ?f"
  proof (intro good_or_else good_flow_if good_binding good_double_click binding_not_auto)
    show "no_auto (if shift_in (env_mod_state env) then bindings_sec jm else bindings_pri jm)"
      using jm(1) by (simp add: im_inv_def)
  qed (use assms(2) jm in simp_all)
  moreover have "good_result jm (process_click rnd env e jm)" 
    by (rule good_click [OF jm(1,4)]) (use assms(2) jm in auto)
  ultimately show ?thesis using False jm
    by (auto simp: sc_input_manager_process_mouse_button_def Let_def jm_def [symmetric] good_flow_def good_result_def)
qed

section \<open>No event aborts\<close>

lemma good_text: "im_inv im \<Longrightarrow> good_acts im (sc_input_manager_process_text_input env s im)"
  by (auto simp: sc_input_manager_process_text_input_def sc_shortcut_mods_is_shortcut_mod_def im_inv_def split: option.split)

lemma good_disconnected: "im_inv im \<Longrightarrow> good_result im (Some (sc_input_manager_on_device_disconnected env im))"
  by (simp add: sc_input_manager_on_device_disconnected_def good_result_def im_inv_def im_fixed_def)

lemma good_pair: "im_inv im \<Longrightarrow> good_acts im r \<Longrightarrow> good_result im (map_option (Pair im) r)"
  by (auto simp: good_acts_def good_result_def)

lemma good_handle_event:
  assumes "im_inv im" "env_ok env" "event_coords_ok rnd env (im_mp im) ev" "\<not> null_wheel env ev im"
  shows "good_result im (sc_input_manager_handle_event rnd kc env ev im)"
proof (cases ev)
  case (In_gamepad_added j)
  with assms show ?thesis
    by (auto simp: good_result_def sc_input_manager_process_gamepad_added_def split: option.split)
qed (use assms in \<open>auto intro!: good_pair good_text good_process_key good_motion good_wheel good_button good_touch
    good_disconnected simp del: event_coords_ok.simps(1-4) null_wheel.simps(1)\<close>,
    auto simp: good_result_def sc_input_manager_process_gamepad_removed_def sc_input_manager_process_gamepad_axis_def
      sc_input_manager_process_gamepad_button_def sc_input_manager_process_file_def)

text \<open>A run of the manager, each event with what is reported during its call.\<close>

fun im_run :: "(rat \<Rightarrow> rat) \<Rightarrow> (string \<Rightarrow> int) \<Rightarrow> (im_env \<times> im_event) list \<Rightarrow> sc_input_manager \<Rightarrow>
  (sc_input_manager \<times> (im_env \<times> im_action list) list) option" where
  "im_run rnd kc [] im = Some (im, [])"
| "im_run rnd kc ((env, ev) # es) im = do {
     (im, acts) \<leftarrow> sc_input_manager_handle_event rnd kc env ev im;
     (im, tr) \<leftarrow> im_run rnd kc es im;
     Some (im, (env, acts) # tr)
   }"

lemma im_init_inv:
  assumes "no_auto (par_bindings_pri p)" "no_auto (par_bindings_sec p)" "par_camera p \<longrightarrow> par_kp p = None"
    "par_kp p \<noteq> None \<longrightarrow> par_controller p" "par_mp p \<noteq> None \<longrightarrow> par_controller p"
  shows "im_inv (sc_input_manager_init kc p)"
  using assms by (auto simp: im_inv_def sc_input_manager_init_def sc_shortcut_mods_to_sdl_def SC_SDL_SHORTCUT_MODS_MASK_def)

text \<open>A pointer close to the picture: the content is at least one pixel large and the position less than \<open>2^14\<close> pixels away. With
  floats that round correctly, all its conversions are defined.\<close>

definition near_content :: "im_env \<Rightarrow> rat \<Rightarrow> rat \<Rightarrow> bool" where
  "near_content env x y \<longleftrightarrow> (let r = win_rect (env_screen env) in win_video (env_screen env) \<and> 1 \<le> rect_w r \<and> 1 \<le> rect_h r \<and>
     \<bar>x\<bar> \<le> 2 ^ 20 \<and> \<bar>y\<bar> \<le> 2 ^ 20 \<and> \<bar>x - rect_x r\<bar> \<le> 2 ^ 14 \<and> \<bar>y - rect_y r\<bar> \<le> 2 ^ 14)"

definition pointer_near :: "im_env \<Rightarrow> mouse_processor option \<Rightarrow> rat \<Rightarrow> rat \<Rightarrow> bool" where
  "pointer_near env mpo x y \<longleftrightarrow> \<bar>x\<bar> < 2 ^ 31 \<and> \<bar>y\<bar> < 2 ^ 31 \<and>
     (case mpo of None \<Rightarrow> True | Some mp \<Rightarrow> mp_relative_mode mp \<or> near_content env x y)"

fun event_near :: "(rat \<Rightarrow> rat) \<Rightarrow> im_env \<Rightarrow> mouse_processor option \<Rightarrow> im_event \<Rightarrow> bool" where
  "event_near rnd env mpo (In_motion e) \<longleftrightarrow> pointer_near env mpo (mi_x e) (mi_y e) \<and> \<bar>mi_xrel e\<bar> < 2 ^ 31 \<and> \<bar>mi_yrel e\<bar> < 2 ^ 31"
| "event_near rnd env mpo (In_button e) \<longleftrightarrow> pointer_near env mpo (bi_x e) (bi_y e)"
| "event_near rnd env mpo (In_wheel dx dy) \<longleftrightarrow> pointer_near env mpo (env_mouse_x env) (env_mouse_y env)"
| "event_near rnd env mpo (In_touch e) \<longleftrightarrow> (case mpo of None \<Rightarrow> True | Some mp \<Rightarrow> has_process_touch mp \<longrightarrow>
     near_content env (rnd (ti_x e * of_nat (unat (width (env_window_size env)))))
       (rnd (ti_y e * of_nat (unat (height (env_window_size env))))))"
| "event_near rnd env mpo _ \<longleftrightarrow> True"

lemma to_int32_small: "\<bar>x\<bar> < 2 ^ 31 \<Longrightarrow> to_int32 x = Some (trunc_rat x)"
proof -
  assume "\<bar>x\<bar> < 2 ^ 31"
  then have "\<bar>of_int (trunc_rat x) :: rat\<bar> < 2 ^ 31" using trunc_rat_bounds(2) [of x] by linarith
  then have "\<bar>trunc_rat x\<bar> < 2 ^ 31" by (simp flip: of_int_abs)
  then have "- (2 ^ 31) \<le> trunc_rat x \<and> trunc_rat x < 2 ^ 31" by linarith
  then show ?thesis by (simp add: to_int32_def)
qed

lemma near_converts:
  assumes "float_rounding rnd" "env_ok env" "near_content env x y"
  shows "to_int32 x = Some (trunc_rat x) \<and> to_int32 y = Some (trunc_rat y) \<and> frame_coords rnd env (trunc_rat x) (trunc_rat y) \<noteq> None"
proof -
  let ?r = "win_rect (env_screen env)"
  have n: "win_video (env_screen env)" "1 \<le> rect_w ?r" "1 \<le> rect_h ?r" "\<bar>x\<bar> \<le> 2 ^ 20" "\<bar>y\<bar> \<le> 2 ^ 20"
    "\<bar>x - rect_x ?r\<bar> \<le> 2 ^ 14" "\<bar>y - rect_y ?r\<bar> \<le> 2 ^ 14" using assms(3) by (simp_all add: near_content_def Let_def)
  have t: "\<bar>trunc_rat z\<bar> \<le> 2 ^ 24" "\<bar>of_int (trunc_rat z) - a\<bar> \<le> 2 ^ 14 + 1" if "\<bar>z\<bar> \<le> 2 ^ 20" "\<bar>z - a\<bar> \<le> 2 ^ 14" for z a :: rat
  proof -
    have "\<bar>of_int (trunc_rat z) :: rat\<bar> \<le> 2 ^ 20" using trunc_rat_bounds(2) [of z] that(1) by linarith
    then have "\<bar>trunc_rat z\<bar> \<le> 2 ^ 20" by (simp flip: of_int_abs)
    then show "\<bar>trunc_rat z\<bar> \<le> 2 ^ 24" by simp
    show "\<bar>of_int (trunc_rat z) - a\<bar> \<le> 2 ^ 14 + 1" using trunc_rat_bounds(1) [of z] that(2) by linarith
  qed
  have "orientation_ok (win_orientation (env_screen env))" using assms(2) by (simp add: env_ok_def)
  from convert_near [OF assms(1) this n(2,3) t [OF n(4,6)] t [OF n(5,7)]] n(1)
  have "frame_coords rnd env (trunc_rat x) (trunc_rat y) \<noteq> None" by (simp add: frame_coords_def)
  moreover have "\<bar>x\<bar> < 2 ^ 31" "\<bar>y\<bar> < 2 ^ 31" by (rule order_le_less_trans [OF n(4)], simp, rule order_le_less_trans [OF n(5)], simp)
  ultimately show ?thesis by (simp add: to_int32_small)
qed

lemma pointer_near_pos:
  assumes "float_rounding rnd" "env_ok env" "pointer_near env (Some mp) x y"
  shows "pos_ok rnd env mp x y"
proof (cases "mp_relative_mode mp")
  case True
  with assms(3) show ?thesis by (auto simp: pos_ok_def pointer_near_def to_int32_small)
next
  case False
  with assms(3) near_converts [OF assms(1,2)] show ?thesis by (auto simp: pos_ok_def pointer_near_def)
qed

lemma near_coords_ok:
  assumes "float_rounding rnd" "env_ok env" "event_near rnd env mpo ev"
  shows "event_coords_ok rnd env mpo ev"
  using assms(3) pointer_near_pos [OF assms(1,2)] near_converts [OF assms(1,2)]
  by (cases ev) (auto simp: to_int32_small pointer_near_def split: option.splits)

inductive im_reach :: "(rat \<Rightarrow> rat) \<Rightarrow> (string \<Rightarrow> int) \<Rightarrow> sc_input_manager_params \<Rightarrow> sc_input_manager \<Rightarrow> bool"
  for rnd kc p where
  start: "im_reach rnd kc p (sc_input_manager_init kc p)"
| step: "im_reach rnd kc p im \<Longrightarrow> env_ok env \<Longrightarrow> event_near rnd env (par_mp p) ev \<Longrightarrow>
     sc_input_manager_handle_event rnd kc env ev im = Some (im', acts) \<Longrightarrow> im_reach rnd kc p im'"

definition params_ok :: "sc_input_manager_params \<Rightarrow> bool" where
  "params_ok p \<longleftrightarrow> no_auto (par_bindings_pri p) \<and> no_auto (par_bindings_sec p) \<and> (par_camera p \<longrightarrow> par_kp p = None) \<and>
     (par_kp p \<noteq> None \<longrightarrow> par_controller p) \<and> (par_mp p \<noteq> None \<longrightarrow> par_controller p)"

lemma null_wheel_aborts: "null_wheel env ev im \<Longrightarrow> sc_input_manager_handle_event rnd kc env ev im = None"
  by (cases ev) (auto simp: sc_input_manager_process_mouse_wheel_def)

lemma fixed_mp: "im_fixed im = im_fixed (sc_input_manager_init kc p) \<Longrightarrow> im_mp im = par_mp p"
  by (simp add: im_fixed_def sc_input_manager_init_def)

lemma im_reach_inv:
  assumes "im_reach rnd kc p im" "params_ok p" "float_rounding rnd"
  shows "im_inv im \<and> im_fixed im = im_fixed (sc_input_manager_init kc p)"
  using assms(1)
proof (induction rule: im_reach.induct)
  case start
  then show ?case using assms(2) by (simp add: im_init_inv params_ok_def)
next
  case (step im env ev im' acts)
  have "\<not> null_wheel env ev im" using null_wheel_aborts [of env ev im rnd kc] step.hyps(4) by auto
  moreover have "event_coords_ok rnd env (im_mp im) ev"
    using near_coords_ok [OF assms(3) step.hyps(2,3)] fixed_mp step.IH by metis
  ultimately show ?case using good_handle_event [of im env rnd ev kc] step by (auto simp: good_result_def)
qed

text \<open>C23. When the input manager aborts: from its initialisation on, after any sequence of events, handling an event fails (a
  failed assertion, a null pointer or an undefined conversion) if and only if it is a turn of the wheel with a keyboard and
  no mouse that is not ignored. Otherwise the configuration stays what the
  parameters gave, every message is pushed to an existing controller, which accepts it, and every call goes
  to a processor that exists and has the operation, never to a mouse or gamepad processor after disconnection.
  It is assumed that the parameters are as the program sets them (mouse bindings resolved, no keyboard with a camera,
  processors only with a controller), that the orientation is one of the eight and the clipboard is text, that floats
  round correctly, and that a pointer event with a mouse that is not in relative mode happens while there is a video, with a content
  of at least one pixel and the pointer less than \<open>2^14\<close> pixels away from its corner.\<close>

theorem input_manager_safe:
  assumes "im_reach rnd kc p im" "params_ok p" "float_rounding rnd" "env_ok env" "event_near rnd env (par_mp p) ev"
  shows "if null_wheel env ev im then sc_input_manager_handle_event rnd kc env ev im = None
    else (\<exists>im' acts. sc_input_manager_handle_event rnd kc env ev im = Some (im', acts) \<and>
      im_fixed im' = im_fixed (sc_input_manager_init kc p) \<and> (\<forall>a \<in> set acts. good_action im a))"
proof (cases "null_wheel env ev im")
  case True
  then show ?thesis by (simp add: null_wheel_aborts)
next
  case False
  note i = im_reach_inv [OF assms(1-3)]
  have "event_coords_ok rnd env (im_mp im) ev" using near_coords_ok [OF assms(3-5)] fixed_mp i by metis
  with good_handle_event [of im env rnd ev kc] i assms(4) False show ?thesis
    by (auto simp: good_result_def good_acts_def)
qed

section \<open>Shortcuts\<close>

text \<open>What a shortcut may do: requests other than touches, and actions on the host.\<close>

fun shortcut_action :: "im_action \<Rightarrow> bool" where
  "shortcut_action (Push_msg m) \<longleftrightarrow> \<not> is_INJECT_TOUCH_EVENT m"
| "shortcut_action (Screen e) \<longleftrightarrow> True"
| "shortcut_action (Set_paused b) \<longleftrightarrow> True"
| "shortcut_action Fps_start \<longleftrightarrow> True"
| "shortcut_action Fps_stop \<longleftrightarrow> True"
| "shortcut_action Push_quit \<longleftrightarrow> True"
| "shortcut_action _ \<longleftrightarrow> False"

definition acts_all :: "(im_action \<Rightarrow> bool) \<Rightarrow> im_actions \<Rightarrow> bool" where
  "acts_all P r \<longleftrightarrow> (\<forall>acts. r = Some acts \<longrightarrow> (\<forall>a \<in> set acts. P a))"

definition flow_all :: "(im_action \<Rightarrow> bool) \<Rightarrow> flow option \<Rightarrow> bool" where
  "flow_all P r \<longleftrightarrow> (\<forall>acts. r = Some (Return acts) \<longrightarrow> (\<forall>a \<in> set acts. P a))"

lemma all_simps [simp]:
  "acts_all P None" "acts_all P (Some acts) \<longleftrightarrow> (\<forall>a \<in> set acts. P a)"
  "flow_all P None" "flow_all P (Some Fall_through)" "flow_all P (Some (Return acts)) \<longleftrightarrow> (\<forall>a \<in> set acts. P a)"
  by (simp_all add: acts_all_def flow_all_def)

lemma flow_all_intros:
  "acts_all P r \<Longrightarrow> flow_all P (return_if c r)" "flow_all P a \<Longrightarrow> flow_all P b \<Longrightarrow> flow_all P (or_else a b)"
  "flow_all P a \<Longrightarrow> flow_all P b \<Longrightarrow> flow_all P (if d then a else b)"
  by (auto simp: return_if_def or_else_def acts_all_def flow_all_def split: bind_splits flow.splits)

lemma request_actions:
  "acts_all shortcut_action (send_keycode im k a)" "acts_all shortcut_action (press_back_or_turn_screen_on im a)"
  "acts_all shortcut_action (expand_notification_panel im)" "acts_all shortcut_action (expand_settings_panel im)"
  "acts_all shortcut_action (collapse_panels im)" "acts_all shortcut_action (get_device_clipboard im ck)"
  "acts_all shortcut_action (set_display_power im on)" "acts_all shortcut_action (rotate_device im)"
  "acts_all shortcut_action (open_hard_keyboard_settings im)" "acts_all shortcut_action (reset_video im)"
  "acts_all shortcut_action (camera_set_torch im on)" "acts_all shortcut_action (camera_zoom_in im)"
  "acts_all shortcut_action (camera_zoom_out im)" "acts_all shortcut_action (clipboard_paste env im)"
  "acts_all shortcut_action (apply_orientation_transform env t)" "acts_all shortcut_action (switch_fps_counter_state env)"
  by (simp_all add: acts_all_def send_keycode_def press_back_or_turn_screen_on_def expand_notification_panel_def
      expand_settings_panel_def collapse_panels_def get_device_clipboard_def set_display_power_def rotate_device_def
      open_hard_keyboard_settings_def reset_video_def camera_set_torch_def camera_zoom_in_def camera_zoom_out_def
      clipboard_paste_def apply_orientation_transform_def switch_fps_counter_state_def
      split: bind_splits option.splits)

lemma set_clipboard_result:
  assumes "set_device_clipboard env im paste q = Some (ok, acts)"
  shows "acts = [] \<and> \<not> ok \<or>
    (\<exists>clip. acts = [Push_msg (SET_CLIPBOARD q (Some clip) paste)] \<and> env_clipboard env = Some clip \<and> ok = env_push_ok env)"
  using assms by (auto simp: set_device_clipboard_def split: bind_splits option.splits if_splits)

lemma request_actions2:
  "acts_all shortcut_action (paste_shortcut env shift im)" "acts_all shortcut_action (panel_shortcut shift im)"
proof -
  have "acts_all shortcut_action (map_option snd (set_device_clipboard env im True SC_SEQUENCE_INVALID))"
    by (auto simp: acts_all_def dest!: set_clipboard_result)
  then show "acts_all shortcut_action (paste_shortcut env shift im)" by (simp add: paste_shortcut_def request_actions)
qed (simp add: panel_shortcut_def request_actions)

lemma shortcut_flows:
  "flow_all shortcut_action (shortcut_local kc env e)" "flow_all shortcut_action (shortcut_any_source kc env e im)"
  "flow_all shortcut_action (shortcut_display kc env e im)" "flow_all shortcut_action (shortcut_camera kc env e im)"
  unfolding shortcut_local_def shortcut_any_source_def shortcut_display_def shortcut_camera_def Let_def
    action_home_def action_back_def action_app_switch_def action_menu_def action_power_def action_volume_up_def
    action_volume_down_def
  by (intro flow_all_intros request_actions request_actions2; simp)+

lemma process_shortcut_actions: "acts_all shortcut_action (process_shortcut kc env e im)"
proof -
  let ?f = "or_else (shortcut_local kc env e)
     (if im_disconnected im then Some Fall_through
      else or_else (if im_controller im then shortcut_any_source kc env e im else Some Fall_through)
          (or_else (if im_controller im \<and> \<not> im_camera im then shortcut_display kc env e im else Some Fall_through)
             (if im_controller im \<and> im_camera im then shortcut_camera kc env e im else Some Fall_through)))"
  have "flow_all shortcut_action ?f" by (intro flow_all_intros shortcut_flows) simp_all
  then show ?thesis unfolding process_shortcut_def
    by (auto simp: acts_all_def flow_all_def split: bind_splits flow.splits)
qed

fun on_host :: "im_action \<Rightarrow> bool" where
  "on_host (Screen e) \<longleftrightarrow> True"
| "on_host (Set_paused b) \<longleftrightarrow> True"
| "on_host Fps_start \<longleftrightarrow> True"
| "on_host Fps_stop \<longleftrightarrow> True"
| "on_host Push_quit \<longleftrightarrow> True"
| "on_host _ \<longleftrightarrow> False"

lemma shortcut_local_host: "flow_all on_host (shortcut_local kc env e)"
proof -
  have "acts_all on_host (apply_orientation_transform env t)" "acts_all on_host (switch_fps_counter_state env)" for t
    by (auto simp: acts_all_def apply_orientation_transform_def switch_fps_counter_state_def split: bind_splits)
  then show ?thesis unfolding shortcut_local_def Let_def by (intro flow_all_intros; simp)
qed

lemma process_shortcut_disconnected:
  "im_disconnected im \<Longrightarrow> acts_all on_host (process_shortcut kc env e im)"
  using shortcut_local_host [of kc env e]
  by (auto simp: process_shortcut_def or_else_def acts_all_def flow_all_def split: bind_splits flow.splits)

text \<open>C27. Shortcuts stay on the host: a key pressed with a shortcut modifier, or such a modifier itself, never reaches the
  key processor nor moves a pointer, changes only the count of identical presses, and sends nothing to a
  device that is disconnected; and it produces no text.\<close>

theorem shortcuts_not_forwarded:
  assumes "sdl_shortcut_mods im \<inter> ki_mods e \<noteq> {} \<or> sc_shortcut_mods_is_shortcut_key kc (sdl_shortcut_mods im) (ki_key e)"
    and "sc_input_manager_handle_event rnd kc env (In_key e) im = Some (im', acts)"
    and "sdl_shortcut_mods im \<inter> env_mod_state env \<noteq> {}"
    and "sc_input_manager_handle_event rnd kc env (In_text s) im = Some (im2, tacts)"
  shows "(\<forall>a \<in> set acts. shortcut_action a) \<and> im' = count_key e im \<and>
    (im_disconnected im \<longrightarrow> (\<forall>a \<in> set acts. on_host a)) \<and> im2 = im \<and> tacts = []"
proof -
  have "acts_all shortcut_action (process_shortcut kc env e (count_key e im))" by (rule process_shortcut_actions)
  moreover have "im_disconnected im \<Longrightarrow> acts_all on_host (process_shortcut kc env e (count_key e im))"
    by (rule process_shortcut_disconnected) simp
  moreover have "im2 = im \<and> tacts = []"
    using assms(3,4) by (auto simp: sc_input_manager_process_text_input_def sc_shortcut_mods_is_shortcut_mod_def
        split: option.splits if_splits bind_splits)
  ultimately show ?thesis using assms(1,2)
    by (auto simp: sc_input_manager_process_key_def sc_shortcut_mods_is_shortcut_mod_def Let_def Int_commute acts_all_def
        split: bind_splits if_splits)
qed

section \<open>Acknowledgements\<close>

text \<open>The non-zero sequences the key processor is told to wait for.\<close>

fun ack_of :: "im_action \<Rightarrow> u64 list" where
  "ack_of (Kp_key e ack) = (if ack = SC_SEQUENCE_INVALID then [] else [ack])"
| "ack_of _ = []"

definition awaited_acks :: "im_action list \<Rightarrow> u64 list" where
  "awaited_acks acts = concat (map ack_of acts)"

lemma awaited_acks_simps [simp]: "awaited_acks [] = []" "awaited_acks (a # acts) = ack_of a @ awaited_acks acts" "awaited_acks (acts @ bs) = awaited_acks acts @ awaited_acks bs"
  by (simp_all add: awaited_acks_def)

lemma no_acks: "(\<forall>a \<in> set acts. shortcut_action a) \<Longrightarrow> awaited_acks acts = []"
proof (induction acts)
  case (Cons a acts)
  then show ?case by (cases a) simp_all
qed simp

lemma sync_clipboard_result:
  assumes "sync_clipboard kc env e kp im = Some (proceed, ack, im', acts)"
  shows "awaited_acks acts = [] \<and> (\<forall>a \<in> set acts. shortcut_action a) \<and>
    (ack = SC_SEQUENCE_INVALID \<and> im' = im \<or>
     ack = next_sequence im \<and> im' = im\<lparr>next_sequence := ack + 1\<rparr> \<and> env_push_ok env \<and>
     (\<exists>clip. acts = [Push_msg (SET_CLIPBOARD ack (Some clip) False)] \<and> env_clipboard env = Some clip))"
proof -
  have "acts_all shortcut_action (clipboard_paste env im)" by (rule request_actions)
  then show ?thesis using assms
    by (auto simp: sync_clipboard_def Let_def acts_all_def dest!: set_clipboard_result intro: no_acks
        split: bind_splits if_splits)
qed

text \<open>An acknowledgement is awaited only for a request just made, with the next number.\<close>

definition ack_requested :: "im_env \<Rightarrow> sc_input_manager \<Rightarrow> sc_input_manager \<Rightarrow> im_action list \<Rightarrow> bool" where
  "ack_requested env im im' acts \<longleftrightarrow>
     awaited_acks acts = [] \<and> next_sequence im' \<in> {next_sequence im, next_sequence im + 1} \<or>
     next_sequence im \<noteq> 0 \<and> next_sequence im' = next_sequence im + 1 \<and> env_push_ok env \<and>
     (\<exists>clip e. env_clipboard env = Some clip \<and>
        acts = [Push_msg (SET_CLIPBOARD (next_sequence im) (Some clip) False), Kp_key e (next_sequence im)])"

lemma plain_key_acks:
  assumes "process_plain_key kc env e im = Some (im', acts)"
  shows "ack_requested env im im' acts"
proof (cases "im_kp im = None \<or> env_paused env")
  case True
  with assms show ?thesis by (auto simp: process_plain_key_def ack_requested_def split: option.splits)
next
  case False
  then obtain kp where kp: "im_kp im = Some kp" "\<not> env_paused env" by auto
  obtain proceed ack bcts where s: "sync_clipboard kc env e kp im = Some (proceed, ack, im', bcts)"
    and a: "acts = bcts \<or> (\<exists>ev. acts = bcts @ [Kp_key ev ack])"
    using assms kp by (auto simp: process_plain_key_def split: bind_splits if_splits)
  show ?thesis using sync_clipboard_result [OF s] a
    by (auto simp: ack_requested_def SC_SEQUENCE_INVALID_def)
qed

lemma key_acks:
  assumes "sc_input_manager_process_key kc env e im = Some (im', acts)"
  shows "ack_requested env im im' acts"
proof -
  have "awaited_acks bcts = []" if "process_shortcut kc env e (count_key e im) = Some bcts" for bcts
    using process_shortcut_actions [of kc env e "count_key e im"] that by (auto simp: acts_all_def intro: no_acks)
  moreover have "ack_requested env im im2 bcts" if "process_plain_key kc env e (count_key e im) = Some (im2, bcts)" for im2 bcts
    using plain_key_acks [OF that] by (simp add: ack_requested_def)
  ultimately show ?thesis using assms
    by (auto simp: sc_input_manager_process_key_def ack_requested_def Let_def split: bind_splits if_splits)
qed

lemma binding_actions: "flow_all shortcut_action (run_binding im e b)"
  by (cases b) (auto simp: action_home_def action_app_switch_def intro!: flow_all_intros request_actions)

section \<open>The shape of the pointer handlers\<close>

text \<open>The marks of the buttons before and after the binding is looked at.\<close>

definition mark_released :: "button_input \<Rightarrow> sc_input_manager \<Rightarrow> sc_input_manager" where
  "mark_released e im = (if bi_down e then im else im\<lparr>mouse_buttons_state := mouse_buttons_state im - {bi_button e}\<rparr>)"

definition mark_pressed :: "button_input \<Rightarrow> sc_input_manager \<Rightarrow> sc_input_manager" where
  "mark_pressed e im = (if bi_down e then im\<lparr>mouse_buttons_state := insert (bi_button e) (mouse_buttons_state im)\<rparr> else im)"

lemma marks_simps [simp]:
  "next_sequence (mark_released e im) = next_sequence im" "next_sequence (mark_pressed e im) = next_sequence im"
  "vfinger_down (mark_released e im) = vfinger_down im" "vfinger_down (mark_pressed e im) = vfinger_down im"
  "vfinger_invert_x (mark_released e im) = vfinger_invert_x im" "vfinger_invert_x (mark_pressed e im) = vfinger_invert_x im"
  "vfinger_invert_y (mark_released e im) = vfinger_invert_y im" "vfinger_invert_y (mark_pressed e im) = vfinger_invert_y im"
  "im_disconnected (mark_released e im) = im_disconnected im" "im_disconnected (mark_pressed e im) = im_disconnected im"
  "im_fixed (mark_released e im) = im_fixed im" "im_fixed (mark_pressed e im) = im_fixed im"
  "im_mp (mark_released e im) = im_mp im" "im_mp (mark_pressed e im) = im_mp im"
  by (simp_all add: mark_released_def mark_pressed_def)

definition vfinger_msg :: "im_env \<Rightarrow> u32 \<Rightarrow> sc_point \<Rightarrow> im_action" where
  "vfinger_msg env action p = Push_msg (INJECT_TOUCH_EVENT action 0 0 SC_POINTER_ID_VIRTUAL_FINGER
     \<lparr>screen_size = frame_size (env_screen env), point = p\<rparr> (if action = AMOTION_EVENT_ACTION_UP then 0 else 1))"

lemma simulate_result:
  "simulate_virtual_finger env im action p = Some (ok, acts) \<Longrightarrow> ok = env_push_ok env \<and> acts = [vfinger_msg env action p]"
  by (auto simp: simulate_virtual_finger_def vfinger_msg_def split: bind_splits)

text \<open>The point of the virtual finger is the mirror image of the position given to the processor.\<close>

lemma vfinger_point_mirrors:
  assumes "vfinger_point rnd env im x y = Some v" "to_int32 x = Some i" "to_int32 y = Some j"
    "sc_input_manager_get_position rnd env mp i j = Some pos" "\<not> mp_relative_mode mp"
  shows "v = inverse_point (point pos) (frame_size (env_screen env)) (vfinger_invert_x im) (vfinger_invert_y im) \<and>
    screen_size pos = frame_size (env_screen env)"
  using assms by (auto simp: vfinger_point_def sc_input_manager_get_position_def split: bind_splits)

lemma button_result:
  assumes "sc_input_manager_process_mouse_button rnd env e im = Some (im', acts)"
  shows "im' = im \<and> acts = [] \<and>
      (im_camera im \<or> im_disconnected im \<or> bi_from_touch e \<or> bi_button e = SC_MOUSE_BUTTON_UNKNOWN) \<or>
    im' = mark_released e im \<and> (\<forall>a \<in> set acts. shortcut_action a) \<or>
    \<not> im_disconnected im \<and> \<not> im_camera im \<and> \<not> bi_from_touch e \<and> bi_button e \<noteq> SC_MOUSE_BUTTON_UNKNOWN \<and>
      process_click rnd env e (mark_released e im) = Some (im', acts)"
proof -
  let ?g = "im_camera im \<or> im_disconnected im \<or> bi_from_touch e \<or> bi_button e = SC_MOUSE_BUTTON_UNKNOWN"
  let ?f = "or_else (if im_controller (mark_released e im) \<and> \<not> env_paused env
     then run_binding (mark_released e im) e (sc_input_manager_get_binding
            (if shift_in (env_mod_state env) then bindings_sec (mark_released e im) else bindings_pri (mark_released e im)) (bi_button e))
     else Some Fall_through) (double_click_outside rnd env e (mark_released e im))"
  have "flow_all shortcut_action (double_click_outside rnd env e (mark_released e im))"
    by (auto simp: double_click_outside_def return_if_def flow_all_def split: bind_splits if_splits)
  then have f: "flow_all shortcut_action ?f" by (intro flow_all_intros binding_actions) simp_all
  have u: "sc_input_manager_process_mouse_button rnd env e im = (if ?g then Some (im, []) else do {
        f \<leftarrow> ?f; (case f of Return acts \<Rightarrow> Some (mark_released e im, acts) | Fall_through \<Rightarrow> process_click rnd env e (mark_released e im)) })"
    by (simp add: sc_input_manager_process_mouse_button_def mark_released_def Let_def)
  show ?thesis
  proof (cases ?g)
    case False
    with assms obtain r where r: "?f = Some r"
      "(case r of Return acts \<Rightarrow> Some (mark_released e im, acts) | Fall_through \<Rightarrow> process_click rnd env e (mark_released e im)) = Some (im', acts)"
      unfolding u by (auto split: bind_splits)
    show ?thesis using r f False by (cases r) (auto simp: flow_all_def)
  qed (use assms in \<open>auto simp: u\<close>)
qed

text \<open>The event the click handler gives to the processor, and the virtual finger after it.\<close>

lemma click_result:
  assumes "process_click rnd env e im = Some (im', acts)" "im_mp im = Some mp" "\<not> env_paused env"
  shows "\<exists>evt vacts i j. acts = Mp_click evt # vacts \<and> to_int32 (bi_x e) = Some i \<and> to_int32 (bi_y e) = Some j \<and>
    sc_input_manager_get_position rnd env mp i j = Some (click_position evt) \<and>
    click_action evt = (if bi_down e then SC_ACTION_DOWN else SC_ACTION_UP) \<and> click_button evt = bi_button e \<and>
    click_buttons_state evt = mouse_buttons_state (mark_pressed e im) \<and>
    (mp_relative_mode mp \<and> vacts = [] \<and> im' = mark_pressed e im \<and> \<not> vfinger_down im \<or>
     \<not> mp_relative_mode mp \<and> process_vfinger rnd env e (mark_pressed e im) = Some (im', vacts))"
  using assms by (auto simp: process_click_def mark_pressed_def [symmetric] Let_def split: bind_splits if_splits)

lemma click_none:
  "process_click rnd env e im = Some (im', acts) \<Longrightarrow> im_mp im = None \<or> env_paused env \<Longrightarrow> im' = im \<and> acts = []"
  by (auto simp: process_click_def split: option.splits)

lemma motion_result:
  assumes "sc_input_manager_process_mouse_motion rnd env e im = Some acts"
  shows "acts = [] \<or>
    (\<exists>mp evt vacts i j. im_mp im = Some mp \<and> \<not> im_disconnected im \<and> acts = Mp_motion evt # vacts \<and>
      to_int32 (mi_x e) = Some i \<and> to_int32 (mi_y e) = Some j \<and>
      sc_input_manager_get_position rnd env mp i j = Some (motion_position evt) \<and>
      motion_buttons_state evt = mouse_buttons_state im \<and>
      (\<not> vfinger_down im \<and> vacts = [] \<or>
       vfinger_down im \<and> \<not> mp_relative_mode mp \<and> (\<exists>v. vfinger_point rnd env im (mi_x e) (mi_y e) = Some v \<and>
         vacts = [vfinger_msg env AMOTION_EVENT_ACTION_MOVE v])))"
  using assms
  by (auto simp: sc_input_manager_process_mouse_motion_def Let_def dest!: simulate_result
      split: option.splits bind_splits if_splits)

text \<open>What the virtual finger does at a press or a release.\<close>

definition flags_at :: "im_env \<Rightarrow> bool \<times> bool" where
  "flags_at env = (ctrl_in (env_mod_state env) \<noteq> shift_in (env_mod_state env), ctrl_in (env_mod_state env))"

definition set_flags :: "bool \<times> bool \<Rightarrow> sc_input_manager \<Rightarrow> sc_input_manager" where
  "set_flags f im = im\<lparr>vfinger_invert_x := fst f, vfinger_invert_y := snd f\<rparr>"

lemma set_flags_simps [simp]:
  "vfinger_invert_x (set_flags f im) = fst f" "vfinger_invert_y (set_flags f im) = snd f"
  "vfinger_down (set_flags f im) = vfinger_down im" "next_sequence (set_flags f im) = next_sequence im"
  "mouse_buttons_state (set_flags f im) = mouse_buttons_state im" "im_disconnected (set_flags f im) = im_disconnected im"
  "im_fixed (set_flags f im) = im_fixed im"
  by (simp_all add: set_flags_def im_fixed_def)

lemma vfinger_result:
  assumes "process_vfinger rnd env e im = Some (im', acts)"
  shows "im' = im \<and> acts = [] \<or>
    (\<exists>v jm action. change_vfinger env e im \<and> vfinger_point rnd env jm (bi_x e) (bi_y e) = Some v \<and>
      acts = [vfinger_msg env action v] \<and> vfinger_down im = (\<not> bi_down e) \<and>
      jm = (if bi_down e then set_flags (flags_at env) im else im) \<and>
      action = (if bi_down e then AMOTION_EVENT_ACTION_DOWN else AMOTION_EVENT_ACTION_UP) \<and>
      im' = (if env_push_ok env then jm\<lparr>vfinger_down := bi_down e\<rparr> else jm))"
proof (cases "change_vfinger env e im")
  case True
  let ?jm = "if bi_down e then set_flags (flags_at env) im else im"
  have "process_vfinger rnd env e im = do {
        vfinger \<leftarrow> vfinger_point rnd env ?jm (bi_x e) (bi_y e);
        (ok, acts) \<leftarrow> simulate_virtual_finger env ?jm
          (if bi_down e then AMOTION_EVENT_ACTION_DOWN else AMOTION_EVENT_ACTION_UP) vfinger;
        Some (if ok then ?jm\<lparr>vfinger_down := bi_down e\<rparr> else ?jm, acts) }"
    unfolding process_vfinger_def set_flags_def flags_at_def Let_def fst_conv snd_conv if_P [OF True] ..
  with assms obtain v ok where v: "vfinger_point rnd env ?jm (bi_x e) (bi_y e) = Some v"
    "simulate_virtual_finger env ?jm (if bi_down e then AMOTION_EVENT_ACTION_DOWN else AMOTION_EVENT_ACTION_UP) v = Some (ok, acts)"
    "im' = (if ok then ?jm\<lparr>vfinger_down := bi_down e\<rparr> else ?jm)"
    by (auto split: bind_splits)
  moreover have "vfinger_down im = (\<not> bi_down e)" using True by (auto simp: change_vfinger_def)
  ultimately show ?thesis using True simulate_result [OF v(2)] by blast
qed (use assms in \<open>simp add: process_vfinger_def\<close>)

end
