(* ===== verification/InputStreams.thy ===== *)
theory InputStreams
  imports InputDispatch
begin

text \<open>
  Runs of the input manager: the sequences of acknowledgements, of virtual finger messages and of mouse events
  that a run produces.
\<close>

section \<open>Acknowledgements of a run\<close>

lemma vfinger_keeps [simp]:
  "im_fixed (im\<lparr>vfinger_down := b\<rparr>) = im_fixed im" "im_fixed (im\<lparr>im_disconnected := b\<rparr>) = im_fixed im"
  by (simp_all add: im_fixed_def)

lemma click_keeps:
  assumes "process_click rnd env e im = Some (im', acts)"
  shows "awaited_acks acts = [] \<and> next_sequence im' = next_sequence im \<and> im_disconnected im' = im_disconnected im \<and>
    im_fixed im' = im_fixed im"
proof (cases "im_mp im = None \<or> env_paused env")
  case True
  from click_none [OF assms True] show ?thesis by simp
next
  case False
  then obtain mp where "im_mp im = Some mp" "\<not> env_paused env" by auto
  from click_result [OF assms this] show ?thesis
    by (auto simp: vfinger_msg_def dest!: vfinger_result split: if_splits)
qed

lemma event_acks:
  assumes "sc_input_manager_handle_event rnd kc env ev im = Some (im', acts)"
  shows "ack_requested env im im' acts"
proof (cases ev)
  case (In_key e)
  with assms key_acks show ?thesis by simp
next
  case (In_button e)
  with assms button_result [of rnd env e im im' acts] show ?thesis
    by (auto simp: ack_requested_def no_acks dest: click_keeps)
next
  case (In_motion e)
  with assms show ?thesis by (auto simp: ack_requested_def vfinger_msg_def dest!: motion_result)
next
  case (In_gamepad_added j)
  with assms show ?thesis
    by (auto simp: ack_requested_def sc_input_manager_process_gamepad_added_def split: option.splits)
qed (use assms in \<open>auto simp: ack_requested_def sc_input_manager_process_text_input_def sc_input_manager_process_mouse_wheel_def
    sc_input_manager_process_touch_def sc_input_manager_process_gamepad_removed_def sc_input_manager_process_gamepad_axis_def
    sc_input_manager_process_gamepad_button_def sc_input_manager_process_file_def sc_input_manager_on_device_disconnected_def
    split: option.splits if_splits bind_splits\<close>)

lemma run_acks:
  assumes "im_run rnd kc es im = Some (im', tr)" "unat (next_sequence im) + length es < 2 ^ 64"
  shows "sorted_wrt (<) (map unat (awaited_acks (concat (map snd tr)))) \<and>
    (\<forall>q \<in> set (awaited_acks (concat (map snd tr))). unat (next_sequence im) \<le> unat q)"
  using assms
proof (induction es arbitrary: im tr)
  case (Cons x es)
  obtain env ev where x: "x = (env, ev)" by force
  with Cons.prems(1) obtain im1 acts tr' where
    h: "sc_input_manager_handle_event rnd kc env ev im = Some (im1, acts)"
    and r: "im_run rnd kc es im1 = Some (im', tr')" and tr: "tr = (env, acts) # tr'"
    by (auto split: bind_splits)
  have suc: "unat (next_sequence im + 1) = unat (next_sequence im) + 1"
    using Cons.prems(2) by (simp add: unat_word_ariths)
  from event_acks [OF h] consider
    (none) "awaited_acks acts = []" "unat (next_sequence im) \<le> unat (next_sequence im1)"
      "unat (next_sequence im1) \<le> unat (next_sequence im) + 1"
  | (one) "awaited_acks acts = [next_sequence im]" "unat (next_sequence im1) = unat (next_sequence im) + 1"
    by (fastforce simp: ack_requested_def suc SC_SEQUENCE_INVALID_def)
  then show ?case
  proof cases
    case none
    with Cons.IH [OF r] Cons.prems(2) tr show ?thesis by fastforce
  next
    case one
    with Cons.IH [OF r] Cons.prems(2) tr show ?thesis by fastforce
  qed
qed simp

text \<open>C26. The key processor waits only for acknowledgements that will come, each once: in a run of fewer than \<open>2 ^ 64 - 1\<close>
  events, the sequence numbers given to it are non-zero and strictly increasing, and each is that of a request
  for an acknowledged clipboard, the content of the clipboard of the computer, pushed successfully just
  before the key, without pasting.\<close>

theorem paste_waits_for_own_request:
  assumes "im_run rnd kc es (sc_input_manager_init kc p) = Some (im', tr)" "length es < 2 ^ 64 - 1"
  shows "sorted_wrt (<) (map unat (awaited_acks (concat (map snd tr)))) \<and> 0 \<notin> set (awaited_acks (concat (map snd tr))) \<and>
    (\<forall>(env, acts) \<in> set tr. \<forall>q \<in> set (awaited_acks acts). env_push_ok env \<and>
      (\<exists>clip e. env_clipboard env = Some clip \<and> acts = [Push_msg (SET_CLIPBOARD q (Some clip) False), Kp_key e q]))"
proof -
  have "\<forall>(env, acts) \<in> set tr. \<exists>im im'. ack_requested env im im' acts"
    if "im_run rnd kc es im = Some (im', tr)" for im
    using that
  proof (induction es arbitrary: im tr)
    case (Cons x es)
    then show ?case by (cases x) (fastforce split: bind_splits dest: event_acks)
  qed simp
  from this [OF assms(1)] have "\<forall>(env, acts) \<in> set tr. \<forall>q \<in> set (awaited_acks acts). env_push_ok env \<and>
      (\<exists>clip e. env_clipboard env = Some clip \<and> acts = [Push_msg (SET_CLIPBOARD q (Some clip) False), Kp_key e q])"
    by (fastforce simp: ack_requested_def SC_SEQUENCE_INVALID_def)
  moreover have "next_sequence (sc_input_manager_init kc p) = 1" by (simp add: sc_input_manager_init_def)
  ultimately show ?thesis using run_acks [OF assms(1)] assms(2) by fastforce
qed

section \<open>Gestures of the virtual finger\<close>

text \<open>The messages of the virtual finger, and the position of the mouse given to the processor in the same call.\<close>

fun vfinger_of :: "im_action \<Rightarrow> (u32 \<times> sc_position \<times> rat) list" where
  "vfinger_of (Push_msg (INJECT_TOUCH_EVENT a ab b ptr pos pr)) =
     (if ptr = SC_POINTER_ID_VIRTUAL_FINGER then [(a, pos, pr)] else [])"
| "vfinger_of _ = []"

fun mouse_position :: "im_action list \<Rightarrow> sc_position option" where
  "mouse_position (Mp_motion e # _) = Some (motion_position e)"
| "mouse_position (Mp_click e # _) = Some (click_position e)"
| "mouse_position _ = None"

definition mirrored :: "bool \<times> bool \<Rightarrow> sc_position \<Rightarrow> sc_position \<Rightarrow> bool" where
  "mirrored f mouse pos \<longleftrightarrow> screen_size pos = screen_size mouse \<and>
     point pos = inverse_point (point mouse) (screen_size mouse) (fst f) (snd f)"

text \<open>What is expected of the messages that reach the device. The state is the symmetry chosen at the press.\<close>

fun vfinger_next ::
  "(bool \<times> bool) option \<Rightarrow> im_env \<Rightarrow> sc_position \<Rightarrow> u32 \<times> sc_position \<times> rat \<Rightarrow> (bool \<times> bool) option option" where
  "vfinger_next None env mouse (a, pos, pr) =
     (if a = AMOTION_EVENT_ACTION_DOWN \<and> pr = 1 \<and> flags_at env \<noteq> (False, False) \<and> mirrored (flags_at env) mouse pos
      then Some (Some (flags_at env)) else None)"
| "vfinger_next (Some f) env mouse (a, pos, pr) =
     (if a = AMOTION_EVENT_ACTION_MOVE \<and> pr = 1 \<and> mirrored f mouse pos then Some (Some f)
      else if a = AMOTION_EVENT_ACTION_UP \<and> pr = 0 \<and> mirrored f mouse pos then Some None
      else None)"

definition gesture_step ::
  "(bool \<times> bool) option \<Rightarrow> im_env \<Rightarrow> im_action list \<Rightarrow> (bool \<times> bool) option option" where
  "gesture_step st env acts =
     (case concat (map vfinger_of acts) of
        [] \<Rightarrow> Some st
      | [m] \<Rightarrow> do {
          mouse \<leftarrow> mouse_position acts;
          st' \<leftarrow> vfinger_next st env mouse m;
          Some (if env_push_ok env then st' else st)
        }
      | _ \<Rightarrow> None)"

fun gesture :: "(bool \<times> bool) option \<Rightarrow> (im_env \<times> im_action list) list \<Rightarrow> (bool \<times> bool) option option" where
  "gesture st [] = Some st"
| "gesture st ((env, acts) # tr) = do { st \<leftarrow> gesture_step st env acts; gesture st tr }"

definition vfinger_state :: "sc_input_manager \<Rightarrow> (bool \<times> bool) option" where
  "vfinger_state im = (if vfinger_down im then Some (vfinger_invert_x im, vfinger_invert_y im) else None)"

lemma inverse_point_involutive: "inverse_point (inverse_point p s ix iy) s ix iy = p"
  by (simp add: inverse_point_def)

lemma vfinger_of_msg [simp]:
  "vfinger_of (vfinger_msg env a p) =
     [(a, \<lparr>screen_size = frame_size (env_screen env), point = p\<rparr>, if a = AMOTION_EVENT_ACTION_UP then 0 else 1)]"
  by (simp add: vfinger_msg_def)

lemma no_vfinger: "(\<forall>a \<in> set acts. shortcut_action a) \<Longrightarrow> concat (map vfinger_of acts) = []"
proof (induction acts)
  case (Cons a acts)
  then show ?case by (cases a rule: vfinger_of.cases) simp_all
qed simp

lemma vfinger_state_simps [simp]:
  "vfinger_state (mark_released e im) = vfinger_state im" "vfinger_state (mark_pressed e im) = vfinger_state im"
  "vfinger_state (count_key k im) = vfinger_state im" "vfinger_state (im\<lparr>next_sequence := q\<rparr>) = vfinger_state im"
  "vfinger_state (im\<lparr>im_disconnected := d\<rparr>) = vfinger_state im"
  by (simp_all add: vfinger_state_def)

lemma point_mirrored:
  assumes "vfinger_point rnd env im x y = Some v" "to_int32 x = Some i" "to_int32 y = Some j"
    "sc_input_manager_get_position rnd env mp i j = Some pos" "\<not> mp_relative_mode mp"
  shows "mirrored (vfinger_invert_x im, vfinger_invert_y im) pos \<lparr>screen_size = frame_size (env_screen env), point = v\<rparr>"
  using vfinger_point_mirrors [OF assms] by (simp add: mirrored_def)

lemma click_gesture:
  assumes "process_click rnd env e im = Some (im', acts)"
  shows "gesture_step (vfinger_state im) env acts = Some (vfinger_state im')"
proof (cases "im_mp im = None \<or> env_paused env")
  case True
  from click_none [OF assms True] show ?thesis by (simp add: gesture_step_def)
next
  case False
  then obtain mp where "im_mp im = Some mp" "\<not> env_paused env" by auto
  from click_result [OF assms this] obtain evt vacts i j where
    a: "acts = Mp_click evt # vacts" "to_int32 (bi_x e) = Some i" "to_int32 (bi_y e) = Some j"
      "sc_input_manager_get_position rnd env mp i j = Some (click_position evt)"
    and v: "vacts = [] \<and> im' = mark_pressed e im \<or>
      \<not> mp_relative_mode mp \<and> process_vfinger rnd env e (mark_pressed e im) = Some (im', vacts)" by blast
  show ?thesis
  proof (cases "vacts = []")
    case True
    with v have "vfinger_state im' = vfinger_state im" by (auto dest!: vfinger_result)
    with True a(1) show ?thesis by (simp add: gesture_step_def)
  next
    case False
    with v vfinger_result [of rnd env e "mark_pressed e im" im' vacts] obtain p jm action where
      r: "\<not> mp_relative_mode mp" "change_vfinger env e (mark_pressed e im)" "vfinger_point rnd env jm (bi_x e) (bi_y e) = Some p"
        "vacts = [vfinger_msg env action p]" "vfinger_down im = (\<not> bi_down e)"
        "jm = (if bi_down e then set_flags (flags_at env) (mark_pressed e im) else mark_pressed e im)"
        "action = (if bi_down e then AMOTION_EVENT_ACTION_DOWN else AMOTION_EVENT_ACTION_UP)"
        "im' = (if env_push_ok env then jm\<lparr>vfinger_down := bi_down e\<rparr> else jm)" by auto
    note m = point_mirrored [OF r(3) a(2-4) r(1)]
    have f: "bi_down e \<Longrightarrow> flags_at env \<noteq> (False, False)" using r(2) by (auto simp: change_vfinger_def flags_at_def)
    show ?thesis using m a(1) r(4-) f
      by (cases "bi_down e") (simp_all add: gesture_step_def vfinger_state_def AMOTION_EVENT_ACTION_DOWN_def
          AMOTION_EVENT_ACTION_UP_def AMOTION_EVENT_ACTION_MOVE_def split: if_splits)
  qed
qed

lemma motion_gesture:
  assumes "sc_input_manager_process_mouse_motion rnd env e im = Some acts"
  shows "gesture_step (vfinger_state im) env acts = Some (vfinger_state im)"
proof -
  have "AMOTION_EVENT_ACTION_MOVE \<noteq> AMOTION_EVENT_ACTION_UP"
    by (simp add: AMOTION_EVENT_ACTION_UP_def AMOTION_EVENT_ACTION_MOVE_def)
  with motion_result [OF assms] show ?thesis
    by (auto simp: gesture_step_def vfinger_state_def dest: point_mirrored)
qed

text \<open>A key changes nothing of the pointer, and pushes no touch.\<close>

lemma key_pointer:
  assumes "sc_input_manager_process_key kc env e im = Some (im', acts)"
  shows "(\<forall>a \<in> set acts. shortcut_action a \<or> (\<exists>k q. a = Kp_key k q)) \<and> vfinger_state im' = vfinger_state im \<and>
    mouse_buttons_state im' = mouse_buttons_state im \<and> im_disconnected im' = im_disconnected im \<and> im_fixed im' = im_fixed im"
proof -
  have "(\<forall>a \<in> set bcts. shortcut_action a \<or> (\<exists>k q. a = Kp_key k q)) \<and> vfinger_state jm = vfinger_state im \<and>
    mouse_buttons_state jm = mouse_buttons_state im \<and> im_disconnected jm = im_disconnected im \<and> im_fixed jm = im_fixed im"
    if "process_plain_key kc env e (count_key e im) = Some (jm, bcts)" for jm bcts
    using that by (auto simp: process_plain_key_def dest!: sync_clipboard_result split: option.splits bind_splits if_splits)
  moreover have "\<forall>a \<in> set bcts. shortcut_action a" if "process_shortcut kc env e (count_key e im) = Some bcts" for bcts
    using process_shortcut_actions [of kc env e "count_key e im"] that by (simp add: acts_all_def)
  ultimately show ?thesis using assms
    by (auto simp: sc_input_manager_process_key_def Let_def split: bind_splits if_splits)
qed

lemma key_no_vfinger:
  "\<forall>a \<in> set acts. shortcut_action a \<or> (\<exists>k q. a = Kp_key k q) \<Longrightarrow> concat (map vfinger_of acts) = []"
proof (induction acts)
  case (Cons a acts)
  then show ?case by (cases a rule: vfinger_of.cases) auto
qed simp

lemma event_gesture:
  assumes "sc_input_manager_handle_event rnd kc env ev im = Some (im', acts)"
  shows "gesture_step (vfinger_state im) env acts = Some (vfinger_state im')"
proof (cases ev)
  case (In_key e)
  with assms key_pointer [of kc env e im im' acts] show ?thesis by (simp add: gesture_step_def key_no_vfinger)
next
  case (In_button e)
  with assms button_result [of rnd env e im im' acts] show ?thesis
    using click_gesture [of rnd env e "mark_released e im" im' acts] by (auto simp: gesture_step_def no_vfinger)
next
  case (In_motion e)
  with assms motion_gesture [of rnd env e im] show ?thesis by auto
next
  case (In_gamepad_added j)
  with assms show ?thesis
    by (auto simp: gesture_step_def sc_input_manager_process_gamepad_added_def split: option.splits)
qed (use assms in \<open>auto simp: gesture_step_def sc_input_manager_process_text_input_def sc_input_manager_process_mouse_wheel_def
    sc_input_manager_process_touch_def sc_input_manager_process_gamepad_removed_def sc_input_manager_process_gamepad_axis_def
    sc_input_manager_process_gamepad_button_def sc_input_manager_process_file_def sc_input_manager_on_device_disconnected_def
    split: option.splits if_splits bind_splits\<close>)

lemma run_gesture:
  "im_run rnd kc es im = Some (im', tr) \<Longrightarrow> gesture (vfinger_state im) tr = Some (vfinger_state im')"
proof (induction es arbitrary: im tr)
  case (Cons x es)
  then show ?case by (cases x) (auto simp: event_gesture split: bind_splits)
qed simp

text \<open>C25. Two-finger gestures: in every run, whatever pushes fail, the messages of the virtual finger that reach the
  device form complete gestures, a press, moves and a release, the finger being up at first; each is sent with
  the mouse event of the same call, at the point mirrored by the symmetry chosen at the press, which is not
  the identity; and the mirror image of the mirror image is the point itself, so the fingers are exchanged.\<close>

theorem vfinger_gestures:
  assumes "im_run rnd kc es (sc_input_manager_init kc p) = Some (im', tr)"
  shows "gesture None tr = Some (vfinger_state im') \<and>
    (\<forall>q s ix iy. inverse_point (inverse_point q s ix iy) s ix iy = q)"
proof -
  have "vfinger_state (sc_input_manager_init kc p) = None" by (simp add: vfinger_state_def sc_input_manager_init_def)
  with run_gesture [OF assms] show ?thesis by (simp add: inverse_point_involutive)
qed

section \<open>The mouse of a run\<close>

fun mouse_event_of :: "im_action \<Rightarrow> mouse_event list" where
  "mouse_event_of (Mp_motion e) = [Motion e]"
| "mouse_event_of (Mp_click e) = [Click e]"
| "mouse_event_of (Mp_scroll e) = [Scroll e]"
| "mouse_event_of _ = []"

definition mouse_events :: "im_action list \<Rightarrow> mouse_event list" where
  "mouse_events acts = concat (map mouse_event_of acts)"

lemma mouse_events_simps [simp]:
  "mouse_events [] = []" "mouse_events (a # acts) = mouse_event_of a @ mouse_events acts"
  "mouse_events (acts @ bs) = mouse_events acts @ mouse_events bs"
  by (simp_all add: mouse_events_def)

text \<open>The events of a physical mouse: a button goes down when it is up and up when it is down, the display is
  not paused when it does, the wheel turns by less than the messages can carry, and no double click falls
  outside the content.\<close>

fun sdl_event_ok :: "(rat \<Rightarrow> rat) \<Rightarrow> im_env \<Rightarrow> sc_mouse_button set \<Rightarrow> im_event \<Rightarrow> bool" where
  "sdl_event_ok rnd env S (In_button e) \<longleftrightarrow> \<not> env_paused env \<and>
     (\<not> bi_from_touch e \<longrightarrow> (bi_down e \<longleftrightarrow> bi_button e \<notin> S)) \<and>
     (bi_clicks e = 2 \<longrightarrow> (\<forall>x y. to_int32 (bi_x e) = Some x \<longrightarrow> to_int32 (bi_y e) = Some y \<longrightarrow> \<not> outside_content rnd env x y))"
| "sdl_event_ok rnd env S (In_wheel dx dy) \<longleftrightarrow> i16fp_ok (scroll_norm dx) \<and> i16fp_ok (scroll_norm dy)"
| "sdl_event_ok rnd env S _ \<longleftrightarrow> True"

fun held_by_sdl :: "sc_mouse_button set \<Rightarrow> im_event \<Rightarrow> sc_mouse_button set" where
  "held_by_sdl S (In_button e) =
     (if bi_from_touch e \<or> bi_button e = SC_MOUSE_BUTTON_UNKNOWN then S
      else if bi_down e then insert (bi_button e) S else S - {bi_button e})"
| "held_by_sdl S _ = S"

fun sdl_events_ok :: "(rat \<Rightarrow> rat) \<Rightarrow> sc_mouse_button set \<Rightarrow> (im_env \<times> im_event) list \<Rightarrow> bool" where
  "sdl_events_ok rnd S [] \<longleftrightarrow> True"
| "sdl_events_ok rnd S ((env, ev) # es) \<longleftrightarrow> sdl_event_ok rnd env S ev \<and> sdl_events_ok rnd (held_by_sdl S ev) es"

definition click_bindings :: sc_mouse_binding_set where
  "click_bindings = \<lparr>right_click = SC_MOUSE_BINDING_CLICK, middle_click = SC_MOUSE_BINDING_CLICK,
     click4 = SC_MOUSE_BINDING_CLICK, click5 = SC_MOUSE_BINDING_CLICK\<rparr>"

definition all_clicks :: "sc_input_manager \<Rightarrow> bool" where
  "all_clicks im \<longleftrightarrow> bindings_pri im = click_bindings \<and> bindings_sec im = click_bindings \<and> im_mp im \<noteq> None \<and> \<not> im_camera im"

lemma all_clicks_fixed: "im_fixed im' = im_fixed im \<Longrightarrow> all_clicks im' = all_clicks im"
  by (simp add: im_fixed_def all_clicks_def)

lemma click_binding: "b \<noteq> SC_MOUSE_BUTTON_UNKNOWN \<Longrightarrow> sc_input_manager_get_binding click_bindings b = SC_MOUSE_BINDING_CLICK"
  by (cases b) (simp_all add: click_bindings_def)

text \<open>With all buttons bound to clicks, every button event reaches the click handler.\<close>

lemma button_clicks:
  assumes "sc_input_manager_process_mouse_button rnd env e im = Some (im', acts)" "all_clicks im" "\<not> im_disconnected im"
    "\<not> bi_from_touch e" "bi_button e \<noteq> SC_MOUSE_BUTTON_UNKNOWN" "sdl_event_ok rnd env S (In_button e)"
  shows "process_click rnd env e (mark_released e im) = Some (im', acts)"
proof -
  have b: "bindings_pri (mark_released e im) = click_bindings" "bindings_sec (mark_released e im) = click_bindings" "\<not> im_camera im"
    using assms(2) by (simp_all add: all_clicks_def mark_released_def)
  have "r = Fall_through" if "double_click_outside rnd env e (mark_released e im) = Some r" for r
    using that assms(6) by (auto simp: double_click_outside_def split: bind_splits if_splits)
  then show ?thesis using assms(1,3-5) b
    by (auto simp: sc_input_manager_process_mouse_button_def mark_released_def [symmetric] Let_def or_else_def click_binding
        split: bind_splits if_splits flow.splits)
qed

definition one_mouse_event :: "sc_mouse_button set \<Rightarrow> sc_mouse_button set \<Rightarrow> mouse_event list \<Rightarrow> bool" where
  "one_mouse_event S S' es \<longleftrightarrow> es = [] \<and> S' = S \<or> (\<exists>e. es = [e] \<and> host_event S e \<and> held_after e = S')"

lemma no_mouse: "\<forall>a \<in> set acts. shortcut_action a \<or> (\<exists>k q. a = Kp_key k q) \<Longrightarrow> mouse_events acts = []"
proof (induction acts)
  case (Cons a acts)
  then show ?case by (cases a) auto
qed simp

lemma mouse_event_of_msg [simp]: "mouse_event_of (vfinger_msg env a p) = []"
  by (simp add: vfinger_msg_def)

lemma vfinger_mouse:
  assumes "process_vfinger rnd env e im = Some (im', acts)"
  shows "mouse_events acts = [] \<and> mouse_buttons_state im' = mouse_buttons_state im"
  using vfinger_result [OF assms] by (auto split: if_splits)

lemma button_mouse:
  assumes "sc_input_manager_process_mouse_button rnd env e im = Some (im', acts)" "all_clicks im" "\<not> im_disconnected im"
    "sdl_event_ok rnd env (mouse_buttons_state im) (In_button e)"
  shows "one_mouse_event (mouse_buttons_state im) (held_by_sdl (mouse_buttons_state im) (In_button e)) (mouse_events acts) \<and>
    mouse_buttons_state im' = held_by_sdl (mouse_buttons_state im) (In_button e)"
proof (cases "bi_from_touch e \<or> bi_button e = SC_MOUSE_BUTTON_UNKNOWN")
  case True
  with assms(1) show ?thesis by (auto simp: one_mouse_event_def sc_input_manager_process_mouse_button_def)
next
  case False
  then have c: "process_click rnd env e (mark_released e im) = Some (im', acts)" using button_clicks [OF assms(1-3)] assms(4) by blast
  obtain mp where mp: "im_mp (mark_released e im) = Some mp" "\<not> env_paused env" using assms(2,4) by (auto simp: all_clicks_def)
  from click_result [OF c mp] obtain evt vacts where
    a: "acts = Mp_click evt # vacts" "click_action evt = (if bi_down e then SC_ACTION_DOWN else SC_ACTION_UP)"
      "click_button evt = bi_button e" "click_buttons_state evt = mouse_buttons_state (mark_pressed e (mark_released e im))"
    and v: "vacts = [] \<and> im' = mark_pressed e (mark_released e im) \<or>
      process_vfinger rnd env e (mark_pressed e (mark_released e im)) = Some (im', vacts)" by blast
  have m: "mouse_events vacts = []" "mouse_buttons_state im' = mouse_buttons_state (mark_pressed e (mark_released e im))"
    using v vfinger_mouse [of rnd env e "mark_pressed e (mark_released e im)" im' vacts] by auto
  have s: "mouse_buttons_state (mark_pressed e (mark_released e im)) =
      (if bi_down e then insert (bi_button e) (mouse_buttons_state im) else mouse_buttons_state im - {bi_button e})"
    by (simp add: mark_pressed_def mark_released_def)
  from a m s False assms(4) show ?thesis by (auto simp: one_mouse_event_def)
qed

lemma other_fixed:
  assumes "sc_input_manager_process_mouse_button rnd env e im = Some (im', acts)"
  shows "im_fixed im' = im_fixed im \<and> im_disconnected im' = im_disconnected im"
  using button_result [OF assms] click_keeps [of rnd env e "mark_released e im" im' acts] by auto

lemma event_fixed:
  assumes "sc_input_manager_handle_event rnd kc env ev im = Some (im', acts)"
  shows "im_fixed im' = im_fixed im \<and> (im_disconnected im \<longrightarrow> im_disconnected im' \<and> mouse_events acts = [])"
proof (cases ev)
  case (In_button e)
  with assms have b: "sc_input_manager_process_mouse_button rnd env e im = Some (im', acts)" by simp
  from button_result [OF b] have "im_disconnected im \<Longrightarrow> mouse_events acts = []" by (auto simp: no_mouse)
  with other_fixed [OF b] show ?thesis by simp
next
  case (In_key e)
  with assms key_pointer [of kc env e im im' acts] show ?thesis by (simp add: no_mouse)
next
  case (In_motion e)
  with assms show ?thesis by (auto dest!: motion_result)
next
  case (In_gamepad_added j)
  with assms show ?thesis by (auto simp: sc_input_manager_process_gamepad_added_def split: option.splits)
qed (use assms in \<open>auto simp: sc_input_manager_process_text_input_def sc_input_manager_process_mouse_wheel_def
    sc_input_manager_process_touch_def sc_input_manager_process_gamepad_removed_def sc_input_manager_process_gamepad_axis_def
    sc_input_manager_process_gamepad_button_def sc_input_manager_process_file_def sc_input_manager_on_device_disconnected_def
    split: option.splits if_splits bind_splits\<close>)

lemma event_mouse:
  assumes "sc_input_manager_handle_event rnd kc env ev im = Some (im', acts)" "all_clicks im" "\<not> im_disconnected im"
    "sdl_event_ok rnd env (mouse_buttons_state im) ev"
  shows "one_mouse_event (mouse_buttons_state im) (held_by_sdl (mouse_buttons_state im) ev) (mouse_events acts) \<and>
    mouse_buttons_state im' = held_by_sdl (mouse_buttons_state im) ev"
proof (cases ev)
  case (In_button e)
  with assms button_mouse show ?thesis by auto
next
  case (In_key e)
  with assms key_pointer [of kc env e im im' acts] show ?thesis by (simp add: one_mouse_event_def no_mouse)
next
  case (In_motion e)
  with assms show ?thesis by (auto simp: one_mouse_event_def dest!: motion_result)
next
  case (In_gamepad_added j)
  with assms show ?thesis by (auto simp: one_mouse_event_def sc_input_manager_process_gamepad_added_def split: option.splits)
qed (use assms in \<open>auto simp: one_mouse_event_def sc_input_manager_process_text_input_def sc_input_manager_process_mouse_wheel_def
    sc_input_manager_process_touch_def sc_input_manager_process_gamepad_removed_def sc_input_manager_process_gamepad_axis_def
    sc_input_manager_process_gamepad_button_def sc_input_manager_process_file_def sc_input_manager_on_device_disconnected_def
    split: option.splits if_splits bind_splits\<close>)

lemma run_disconnected:
  "im_run rnd kc es im = Some (im', tr) \<Longrightarrow> im_disconnected im \<Longrightarrow> concat (map (\<lambda>x. mouse_events (snd x)) tr) = []"
proof (induction es arbitrary: im tr)
  case (Cons x es)
  obtain env ev where x: "x = (env, ev)" by force
  with Cons.prems(1) obtain im1 acts tr' where
    h: "sc_input_manager_handle_event rnd kc env ev im = Some (im1, acts)" "im_run rnd kc es im1 = Some (im', tr')"
      "tr = (env, acts) # tr'" by (auto split: bind_splits)
  with Cons.IH [OF h(2)] event_fixed [OF h(1)] Cons.prems(2) show ?case by simp
qed simp

lemma run_mouse:
  "im_run rnd kc es im = Some (im', tr) \<Longrightarrow> all_clicks im \<Longrightarrow> sdl_events_ok rnd (mouse_buttons_state im) es \<Longrightarrow>
   host_events (mouse_buttons_state im) (concat (map (\<lambda>x. mouse_events (snd x)) tr))"
proof (induction es arbitrary: im tr)
  case (Cons x es)
  obtain env ev where x: "x = (env, ev)" by force
  with Cons.prems(1) obtain im1 acts tr' where
    h: "sc_input_manager_handle_event rnd kc env ev im = Some (im1, acts)" "im_run rnd kc es im1 = Some (im', tr')"
      "tr = (env, acts) # tr'" by (auto split: bind_splits)
  show ?case
  proof (cases "im_disconnected im")
    case True
    show ?thesis unfolding run_disconnected [OF Cons.prems(1) True] by simp
  next
    case False
    have e: "sdl_event_ok rnd env (mouse_buttons_state im) ev" "sdl_events_ok rnd (held_by_sdl (mouse_buttons_state im) ev) es"
      using Cons.prems(3) x by simp_all
    note m = event_mouse [OF h(1) Cons.prems(2) False e(1)]
    have "all_clicks im1" using event_fixed [OF h(1)] Cons.prems(2) all_clicks_fixed [of im1 im] by simp
    with Cons.IH [OF h(2)] e(2) m have "host_events (mouse_buttons_state im1) (concat (map (\<lambda>x. mouse_events (snd x)) tr'))" by simp
    with m h(3) show ?thesis by (auto simp: one_mouse_event_def)
  qed
qed simp

lemma run_total:
  assumes "float_rounding rnd"
  shows "\<forall>(env, ev) \<in> set es. env_ok env \<and> event_near rnd env (Some mp) ev \<Longrightarrow> im_inv im \<Longrightarrow> im_mp im = Some mp \<Longrightarrow>
    \<exists>im' tr. im_run rnd kc es im = Some (im', tr)"
proof (induction es arbitrary: im)
  case (Cons x es)
  obtain env ev where x: "x = (env, ev)" by force
  have "event_coords_ok rnd env (im_mp im) ev" using near_coords_ok [OF assms] Cons.prems(1,3) x by auto
  moreover have "\<not> null_wheel env ev im" using Cons.prems(3) by (cases ev) auto
  ultimately obtain im1 acts where
    h: "sc_input_manager_handle_event rnd kc env ev im = Some (im1, acts)" "im_inv im1" "im_mp im1 = Some mp"
    using Cons.prems x good_handle_event [of im env rnd ev kc] by (auto simp: good_result_def im_fixed_def)
  from Cons.IH [OF _ h(2,3)] Cons.prems(1) obtain im' tr where "im_run rnd kc es im1 = Some (im', tr)" by auto
  with h(1) x show ?case by auto
qed simp

text \<open>C24. From the mouse to the device: with a mouse processor, no camera and every button bound to a click, take any sequence of
  events of a physical mouse, mixed with any others, in which a button goes down when it is up and up when it is down,
  never while the display is paused, no double click falls outside the content (its release would be lost, see
  \<open>double_click_release_lost\<close>), the wheel turns by less than the messages can carry, and the pointer is near the content
  (as in C23, with its assumptions). Then the manager handles every event, the events it gives to the mouse processor
  are those of one mouse, with the buttons held, and the messages of the SDK mouse form a stream that Android
  accepts and the controller too.\<close>

theorem mouse_reaches_device:
  assumes "params_ok p" "par_bindings_pri p = click_bindings" "par_bindings_sec p = click_bindings"
    "par_mp p = Some mp" "\<not> par_camera p" "float_rounding rnd"
    and "\<forall>(env, ev) \<in> set es. env_ok env \<and> event_near rnd env (Some mp) ev" "sdl_events_ok rnd {} es"
  shows "\<exists>im tr msgs. im_run rnd kc es (sc_input_manager_init kc p) = Some (im, tr) \<and>
    host_events {} (concat (map (\<lambda>x. mouse_events (snd x)) tr)) \<and>
    msgs = concat (map (mouse_sdk_process m) (concat (map (\<lambda>x. mouse_events (snd x)) tr))) \<and>
    android_mouse 0 msgs \<noteq> None \<and> (\<forall>x \<in> set msgs. good_event (Push True x))"
proof -
  let ?im = "sc_input_manager_init kc p"
  have i: "im_inv ?im" using assms(1) by (simp add: im_init_inv params_ok_def)
  have "im_mp ?im = Some mp" using assms(4) by (simp add: sc_input_manager_init_def)
  then obtain im tr where r: "im_run rnd kc es ?im = Some (im, tr)" using run_total [OF assms(6,7) i] by blast
  have "mouse_buttons_state ?im = {}" "all_clicks ?im"
    using assms(2-5) by (simp_all add: all_clicks_def sc_input_manager_init_def)
  with run_mouse [OF r] assms(8) have h: "host_events {} (concat (map (\<lambda>x. mouse_events (snd x)) tr))" by simp
  from sdk_mouse_stream [OF h, of m] r h show ?thesis by blast
qed

section \<open>Where the handlers lose events\<close>

text \<open>C28. The wheel crashes the program exactly with a keyboard but no mouse: the handler tests the key processor and then
  uses the mouse processor, so a turn of the wheel dereferences a null pointer if and only if the keyboard is
  enabled, the mouse is not, and the event is neither ignored for a camera, a pause nor a disconnection.\<close>

theorem wheel_without_mouse:
  assumes "\<forall>mp. im_mp im = Some mp \<longrightarrow> pos_ok rnd env mp (env_mouse_x env) (env_mouse_y env)"
  shows "sc_input_manager_handle_event rnd kc env (In_wheel dx dy) im = None \<longleftrightarrow>
    im_kp im \<noteq> None \<and> im_mp im = None \<and> \<not> im_camera im \<and> \<not> env_paused env \<and> \<not> im_disconnected im"
proof (cases "im_mp im")
  case (Some mp)
  with assms have "pos_ok rnd env mp (env_mouse_x env) (env_mouse_y env)" by simp
  then show ?thesis using Some by (auto simp: sc_input_manager_process_mouse_wheel_def elim!: pos_obtain)
qed (simp add: sc_input_manager_process_mouse_wheel_def)

text \<open>The release of the left button after a double click is lost when it falls outside the content: the button
  is marked as released, but no event is given to the processor, for which it stays down.\<close>

lemma double_click_release_lost:
  assumes "\<not> im_camera im" "\<not> im_disconnected im" "im_mp im = Some mp" "\<not> mp_relative_mode mp"
    "win_video (env_screen env)" "bi_button e = SC_MOUSE_BUTTON_LEFT" "bi_clicks e = 2" "\<not> bi_down e" "\<not> bi_from_touch e"
    "to_int32 (bi_x e) = Some x" "to_int32 (bi_y e) = Some y" "outside_content rnd env x y"
  shows "sc_input_manager_handle_event rnd kc env (In_button e) im =
    Some (im\<lparr>mouse_buttons_state := mouse_buttons_state im - {SC_MOUSE_BUTTON_LEFT}\<rparr>, [])"
  using assms by (simp add: sc_input_manager_process_mouse_button_def Let_def or_else_def double_click_outside_def return_if_def)

text \<open>The binding is that of the modifiers at the moment of the event: when Shift changes while a button is held,
  the release is treated by the other binding, and the processor never gets it.\<close>

lemma shift_release_lost:
  assumes "\<not> im_camera im" "\<not> im_disconnected im" "im_controller im" "\<not> env_paused env" "\<not> shift_in (env_mod_state env)"
    "right_click (bindings_pri im) = SC_MOUSE_BINDING_BACK" "im_kp im \<noteq> None"
    "bi_button e = SC_MOUSE_BUTTON_RIGHT" "\<not> bi_down e" "\<not> bi_from_touch e"
  shows "sc_input_manager_handle_event rnd kc env (In_button e) im =
    Some (im\<lparr>mouse_buttons_state := mouse_buttons_state im - {SC_MOUSE_BUTTON_RIGHT}\<rparr>,
      [Push_msg (BACK_OR_SCREEN_ON AKEY_EVENT_ACTION_UP)])"
  using assms by (simp add: sc_input_manager_process_mouse_button_def Let_def or_else_def return_if_def
      press_back_or_turn_screen_on_def has_keyboard_def)

text \<open>A key that is no shortcut is still given to the processor of a device that is disconnected.\<close>

lemma key_after_disconnection:
  assumes "im_disconnected im" "im_kp im = Some kp" "\<not> im_camera im" "\<not> env_paused env" "\<not> clipboard_autosync im"
    "sdl_shortcut_mods im = {}" "ki_key e \<noteq> kc ''F11''" "ki_key e \<noteq> kc ''UNKNOWN''" "ki_scancode e \<noteq> 0"
  shows "\<exists>evt. sc_input_manager_handle_event rnd kc env (In_key e) im = Some (im, [Kp_key evt SC_SEQUENCE_INVALID])"
  using assms by (simp add: sc_input_manager_process_key_def sc_shortcut_mods_is_shortcut_mod_def
      sc_shortcut_mods_is_shortcut_key_def process_plain_key_def sync_clipboard_def count_key_def Let_def)

section \<open>A concrete manager\<close>

definition demo_kc :: "string \<Rightarrow> int" where
  "demo_kc s = (if s = ''UNKNOWN'' then 0 else int (of_char (hd s)) + int (length s))"

definition demo_params :: sc_input_manager_params where
  "demo_params = \<lparr>par_controller = True, par_kp = Some \<lparr>async_paste = True, kp_hid = True, has_process_text = True\<rparr>,
     par_mp = Some \<lparr>mp_relative_mode = False, has_process_touch = True, has_process_scroll = True\<rparr>, par_gp = True,
     par_camera = False, par_bindings_pri = click_bindings, par_bindings_sec = click_bindings,
     par_legacy_paste = False, par_clipboard_autosync = True, par_shortcut_mods = {SC_SHORTCUT_MOD_LALT}\<rparr>"

definition demo_input_env :: "sc_mod set \<Rightarrow> im_env" where
  "demo_input_env mods = \<lparr>env_screen = flex_screen\<lparr>win_orientation := SC_ORIENTATION_0,
       frame_size := \<lparr>width = 100, height = 200\<rparr>, content_size := \<lparr>width = 100, height = 200\<rparr>,
       win_rect := \<lparr>rect_x = 0, rect_y = 0, rect_w = 100, rect_h = 200\<rparr>\<rparr>,
     env_paused = False, env_mod_state = mods, env_clipboard = Some [104, 105], env_dup_ok = True, env_push_ok = True,
     env_window_size = \<lparr>width = 100, height = 200\<rparr>, env_mouse_x = 10, env_mouse_y = 20, env_fps_started = False\<rparr>"

definition demo_press :: "bool \<Rightarrow> button_input" where
  "demo_press down = \<lparr>bi_from_touch = False, bi_down = down, bi_button = SC_MOUSE_BUTTON_LEFT, bi_clicks = 1, bi_x = 10, bi_y = 20\<rparr>"

definition demo_key :: "sc_mod set \<Rightarrow> string \<Rightarrow> key_input" where
  "demo_key mods k = \<lparr>ki_down = True, ki_key = demo_kc k, ki_scancode = 4, ki_mods = mods, ki_repeat = False\<rparr>"

lemma exact_floats: "float_rounding (\<lambda>z. z)"
  by (simp add: float_rounding_def)

lemma demo_ok: "params_ok demo_params" "env_ok (demo_input_env mods)" "event_near (\<lambda>z. z) (demo_input_env mods) mpo (In_button (demo_press down))"
proof -
  show "params_ok demo_params" by (simp add: params_ok_def demo_params_def no_auto_def click_bindings_def)
  show "env_ok (demo_input_env mods)"
    by (simp add: env_ok_def demo_input_env_def orientation_ok_def orientation_defs text_ok_def utf8_start_ok_def utf8_continuation_def)
  show "event_near (\<lambda>z. z) (demo_input_env mods) mpo (In_button (demo_press down))"
    by (simp add: pointer_near_def near_content_def demo_input_env_def demo_press_def flex_screen_def split: option.split)
qed

text \<open>A press is handled; the wheel of a manager without a mouse is not, even after other events.\<close>

theorem input_manager_safe_witness:
  "\<exists>im' acts. sc_input_manager_handle_event (\<lambda>z. z) demo_kc (demo_input_env {}) (In_button (demo_press True))
     (sc_input_manager_init demo_kc demo_params) = Some (im', acts) \<and>
     im_fixed im' = im_fixed (sc_input_manager_init demo_kc demo_params) \<and>
     sc_input_manager_handle_event (\<lambda>z. z) demo_kc (demo_input_env {}) (In_wheel 0 1)
       (sc_input_manager_init demo_kc (demo_params\<lparr>par_mp := None\<rparr>)) = None"
proof -
  let ?q = "demo_params\<lparr>par_mp := None\<rparr>"
  have "params_ok ?q" using demo_ok(1) by (simp add: params_ok_def demo_params_def)
  moreover have "event_near (\<lambda>z. z) (demo_input_env {}) (par_mp ?q) (In_wheel 0 1)" by (simp add: pointer_near_def demo_input_env_def)
  moreover have "null_wheel (demo_input_env {}) (In_wheel 0 1) (sc_input_manager_init demo_kc ?q)"
    by (simp add: sc_input_manager_init_def demo_params_def demo_input_env_def)
  ultimately have "sc_input_manager_handle_event (\<lambda>z. z) demo_kc (demo_input_env {}) (In_wheel 0 1)
       (sc_input_manager_init demo_kc ?q) = None"
    using input_manager_safe [OF im_reach.start _ exact_floats demo_ok(2)] by (auto simp del: sc_input_manager_handle_event.simps)
  moreover from input_manager_safe [OF im_reach.start demo_ok(1) exact_floats demo_ok(2,3), where kc = demo_kc]
  have "\<exists>im' acts. sc_input_manager_handle_event (\<lambda>z. z) demo_kc (demo_input_env {}) (In_button (demo_press True))
     (sc_input_manager_init demo_kc demo_params) = Some (im', acts) \<and>
     im_fixed im' = im_fixed (sc_input_manager_init demo_kc demo_params)"
    by (simp del: sc_input_manager_handle_event.simps) blast
  ultimately show ?thesis by blast
qed

theorem shortcuts_not_forwarded_witness:
  "\<exists>im' acts. sc_input_manager_handle_event (\<lambda>z. z) demo_kc (demo_input_env {SC_MOD_LALT}) (In_key (demo_key {SC_MOD_LALT} ''h''))
     (sc_input_manager_init demo_kc demo_params) = Some (im', acts) \<and> (\<forall>a \<in> set acts. shortcut_action a)"
proof -
  let ?im = "sc_input_manager_init demo_kc demo_params" and ?env = "demo_input_env {SC_MOD_LALT}"
  have i: "im_inv ?im" using demo_ok(1) by (simp add: im_init_inv params_ok_def)
  obtain im' acts where k: "sc_input_manager_handle_event (\<lambda>z. z) demo_kc ?env (In_key (demo_key {SC_MOD_LALT} ''h'')) ?im = Some (im', acts)"
    using good_handle_event [OF i demo_ok(2), of "\<lambda>z. z" "{SC_MOD_LALT}" "In_key (demo_key {SC_MOD_LALT} ''h'')" demo_kc]
    by (auto simp: good_result_def)
  obtain im2 tacts where t: "sc_input_manager_handle_event (\<lambda>z. z) demo_kc ?env (In_text [104]) ?im = Some (im2, tacts)"
    using good_handle_event [OF i demo_ok(2), of "\<lambda>z. z" "{SC_MOD_LALT}" "In_text [104]" demo_kc]
    by (auto simp: good_result_def)
  have m: "sdl_shortcut_mods ?im = {SC_MOD_LALT}"
    by (simp add: sc_input_manager_init_def demo_params_def sc_shortcut_mods_to_sdl_def)
  from shortcuts_not_forwarded [OF _ k _ t] m k show ?thesis by (simp add: demo_key_def demo_input_env_def)
qed

lemma demo_mouse: "im_mp (sc_input_manager_init demo_kc demo_params) =
    Some \<lparr>mp_relative_mode = False, has_process_touch = True, has_process_scroll = True\<rparr>"
  by (simp add: sc_input_manager_init_def demo_params_def)

theorem paste_waits_for_own_request_witness:
  "\<exists>im' tr. im_run (\<lambda>z. z) demo_kc [(demo_input_env {}, In_key (demo_key {SC_MOD_LCTRL} ''v''))]
     (sc_input_manager_init demo_kc demo_params) = Some (im', tr) \<and> 0 \<notin> set (awaited_acks (concat (map snd tr)))"
proof -
  let ?es = "[(demo_input_env {}, In_key (demo_key {SC_MOD_LCTRL} ''v''))]"
  have i: "im_inv (sc_input_manager_init demo_kc demo_params)" using demo_ok(1) by (simp add: im_init_inv params_ok_def)
  obtain im' tr where "im_run (\<lambda>z. z) demo_kc ?es (sc_input_manager_init demo_kc demo_params) = Some (im', tr)"
    using run_total [OF exact_floats _ i demo_mouse, of ?es demo_kc] demo_ok(2) [of "{}"] by auto
  with paste_waits_for_own_request [OF this] show ?thesis by simp
qed

definition demo_gesture :: "(im_env \<times> im_event) list" where
  "demo_gesture = [(demo_input_env {SC_MOD_LCTRL}, In_button (demo_press True)), (demo_input_env {}, In_button (demo_press False))]"

lemma demo_gesture_ok: "\<forall>(env, ev) \<in> set demo_gesture. env_ok env \<and> event_near (\<lambda>z. z) env mpo ev"
  using demo_ok(2,3) by (simp add: demo_gesture_def del: event_near.simps)

theorem vfinger_gestures_witness:
  "\<exists>im' tr. im_run (\<lambda>z. z) demo_kc demo_gesture (sc_input_manager_init demo_kc demo_params) = Some (im', tr) \<and>
     gesture None tr = Some (vfinger_state im')"
proof -
  have i: "im_inv (sc_input_manager_init demo_kc demo_params)" using demo_ok(1) by (simp add: im_init_inv params_ok_def)
  obtain im' tr where "im_run (\<lambda>z. z) demo_kc demo_gesture (sc_input_manager_init demo_kc demo_params) = Some (im', tr)"
    using run_total [OF exact_floats demo_gesture_ok i demo_mouse] by blast
  with vfinger_gestures [OF this] show ?thesis by blast
qed

theorem mouse_reaches_device_witness:
  "\<exists>im tr. im_run (\<lambda>z. z) demo_kc demo_gesture (sc_input_manager_init demo_kc demo_params) = Some (im, tr) \<and>
    host_events {} (concat (map (\<lambda>x. mouse_events (snd x)) tr))"
proof -
  have "sdl_events_ok (\<lambda>z. z) {} demo_gesture" by (simp add: demo_gesture_def demo_press_def demo_input_env_def)
  from mouse_reaches_device [OF demo_ok(1) _ _ _ _ exact_floats demo_gesture_ok this, where kc = demo_kc and m = "\<lparr>mouse_hover = True\<rparr>"]
  show ?thesis by (auto simp: demo_params_def)
qed

theorem wheel_without_mouse_witness:
  "sc_input_manager_handle_event (\<lambda>z. z) demo_kc (demo_input_env {}) (In_wheel 0 1)
     (sc_input_manager_init demo_kc (demo_params\<lparr>par_mp := None\<rparr>)) = None"
proof -
  let ?im = "sc_input_manager_init demo_kc (demo_params\<lparr>par_mp := None\<rparr>)"
  have "im_mp ?im = None" by (simp add: sc_input_manager_init_def)
  with wheel_without_mouse [of ?im "\<lambda>z. z" "demo_input_env {}" demo_kc 0 1]
  show ?thesis by (simp add: sc_input_manager_init_def demo_params_def demo_input_env_def del: sc_input_manager_handle_event.simps)
qed

end
