(* ===== verification/Media.thy ===== *)
theory Media
  imports ControlMsg Traits
begin

text \<open>
  The FFmpeg objects the media pipeline handles, with the fields its code reads and writes, and
  \<^verbatim>\<open>app/src/frame_buffer.c\<close>. A frame that holds no reference is \<open>None\<close>.
\<close>

datatype AVMediaType = AVMEDIA_TYPE_VIDEO | AVMEDIA_TYPE_AUDIO | AVMEDIA_TYPE_OTHER
datatype AVPixelFormat = AV_PIX_FMT_NONE | AV_PIX_FMT_YUV420P | AV_PIX_FMT_OTHER
datatype AVSampleFormat = AV_SAMPLE_FMT_NONE | AV_SAMPLE_FMT_S16 | AV_SAMPLE_FMT_OTHER

record AVCodecContext =
  codec_type :: AVMediaType
  low_delay :: bool
  ctx_width :: int
  ctx_height :: int
  pix_fmt :: AVPixelFormat
  ch_stereo :: bool
  sample_rate :: nat
  sample_fmt :: AVSampleFormat

record AVPacket =
  pkt_pts :: u64
  pkt_dts :: u64
  pkt_key :: bool
  pkt_data :: byte_buf

record AVFrame =
  fr_width :: int
  fr_height :: int
  fr_data :: byte_buf

section \<open>Frame buffer\<close>

record sc_frame_buffer =
  pending_frame :: "AVFrame option"
  tmp_frame :: "AVFrame option"
  pending_frame_consumed :: bool

text \<open>The result \<open>None\<close> is \<^verbatim>\<open>false\<close>: one of the two frames could not be allocated.\<close>

definition sc_frame_buffer_init :: "bool \<Rightarrow> bool \<Rightarrow> sc_frame_buffer option" where
  "sc_frame_buffer_init alloc1 alloc2 =
     (if \<not> alloc1 then None else if \<not> alloc2 then None
      else Some \<lparr>pending_frame = None, tmp_frame = None, pending_frame_consumed = True\<rparr>)"

definition sc_frame_buffer_has_frame :: "sc_frame_buffer \<Rightarrow> bool" where
  "sc_frame_buffer_has_frame fb = (\<not> pending_frame_consumed fb)"

definition swap_frames :: "sc_frame_buffer \<Rightarrow> sc_frame_buffer" where
  "swap_frames fb = fb\<lparr>pending_frame := tmp_frame fb, tmp_frame := pending_frame fb\<rparr>"

text \<open>\<^verbatim>\<open>av_frame_ref\<close> may fail (\<open>ref_ok\<close>); its destination must hold no reference, which would be lost.\<close>

definition sc_frame_buffer_push ::
  "bool \<Rightarrow> AVFrame \<Rightarrow> sc_frame_buffer \<Rightarrow> (bool \<times> sc_frame_buffer) option" where
  "sc_frame_buffer_push ref_ok frame fb = do {
     c_assert (tmp_frame fb = None);
     if \<not> ref_ok then Some (False, fb)
     else do {
       let fb = swap_frames (fb\<lparr>tmp_frame := Some frame\<rparr>);
       let fb = fb\<lparr>tmp_frame := None\<rparr>;
       Some (True, fb\<lparr>pending_frame_consumed := False\<rparr>)
     }
   }"

text \<open>The frame moved into \<^verbatim>\<open>dst\<close>, and the buffer after it.\<close>

definition sc_frame_buffer_consume :: "sc_frame_buffer \<Rightarrow> (AVFrame option \<times> sc_frame_buffer) option" where
  "sc_frame_buffer_consume fb = do {
     c_assert (\<not> pending_frame_consumed fb);
     let fb = fb\<lparr>pending_frame_consumed := True\<rparr>;
     Some (pending_frame fb, fb\<lparr>pending_frame := None\<rparr>)
   }"

definition fb_inv :: "sc_frame_buffer \<Rightarrow> bool" where
  "fb_inv fb \<longleftrightarrow> tmp_frame fb = None \<and> (pending_frame fb = None \<longleftrightarrow> pending_frame_consumed fb)"

lemma fb_inv_init: "sc_frame_buffer_init a b = Some fb \<Longrightarrow> fb_inv fb \<and> \<not> sc_frame_buffer_has_frame fb"
  by (auto simp: sc_frame_buffer_init_def fb_inv_def sc_frame_buffer_has_frame_def split: if_splits)

lemma fb_push:
  assumes "fb_inv fb"
  shows "\<exists>fb'. sc_frame_buffer_push r f fb = Some (r, fb') \<and> fb_inv fb' \<and>
    (if r then pending_frame fb' = Some f \<and> sc_frame_buffer_has_frame fb' else fb' = fb)"
  using assms
  by (auto simp: sc_frame_buffer_push_def swap_frames_def fb_inv_def sc_frame_buffer_has_frame_def)

lemma fb_consume:
  assumes "fb_inv fb" "sc_frame_buffer_has_frame fb"
  shows "\<exists>f fb'. sc_frame_buffer_consume fb = Some (Some f, fb') \<and> pending_frame fb = Some f \<and>
    fb_inv fb' \<and> \<not> sc_frame_buffer_has_frame fb'"
  using assms by (auto simp: sc_frame_buffer_consume_def fb_inv_def sc_frame_buffer_has_frame_def)

end
