(* ===== verification/ScreenSink.thy ===== *)
theory ScreenSink
  imports Media "HOL-Library.Sublist"
begin

text \<open>
  The hand-over of video frames to the window, in \<^verbatim>\<open>app/src/screen.c\<close>: the frame sink operations, run
  by the thread that decodes, and the reaction of the main thread to \<^verbatim>\<open>SC_EVENT_NEW_FRAME\<close> up to the
  frame it then draws. Outcomes of allocations, of \<^verbatim>\<open>av_frame_ref\<close> and of posting events are functions
  of the number of calls made so far.
\<close>

section \<open>State and operations\<close>

record screen_env =
  scr_alloc :: "nat \<Rightarrow> bool"
  scr_ref_ok :: "nat \<Rightarrow> bool"
  scr_event_ok :: "nat \<Rightarrow> bool"

text \<open>\<open>open_window_events\<close> and \<open>new_frame_events\<close> are the events posted and not handled yet;
  \<open>skipped_frames\<close> counts the calls of \<^verbatim>\<open>sc_fps_counter_add_skipped_frame\<close>; \<open>resume_frame\<close> is
  \<open>None\<close> for the NULL pointer.\<close>

record sc_screen =
  scr_open :: bool
  scr_video :: bool
  scr_fb :: sc_frame_buffer
  prevent_auto_resize :: bool
  current_session :: "sc_stream_session option"
  scr_paused :: bool
  scr_frame :: "AVFrame option"
  resume_frame :: "AVFrame option option"
  skipped_frames :: nat
  open_window_events :: "sc_size list"
  new_frame_events :: nat
  scr_calls :: nat

definition sc_screen_frame_sink_open ::
  "screen_env \<Rightarrow> AVCodecContext \<Rightarrow> sc_stream_session option \<Rightarrow> sc_screen \<Rightarrow> (bool \<times> sc_screen) option" where
  "sc_screen_frame_sink_open e ctx session screen = do {
     c_assert (pix_fmt ctx = AV_PIX_FMT_YUV420P);
     if ctx_width ctx \<le> 0 \<or> ctx_width ctx > 0xFFFF \<or> ctx_height ctx \<le> 0 \<or> ctx_height ctx > 0xFFFF
     then Some (False, screen)
     else do {
       ses \<leftarrow> session;
       let n = scr_calls screen;
       let screen = screen\<lparr>current_session := Some ses, scr_calls := n + 1\<rparr>;
       c_assert (ses_width ses \<noteq> 0 \<and> ses_height ses \<noteq> 0);
       if ses_width ses > 0xFFFF \<or> ses_height ses > 0xFFFF then Some (False, screen)
       else if \<not> scr_alloc e n then Some (False, screen)
       else do {
         let size = \<lparr>width = ucast (ses_width ses), height = ucast (ses_height ses)\<rparr>;
         if \<not> scr_event_ok e n then Some (False, screen)
         else Some (True, screen\<lparr>open_window_events := open_window_events screen @ [size],
                                scr_open := True\<rparr>)
       }
     }
   }"

definition sc_screen_frame_sink_close :: "sc_screen \<Rightarrow> sc_screen option" where
  "sc_screen_frame_sink_close screen = Some (screen\<lparr>scr_open := False\<rparr>)"

text \<open>\<^verbatim>\<open>sc_screen_frame_sink_push\<close> in two parts, because the main thread may run between them: the part
  under the mutex, which gives \<^verbatim>\<open>previous_skipped\<close> and \<^verbatim>\<open>ok\<close>, and the rest.\<close>

definition screen_push_locked ::
  "bool \<Rightarrow> AVFrame \<Rightarrow> sc_screen \<Rightarrow> (bool \<times> bool \<times> sc_screen) option" where
  "screen_push_locked ref_ok frame screen = do {
     c_assert (scr_video screen);
     let previous_skipped = sc_frame_buffer_has_frame (scr_fb screen);
     (ok, fb) \<leftarrow> sc_frame_buffer_push ref_ok frame (scr_fb screen);
     ses \<leftarrow> current_session screen;
     Some (previous_skipped, ok, screen\<lparr>scr_fb := fb, prevent_auto_resize := client_resized ses\<rparr>)
   }"

definition screen_push_notify :: "bool \<Rightarrow> bool \<Rightarrow> sc_screen \<Rightarrow> bool \<times> sc_screen" where
  "screen_push_notify event_ok previous_skipped screen =
     (if previous_skipped then (True, screen\<lparr>skipped_frames := skipped_frames screen + 1\<rparr>)
      else if \<not> event_ok then (False, screen)
      else (True, screen\<lparr>new_frame_events := new_frame_events screen + 1\<rparr>))"

definition sc_screen_frame_sink_push ::
  "screen_env \<Rightarrow> AVFrame \<Rightarrow> sc_screen \<Rightarrow> (bool \<times> sc_screen) option" where
  "sc_screen_frame_sink_push e frame screen = do {
     let n = scr_calls screen;
     let screen = screen\<lparr>scr_calls := n + 1\<rparr>;
     (previous_skipped, ok, screen) \<leftarrow> screen_push_locked (scr_ref_ok e n) frame screen;
     if \<not> ok then Some (False, screen)
     else Some (screen_push_notify (scr_event_ok e n) previous_skipped screen)
   }"

definition sc_screen_frame_sink_push_session ::
  "sc_stream_session \<Rightarrow> sc_screen \<Rightarrow> (bool \<times> sc_screen) option" where
  "sc_screen_frame_sink_push_session session screen = Some (True, screen\<lparr>current_session := Some session\<rparr>)"

definition screen_sink_ops :: "screen_env \<Rightarrow> (AVCodecContext, AVFrame, sc_screen) sc_frame_sink_ops" where
  "screen_sink_ops e = \<lparr>sk_open = sc_screen_frame_sink_open e,
                        sk_close = sc_screen_frame_sink_close,
                        sk_push = sc_screen_frame_sink_push e,
                        sk_push_session = Some sc_screen_frame_sink_push_session\<rparr>"

text \<open>\<^verbatim>\<open>sc_screen_update_frame\<close> up to the call of \<^verbatim>\<open>sc_screen_apply_frame\<close>: \<open>Inl ok\<close> is an early
  return, \<open>Inr can_resize\<close> the call, with the frame to draw in \<open>scr_frame\<close>.\<close>

definition sc_screen_update_frame :: "bool \<Rightarrow> sc_screen \<Rightarrow> ((bool + bool) \<times> sc_screen) option" where
  "sc_screen_update_frame alloc screen = do {
     c_assert (scr_video screen);
     if scr_paused screen then
       (if resume_frame screen = None \<and> \<not> alloc then Some (Inl False, screen)
        else do {
          (f, fb) \<leftarrow> sc_frame_buffer_consume (scr_fb screen);
          Some (Inl True, screen\<lparr>scr_fb := fb, resume_frame := Some f\<rparr>)
        })
     else do {
       (f, fb) \<leftarrow> sc_frame_buffer_consume (scr_fb screen);
       let can_resize = (\<not> prevent_auto_resize screen);
       Some (Inr can_resize, screen\<lparr>scr_fb := fb, scr_frame := f\<rparr>)
     }
   }"

section \<open>The contract of the sink\<close>

definition screen_base :: "screen_env \<Rightarrow> (AVCodecContext, AVFrame, sc_screen) frame_sink \<Rightarrow> bool" where
  "screen_base e x \<longleftrightarrow> fst x = screen_sink_ops e \<and> scr_video (snd x) \<and> fb_inv (scr_fb (snd x))"

definition screen_closed :: "screen_env \<Rightarrow> (AVCodecContext, AVFrame, sc_screen) frame_sink \<Rightarrow> bool" where
  "screen_closed e x \<longleftrightarrow> screen_base e x \<and> \<not> scr_open (snd x)"

definition screen_opened :: "screen_env \<Rightarrow> (AVCodecContext, AVFrame, sc_screen) frame_sink \<Rightarrow> bool" where
  "screen_opened e x \<longleftrightarrow> screen_base e x \<and> scr_open (snd x) \<and> current_session (snd x) \<noteq> None"

text \<open>A video context comes with a session of non-zero size.\<close>

definition video_args :: "AVCodecContext \<Rightarrow> sc_stream_session option \<Rightarrow> bool" where
  "video_args ctx session \<longleftrightarrow> codec_type ctx = AVMEDIA_TYPE_VIDEO \<and> pix_fmt ctx = AV_PIX_FMT_YUV420P \<and>
     (\<exists>ses. session = Some ses \<and> ses_width ses \<noteq> 0 \<and> ses_height ses \<noteq> 0)"

lemmas screen_contract = screen_closed_def screen_opened_def screen_base_def screen_sink_ops_def

interpretation screen: stream_sink "screen_closed e" "screen_opened e" video_args for e
proof (unfold_locales, goal_cases)
  case (1 ops s c se)
  then show ?case
    by (auto simp: screen_contract video_args_def sc_screen_frame_sink_open_def Let_def)
next
  case (2 ops s)
  then show ?case by (auto simp: screen_contract sc_screen_frame_sink_close_def)
next
  case (3 ops s p)
  then obtain ses where e: "ops = screen_sink_ops e" "scr_video s" "fb_inv (scr_fb s)" "scr_open s"
    "current_session s = Some ses"
    by (auto simp: screen_contract)
  obtain fb where "sc_frame_buffer_push (scr_ref_ok e (scr_calls s)) p (scr_fb s) =
      Some (scr_ref_ok e (scr_calls s), fb)" "fb_inv fb"
    using fb_push [OF e(3)] by blast
  with e show ?case
    by (auto simp: screen_contract sc_screen_frame_sink_push_def screen_push_locked_def
        screen_push_notify_def Let_def)
next
  case (4 ops s f x)
  then show ?case by (auto simp: screen_contract sc_screen_frame_sink_push_session_def)
qed

section \<open>The decoding thread and the main thread\<close>

text \<open>
  \<open>notifying\<close> is \<^verbatim>\<open>previous_skipped\<close> while the decoding thread is between the two parts of a push;
  \<open>event_lost\<close> records that an event could not be posted or that the main thread, out of memory,
  handled one without taking the frame. \<open>pushed\<close> and \<open>handed\<close> are the frames stored by the one thread
  and taken by the other.
\<close>

record scr_sys =
  screen :: sc_screen
  notifying :: "bool option"
  event_lost :: bool
  pushed :: "AVFrame list"
  handed :: "AVFrame list"

datatype scr_event = PushFrame bool AVFrame | Notify bool | NewSession sc_stream_session | NewFrame bool

fun scr_enabled :: "scr_event \<Rightarrow> scr_sys \<Rightarrow> bool" where
  "scr_enabled (PushFrame r f) y = (notifying y = None)"
| "scr_enabled (Notify ok) y = (notifying y \<noteq> None)"
| "scr_enabled (NewSession ses) y = (notifying y = None)"
| "scr_enabled (NewFrame alloc) y = (new_frame_events (screen y) > 0)"

fun scr_step :: "scr_event \<Rightarrow> scr_sys \<Rightarrow> scr_sys option" where
  "scr_step (PushFrame r f) y = do {
     (previous_skipped, ok, s) \<leftarrow> screen_push_locked r f (screen y);
     Some (if ok then y\<lparr>screen := s, notifying := Some previous_skipped, pushed := pushed y @ [f]\<rparr>
           else y\<lparr>screen := s\<rparr>)
   }"
| "scr_step (Notify ok) y = do {
     previous_skipped \<leftarrow> notifying y;
     let (r, s) = screen_push_notify ok previous_skipped (screen y);
     Some (y\<lparr>screen := s, notifying := None, event_lost := (event_lost y \<or> \<not> r)\<rparr>)
   }"
| "scr_step (NewSession ses) y = do {
     (ok, s) \<leftarrow> sc_screen_frame_sink_push_session ses (screen y);
     Some (y\<lparr>screen := s\<rparr>)
   }"
| "scr_step (NewFrame alloc) y = do {
     let s = (screen y)\<lparr>new_frame_events := new_frame_events (screen y) - 1\<rparr>;
     (r, s) \<leftarrow> sc_screen_update_frame alloc s;
     (case r of
        Inl False \<Rightarrow> Some (y\<lparr>screen := s, event_lost := True\<rparr>)
      | Inl True \<Rightarrow> do {
          f \<leftarrow> Option.bind (resume_frame s) (\<lambda>f. f);
          Some (y\<lparr>screen := s, handed := handed y @ [f]\<rparr>)
        }
      | Inr can_resize \<Rightarrow> do { f \<leftarrow> scr_frame s; Some (y\<lparr>screen := s, handed := handed y @ [f]\<rparr>) })
   }"

inductive scr_reach :: "screen_env \<Rightarrow> scr_sys \<Rightarrow> bool" for e where
  start: "screen_opened e (screen_sink_ops e, s) \<Longrightarrow> \<not> sc_frame_buffer_has_frame (scr_fb s) \<Longrightarrow>
    new_frame_events s = 0 \<Longrightarrow>
    scr_reach e \<lparr>screen = s, notifying = None, event_lost = False, pushed = [], handed = []\<rparr>"
| step: "scr_reach e y \<Longrightarrow> scr_enabled ev y \<Longrightarrow> scr_step ev y = Some y' \<Longrightarrow> scr_reach e y'"

abbreviation has_frame :: "scr_sys \<Rightarrow> bool" where
  "has_frame y \<equiv> sc_frame_buffer_has_frame (scr_fb (screen y))"

text \<open>The notifications on their way: at most one, and one whenever a frame is waiting.\<close>

definition in_flight :: "scr_sys \<Rightarrow> nat" where
  "in_flight y = new_frame_events (screen y) + (if notifying y = Some False then 1 else 0)"

definition scr_inv :: "scr_sys \<Rightarrow> bool" where
  "scr_inv y \<longleftrightarrow>
     scr_video (screen y) \<and> fb_inv (scr_fb (screen y)) \<and> current_session (screen y) \<noteq> None \<and>
     in_flight y \<le> (if has_frame y then 1 else 0) \<and>
     (\<not> event_lost y \<longrightarrow> in_flight y = (if has_frame y then 1 else 0)) \<and>
     (if has_frame y
      then \<exists>fs f. pushed y = fs @ [f] \<and> pending_frame (scr_fb (screen y)) = Some f \<and> subseq (handed y) fs
      else subseq (handed y) (pushed y) \<and> (pushed y = [] \<or> handed y \<noteq> [] \<and> last (handed y) = last (pushed y)))"

lemma push_locked_cases:
  assumes "scr_inv y"
  obtains (Stored) s where "screen_push_locked r f (screen y) = Some (has_frame y, True, s)" "r"
    "fb_inv (scr_fb s)" "pending_frame (scr_fb s) = Some f" "sc_frame_buffer_has_frame (scr_fb s)"
    "scr_video s" "current_session s \<noteq> None" "new_frame_events s = new_frame_events (screen y)"
  | (Refused) s where "screen_push_locked r f (screen y) = Some (has_frame y, False, s)"
    "scr_fb s = scr_fb (screen y)" "scr_video s" "current_session s \<noteq> None"
    "new_frame_events s = new_frame_events (screen y)"
proof -
  obtain fb ses where fb: "sc_frame_buffer_push r f (scr_fb (screen y)) = Some (r, fb)" "fb_inv fb"
      "if r then pending_frame fb = Some f \<and> sc_frame_buffer_has_frame fb else fb = scr_fb (screen y)"
    and ses: "current_session (screen y) = Some ses" "scr_video (screen y)"
    using assms fb_push [of "scr_fb (screen y)" r f] by (auto simp: scr_inv_def)
  then show thesis
    by (cases r) (auto simp: screen_push_locked_def intro: that)
qed

lemma scr_inv_push:
  assumes "scr_inv y" "notifying y = None"
  shows "\<exists>y'. scr_step (PushFrame r f) y = Some y' \<and> scr_inv y'"
  using assms(1)
proof (cases rule: push_locked_cases [where r = r and f = f])
  case (Stored s)
  have "subseq (handed y) (pushed y)"
    using assms(1) by (auto simp: scr_inv_def split: if_splits intro: subseq_order.trans)
  let ?y = "y\<lparr>screen := s, notifying := Some (has_frame y), pushed := pushed y @ [f]\<rparr>"
  have "scr_step (PushFrame r f) y = Some ?y" using Stored by simp
  moreover have "in_flight ?y = (if has_frame y then in_flight y else 1)"
    using assms Stored(8) by (cases "has_frame y") (simp_all add: in_flight_def scr_inv_def)
  with Stored assms \<open>subseq (handed y) (pushed y)\<close> have "scr_inv ?y"
    by (simp add: scr_inv_def split: if_split_asm)
  ultimately show ?thesis by blast
next
  case (Refused s)
  with assms show ?thesis by (auto simp: scr_inv_def in_flight_def)
qed

lemma scr_inv_notify:
  assumes "scr_inv y" "notifying y \<noteq> None"
  shows "\<exists>y'. scr_step (Notify ok) y = Some y' \<and> scr_inv y'"
proof -
  from assms(2) obtain prev where p: "notifying y = Some prev" by blast
  show ?thesis
  proof (cases prev)
    case True
    with p assms(1) show ?thesis
      by (simp add: scr_inv_def in_flight_def screen_push_notify_def)
  next
    case False
    with p assms(1) have "has_frame y" "new_frame_events (screen y) = 0"
      by (auto simp: scr_inv_def in_flight_def split: if_splits)
    with p False assms(1) show ?thesis
      by (cases ok) (simp_all add: scr_inv_def in_flight_def screen_push_notify_def)
  qed
qed

lemma scr_inv_session:
  assumes "scr_inv y"
  shows "\<exists>y'. scr_step (NewSession ses) y = Some y' \<and> scr_inv y'"
  using assms by (auto simp: scr_inv_def in_flight_def sc_screen_frame_sink_push_session_def)

lemma subseq_snoc: "subseq xs ys \<Longrightarrow> subseq (xs @ [x]) (ys @ [x])"
  by (simp add: list_emb_append_mono)

lemma scr_inv_new_frame:
  assumes "scr_inv y" "new_frame_events (screen y) > 0"
  shows "\<exists>y'. scr_step (NewFrame alloc) y = Some y' \<and> scr_inv y'"
proof -
  from assms have h: "has_frame y" "fb_inv (scr_fb (screen y))" "new_frame_events (screen y) = 1"
    "notifying y \<noteq> Some False"
    by (auto simp: scr_inv_def in_flight_def split: if_splits)
  obtain f fb where c: "sc_frame_buffer_consume (scr_fb (screen y)) = Some (Some f, fb)"
    "pending_frame (scr_fb (screen y)) = Some f" "fb_inv fb" "\<not> sc_frame_buffer_has_frame fb"
    using fb_consume [OF h(2,1)] by blast
  with assms h obtain fs where fs: "pushed y = fs @ [f]" "subseq (handed y) fs"
    by (auto simp: scr_inv_def)
  have sub: "subseq (handed y @ [f]) (fs @ [f])" by (rule subseq_snoc [OF fs(2)])
  have u: "sc_screen_update_frame alloc ((screen y)\<lparr>new_frame_events := 0\<rparr>) =
    (let s = (screen y)\<lparr>new_frame_events := 0\<rparr> in
     if \<not> scr_paused s then Some (Inr (\<not> prevent_auto_resize s), s\<lparr>scr_fb := fb, scr_frame := Some f\<rparr>)
     else if resume_frame s = None \<and> \<not> alloc then Some (Inl False, s)
     else Some (Inl True, s\<lparr>scr_fb := fb, resume_frame := Some (Some f)\<rparr>))"
    using assms(1) c by (simp add: sc_screen_update_frame_def scr_inv_def Let_def)
  consider "\<not> scr_paused (screen y)" | "scr_paused (screen y)" "resume_frame (screen y) = None \<and> \<not> alloc"
    | "scr_paused (screen y)" "(resume_frame (screen y) = None \<and> \<not> alloc) = False" by blast
  then show ?thesis
    using assms h c fs sub u by cases (simp_all add: scr_inv_def in_flight_def Let_def)
qed

lemma scr_step_ok:
  assumes "scr_inv y" "scr_enabled ev y"
  shows "\<exists>y'. scr_step ev y = Some y' \<and> scr_inv y'"
  using assms scr_inv_push scr_inv_notify scr_inv_session scr_inv_new_frame by (cases ev) auto

lemma scr_reach_inv: "scr_reach e y \<Longrightarrow> scr_inv y"
proof (induction rule: scr_reach.induct)
  case (start s)
  then show ?case by (auto simp: scr_inv_def in_flight_def screen_opened_def screen_base_def)
next
  case (step y ev y')
  with scr_step_ok [of y ev] show ?case by auto
qed

text \<open>C9. The hand-over of frames to the main thread is safe and always gives the newest frame: however
  pushes, their notifications and the main thread interleave, no step fails an assertion (in
  particular a \<^verbatim>\<open>SC_EVENT_NEW_FRAME\<close> always finds a frame), there is never more than one such event on
  its way and, unless an event was lost, exactly one when a frame waits; the frame that waits is the
  last one pushed, the last one handed over is the last pushed when none waits, and the frames handed
  over are a subsequence of those pushed.\<close>

theorem screen_frame_handover:
  assumes "scr_reach e y" "scr_enabled ev y"
  shows "(\<exists>y'. scr_step ev y = Some y' \<and> scr_reach e y') \<and>
    in_flight y \<le> 1 \<and> (\<not> event_lost y \<longrightarrow> (in_flight y = 1 \<longleftrightarrow> has_frame y)) \<and>
    (if has_frame y then pushed y \<noteq> [] \<and> pending_frame (scr_fb (screen y)) = Some (last (pushed y))
     else pushed y = [] \<or> handed y \<noteq> [] \<and> last (handed y) = last (pushed y)) \<and>
    subseq (handed y) (pushed y)"
proof -
  from scr_reach_inv [OF assms(1)] have inv: "scr_inv y" .
  from scr_step_ok [OF inv assms(2)] have "\<exists>y'. scr_step ev y = Some y' \<and> scr_reach e y'"
    using assms scr_reach.step by blast
  moreover have "subseq (handed y) (pushed y)"
    using inv by (auto simp: scr_inv_def split: if_splits intro: subseq_order.trans)
  ultimately show ?thesis
    using inv by (auto simp: scr_inv_def split: if_splits)
qed

definition demo_screen :: sc_screen where
  "demo_screen = \<lparr>scr_open = True, scr_video = True,
     scr_fb = \<lparr>pending_frame = None, tmp_frame = None, pending_frame_consumed = True\<rparr>,
     prevent_auto_resize = False,
     current_session = Some \<lparr>ses_width = 640, ses_height = 480, client_resized = False\<rparr>,
     scr_paused = False, scr_frame = None, resume_frame = None, skipped_frames = 0,
     open_window_events = [], new_frame_events = 0, scr_calls = 0\<rparr>"

definition demo_env :: screen_env where
  "demo_env = \<lparr>scr_alloc = \<lambda>_. True, scr_ref_ok = \<lambda>_. True, scr_event_ok = \<lambda>_. True\<rparr>"

theorem screen_frame_handover_witness:
  "\<exists>y. scr_reach demo_env y \<and> pushed y = [\<lparr>fr_width = 1, fr_height = 1, fr_data = []\<rparr>] \<and> in_flight y = 1 \<and>
       (\<exists>y'. scr_step (Notify True) y = Some y' \<and> scr_reach demo_env y')"
proof -
  let ?f = "\<lparr>fr_width = 1, fr_height = 1, fr_data = []\<rparr>"
  let ?y = "\<lparr>screen = demo_screen, notifying = None, event_lost = False, pushed = [], handed = []\<rparr>"
  have r: "scr_reach demo_env ?y"
    by (rule scr_reach.start) (simp_all add: demo_screen_def screen_opened_def screen_base_def fb_inv_def
        sc_frame_buffer_has_frame_def)
  obtain y where y: "scr_step (PushFrame True ?f) ?y = Some y" "notifying y = Some False"
    "pushed y = [?f]" "new_frame_events (screen y) = 0"
    by (simp add: demo_screen_def screen_push_locked_def sc_frame_buffer_push_def swap_frames_def
        sc_frame_buffer_has_frame_def)
  have "scr_reach demo_env y" by (rule scr_reach.step [OF r _ y(1)]) simp
  with screen_frame_handover [OF this, of "Notify True"] y show ?thesis
    by (auto simp: in_flight_def)
qed

end
