(* ===== verification/Decoder.thy ===== *)
theory Decoder
  imports ScreenSink
begin

text \<open>
  \<^verbatim>\<open>app/src/decoder.c\<close>: a packet sink that decodes and is a source of frames for its own sinks. What
  libavcodec answers to the n-th media packet is a parameter: the result of sending it, the frames it
  then delivers, and whether the last call reports an error rather than that it needs more input.
\<close>

datatype send_result = Sent | Send_EAGAIN | Send_error

record decoder_env =
  dec_alloc :: bool
  dec_nopts :: u64
  dec_send :: "nat \<Rightarrow> send_result"
  dec_receive :: "nat \<Rightarrow> AVFrame list"
  dec_receive_error :: "nat \<Rightarrow> bool"

record 'f sc_decoder =
  frame_source :: "(AVCodecContext, AVFrame, 'f) frame_sink list"
  dec_ctx :: "AVCodecContext option"
  dec_frame :: bool
  dec_session :: "sc_stream_session option"
  dec_frame_size :: sc_size
  dec_packets :: nat

definition sc_decoder_open ::
  "decoder_env \<Rightarrow> AVCodecContext \<Rightarrow> sc_stream_session option \<Rightarrow> 'f sc_decoder \<Rightarrow>
   (bool \<times> 'f sc_decoder) option" where
  "sc_decoder_open e ctx session decoder =
     (if \<not> dec_alloc e then Some (False, decoder)
      else do {
        (ok, src) \<leftarrow> sc_frame_source_sinks_open ctx session (frame_source decoder);
        let decoder = decoder\<lparr>frame_source := src, dec_frame := ok\<rparr>;
        if \<not> ok then Some (False, decoder)
        else do {
          c_assert (session \<noteq> None \<or> codec_type ctx \<noteq> AVMEDIA_TYPE_VIDEO);
          let decoder = decoder\<lparr>dec_ctx := Some ctx\<rparr>;
          let decoder = (if session \<noteq> None then decoder\<lparr>dec_session := session\<rparr> else decoder);
          Some (True, decoder\<lparr>dec_frame_size := \<lparr>width = 0, height = 0\<rparr>\<rparr>)
        }
      })"

definition sc_decoder_close :: "'f sc_decoder \<Rightarrow> 'f sc_decoder option" where
  "sc_decoder_close decoder = do {
     src \<leftarrow> sc_frame_source_sinks_close (frame_source decoder);
     Some (decoder\<lparr>frame_source := src, dec_frame := False\<rparr>)
   }"

text \<open>The loop of \<^verbatim>\<open>avcodec_receive_frame\<close>. A change of the frame size is only logged.\<close>

fun decoder_receive_loop ::
  "AVCodecContext \<Rightarrow> AVFrame list \<Rightarrow> bool \<Rightarrow> 'f sc_decoder \<Rightarrow> (bool \<times> 'f sc_decoder) option" where
  "decoder_receive_loop ctx [] err decoder = Some (\<not> err, decoder)"
| "decoder_receive_loop ctx (frame # frames) err decoder = do {
     decoder \<leftarrow> (if codec_type ctx = AVMEDIA_TYPE_VIDEO then do {
         c_assert (fr_width frame \<ge> 0);
         c_assert (fr_height frame \<ge> 0);
         Some (decoder\<lparr>dec_frame_size :=
           \<lparr>width = word_of_int (fr_width frame), height = word_of_int (fr_height frame)\<rparr>\<rparr>)
       } else Some decoder);
     (ok, src) \<leftarrow> sc_frame_source_sinks_push frame (frame_source decoder);
     let decoder = decoder\<lparr>frame_source := src\<rparr>;
     if \<not> ok then Some (False, decoder) else decoder_receive_loop ctx frames err decoder
   }"

definition sc_decoder_push ::
  "decoder_env \<Rightarrow> AVPacket \<Rightarrow> 'f sc_decoder \<Rightarrow> (bool \<times> 'f sc_decoder) option" where
  "sc_decoder_push e packet decoder =
     (if pkt_pts packet = dec_nopts e then Some (True, decoder)
      else do {
        ctx \<leftarrow> dec_ctx decoder;
        let n = dec_packets decoder;
        let decoder = decoder\<lparr>dec_packets := n + 1\<rparr>;
        if dec_send e n = Send_error then Some (False, decoder)
        else decoder_receive_loop ctx (dec_receive e n) (dec_receive_error e n) decoder
      })"

definition sc_decoder_push_session ::
  "sc_stream_session \<Rightarrow> 'f sc_decoder \<Rightarrow> (bool \<times> 'f sc_decoder) option" where
  "sc_decoder_push_session session decoder = do {
     let decoder = decoder\<lparr>dec_session := Some session\<rparr>;
     (ok, src) \<leftarrow> sc_frame_source_sinks_push_session session (frame_source decoder);
     Some (ok, decoder\<lparr>frame_source := src\<rparr>)
   }"

text \<open>The table \<^verbatim>\<open>ops\<close> of \<^verbatim>\<open>sc_decoder_init\<close>; the entry \<^verbatim>\<open>disable\<close> is not set.\<close>

definition decoder_sink_ops ::
  "decoder_env \<Rightarrow> (AVCodecContext, AVPacket, 'f sc_decoder) sc_packet_sink_ops" where
  "decoder_sink_ops e = \<lparr>sk_open = sc_decoder_open e, sk_close = sc_decoder_close,
     sk_push = sc_decoder_push e, sk_push_session = Some sc_decoder_push_session, sk_disable = None\<rparr>"

definition sc_decoder_init :: "'f sc_decoder" where
  "sc_decoder_init = \<lparr>frame_source = sc_frame_source_init, dec_ctx = None, dec_frame = False,
     dec_session = None, dec_frame_size = \<lparr>width = 0, height = 0\<rparr>, dec_packets = 0\<rparr>"

text \<open>libavcodec never delivers a frame of negative size.\<close>

definition frames_sized :: "decoder_env \<Rightarrow> bool" where
  "frames_sized e \<longleftrightarrow> (\<forall>n. \<forall>f \<in> set (dec_receive e n). fr_width f \<ge> 0 \<and> fr_height f \<ge> 0)"

section \<open>A decoder whose frame sinks keep the contract keeps it\<close>

locale decoder_chain = stream_sink closed opened open_args
  for closed :: "(AVCodecContext, AVFrame, 'f) frame_sink \<Rightarrow> bool"
    and opened :: "(AVCodecContext, AVFrame, 'f) frame_sink \<Rightarrow> bool"
    and open_args :: "AVCodecContext \<Rightarrow> sc_stream_session option \<Rightarrow> bool" +
  fixes env :: decoder_env
  assumes video_session: "open_args c se \<Longrightarrow> codec_type c = AVMEDIA_TYPE_VIDEO \<Longrightarrow> se \<noteq> None"
begin

definition dec_closed :: "(AVCodecContext, AVPacket, 'f sc_decoder) packet_sink \<Rightarrow> bool" where
  "dec_closed x \<longleftrightarrow> fst x = decoder_sink_ops env \<and> frames_sized env \<and> frame_source (snd x) \<noteq> [] \<and>
     all_closed (frame_source (snd x)) \<and> \<not> dec_frame (snd x)"

definition dec_opened :: "(AVCodecContext, AVPacket, 'f sc_decoder) packet_sink \<Rightarrow> bool" where
  "dec_opened x \<longleftrightarrow> fst x = decoder_sink_ops env \<and> frames_sized env \<and> frame_source (snd x) \<noteq> [] \<and>
     all_opened (frame_source (snd x)) \<and> dec_ctx (snd x) \<noteq> None \<and> dec_frame (snd x)"

lemma frame_source_open_ok:
  assumes "sinks \<noteq> []" "all_closed sinks" "open_args c se"
  shows "\<exists>ok sinks'. sc_frame_source_sinks_open c se sinks = Some (ok, sinks') \<and>
    (if ok then all_opened else all_closed) sinks' \<and> sinks' \<noteq> []"
proof -
  obtain ok sinks' where "sinks_open_loop c se 0 sinks = Some (ok, sinks')"
    "(if ok then all_opened else all_closed) sinks'" "length sinks' = length sinks"
    using open_loop_ok [of c se 0 sinks] assms by (auto simp: split_0)
  moreover from this(3) assms(1) have "sinks' \<noteq> []" by auto
  ultimately show ?thesis using assms by (simp add: frame_source_defs)
qed

lemma frame_source_close_ok:
  assumes "sinks \<noteq> []" "all_opened sinks"
  shows "\<exists>sinks'. sc_frame_source_sinks_close sinks = Some sinks' \<and> all_closed sinks' \<and> sinks' \<noteq> []"
  using close_firsts_ok [of "length sinks" sinks] assms by (fastforce simp: frame_source_defs split_all)

lemma frame_source_push_ok:
  assumes "sinks \<noteq> []" "all_opened sinks"
  shows "\<exists>ok sinks'. sc_frame_source_sinks_push f sinks = Some (ok, sinks') \<and>
    all_opened sinks' \<and> sinks' \<noteq> []"
  using push_loop_ok [of sinks f 0] assms by (fastforce simp: frame_source_defs)

lemma frame_source_push_session_ok:
  assumes "sinks \<noteq> []" "all_opened sinks"
  shows "\<exists>ok sinks'. sc_frame_source_sinks_push_session x sinks = Some (ok, sinks') \<and>
    all_opened sinks' \<and> sinks' \<noteq> []"
  using push_session_loop_ok [of sinks x 0] assms by (fastforce simp: frame_source_defs)

lemma receive_loop_ok:
  assumes "\<forall>f \<in> set frames. fr_width f \<ge> 0 \<and> fr_height f \<ge> 0" "dec_opened (ops, d)"
  shows "\<exists>ok d'. decoder_receive_loop ctx frames err d = Some (ok, d') \<and> dec_opened (ops, d')"
  using assms
proof (induction frames arbitrary: d)
  case Nil
  then show ?case by simp
next
  case (Cons f frames)
  obtain ok src where p: "sc_frame_source_sinks_push f (frame_source d) = Some (ok, src)"
    "all_opened src" "src \<noteq> []"
    using frame_source_push_ok [of "frame_source d" f] Cons.prems(2) by (auto simp: dec_opened_def)
  let ?d = "if codec_type ctx = AVMEDIA_TYPE_VIDEO
            then d\<lparr>dec_frame_size := \<lparr>width = word_of_int (fr_width f), height = word_of_int (fr_height f)\<rparr>\<rparr>
            else d"
  have o: "dec_opened (ops, ?d\<lparr>frame_source := src\<rparr>)"
    using p Cons.prems(2) by (simp add: dec_opened_def)
  have "decoder_receive_loop ctx (f # frames) err d =
    (if \<not> ok then Some (False, ?d\<lparr>frame_source := src\<rparr>)
     else decoder_receive_loop ctx frames err (?d\<lparr>frame_source := src\<rparr>))"
    using p Cons.prems(1) by simp
  moreover have "\<exists>ok d'. decoder_receive_loop ctx frames err (?d\<lparr>frame_source := src\<rparr>) = Some (ok, d') \<and>
      dec_opened (ops, d')"
    by (rule Cons.IH [OF _ o]) (use Cons.prems(1) in simp)
  ultimately show ?case using o by (cases ok) auto
qed

end

sublocale decoder_chain < dec: packet_stream_sink dec_closed dec_opened open_args
proof (unfold_locales, goal_cases)
  case (1 ops s c se)
  then obtain ok src where o: "sc_frame_source_sinks_open c se (frame_source s) = Some (ok, src)"
    "(if ok then all_opened else all_closed) src" "src \<noteq> []"
    using frame_source_open_ok [of "frame_source s" c se] by (auto simp: dec_closed_def)
  have v: "se \<noteq> None \<or> codec_type c \<noteq> AVMEDIA_TYPE_VIDEO" using video_session [OF 1(2)] by blast
  have ops: "sk_open ops = sc_decoder_open env" "ops = decoder_sink_ops env"
    using 1 by (simp_all add: dec_closed_def decoder_sink_ops_def)
  show ?case
  proof (cases "dec_alloc env")
    case True
    with o v 1 ops show ?thesis
      by (cases ok; cases se)
        (simp_all add: dec_closed_def dec_opened_def sc_decoder_open_def)
  next
    case False
    with 1 ops show ?thesis by (simp add: sc_decoder_open_def)
  qed
next
  case (2 ops s)
  then show ?case
    using frame_source_close_ok [of "frame_source s"]
    by (auto simp: dec_closed_def dec_opened_def decoder_sink_ops_def sc_decoder_close_def)
next
  case (3 ops s p)
  let ?d = "s\<lparr>dec_packets := dec_packets s + 1\<rparr>"
  obtain ctx where c: "dec_ctx s = Some ctx" using 3 by (auto simp: dec_opened_def)
  have "\<forall>f \<in> set (dec_receive env (dec_packets s)). fr_width f \<ge> 0 \<and> fr_height f \<ge> 0"
    using 3 by (auto simp: dec_opened_def frames_sized_def)
  moreover have d: "dec_opened (ops, ?d)" using 3 by (simp add: dec_opened_def)
  ultimately obtain ok d' where "decoder_receive_loop ctx (dec_receive env (dec_packets s))
      (dec_receive_error env (dec_packets s)) ?d = Some (ok, d')" "dec_opened (ops, d')"
    using receive_loop_ok by blast
  moreover have "sk_push ops = sc_decoder_push env" using 3 by (simp add: dec_opened_def decoder_sink_ops_def)
  ultimately show ?case using c d 3 by (simp add: sc_decoder_push_def Let_def)
next
  case (4 ops s f x)
  then show ?case
    using frame_source_push_session_ok [of "frame_source s" x]
    by (auto simp: dec_opened_def decoder_sink_ops_def sc_decoder_push_session_def Let_def)
next
  case (5 ops s f)
  then show ?case by (simp add: dec_closed_def decoder_sink_ops_def)
qed

section \<open>The decoder in front of the screen\<close>

interpretation screen_dec: decoder_chain "screen_closed e" "screen_opened e" video_args de for e de
  by unfold_locales (auto simp: video_args_def)

end
