(* ===== verification/Demuxer.thy ===== *)
theory Demuxer
  imports Decoder
begin

text \<open>
  \<^verbatim>\<open>app/src/demuxer.c\<close> and \<^verbatim>\<open>app/src/packet_merger.c\<close>: the thread that cuts the media stream of a
  socket into session and media packets and pushes them to its sinks, and, on the other end, the
  headers written by \<^verbatim>\<open>Streamer.java\<close>. The socket is the byte stream still to come; a receive that
  fails is a stream that ends. The functions of FFmpeg are parameters.
\<close>

section \<open>Packet merger\<close>

type_synonym sc_packet_merger = "byte_buf option"

definition sc_packet_merger_init :: sc_packet_merger where
  "sc_packet_merger_init = None"

text \<open>\<open>alloc\<close> is the outcome of \<^verbatim>\<open>malloc\<close> or \<^verbatim>\<open>av_grow_packet\<close>, of which a call makes one at most. The bytes
  that growing adds are overwritten; they are zeros here.\<close>

definition sc_packet_merger_merge ::
  "u64 \<Rightarrow> bool \<Rightarrow> sc_packet_merger \<Rightarrow> AVPacket \<Rightarrow> (bool \<times> sc_packet_merger \<times> AVPacket) option" where
  "sc_packet_merger_merge nopts alloc merger packet =
     (if pkt_pts packet = nopts then
        Some (if \<not> alloc then (False, None, packet) else (True, Some (pkt_data packet), packet))
      else (case merger of
        None \<Rightarrow> Some (True, None, packet)
      | Some config \<Rightarrow> do {
          let config_size = length config;
          let media_size = length (pkt_data packet);
          if \<not> alloc then Some (False, merger, packet)
          else do {
            let grown = pkt_data packet @ replicate config_size 0;
            media \<leftarrow> mem_read 0 media_size grown;
            moved \<leftarrow> mem_write config_size media grown;
            d \<leftarrow> mem_write 0 config moved;
            Some (True, None, packet\<lparr>pkt_data := d\<rparr>)
          }
        }))"

section \<open>Demuxer\<close>

definition SC_PACKET_HEADER_SIZE :: nat where "SC_PACKET_HEADER_SIZE = 12"
definition SC_PACKET_FLAG_CONFIG :: u64 where "SC_PACKET_FLAG_CONFIG = push_bit 62 1"
definition SC_PACKET_FLAG_KEY_FRAME :: u64 where "SC_PACKET_FLAG_KEY_FRAME = push_bit 61 1"
definition SC_PACKET_PTS_MASK :: u64 where "SC_PACKET_PTS_MASK = SC_PACKET_FLAG_KEY_FRAME - 1"

datatype AVCodecID = AV_CODEC_ID_NONE | AV_CODEC_ID_H264 | AV_CODEC_ID_HEVC | AV_CODEC_ID_AV1
  | AV_CODEC_ID_VP8 | AV_CODEC_ID_VP9 | AV_CODEC_ID_OPUS | AV_CODEC_ID_AAC | AV_CODEC_ID_FLAC
  | AV_CODEC_ID_PCM_S16LE

datatype sc_demuxer_status = SC_DEMUXER_STATUS_EOS | SC_DEMUXER_STATUS_DISABLED | SC_DEMUXER_STATUS_ERROR

definition SC_CODEC_ID_H264 :: u32 where "SC_CODEC_ID_H264 = 0x68323634"
definition SC_CODEC_ID_H265 :: u32 where "SC_CODEC_ID_H265 = 0x68323635"
definition SC_CODEC_ID_FLAC :: u32 where "SC_CODEC_ID_FLAC = 0x666c6163"

text \<open>\<open>has_av1\<close> is the build option \<^verbatim>\<open>SCRCPY_LAVC_HAS_AV1\<close>.\<close>

definition sc_demuxer_to_avcodec_id :: "bool \<Rightarrow> u32 \<Rightarrow> AVCodecID" where
  "sc_demuxer_to_avcodec_id has_av1 codec_id =
     (if codec_id = SC_CODEC_ID_H264 then AV_CODEC_ID_H264
      else if codec_id = SC_CODEC_ID_H265 then AV_CODEC_ID_HEVC
      else if codec_id = 0x00617631 then if has_av1 then AV_CODEC_ID_AV1 else AV_CODEC_ID_NONE
      else if codec_id = 0x00767038 then AV_CODEC_ID_VP8
      else if codec_id = 0x00767039 then AV_CODEC_ID_VP9
      else if codec_id = 0x6f707573 then AV_CODEC_ID_OPUS
      else if codec_id = 0x00616163 then AV_CODEC_ID_AAC
      else if codec_id = SC_CODEC_ID_FLAC then AV_CODEC_ID_FLAC
      else if codec_id = 0x00726177 then AV_CODEC_ID_PCM_S16LE
      else AV_CODEC_ID_NONE)"

text \<open>\<^verbatim>\<open>net_recv_all\<close>: the bytes received, fewer than asked for only at the end, and the rest.\<close>

definition net_recv_all :: "nat \<Rightarrow> byte_buf \<Rightarrow> byte_buf \<times> byte_buf" where
  "net_recv_all n stream = (take n stream, drop n stream)"

definition sc_demuxer_recv_codec_id :: "byte_buf \<Rightarrow> (u32 option \<times> byte_buf) option" where
  "sc_demuxer_recv_codec_id stream = do {
     let (data, stream) = net_recv_all 4 stream;
     if length data < 4 then Some (None, stream)
     else do { v \<leftarrow> sc_read32be 0 data; Some (Some v, stream) }
   }"

definition sc_demuxer_recv_header :: "byte_buf \<Rightarrow> (byte_buf option \<times> byte_buf) option" where
  "sc_demuxer_recv_header stream = do {
     let (buf, stream) = net_recv_all SC_PACKET_HEADER_SIZE stream;
     c_assert (length buf \<le> SC_PACKET_HEADER_SIZE);
     Some (if length buf = SC_PACKET_HEADER_SIZE then Some buf else None, stream)
   }"

definition sc_demuxer_is_session :: "byte_buf \<Rightarrow> bool option" where
  "sc_demuxer_is_session header = do { b \<leftarrow> mem_get 0 header; Some (b AND 0x80 \<noteq> 0) }"

definition sc_demuxer_parse_session :: "byte_buf \<Rightarrow> sc_stream_session option" where
  "sc_demuxer_parse_session header = do {
     s \<leftarrow> sc_demuxer_is_session header;
     c_assert s;
     w \<leftarrow> sc_read32be 4 header;
     h \<leftarrow> sc_read32be 8 header;
     b \<leftarrow> mem_get 3 header;
     Some \<lparr>ses_width = w, ses_height = h, client_resized = (b AND 1 \<noteq> 0)\<rparr>
   }"

text \<open>\<open>new_ok\<close> is the outcome of \<^verbatim>\<open>av_new_packet\<close>; the inner \<open>None\<close> is the result \<^verbatim>\<open>false\<close>.\<close>

definition sc_demuxer_recv_packet ::
  "u64 \<Rightarrow> bool \<Rightarrow> byte_buf \<Rightarrow> byte_buf \<Rightarrow> (AVPacket option \<times> byte_buf) option" where
  "sc_demuxer_recv_packet nopts new_ok header stream = do {
     s \<leftarrow> sc_demuxer_is_session header;
     c_assert (\<not> s);
     pts_flags \<leftarrow> sc_read64be 0 header;
     len \<leftarrow> sc_read32be 8 header;
     if len = 0 then Some (None, stream)
     else if \<not> new_ok then Some (None, stream)
     else do {
       let (data, stream) = net_recv_all (unat len) stream;
       if length data < unat len then Some (None, stream)
       else do {
         let pts = (if pts_flags AND SC_PACKET_FLAG_CONFIG \<noteq> 0 then nopts
                    else pts_flags AND SC_PACKET_PTS_MASK);
         Some (Some \<lparr>pkt_pts = pts, pkt_dts = pts,
                     pkt_key = (pts_flags AND SC_PACKET_FLAG_KEY_FRAME \<noteq> 0), pkt_data = data\<rparr>, stream)
       }
     }
   }"

text \<open>What FFmpeg answers: the type of the decoder found, the context allocated, the context after
  \<^verbatim>\<open>avcodec_open2\<close>, and for the n-th media packet whether the allocations succeed.\<close>

record demuxer_env =
  has_av1 :: bool
  nopts :: u64
  find_decoder :: "AVCodecID \<Rightarrow> AVMediaType option"
  alloc_context3 :: "AVMediaType \<Rightarrow> AVCodecContext option"
  open2 :: "AVCodecContext \<Rightarrow> AVCodecContext option"
  packet_alloc :: bool
  new_packet_ok :: "nat \<Rightarrow> bool"
  merge_alloc :: "nat \<Rightarrow> bool"

type_synonym 's packet_sinks = "(AVCodecContext, AVPacket, 's) packet_sink list"

lemma recv_header_length: "sc_demuxer_recv_header s = Some (Some h, s') \<Longrightarrow> length s' < length s"
  by (auto simp: sc_demuxer_recv_header_def net_recv_all_def SC_PACKET_HEADER_SIZE_def split: if_splits)

lemma recv_packet_length: "sc_demuxer_recv_packet v ok h s = Some (p, s') \<Longrightarrow> length s' \<le> length s"
  by (auto simp: sc_demuxer_recv_packet_def net_recv_all_def bind_Some_iff Let_def split: if_splits)

text \<open>The main loop. \<open>n\<close> counts the media packets.\<close>

function demuxer_loop ::
  "demuxer_env \<Rightarrow> bool \<Rightarrow> byte_buf \<Rightarrow> nat \<Rightarrow> sc_packet_merger \<Rightarrow> 's packet_sinks \<Rightarrow>
   (sc_demuxer_status \<times> 's packet_sinks) option" where
  "demuxer_loop e must_merge stream n merger sinks = do {
     (h, stream) \<leftarrow> sc_demuxer_recv_header stream;
     (case h of
        None \<Rightarrow> Some (SC_DEMUXER_STATUS_EOS, sinks)
      | Some header \<Rightarrow> do {
          s \<leftarrow> sc_demuxer_is_session header;
          if s then do {
            session \<leftarrow> sc_demuxer_parse_session header;
            (ok, sinks) \<leftarrow> sc_packet_source_sinks_push_session session sinks;
            if \<not> ok then Some (SC_DEMUXER_STATUS_ERROR, sinks)
            else demuxer_loop e must_merge stream n merger sinks
          } else do {
            (p, stream) \<leftarrow> sc_demuxer_recv_packet (nopts e) (new_packet_ok e n) header stream;
            (case p of
               None \<Rightarrow> Some (SC_DEMUXER_STATUS_ERROR, sinks)
             | Some packet \<Rightarrow> do {
                 (ok, merger, packet) \<leftarrow>
                   (if must_merge then sc_packet_merger_merge (nopts e) (merge_alloc e n) merger packet
                    else Some (True, merger, packet));
                 if \<not> ok then Some (SC_DEMUXER_STATUS_ERROR, sinks)
                 else do {
                   (ok, sinks) \<leftarrow> sc_packet_source_sinks_push packet sinks;
                   if \<not> ok then Some (SC_DEMUXER_STATUS_ERROR, sinks)
                   else demuxer_loop e must_merge stream (n + 1) merger sinks
                 }
               })
          }
        })
   }"
  by pat_completeness auto
termination
  by (relation "measure (\<lambda>(e, mm, stream, n, merger, sinks). length stream)")
    (auto dest!: recv_header_length recv_packet_length)

declare demuxer_loop.simps [simp del]

definition demuxer_stream ::
  "demuxer_env \<Rightarrow> u32 \<Rightarrow> AVCodecContext \<Rightarrow> sc_stream_session option \<Rightarrow> byte_buf \<Rightarrow> 's packet_sinks \<Rightarrow>
   (sc_demuxer_status \<times> 's packet_sinks) option" where
  "demuxer_stream e raw_codec_id codec_ctx session stream sinks =
     (case open2 e codec_ctx of
        None \<Rightarrow> Some (SC_DEMUXER_STATUS_ERROR, sinks)
      | Some codec_ctx \<Rightarrow> do {
          (ok, sinks) \<leftarrow> sc_packet_source_sinks_open codec_ctx session sinks;
          if \<not> ok then Some (SC_DEMUXER_STATUS_ERROR, sinks)
          else do {
            let must_merge = (raw_codec_id = SC_CODEC_ID_H264 \<or> raw_codec_id = SC_CODEC_ID_H265);
            (status, sinks) \<leftarrow>
              (if \<not> packet_alloc e then Some (SC_DEMUXER_STATUS_ERROR, sinks)
               else demuxer_loop e must_merge stream 0 sc_packet_merger_init sinks);
            sinks \<leftarrow> sc_packet_source_sinks_close sinks;
            Some (status, sinks)
          }
        })"

definition run_demuxer ::
  "demuxer_env \<Rightarrow> byte_buf \<Rightarrow> 's packet_sinks \<Rightarrow> (sc_demuxer_status \<times> 's packet_sinks) option" where
  "run_demuxer e stream sinks = do {
     (raw, stream) \<leftarrow> sc_demuxer_recv_codec_id stream;
     (case raw of
        None \<Rightarrow> Some (SC_DEMUXER_STATUS_ERROR, sinks)
      | Some raw_codec_id \<Rightarrow>
     if raw_codec_id = 0 then do {
       sinks \<leftarrow> sc_packet_source_sinks_disable sinks;
       Some (SC_DEMUXER_STATUS_DISABLED, sinks)
     }
     else if raw_codec_id = 1 then Some (SC_DEMUXER_STATUS_ERROR, sinks)
     else do {
       let codec_id = sc_demuxer_to_avcodec_id (has_av1 e) raw_codec_id;
       if codec_id = AV_CODEC_ID_NONE then do {
         sinks \<leftarrow> sc_packet_source_sinks_disable sinks;
         Some (SC_DEMUXER_STATUS_ERROR, sinks)
       }
       else (case find_decoder e codec_id of
          None \<Rightarrow> do {
            sinks \<leftarrow> sc_packet_source_sinks_disable sinks;
            Some (SC_DEMUXER_STATUS_ERROR, sinks)
          }
        | Some codec \<Rightarrow> (case alloc_context3 e codec of
            None \<Rightarrow> Some (SC_DEMUXER_STATUS_ERROR, sinks)
          | Some codec_ctx \<Rightarrow> do {
              let codec_ctx = codec_ctx\<lparr>low_delay := True\<rparr>;
              if codec = AVMEDIA_TYPE_VIDEO then do {
                (h, stream) \<leftarrow> sc_demuxer_recv_header stream;
                (case h of
                   None \<Rightarrow> Some (SC_DEMUXER_STATUS_ERROR, sinks)
                 | Some header \<Rightarrow> do {
                     s \<leftarrow> sc_demuxer_is_session header;
                     if \<not> s then Some (SC_DEMUXER_STATUS_ERROR, sinks)
                     else do {
                       session \<leftarrow> sc_demuxer_parse_session header;
                       if ses_width session = 0 \<or> ses_height session = 0
                       then Some (SC_DEMUXER_STATUS_ERROR, sinks)
                       else demuxer_stream e raw_codec_id
                         (codec_ctx\<lparr>ctx_width := sint (ses_width session),
                                    ctx_height := sint (ses_height session),
                                    pix_fmt := AV_PIX_FMT_YUV420P\<rparr>)
                         (Some session) stream sinks
                     }
                   })
              }
              else do {
                let codec_ctx = codec_ctx\<lparr>ch_stereo := True, sample_rate := 48000\<rparr>;
                let codec_ctx = (if raw_codec_id = SC_CODEC_ID_FLAC
                                 then codec_ctx\<lparr>sample_fmt := AV_SAMPLE_FMT_S16\<rparr> else codec_ctx);
                demuxer_stream e raw_codec_id codec_ctx None stream sinks
              }
            }))
     })
   }"

section \<open>Streamer.java\<close>

definition writeSessionMeta :: "u32 \<Rightarrow> u32 \<Rightarrow> bool \<Rightarrow> byte_buf" where
  "writeSessionMeta w h isClientResize =
     (let flags = (ucast (signed_drop_bit 32 (push_bit 63 1 :: u64)) :: u32);
          flags = (if isClientResize then flags OR 1 else flags)
      in be32 flags @ be32 w @ be32 h)"

definition writeFrameMeta :: "u32 \<Rightarrow> u64 \<Rightarrow> bool \<Rightarrow> bool \<Rightarrow> byte_buf" where
  "writeFrameMeta packetSize pts config keyFrame =
     (let ptsAndFlags = (if config then push_bit 62 1
                         else if keyFrame then pts OR push_bit 61 1 else pts)
      in be64 ptsAndFlags @ be32 packetSize)"

section \<open>Streams of items\<close>

text \<open>What the device sends: sessions, configuration packets and media packets.\<close>

datatype stream_item = Session sc_stream_session | Config byte_buf | Media bool u64 byte_buf

fun item_bytes :: "stream_item \<Rightarrow> byte_buf" where
  "item_bytes (Session s) = writeSessionMeta (ses_width s) (ses_height s) (client_resized s)"
| "item_bytes (Config d) = writeFrameMeta (of_nat (length d)) 0 True False @ d"
| "item_bytes (Media key pts d) = writeFrameMeta (of_nat (length d)) pts False key @ d"

text \<open>A time stamp leaves the three highest bits free for the flags.\<close>

fun wf_item :: "stream_item \<Rightarrow> bool" where
  "wf_item (Session s) = True"
| "wf_item (Config d) = (0 < length d \<and> length d < 2 ^ 32)"
| "wf_item (Media key pts d) = (0 < length d \<and> length d < 2 ^ 32 \<and> pts < 2 ^ 61)"

fun item_packet :: "u64 \<Rightarrow> stream_item \<Rightarrow> AVPacket" where
  "item_packet v (Media key pts d) = \<lparr>pkt_pts = pts, pkt_dts = pts, pkt_key = key, pkt_data = d\<rparr>"
| "item_packet v (Config d) = \<lparr>pkt_pts = v, pkt_dts = v, pkt_key = False, pkt_data = d\<rparr>"
| "item_packet v (Session s) = \<lparr>pkt_pts = v, pkt_dts = v, pkt_key = False, pkt_data = []\<rparr>"

lemma session_flags:
  "(ucast (signed_drop_bit 32 (push_bit 63 1 :: u64)) :: u32) = 0x80000000"
  by code_simp

lemma session_bytes:
  "writeSessionMeta w h r = 0x80 # 0 # 0 # (if r then 1 else 0) # be32 w @ be32 h"
  by (simp add: writeSessionMeta_def session_flags be32_def)

lemma session_header:
  "sc_demuxer_recv_header (item_bytes (Session s) @ rest) = Some (Some (item_bytes (Session s)), rest)"
  by (simp add: sc_demuxer_recv_header_def net_recv_all_def SC_PACKET_HEADER_SIZE_def session_bytes)

lemma session_parse:
  "sc_demuxer_is_session (item_bytes (Session s)) = Some True"
  "sc_demuxer_parse_session (item_bytes (Session s)) = Some s"
  using sc_read32be_at [of 4 "[0x80, 0, 0, if client_resized s then 1 else 0]" "ses_width s" "be32 (ses_height s)"]
    sc_read32be_at [of 8 "[0x80, 0, 0, if client_resized s then 1 else 0] @ be32 (ses_width s)" "ses_height s" "[]"]
  by (simp_all add: session_bytes sc_demuxer_is_session_def mem_get_def sc_demuxer_parse_session_def)

lemma be64_head: "be64 v = ucast (drop_bit 56 v) # tl (be64 v)"
  by (simp add: be64_def be32_def) (rule bit_word_eqI, auto simp: bit_simps)

lemma frame_is_media:
  assumes "\<not> bit v 63"
  shows "sc_demuxer_is_session (be64 v @ be32 n) = Some False"
proof -
  have "(ucast (drop_bit 56 v) AND 0x80 :: u8) = 0"
  proof (rule bit_word_eqI)
    fix k assume "k < LENGTH(8)"
    have "bit (0x80 :: u8) k \<longleftrightarrow> k = 7" using \<open>k < LENGTH(8)\<close>
      by (auto simp: bit_simps less_Suc_eq numeral_eq_Suc)
    with assms show "bit (ucast (drop_bit 56 v) AND 0x80 :: u8) k = bit (0 :: u8) k"
      by (auto simp: bit_simps)
  qed
  then show ?thesis by (subst be64_head) (simp add: sc_demuxer_is_session_def mem_get_def)
qed

lemma recv_frame:
  assumes "\<not> bit v 63" "0 < length d" "length d < 2 ^ 32"
  shows "sc_demuxer_recv_header (be64 v @ be32 (of_nat (length d)) @ d @ rest) =
      Some (Some (be64 v @ be32 (of_nat (length d))), d @ rest)"
    and "sc_demuxer_is_session (be64 v @ be32 (of_nat (length d))) = Some False"
    and "sc_demuxer_recv_packet x True (be64 v @ be32 (of_nat (length d))) (d @ rest) =
      Some (Some (let pts = if bit v 62 then x else v AND SC_PACKET_PTS_MASK in
        \<lparr>pkt_pts = pts, pkt_dts = pts, pkt_key = bit v 61, pkt_data = d\<rparr>), rest)"
proof -
  let ?n = "of_nat (length d) :: u32"
  have n: "unat ?n = length d" using assms(3) by (simp add: unat_of_nat)
  then have n0: "?n \<noteq> 0" using assms(2) by (metis less_numeral_extra(3) unat_0)
  show "sc_demuxer_recv_header (be64 v @ be32 ?n @ d @ rest) = Some (Some (be64 v @ be32 ?n), d @ rest)"
    by (simp add: sc_demuxer_recv_header_def net_recv_all_def SC_PACKET_HEADER_SIZE_def)
  show m: "sc_demuxer_is_session (be64 v @ be32 ?n) = Some False" by (rule frame_is_media [OF assms(1)])
  have "v AND SC_PACKET_FLAG_CONFIG \<noteq> 0 \<longleftrightarrow> bit v 62" "v AND SC_PACKET_FLAG_KEY_FRAME \<noteq> 0 \<longleftrightarrow> bit v 61"
    by (simp_all add: SC_PACKET_FLAG_CONFIG_def SC_PACKET_FLAG_KEY_FRAME_def bit_iff_and_push_bit_not_eq_0)
  with n n0 m show "sc_demuxer_recv_packet x True (be64 v @ be32 ?n) (d @ rest) =
      Some (Some (let pts = if bit v 62 then x else v AND SC_PACKET_PTS_MASK in
        \<lparr>pkt_pts = pts, pkt_dts = pts, pkt_key = bit v 61, pkt_data = d\<rparr>), rest)"
    using sc_read64be_at [of 0 "[]" v "be32 ?n"] sc_read32be_at [of 8 "be64 v" ?n "[]"]
    by (simp add: sc_demuxer_recv_packet_def net_recv_all_def Let_def)
qed

lemma pts_bits:
  assumes "(pts :: u64) < 2 ^ 61"
  shows "bit pts k \<Longrightarrow> k < 61" and "pts AND SC_PACKET_PTS_MASK = pts"
proof -
  have "unat pts < 2 ^ 61" using assms by (simp add: word_less_nat_alt)
  then have t: "take_bit 61 (unat pts) = unat pts" by (simp add: take_bit_nat_eq_self)
  show *: "k < 61" if "bit pts k" for k
  proof -
    from that have "bit (unat pts) k" by (simp add: bit_unsigned_iff)
    then have "bit (take_bit 61 (unat pts)) k" by (simp only: t)
    then show ?thesis by (simp add: bit_take_bit_iff)
  qed
  show "pts AND SC_PACKET_PTS_MASK = pts"
  proof (rule bit_word_eqI)
    fix k assume "k < LENGTH(64)"
    have "SC_PACKET_PTS_MASK = mask 61"
      by (simp add: SC_PACKET_PTS_MASK_def SC_PACKET_FLAG_KEY_FRAME_def mask_eq_decr_exp push_bit_eq_mult)
    moreover have "bit (mask 61 :: u64) k \<longleftrightarrow> k < 61"
      using \<open>k < LENGTH(64)\<close> by (auto simp only: bit_mask_iff possible_bit_word)
    ultimately have "bit SC_PACKET_PTS_MASK k \<longleftrightarrow> k < 61" by simp
    with * show "bit (pts AND SC_PACKET_PTS_MASK) k = bit pts k" by (auto simp: bit_and_iff)
  qed
qed

fun item_flags :: "stream_item \<Rightarrow> u64" where
  "item_flags (Media key pts d) = (if key then pts OR push_bit 61 1 else pts)"
| "item_flags _ = push_bit 62 1"

fun item_data :: "stream_item \<Rightarrow> byte_buf" where
  "item_data (Media key pts d) = d"
| "item_data (Config d) = d"
| "item_data (Session s) = []"

lemma item_frame:
  assumes "wf_item i" "\<forall>s. i \<noteq> Session s"
  shows "item_bytes i = be64 (item_flags i) @ be32 (of_nat (length (item_data i))) @ item_data i"
    and "\<not> bit (item_flags i) 63" "0 < length (item_data i)" "length (item_data i) < 2 ^ 32"
    and "(let v = item_flags i; pts = if bit v 62 then x else v AND SC_PACKET_PTS_MASK in
          \<lparr>pkt_pts = pts, pkt_dts = pts, pkt_key = bit v 61, pkt_data = item_data i\<rparr>) = item_packet x i"
proof -
  show "item_bytes i = be64 (item_flags i) @ be32 (of_nat (length (item_data i))) @ item_data i"
    using assms by (cases i) (simp_all add: writeFrameMeta_def)
  show "0 < length (item_data i)" "length (item_data i) < 2 ^ 32" using assms by (cases i; simp)+
  have m: "(pts OR push_bit 61 1) AND SC_PACKET_PTS_MASK = pts" if "(pts :: u64) < 2 ^ 61" for pts
  proof -
    have "push_bit 61 (1 :: u64) AND SC_PACKET_PTS_MASK = 0" by (simp add: SC_PACKET_PTS_MASK_def SC_PACKET_FLAG_KEY_FRAME_def)
    with pts_bits(2) [OF that] show ?thesis by (simp add: bit.conj_disj_distrib2)
  qed
  have b: "\<not> bit pts 61" "\<not> bit pts 62" "\<not> bit pts 63" if "(pts :: u64) < 2 ^ 61" for pts
    using pts_bits(1) [OF that] by force+
  show "\<not> bit (item_flags i) 63" using assms b by (cases i) (auto simp: bit_simps)
  show "(let v = item_flags i; pts = if bit v 62 then x else v AND SC_PACKET_PTS_MASK in
      \<lparr>pkt_pts = pts, pkt_dts = pts, pkt_key = bit v 61, pkt_data = item_data i\<rparr>) = item_packet x i"
    using assms b m pts_bits(2) by (cases i) (auto simp: bit_simps Let_def)
qed

lemma merge_ok:
  "sc_packet_merger_merge v True merger p =
     Some (True, if pkt_pts p = v then Some (pkt_data p) else None,
           if pkt_pts p = v then p else
             (case merger of None \<Rightarrow> p | Some c \<Rightarrow> p\<lparr>pkt_data := c @ pkt_data p\<rparr>))"
  by (simp add: sc_packet_merger_merge_def mem_read_def mem_write_def split: option.split)

section \<open>What the sinks receive\<close>

text \<open>The calls an error-free stream leads to: for H.26x a media packet is preceded by the payload of the
  configuration packet received since the previous media packet.\<close>

datatype sink_call = Call_session sc_stream_session | Call_packet AVPacket

fun calls_of :: "u64 \<Rightarrow> bool \<Rightarrow> byte_buf option \<Rightarrow> stream_item list \<Rightarrow> sink_call list" where
  "calls_of v must_merge c [] = []"
| "calls_of v must_merge c (Session s # items) = Call_session s # calls_of v must_merge c items"
| "calls_of v must_merge c (Config d # items) =
     Call_packet (item_packet v (Config d)) # calls_of v must_merge (Some d) items"
| "calls_of v must_merge c (Media key pts d # items) =
     Call_packet (item_packet v (Media key pts
       (if must_merge then (case c of None \<Rightarrow> d | Some config \<Rightarrow> config @ d) else d)))
     # calls_of v must_merge None items"

fun feed :: "sink_call list \<Rightarrow> 's packet_sinks \<Rightarrow> (bool \<times> 's packet_sinks) option" where
  "feed [] sinks = Some (True, sinks)"
| "feed (call # calls) sinks = do {
     (ok, sinks) \<leftarrow> (case call of Call_session s \<Rightarrow> sc_packet_source_sinks_push_session s sinks
                                | Call_packet p \<Rightarrow> sc_packet_source_sinks_push p sinks);
     if ok then feed calls sinks else Some (False, sinks)
   }"

lemma loop_end:
  "length rest < 12 \<Longrightarrow> demuxer_loop e mm rest n merger sinks = Some (SC_DEMUXER_STATUS_EOS, sinks)"
  by (subst demuxer_loop.simps)
    (simp add: sc_demuxer_recv_header_def net_recv_all_def SC_PACKET_HEADER_SIZE_def)

lemma loop_session:
  "demuxer_loop e mm (item_bytes (Session s) @ rest) n merger sinks = do {
     (ok, sinks) \<leftarrow> sc_packet_source_sinks_push_session s sinks;
     if \<not> ok then Some (SC_DEMUXER_STATUS_ERROR, sinks) else demuxer_loop e mm rest n merger sinks
   }"
  by (subst demuxer_loop.simps) (simp del: item_bytes.simps add: session_header session_parse)

lemma loop_packet:
  assumes "wf_item i" "\<forall>s. i \<noteq> Session s" "new_packet_ok e n" "merge_alloc e n"
  shows "demuxer_loop e mm (item_bytes i @ rest) n merger sinks =
    (let p = item_packet (nopts e) i; config = (pkt_pts p = nopts e);
         merger' = (if \<not> mm then merger else if config then Some (pkt_data p) else None);
         p' = (if \<not> mm \<or> config then p
               else (case merger of None \<Rightarrow> p | Some c \<Rightarrow> p\<lparr>pkt_data := c @ pkt_data p\<rparr>))
     in do {
       (ok, sinks) \<leftarrow> sc_packet_source_sinks_push p' sinks;
       if \<not> ok then Some (SC_DEMUXER_STATUS_ERROR, sinks)
       else demuxer_loop e mm rest (n + 1) merger' sinks
     })"
  using recv_frame(1) [OF item_frame(2-4) [OF assms(1,2)], of rest]
    recv_frame(2) [OF item_frame(2-4) [OF assms(1,2)]]
    recv_frame(3) [OF item_frame(2-4) [OF assms(1,2)], of "nopts e" rest]
    item_frame(5) [OF assms(1,2), of "nopts e"] assms(3,4)
  by (subst demuxer_loop.simps)
    (auto simp: item_frame(1) [OF assms(1,2)] merge_ok Let_def)

lemma calls_unmerged: "calls_of v False c items = calls_of v False c' items"
proof (induction items arbitrary: c c')
  case (Cons i items)
  then show ?case by (cases i) simp_all
qed simp

abbreviation run_status :: "bool \<Rightarrow> sc_demuxer_status" where
  "run_status ok \<equiv> (if ok then SC_DEMUXER_STATUS_EOS else SC_DEMUXER_STATUS_ERROR)"

lemma feed_step:
  "Option.bind X (\<lambda>(ok, s). if \<not> ok then Some (SC_DEMUXER_STATUS_ERROR, s)
     else Option.bind (F s) (\<lambda>(ok, s). Some (run_status ok, s))) =
   Option.bind (Option.bind X (\<lambda>(ok, s). if ok then F s else Some (False, s)))
     (\<lambda>(ok, s). Some (run_status ok, s))"
  by (cases X) auto

lemma loop_delivers:
  assumes "nopts e = push_bit 63 1" "\<forall>n. new_packet_ok e n" "\<forall>n. merge_alloc e n"
    "\<forall>i \<in> set items. wf_item i" "length rest < 12"
  shows "demuxer_loop e mm (concat (map item_bytes items) @ rest) n c sinks = do {
     (ok, sinks) \<leftarrow> feed (calls_of (nopts e) mm c items) sinks;
     Some (if ok then SC_DEMUXER_STATUS_EOS else SC_DEMUXER_STATUS_ERROR, sinks)
   }"
  using assms(4)
proof (induction items arbitrary: n c sinks)
  case Nil
  then show ?case using loop_end [OF assms(5)] by simp
next
  case (Cons i items)
  then have w: "\<forall>i \<in> set items. wf_item i" and i: "wf_item i" by simp_all
  note packet = loop_packet [OF i _ assms(2,3) [rule_format], of mm "concat (map item_bytes items) @ rest"]
  show ?case
  proof (cases i)
    case (Session s)
    then show ?thesis
      by (cases "sc_packet_source_sinks_push_session s sinks")
        (auto simp del: item_bytes.simps simp: loop_session Cons.IH [OF w])
  next
    case (Config d)
    define m' where "m' = (if mm then Some d else c)"
    with Config have "demuxer_loop e mm (item_bytes i @ concat (map item_bytes items) @ rest) n c sinks =
      Option.bind (sc_packet_source_sinks_push (item_packet (nopts e) i) sinks)
        (\<lambda>(ok, s). if \<not> ok then Some (SC_DEMUXER_STATUS_ERROR, s)
           else demuxer_loop e mm (concat (map item_bytes items) @ rest) (n + 1) m' s)"
      using packet [of n c sinks] by (cases mm) (simp_all del: item_bytes.simps add: Let_def cong: if_cong)
    moreover have "calls_of (nopts e) mm m' items = calls_of (nopts e) mm (Some d) items"
      using calls_unmerged [of "nopts e" c items "Some d"] by (cases mm) (simp_all add: m'_def)
    ultimately show ?thesis
      using Config by (simp del: item_bytes.simps add: Cons.IH [OF w] feed_step cong: if_cong)
  next
    case (Media key pts d)
    have "pts \<noteq> nopts e"
      using pts_bits(1) [of pts 63] i Media assms(1) by (auto simp: bit_simps)
    moreover define m' where "m' = (if mm then None else c)"
    ultimately have "demuxer_loop e mm (item_bytes i @ concat (map item_bytes items) @ rest) n c sinks =
      Option.bind (sc_packet_source_sinks_push (item_packet (nopts e) (Media key pts
          (if mm then (case c of None \<Rightarrow> d | Some config \<Rightarrow> config @ d) else d))) sinks)
        (\<lambda>(ok, s). if \<not> ok then Some (SC_DEMUXER_STATUS_ERROR, s)
           else demuxer_loop e mm (concat (map item_bytes items) @ rest) (n + 1) m' s)"
      using Media packet [of n c sinks] by (cases c; cases mm) (simp_all del: item_bytes.simps add: Let_def cong: if_cong)
    moreover have "calls_of (nopts e) mm m' items = calls_of (nopts e) mm None items"
      using calls_unmerged [of "nopts e" c items None] by (cases mm) (simp_all add: m'_def)
    ultimately show ?thesis
      using Media by (simp del: item_bytes.simps add: Cons.IH [OF w] feed_step cong: if_cong)
  qed
qed

section \<open>The whole thread on a well-formed stream\<close>

definition configured :: "u32 \<Rightarrow> AVCodecContext \<Rightarrow> sc_stream_session option \<Rightarrow> AVCodecContext" where
  "configured raw ctx session =
     (case session of
        Some s \<Rightarrow> ctx\<lparr>low_delay := True, ctx_width := sint (ses_width s), ctx_height := sint (ses_height s),
                     pix_fmt := AV_PIX_FMT_YUV420P\<rparr>
      | None \<Rightarrow> (let ctx = ctx\<lparr>low_delay := True, ch_stereo := True, sample_rate := 48000\<rparr> in
                if raw = SC_CODEC_ID_FLAC then ctx\<lparr>sample_fmt := AV_SAMPLE_FMT_S16\<rparr> else ctx))"

definition session_valid :: "AVMediaType \<Rightarrow> sc_stream_session option \<Rightarrow> bool" where
  "session_valid codec session =
     (case session of None \<Rightarrow> codec \<noteq> AVMEDIA_TYPE_VIDEO
      | Some s \<Rightarrow> codec = AVMEDIA_TYPE_VIDEO \<and> ses_width s \<noteq> 0 \<and> ses_height s \<noteq> 0)"

lemma recv_codec_id: "sc_demuxer_recv_codec_id (be32 raw @ rest) = Some (Some raw, rest)"
  using sc_read32be_at [of 0 "[]" raw "[]"]
  by (simp add: sc_demuxer_recv_codec_id_def net_recv_all_def)

lemma known_codec:
  assumes "sc_demuxer_to_avcodec_id a raw \<noteq> AV_CODEC_ID_NONE"
  shows "raw \<noteq> 0" "raw \<noteq> 1"
  using assms by (auto simp: sc_demuxer_to_avcodec_id_def SC_CODEC_ID_H264_def SC_CODEC_ID_H265_def
      SC_CODEC_ID_FLAC_def)

lemma run_to_stream:
  assumes "sc_demuxer_to_avcodec_id (has_av1 e) raw \<noteq> AV_CODEC_ID_NONE"
    "find_decoder e (sc_demuxer_to_avcodec_id (has_av1 e) raw) = Some codec"
    "alloc_context3 e codec = Some ctx" "session_valid codec session"
  shows "run_demuxer e (be32 raw @ (case session of None \<Rightarrow> [] | Some s \<Rightarrow> item_bytes (Session s)) @ rest) sinks =
    demuxer_stream e raw (configured raw ctx session) session rest sinks"
  using assms known_codec [OF assms(1)]
  by (auto simp del: item_bytes.simps simp: run_demuxer_def recv_codec_id session_valid_def configured_def
      session_header session_parse Let_def split: option.splits)

text \<open>C7. The demuxer delivers exactly what the device sent: on a stream made of the codec id, for a video
  codec a session of non-zero size, and any well-formed sessions, configuration packets and media
  packets, ended anywhere inside a header, with a decoder found and memory available, the run opens the
  sinks, calls them with exactly the sessions and packets sent, in order, each with its time stamp and
  key-frame flag, configuration payloads being put in front of the next media packet for H.264 and
  H.265, until a sink refuses or the stream ends, closes them, and reports the end of the stream or an
  error accordingly.\<close>

theorem demuxer_delivers:
  assumes "sc_demuxer_to_avcodec_id (has_av1 e) raw \<noteq> AV_CODEC_ID_NONE"
    "find_decoder e (sc_demuxer_to_avcodec_id (has_av1 e) raw) = Some codec"
    "alloc_context3 e codec = Some ctx" "session_valid codec session"
    "open2 e (configured raw ctx session) = Some ctx'" "packet_alloc e"
    "nopts e = push_bit 63 1" "\<forall>n. new_packet_ok e n" "\<forall>n. merge_alloc e n"
    "\<forall>i \<in> set items. wf_item i" "length rest < 12"
  shows "run_demuxer e (be32 raw @ (case session of None \<Rightarrow> [] | Some s \<Rightarrow> item_bytes (Session s)) @
           concat (map item_bytes items) @ rest) sinks = do {
     (ok, sinks) \<leftarrow> sc_packet_source_sinks_open ctx' session sinks;
     if \<not> ok then Some (SC_DEMUXER_STATUS_ERROR, sinks)
     else do {
       (ok, sinks) \<leftarrow> feed (calls_of (nopts e) (raw = SC_CODEC_ID_H264 \<or> raw = SC_CODEC_ID_H265) None items) sinks;
       sinks \<leftarrow> sc_packet_source_sinks_close sinks;
       Some (if ok then SC_DEMUXER_STATUS_EOS else SC_DEMUXER_STATUS_ERROR, sinks)
     }
   }"
proof -
  let ?mm = "raw = SC_CODEC_ID_H264 \<or> raw = SC_CODEC_ID_H265"
  note eqs = demuxer_stream_def sc_packet_merger_init_def run_to_stream [OF assms(1-4)]
    loop_delivers [OF assms(7-11)] Let_def
  show ?thesis
  proof (cases "sc_packet_source_sinks_open ctx' session sinks")
    case None
    with assms(5,6) show ?thesis by (simp add: eqs)
  next
    case (Some r)
    then obtain ok s1 where r: "sc_packet_source_sinks_open ctx' session sinks = Some (ok, s1)"
      by (cases r) auto
    show ?thesis
      by (cases "feed (calls_of (nopts e) ?mm None items) s1")
        (use r assms(5,6) in \<open>auto simp: eqs\<close>)
  qed
qed

definition demo_context :: "AVMediaType \<Rightarrow> AVCodecContext" where
  "demo_context t = \<lparr>codec_type = t, low_delay = False, ctx_width = 0, ctx_height = 0,
     pix_fmt = AV_PIX_FMT_NONE, ch_stereo = False, sample_rate = 0, sample_fmt = AV_SAMPLE_FMT_NONE\<rparr>"

definition demo_ffmpeg :: demuxer_env where
  "demo_ffmpeg = \<lparr>has_av1 = True, nopts = push_bit 63 1,
     find_decoder = \<lambda>i. if i = AV_CODEC_ID_H264 then Some AVMEDIA_TYPE_VIDEO else None,
     alloc_context3 = \<lambda>t. Some (demo_context t), open2 = Some, packet_alloc = True,
     new_packet_ok = \<lambda>_. True, merge_alloc = \<lambda>_. True\<rparr>"

text \<open>A sink that keeps the packets it gets.\<close>

definition recording_sink :: "(AVCodecContext, AVPacket, AVPacket list) sc_packet_sink_ops" where
  "recording_sink = \<lparr>sk_open = \<lambda>c s st. Some (True, st), sk_close = Some,
     sk_push = \<lambda>p st. Some (True, st @ [p]), sk_push_session = None, sk_disable = None\<rparr>"

lemma recording_calls:
  "sc_packet_source_sinks_open c s [(recording_sink, st)] = Some (True, [(recording_sink, st)])"
  "sc_packet_source_sinks_push p [(recording_sink, st)] = Some (True, [(recording_sink, st @ [p])])"
  "sc_packet_source_sinks_close [(recording_sink, st)] = Some [(recording_sink, st)]"
  by (simp_all add: packet_source_defs sinks_open_loop.simps sinks_push_loop.simps mem_get_def
      recording_sink_def)

theorem demuxer_delivers_witness:
  "run_demuxer demo_ffmpeg (be32 SC_CODEC_ID_H264 @
      item_bytes (Session \<lparr>ses_width = 640, ses_height = 480, client_resized = False\<rparr>) @
      item_bytes (Config [1, 2]) @ item_bytes (Media True 7 [3]) @ item_bytes (Media False 8 [4]))
     [(recording_sink, [])] =
   Some (SC_DEMUXER_STATUS_EOS, [(recording_sink,
     [\<lparr>pkt_pts = push_bit 63 1, pkt_dts = push_bit 63 1, pkt_key = False, pkt_data = [1, 2]\<rparr>,
      \<lparr>pkt_pts = 7, pkt_dts = 7, pkt_key = True, pkt_data = [1, 2, 3]\<rparr>,
      \<lparr>pkt_pts = 8, pkt_dts = 8, pkt_key = False, pkt_data = [4]\<rparr>])])"
  using demuxer_delivers [of demo_ffmpeg SC_CODEC_ID_H264 AVMEDIA_TYPE_VIDEO "demo_context AVMEDIA_TYPE_VIDEO"
      "Some \<lparr>ses_width = 640, ses_height = 480, client_resized = False\<rparr>" _
      "[Config [1, 2], Media True 7 [3], Media False 8 [4]]" "[]" "[(recording_sink, [])]"]
  by (simp del: item_bytes.simps add: demo_ffmpeg_def sc_demuxer_to_avcodec_id_def session_valid_def
      recording_calls SC_CODEC_ID_H264_def word_less_nat_alt)

section \<open>The thread on any stream\<close>

lemma recv_header_total:
  "\<exists>h s'. sc_demuxer_recv_header s = Some (h, s') \<and> (\<forall>x. h = Some x \<longrightarrow> length x = 12)"
  by (auto simp: sc_demuxer_recv_header_def net_recv_all_def SC_PACKET_HEADER_SIZE_def)

lemma recv_codec_id_total: "\<exists>r s1. sc_demuxer_recv_codec_id s = Some (r, s1)"
  by (cases "length s < 4")
    (simp_all add: sc_demuxer_recv_codec_id_def net_recv_all_def sc_read32be_def mem_get_def)

lemma is_session_total: "length h = 12 \<Longrightarrow> \<exists>b. sc_demuxer_is_session h = Some b"
  by (simp add: sc_demuxer_is_session_def mem_get_def)

lemma read_header_total:
  assumes "length h = 12"
  shows "\<exists>v. sc_read32be 4 h = Some v" "\<exists>v. sc_read32be 8 h = Some v" "\<exists>v. sc_read64be 0 h = Some v"
  using assms by (simp_all add: sc_read64be_def sc_read32be_def mem_get_def)

lemma parse_session_total:
  assumes "length h = 12" "sc_demuxer_is_session h = Some True"
  shows "\<exists>s. sc_demuxer_parse_session h = Some s"
  using assms read_header_total [OF assms(1)] by (auto simp: sc_demuxer_parse_session_def mem_get_def)

lemma recv_packet_total:
  assumes "length h = 12" "sc_demuxer_is_session h = Some False"
  shows "\<exists>p s'. sc_demuxer_recv_packet v ok h s = Some (p, s')"
  using assms read_header_total [OF assms(1)] by (auto simp: sc_demuxer_recv_packet_def net_recv_all_def Let_def)

lemma merge_total: "\<exists>ok m p'. sc_packet_merger_merge v alloc merger p = Some (ok, m, p')"
  by (cases merger) (auto simp: sc_packet_merger_merge_def mem_read_def mem_write_def Let_def)

locale demuxer_sinks = packet_stream_sink closed opened open_args
  for closed :: "(AVCodecContext, AVPacket, 's) packet_sink \<Rightarrow> bool"
    and opened :: "(AVCodecContext, AVPacket, 's) packet_sink \<Rightarrow> bool"
    and open_args :: "AVCodecContext \<Rightarrow> sc_stream_session option \<Rightarrow> bool"
begin

lemma demuxer_loop_ok:
  assumes "all_opened sinks" "sinks \<noteq> []"
  shows "\<exists>st sinks'. demuxer_loop e mm stream n m sinks = Some (st, sinks') \<and> all_opened sinks' \<and> sinks' \<noteq> []"
  using assms
proof (induction e mm stream n m sinks rule: demuxer_loop.induct)
  case (1 e mm stream n m sinks)
  obtain h s1 where h: "sc_demuxer_recv_header stream = Some (h, s1)" "\<forall>x. h = Some x \<longrightarrow> length x = 12"
    using recv_header_total by blast
  show ?case
  proof (cases h)
    case None
    with h 1 show ?thesis by (subst demuxer_loop.simps) simp
  next
    case (Some header)
    with h have len: "length header = 12" by simp
    then obtain b where b: "sc_demuxer_is_session header = Some b" using is_session_total by blast
    show ?thesis
    proof (cases b)
      case True
      with b len obtain ses where ses: "sc_demuxer_parse_session header = Some ses"
        using parse_session_total [of header] by auto
      obtain ok s2 where p: "sc_packet_source_sinks_push_session ses sinks = Some (ok, s2)" "all_opened s2" "s2 \<noteq> []"
        using source_push_session_ok [OF "1.prems"(2,1)] by blast
      show ?thesis
        using "1.IH"(1) [OF h(1) refl Some b True ses p(1) refl _ p(2,3)] h b True ses p Some
        by (subst demuxer_loop.simps) (cases ok; simp)
    next
      case False
      with b len obtain q s2 where q: "sc_demuxer_recv_packet (nopts e) (new_packet_ok e n) header s1 = Some (q, s2)"
        using recv_packet_total [of header "nopts e" "new_packet_ok e n" s1] by auto
      show ?thesis
      proof (cases q)
        case None
        with h b False q Some "1.prems" show ?thesis by (subst demuxer_loop.simps) simp
      next
        case q': (Some packet)
        obtain ok1 m1 p1 where m: "(if mm then sc_packet_merger_merge (nopts e) (merge_alloc e n) m packet
            else Some (True, m, packet)) = Some (ok1, m1, p1)"
          using merge_total [of "nopts e" "merge_alloc e n" m packet] by (cases mm) auto
        obtain ok s3 where p: "sc_packet_source_sinks_push p1 sinks = Some (ok, s3)" "all_opened s3" "s3 \<noteq> []"
          using source_push_ok [OF "1.prems"(2,1)] by blast
        show ?thesis
          using "1.IH"(2) [OF h(1) refl Some b False q refl q' m refl refl _ p(1) refl _ p(2,3)]
            h b False q q' m p Some "1.prems"
          by (subst demuxer_loop.simps) (cases ok1; cases ok; simp)
      qed
    qed
  qed
qed

lemma demuxer_stream_ok:
  assumes "all_closed sinks" "sinks \<noteq> []" "\<And>c. open2 e ctx = Some c \<Longrightarrow> open_args c session"
  shows "\<exists>st sinks'. demuxer_stream e raw ctx session stream sinks = Some (st, sinks') \<and> all_closed sinks' \<and> sinks' \<noteq> []"
proof (cases "open2 e ctx")
  case None
  with assms show ?thesis by (simp add: demuxer_stream_def)
next
  case (Some c)
  obtain ok s1 where o: "sc_packet_source_sinks_open c session sinks = Some (ok, s1)"
    "(if ok then all_opened else all_closed) s1" "s1 \<noteq> []"
    using source_open_ok [OF assms(2,1) assms(3) [OF Some]] by blast
  show ?thesis
  proof (cases ok)
    case False
    with Some o show ?thesis by (simp add: demuxer_stream_def)
  next
    case True
    let ?mm = "raw = SC_CODEC_ID_H264 \<or> raw = SC_CODEC_ID_H265"
    obtain st s2 where l: "(if \<not> packet_alloc e then Some (SC_DEMUXER_STATUS_ERROR, s1)
        else demuxer_loop e ?mm stream 0 sc_packet_merger_init s1) = Some (st, s2)" "all_opened s2" "s2 \<noteq> []"
      using demuxer_loop_ok [of s1 e ?mm stream 0 sc_packet_merger_init] o True
      by (cases "packet_alloc e") auto
    obtain s3 where "sc_packet_source_sinks_close s2 = Some s3" "all_closed s3" "s3 \<noteq> []"
      using source_close_ok [OF l(3,2)] by blast
    with Some o True l(1) show ?thesis by (simp add: demuxer_stream_def Let_def)
  qed
qed

lemma run_found_ok:
  assumes "all_closed sinks" "sinks \<noteq> []"
    and c: "sc_demuxer_recv_codec_id stream = Some (Some raw, s1)" "raw \<noteq> 0" "raw \<noteq> 1"
    and found: "sc_demuxer_to_avcodec_id (has_av1 e) raw \<noteq> AV_CODEC_ID_NONE"
      "find_decoder e (sc_demuxer_to_avcodec_id (has_av1 e) raw) = Some codec"
      "alloc_context3 e codec = Some ctx"
    and args: "\<And>session c. session_valid codec session \<Longrightarrow>
      open2 e (configured raw ctx session) = Some c \<Longrightarrow> open_args c session"
  shows "\<exists>st sinks'. run_demuxer e stream sinks = Some (st, sinks') \<and> all_closed sinks' \<and> sinks' \<noteq> []"
proof (cases "codec = AVMEDIA_TYPE_VIDEO")
  case False
  then have v: "session_valid codec None" by (simp add: session_valid_def)
  have "run_demuxer e stream sinks = demuxer_stream e raw (configured raw ctx None) None s1 sinks"
    using c found False by (simp add: run_demuxer_def configured_def Let_def)
  with demuxer_stream_ok [OF assms(1,2) args [OF v]] show ?thesis by simp
next
  case True
  obtain h s2 where h: "sc_demuxer_recv_header s1 = Some (h, s2)" "\<forall>x. h = Some x \<longrightarrow> length x = 12"
    using recv_header_total by blast
  show ?thesis
  proof (cases "\<exists>header ses. h = Some header \<and> sc_demuxer_is_session header = Some True \<and>
      sc_demuxer_parse_session header = Some ses \<and> ses_width ses \<noteq> 0 \<and> ses_height ses \<noteq> 0")
    case True
    then obtain header ses where ses: "h = Some header" "sc_demuxer_is_session header = Some True"
      "sc_demuxer_parse_session header = Some ses" "ses_width ses \<noteq> 0" "ses_height ses \<noteq> 0" by blast
    then have v: "session_valid codec (Some ses)"
      using \<open>codec = AVMEDIA_TYPE_VIDEO\<close> by (simp add: session_valid_def)
    have "run_demuxer e stream sinks = demuxer_stream e raw (configured raw ctx (Some ses)) (Some ses) s2 sinks"
      using c found ses h \<open>codec = AVMEDIA_TYPE_VIDEO\<close> by (simp add: run_demuxer_def configured_def Let_def)
    with demuxer_stream_ok [OF assms(1,2) args [OF v]] show ?thesis by simp
  next
    case False
    then have "run_demuxer e stream sinks = Some (SC_DEMUXER_STATUS_ERROR, sinks)"
      using c found h \<open>codec = AVMEDIA_TYPE_VIDEO\<close> is_session_total parse_session_total
      by (fastforce simp: run_demuxer_def split: option.splits)
    with assms show ?thesis by simp
  qed
qed

lemma run_demuxer_ok:
  assumes "all_closed sinks" "sinks \<noteq> []"
    and args: "\<And>raw rest codec ctx session c. sc_demuxer_recv_codec_id stream = Some (Some raw, rest) \<Longrightarrow>
      find_decoder e (sc_demuxer_to_avcodec_id (has_av1 e) raw) = Some codec \<Longrightarrow>
      alloc_context3 e codec = Some ctx \<Longrightarrow> session_valid codec session \<Longrightarrow>
      open2 e (configured raw ctx session) = Some c \<Longrightarrow> open_args c session"
  shows "\<exists>st sinks'. run_demuxer e stream sinks = Some (st, sinks') \<and> all_closed sinks' \<and> sinks' \<noteq> []"
proof -
  obtain s0 where disabled: "sc_packet_source_sinks_disable sinks = Some s0" "all_closed s0" "s0 \<noteq> []"
    using source_disable_ok [OF assms(2,1)] by blast
  obtain r s1 where c: "sc_demuxer_recv_codec_id stream = Some (r, s1)"
    using recv_codec_id_total by blast
  consider "r = None" | "r = Some 0" | "r = Some 1" | raw where "r = Some raw" "raw \<noteq> 0" "raw \<noteq> 1"
    by (cases r) auto
  then show ?thesis
  proof cases
    case 4
    let ?id = "sc_demuxer_to_avcodec_id (has_av1 e) raw"
    consider "?id = AV_CODEC_ID_NONE \<or> find_decoder e ?id = None"
      | codec where "?id \<noteq> AV_CODEC_ID_NONE" "find_decoder e ?id = Some codec" "alloc_context3 e codec = None"
      | codec ctx where "?id \<noteq> AV_CODEC_ID_NONE" "find_decoder e ?id = Some codec"
        "alloc_context3 e codec = Some ctx"
      by fastforce
    then show ?thesis
    proof cases
      case 3
      then show ?thesis
        by (intro run_found_ok [OF assms(1,2) c [unfolded 4(1)] 4(2,3) 3] args [OF c [unfolded 4(1)] 3(2,3)])
    qed (use c 4 disabled assms in \<open>auto simp: run_demuxer_def Let_def\<close>)
  qed (use c disabled assms in \<open>auto simp: run_demuxer_def\<close>)
qed

end

sublocale decoder_chain < dem: demuxer_sinks dec_closed dec_opened open_args
  by unfold_locales

section \<open>Demuxer, decoder and screen\<close>

text \<open>What FFmpeg documents of the two context functions.\<close>

definition ffmpeg_documented :: "demuxer_env \<Rightarrow> bool" where
  "ffmpeg_documented e \<longleftrightarrow> (\<forall>t c. alloc_context3 e t = Some c \<longrightarrow> codec_type c = t) \<and>
     (\<forall>c c'. open2 e c = Some c' \<longrightarrow> codec_type c' = codec_type c \<and> pix_fmt c' = pix_fmt c)"

type_synonym video_decoder = "sc_screen sc_decoder"

text \<open>The sinks of the video demuxer: decoders in front of screens, all closed.\<close>

definition pipeline_closed :: "screen_env \<Rightarrow> decoder_env \<Rightarrow> video_decoder packet_sinks \<Rightarrow> bool" where
  "pipeline_closed se de sinks \<longleftrightarrow> sinks \<noteq> [] \<and>
     (\<forall>i < length sinks. let d = snd (sinks ! i) in
        fst (sinks ! i) = decoder_sink_ops de \<and> \<not> dec_frame d \<and> frame_source d \<noteq> [] \<and>
        (\<forall>j < length (frame_source d). screen_closed se (frame_source d ! j)))"






text \<open>The other kind of stream stops the program: an audio codec id on the video socket reaches the
  assertion on the pixel format in \<^verbatim>\<open>sc_screen_frame_sink_open\<close>.\<close>

lemma audio_codec_aborts:
  assumes "pipeline_closed se de sinks" "dec_alloc de" "ffmpeg_documented e"
    "sc_demuxer_to_avcodec_id (has_av1 e) raw \<noteq> AV_CODEC_ID_NONE"
    "find_decoder e (sc_demuxer_to_avcodec_id (has_av1 e) raw) = Some AVMEDIA_TYPE_AUDIO"
    "alloc_context3 e AVMEDIA_TYPE_AUDIO = Some ctx" "pix_fmt ctx = AV_PIX_FMT_NONE"
    "open2 e (configured raw ctx None) = Some c"
  shows "run_demuxer e (be32 raw @ rest) sinks = None"
proof -
  obtain d ss where s: "sinks = (decoder_sink_ops de, d) # ss" "frame_source d \<noteq> []"
    "screen_closed se (frame_source d ! 0)"
    using assms(1) by (cases sinks) (force simp: pipeline_closed_def Let_def)+
  then obtain scr fs where f: "frame_source d = (screen_sink_ops se, scr) # fs"
    by (cases "frame_source d") (auto simp: screen_closed_def screen_base_def)
  have "pix_fmt c = AV_PIX_FMT_NONE"
    using assms(3,7,8) by (auto simp: ffmpeg_documented_def configured_def Let_def)
  then have "sc_decoder_open de c None d = None"
    using f assms(2) by (simp add: sc_decoder_open_def frame_source_defs sinks_open_loop.simps mem_get_def
        screen_sink_ops_def sc_screen_frame_sink_open_def)
  then have "sc_packet_source_sinks_open c None sinks = None"
    using s by (simp add: packet_source_defs sinks_open_loop.simps mem_get_def decoder_sink_ops_def)
  moreover have "session_valid AVMEDIA_TYPE_AUDIO None" by (simp add: session_valid_def)
  ultimately show ?thesis
    using run_to_stream [OF assms(4-6), of None rest sinks] assms(8) by (simp add: demuxer_stream_def)
qed

end
