(* ===== verification/Recorder.thy ===== *)
theory Recorder
  imports StrText Orientation
begin

text \<open>
  \<^verbatim>\<open>app/src/recorder.c\<close>: the packets of the video and audio streams are queued by the demuxer threads and written
  to a file by the recorder thread. The thread is cut at its critical sections; what happens between two of
  them is one step. Of a packet only the timestamp (\<open>None\<close> is \<^verbatim>\<open>AV_NOPTS_VALUE\<close>) and the payload matter; timestamps
  have 62 bits, so the 64-bit arithmetic on them does not overflow and they are integers here. The queues are
  ring buffers (theory \<open>Vecdeque\<close>), used through their contract: lists, where a push may fail for want of memory.
  The muxer of FFmpeg is the list of what it was given; \<open>rescale i\<close> is the conversion to the time base it chose for
  stream \<open>i\<close>.
\<close>

section \<open>State\<close>

datatype sc_record_format =
    SC_RECORD_FORMAT_AUTO | SC_RECORD_FORMAT_MP4 | SC_RECORD_FORMAT_MKV | SC_RECORD_FORMAT_M4A | SC_RECORD_FORMAT_MKA
  | SC_RECORD_FORMAT_OPUS | SC_RECORD_FORMAT_AAC | SC_RECORD_FORMAT_FLAC | SC_RECORD_FORMAT_WAV

record rec_packet =
  rp_pts :: "int option"
  rp_data :: byte_buf

record mux_packet =
  mux_pts :: int
  mux_dts :: int
  mux_duration :: "int option"
  mux_data :: byte_buf

datatype mux_op =
    Mux_header "int \<Rightarrow> byte_buf option"
  | Mux_packet int mux_packet
  | Mux_trailer

datatype ctx_state = Ctx_unset | Ctx_open | Ctx_freed

record sc_recorder_stream =
  st_index :: int
  st_last_pts :: "int option"

record sc_recorder =
  rec_audio :: bool
  rec_video :: bool
  rec_orientation :: u32
  rec_format :: sc_record_format
  rec_ctx :: ctx_state
  rec_nb_streams :: int
  rec_extradata :: "int \<Rightarrow> byte_buf option"
  rec_display_angle :: "u32 option"
  rec_stopped :: bool
  video_queue :: "rec_packet list"
  audio_queue :: "rec_packet list"
  video_init :: bool
  audio_init :: bool
  video_expects_config_packet :: bool
  audio_expects_config_packet :: bool
  video_stream :: sc_recorder_stream
  audio_stream :: sc_recorder_stream
  rec_file :: "mux_op list"

text \<open>What FFmpeg and the allocator answer during a step of the thread.\<close>

record rec_env =
  muxers :: "byte_buf list"
  ctx_alloc_ok :: bool
  url_ok :: bool
  avio_ok :: bool
  video_extradata_ok :: bool
  audio_extradata_ok :: bool
  header_ok :: bool
  write_video_ok :: bool
  write_audio_ok :: bool
  write_last_ok :: bool
  trailer_ok :: bool

section \<open>The output file\<close>

fun sc_recorder_get_format_name :: "sc_record_format \<Rightarrow> string option" where
  "sc_recorder_get_format_name SC_RECORD_FORMAT_MP4 = Some ''mp4''"
| "sc_recorder_get_format_name SC_RECORD_FORMAT_M4A = Some ''mp4''"
| "sc_recorder_get_format_name SC_RECORD_FORMAT_AAC = Some ''mp4''"
| "sc_recorder_get_format_name SC_RECORD_FORMAT_MKV = Some ''matroska''"
| "sc_recorder_get_format_name SC_RECORD_FORMAT_MKA = Some ''matroska''"
| "sc_recorder_get_format_name SC_RECORD_FORMAT_OPUS = Some ''opus''"
| "sc_recorder_get_format_name SC_RECORD_FORMAT_FLAC = Some ''flac''"
| "sc_recorder_get_format_name SC_RECORD_FORMAT_WAV = Some ''wav''"
| "sc_recorder_get_format_name SC_RECORD_FORMAT_AUTO = None"

definition find_muxer :: "byte_buf list \<Rightarrow> byte_buf \<Rightarrow> byte_buf option" where
  "find_muxer names name = List.find (\<lambda>n. sc_str_list_contains n 44 name) names"

definition sc_recorder_open_output_file :: "rec_env \<Rightarrow> sc_recorder \<Rightarrow> (bool \<times> sc_recorder) option" where
  "sc_recorder_open_output_file env r = do {
     name \<leftarrow> sc_recorder_get_format_name (rec_format r);
     if find_muxer (muxers env) (map of_char name) = None then Some (False, r)
     else if \<not> ctx_alloc_ok env then Some (False, r)
     else if \<not> url_ok env then Some (False, r\<lparr>rec_ctx := Ctx_freed\<rparr>)
     else if \<not> avio_ok env then Some (False, r\<lparr>rec_ctx := Ctx_freed\<rparr>)
     else Some (True, r\<lparr>rec_ctx := Ctx_open\<rparr>)
   }"

definition sc_recorder_close_output_file :: "sc_recorder \<Rightarrow> sc_recorder option" where
  "sc_recorder_close_output_file r = do { c_assert (rec_ctx r = Ctx_open); Some (r\<lparr>rec_ctx := Ctx_freed\<rparr>) }"

text \<open>\<^verbatim>\<open>ctx->streams[index]\<close>\<close>

definition stream_of :: "sc_recorder \<Rightarrow> sc_recorder_stream \<Rightarrow> int option" where
  "stream_of r st = do {
     c_assert (rec_ctx r = Ctx_open \<and> 0 \<le> st_index st \<and> st_index st < rec_nb_streams r);
     Some (st_index st)
   }"

definition sc_recorder_set_extradata :: "bool \<Rightarrow> int \<Rightarrow> rec_packet \<Rightarrow> sc_recorder \<Rightarrow> bool \<times> sc_recorder" where
  "sc_recorder_set_extradata alloc i p r =
     (if \<not> alloc then (False, r) else (True, r\<lparr>rec_extradata := (rec_extradata r)(i := Some (rp_data p))\<rparr>))"

text \<open>\<^verbatim>\<open>av_packet_rescale_ts\<close> converts a duration only when it is positive.\<close>

definition sc_recorder_rescale_packet :: "(int \<Rightarrow> int) \<Rightarrow> mux_packet \<Rightarrow> mux_packet" where
  "sc_recorder_rescale_packet rs p =
     p\<lparr>mux_pts := rs (mux_pts p), mux_dts := rs (mux_dts p), mux_duration := map_option (\<lambda>d. if 0 < d then rs d else d) (mux_duration p)\<rparr>"

definition sc_recorder_write_stream ::
  "(int \<Rightarrow> int \<Rightarrow> int) \<Rightarrow> bool \<Rightarrow> mux_packet \<Rightarrow> sc_recorder_stream \<Rightarrow> sc_recorder \<Rightarrow>
   (bool \<times> sc_recorder_stream \<times> sc_recorder) option" where
  "sc_recorder_write_stream rescale ok p st r = do {
     i \<leftarrow> stream_of r st;
     let p = sc_recorder_rescale_packet (rescale i) p;
     let (p, st) = (case st_last_pts st of
         Some l \<Rightarrow> if mux_pts p \<le> l then (p\<lparr>mux_pts := l + 1, mux_dts := l + 1\<rparr>, st\<lparr>st_last_pts := Some (l + 1)\<rparr>)
                   else (p, st\<lparr>st_last_pts := Some (mux_pts p)\<rparr>)
       | None \<Rightarrow> (p, st\<lparr>st_last_pts := Some (mux_pts p)\<rparr>));
     Some (ok, st, if ok then r\<lparr>rec_file := rec_file r @ [Mux_packet i p]\<rparr> else r)
   }"

definition sc_recorder_write_video ::
  "(int \<Rightarrow> int \<Rightarrow> int) \<Rightarrow> bool \<Rightarrow> mux_packet \<Rightarrow> sc_recorder \<Rightarrow> (bool \<times> sc_recorder) option" where
  "sc_recorder_write_video rescale ok p r = do {
     (ok, st, r) \<leftarrow> sc_recorder_write_stream rescale ok p (video_stream r) r;
     Some (ok, r\<lparr>video_stream := st\<rparr>)
   }"

definition sc_recorder_write_audio ::
  "(int \<Rightarrow> int \<Rightarrow> int) \<Rightarrow> bool \<Rightarrow> mux_packet \<Rightarrow> sc_recorder \<Rightarrow> (bool \<times> sc_recorder) option" where
  "sc_recorder_write_audio rescale ok p r = do {
     (ok, st, r) \<leftarrow> sc_recorder_write_stream rescale ok p (audio_stream r) r;
     Some (ok, r\<lparr>audio_stream := st\<rparr>)
   }"

section \<open>The header\<close>

definition sc_recorder_must_wait_for_config_packets :: "sc_recorder \<Rightarrow> bool" where
  "sc_recorder_must_wait_for_config_packets r \<longleftrightarrow>
     rec_video r \<and> video_expects_config_packet r \<and> video_queue r = [] \<or>
     rec_audio r \<and> audio_expects_config_packet r \<and> audio_queue r = []"

definition header_must_wait :: "sc_recorder \<Rightarrow> bool" where
  "header_must_wait r \<longleftrightarrow> \<not> rec_stopped r \<and>
     (rec_video r \<and> \<not> video_init r \<or> rec_audio r \<and> \<not> audio_init r \<or> sc_recorder_must_wait_for_config_packets r)"

text \<open>The rest of the critical section: \<open>Some None\<close> when there is nothing to record.\<close>

definition header_take :: "sc_recorder \<Rightarrow> ((rec_packet option \<times> rec_packet option) \<times> sc_recorder) option option" where
  "header_take r =
     (if rec_stopped r \<and> rec_video r \<and> video_queue r = [] then Some None
      else do {
        (video_pkt, r) \<leftarrow> (if video_expects_config_packet r \<and> video_queue r \<noteq> []
          then do { c_assert (rec_video r); Some (Some (hd (video_queue r)), r\<lparr>video_queue := tl (video_queue r)\<rparr>) }
          else Some (None, r));
        (audio_pkt, r) \<leftarrow> (if audio_expects_config_packet r \<and> audio_queue r \<noteq> []
          then do { c_assert (rec_audio r); Some (Some (hd (audio_queue r)), r\<lparr>audio_queue := tl (audio_queue r)\<rparr>) }
          else Some (None, r));
        Some (Some ((video_pkt, audio_pkt), r))
      })"

definition header_config ::
  "bool \<Rightarrow> rec_packet option \<Rightarrow> sc_recorder_stream \<Rightarrow> sc_recorder \<Rightarrow> (bool \<times> sc_recorder) option" where
  "header_config alloc pkt st r =
     (case pkt of
        None \<Rightarrow> Some (True, r)
      | Some p \<Rightarrow>
          if rp_pts p \<noteq> None then Some (False, r)
          else do {
            c_assert (st_index st \<ge> 0);
            i \<leftarrow> stream_of r st;
            Some (sc_recorder_set_extradata alloc i p r)
          })"

definition header_write ::
  "rec_env \<Rightarrow> rec_packet option \<Rightarrow> rec_packet option \<Rightarrow> sc_recorder \<Rightarrow> (bool \<times> sc_recorder) option" where
  "header_write env video_pkt audio_pkt r = do {
     (ok, r) \<leftarrow> header_config (video_extradata_ok env) video_pkt (video_stream r) r;
     if \<not> ok then Some (False, r)
     else do {
       (ok, r) \<leftarrow> header_config (audio_extradata_ok env) audio_pkt (audio_stream r) r;
       if \<not> ok then Some (False, r)
       else do {
         c_assert (rec_ctx r = Ctx_open);
         if \<not> header_ok env then Some (False, r)
         else Some (True, r\<lparr>rec_file := rec_file r @ [Mux_header (rec_extradata r)]\<rparr>)
       }
     }
   }"

section \<open>The packets\<close>

record rec_locals =
  pts_origin :: "int option"
  video_pkt :: "rec_packet option"
  audio_pkt :: "rec_packet option"
  video_pkt_previous :: "rec_packet option"

definition packets_must_wait :: "rec_locals \<Rightarrow> sc_recorder \<Rightarrow> bool" where
  "packets_must_wait l r \<longleftrightarrow> \<not> rec_stopped r \<and>
     \<not> (rec_video r \<and> video_pkt l = None \<and> video_queue r \<noteq> []) \<and>
     \<not> (rec_audio r \<and> audio_pkt l = None \<and> audio_queue r \<noteq> [])"

text \<open>The critical section: the boolean says that the loop ends.\<close>

definition packets_take :: "rec_locals \<Rightarrow> sc_recorder \<Rightarrow> (bool \<times> rec_locals \<times> sc_recorder) option" where
  "packets_take l r = do {
     c_assert (rec_video r \<or> video_pkt l = None \<and> video_queue r = []);
     c_assert (rec_audio r \<or> audio_pkt l = None \<and> audio_queue r = []);
     let (l, r) = (if video_pkt l = None \<and> video_queue r \<noteq> []
        then (l\<lparr>video_pkt := Some (hd (video_queue r))\<rparr>, r\<lparr>video_queue := tl (video_queue r)\<rparr>) else (l, r));
     let (l, r) = (if audio_pkt l = None \<and> audio_queue r \<noteq> []
        then (l\<lparr>audio_pkt := Some (hd (audio_queue r))\<rparr>, r\<lparr>audio_queue := tl (audio_queue r)\<rparr>) else (l, r));
     if rec_stopped r \<and> video_pkt l = None \<and> audio_pkt l = None then do {
       c_assert (video_queue r = []);
       c_assert (audio_queue r = []);
       Some (True, l, r)
     }
     else do {
       c_assert (video_pkt l \<noteq> None \<or> audio_pkt l \<noteq> None);
       Some (False, l, r)
     }
   }"

definition drop_config :: "rec_packet option \<Rightarrow> rec_packet option" where
  "drop_config p = (case p of Some q \<Rightarrow> if rp_pts q = None then None else p | None \<Rightarrow> None)"

definition pts_of :: "rec_packet \<Rightarrow> int" where
  "pts_of p = the (rp_pts p)"

text \<open>The choice of the origin: \<open>Inl True\<close> is the failure without video, \<open>Inl False\<close> is \<^verbatim>\<open>continue\<close>.\<close>

definition choose_origin :: "rec_locals \<Rightarrow> sc_recorder \<Rightarrow> bool + int" where
  "choose_origin l r =
     (case pts_origin l of
        Some t \<Rightarrow> Inr t
      | None \<Rightarrow>
          if \<not> rec_audio r \<and> video_pkt l \<noteq> None then Inr (pts_of (the (video_pkt l)))
          else if \<not> rec_video r \<and> audio_pkt l \<noteq> None then Inr (pts_of (the (audio_pkt l)))
          else if rec_video r \<and> rec_audio r \<and> video_pkt l \<noteq> None \<and> audio_pkt l \<noteq> None
          then Inr (min (pts_of (the (video_pkt l))) (pts_of (the (audio_pkt l))))
          else if rec_stopped r then (if video_pkt l \<noteq> None then Inr (pts_of (the (video_pkt l))) else Inl True)
          else Inl False)"

definition shifted :: "int \<Rightarrow> rec_packet \<Rightarrow> rec_packet" where
  "shifted origin p = p\<lparr>rp_pts := Some (pts_of p - origin)\<rparr>"

definition to_mux :: "int option \<Rightarrow> rec_packet \<Rightarrow> mux_packet" where
  "to_mux duration p = \<lparr>mux_pts = pts_of p, mux_dts = pts_of p, mux_duration = duration, mux_data = rp_data p\<rparr>"

text \<open>The two writes; the boolean is \<^verbatim>\<open>!error\<close>.\<close>

definition record_video ::
  "(int \<Rightarrow> int \<Rightarrow> int) \<Rightarrow> rec_env \<Rightarrow> int \<Rightarrow> rec_locals \<Rightarrow> sc_recorder \<Rightarrow> (bool \<times> rec_locals \<times> sc_recorder) option" where
  "record_video rescale env origin l r =
     (case video_pkt l of
        None \<Rightarrow> Some (True, l, r)
      | Some v \<Rightarrow>
          let v = shifted origin v in
          (case video_pkt_previous l of
             None \<Rightarrow> Some (True, l\<lparr>video_pkt_previous := Some v, video_pkt := None\<rparr>, r)
           | Some p \<Rightarrow> do {
               (ok, r) \<leftarrow> sc_recorder_write_video rescale (write_video_ok env) (to_mux (Some (pts_of v - pts_of p)) p) r;
               if \<not> ok then Some (False, l\<lparr>video_pkt := Some v, video_pkt_previous := None\<rparr>, r)
               else Some (True, l\<lparr>video_pkt_previous := Some v, video_pkt := None\<rparr>, r)
             }))"

definition record_audio ::
  "(int \<Rightarrow> int \<Rightarrow> int) \<Rightarrow> rec_env \<Rightarrow> int \<Rightarrow> rec_locals \<Rightarrow> sc_recorder \<Rightarrow> (bool \<times> rec_locals \<times> sc_recorder) option" where
  "record_audio rescale env origin l r =
     (case audio_pkt l of
        None \<Rightarrow> Some (True, l, r)
      | Some a \<Rightarrow> do {
          let a = shifted origin a;
          (ok, r) \<leftarrow> sc_recorder_write_audio rescale (write_audio_ok env) (to_mux None a) r;
          if \<not> ok then Some (False, l\<lparr>audio_pkt := Some a\<rparr>, r)
          else Some (True, l\<lparr>audio_pkt := None\<rparr>, r)
        })"

definition packets_record ::
  "(int \<Rightarrow> int \<Rightarrow> int) \<Rightarrow> rec_env \<Rightarrow> rec_locals \<Rightarrow> sc_recorder \<Rightarrow> (bool \<times> rec_locals \<times> sc_recorder) option" where
  "packets_record rescale env l r =
     (let l = l\<lparr>video_pkt := drop_config (video_pkt l), audio_pkt := drop_config (audio_pkt l)\<rparr> in
      case choose_origin l r of
        Inl failed \<Rightarrow> Some (\<not> failed, l, r)
      | Inr origin \<Rightarrow> do {
          let l = l\<lparr>pts_origin := Some origin\<rparr>;
          (ok, l, r) \<leftarrow> record_video rescale env origin l r;
          if \<not> ok then Some (False, l, r) else record_audio rescale env origin l r
        })"

definition LAST_DURATION :: int where "LAST_DURATION = 100000"

definition packets_finish ::
  "(int \<Rightarrow> int \<Rightarrow> int) \<Rightarrow> rec_env \<Rightarrow> rec_locals \<Rightarrow> sc_recorder \<Rightarrow> (bool \<times> sc_recorder) option" where
  "packets_finish rescale env l r = do {
     r \<leftarrow> (case video_pkt_previous l of
        None \<Rightarrow> Some r
      | Some p \<Rightarrow> do {
          (ok, r) \<leftarrow> sc_recorder_write_video rescale (write_last_ok env) (to_mux (Some LAST_DURATION) p) r;
          Some r
        });
     c_assert (rec_ctx r = Ctx_open);
     Some (trailer_ok env, if trailer_ok env then r\<lparr>rec_file := rec_file r @ [Mux_trailer]\<rparr> else r)
   }"

section \<open>The recorder thread\<close>

text \<open>Where the thread is between two steps.\<close>

datatype rec_thread =
    At_open
  | At_header
  | At_header_write "rec_packet option" "rec_packet option"
  | At_packets rec_locals
  | At_record rec_locals
  | At_finish rec_locals
  | At_close bool
  | At_discard bool
  | At_ended bool

fun run_recorder ::
  "(int \<Rightarrow> int \<Rightarrow> int) \<Rightarrow> rec_env \<Rightarrow> rec_thread \<Rightarrow> sc_recorder \<Rightarrow> (rec_thread \<times> sc_recorder) option" where
  "run_recorder rescale env At_open r = do {
     (ok, r) \<leftarrow> sc_recorder_open_output_file env r;
     Some (if ok then At_header else At_discard False, r)
   }"
| "run_recorder rescale env At_header r =
     (if header_must_wait r then Some (At_header, r)
      else do {
        taken \<leftarrow> header_take r;
        (case taken of
           None \<Rightarrow> Some (At_close False, r)
         | Some ((vp, ap), r) \<Rightarrow> Some (At_header_write vp ap, r))
      })"
| "run_recorder rescale env (At_header_write vp ap) r = do {
     (ok, r) \<leftarrow> header_write env vp ap r;
     Some (if ok then At_packets \<lparr>pts_origin = None, video_pkt = None, audio_pkt = None, video_pkt_previous = None\<rparr>
           else At_close False, r)
   }"
| "run_recorder rescale env (At_packets l) r =
     (if packets_must_wait l r then Some (At_packets l, r)
      else do {
        (over, l, r) \<leftarrow> packets_take l r;
        Some (if over then At_finish l else At_record l, r)
      })"
| "run_recorder rescale env (At_record l) r = do {
     (ok, l, r) \<leftarrow> packets_record rescale env l r;
     Some (if ok then At_packets l else At_close False, r)
   }"
| "run_recorder rescale env (At_finish l) r = do {
     (ok, r) \<leftarrow> packets_finish rescale env l r;
     Some (At_close ok, r)
   }"
| "run_recorder rescale env (At_close ok) r = do { r \<leftarrow> sc_recorder_close_output_file r; Some (At_discard ok, r) }"
| "run_recorder rescale env (At_discard ok) r =
     Some (At_ended ok, r\<lparr>rec_stopped := True, video_queue := [], audio_queue := []\<rparr>)"
| "run_recorder rescale env (At_ended ok) r = Some (At_ended ok, r)"

section \<open>The packet sinks\<close>

text \<open>What FFmpeg answers when a stream is added.\<close>

record stream_env =
  new_stream_ok :: bool
  parameters_ok :: bool
  side_data_ok :: bool

definition sc_recorder_packet_ref :: "bool \<Rightarrow> bool \<Rightarrow> rec_packet \<Rightarrow> rec_packet option" where
  "sc_recorder_packet_ref alloc ref_ok p = (if \<not> alloc then None else if \<not> ref_ok then None else Some p)"

definition sc_recorder_set_orientation :: "bool \<Rightarrow> u32 \<Rightarrow> sc_recorder \<Rightarrow> (bool \<times> sc_recorder) option" where
  "sc_recorder_set_orientation ok orientation r = do {
     mirror \<leftarrow> sc_orientation_is_mirror orientation;
     c_assert (\<not> mirror);
     if \<not> ok then Some (False, r) else Some (True, r\<lparr>rec_display_angle := Some (orientation * 90)\<rparr>)
   }"

text \<open>\<^verbatim>\<open>avformat_new_stream\<close>, which needs the context, and the copy of the parameters: the index of the stream.\<close>

definition new_stream :: "stream_env \<Rightarrow> sc_recorder \<Rightarrow> (int option \<times> sc_recorder) option" where
  "new_stream e r = do {
     c_assert (rec_ctx r = Ctx_open);
     if \<not> new_stream_ok e then Some (None, r)
     else Some (if parameters_ok e then Some (rec_nb_streams r) else None, r\<lparr>rec_nb_streams := rec_nb_streams r + 1\<rparr>)
   }"

definition sc_recorder_video_packet_sink_open ::
  "stream_env \<Rightarrow> bool \<Rightarrow> sc_recorder \<Rightarrow> (bool \<times> sc_recorder) option" where
  "sc_recorder_video_packet_sink_open e vpx r = do {
     c_assert (\<not> video_init r);
     if rec_stopped r then Some (False, r)
     else do {
       (i, r) \<leftarrow> new_stream e r;
       (case i of
          None \<Rightarrow> Some (False, r)
        | Some i \<Rightarrow> do {
            let r = r\<lparr>video_stream := (video_stream r)\<lparr>st_index := i\<rparr>\<rparr>;
            (ok, r) \<leftarrow> (if rec_orientation r \<noteq> SC_ORIENTATION_0
               then sc_recorder_set_orientation (side_data_ok e) (rec_orientation r) r else Some (True, r));
            if \<not> ok then Some (False, r)
            else Some (True, r\<lparr>video_expects_config_packet := \<not> vpx, video_init := True\<rparr>)
          })
     }
   }"

definition sc_recorder_video_packet_sink_close :: "sc_recorder \<Rightarrow> sc_recorder option" where
  "sc_recorder_video_packet_sink_close r = do { c_assert (video_init r); Some (r\<lparr>rec_stopped := True\<rparr>) }"

definition sc_recorder_video_packet_sink_push ::
  "bool \<Rightarrow> bool \<Rightarrow> bool \<Rightarrow> rec_packet \<Rightarrow> sc_recorder \<Rightarrow> (bool \<times> sc_recorder) option" where
  "sc_recorder_video_packet_sink_push alloc ref_ok push_ok p r = do {
     c_assert (video_init r);
     if rec_stopped r then Some (False, r)
     else case sc_recorder_packet_ref alloc ref_ok p of
       None \<Rightarrow> Some (False, r)
     | Some q \<Rightarrow> if \<not> push_ok then Some (False, r) else Some (True, r\<lparr>video_queue := video_queue r @ [q]\<rparr>)
   }"

definition sc_recorder_audio_packet_sink_open ::
  "stream_env \<Rightarrow> bool \<Rightarrow> sc_recorder \<Rightarrow> (bool \<times> sc_recorder) option" where
  "sc_recorder_audio_packet_sink_open e pcm r = do {
     c_assert (rec_audio r);
     c_assert (\<not> audio_init r);
     (i, r) \<leftarrow> new_stream e r;
     (case i of
        None \<Rightarrow> Some (False, r)
      | Some i \<Rightarrow>
          Some (True, r\<lparr>audio_stream := (audio_stream r)\<lparr>st_index := i\<rparr>,
                        audio_expects_config_packet := \<not> pcm, audio_init := True\<rparr>))
   }"

definition sc_recorder_audio_packet_sink_close :: "sc_recorder \<Rightarrow> sc_recorder option" where
  "sc_recorder_audio_packet_sink_close r = do {
     c_assert (rec_audio r);
     c_assert (audio_init r);
     Some (r\<lparr>rec_stopped := True\<rparr>)
   }"

definition sc_recorder_audio_packet_sink_push ::
  "bool \<Rightarrow> bool \<Rightarrow> bool \<Rightarrow> rec_packet \<Rightarrow> sc_recorder \<Rightarrow> (bool \<times> sc_recorder) option" where
  "sc_recorder_audio_packet_sink_push alloc ref_ok push_ok p r = do {
     c_assert (rec_audio r);
     c_assert (audio_init r);
     if rec_stopped r then Some (False, r)
     else case sc_recorder_packet_ref alloc ref_ok p of
       None \<Rightarrow> Some (False, r)
     | Some q \<Rightarrow> if \<not> push_ok then Some (False, r) else Some (True, r\<lparr>audio_queue := audio_queue r @ [q]\<rparr>)
   }"

definition sc_recorder_audio_packet_sink_disable :: "sc_recorder \<Rightarrow> sc_recorder option" where
  "sc_recorder_audio_packet_sink_disable r = do {
     c_assert (rec_audio r);
     c_assert (\<not> audio_init r);
     Some (r\<lparr>rec_audio := False, audio_init := True\<rparr>)
   }"

section \<open>Creation\<close>

definition sc_recorder_stream_init :: sc_recorder_stream where
  "sc_recorder_stream_init = \<lparr>st_index = - 1, st_last_pts = None\<rparr>"

text \<open>The inner \<open>None\<close> is the result \<^verbatim>\<open>false\<close>.\<close>

definition sc_recorder_init ::
  "bool \<Rightarrow> bool \<Rightarrow> bool \<Rightarrow> sc_record_format \<Rightarrow> bool \<Rightarrow> bool \<Rightarrow> u32 \<Rightarrow> sc_recorder option option" where
  "sc_recorder_init dup_ok mutex_ok cond_ok format video audio orientation = do {
     mirror \<leftarrow> sc_orientation_is_mirror orientation;
     c_assert (\<not> mirror);
     if \<not> dup_ok \<or> \<not> mutex_ok \<or> \<not> cond_ok then Some None
     else do {
       c_assert (video \<or> audio);
       Some (Some \<lparr>rec_audio = audio, rec_video = video, rec_orientation = orientation, rec_format = format,
         rec_ctx = Ctx_unset, rec_nb_streams = 0, rec_extradata = (\<lambda>i. None), rec_display_angle = None,
         rec_stopped = False, video_queue = [], audio_queue = [], video_init = False, audio_init = False,
         video_expects_config_packet = False, audio_expects_config_packet = False,
         video_stream = sc_recorder_stream_init, audio_stream = sc_recorder_stream_init, rec_file = []\<rparr>)
     }
   }"

definition sc_recorder_stop :: "sc_recorder \<Rightarrow> sc_recorder" where
  "sc_recorder_stop r = r\<lparr>rec_stopped := True\<rparr>"

end
