(* ===== verification/Recording.thy ===== *)
theory Recording
  imports Recorder
begin

text \<open>
  The recorder with the threads that use it: the demuxers, which open, feed and close its two sinks, the main
  thread, which stops it, and its own thread, interleaved in any order. The recorder fails
  exactly when a sink is opened without the output file, and a recording that ends well contains exactly the packets accepted.
\<close>

section \<open>What the file must contain\<close>

definition media_packets :: "rec_packet list \<Rightarrow> rec_packet list" where
  "media_packets ps = filter (\<lambda>p. rp_pts p \<noteq> None) ps"

text \<open>The video packets relative to an origin, each with the time until the next; the last one is left out.\<close>

fun timed :: "int \<Rightarrow> rec_packet list \<Rightarrow> mux_packet list" where
  "timed t (p # q # ps) = to_mux (Some (pts_of q - pts_of p)) (shifted t p) # timed t (q # ps)"
| "timed t ps = []"

definition timed_last :: "int \<Rightarrow> rec_packet list \<Rightarrow> mux_packet list" where
  "timed_last t ps = (if ps = [] then [] else [to_mux (Some LAST_DURATION) (shifted t (last ps))])"

definition timed_audio :: "int \<Rightarrow> rec_packet list \<Rightarrow> mux_packet list" where
  "timed_audio t ps = map (to_mux None \<circ> shifted t) ps"

text \<open>The timestamps in the time base of the stream, made strictly increasing.\<close>

definition restamp :: "(int \<Rightarrow> int) \<Rightarrow> int option \<Rightarrow> mux_packet \<Rightarrow> mux_packet" where
  "restamp rs prev p =
     (let q = sc_recorder_rescale_packet rs p in
      case prev of
        Some l \<Rightarrow> if mux_pts q \<le> l then q\<lparr>mux_pts := l + 1, mux_dts := l + 1\<rparr> else q
      | None \<Rightarrow> q)"

fun stamp :: "(int \<Rightarrow> int) \<Rightarrow> int option \<Rightarrow> mux_packet list \<Rightarrow> mux_packet list" where
  "stamp rs prev [] = []"
| "stamp rs prev (p # ps) = restamp rs prev p # stamp rs (Some (mux_pts (restamp rs prev p))) ps"

definition last_stamp :: "(int \<Rightarrow> int) \<Rightarrow> mux_packet list \<Rightarrow> int option" where
  "last_stamp rs ps = (if ps = [] then None else Some (mux_pts (last (stamp rs None ps))))"

definition written :: "int \<Rightarrow> mux_op list \<Rightarrow> mux_packet list" where
  "written i ops = concat (map (\<lambda>x. case x of Mux_packet j p \<Rightarrow> if j = i then [p] else [] | _ \<Rightarrow> []) ops)"

lemma written_simps [simp]:
  "written i [] = []" "written i (xs @ ys) = written i xs @ written i ys" "written i (Mux_header x # xs) = written i xs"
  "written i (Mux_packet j p # xs) = (if j = i then p # written i xs else written i xs)"
  "written i (Mux_trailer # xs) = written i xs"
  by (simp_all add: written_def)

lemma media_simps [simp]:
  "media_packets [] = []" "media_packets (xs @ ys) = media_packets xs @ media_packets ys"
  "media_packets (p # ps) = (if rp_pts p = None then media_packets ps else p # media_packets ps)"
  by (simp_all add: media_packets_def)

lemma timed_snoc:
  "timed t (ps @ [p, q]) = timed t (ps @ [p]) @ [to_mux (Some (pts_of q - pts_of p)) (shifted t p)]"
  by (induction t ps rule: timed.induct) simp_all

lemma timed_audio_snoc: "timed_audio t (ps @ [p]) = timed_audio t ps @ [to_mux None (shifted t p)]"
  by (simp add: timed_audio_def)

lemma stamp_Nil_iff: "stamp rs prev ps = [] \<longleftrightarrow> ps = []"
  by (cases ps) simp_all

lemma stamp_snoc:
  "stamp rs prev (ps @ [p]) =
     stamp rs prev ps @ [restamp rs (if ps = [] then prev else Some (mux_pts (last (stamp rs prev ps)))) p]"
  by (induction rs prev ps rule: stamp.induct) (auto simp: stamp_Nil_iff)

lemma stamp_snoc_last: "stamp rs None (ps @ [p]) = stamp rs None ps @ [restamp rs (last_stamp rs ps) p]"
  by (simp add: stamp_snoc last_stamp_def)

lemma last_stamp_snoc: "last_stamp rs (ps @ [p]) = Some (mux_pts (restamp rs (last_stamp rs ps) p))"
  by (simp add: last_stamp_def stamp_snoc)

lemma restamp_above: "l < mux_pts (restamp rs (Some l) p)"
  by (simp add: restamp_def Let_def)

lemma stamp_increasing:
  "sorted_wrt (<) (map mux_pts (stamp rs prev ps)) \<and> (\<forall>l. prev = Some l \<longrightarrow> (\<forall>q \<in> set (stamp rs prev ps). l < mux_pts q))"
proof (induction rs prev ps rule: stamp.induct)
  case (2 rs prev p ps)
  let ?q = "restamp rs prev p"
  have a: "mux_pts ?q < mux_pts q" if "q \<in> set (stamp rs (Some (mux_pts ?q)) ps)" for q using 2 that by blast
  have b: "l < mux_pts ?q" if "prev = Some l" for l using that restamp_above by blast
  show ?case using 2 a b by (fastforce intro: less_trans)
qed simp

text \<open>Timestamps that increase already are only rescaled.\<close>

lemma stamp_exact:
  "sorted_wrt (<) (map (\<lambda>p. rs (mux_pts p)) ps) \<Longrightarrow> (\<forall>l p. prev = Some l \<longrightarrow> p \<in> set ps \<longrightarrow> l < rs (mux_pts p)) \<Longrightarrow>
   stamp rs prev ps = map (sc_recorder_rescale_packet rs) ps"
proof (induction rs prev ps rule: stamp.induct)
  case (2 rs prev p ps)
  have "restamp rs prev p = sc_recorder_rescale_packet rs p"
    using 2(3) by (auto simp: restamp_def Let_def sc_recorder_rescale_packet_def split: option.splits)
  then show ?case using 2 by (simp add: sc_recorder_rescale_packet_def)
qed simp

section \<open>The system\<close>

datatype sink_state = Sink_none | Sink_open | Sink_closed

record rec_system =
  sys_rec :: sc_recorder
  sys_thread :: rec_thread
  vsink :: sink_state
  asink :: sink_state
  accepted_video :: "rec_packet list"
  accepted_audio :: "rec_packet list"

datatype rec_event =
    Video_open stream_env bool
  | Video_push bool bool bool rec_packet
  | Video_close
  | Audio_open stream_env bool
  | Audio_push bool bool bool rec_packet
  | Audio_close
  | Audio_disable
  | Stop_request
  | Thread_step rec_env

fun rec_step :: "(int \<Rightarrow> int \<Rightarrow> int) \<Rightarrow> rec_event \<Rightarrow> rec_system \<Rightarrow> rec_system option" where
  "rec_step rescale (Video_open e vpx) y = do {
     (ok, r) \<leftarrow> sc_recorder_video_packet_sink_open e vpx (sys_rec y);
     Some (y\<lparr>sys_rec := r, vsink := if ok then Sink_open else Sink_closed\<rparr>)
   }"
| "rec_step rescale (Video_push alloc ref_ok push_ok p) y = do {
     (ok, r) \<leftarrow> sc_recorder_video_packet_sink_push alloc ref_ok push_ok p (sys_rec y);
     Some (y\<lparr>sys_rec := r, accepted_video := accepted_video y @ (if ok then [p] else [])\<rparr>)
   }"
| "rec_step rescale Video_close y = do {
     r \<leftarrow> sc_recorder_video_packet_sink_close (sys_rec y);
     Some (y\<lparr>sys_rec := r, vsink := Sink_closed\<rparr>)
   }"
| "rec_step rescale (Audio_open e pcm) y = do {
     (ok, r) \<leftarrow> sc_recorder_audio_packet_sink_open e pcm (sys_rec y);
     Some (y\<lparr>sys_rec := r, asink := if ok then Sink_open else Sink_closed\<rparr>)
   }"
| "rec_step rescale (Audio_push alloc ref_ok push_ok p) y = do {
     (ok, r) \<leftarrow> sc_recorder_audio_packet_sink_push alloc ref_ok push_ok p (sys_rec y);
     Some (y\<lparr>sys_rec := r, accepted_audio := accepted_audio y @ (if ok then [p] else [])\<rparr>)
   }"
| "rec_step rescale Audio_close y = do {
     r \<leftarrow> sc_recorder_audio_packet_sink_close (sys_rec y);
     Some (y\<lparr>sys_rec := r, asink := Sink_closed\<rparr>)
   }"
| "rec_step rescale Audio_disable y = do {
     r \<leftarrow> sc_recorder_audio_packet_sink_disable (sys_rec y);
     Some (y\<lparr>sys_rec := r, asink := Sink_closed\<rparr>)
   }"
| "rec_step rescale Stop_request y = Some (y\<lparr>sys_rec := sc_recorder_stop (sys_rec y)\<rparr>)"
| "rec_step rescale (Thread_step env) y = do {
     (th, r) \<leftarrow> run_recorder rescale env (sys_thread y) (sys_rec y);
     Some (y\<lparr>sys_rec := r, sys_thread := th\<rparr>)
   }"

text \<open>How a packet source uses its sinks: it opens a sink once, pushes to it and closes it while it is open, and
  disables only a sink that was not opened. When it opens them is not restricted.\<close>

fun rec_valid :: "rec_event \<Rightarrow> rec_system \<Rightarrow> bool" where
  "rec_valid (Video_open e vpx) y \<longleftrightarrow> vsink y = Sink_none \<and> rec_video (sys_rec y)"
| "rec_valid (Video_push _ _ _ _) y \<longleftrightarrow> vsink y = Sink_open"
| "rec_valid Video_close y \<longleftrightarrow> vsink y = Sink_open"
| "rec_valid (Audio_open e pcm) y \<longleftrightarrow> asink y = Sink_none \<and> rec_audio (sys_rec y)"
| "rec_valid (Audio_push _ _ _ _) y \<longleftrightarrow> asink y = Sink_open"
| "rec_valid Audio_close y \<longleftrightarrow> asink y = Sink_open"
| "rec_valid Audio_disable y \<longleftrightarrow> asink y = Sink_none \<and> rec_audio (sys_rec y)"
| "rec_valid Stop_request y \<longleftrightarrow> True"
| "rec_valid (Thread_step env) y \<longleftrightarrow> True"

text \<open>A sink is opened while the recorder thread has not opened the output file yet, or has given it up; the video sink
  looks whether the recorder stopped.\<close>

fun opens_without_file :: "rec_event \<Rightarrow> rec_system \<Rightarrow> bool" where
  "opens_without_file (Video_open e vpx) y \<longleftrightarrow> rec_ctx (sys_rec y) \<noteq> Ctx_open \<and> \<not> rec_stopped (sys_rec y)"
| "opens_without_file (Audio_open e pcm) y \<longleftrightarrow> rec_ctx (sys_rec y) \<noteq> Ctx_open"
| "opens_without_file _ y \<longleftrightarrow> False"

definition rec_initial :: "sc_recorder \<Rightarrow> rec_system" where
  "rec_initial r = \<lparr>sys_rec = r, sys_thread = At_open, vsink = Sink_none, asink = Sink_none,
     accepted_video = [], accepted_audio = []\<rparr>"

inductive rec_reach :: "(int \<Rightarrow> int \<Rightarrow> int) \<Rightarrow> rec_system \<Rightarrow> rec_system \<Rightarrow> bool" for rescale y0 where
  start: "rec_reach rescale y0 y0"
| step: "rec_reach rescale y0 y \<Longrightarrow> rec_valid ev y \<Longrightarrow> rec_step rescale ev y = Some y' \<Longrightarrow> rec_reach rescale y0 y'"

section \<open>The invariant\<close>

text \<open>The streams and sinks agree.\<close>

definition video_ok :: "rec_system \<Rightarrow> bool" where
  "video_ok y \<longleftrightarrow> (let r = sys_rec y; i = st_index (video_stream r) in
     (vsink y = Sink_open \<longrightarrow> video_init r) \<and> (video_init r \<longrightarrow> rec_video r \<and> 0 \<le> i) \<and> i < rec_nb_streams r \<and>
     (vsink y = Sink_none \<longrightarrow> \<not> video_init r \<and> i = - 1) \<and>
     (video_queue r \<noteq> [] \<longrightarrow> accepted_video y \<noteq> []) \<and>
     (video_expects_config_packet r \<or> accepted_video y \<noteq> [] \<longrightarrow> video_init r))"

definition audio_ok :: "rec_system \<Rightarrow> bool" where
  "audio_ok y \<longleftrightarrow> (let r = sys_rec y; i = st_index (audio_stream r) in
     (asink y = Sink_open \<longrightarrow> audio_init r \<and> rec_audio r) \<and> (audio_init r \<and> rec_audio r \<longrightarrow> 0 \<le> i) \<and> i < rec_nb_streams r \<and>
     (asink y = Sink_none \<longrightarrow> \<not> audio_init r \<and> i = - 1) \<and>
     (audio_queue r \<noteq> [] \<longrightarrow> accepted_audio y \<noteq> []) \<and>
     (audio_expects_config_packet r \<or> accepted_audio y \<noteq> [] \<longrightarrow> audio_init r \<and> rec_audio r))"

definition streams_ok :: "sc_recorder \<Rightarrow> bool" where
  "streams_ok r \<longleftrightarrow> rec_format r \<noteq> SC_RECORD_FORMAT_AUTO \<and> sc_orientation_is_mirror (rec_orientation r) = Some False \<and>
     0 \<le> rec_nb_streams r \<and>
     (st_index (video_stream r) = st_index (audio_stream r) \<longrightarrow> st_index (video_stream r) = - 1) \<and>
     (\<forall>j p. Mux_packet j p \<in> set (rec_file r) \<longrightarrow> 0 \<le> j \<and> j < rec_nb_streams r)"

definition option_list :: "'a option \<Rightarrow> 'a list" where
  "option_list x = (case x of None \<Rightarrow> [] | Some a \<Rightarrow> [a])"

text \<open>What is in the file, for a sequence of packets given to each stream.\<close>

definition file_is :: "(int \<Rightarrow> int \<Rightarrow> int) \<Rightarrow> sc_recorder \<Rightarrow> mux_packet list \<Rightarrow> mux_packet list \<Rightarrow> bool" where
  "file_is rescale r vs as \<longleftrightarrow>
     (let i = st_index (video_stream r); j = st_index (audio_stream r) in
      written i (rec_file r) = stamp (rescale i) None vs \<and> written j (rec_file r) = stamp (rescale j) None as)"

definition stamps_are :: "(int \<Rightarrow> int \<Rightarrow> int) \<Rightarrow> sc_recorder \<Rightarrow> mux_packet list \<Rightarrow> mux_packet list \<Rightarrow> bool" where
  "stamps_are rescale r vs as \<longleftrightarrow>
     st_last_pts (video_stream r) = last_stamp (rescale (st_index (video_stream r))) vs \<and>
     st_last_pts (audio_stream r) = last_stamp (rescale (st_index (audio_stream r))) as"

text \<open>The state of the loop: \<open>pv\<close> and \<open>pa\<close> are the packets processed.\<close>

definition origin_of :: "rec_locals \<Rightarrow> int" where
  "origin_of l = (case pts_origin l of Some t \<Rightarrow> t | None \<Rightarrow> 0)"

definition loop_ok ::
  "(int \<Rightarrow> int \<Rightarrow> int) \<Rightarrow> rec_system \<Rightarrow> rec_locals \<Rightarrow> rec_packet list \<Rightarrow> rec_packet list \<Rightarrow> bool" where
  "loop_ok rescale y l pv pa \<longleftrightarrow> (let r = sys_rec y; t = origin_of l in
     media_packets (accepted_video y) = pv @ media_packets (option_list (video_pkt l)) @ media_packets (video_queue r) \<and>
     media_packets (accepted_audio y) = pa @ media_packets (option_list (audio_pkt l)) @ media_packets (audio_queue r) \<and>
     (pts_origin l = None \<longrightarrow> pv = [] \<and> pa = []) \<and>
     video_pkt_previous l = (if pv = [] then None else Some (shifted t (last pv))) \<and>
     (video_pkt l \<noteq> None \<longrightarrow> accepted_video y \<noteq> []) \<and> (audio_pkt l \<noteq> None \<longrightarrow> accepted_audio y \<noteq> []) \<and>
     file_is rescale r (timed t pv) (timed_audio t pa) \<and> stamps_are rescale r (timed t pv) (timed_audio t pa) \<and>
     (\<exists>x ops. rec_file r = Mux_header x # ops))"

definition looping :: "(int \<Rightarrow> int \<Rightarrow> int) \<Rightarrow> rec_locals \<Rightarrow> rec_system \<Rightarrow> bool" where
  "looping rescale l y \<longleftrightarrow> (\<exists>pv pa. loop_ok rescale y l pv pa)"

text \<open>A complete recording; the last video packet may be missing if its write failed.\<close>

definition complete :: "(int \<Rightarrow> int \<Rightarrow> int) \<Rightarrow> rec_system \<Rightarrow> bool" where
  "complete rescale y \<longleftrightarrow> rec_stopped (sys_rec y) \<and>
     (\<exists>x ops. rec_file (sys_rec y) = Mux_header x # ops @ [Mux_trailer]) \<and>
     (\<exists>t. let vs = media_packets (accepted_video y); as = media_packets (accepted_audio y) in
        file_is rescale (sys_rec y) (timed t vs @ timed_last t vs) (timed_audio t as) \<or>
        file_is rescale (sys_rec y) (timed t vs) (timed_audio t as))"

definition some_file :: "(int \<Rightarrow> int \<Rightarrow> int) \<Rightarrow> sc_recorder \<Rightarrow> bool" where
  "some_file rescale r \<longleftrightarrow> (\<exists>vs as. file_is rescale r vs as)"

definition ended_ok :: "(int \<Rightarrow> int \<Rightarrow> int) \<Rightarrow> bool \<Rightarrow> rec_system \<Rightarrow> bool" where
  "ended_ok rescale ok y \<longleftrightarrow> (if ok then complete rescale y else some_file rescale (sys_rec y))"

definition before_header :: "(int \<Rightarrow> int \<Rightarrow> int) \<Rightarrow> rec_packet option \<Rightarrow> rec_packet option \<Rightarrow> rec_system \<Rightarrow> bool" where
  "before_header rescale vp ap y \<longleftrightarrow>
     accepted_video y = option_list vp @ video_queue (sys_rec y) \<and>
     accepted_audio y = option_list ap @ audio_queue (sys_rec y) \<and> rec_file (sys_rec y) = [] \<and>
     st_last_pts (video_stream (sys_rec y)) = None \<and> st_last_pts (audio_stream (sys_rec y)) = None"

fun thread_ok :: "(int \<Rightarrow> int \<Rightarrow> int) \<Rightarrow> rec_thread \<Rightarrow> rec_system \<Rightarrow> bool" where
  "thread_ok rescale At_open y \<longleftrightarrow> rec_ctx (sys_rec y) = Ctx_unset \<and> before_header rescale None None y"
| "thread_ok rescale At_header y \<longleftrightarrow> rec_ctx (sys_rec y) = Ctx_open \<and> before_header rescale None None y"
| "thread_ok rescale (At_header_write vp ap) y \<longleftrightarrow> rec_ctx (sys_rec y) = Ctx_open \<and> before_header rescale vp ap y"
| "thread_ok rescale (At_packets l) y \<longleftrightarrow> rec_ctx (sys_rec y) = Ctx_open \<and> looping rescale l y"
| "thread_ok rescale (At_record l) y \<longleftrightarrow> rec_ctx (sys_rec y) = Ctx_open \<and> looping rescale l y"
| "thread_ok rescale (At_finish l) y \<longleftrightarrow> rec_ctx (sys_rec y) = Ctx_open \<and> rec_stopped (sys_rec y) \<and>
     video_queue (sys_rec y) = [] \<and> audio_queue (sys_rec y) = [] \<and> video_pkt l = None \<and> audio_pkt l = None \<and>
     looping rescale l y"
| "thread_ok rescale (At_close ok) y \<longleftrightarrow> rec_ctx (sys_rec y) = Ctx_open \<and> ended_ok rescale ok y"
| "thread_ok rescale (At_discard ok) y \<longleftrightarrow> rec_ctx (sys_rec y) \<noteq> Ctx_open \<and> ended_ok rescale ok y"
| "thread_ok rescale (At_ended ok) y \<longleftrightarrow> rec_ctx (sys_rec y) \<noteq> Ctx_open \<and> rec_stopped (sys_rec y) \<and> ended_ok rescale ok y"

definition rec_inv :: "(int \<Rightarrow> int \<Rightarrow> int) \<Rightarrow> rec_system \<Rightarrow> bool" where
  "rec_inv rescale y \<longleftrightarrow> video_ok y \<and> audio_ok y \<and> streams_ok (sys_rec y) \<and> thread_ok rescale (sys_thread y) y"

lemmas rec_parts = video_ok_def audio_ok_def streams_ok_def Let_def

lemma written_new: "streams_ok r \<Longrightarrow> rec_nb_streams r \<le> i \<Longrightarrow> written i (rec_file r) = []"
  by (fastforce simp: streams_ok_def written_def split: mux_op.splits)

lemma written_none: "streams_ok r \<Longrightarrow> written (- 1) (rec_file r) = []"
  by (fastforce simp: streams_ok_def written_def split: mux_op.splits)

lemma stamp_empty_iff [simp]: "stamp rs prev ps = [] \<longleftrightarrow> ps = []" "[] = stamp rs prev ps \<longleftrightarrow> ps = []"
  by (simp add: stamp_Nil_iff) (metis stamp_Nil_iff)

lemma option_list_simps [simp]: "option_list None = []" "option_list (Some a) = [a]"
  by (simp_all add: option_list_def)

lemma last_stamp_Nil [simp]: "last_stamp rs [] = None"
  by (simp add: last_stamp_def)

text \<open>One write to a stream.\<close>

lemma write_stream_spec:
  assumes "rec_ctx r = Ctx_open" "0 \<le> st_index st" "st_index st < rec_nb_streams r"
    "st_last_pts st = last_stamp (rescale (st_index st)) ps"
  shows "sc_recorder_write_stream rescale ok p st r =
    Some (ok, st\<lparr>st_last_pts := last_stamp (rescale (st_index st)) (ps @ [p])\<rparr>,
      if ok then r\<lparr>rec_file := rec_file r @ [Mux_packet (st_index st)
        (restamp (rescale (st_index st)) (last_stamp (rescale (st_index st)) ps) p)]\<rparr> else r)"
  using assms by (simp add: sc_recorder_write_stream_def stream_of_def last_stamp_snoc restamp_def Let_def
      split: option.split)

section \<open>The sinks keep the invariant\<close>

text \<open>An event of another thread keeps what the recorder thread relies on.\<close>

lemma thread_ok_trans:
  assumes "thread_ok rescale th y" "rec_ctx (sys_rec z) = rec_ctx (sys_rec y)"
    and "rec_stopped (sys_rec y) \<Longrightarrow> rec_stopped (sys_rec z) \<and>
      video_queue (sys_rec z) = video_queue (sys_rec y) \<and> audio_queue (sys_rec z) = audio_queue (sys_rec y)"
    and "\<And>l pv pa. loop_ok rescale y l pv pa \<Longrightarrow> looping rescale l z"
    and "\<And>ok. ended_ok rescale ok y \<Longrightarrow> ended_ok rescale ok z"
    and "\<And>vp ap. before_header rescale vp ap y \<Longrightarrow> before_header rescale vp ap z"
  shows "thread_ok rescale th z"
proof -
  have "\<And>l. looping rescale l y \<Longrightarrow> looping rescale l z" using assms(4) unfolding looping_def [of rescale _ y] by blast
  then show ?thesis using assms by (cases th) auto
qed

lemma some_fileI: "file_is rescale r vs as \<Longrightarrow> some_file rescale r"
  by (auto simp: some_file_def)

lemma loopingI: "loop_ok rescale y l pv pa \<Longrightarrow> looping rescale l y"
  by (auto simp: looping_def)

definition same_content :: "rec_system \<Rightarrow> rec_system \<Rightarrow> bool" where
  "same_content y z \<longleftrightarrow> rec_file (sys_rec z) = rec_file (sys_rec y) \<and> rec_ctx (sys_rec z) = rec_ctx (sys_rec y) \<and>
     video_stream (sys_rec z) = video_stream (sys_rec y) \<and> audio_stream (sys_rec z) = audio_stream (sys_rec y) \<and>
     (rec_stopped (sys_rec y) \<longrightarrow> rec_stopped (sys_rec z))"

lemma same_files:
  assumes "same_content y z"
  shows "file_is rescale (sys_rec z) vs as = file_is rescale (sys_rec y) vs as"
    "stamps_are rescale (sys_rec z) vs as = stamps_are rescale (sys_rec y) vs as"
  using assms by (simp_all add: same_content_def file_is_def stamps_are_def)

text \<open>The packets accepted while the recorder runs go to the queues.\<close>

lemma same_content_ok:
  assumes "same_content y z" "thread_ok rescale th y"
    "accepted_video z = accepted_video y @ vs" "video_queue (sys_rec z) = video_queue (sys_rec y) @ vs"
    "accepted_audio z = accepted_audio y @ as" "audio_queue (sys_rec z) = audio_queue (sys_rec y) @ as"
    "rec_stopped (sys_rec y) \<Longrightarrow> vs = [] \<and> as = []"
  shows "thread_ok rescale th z"
proof (rule thread_ok_trans [OF assms(2)])
  fix l pv pa
  assume "loop_ok rescale y l pv pa"
  then show "looping rescale l z"
    using assms(1,3-6) by (intro loopingI [of _ _ _ pv pa]) (simp add: loop_ok_def same_files [OF assms(1)] same_content_def Let_def)
next
  fix ok
  assume "ended_ok rescale ok y"
  then show "ended_ok rescale ok z"
    using assms by (simp add: ended_ok_def some_file_def complete_def same_files [OF assms(1)] same_content_def split: if_splits)
qed (use assms in \<open>auto simp: before_header_def same_content_def\<close>)

lemma stop_inv: "rec_inv rescale y \<Longrightarrow> rec_inv rescale (y\<lparr>sys_rec := (sys_rec y)\<lparr>rec_stopped := True\<rparr>\<rparr>)"
  using same_content_ok [of y "y\<lparr>sys_rec := (sys_rec y)\<lparr>rec_stopped := True\<rparr>\<rparr>" rescale "sys_thread y" "[]" "[]"]
  by (auto simp: rec_inv_def rec_parts same_content_def)

text \<open>A stream gets its index before any of its packets is accepted.\<close>

lemma video_index_content:
  assumes "thread_ok rescale th y" "streams_ok (sys_rec y)" "accepted_video y = []"
    "st_index (video_stream (sys_rec y)) = - 1" "rec_nb_streams (sys_rec y) \<le> i"
    "rec_file (sys_rec z) = rec_file (sys_rec y)" "rec_ctx (sys_rec z) = rec_ctx (sys_rec y)"
    "video_stream (sys_rec z) = (video_stream (sys_rec y))\<lparr>st_index := i\<rparr>" "audio_stream (sys_rec z) = audio_stream (sys_rec y)"
    "video_queue (sys_rec z) = video_queue (sys_rec y)" "audio_queue (sys_rec z) = audio_queue (sys_rec y)"
    "rec_stopped (sys_rec z) = rec_stopped (sys_rec y)" "accepted_video z = []" "accepted_audio z = accepted_audio y"
  shows "thread_ok rescale th z"
proof -
  have w: "written i (rec_file (sys_rec y)) = []" "written (- 1) (rec_file (sys_rec y)) = []"
    using written_new [OF assms(2,5)] written_none [OF assms(2)] .
  have f: "file_is rescale (sys_rec z) [] as = file_is rescale (sys_rec y) [] as" for as
    using assms(4,6,8,9) w by (simp add: file_is_def Let_def)
  have n: "file_is rescale (sys_rec y) vs as \<Longrightarrow> vs = []" for vs as using assms(4) w by (simp add: file_is_def Let_def)
  have s: "stamps_are rescale (sys_rec z) [] as = stamps_are rescale (sys_rec y) [] as" for as
    using assms(8,9) by (simp add: stamps_are_def)
  have e: "ended_ok rescale ok z" if "ended_ok rescale ok y" for ok
  proof (cases ok)
    case True
    with that assms show ?thesis by (simp add: ended_ok_def complete_def Let_def f timed_last_def)
  next
    case False
    with that obtain vs as where "file_is rescale (sys_rec y) vs as" by (auto simp: ended_ok_def some_file_def)
    with n have "file_is rescale (sys_rec z) [] as" by (fastforce simp: f)
    with False show ?thesis by (auto simp: ended_ok_def some_file_def)
  qed
  show ?thesis
  proof (rule thread_ok_trans [OF assms(1)])
    fix l pv pa
    assume c: "loop_ok rescale y l pv pa"
    then have "pv = []" using assms(3) by (simp add: loop_ok_def Let_def)
    with c assms show "looping rescale l z"
      by (intro loopingI [of _ _ _ pv pa]) (simp add: loop_ok_def Let_def f s)
  qed (use assms e in \<open>auto simp: before_header_def\<close>)
qed

lemma audio_index_content:
  assumes "thread_ok rescale th y" "streams_ok (sys_rec y)" "accepted_audio y = []"
    "st_index (audio_stream (sys_rec y)) = - 1" "rec_nb_streams (sys_rec y) \<le> i"
    "rec_file (sys_rec z) = rec_file (sys_rec y)" "rec_ctx (sys_rec z) = rec_ctx (sys_rec y)"
    "audio_stream (sys_rec z) = (audio_stream (sys_rec y))\<lparr>st_index := i\<rparr>" "video_stream (sys_rec z) = video_stream (sys_rec y)"
    "video_queue (sys_rec z) = video_queue (sys_rec y)" "audio_queue (sys_rec z) = audio_queue (sys_rec y)"
    "rec_stopped (sys_rec z) = rec_stopped (sys_rec y)" "accepted_audio z = []" "accepted_video z = accepted_video y"
  shows "thread_ok rescale th z"
proof -
  have w: "written i (rec_file (sys_rec y)) = []" "written (- 1) (rec_file (sys_rec y)) = []"
    using written_new [OF assms(2,5)] written_none [OF assms(2)] .
  have f: "file_is rescale (sys_rec z) vs [] = file_is rescale (sys_rec y) vs []" for vs
    using assms(4,6,8,9) w by (simp add: file_is_def Let_def)
  have n: "file_is rescale (sys_rec y) vs as \<Longrightarrow> as = []" for vs as using assms(4) w by (simp add: file_is_def Let_def)
  have s: "stamps_are rescale (sys_rec z) vs [] = stamps_are rescale (sys_rec y) vs []" for vs
    using assms(8,9) by (simp add: stamps_are_def)
  have e: "ended_ok rescale ok z" if "ended_ok rescale ok y" for ok
  proof (cases ok)
    case True
    with that assms show ?thesis by (simp add: ended_ok_def complete_def Let_def f timed_audio_def)
  next
    case False
    with that obtain vs as where "file_is rescale (sys_rec y) vs as" by (auto simp: ended_ok_def some_file_def)
    with n have "file_is rescale (sys_rec z) vs []" by (fastforce simp: f)
    with False show ?thesis by (auto simp: ended_ok_def some_file_def)
  qed
  show ?thesis
  proof (rule thread_ok_trans [OF assms(1)])
    fix l pv pa
    assume c: "loop_ok rescale y l pv pa"
    then have "pa = []" using assms(3) by (simp add: loop_ok_def Let_def)
    with c assms show "looping rescale l z"
      by (intro loopingI [of _ _ _ pv pa]) (simp add: loop_ok_def Let_def f s timed_audio_def)
  qed (use assms e in \<open>auto simp: before_header_def\<close>)
qed

definition keeps :: "(int \<Rightarrow> int \<Rightarrow> int) \<Rightarrow> rec_system option \<Rightarrow> bool" where
  "keeps rescale r \<longleftrightarrow> (\<exists>y'. r = Some y' \<and> rec_inv rescale y')"

lemma push_keeps:
  assumes "rec_inv rescale y"
  shows "vsink y = Sink_open \<Longrightarrow> keeps rescale (rec_step rescale (Video_push a b c p) y)"
    "asink y = Sink_open \<Longrightarrow> keeps rescale (rec_step rescale (Audio_push a b c p) y)"
proof -
  let ?r = "sys_rec y"
  let ?v = "y\<lparr>sys_rec := ?r\<lparr>video_queue := video_queue ?r @ [p]\<rparr>, accepted_video := accepted_video y @ [p]\<rparr>"
  let ?a = "y\<lparr>sys_rec := ?r\<lparr>audio_queue := audio_queue ?r @ [p]\<rparr>, accepted_audio := accepted_audio y @ [p]\<rparr>"
  have t: "thread_ok rescale (sys_thread y) y" using assms by (simp add: rec_inv_def)
  have v: "thread_ok rescale (sys_thread y) ?v" if "\<not> rec_stopped ?r"
    by (rule same_content_ok [OF _ t, of _ "[p]" "[]"]) (use that in \<open>simp_all add: same_content_def\<close>)
  have w: "thread_ok rescale (sys_thread y) ?a" if "\<not> rec_stopped ?r"
    by (rule same_content_ok [OF _ t, of _ "[]" "[p]"]) (use that in \<open>simp_all add: same_content_def\<close>)
  have i: "rec_inv rescale (y\<lparr>sys_rec := ?r, accepted_video := accepted_video y\<rparr>)"
    "rec_inv rescale (y\<lparr>sys_rec := ?r, accepted_audio := accepted_audio y\<rparr>)" using assms by simp_all
  show "keeps rescale (rec_step rescale (Video_push a b c p) y)" if "vsink y = Sink_open"
  proof -
    have "video_init ?r" using assms that by (simp add: rec_inv_def rec_parts)
    moreover from this have "\<not> rec_stopped ?r \<Longrightarrow> rec_inv rescale ?v" using assms v by (simp add: rec_inv_def rec_parts)
    ultimately show ?thesis using i(1)
      by (simp add: keeps_def sc_recorder_video_packet_sink_push_def sc_recorder_packet_ref_def)
  qed
  show "keeps rescale (rec_step rescale (Audio_push a b c p) y)" if "asink y = Sink_open"
  proof -
    have "audio_init ?r" "rec_audio ?r" using assms that by (simp_all add: rec_inv_def rec_parts)
    moreover from this have "\<not> rec_stopped ?r \<Longrightarrow> rec_inv rescale ?a" using assms w by (simp add: rec_inv_def rec_parts)
    ultimately show ?thesis using i(2)
      by (simp add: keeps_def sc_recorder_audio_packet_sink_push_def sc_recorder_packet_ref_def)
  qed
qed

lemma close_keeps:
  assumes "rec_inv rescale y"
  shows "vsink y = Sink_open \<Longrightarrow> keeps rescale (rec_step rescale Video_close y)"
    "asink y = Sink_open \<Longrightarrow> keeps rescale (rec_step rescale Audio_close y)"
    "keeps rescale (rec_step rescale Stop_request y)"
proof -
  let ?s = "y\<lparr>sys_rec := (sys_rec y)\<lparr>rec_stopped := True\<rparr>\<rparr>"
  have s: "rec_inv rescale ?s" by (rule stop_inv [OF assms])
  then show "keeps rescale (rec_step rescale Stop_request y)" by (simp add: keeps_def sc_recorder_stop_def)
  have t0: "thread_ok rescale (sys_thread y) y" using assms by (simp add: rec_inv_def)
  have t: "thread_ok rescale (sys_thread y) (?s\<lparr>vsink := Sink_closed\<rparr>)" "thread_ok rescale (sys_thread y) (?s\<lparr>asink := Sink_closed\<rparr>)"
    by (rule same_content_ok [OF _ t0, of _ "[]" "[]"]; simp add: same_content_def)+
  show "keeps rescale (rec_step rescale Video_close y)" if "vsink y = Sink_open"
    using assms that t(1) by (simp add: keeps_def sc_recorder_video_packet_sink_close_def rec_inv_def rec_parts)
  show "keeps rescale (rec_step rescale Audio_close y)" if "asink y = Sink_open"
    using assms that t(2) by (simp add: keeps_def sc_recorder_audio_packet_sink_close_def rec_inv_def rec_parts)
qed

lemma disable_keeps:
  assumes "rec_inv rescale y" "asink y = Sink_none" "rec_audio (sys_rec y)"
  shows "keeps rescale (rec_step rescale Audio_disable y)"
proof -
  let ?z = "y\<lparr>sys_rec := (sys_rec y)\<lparr>rec_audio := False, audio_init := True\<rparr>, asink := Sink_closed\<rparr>"
  have t0: "thread_ok rescale (sys_thread y) y" using assms(1) by (simp add: rec_inv_def)
  have "thread_ok rescale (sys_thread y) ?z"
    by (rule same_content_ok [OF _ t0, of _ "[]" "[]"]) (simp_all add: same_content_def)
  moreover have "video_ok ?z" "streams_ok (sys_rec ?z)" using assms(1) by (simp_all add: rec_inv_def rec_parts)
  moreover have "audio_ok ?z" using assms(1,2) by (auto simp: rec_inv_def audio_ok_def Let_def)
  moreover have "\<not> audio_init (sys_rec y)" using assms(1,2) by (simp add: rec_inv_def audio_ok_def Let_def)
  ultimately have "rec_inv rescale ?z" by (simp add: rec_inv_def)
  then show ?thesis using assms(3) \<open>\<not> audio_init (sys_rec y)\<close>
    by (simp add: keeps_def sc_recorder_audio_packet_sink_disable_def)
qed

lemma nothing_yet:
  "video_ok y \<Longrightarrow> vsink y = Sink_none \<Longrightarrow> \<not> video_init (sys_rec y) \<and> video_queue (sys_rec y) = [] \<and>
     \<not> video_expects_config_packet (sys_rec y) \<and> accepted_video y = [] \<and> st_index (video_stream (sys_rec y)) = - 1"
  "audio_ok y \<Longrightarrow> asink y = Sink_none \<Longrightarrow> \<not> audio_init (sys_rec y) \<and> audio_queue (sys_rec y) = [] \<and>
     \<not> audio_expects_config_packet (sys_rec y) \<and> accepted_audio y = [] \<and> st_index (audio_stream (sys_rec y)) = - 1"
  by (auto simp: rec_parts)

text \<open>The recorder after a video stream was added, with its index and its orientation, opened or not.\<close>

lemma video_open_inv:
  assumes "rec_inv rescale y" "vsink y = Sink_none" "rec_video (sys_rec y)"
    "r = (sys_rec y)\<lparr>rec_nb_streams := n, video_stream := (video_stream (sys_rec y))\<lparr>st_index := i\<rparr>,
       rec_display_angle := a, video_expects_config_packet := c, video_init := b\<rparr>"
    "rec_nb_streams (sys_rec y) \<le> n" "i = - 1 \<or> i = rec_nb_streams (sys_rec y) \<and> i < n"
    "sk \<noteq> Sink_none" "sk = Sink_open \<longleftrightarrow> b" "b \<longrightarrow> i \<noteq> - 1" "c \<longrightarrow> b"
  shows "rec_inv rescale (y\<lparr>sys_rec := r, vsink := sk\<rparr>)"
proof -
  let ?z = "y\<lparr>sys_rec := r, vsink := sk\<rparr>"
  have p: "video_ok y" "audio_ok y" "streams_ok (sys_rec y)" "thread_ok rescale (sys_thread y) y"
    using assms(1) by (simp_all add: rec_inv_def)
  note none = nothing_yet(1) [OF p(1) assms(2)]
  have n0: "0 \<le> rec_nb_streams (sys_rec y)" using p(3) by (simp add: streams_ok_def)
  have j: "st_index (audio_stream (sys_rec y)) < rec_nb_streams (sys_rec y)" using p(2) by (simp add: audio_ok_def Let_def)
  have "thread_ok rescale (sys_thread y) ?z"
  proof (cases "i = - 1")
    case True
    have e: "(video_stream (sys_rec y))\<lparr>st_index := - 1\<rparr> = video_stream (sys_rec y)"
      using none by (cases "video_stream (sys_rec y)") simp
    show ?thesis
      by (rule same_content_ok [OF _ p(4), of _ "[]" "[]"]) (use True e assms(4) in \<open>simp_all add: same_content_def\<close>)
  next
    case False
    show ?thesis
      by (rule video_index_content [OF p(4,3), of i]) (use False none assms(4,6) in simp_all)
  qed
  moreover have "video_ok ?z" using none assms(3-) n0 by (auto simp: video_ok_def Let_def)
  moreover have "audio_ok ?z" using p(2) assms(4,5) by (auto simp: audio_ok_def Let_def)
  moreover have "streams_ok (sys_rec ?z)" using p(3) assms(4-6) n0 j by (fastforce simp: streams_ok_def)
  ultimately show ?thesis by (simp add: rec_inv_def)
qed

lemma audio_open_inv:
  assumes "rec_inv rescale y" "asink y = Sink_none" "rec_audio (sys_rec y)"
    "r = (sys_rec y)\<lparr>rec_nb_streams := n, audio_stream := (audio_stream (sys_rec y))\<lparr>st_index := i\<rparr>,
       audio_expects_config_packet := c, audio_init := b\<rparr>"
    "rec_nb_streams (sys_rec y) \<le> n" "i = - 1 \<or> i = rec_nb_streams (sys_rec y) \<and> i < n"
    "sk \<noteq> Sink_none" "sk = Sink_open \<longleftrightarrow> b" "b \<longrightarrow> i \<noteq> - 1" "c \<longrightarrow> b"
  shows "rec_inv rescale (y\<lparr>sys_rec := r, asink := sk\<rparr>)"
proof -
  let ?z = "y\<lparr>sys_rec := r, asink := sk\<rparr>"
  have p: "video_ok y" "audio_ok y" "streams_ok (sys_rec y)" "thread_ok rescale (sys_thread y) y"
    using assms(1) by (simp_all add: rec_inv_def)
  note none = nothing_yet(2) [OF p(2) assms(2)]
  have n0: "0 \<le> rec_nb_streams (sys_rec y)" using p(3) by (simp add: streams_ok_def)
  have j: "st_index (video_stream (sys_rec y)) < rec_nb_streams (sys_rec y)" using p(1) by (simp add: video_ok_def Let_def)
  have "thread_ok rescale (sys_thread y) ?z"
  proof (cases "i = - 1")
    case True
    have e: "(audio_stream (sys_rec y))\<lparr>st_index := - 1\<rparr> = audio_stream (sys_rec y)"
      using none by (cases "audio_stream (sys_rec y)") simp
    show ?thesis
      by (rule same_content_ok [OF _ p(4), of _ "[]" "[]"]) (use True e assms(4) in \<open>simp_all add: same_content_def\<close>)
  next
    case False
    show ?thesis
      by (rule audio_index_content [OF p(4,3), of i]) (use False none assms(4,6) in simp_all)
  qed
  moreover have "audio_ok ?z" using none assms(3-) n0 by (auto simp: audio_ok_def Let_def)
  moreover have "video_ok ?z" using p(1) assms(4,5) by (auto simp: video_ok_def Let_def)
  moreover have "streams_ok (sys_rec ?z)" using p(3) assms(4-6) n0 j by (fastforce simp: streams_ok_def)
  ultimately show ?thesis by (simp add: rec_inv_def)
qed

lemma video_untouched:
  "\<not> video_init r \<and> \<not> video_expects_config_packet r \<and> st_index (video_stream r) = - 1 \<Longrightarrow>
   r\<lparr>rec_nb_streams := n\<rparr> = r\<lparr>rec_nb_streams := n, video_stream := (video_stream r)\<lparr>st_index := - 1\<rparr>,
     rec_display_angle := rec_display_angle r, video_expects_config_packet := False, video_init := False\<rparr>"
  by (cases r, cases "video_stream r") auto

lemma audio_untouched:
  "\<not> audio_init r \<and> \<not> audio_expects_config_packet r \<and> st_index (audio_stream r) = - 1 \<Longrightarrow>
   r\<lparr>rec_nb_streams := n\<rparr> = r\<lparr>rec_nb_streams := n, audio_stream := (audio_stream r)\<lparr>st_index := - 1\<rparr>,
     audio_expects_config_packet := False, audio_init := False\<rparr>"
  by (cases r, cases "audio_stream r") auto

lemma video_open_keeps:
  assumes "rec_inv rescale y" "vsink y = Sink_none" "rec_video (sys_rec y)"
    "rec_ctx (sys_rec y) = Ctx_open \<or> rec_stopped (sys_rec y)"
  shows "keeps rescale (rec_step rescale (Video_open e vpx) y)"
proof -
  let ?r = "sys_rec y"
  let ?n = "rec_nb_streams ?r"
  have p: "video_ok y" "streams_ok ?r" using assms(1) by (simp_all add: rec_inv_def)
  note none = nothing_yet(1) [OF p(1) assms(2)]
  have o: "sc_orientation_is_mirror (rec_orientation ?r) = Some False" "0 \<le> ?n" using p(2) by (simp_all add: streams_ok_def)
  have fail: "rec_inv rescale (y\<lparr>sys_rec := ?r\<lparr>rec_nb_streams := m\<rparr>, vsink := Sink_closed\<rparr>)" if "?n \<le> m" for m
    by (rule video_open_inv [OF assms(1-3), where i = "- 1", OF video_untouched])
      (use none that in simp_all)
  have fail0: "rec_inv rescale (y\<lparr>sys_rec := ?r, vsink := Sink_closed\<rparr>)" using fail [of ?n] by simp
  define r1 where "r1 = ?r\<lparr>rec_nb_streams := ?n + 1, video_stream := (video_stream ?r)\<lparr>st_index := ?n\<rparr>\<rparr>"
  have e1: "r1 = ?r\<lparr>rec_nb_streams := ?n + 1, video_stream := (video_stream ?r)\<lparr>st_index := ?n\<rparr>,
      rec_display_angle := rec_display_angle ?r, video_expects_config_packet := False, video_init := False\<rparr>"
    unfolding r1_def using none by (cases "?r") simp
  have fail1: "rec_inv rescale (y\<lparr>sys_rec := r1, vsink := Sink_closed\<rparr>)"
    by (rule video_open_inv [OF assms(1-3) e1]) (use o in simp_all)
  have ok: "rec_inv rescale (y\<lparr>sys_rec := r1\<lparr>rec_display_angle := a, video_expects_config_packet := c, video_init := True\<rparr>,
      vsink := Sink_open\<rparr>)" for a c
    by (rule video_open_inv [OF assms(1-3), where i = ?n and b = True and c = c and a = a and n = "?n + 1"])
      (use o in \<open>simp_all add: r1_def\<close>)
  have ok0: "rec_inv rescale (y\<lparr>sys_rec := r1\<lparr>video_expects_config_packet := c, video_init := True\<rparr>, vsink := Sink_open\<rparr>)" for c
    using ok [of c "rec_display_angle r1"] by simp
  show ?thesis using assms(4) none o(1) fail0 fail [of "?n + 1"] fail1 ok ok0
    by (auto simp: keeps_def sc_recorder_video_packet_sink_open_def new_stream_def sc_recorder_set_orientation_def Let_def
        r1_def split: option.splits)
qed

lemma audio_open_keeps:
  assumes "rec_inv rescale y" "asink y = Sink_none" "rec_audio (sys_rec y)" "rec_ctx (sys_rec y) = Ctx_open"
  shows "keeps rescale (rec_step rescale (Audio_open e pcm) y)"
proof -
  let ?r = "sys_rec y"
  let ?n = "rec_nb_streams ?r"
  have p: "audio_ok y" "streams_ok ?r" using assms(1) by (simp_all add: rec_inv_def)
  note none = nothing_yet(2) [OF p(1) assms(2)]
  have n0: "0 \<le> ?n" using p(2) by (simp add: streams_ok_def)
  have fail: "rec_inv rescale (y\<lparr>sys_rec := ?r\<lparr>rec_nb_streams := m\<rparr>, asink := Sink_closed\<rparr>)" if "?n \<le> m" for m
    by (rule audio_open_inv [OF assms(1-3), where i = "- 1", OF audio_untouched])
      (use none that in simp_all)
  have fail0: "rec_inv rescale (y\<lparr>sys_rec := ?r, asink := Sink_closed\<rparr>)" using fail [of ?n] by simp
  have ok: "rec_inv rescale (y\<lparr>sys_rec := ?r\<lparr>rec_nb_streams := ?n + 1, audio_stream := (audio_stream ?r)\<lparr>st_index := ?n\<rparr>,
      audio_expects_config_packet := c, audio_init := True\<rparr>, asink := Sink_open\<rparr>)" for c
    by (rule audio_open_inv [OF assms(1-3), where i = ?n and b = True and c = c and n = "?n + 1"]) (use n0 in simp_all)
  show ?thesis using assms(3,4) none fail0 fail [of "?n + 1"] ok [of "\<not> pcm"]
    by (auto simp: keeps_def sc_recorder_audio_packet_sink_open_def new_stream_def Let_def split: option.splits)
qed

section \<open>The recorder thread keeps the invariant\<close>

text \<open>What the thread never changes.\<close>

definition static :: "sc_recorder \<Rightarrow> _" where
  "static r = (rec_audio r, rec_video r, rec_orientation r, rec_format r, rec_nb_streams r, video_init r, audio_init r,
     video_expects_config_packet r, audio_expects_config_packet r, st_index (video_stream r), st_index (audio_stream r))"

lemma static_parts:
  assumes "rec_inv rescale y" "static r = static (sys_rec y)" "streams_ok r"
    "video_queue r \<noteq> [] \<Longrightarrow> video_queue (sys_rec y) \<noteq> []" "audio_queue r \<noteq> [] \<Longrightarrow> audio_queue (sys_rec y) \<noteq> []"
    "thread_ok rescale th (y\<lparr>sys_rec := r, sys_thread := th\<rparr>)"
  shows "rec_inv rescale (y\<lparr>sys_rec := r, sys_thread := th\<rparr>)"
proof -
  have "video_ok (y\<lparr>sys_rec := r, sys_thread := th\<rparr>)" "audio_ok (y\<lparr>sys_rec := r, sys_thread := th\<rparr>)"
    using assms(1,2,4,5) by (auto simp: rec_inv_def video_ok_def audio_ok_def static_def Let_def)
  with assms(3,6) show ?thesis by (simp add: rec_inv_def)
qed

lemma streams_static:
  "streams_ok r \<Longrightarrow> static r' = static r \<Longrightarrow> rec_file r' = rec_file r \<Longrightarrow> streams_ok r'"
  "streams_ok r \<Longrightarrow> static r' = static r \<Longrightarrow> rec_file r' = rec_file r @ ops \<Longrightarrow>
   \<forall>j p. Mux_packet j p \<in> set ops \<longrightarrow> 0 \<le> j \<and> j < rec_nb_streams r \<Longrightarrow> streams_ok r'"
  by (auto simp: streams_ok_def static_def)

text \<open>The loop invariant does not depend on where the thread is.\<close>

lemma loop_ok_thread [simp]:
  "loop_ok rescale (y\<lparr>sys_thread := th\<rparr>) = loop_ok rescale y" "looping rescale l (y\<lparr>sys_thread := th\<rparr>) = looping rescale l y"
  "ended_ok rescale ok (y\<lparr>sys_thread := th\<rparr>) = ended_ok rescale ok y"
  "before_header rescale vp ap (y\<lparr>sys_thread := th\<rparr>) = before_header rescale vp ap y"
proof -
  show l: "loop_ok rescale (y\<lparr>sys_thread := th\<rparr>) = loop_ok rescale y" by (intro ext) (simp add: loop_ok_def)
  show "looping rescale l (y\<lparr>sys_thread := th\<rparr>) = looping rescale l y" by (simp add: looping_def l)
qed (simp_all add: ended_ok_def complete_def before_header_def)

definition frame :: "sc_recorder \<Rightarrow> sc_recorder \<Rightarrow> bool" where
  "frame r r' \<longleftrightarrow> static r' = static r \<and> video_queue r' = video_queue r \<and> audio_queue r' = audio_queue r \<and>
     rec_ctx r' = rec_ctx r \<and> rec_stopped r' = rec_stopped r \<and> (streams_ok r \<longrightarrow> streams_ok r')"

lemma frame_trans: "frame a b \<Longrightarrow> frame b c \<Longrightarrow> frame a c"
  by (simp add: frame_def)

text \<open>The result of a write to one of the streams.\<close>

lemma write_video_spec:
  assumes "rec_ctx r = Ctx_open" "0 \<le> st_index (video_stream r)" "st_index (video_stream r) < rec_nb_streams r" "streams_ok r"
    "file_is rescale r vs as" "stamps_are rescale r vs as"
  shows "\<exists>r'. sc_recorder_write_video rescale ok p r = Some (ok, r') \<and> frame r r' \<and>
    file_is rescale r' (if ok then vs @ [p] else vs) as \<and> (ok \<longrightarrow> stamps_are rescale r' (vs @ [p]) as) \<and>
    (\<exists>ops. rec_file r' = rec_file r @ ops)"
proof -
  let ?i = "st_index (video_stream r)"
  have "st_last_pts (video_stream r) = last_stamp (rescale ?i) vs" using assms(6) by (simp add: stamps_are_def)
  note w = write_stream_spec [where rescale = rescale and ok = ok and p = p, OF assms(1-3) this]
  have ne: "?i \<noteq> st_index (audio_stream r)" using assms(2,4) by (auto simp: streams_ok_def)
  let ?r = "(if ok then r\<lparr>rec_file := rec_file r @ [Mux_packet ?i (restamp (rescale ?i) (last_stamp (rescale ?i) vs) p)]\<rparr> else r)
    \<lparr>video_stream := (video_stream r)\<lparr>st_last_pts := last_stamp (rescale ?i) (vs @ [p])\<rparr>\<rparr>"
  have e: "sc_recorder_write_video rescale ok p r = Some (ok, ?r)" by (simp add: sc_recorder_write_video_def w)
  have "streams_ok ?r" using assms(2-4) by (auto simp: streams_ok_def)
  then have "frame r ?r" by (simp add: frame_def static_def)
  moreover have "file_is rescale ?r (if ok then vs @ [p] else vs) as" "ok \<longrightarrow> stamps_are rescale ?r (vs @ [p]) as"
    using assms(5,6) ne by (simp_all add: file_is_def stamps_are_def stamp_snoc_last Let_def)
  moreover have "\<exists>ops. rec_file ?r = rec_file r @ ops" by simp
  ultimately show ?thesis using e by blast
qed

lemma write_audio_spec:
  assumes "rec_ctx r = Ctx_open" "0 \<le> st_index (audio_stream r)" "st_index (audio_stream r) < rec_nb_streams r" "streams_ok r"
    "file_is rescale r vs as" "stamps_are rescale r vs as"
  shows "\<exists>r'. sc_recorder_write_audio rescale ok p r = Some (ok, r') \<and> frame r r' \<and>
    file_is rescale r' vs (if ok then as @ [p] else as) \<and> (ok \<longrightarrow> stamps_are rescale r' vs (as @ [p])) \<and>
    (\<exists>ops. rec_file r' = rec_file r @ ops)"
proof -
  let ?i = "st_index (audio_stream r)"
  have "st_last_pts (audio_stream r) = last_stamp (rescale ?i) as" using assms(6) by (simp add: stamps_are_def)
  note w = write_stream_spec [where rescale = rescale and ok = ok and p = p, OF assms(1-3) this]
  have ne: "?i \<noteq> st_index (video_stream r)" using assms(2,4) by (auto simp: streams_ok_def)
  let ?r = "(if ok then r\<lparr>rec_file := rec_file r @ [Mux_packet ?i (restamp (rescale ?i) (last_stamp (rescale ?i) as) p)]\<rparr> else r)
    \<lparr>audio_stream := (audio_stream r)\<lparr>st_last_pts := last_stamp (rescale ?i) (as @ [p])\<rparr>\<rparr>"
  have e: "sc_recorder_write_audio rescale ok p r = Some (ok, ?r)" by (simp add: sc_recorder_write_audio_def w)
  have "streams_ok ?r" using assms(2-4) by (auto simp: streams_ok_def)
  then have "frame r ?r" by (simp add: frame_def static_def)
  moreover have "file_is rescale ?r vs (if ok then as @ [p] else as)" "ok \<longrightarrow> stamps_are rescale ?r vs (as @ [p])"
    using assms(5,6) ne by (simp_all add: file_is_def stamps_are_def stamp_snoc_last Let_def)
  moreover have "\<exists>ops. rec_file ?r = rec_file r @ ops" by simp
  ultimately show ?thesis using e by blast
qed

text \<open>One round of the loop.\<close>

lemma loop_facts:
  assumes "loop_ok rescale y l pv pa"
  shows "media_packets (accepted_video y) = pv @ media_packets (option_list (video_pkt l)) @ media_packets (video_queue (sys_rec y))"
    "media_packets (accepted_audio y) = pa @ media_packets (option_list (audio_pkt l)) @ media_packets (audio_queue (sys_rec y))"
    "pts_origin l = None \<Longrightarrow> pv = [] \<and> pa = []"
    "video_pkt_previous l = (if pv = [] then None else Some (shifted (origin_of l) (last pv)))"
    "file_is rescale (sys_rec y) (timed (origin_of l) pv) (timed_audio (origin_of l) pa)"
    "stamps_are rescale (sys_rec y) (timed (origin_of l) pv) (timed_audio (origin_of l) pa)"
    "video_pkt l \<noteq> None \<Longrightarrow> accepted_video y \<noteq> []" "audio_pkt l \<noteq> None \<Longrightarrow> accepted_audio y \<noteq> []"
    "\<exists>x ops. rec_file (sys_rec y) = Mux_header x # ops"
  using assms by (auto simp: loop_ok_def Let_def)

lemma timed_next:
  assumes "pv \<noteq> []"
  shows "timed t (pv @ [v]) = timed t pv @ [to_mux (Some (pts_of (shifted t v) - pts_of (shifted t (last pv)))) (shifted t (last pv))]"
proof -
  have "butlast pv @ [last pv, v] = pv @ [v]" using append_butlast_last_id [OF assms] by (metis append.assoc append_Cons append_Nil)
  with timed_snoc [of t "butlast pv" "last pv" v] assms show ?thesis
    by (simp add: shifted_def pts_of_def [of "_ \<lparr>rp_pts := _\<rparr>"])
qed

lemma record_video_ok:
  assumes "rec_inv rescale y" "rec_ctx (sys_rec y) = Ctx_open" "loop_ok rescale y l pv pa" "pts_origin l = Some t"
    "\<And>v. video_pkt l = Some v \<Longrightarrow> rp_pts v \<noteq> None"
  shows "\<exists>ok l' r'. record_video rescale env t l (sys_rec y) = Some (ok, l', r') \<and> frame (sys_rec y) r' \<and>
    some_file rescale r' \<and> audio_pkt l' = audio_pkt l \<and>
    (ok \<longrightarrow> pts_origin l' = Some t \<and> (\<exists>pv'. loop_ok rescale (y\<lparr>sys_rec := r'\<rparr>) l' pv' pa))"
proof (cases "video_pkt l")
  case None
  have "file_is rescale (sys_rec y) (timed t pv) (timed_audio t pa)"
    using loop_facts(5) [OF assms(3)] assms(4) by (simp add: origin_of_def)
  with None assms(3,4) show ?thesis by (auto simp: record_video_def frame_def intro: some_fileI)
next
  case (Some v)
  let ?r = "sys_rec y"
  note f = loop_facts [OF assms(3), unfolded origin_of_def assms(4) option.case]
  have pts: "rp_pts v \<noteq> None" using assms(5) Some by blast
  have i: "0 \<le> st_index (video_stream ?r)" "st_index (video_stream ?r) < rec_nb_streams ?r" "streams_ok ?r"
    using assms(1) f(7) Some by (auto simp: rec_inv_def video_ok_def Let_def)
  let ?l = "l\<lparr>video_pkt_previous := Some (shifted t v), video_pkt := None\<rparr>"
  have nxt: "loop_ok rescale (y\<lparr>sys_rec := r'\<rparr>) ?l (pv @ [v]) pa"
    if "frame ?r r'" "file_is rescale r' (timed t (pv @ [v])) (timed_audio t pa)"
      "stamps_are rescale r' (timed t (pv @ [v])) (timed_audio t pa)" "\<exists>x ops. rec_file r' = Mux_header x # ops" for r'
    using f that Some pts assms(4) by (simp add: loop_ok_def origin_of_def frame_def)
  show ?thesis
  proof (cases "pv = []")
    case True
    have "frame ?r ?r" by (simp add: frame_def)
    from nxt [OF this] f(5,6,9) True
    have "loop_ok rescale (y\<lparr>sys_rec := ?r\<rparr>) ?l (pv @ [v]) pa" by simp
    with Some True f(4,5) assms(4) show ?thesis by (auto simp: record_video_def Let_def frame_def intro: some_fileI)
  next
    case False
    let ?p = "to_mux (Some (pts_of (shifted t v) - pts_of (shifted t (last pv)))) (shifted t (last pv))"
    obtain r' where r': "sc_recorder_write_video rescale (write_video_ok env) ?p ?r = Some (write_video_ok env, r')" "frame ?r r'"
      "file_is rescale r' (if write_video_ok env then timed t pv @ [?p] else timed t pv) (timed_audio t pa)"
      "write_video_ok env \<longrightarrow> stamps_are rescale r' (timed t pv @ [?p]) (timed_audio t pa)" "\<exists>ops. rec_file r' = rec_file ?r @ ops"
      using write_video_spec [OF assms(2) i f(5,6)] by blast
    have "\<exists>x ops. rec_file r' = Mux_header x # ops" using r'(5) f(9) by auto
    with nxt [OF r'(2)] r'(3,4)
    have "write_video_ok env \<Longrightarrow> loop_ok rescale (y\<lparr>sys_rec := r'\<rparr>) ?l (pv @ [v]) pa"
      by (simp add: timed_next [OF False])
    with Some False f(4) r'(1-3) assms(4) show ?thesis by (auto simp: record_video_def Let_def intro: some_fileI)
  qed
qed

lemma record_audio_ok:
  assumes "rec_inv rescale y" "frame (sys_rec y) r" "rec_ctx r = Ctx_open" "loop_ok rescale (y\<lparr>sys_rec := r\<rparr>) l pv pa"
    "pts_origin l = Some t" "\<And>a. audio_pkt l = Some a \<Longrightarrow> rp_pts a \<noteq> None"
  shows "\<exists>ok l' r'. record_audio rescale env t l r = Some (ok, l', r') \<and> frame (sys_rec y) r' \<and>
    some_file rescale r' \<and> (ok \<longrightarrow> (\<exists>pa'. loop_ok rescale (y\<lparr>sys_rec := r'\<rparr>) l' pv pa'))"
proof (cases "audio_pkt l")
  case None
  have "file_is rescale r (timed t pv) (timed_audio t pa)"
    using loop_facts(5) [OF assms(4)] assms(5) by (simp add: origin_of_def)
  with None assms(2,4) show ?thesis by (auto simp: record_audio_def intro: some_fileI)
next
  case (Some a)
  note f = loop_facts [OF assms(4), unfolded origin_of_def assms(5) option.case, simplified]
  have pts: "rp_pts a \<noteq> None" using assms(6) Some by blast
  have st: "static r = static (sys_rec y)" using assms(2) by (simp add: frame_def)
  have i: "0 \<le> st_index (audio_stream r)" "st_index (audio_stream r) < rec_nb_streams r" "streams_ok r"
    using assms(1,2) st f(8) Some by (auto simp: rec_inv_def audio_ok_def frame_def static_def Let_def)
  let ?p = "to_mux None (shifted t a)"
  obtain r' where r': "sc_recorder_write_audio rescale (write_audio_ok env) ?p r = Some (write_audio_ok env, r')" "frame r r'"
    "file_is rescale r' (timed t pv) (if write_audio_ok env then timed_audio t pa @ [?p] else timed_audio t pa)"
    "write_audio_ok env \<longrightarrow> stamps_are rescale r' (timed t pv) (timed_audio t pa @ [?p])" "\<exists>ops. rec_file r' = rec_file r @ ops"
    using write_audio_spec [OF assms(3) i f(5,6)] by blast
  let ?l = "l\<lparr>audio_pkt := None\<rparr>"
  have "loop_ok rescale (y\<lparr>sys_rec := r'\<rparr>) ?l pv (pa @ [a])" if "write_audio_ok env"
    using f r'(2-5) that Some pts assms(5) by (auto simp: loop_ok_def origin_of_def frame_def timed_audio_snoc)
  then show ?thesis using Some r'(1-3) frame_trans [OF assms(2) r'(2)] by (auto simp: record_audio_def Let_def intro: some_fileI)
qed

lemma drop_config_ok:
  "media_packets (option_list (drop_config p)) = media_packets (option_list p)" "drop_config p = Some v \<Longrightarrow> rp_pts v \<noteq> None"
  "drop_config p \<noteq> None \<Longrightarrow> p \<noteq> None"
  by (auto simp: drop_config_def split: option.splits if_splits)

lemma origin_kept: "choose_origin l r = Inr t \<Longrightarrow> pts_origin l = Some u \<Longrightarrow> u = t"
  by (simp add: choose_origin_def)

lemma packets_record_ok:
  assumes "rec_inv rescale y" "rec_ctx (sys_rec y) = Ctx_open" "looping rescale l y"
  shows "\<exists>ok l' r'. packets_record rescale env l (sys_rec y) = Some (ok, l', r') \<and> frame (sys_rec y) r' \<and>
    some_file rescale r' \<and> (ok \<longrightarrow> looping rescale l' (y\<lparr>sys_rec := r'\<rparr>))"
proof -
  let ?l = "l\<lparr>video_pkt := drop_config (video_pkt l), audio_pkt := drop_config (audio_pkt l)\<rparr>"
  obtain pv pa where lp: "loop_ok rescale y l pv pa" using assms(3) by (auto simp: looping_def)
  have l1: "loop_ok rescale y ?l pv pa"
    using lp drop_config_ok(3) by (auto simp: loop_ok_def origin_of_def drop_config_ok(1) Let_def)
  show ?thesis
  proof (cases "choose_origin ?l (sys_rec y)")
    case (Inl failed)
    have "looping rescale ?l (y\<lparr>sys_rec := sys_rec y\<rparr>)" using l1 by (auto simp: looping_def)
    with Inl loop_facts(5) [OF l1] show ?thesis by (auto simp: packets_record_def Let_def frame_def intro: some_fileI)
  next
    case (Inr t)
    let ?k = "?l\<lparr>pts_origin := Some t\<rparr>"
    have t: "pts_origin l = Some u \<Longrightarrow> u = t" for u using origin_kept [OF Inr] by simp
    have k: "loop_ok rescale y ?k pv pa"
    proof (cases "pts_origin l")
      case None
      then have "pv = []" "pa = []" using loop_facts(3) [OF lp] by simp_all
      with l1 None show ?thesis by (simp add: loop_ok_def origin_of_def timed_audio_def Let_def)
    next
      case (Some u)
      with t have "?k = ?l" by (cases l) simp
      with l1 show ?thesis by simp
    qed
    have "\<And>v. video_pkt ?k = Some v \<Longrightarrow> rp_pts v \<noteq> None" using drop_config_ok(2) by simp
    from record_video_ok [OF assms(1,2) k _ this, of t env]
    obtain ok l' r' pv' where v: "record_video rescale env t ?k (sys_rec y) = Some (ok, l', r')" "frame (sys_rec y) r'"
      "some_file rescale r'" "audio_pkt l' = drop_config (audio_pkt l)"
      "ok \<Longrightarrow> pts_origin l' = Some t" "ok \<Longrightarrow> loop_ok rescale (y\<lparr>sys_rec := r'\<rparr>) l' pv' pa"
      by (simp del: split_paired_Ex) blast
    show ?thesis
    proof (cases ok)
      case False
      with v(1-3) Inr show ?thesis by (auto simp: packets_record_def Let_def)
    next
      case True
      have c: "rec_ctx r' = Ctx_open" using v(2) assms(2) by (simp add: frame_def)
      have "\<And>a. audio_pkt l' = Some a \<Longrightarrow> rp_pts a \<noteq> None" using drop_config_ok(2) v(4) by simp
      from record_audio_ok [OF assms(1) v(2) c v(6) v(5) this, of env] True
      obtain ok2 l2 r2 where "record_audio rescale env t l' r' = Some (ok2, l2, r2)" "frame (sys_rec y) r2"
        "some_file rescale r2" "ok2 \<longrightarrow> looping rescale l2 (y\<lparr>sys_rec := r2\<rparr>)"
        unfolding looping_def by blast
      with True v(1) Inr show ?thesis by (simp add: packets_record_def Let_def)
    qed
  qed
qed

lemma packets_finish_ok:
  assumes "rec_inv rescale y" "sys_thread y = At_finish l"
  shows "\<exists>r'. packets_finish rescale env l (sys_rec y) = Some (trailer_ok env, r') \<and> static r' = static (sys_rec y) \<and>
    streams_ok r' \<and> video_queue r' = [] \<and> audio_queue r' = [] \<and> rec_ctx r' = Ctx_open \<and>
    ended_ok rescale (trailer_ok env) (y\<lparr>sys_rec := r'\<rparr>)"
proof -
  let ?r = "sys_rec y"
  have th: "rec_ctx ?r = Ctx_open" "rec_stopped ?r" "video_queue ?r = []" "audio_queue ?r = []" "video_pkt l = None"
    "audio_pkt l = None" "looping rescale l y" using assms by (simp_all add: rec_inv_def)
  then obtain pv pa where lp: "loop_ok rescale y l pv pa" by (auto simp: looping_def)
  note f = loop_facts [OF lp, unfolded th(3-6), simplified]
  let ?t = "origin_of l"
  have s: "streams_ok ?r" using assms(1) by (simp add: rec_inv_def)
  have "\<exists>r1. (case video_pkt_previous l of None \<Rightarrow> Some ?r
      | Some p \<Rightarrow> do { (ok, r) \<leftarrow> sc_recorder_write_video rescale (write_last_ok env) (to_mux (Some LAST_DURATION) p) ?r; Some r }) =
      Some r1 \<and> frame ?r r1 \<and> (\<exists>ops. rec_file r1 = rec_file ?r @ ops) \<and>
      (file_is rescale r1 (timed ?t pv @ timed_last ?t pv) (timed_audio ?t pa) \<or> file_is rescale r1 (timed ?t pv) (timed_audio ?t pa))"
  proof (cases "pv = []")
    case True
    with f(4,5) show ?thesis by (simp add: frame_def)
  next
    case False
    then have "accepted_video y \<noteq> []" using f(1) by auto
    then have i: "0 \<le> st_index (video_stream ?r)" "st_index (video_stream ?r) < rec_nb_streams ?r"
      using assms(1) by (auto simp: rec_inv_def video_ok_def Let_def)
    let ?p = "to_mux (Some LAST_DURATION) (shifted ?t (last pv))"
    obtain r1 where "sc_recorder_write_video rescale (write_last_ok env) ?p ?r = Some (write_last_ok env, r1)" "frame ?r r1"
      "file_is rescale r1 (if write_last_ok env then timed ?t pv @ [?p] else timed ?t pv) (timed_audio ?t pa)"
      "\<exists>ops. rec_file r1 = rec_file ?r @ ops" using write_video_spec [OF th(1) i s f(5,6)] by blast
    then show ?thesis using False f(4)
      by (intro exI [of _ r1]) (simp add: timed_last_def split: if_splits)
  qed
  then obtain r1 where r1: "(case video_pkt_previous l of None \<Rightarrow> Some ?r
      | Some p \<Rightarrow> do { (ok, r) \<leftarrow> sc_recorder_write_video rescale (write_last_ok env) (to_mux (Some LAST_DURATION) p) ?r; Some r }) =
      Some r1" "frame ?r r1" "\<exists>ops. rec_file r1 = rec_file ?r @ ops"
      "file_is rescale r1 (timed ?t pv @ timed_last ?t pv) (timed_audio ?t pa) \<or> file_is rescale r1 (timed ?t pv) (timed_audio ?t pa)" by blast
  let ?z = "r1\<lparr>rec_file := rec_file r1 @ [Mux_trailer]\<rparr>"
  have e: "packets_finish rescale env l ?r = Some (trailer_ok env, if trailer_ok env then ?z else r1)"
    using r1(1,2) th(1) by (simp add: packets_finish_def frame_def)
  have "streams_ok r1" using r1(2) s by (simp add: frame_def)
  then have "streams_ok ?z" by (rule streams_static(2) [where ops = "[Mux_trailer]"]) (simp_all add: static_def)
  then have z: "frame ?r ?z" using r1(2) by (simp add: frame_def static_def)
  have fz: "file_is rescale ?z vs as = file_is rescale r1 vs as" for vs as by (simp add: file_is_def)
  have "\<exists>x ops. rec_file ?z = Mux_header x # ops @ [Mux_trailer]" using r1(3) f(9) by auto
  moreover have "rec_stopped ?z" using z th(2) by (simp add: frame_def)
  ultimately have c: "complete rescale (y\<lparr>sys_rec := ?z\<rparr>)"
    using r1(4) unfolding complete_def Let_def fz [symmetric] f(1,2) [symmetric] by auto
  have "some_file rescale r1" using r1(4) by (auto intro: some_fileI)
  with c have "ended_ok rescale (trailer_ok env) (y\<lparr>sys_rec := if trailer_ok env then ?z else r1\<rparr>)"
    by (simp add: ended_ok_def)
  moreover have "frame ?r (if trailer_ok env then ?z else r1)" using z r1(2) by simp
  ultimately show ?thesis using e s th(1,3,4) unfolding frame_def by (intro exI conjI) simp_all
qed

text \<open>The header.\<close>

lemma no_packets_yet: "rec_file r = [] \<Longrightarrow> some_file rescale r"
  by (rule some_fileI [of _ _ "[]" "[]"]) (simp add: file_is_def)

lemma header_take_ok:
  assumes "rec_inv rescale y" "before_header rescale None None y"
  shows "header_take (sys_rec y) = Some None \<or> (\<exists>vp ap r. header_take (sys_rec y) = Some (Some ((vp, ap), r)) \<and>
    static r = static (sys_rec y) \<and> rec_file r = rec_file (sys_rec y) \<and> rec_ctx r = rec_ctx (sys_rec y) \<and>
    (video_queue r \<noteq> [] \<longrightarrow> video_queue (sys_rec y) \<noteq> []) \<and> (audio_queue r \<noteq> [] \<longrightarrow> audio_queue (sys_rec y) \<noteq> []) \<and>
    before_header rescale vp ap (y\<lparr>sys_rec := r\<rparr>))"
proof (cases "rec_stopped (sys_rec y) \<and> rec_video (sys_rec y) \<and> video_queue (sys_rec y) = []")
  case True
  then show ?thesis by (simp add: header_take_def)
next
  case False
  let ?r = "sys_rec y"
  let ?v = "video_expects_config_packet ?r \<and> video_queue ?r \<noteq> []" and ?a = "audio_expects_config_packet ?r \<and> audio_queue ?r \<noteq> []"
  have p: "?v \<Longrightarrow> rec_video ?r" "?a \<Longrightarrow> rec_audio ?r"
    using assms(1) by (auto simp: rec_inv_def video_ok_def audio_ok_def Let_def)
  define vp where "vp = (if ?v then Some (hd (video_queue ?r)) else None)"
  define ap where "ap = (if ?a then Some (hd (audio_queue ?r)) else None)"
  define r where "r = ?r\<lparr>video_queue := if ?v then tl (video_queue ?r) else video_queue ?r,
       audio_queue := if ?a then tl (audio_queue ?r) else audio_queue ?r\<rparr>"
  have e: "header_take ?r = Some (Some ((vp, ap), r))"
    using False p by (auto simp: header_take_def vp_def ap_def r_def)
  have "before_header rescale vp ap (y\<lparr>sys_rec := r\<rparr>)"
    using assms(2) by (simp add: before_header_def vp_def ap_def r_def)
  moreover have "static r = static ?r" "rec_file r = rec_file ?r" "rec_ctx r = rec_ctx ?r"
    "video_queue r \<noteq> [] \<longrightarrow> video_queue ?r \<noteq> []" "audio_queue r \<noteq> [] \<longrightarrow> audio_queue ?r \<noteq> []"
    by (auto simp: r_def static_def)
  ultimately show ?thesis using e by blast
qed

lemma header_config_ok:
  assumes "rec_ctx r = Ctx_open" "pkt \<noteq> None \<longrightarrow> 0 \<le> st_index st \<and> st_index st < rec_nb_streams r"
  shows "\<exists>ok x. header_config alloc pkt st r = Some (ok, r\<lparr>rec_extradata := x\<rparr>) \<and>
    (ok \<longrightarrow> media_packets (option_list pkt) = [])"
proof -
  let ?ok = "case pkt of None \<Rightarrow> True | Some p \<Rightarrow> rp_pts p = None \<and> alloc"
  let ?x = "case pkt of Some p \<Rightarrow> if ?ok then (rec_extradata r)(st_index st := Some (rp_data p)) else rec_extradata r
    | None \<Rightarrow> rec_extradata r"
  have "header_config alloc pkt st r = Some (?ok, r\<lparr>rec_extradata := ?x\<rparr>)"
    using assms by (cases pkt) (simp_all add: header_config_def stream_of_def sc_recorder_set_extradata_def)
  moreover have "?ok \<longrightarrow> media_packets (option_list pkt) = []" by (cases pkt) simp_all
  ultimately show ?thesis by (intro exI conjI)
qed

lemma header_write_ok:
  assumes "rec_inv rescale y" "rec_ctx (sys_rec y) = Ctx_open" "before_header rescale vp ap y"
  shows "\<exists>ok x. header_write env vp ap (sys_rec y) =
      Some (ok, (sys_rec y)\<lparr>rec_extradata := x, rec_file := if ok then [Mux_header x] else []\<rparr>) \<and>
    (ok \<longrightarrow> media_packets (option_list vp) = [] \<and> media_packets (option_list ap) = [])"
proof -
  let ?r = "sys_rec y"
  have f: "rec_file ?r = []" using assms(3) by (simp add: before_header_def)
  have i: "vp \<noteq> None \<longrightarrow> 0 \<le> st_index (video_stream ?r) \<and> st_index (video_stream ?r) < rec_nb_streams ?r"
    "ap \<noteq> None \<longrightarrow> 0 \<le> st_index (audio_stream ?r) \<and> st_index (audio_stream ?r) < rec_nb_streams ?r"
    using assms(1,3) by (auto simp: rec_inv_def video_ok_def audio_ok_def before_header_def Let_def option_list_def)
  obtain ok1 x1 where 1: "header_config (video_extradata_ok env) vp (video_stream ?r) ?r = Some (ok1, ?r\<lparr>rec_extradata := x1\<rparr>)"
    "ok1 \<longrightarrow> media_packets (option_list vp) = []" using header_config_ok [OF assms(2) i(1)] by blast
  let ?r1 = "?r\<lparr>rec_extradata := x1\<rparr>"
  have "rec_ctx ?r1 = Ctx_open" "ap \<noteq> None \<longrightarrow> 0 \<le> st_index (audio_stream ?r) \<and> st_index (audio_stream ?r) < rec_nb_streams ?r1"
    using assms(2) i(2) by simp_all
  from header_config_ok [OF this] obtain ok2 x2 where "header_config (audio_extradata_ok env) ap (audio_stream ?r) ?r1 = Some (ok2, ?r1\<lparr>rec_extradata := x2\<rparr>)"
    and m: "ok2 \<longrightarrow> media_packets (option_list ap) = []"
    by blast
  then have 2: "header_config (audio_extradata_ok env) ap (audio_stream ?r) ?r1 = Some (ok2, ?r\<lparr>rec_extradata := x2\<rparr>)"
    "ok2 \<longrightarrow> media_packets (option_list ap) = []" by simp_all
  have e: "?r\<lparr>rec_extradata := x\<rparr> = ?r\<lparr>rec_extradata := x, rec_file := []\<rparr>" for x using f by (cases ?r) simp
  show ?thesis
  proof (cases "ok1 \<and> ok2 \<and> header_ok env")
    case True
    with 1 2 f assms(2) have "header_write env vp ap ?r = Some (True, ?r\<lparr>rec_extradata := x2, rec_file := [Mux_header x2]\<rparr>)"
      by (simp add: header_write_def)
    with True 1(2) 2(2) show ?thesis by (intro exI [of _ True] exI [of _ x2]) simp
  next
    case False
    with 1 2 assms(2) have "header_write env vp ap ?r = Some (False, ?r\<lparr>rec_extradata := if ok1 then x2 else x1\<rparr>)"
      by (auto simp: header_write_def)
    then have "header_write env vp ap ?r = Some (False, ?r\<lparr>rec_extradata := if ok1 then x2 else x1, rec_file := []\<rparr>)"
      by (simp only: e [symmetric])
    then show ?thesis by (intro exI [of _ False] exI [of _ "if ok1 then x2 else x1"]) simp
  qed
qed

text \<open>The critical section of the loop.\<close>

lemma packets_take_ok:
  assumes "rec_inv rescale y" "looping rescale l y" "\<not> packets_must_wait l (sys_rec y)"
  shows "\<exists>over l' r. packets_take l (sys_rec y) = Some (over, l', r) \<and> static r = static (sys_rec y) \<and>
    rec_file r = rec_file (sys_rec y) \<and> rec_ctx r = rec_ctx (sys_rec y) \<and> rec_stopped r = rec_stopped (sys_rec y) \<and>
    (video_queue r \<noteq> [] \<longrightarrow> video_queue (sys_rec y) \<noteq> []) \<and> (audio_queue r \<noteq> [] \<longrightarrow> audio_queue (sys_rec y) \<noteq> []) \<and>
    looping rescale l' (y\<lparr>sys_rec := r\<rparr>) \<and>
    (over \<longrightarrow> rec_stopped r \<and> video_queue r = [] \<and> audio_queue r = [] \<and> video_pkt l' = None \<and> audio_pkt l' = None)"
proof -
  let ?r = "sys_rec y"
  obtain pv pa where lp: "loop_ok rescale y l pv pa" using assms(2) by (auto simp: looping_def)
  note f = loop_facts [OF lp]
  have q: "video_queue ?r \<noteq> [] \<Longrightarrow> accepted_video y \<noteq> []" "audio_queue ?r \<noteq> [] \<Longrightarrow> accepted_audio y \<noteq> []"
    using assms(1) by (simp_all add: rec_inv_def video_ok_def audio_ok_def Let_def)
  have c: "accepted_video y \<noteq> [] \<longrightarrow> rec_video ?r" "accepted_audio y \<noteq> [] \<longrightarrow> rec_audio ?r"
    using assms(1) by (simp_all add: rec_inv_def video_ok_def audio_ok_def Let_def)
  have p: "rec_video ?r \<or> video_pkt l = None \<and> video_queue ?r = []" using c(1) f(7) q(1) by blast
  have p2: "rec_audio ?r \<or> audio_pkt l = None \<and> audio_queue ?r = []" using c(2) f(8) q(2) by blast
  define l' where "l' = l\<lparr>video_pkt := if video_pkt l = None \<and> video_queue ?r \<noteq> [] then Some (hd (video_queue ?r)) else video_pkt l,
    audio_pkt := if audio_pkt l = None \<and> audio_queue ?r \<noteq> [] then Some (hd (audio_queue ?r)) else audio_pkt l\<rparr>"
  define r where "r = ?r\<lparr>video_queue := if video_pkt l = None \<and> video_queue ?r \<noteq> [] then tl (video_queue ?r) else video_queue ?r,
    audio_queue := if audio_pkt l = None \<and> audio_queue ?r \<noteq> [] then tl (audio_queue ?r) else audio_queue ?r\<rparr>"
  let ?over = "rec_stopped ?r \<and> video_pkt l' = None \<and> audio_pkt l' = None"
  have n: "video_pkt l' = None \<longleftrightarrow> video_pkt l = None \<and> video_queue ?r = []" "audio_pkt l' = None \<longleftrightarrow> audio_pkt l = None \<and> audio_queue ?r = []"
    by (auto simp: l'_def)
  have e: "packets_take l ?r = Some (?over, l', r)"
    using p p2 assms(3) by (cases "video_pkt l"; cases "video_queue ?r"; cases "audio_pkt l"; cases "audio_queue ?r")
      (simp_all add: packets_take_def packets_must_wait_def Let_def l'_def r_def)
  have m: "media_packets (option_list (video_pkt l')) @ media_packets (video_queue r) =
      media_packets (option_list (video_pkt l)) @ media_packets (video_queue ?r)"
    "media_packets (option_list (audio_pkt l')) @ media_packets (audio_queue r) =
      media_packets (option_list (audio_pkt l)) @ media_packets (audio_queue ?r)"
    by (cases "video_queue ?r"; cases "audio_queue ?r"; simp add: l'_def r_def)+
  have "file_is rescale r vs as = file_is rescale ?r vs as" "stamps_are rescale r vs as = stamps_are rescale ?r vs as" for vs as
    by (simp_all add: r_def file_is_def stamps_are_def)
  moreover have "pts_origin l' = pts_origin l" "video_pkt_previous l' = video_pkt_previous l" "origin_of l' = origin_of l"
    "rec_file r = rec_file ?r" by (simp_all add: l'_def r_def origin_of_def)
  moreover have "video_pkt l' \<noteq> None \<longrightarrow> accepted_video y \<noteq> []" using f(7) q(1) n(1) by argo
  moreover have "audio_pkt l' \<noteq> None \<longrightarrow> accepted_audio y \<noteq> []" using f(8) q(2) n(2) by argo
  ultimately have "loop_ok rescale (y\<lparr>sys_rec := r\<rparr>) l' pv pa"
    using f(1-6,9) by (simp add: loop_ok_def m Let_def)
  then have "looping rescale l' (y\<lparr>sys_rec := r\<rparr>)" by (rule loopingI)
  moreover have "static r = static ?r" "rec_file r = rec_file ?r" "rec_ctx r = rec_ctx ?r" "rec_stopped r = rec_stopped ?r"
    "video_queue r \<noteq> [] \<longrightarrow> video_queue ?r \<noteq> []" "audio_queue r \<noteq> [] \<longrightarrow> audio_queue ?r \<noteq> []"
    "?over \<longrightarrow> video_queue r = [] \<and> audio_queue r = []" using n by (auto simp: r_def static_def)
  ultimately show ?thesis using e by (intro exI conjI) auto
qed

lemma thread_ok_thread: "thread_ok rescale th (y\<lparr>sys_thread := t\<rparr>) = thread_ok rescale th y"
  by (cases th) simp_all

lemma thread_stepI:
  assumes "rec_inv rescale y" "run_recorder rescale env (sys_thread y) (sys_rec y) = Some (th, r)"
    "static r = static (sys_rec y)" "streams_ok r"
    "video_queue r \<noteq> [] \<longrightarrow> video_queue (sys_rec y) \<noteq> []" "audio_queue r \<noteq> [] \<longrightarrow> audio_queue (sys_rec y) \<noteq> []"
    "thread_ok rescale th (y\<lparr>sys_rec := r\<rparr>)"
  shows "keeps rescale (rec_step rescale (Thread_step env) y)"
proof -
  have "thread_ok rescale th (y\<lparr>sys_rec := r, sys_thread := th\<rparr>)"
    using assms(7) thread_ok_thread [where y = "y\<lparr>sys_rec := r\<rparr>" and t = th] by simp
  with assms have "rec_inv rescale (y\<lparr>sys_rec := r, sys_thread := th\<rparr>)" by (intro static_parts) auto
  with assms(2) show ?thesis by (simp add: keeps_def)
qed

lemma open_step:
  assumes "rec_inv rescale y" "sys_thread y = At_open"
  shows "keeps rescale (rec_step rescale (Thread_step env) y)"
proof -
  let ?r = "sys_rec y"
  have i: "before_header rescale None None y" "rec_ctx ?r = Ctx_unset" "streams_ok ?r" using assms by (simp_all add: rec_inv_def)
  have b: "before_header rescale None None (y\<lparr>sys_rec := ?r\<lparr>rec_ctx := c\<rparr>\<rparr>)" "ended_ok rescale False (y\<lparr>sys_rec := ?r\<lparr>rec_ctx := c\<rparr>\<rparr>)" for c
    using i(1) by (simp_all add: before_header_def ended_ok_def no_packets_yet)
  have "ended_ok rescale False y" using i(1) by (simp add: before_header_def ended_ok_def no_packets_yet)
  have s: "streams_ok (?r\<lparr>rec_ctx := c\<rparr>)" "static (?r\<lparr>rec_ctx := c\<rparr>) = static ?r" for c
    using i(3) by (simp_all add: streams_ok_def static_def)
  obtain name where n: "sc_recorder_get_format_name (rec_format ?r) = Some name"
    using i(3) by (cases "rec_format ?r") (simp_all add: streams_ok_def)
  have "\<exists>ok c. sc_recorder_open_output_file env ?r = Some (ok, ?r\<lparr>rec_ctx := c\<rparr>) \<and> (ok \<longleftrightarrow> c = Ctx_open)"
  proof (cases "find_muxer (muxers env) (map of_char name) = None \<or> \<not> ctx_alloc_ok env")
    case True
    have "?r = ?r\<lparr>rec_ctx := Ctx_unset\<rparr>" using i(2) by (cases ?r) simp
    with True n have "sc_recorder_open_output_file env ?r = Some (False, ?r\<lparr>rec_ctx := Ctx_unset\<rparr>)"
      by (auto simp: sc_recorder_open_output_file_def)
    then show ?thesis by blast
  next
    case False
    with n have "sc_recorder_open_output_file env ?r = Some (url_ok env \<and> avio_ok env, ?r\<lparr>rec_ctx := if url_ok env \<and> avio_ok env then Ctx_open else Ctx_freed\<rparr>)"
      by (auto simp: sc_recorder_open_output_file_def)
    then show ?thesis by fastforce
  qed
  then obtain ok c where o: "sc_recorder_open_output_file env ?r = Some (ok, ?r\<lparr>rec_ctx := c\<rparr>)" "ok \<longleftrightarrow> c = Ctx_open" by blast
  show ?thesis
    by (rule thread_stepI [OF assms(1), of env "if ok then At_header else At_discard False" "?r\<lparr>rec_ctx := c\<rparr>"])
      (use assms(2) o s b in simp_all)
qed

lemma header_step:
  assumes "rec_inv rescale y" "sys_thread y = At_header"
  shows "keeps rescale (rec_step rescale (Thread_step env) y)"
proof -
  let ?r = "sys_rec y"
  have i: "before_header rescale None None y" "rec_ctx ?r = Ctx_open" "streams_ok ?r" using assms by (simp_all add: rec_inv_def)
  have e: "some_file rescale ?r" using i(1) by (simp add: before_header_def no_packets_yet)
  show ?thesis
  proof (cases "header_must_wait ?r")
    case True
    then show ?thesis using assms i by (intro thread_stepI [OF assms(1), of env At_header ?r]) simp_all
  next
    case False
    from header_take_ok [OF assms(1) i(1)] show ?thesis
    proof (elim disjE exE conjE)
      assume "header_take ?r = Some None"
      then show ?thesis using assms(2) False i e
        by (intro thread_stepI [OF assms(1), of env "At_close False" ?r]) (simp_all add: ended_ok_def)
    next
      fix vp ap r
      assume t: "header_take ?r = Some (Some ((vp, ap), r))" "static r = static ?r" "rec_file r = rec_file ?r" "rec_ctx r = rec_ctx ?r"
        "video_queue r \<noteq> [] \<longrightarrow> video_queue ?r \<noteq> []" "audio_queue r \<noteq> [] \<longrightarrow> audio_queue ?r \<noteq> []"
        "before_header rescale vp ap (y\<lparr>sys_rec := r\<rparr>)"
      show ?thesis using assms(2) False t i(2) streams_static(1) [OF i(3) t(2,3)]
        by (intro thread_stepI [OF assms(1), of env "At_header_write vp ap" r]) simp_all
    qed
  qed
qed

lemma header_write_step:
  assumes "rec_inv rescale y" "sys_thread y = At_header_write vp ap"
  shows "keeps rescale (rec_step rescale (Thread_step env) y)"
proof -
  let ?r = "sys_rec y" and ?l = "\<lparr>pts_origin = None, video_pkt = None, audio_pkt = None, video_pkt_previous = None\<rparr>"
  have i: "before_header rescale vp ap y" "rec_ctx ?r = Ctx_open" "streams_ok ?r" using assms by (simp_all add: rec_inv_def)
  obtain ok x where h: "header_write env vp ap ?r = Some (ok, ?r\<lparr>rec_extradata := x, rec_file := if ok then [Mux_header x] else []\<rparr>)"
    "ok \<longrightarrow> media_packets (option_list vp) = [] \<and> media_packets (option_list ap) = []"
    using header_write_ok [OF assms(1) i(2,1)] by blast
  let ?q = "?r\<lparr>rec_extradata := x, rec_file := if ok then [Mux_header x] else []\<rparr>"
  have f: "file_is rescale ?q [] []" by (simp add: file_is_def)
  have "loop_ok rescale (y\<lparr>sys_rec := ?q\<rparr>) ?l [] []" if ok
    using i(1) h(2) that f by (simp add: loop_ok_def before_header_def origin_of_def stamps_are_def timed_audio_def)
  then have l: "ok \<Longrightarrow> looping rescale ?l (y\<lparr>sys_rec := ?q\<rparr>)" by (auto intro: loopingI)
  have e: "ended_ok rescale False (y\<lparr>sys_rec := ?q\<rparr>)" using some_fileI [OF f] by (simp add: ended_ok_def)
  have s: "static ?q = static ?r" "streams_ok ?q" using i(3) by (auto simp: static_def streams_ok_def)
  have "thread_ok rescale (if ok then At_packets ?l else At_close False) (y\<lparr>sys_rec := ?q\<rparr>)"
    using i(2) l e by (cases ok) simp_all
  then show ?thesis
    by (intro thread_stepI [OF assms(1), of env "if ok then At_packets ?l else At_close False" ?q])
      (use assms(2) h(1) s in simp_all)
qed

lemma packets_step:
  assumes "rec_inv rescale y" "sys_thread y = At_packets l"
  shows "keeps rescale (rec_step rescale (Thread_step env) y)"
proof (cases "packets_must_wait l (sys_rec y)")
  case True
  then show ?thesis using assms by (intro thread_stepI [OF assms(1), of env "At_packets l" "sys_rec y"]) (simp_all add: rec_inv_def)
next
  case False
  have i: "looping rescale l y" "rec_ctx (sys_rec y) = Ctx_open" "streams_ok (sys_rec y)" using assms by (simp_all add: rec_inv_def)
  from packets_take_ok [OF assms(1) i(1) False] obtain over l' r where
    t: "packets_take l (sys_rec y) = Some (over, l', r)" "static r = static (sys_rec y)" "rec_file r = rec_file (sys_rec y)"
      "rec_ctx r = rec_ctx (sys_rec y)" "video_queue r \<noteq> [] \<longrightarrow> video_queue (sys_rec y) \<noteq> []"
      "audio_queue r \<noteq> [] \<longrightarrow> audio_queue (sys_rec y) \<noteq> []" "looping rescale l' (y\<lparr>sys_rec := r\<rparr>)"
      "over \<longrightarrow> rec_stopped r \<and> video_queue r = [] \<and> audio_queue r = [] \<and> video_pkt l' = None \<and> audio_pkt l' = None" by blast
  show ?thesis
    by (rule thread_stepI [OF assms(1), of env "if over then At_finish l' else At_record l'" r])
      (use assms(2) False t i(2) streams_static(1) [OF i(3) t(2,3)] in simp_all)
qed

lemma record_step:
  assumes "rec_inv rescale y" "sys_thread y = At_record l"
  shows "keeps rescale (rec_step rescale (Thread_step env) y)"
proof -
  have i: "looping rescale l y" "rec_ctx (sys_rec y) = Ctx_open" "streams_ok (sys_rec y)" using assms by (simp_all add: rec_inv_def)
  from packets_record_ok [OF assms(1) i(2,1), of env] obtain ok l' r where
    t: "packets_record rescale env l (sys_rec y) = Some (ok, l', r)" "frame (sys_rec y) r" "some_file rescale r"
      "ok \<longrightarrow> looping rescale l' (y\<lparr>sys_rec := r\<rparr>)" by blast
  show ?thesis
    by (rule thread_stepI [OF assms(1), of env "if ok then At_packets l' else At_close False" r])
      (use assms(2) t i(2,3) in \<open>simp_all add: frame_def ended_ok_def\<close>)
qed

lemma finish_step:
  assumes "rec_inv rescale y" "sys_thread y = At_finish l"
  shows "keeps rescale (rec_step rescale (Thread_step env) y)"
proof -
  from packets_finish_ok [OF assms, of env] obtain r where
    t: "packets_finish rescale env l (sys_rec y) = Some (trailer_ok env, r)" "static r = static (sys_rec y)" "streams_ok r"
      "video_queue r = []" "audio_queue r = []" "rec_ctx r = Ctx_open" "ended_ok rescale (trailer_ok env) (y\<lparr>sys_rec := r\<rparr>)" by blast
  show ?thesis
    by (rule thread_stepI [OF assms(1), of env "At_close (trailer_ok env)" r]) (use assms(2) t in simp_all)
qed

lemma last_steps:
  assumes "rec_inv rescale y" "sys_thread y = At_close ok \<or> sys_thread y = At_discard ok \<or> sys_thread y = At_ended ok"
  shows "keeps rescale (rec_step rescale (Thread_step env) y)"
proof -
  let ?r = "sys_rec y"
  have i: "streams_ok ?r" "ended_ok rescale ok y" using assms by (auto simp: rec_inv_def)
  have s: "streams_ok (?r\<lparr>rec_ctx := Ctx_freed\<rparr>)" "streams_ok (?r\<lparr>rec_stopped := True, video_queue := [], audio_queue := []\<rparr>)"
    using i(1) by (simp_all add: streams_ok_def)
  have e: "ended_ok rescale ok (y\<lparr>sys_rec := ?r\<lparr>rec_ctx := Ctx_freed\<rparr>\<rparr>)"
    "ended_ok rescale ok (y\<lparr>sys_rec := ?r\<lparr>rec_stopped := True, video_queue := [], audio_queue := []\<rparr>\<rparr>)"
    using i(2) by (simp_all add: ended_ok_def complete_def some_file_def file_is_def split: if_splits)
  from assms(2) show ?thesis
  proof (elim disjE)
    assume a: "sys_thread y = At_close ok"
    then show ?thesis using assms(1) s e
      by (intro thread_stepI [OF assms(1), of env "At_discard ok" "?r\<lparr>rec_ctx := Ctx_freed\<rparr>"])
        (simp_all add: rec_inv_def sc_recorder_close_output_file_def static_def)
  next
    assume a: "sys_thread y = At_discard ok"
    then show ?thesis using assms(1) s e
      by (intro thread_stepI [OF assms(1), of env "At_ended ok" "?r\<lparr>rec_stopped := True, video_queue := [], audio_queue := []\<rparr>"])
        (simp_all add: rec_inv_def static_def)
  next
    assume "sys_thread y = At_ended ok"
    then show ?thesis using assms(1) by (intro thread_stepI [OF assms(1), of env "At_ended ok" ?r]) (simp_all add: rec_inv_def)
  qed
qed

lemma thread_keeps: "rec_inv rescale y \<Longrightarrow> keeps rescale (rec_step rescale (Thread_step env) y)"
  by (cases "sys_thread y") (blast intro: open_step header_step header_write_step packets_step record_step finish_step last_steps)+

lemma rec_step_keeps: "rec_inv rescale y \<Longrightarrow> rec_valid ev y \<Longrightarrow> \<not> opens_without_file ev y \<Longrightarrow> keeps rescale (rec_step rescale ev y)"
  by (cases ev) (auto simp del: rec_step.simps intro: thread_keeps push_keeps close_keeps disable_keeps video_open_keeps
      audio_open_keeps)

lemma rec_step_no_file: "opens_without_file ev y \<Longrightarrow> rec_step rescale ev y = None"
  by (cases ev) (auto simp: sc_recorder_video_packet_sink_open_def sc_recorder_audio_packet_sink_open_def new_stream_def bind_eq_None_conv)

section \<open>The recorder is safe and complete\<close>

lemma initial_inv:
  assumes "sc_recorder_init a b c format video audio orientation = Some (Some r)" "format \<noteq> SC_RECORD_FORMAT_AUTO"
  shows "rec_inv rescale (rec_initial r)"
proof -
  have o: "sc_orientation_is_mirror orientation = Some False"
    using assms(1) by (auto simp: sc_recorder_init_def split: bind_splits if_splits)
  have "r = \<lparr>rec_audio = audio, rec_video = video, rec_orientation = orientation, rec_format = format,
      rec_ctx = Ctx_unset, rec_nb_streams = 0, rec_extradata = (\<lambda>i. None), rec_display_angle = None,
      rec_stopped = False, video_queue = [], audio_queue = [], video_init = False, audio_init = False,
      video_expects_config_packet = False, audio_expects_config_packet = False,
      video_stream = sc_recorder_stream_init, audio_stream = sc_recorder_stream_init, rec_file = []\<rparr>"
    using assms(1) by (auto simp: sc_recorder_init_def split: bind_splits if_splits)
  with assms(2) o show ?thesis
    by (simp add: rec_inv_def rec_initial_def rec_parts before_header_def sc_recorder_stream_init_def)
qed

lemma rec_reach_inv: "rec_reach rescale y0 y \<Longrightarrow> rec_inv rescale y0 \<Longrightarrow> rec_inv rescale y"
proof (induction rule: rec_reach.induct)
  case (step y ev y')
  then show ?case using rec_step_keeps [of rescale y ev] rec_step_no_file [of ev y rescale] by (auto simp: keeps_def)
qed

lemma inv_some_file: "rec_inv rescale y \<Longrightarrow> some_file rescale (sys_rec y)"
proof -
  assume "rec_inv rescale y"
  then have "thread_ok rescale (sys_thread y) y" by (simp add: rec_inv_def)
  then show ?thesis
    by (cases "sys_thread y") (auto simp: before_header_def looping_def ended_ok_def complete_def Let_def
        intro: no_packets_yet some_fileI dest: loop_facts(5) split: if_splits)
qed

text \<open>C11. What can go wrong in the recorder, for a record format that was resolved: in every state reached by the
  demuxers, the main thread and the recorder thread, in any order and with any failures, an event (with each sink
  opened once, and used while it is open) fails an assertion or uses a context that is not open exactly if it opens a sink
  while the recorder thread has not opened the output file yet or has given it up, which the code does not prevent; and
  at every moment the timestamps written to a stream are strictly increasing, as the muxer requires, whatever
  timestamps the device sent.\<close>

theorem recorder_safe:
  assumes "sc_recorder_init a b c format video audio orientation = Some (Some r)" "format \<noteq> SC_RECORD_FORMAT_AUTO"
    "rec_reach rescale (rec_initial r) y" "rec_valid ev y"
  shows "(rec_step rescale ev y = None \<longleftrightarrow> opens_without_file ev y) \<and>
    (\<forall>st \<in> {video_stream (sys_rec y), audio_stream (sys_rec y)}.
       sorted_wrt (<) (map mux_pts (written (st_index st) (rec_file (sys_rec y)))))"
proof -
  have i: "rec_inv rescale y" by (rule rec_reach_inv [OF assms(3) initial_inv [OF assms(1,2)]])
  obtain vs as where f: "file_is rescale (sys_rec y) vs as" using inv_some_file [OF i] by (auto simp: some_file_def)
  have "sorted_wrt (<) (map mux_pts (stamp rs None ps))" for rs ps using stamp_increasing by blast
  moreover have "rec_step rescale ev y = None \<longleftrightarrow> opens_without_file ev y"
    using rec_step_keeps [OF i assms(4)] rec_step_no_file [of ev y rescale]
    by (cases "opens_without_file ev y") (auto simp: keeps_def simp del: rec_step.simps)
  ultimately show ?thesis using f by (auto simp: file_is_def Let_def)
qed

text \<open>C10. A recording that succeeds is complete: when the recorder thread ends with success, the file has a header and a
  trailer, and between them exactly the media packets the sinks accepted, in order, with their payloads. Their
  timestamps are those of the device relative to a common origin, in the time base of the stream and made
  strictly increasing (unchanged where they are already); each video packet lasts until the next one. Only the
  last video packet may be missing, if its write failed.\<close>

theorem recording_complete:
  assumes "sc_recorder_init a b c format video audio orientation = Some (Some r)" "format \<noteq> SC_RECORD_FORMAT_AUTO"
    "rec_reach rescale (rec_initial r) y" "sys_thread y = At_ended True"
  shows "\<exists>x ops t. let vs = media_packets (accepted_video y); as = media_packets (accepted_audio y);
      i = st_index (video_stream (sys_rec y)); j = st_index (audio_stream (sys_rec y)) in
    rec_file (sys_rec y) = Mux_header x # ops @ [Mux_trailer] \<and>
    written j (rec_file (sys_rec y)) = stamp (rescale j) None (timed_audio t as) \<and>
    written i (rec_file (sys_rec y)) \<in> {stamp (rescale i) None (timed t vs @ timed_last t vs), stamp (rescale i) None (timed t vs)}"
proof -
  have i: "rec_inv rescale y" by (rule rec_reach_inv [OF assms(3) initial_inv [OF assms(1,2)]])
  then have "complete rescale y" using assms(4) by (simp add: rec_inv_def ended_ok_def)
  then obtain x ops t where "rec_file (sys_rec y) = Mux_header x # ops @ [Mux_trailer]"
    "file_is rescale (sys_rec y) (timed t (media_packets (accepted_video y)) @ timed_last t (media_packets (accepted_video y)))
       (timed_audio t (media_packets (accepted_audio y))) \<or>
     file_is rescale (sys_rec y) (timed t (media_packets (accepted_video y))) (timed_audio t (media_packets (accepted_audio y)))"
    unfolding complete_def Let_def by blast
  then show ?thesis by (intro exI [of _ x] exI [of _ ops] exI [of _ t]) (auto simp: file_is_def Let_def)
qed

text \<open>A run of events, each allowed where it happens.\<close>

fun rec_run :: "(int \<Rightarrow> int \<Rightarrow> int) \<Rightarrow> rec_event list \<Rightarrow> rec_system \<Rightarrow> rec_system option" where
  "rec_run rescale [] y = Some y"
| "rec_run rescale (ev # es) y =
     (if rec_valid ev y then do { y \<leftarrow> rec_step rescale ev y; rec_run rescale es y } else None)"

lemma rec_run_reach: "rec_reach rescale y0 y \<Longrightarrow> rec_run rescale es y = Some y' \<Longrightarrow> rec_reach rescale y0 y'"
proof (induction es arbitrary: y)
  case (Cons ev es)
  then show ?case by (auto split: if_splits bind_splits intro: rec_reach.step)
qed simp

text \<open>C12. The audio sink may be opened on a context that was freed: if the output file can not be opened once its context was
  allocated, the context is freed and the recorder thread ends in failure with nothing written; the video sink then
  refuses to open, but the audio sink, which may still be opened, does not look and adds its stream to the freed context.\<close>

theorem late_audio_open:
  assumes "sc_recorder_init a b c format video True orientation = Some (Some r)" "sc_recorder_get_format_name format = Some name"
    "find_muxer (muxers env) (map of_char name) \<noteq> None" "ctx_alloc_ok env" "\<not> url_ok env \<or> \<not> avio_ok env"
  shows "\<exists>y. rec_run rescale [Thread_step env, Thread_step env'] (rec_initial r) = Some y \<and>
    sys_thread y = At_ended False \<and> rec_ctx (sys_rec y) = Ctx_freed \<and> rec_file (sys_rec y) = [] \<and>
    sc_recorder_video_packet_sink_open e vpx (sys_rec y) = Some (False, sys_rec y) \<and>
    rec_valid (Audio_open e pcm) y \<and> sc_recorder_audio_packet_sink_open e pcm (sys_rec y) = None"
proof -
  have r: "rec_format r = format" "rec_file r = []" "\<not> video_init r" "\<not> audio_init r" "rec_audio r"
    using assms(1) by (auto simp: sc_recorder_init_def split: bind_splits if_splits)
  have o: "sc_recorder_open_output_file env r = Some (False, r\<lparr>rec_ctx := Ctx_freed\<rparr>)"
    using assms(2-5) r(1) by (auto simp: sc_recorder_open_output_file_def)
  let ?y = "(rec_initial r)\<lparr>sys_rec := r\<lparr>rec_ctx := Ctx_freed, rec_stopped := True, video_queue := [], audio_queue := []\<rparr>,
    sys_thread := At_ended False\<rparr>"
  have "rec_run rescale [Thread_step env, Thread_step env'] (rec_initial r) = Some ?y"
    using o by (simp add: rec_initial_def)
  with r show ?thesis
    by (intro exI [of _ ?y]) (simp add: rec_initial_def sc_recorder_video_packet_sink_open_def
        sc_recorder_audio_packet_sink_open_def new_stream_def)
qed

section \<open>A concrete recording\<close>

definition all_fine :: rec_env where
  "all_fine = \<lparr>muxers = [[109, 112, 52]], ctx_alloc_ok = True, url_ok = True, avio_ok = True, video_extradata_ok = True,
     audio_extradata_ok = True, header_ok = True, write_video_ok = True, write_audio_ok = True, write_last_ok = True, trailer_ok = True\<rparr>"

definition demo_recorder :: sc_recorder where
  "demo_recorder = \<lparr>rec_audio = True, rec_video = True, rec_orientation = SC_ORIENTATION_0, rec_format = SC_RECORD_FORMAT_MP4,
     rec_ctx = Ctx_unset, rec_nb_streams = 0, rec_extradata = (\<lambda>i. None), rec_display_angle = None,
     rec_stopped = False, video_queue = [], audio_queue = [], video_init = False, audio_init = False,
     video_expects_config_packet = False, audio_expects_config_packet = False,
     video_stream = sc_recorder_stream_init, audio_stream = sc_recorder_stream_init, rec_file = []\<rparr>"

definition demo_events :: "rec_event list" where
  "demo_events = (let e = \<lparr>new_stream_ok = True, parameters_ok = True, side_data_ok = True\<rparr>; step = Thread_step all_fine in
     [step, Video_open e False, Audio_open e True,
      Video_push True True True \<lparr>rp_pts = None, rp_data = [1]\<rparr>, step, step,
      Video_push True True True \<lparr>rp_pts = Some 1000, rp_data = [2]\<rparr>, step, step,
      Audio_push True True True \<lparr>rp_pts = Some 900, rp_data = [3]\<rparr>, step, step,
      Video_push True True True \<lparr>rp_pts = Some 1500, rp_data = [4]\<rparr>, Stop_request, step, step, step, step, step, step])"

lemma demo_init: "sc_recorder_init True True True SC_RECORD_FORMAT_MP4 True True SC_ORIENTATION_0 = Some (Some demo_recorder)"
  by (simp add: sc_recorder_init_def sc_orientation_is_mirror_def SC_ORIENTATION_0_def demo_recorder_def)

lemma demo_ends: "map_option sys_thread (rec_run (\<lambda>i t. t) demo_events (rec_initial demo_recorder)) = Some (At_ended True)"
  by code_simp

text \<open>In the middle of the recording an audio packet can be pushed; before its first step no sink can be opened.\<close>

theorem recorder_safe_witness:
  "(\<exists>y. rec_run (\<lambda>i t. t) (take 12 demo_events) (rec_initial demo_recorder) = Some y \<and>
     (rec_step (\<lambda>i t. t) (Audio_push True True True \<lparr>rp_pts = Some 1200, rp_data = [7]\<rparr>) y \<noteq> None)) \<and>
   rec_step (\<lambda>i t. t) (Audio_open \<lparr>new_stream_ok = True, parameters_ok = True, side_data_ok = True\<rparr> True) (rec_initial demo_recorder) = None"
proof -
  have "map_option asink (rec_run (\<lambda>i t. t) (take 12 demo_events) (rec_initial demo_recorder)) = Some Sink_open" by code_simp
  then obtain y where y: "rec_run (\<lambda>i t. t) (take 12 demo_events) (rec_initial demo_recorder) = Some y" "asink y = Sink_open"
    by (auto simp: map_option_case split: option.splits)
  have "rec_step (\<lambda>i t. t) (Audio_push True True True \<lparr>rp_pts = Some 1200, rp_data = [7]\<rparr>) y \<noteq> None"
    using recorder_safe [OF demo_init _ rec_run_reach [OF rec_reach.start y(1)],
        of "Audio_push True True True \<lparr>rp_pts = Some 1200, rp_data = [7]\<rparr>"] y(2) by (simp del: rec_step.simps)
  moreover have "rec_step (\<lambda>i t. t) (Audio_open \<lparr>new_stream_ok = True, parameters_ok = True, side_data_ok = True\<rparr> True)
      (rec_initial demo_recorder) = None"
    using recorder_safe [OF demo_init _ rec_reach.start, of "Audio_open \<lparr>new_stream_ok = True, parameters_ok = True, side_data_ok = True\<rparr> True"
        "\<lambda>i t. t"] by (simp add: rec_initial_def demo_recorder_def del: rec_step.simps)
  ultimately show ?thesis using y(1) by blast
qed

theorem recording_complete_witness:
  "\<exists>y x ops. rec_run (\<lambda>i t. t) demo_events (rec_initial demo_recorder) = Some y \<and>
    rec_file (sys_rec y) = Mux_header x # ops @ [Mux_trailer]"
proof -
  obtain y where y: "rec_run (\<lambda>i t. t) demo_events (rec_initial demo_recorder) = Some y" "sys_thread y = At_ended True"
    using demo_ends by (auto simp: map_option_case split: option.splits)
  from recording_complete [OF demo_init _ rec_run_reach [OF rec_reach.start y(1)] y(2)] y(1) show ?thesis
    by (auto simp: Let_def)
qed

theorem late_audio_open_witness:
  "\<exists>y. rec_run (\<lambda>i t. t) [Thread_step (all_fine\<lparr>avio_ok := False\<rparr>), Thread_step all_fine] (rec_initial demo_recorder) = Some y \<and>
    rec_ctx (sys_rec y) = Ctx_freed \<and>
    sc_recorder_audio_packet_sink_open \<lparr>new_stream_ok = True, parameters_ok = True, side_data_ok = True\<rparr> True (sys_rec y) = None"
proof -
  have m: "find_muxer (muxers (all_fine\<lparr>avio_ok := False\<rparr>)) (map of_char ''mp4'') \<noteq> None" by code_simp
  show ?thesis
    using late_audio_open [OF demo_init _ m, where rescale = "\<lambda>i t. t" and env' = all_fine
      and e = "\<lparr>new_stream_ok = True, parameters_ok = True, side_data_ok = True\<rparr>" and pcm = True] by (auto simp: all_fine_def)
qed

end
