(* ===== verification/AdbParser.thy ===== *)
theory AdbParser
  imports StrText
begin

text \<open>
  \<^verbatim>\<open>app/src/adb/adb_parser.c\<close> and \<^verbatim>\<open>app/src/adb/adb_device.c\<close>: parsing of the output of \<^verbatim>\<open>adb devices -l\<close> and of
  \<^verbatim>\<open>ip route\<close>. The code cuts its buffer into strings by writing NULs where they end; here a string is the part of
  the buffer before its NUL. No byte of the output is NUL.
\<close>

text \<open>The bytes of a string literal.\<close>

definition lit :: "string \<Rightarrow> byte_buf" where
  "lit s = map of_char s"

lemma length_lit [simp]: "length (lit s) = length s"
  by (simp add: lit_def)

text \<open>\<^verbatim>\<open>!strncmp(p, s, sizeof(p) - 1)\<close>\<close>

definition starts_with :: "byte_buf \<Rightarrow> byte_buf \<Rightarrow> bool" where
  "starts_with p s \<longleftrightarrow> take (length p) s = p"

section \<open>Devices\<close>

record sc_adb_device =
  dev_serial :: byte_buf
  dev_state :: byte_buf
  dev_model :: "byte_buf option"
  dev_selected :: bool

datatype sc_adb_device_type = SC_ADB_DEVICE_TYPE_USB | SC_ADB_DEVICE_TYPE_TCPIP | SC_ADB_DEVICE_TYPE_EMULATOR

text \<open>\<^verbatim>\<open>strstr\<close>\<close>

fun contains_sub :: "byte_buf \<Rightarrow> byte_buf \<Rightarrow> bool" where
  "contains_sub p [] \<longleftrightarrow> p = []"
| "contains_sub p (c # s) \<longleftrightarrow> starts_with p (c # s) \<or> contains_sub p s"

definition sc_adb_device_get_type :: "byte_buf \<Rightarrow> sc_adb_device_type" where
  "sc_adb_device_get_type serial =
     (if starts_with (lit ''emulator-'') serial then SC_ADB_DEVICE_TYPE_EMULATOR
      else if 58 \<in> set serial then SC_ADB_DEVICE_TYPE_TCPIP
      else if contains_sub (lit ''adb-tls-connect'') serial then SC_ADB_DEVICE_TYPE_TCPIP
      else SC_ADB_DEVICE_TYPE_USB)"

section \<open>The list of devices\<close>

definition is_blank :: "u8 \<Rightarrow> bool" where
  "is_blank c \<longleftrightarrow> c = 32 \<or> c = 9"

fun rstrip_len :: "byte_buf \<Rightarrow> nat \<Rightarrow> nat" where
  "rstrip_len s 0 = 0"
| "rstrip_len s (Suc i) = (if is_blank (s ! i) then rstrip_len s i else Suc i)"

fun token_start :: "byte_buf \<Rightarrow> nat \<Rightarrow> nat" where
  "token_start s 0 = 0"
| "token_start s (Suc i) = (if \<not> is_blank (s ! i) then token_start s i else Suc i)"

definition locate_last_token :: "byte_buf \<Rightarrow> nat \<Rightarrow> nat \<times> nat" where
  "locate_last_token s len = (let e = rstrip_len s len in (token_start s e, e))"

definition device_states :: "byte_buf list" where
  "device_states = map lit [''device'', ''unauthorized'', ''offline'', ''bootloader'', ''host'', ''recovery'', ''rescue'',
     ''sideload'', ''authorizing'', ''connecting'', ''detached'']"

definition is_device_state :: "byte_buf \<Rightarrow> bool" where
  "is_device_state s \<longleftrightarrow> s \<in> set device_states"

lemma rstrip_len_le: "rstrip_len s n \<le> n"
  by (induction s n rule: rstrip_len.induct) auto

lemma token_start_le: "token_start s n \<le> n"
  by (induction s n rule: token_start.induct) auto

text \<open>The loop that reads the tokens backwards, until the state; the result is its start, the state and the model.\<close>

function parse_tokens :: "byte_buf \<Rightarrow> nat \<Rightarrow> byte_buf option \<Rightarrow> (nat \<times> byte_buf \<times> byte_buf option) option" where
  "parse_tokens line len model =
     (let (start, e) = locate_last_token line len in
      if start = e then None
      else let token = take (e - start) (drop start line) in
        if starts_with (lit ''model:'') token then parse_tokens line start (Some (drop 6 token))
        else if is_device_state token then Some (start, token, model)
        else parse_tokens line start model)"
  by pat_completeness auto
termination
proof (relation "measure (\<lambda>(line, len, m). len)", goal_cases)
  case 1
  show ?case by simp
next
  case (2 line len m x start e token)
  then have "start < len"
    using rstrip_len_le [of line len] token_start_le [of line e] by (auto simp: locate_last_token_def Let_def)
  then show ?case by simp
next
  case (3 line len m x start e token)
  then have "start < len"
    using rstrip_len_le [of line len] token_start_le [of line e] by (auto simp: locate_last_token_def Let_def)
  then show ?case by simp
qed

declare parse_tokens.simps [simp del]

text \<open>The flags are the success of the three \<^verbatim>\<open>strdup\<close>.\<close>

definition sc_adb_parse_device :: "bool \<Rightarrow> bool \<Rightarrow> bool \<Rightarrow> byte_buf \<Rightarrow> sc_adb_device option" where
  "sc_adb_parse_device serial_ok state_ok model_ok line =
     (if line \<noteq> [] \<and> hd line = 42 then None
      else if starts_with (lit ''adb server'') line then None
      else do {
        (start, state, model) \<leftarrow> parse_tokens line (length line) None;
        let serial_len = rstrip_len line start;
        if serial_len = 0 then None
        else if \<not> serial_ok then None
        else if \<not> state_ok then None
        else Some \<lparr>dev_serial = take serial_len line, dev_state = state,
               dev_model = (if model_ok then model else None), dev_selected = False\<rparr>
      })"

definition devices_header :: byte_buf where
  "devices_header = lit ''List of devices attached''"

text \<open>\<open>mem n\<close> tells what can be allocated for line \<open>n\<close>: the three strings and the place in the vector. The result is whether
  the header was found, and the devices.\<close>

type_synonym line_memory = "nat \<Rightarrow> bool \<times> bool \<times> bool \<times> bool"

function parse_device_lines ::
  "line_memory \<Rightarrow> nat \<Rightarrow> bool \<Rightarrow> sc_adb_device list \<Rightarrow> byte_buf \<Rightarrow> (bool \<times> sc_adb_device list) option" where
  "parse_device_lines mem n header_found out str =
     (if str = [] then Some (header_found, out)
      else do {
        let len = length (takeWhile (\<lambda>c. c \<noteq> 10) str);
        let rest = drop (len + 1) str;
        if \<not> header_found then parse_device_lines mem (n + 1) (starts_with devices_header str) out rest
        else do {
          (line_len, str) \<leftarrow> sc_str_remove_trailing_cr str len;
          let (serial_ok, state_ok, model_ok, push_ok) = mem n;
          parse_device_lines mem (n + 1) header_found
            (case sc_adb_parse_device serial_ok state_ok model_ok (take line_len str) of
               None \<Rightarrow> out
             | Some device \<Rightarrow> if push_ok then out @ [device] else out) rest
        }
      })"
  by pat_completeness auto
termination by (relation "measure (\<lambda>(mem, n, h, out, str). length str)") auto

declare parse_device_lines.simps [simp del]

definition sc_adb_parse_devices :: "line_memory \<Rightarrow> byte_buf \<Rightarrow> (bool \<times> sc_adb_device list) option" where
  "sc_adb_parse_devices mem str = do {
     (header_found, out) \<leftarrow> parse_device_lines mem 0 False [] str;
     c_assert (header_found \<or> out = []);
     Some (header_found, out)
   }"

section \<open>The address of a device\<close>

text \<open>\<open>dup_ok\<close> tells whether the address can be copied.\<close>

definition sc_adb_parse_device_ip_from_line :: "bool \<Rightarrow> byte_buf \<Rightarrow> byte_buf option" where
  "sc_adb_parse_device_ip_from_line dup_ok line = do {
     idx_dev_name \<leftarrow> sc_str_index_of_column line 2 [32];
     idx_ip \<leftarrow> sc_str_index_of_column (drop idx_dev_name line) 6 [32];
     let dev_name = takeWhile (\<lambda>c. c \<noteq> 32 \<and> c \<noteq> 9) (drop idx_dev_name line);
     let ip = takeWhile (\<lambda>c. c \<noteq> 32 \<and> c \<noteq> 9) (drop (idx_ip + idx_dev_name) line);
     if \<not> starts_with (lit ''wlan'') dev_name then None
     else if dup_ok then Some ip else None
   }"

text \<open>The outer option is an access outside the buffer.\<close>

function sc_adb_parse_device_ip :: "bool \<Rightarrow> byte_buf \<Rightarrow> byte_buf option option" where
  "sc_adb_parse_device_ip dup_ok str =
     (if str = [] then Some None
      else do {
        let len = length (takeWhile (\<lambda>c. c \<noteq> 10) str);
        (line_len, str') \<leftarrow> sc_str_remove_trailing_cr str len;
        case sc_adb_parse_device_ip_from_line dup_ok (take line_len str') of
          Some ip \<Rightarrow> Some (Some ip)
        | None \<Rightarrow> if len = length str then Some None else sc_adb_parse_device_ip dup_ok (drop (len + 1) str)
      })"
  by pat_completeness auto
termination by (relation "measure (\<lambda>(ok, str). length str)") auto

declare sc_adb_parse_device_ip.simps [simp del]

section \<open>What adb prints\<close>

definition token :: "byte_buf \<Rightarrow> bool" where
  "token t \<longleftrightarrow> t \<noteq> [] \<and> (\<forall>c \<in> set t. \<not> is_blank c \<and> c \<noteq> 10 \<and> c \<noteq> 13)"

text \<open>A device as it is listed: the serial, blanks, the state and more tokens, each after a space.\<close>

record listed_device =
  ls_serial :: byte_buf
  ls_blanks :: byte_buf
  ls_state :: byte_buf
  ls_attrs :: "byte_buf list"

definition print_attrs :: "byte_buf list \<Rightarrow> byte_buf" where
  "print_attrs as = concat (map (\<lambda>a. 32 # a) as)"

definition print_device :: "listed_device \<Rightarrow> byte_buf" where
  "print_device d = ls_serial d @ ls_blanks d @ ls_state d @ print_attrs (ls_attrs d)"

definition model_of :: "byte_buf list \<Rightarrow> byte_buf option" where
  "model_of as = (case filter (starts_with (lit ''model:'')) as of [] \<Rightarrow> None | a # _ \<Rightarrow> Some (drop 6 a))"

definition as_device :: "listed_device \<Rightarrow> sc_adb_device" where
  "as_device d = \<lparr>dev_serial = ls_serial d, dev_state = ls_state d, dev_model = model_of (ls_attrs d), dev_selected = False\<rparr>"

definition listed_ok :: "listed_device \<Rightarrow> bool" where
  "listed_ok d \<longleftrightarrow> ls_serial d \<noteq> [] \<and> \<not> is_blank (last (ls_serial d)) \<and> 10 \<notin> set (ls_serial d) \<and> hd (ls_serial d) \<noteq> 42 \<and>
     \<not> starts_with (lit ''adb server'') (print_device d) \<and>
     ls_blanks d \<noteq> [] \<and> (\<forall>c \<in> set (ls_blanks d). is_blank c) \<and> is_device_state (ls_state d) \<and>
     (\<forall>a \<in> set (ls_attrs d). token a \<and> \<not> is_device_state a)"

lemma rstrip_prefix: "n \<le> length s \<Longrightarrow> rstrip_len (s @ r) n = rstrip_len s n"
  by (induction s n rule: rstrip_len.induct) (auto simp: nth_append)

lemma token_start_prefix: "n \<le> length s \<Longrightarrow> token_start (s @ r) n = token_start s n"
  by (induction s n rule: token_start.induct) (auto simp: nth_append)

lemma rstrip_none: "s \<noteq> [] \<Longrightarrow> \<not> is_blank (last s) \<Longrightarrow> rstrip_len (s @ r) (length s) = length s"
  by (cases s rule: rev_cases) (auto simp: nth_append)

lemma rstrip_blanks:
  "(\<forall>c \<in> set b. is_blank c) \<Longrightarrow> rstrip_len (s @ b @ r) (length s + length b) = rstrip_len (s @ b @ r) (length s)"
proof (induction b arbitrary: r rule: rev_induct)
  case (snoc c b)
  from snoc.IH [of "c # r"] snoc.prems show ?case by (simp add: nth_append)
qed simp

lemma token_start_run:
  "(\<forall>c \<in> set t. \<not> is_blank c) \<Longrightarrow> token_start (s @ t @ r) (length s + length t) = token_start (s @ t @ r) (length s)"
proof (induction t arbitrary: r rule: rev_induct)
  case (snoc c t)
  from snoc.IH [of "c # r"] snoc.prems show ?case by (simp add: nth_append)
qed simp

lemma locate_token:
  assumes "t \<noteq> []" "\<forall>c \<in> set t. \<not> is_blank c" "s \<noteq> []" "is_blank (last s)"
  shows "locate_last_token (s @ t @ r) (length s + length t) = (length s, length s + length t)"
proof -
  have "rstrip_len (s @ t @ r) (length s + length t) = length s + length t"
    using rstrip_none [of "s @ t" r] assms by simp
  moreover have "token_start (s @ t @ r) (length s + length t) = length s"
    using token_start_run [OF assms(2), of s r] assms(3,4) by (cases s rule: rev_cases) (auto simp: nth_append)
  ultimately show ?thesis by (simp add: locate_last_token_def)
qed

lemma parse_tokens_step:
  assumes "t \<noteq> []" "\<forall>c \<in> set t. \<not> is_blank c" "s \<noteq> []" "is_blank (last s)"
  shows "parse_tokens (s @ t @ r) (length s + length t) m =
    (if starts_with (lit ''model:'') t then parse_tokens (s @ t @ r) (length s) (Some (drop 6 t))
     else if is_device_state t then Some (length s, t, m) else parse_tokens (s @ t @ r) (length s) m)"
  using assms(1) by (subst parse_tokens.simps) (simp add: locate_token [OF assms])

lemma state_token:
  assumes "is_device_state s"
  shows "token s" "\<not> starts_with (lit ''model:'') s"
proof -
  have "\<forall>s \<in> set device_states. token s \<and> \<not> starts_with (lit ''model:'') s" by code_simp
  with assms show "token s" "\<not> starts_with (lit ''model:'') s" by (auto simp: is_device_state_def)
qed

lemma parse_tokens_blank: "is_blank (s ! n) \<Longrightarrow> parse_tokens s (Suc n) m = parse_tokens s n m"
  by (subst (1 2) parse_tokens.simps) (simp add: locate_last_token_def)

lemma parse_attrs:
  assumes "x \<noteq> []" "is_blank (last x)" "is_device_state st" "\<forall>a \<in> set as. token a \<and> \<not> is_device_state a"
  shows "parse_tokens (x @ st @ print_attrs as @ r) (length (x @ st @ print_attrs as)) m =
    Some (length x, st, case model_of as of None \<Rightarrow> m | Some v \<Rightarrow> Some v)"
  using assms(4)
proof (induction as arbitrary: r m rule: rev_induct)
  case Nil
  show ?case
    using parse_tokens_step [of st x r m] state_token [OF assms(3)] assms(1-3) by (simp add: print_attrs_def model_of_def token_def)
next
  case (snoc a as)
  let ?y = "x @ st @ print_attrs as @ [32]" and ?l = "(x @ st @ print_attrs as) @ 32 # a @ r"
  have a: "token a" "\<not> is_device_state a" using snoc.prems by simp_all
  have l: "x @ st @ print_attrs (as @ [a]) @ r = ?y @ a @ r" "?y @ a @ r = ?l"
    "length (x @ st @ print_attrs (as @ [a])) = length ?y + length a" by (simp_all add: print_attrs_def)
  have blank: "parse_tokens ?l (length ?y) m' = parse_tokens ?l (length (x @ st @ print_attrs as)) m'" for m'
    using parse_tokens_blank [of ?l "length (x @ st @ print_attrs as)" m'] nth_append_length [of "x @ st @ print_attrs as"]
    by (simp add: is_blank_def)
  have ih: "parse_tokens ?l (length (x @ st @ print_attrs as)) m' =
    Some (length x, st, case model_of as of None \<Rightarrow> m' | Some v \<Rightarrow> Some v)" for m'
    using snoc.IH [of "32 # a @ r" m'] snoc.prems by simp
  have "parse_tokens (?y @ a @ r) (length ?y + length a) m =
    Some (length x, st, case model_of as of None \<Rightarrow> (if starts_with (lit ''model:'') a then Some (drop 6 a) else m) | Some v \<Rightarrow> Some v)"
    using parse_tokens_step [of a ?y r m] a blank ih unfolding l(2) by (simp add: token_def is_blank_def del: append_assoc)
  then show ?case unfolding l(1,3) by (auto simp: model_of_def split: list.splits option.splits)
qed

lemma parse_device_printed:
  assumes "listed_ok d"
  shows "sc_adb_parse_device True True True (print_device d) = Some (as_device d)"
proof -
  let ?x = "ls_serial d @ ls_blanks d"
  have ok: "ls_serial d \<noteq> []" "\<not> is_blank (last (ls_serial d))" "hd (ls_serial d) \<noteq> 42" "ls_blanks d \<noteq> []"
    "\<forall>c \<in> set (ls_blanks d). is_blank c" "is_device_state (ls_state d)" "\<forall>a \<in> set (ls_attrs d). token a \<and> \<not> is_device_state a"
    "\<not> starts_with (lit ''adb server'') (print_device d)"
    using assms by (simp_all add: listed_ok_def)
  have p: "print_device d = ?x @ ls_state d @ print_attrs (ls_attrs d) @ []" by (simp add: print_device_def)
  have "parse_tokens (print_device d) (length (print_device d)) None = Some (length ?x, ls_state d, model_of (ls_attrs d))"
    using parse_attrs [of ?x "ls_state d" "ls_attrs d" "[]" None] ok unfolding p by (simp add: option.case_eq_if)
  moreover have "rstrip_len (print_device d) (length ?x) = length (ls_serial d)"
    using rstrip_blanks [OF ok(5), of "ls_serial d"] rstrip_none [OF ok(1,2)] by (simp add: print_device_def)
  moreover have "hd (print_device d) \<noteq> 42" "take (length (ls_serial d)) (print_device d) = ls_serial d"
    using ok(1,3) by (simp_all add: print_device_def)
  ultimately show ?thesis using ok(1,8) by (simp add: sc_adb_parse_device_def as_device_def)
qed

text \<open>The output: some lines before the header, the header, and the lines of the devices with, among them, empty lines and
  messages of the daemon. A line ends with a line feed, after a carriage return or not.\<close>

datatype listing_line = Listed listed_device | Noise byte_buf

fun line_text :: "listing_line \<Rightarrow> byte_buf" where
  "line_text (Listed d) = print_device d"
| "line_text (Noise t) = t"

fun line_ok :: "listing_line \<Rightarrow> bool" where
  "line_ok (Listed d) \<longleftrightarrow> listed_ok d"
| "line_ok (Noise t) \<longleftrightarrow> 10 \<notin> set t \<and> (t = [] \<or> hd t = 42 \<and> last t \<noteq> 13)"

fun line_devices :: "listing_line \<Rightarrow> sc_adb_device list" where
  "line_devices (Listed d) = [as_device d]"
| "line_devices (Noise t) = []"

definition eol :: "bool \<Rightarrow> byte_buf" where
  "eol cr = (if cr then [13, 10] else [10])"

definition print_lines :: "bool \<Rightarrow> byte_buf list \<Rightarrow> byte_buf" where
  "print_lines cr ts = concat (map (\<lambda>t. t @ eol cr) ts)"

definition print_listing :: "bool \<Rightarrow> byte_buf list \<Rightarrow> listing_line list \<Rightarrow> byte_buf" where
  "print_listing cr before ls = print_lines cr (before @ [devices_header] @ map line_text ls)"

lemma print_lines_simps [simp]:
  "print_lines cr [] = []" "print_lines cr (t # ts) = t @ eol cr @ print_lines cr ts"
  by (simp_all add: print_lines_def)

lemma print_attrs_last:
  assumes "\<forall>a \<in> set as. token a" "token st"
  shows "10 \<notin> set (st @ print_attrs as)" "last (st @ print_attrs as) \<noteq> 13" "st @ print_attrs as \<noteq> []"
proof -
  show "10 \<notin> set (st @ print_attrs as)" "st @ print_attrs as \<noteq> []" using assms by (auto simp: token_def print_attrs_def)
  show "last (st @ print_attrs as) \<noteq> 13"
  proof (cases as rule: rev_cases)
    case (snoc bs a)
    with assms(1) have "token a" by simp
    then have "a \<noteq> []" "last a \<noteq> 13" using last_in_set [of a] by (auto simp: token_def)
    then show ?thesis by (simp add: snoc print_attrs_def)
  qed (use assms(2) last_in_set [of st] in \<open>auto simp: token_def print_attrs_def\<close>)
qed

lemma line_text_ok:
  assumes "line_ok l"
  shows "10 \<notin> set (line_text l)" "line_text l = [] \<or> last (line_text l) \<noteq> 13"
    "sc_adb_parse_device True True True (line_text l) = (case line_devices l of [] \<Rightarrow> None | d # _ \<Rightarrow> Some d)"
proof -
  have "10 \<notin> set (line_text l) \<and> (line_text l = [] \<or> last (line_text l) \<noteq> 13)"
  proof (cases l)
    case (Listed d)
    with assms have ok: "listed_ok d" by simp
    then have "10 \<notin> set (ls_serial d @ ls_blanks d)" by (auto simp: listed_ok_def is_blank_def)
    moreover have "10 \<notin> set (ls_state d @ print_attrs (ls_attrs d))" "last (ls_state d @ print_attrs (ls_attrs d)) \<noteq> 13"
      "ls_state d @ print_attrs (ls_attrs d) \<noteq> []"
      using print_attrs_last [of "ls_attrs d" "ls_state d"] ok state_token(1) [of "ls_state d"] by (auto simp: listed_ok_def)
    ultimately show ?thesis unfolding Listed line_text.simps print_device_def by (auto simp: last_append)
  qed (use assms in auto)
  then show "10 \<notin> set (line_text l)" "line_text l = [] \<or> last (line_text l) \<noteq> 13" by blast+
  have "parse_tokens [] 0 None = None" by (subst parse_tokens.simps) (simp add: locate_last_token_def)
  moreover have "\<not> starts_with (lit ''adb server'') []" by (simp add: starts_with_def lit_def)
  ultimately show "sc_adb_parse_device True True True (line_text l) = (case line_devices l of [] \<Rightarrow> None | d # _ \<Rightarrow> Some d)"
    using assms parse_device_printed by (cases l) (auto simp: sc_adb_parse_device_def)
qed

lemma takeWhile_line: "10 \<notin> set t \<Longrightarrow> takeWhile (\<lambda>c. c \<noteq> 10) (t @ eol cr @ r) = t @ (if cr then [13] else [])"
  by (subst takeWhile_append2) (auto simp: eol_def)

lemma cr_removed:
  assumes "t = [] \<or> last t \<noteq> 13" "l = t @ (if cr then [13] else [])"
  shows "\<exists>s'. sc_str_remove_trailing_cr (l @ r) (length l) = Some (length t, s') \<and> take (length t) s' = t"
proof -
  have "rev (dropWhile (\<lambda>c. c = 13) (rev l)) = t" using assms by (cases t rule: rev_cases) auto
  with remove_trailing_cr_eq [of l "length l" r] show ?thesis by (simp add: Let_def)
qed

lemma parse_line_step:
  assumes "str \<noteq> []" "length (takeWhile (\<lambda>c. c \<noteq> 10) str) = len" "sc_str_remove_trailing_cr str len = Some (k, s')" "drop (len + 1) str = r"
  shows "parse_device_lines (\<lambda>_. (True, True, True, True)) n True out str =
    parse_device_lines (\<lambda>_. (True, True, True, True)) (n + 1) True
      (case sc_adb_parse_device True True True (take k s') of None \<Rightarrow> out | Some device \<Rightarrow> out @ [device]) r"
  using assms by (subst parse_device_lines.simps) (simp cong: option.case_cong)

lemma parse_listed_lines:
  assumes "\<forall>l \<in> set ls. line_ok l"
  shows "parse_device_lines (\<lambda>_. (True, True, True, True)) n True out (print_lines cr (map line_text ls)) =
    Some (True, out @ concat (map line_devices ls))"
  using assms
proof (induction ls arbitrary: n out)
  case Nil
  show ?case by (subst parse_device_lines.simps) simp
next
  case (Cons l ls)
  let ?t = "line_text l" and ?r = "print_lines cr (map line_text ls)" and ?cr = "if cr then [13] else [] :: byte_buf"
  note ok = line_text_ok [of l]
  have l: "line_ok l" using Cons.prems by simp
  have tw: "takeWhile (\<lambda>c. c \<noteq> 10) (?t @ eol cr @ ?r) = ?t @ ?cr" using ok(1) [OF l] by (rule takeWhile_line)
  have e: "?t @ eol cr @ ?r = (?t @ ?cr) @ 10 # ?r" by (simp add: eol_def)
  obtain s' where s': "sc_str_remove_trailing_cr (?t @ eol cr @ ?r) (length (?t @ ?cr)) = Some (length ?t, s')" "take (length ?t) s' = ?t"
    using cr_removed [OF ok(2) [OF l] refl, of cr "10 # ?r"] unfolding e by blast
  have d: "drop (length (?t @ ?cr) + 1) (?t @ eol cr @ ?r) = ?r" unfolding e by simp
  have "parse_device_lines (\<lambda>_. (True, True, True, True)) n True out (?t @ eol cr @ ?r) =
    parse_device_lines (\<lambda>_. (True, True, True, True)) (n + 1) True
      (case sc_adb_parse_device True True True ?t of None \<Rightarrow> out | Some device \<Rightarrow> out @ [device]) ?r"
    using parse_line_step [OF _ _ s'(1) d] s'(2) tw by (simp add: eol_def)
  also have "(case sc_adb_parse_device True True True ?t of None \<Rightarrow> out | Some device \<Rightarrow> out @ [device]) = out @ line_devices l"
    using ok(3) [OF l] by (cases l) auto
  finally show ?case using Cons by simp
qed

lemma starts_with_line:
  assumes "starts_with h (t @ c # r)" "c \<notin> set h"
  shows "starts_with h t"
proof (cases "length h \<le> length t")
  case True
  with assms show ?thesis by (simp add: starts_with_def)
next
  case False
  then have "c \<in> set (take (length h) (t @ c # r))" by (simp add: take_Cons')
  with assms show ?thesis by (simp add: starts_with_def)
qed

lemma parse_before_header:
  assumes "\<forall>t \<in> set before. 10 \<notin> set t \<and> \<not> starts_with devices_header t"
  shows "\<exists>n'. parse_device_lines mem n False out (print_lines cr (before @ ts)) = parse_device_lines mem n' False out (print_lines cr ts)"
  using assms
proof (induction before arbitrary: n)
  case (Cons t before)
  let ?r = "print_lines cr (before @ ts)"
  have "13 \<notin> set devices_header" "10 \<notin> set devices_header" by code_simp+
  then have "\<not> starts_with devices_header (t @ eol cr @ ?r)"
    using Cons.prems starts_with_line [of devices_header t] by (auto simp: eol_def)
  moreover have "takeWhile (\<lambda>c. c \<noteq> 10) (t @ eol cr @ ?r) = t @ (if cr then [13] else [])"
    using Cons.prems by (intro takeWhile_line) simp
  ultimately have "parse_device_lines mem n False out (print_lines cr ((t # before) @ ts)) = parse_device_lines mem (n + 1) False out ?r"
    by (subst parse_device_lines.simps) (auto simp: eol_def)
  with Cons.IH [of "n + 1"] Cons.prems show ?case by auto
qed auto

text \<open>C22. The list of devices is read back: for whatever \<^verbatim>\<open>adb devices -l\<close> prints, with either line ending, lines
  before the header, and empty lines and messages of the daemon among the devices, the result is exactly the
  listed devices, in order, each with its serial (even one that contains spaces), state and model.\<close>

theorem adb_devices_roundtrip:
  assumes "\<forall>t \<in> set before. 10 \<notin> set t \<and> \<not> starts_with devices_header t" "\<forall>l \<in> set ls. line_ok l"
  shows "sc_adb_parse_devices (\<lambda>_. (True, True, True, True)) (print_listing cr before ls) =
    Some (True, concat (map line_devices ls))"
proof -
  let ?mem = "\<lambda>_ :: nat. (True, True, True, True)" and ?ts = "map line_text ls"
  obtain n where n: "parse_device_lines ?mem 0 False [] (print_listing cr before ls) =
      parse_device_lines ?mem n False [] (print_lines cr (devices_header # ?ts))"
    using parse_before_header [OF assms(1), of ?mem 0 "[]" cr "devices_header # ?ts"] by (auto simp: print_listing_def)
  have h: "10 \<notin> set devices_header" "devices_header \<noteq> []" by code_simp+
  have "takeWhile (\<lambda>c. c \<noteq> 10) (devices_header @ eol cr @ print_lines cr ?ts) = devices_header @ (if cr then [13] else [])"
    using h(1) by (rule takeWhile_line)
  then have "parse_device_lines ?mem n False [] (print_lines cr (devices_header # ?ts)) =
      parse_device_lines ?mem (n + 1) True [] (print_lines cr ?ts)"
    using h(2) by (subst parse_device_lines.simps) (simp add: eol_def starts_with_def)
  with n parse_listed_lines [OF assms(2), of "n + 1" "[]" cr] show ?thesis by (simp add: sc_adb_parse_devices_def)
qed

definition demo_listing :: "listing_line list" where
  "demo_listing =
     [Listed \<lparr>ls_serial = lit ''0123 456'', ls_blanks = [9], ls_state = lit ''device'',
        ls_attrs = [lit ''usb:2-1'', lit ''model:MyModel'', lit ''device:MyDevice'']\<rparr>,
      Noise (lit ''* daemon started''),
      Listed \<lparr>ls_serial = lit ''192.168.1.1:5555'', ls_blanks = [32, 32], ls_state = lit ''offline'', ls_attrs = []\<rparr>,
      Noise []]"

theorem adb_devices_roundtrip_witness:
  "sc_adb_parse_devices (\<lambda>_. (True, True, True, True)) (print_listing True [lit ''* starting''] demo_listing) =
   Some (True, [\<lparr>dev_serial = lit ''0123 456'', dev_state = lit ''device'', dev_model = Some (lit ''MyModel''), dev_selected = False\<rparr>,
     \<lparr>dev_serial = lit ''192.168.1.1:5555'', dev_state = lit ''offline'', dev_model = None, dev_selected = False\<rparr>])"
proof -
  have "\<forall>l \<in> set demo_listing. line_ok l" by code_simp
  moreover have "\<forall>t \<in> set [lit ''* starting'']. 10 \<notin> set t \<and> \<not> starts_with devices_header t" by code_simp
  moreover have "concat (map line_devices demo_listing) =
    [\<lparr>dev_serial = lit ''0123 456'', dev_state = lit ''device'', dev_model = Some (lit ''MyModel''), dev_selected = False\<rparr>,
     \<lparr>dev_serial = lit ''192.168.1.1:5555'', dev_state = lit ''offline'', dev_model = None, dev_selected = False\<rparr>]" by code_simp
  ultimately show ?thesis using adb_devices_roundtrip by simp
qed

text \<open>The example of the source.\<close>

lemma demo_device_ip:
  "sc_adb_parse_device_ip True (lit ''10.0.0.0/24 dev rmnet proto kernel scope link src 10.0.0.3'' @ [13, 10] @
     lit ''192.168.1.0/24 dev wlan0  proto kernel  scope link  src 192.168.1.7'') = Some (Some (lit ''192.168.1.7''))"
  by code_simp

end
