(* ===== verification/Adb.thy ===== *)
theory Adb
  imports AdbParser StrParse
begin

text \<open>
  \<^verbatim>\<open>app/src/adb/adb.c\<close> and \<^verbatim>\<open>app/src/adb/adb_tunnel.c\<close>: the commands given to adb, the choice of a device and
  the tunnel to it. A command is executed in a world that answers it and keeps the log of the commands; how adb
  answers is a parameter of the world, indexed by the length of the log.
\<close>

section \<open>Printing a command\<close>

text \<open>\<^verbatim>\<open>argv_to_string\<close>: \<open>buf\<close> is the destination, \<open>idx\<close> the position in it.\<close>

fun argv_loop :: "byte_buf list \<Rightarrow> bool \<Rightarrow> nat \<Rightarrow> byte_buf \<Rightarrow> (nat \<times> byte_buf) option" where
  "argv_loop [] first idx buf = Some (idx, buf)"
| "argv_loop (arg # argv) first idx buf =
     (let len = length arg in
      if idx + len + 8 \<ge> length buf then do {
        c_assert (idx + 4 < length buf);
        buf \<leftarrow> mem_write idx (lit ''...'') buf;
        Some (idx + 3, buf)
      } else do {
        (idx, buf) \<leftarrow> (if first then Some (idx, buf)
                      else do { buf \<leftarrow> mem_set idx 44 buf; buf \<leftarrow> mem_set (idx + 1) 32 buf; Some (idx + 2, buf) });
        buf \<leftarrow> mem_set idx 91 buf;
        buf \<leftarrow> mem_write (idx + 1) arg buf;
        buf \<leftarrow> mem_set (idx + 1 + len) 93 buf;
        argv_loop argv False (idx + len + 2) buf
      })"

definition argv_to_string :: "byte_buf list \<Rightarrow> byte_buf \<Rightarrow> (nat \<times> byte_buf) option" where
  "argv_to_string argv buf = do {
     (idx, buf) \<leftarrow> argv_loop argv True 0 buf;
     c_assert (idx < length buf);
     buf \<leftarrow> mem_set idx 0 buf;
     Some (idx, buf)
   }"

lemma argv_loop_ok:
  assumes "idx + 4 < length buf"
  shows "\<exists>i b. argv_loop argv first idx buf = Some (i, b) \<and> i < length b \<and> length b = length buf"
  using assms
proof (induction argv arbitrary: first idx buf)
  case (Cons arg argv)
  show ?case
  proof (cases "idx + length arg + 8 \<ge> length buf")
    case True
    with Cons.prems show ?thesis by (auto simp: Let_def mem_write_def)
  next
    case False
    define j where "j = (if first then idx else idx + 2)"
    define b0 where "b0 = (if first then buf else buf[idx := 44, idx + 1 := 32])"
    define b1 where "b1 = b0[j := 91]"
    define b2 where "b2 = take (j + 1) b1 @ arg @ drop (j + 1 + length arg) b1"
    define b3 where "b3 = b2[j + 1 + length arg := 93]"
    have l: "length b0 = length buf" "length b1 = length buf" "j + length arg + 6 < length buf" "j \<le> idx + 2"
      using False by (auto simp: b0_def b1_def j_def)
    then have l2: "length b2 = length buf" "length b3 = length buf" by (simp_all add: b2_def b3_def)
    have "argv_loop (arg # argv) first idx buf = argv_loop argv False (j + length arg + 2) b3"
      using False l l2 by (auto simp: Let_def mem_set_in mem_write_def b0_def b1_def b2_def b3_def j_def)
    with Cons.IH [of "j + length arg + 2" b3 False] l l2 show ?thesis by simp
  qed
qed auto

section \<open>Executing commands\<close>

datatype adb_cmd =
    Adb_start_server
  | Adb_kill_server
  | Adb_forward byte_buf byte_buf byte_buf
  | Adb_forward_remove byte_buf byte_buf
  | Adb_reverse byte_buf byte_buf byte_buf
  | Adb_reverse_remove byte_buf byte_buf
  | Adb_push byte_buf byte_buf byte_buf
  | Adb_install byte_buf byte_buf
  | Adb_tcpip byte_buf byte_buf
  | Adb_connect byte_buf
  | Adb_disconnect byte_buf
  | Adb_devices
  | Adb_getprop byte_buf byte_buf
  | Adb_ip_route byte_buf

text \<open>The arguments after the executable.\<close>

fun adb_argv :: "adb_cmd \<Rightarrow> byte_buf list" where
  "adb_argv Adb_start_server = [lit ''start-server'']"
| "adb_argv Adb_kill_server = [lit ''kill-server'']"
| "adb_argv (Adb_forward serial local remote) = [lit ''-s'', serial, lit ''forward'', local, remote]"
| "adb_argv (Adb_forward_remove serial local) = [lit ''-s'', serial, lit ''forward'', lit ''--remove'', local]"
| "adb_argv (Adb_reverse serial remote local) = [lit ''-s'', serial, lit ''reverse'', remote, local]"
| "adb_argv (Adb_reverse_remove serial remote) = [lit ''-s'', serial, lit ''reverse'', lit ''--remove'', remote]"
| "adb_argv (Adb_push serial local remote) = [lit ''-s'', serial, lit ''push'', local, remote]"
| "adb_argv (Adb_install serial local) = [lit ''-s'', serial, lit ''install'', lit ''-r'', local]"
| "adb_argv (Adb_tcpip serial port) = [lit ''-s'', serial, lit ''tcpip'', port]"
| "adb_argv (Adb_connect ip_port) = [lit ''connect'', ip_port]"
| "adb_argv (Adb_disconnect ip_port) = [lit ''disconnect'', ip_port]"
| "adb_argv Adb_devices = [lit ''devices'', lit ''-l'']"
| "adb_argv (Adb_getprop serial prop) = [lit ''-s'', serial, lit ''shell'', lit ''getprop'', prop]"
| "adb_argv (Adb_ip_route serial) = [lit ''-s'', serial, lit ''shell'', lit ''ip'', lit ''route'']"

text \<open>\<open>rp_output\<close> is what the process prints, \<open>None\<close> if it could not be read; \<open>rp_interrupted\<close> is the state of the
  interruptor when the process is waited for.\<close>

record adb_response =
  rp_spawned :: bool
  rp_exit_code :: int
  rp_output :: "byte_buf option"
  rp_interrupted :: bool

record adb_world =
  aw_response :: "nat \<Rightarrow> adb_cmd \<Rightarrow> adb_response"
  aw_log :: "(adb_cmd \<times> bool) list"
  aw_sockets :: "u16 list"

definition process_check_success_internal :: "adb_response \<Rightarrow> bool" where
  "process_check_success_internal r \<longleftrightarrow> rp_spawned r \<and> rp_exit_code r = 0"

definition process_check_success_intr :: "adb_response \<Rightarrow> bool" where
  "process_check_success_intr r \<longleftrightarrow> \<not> rp_interrupted r \<and> process_check_success_internal r"

definition sc_adb_execute_p :: "adb_cmd \<Rightarrow> adb_world \<Rightarrow> adb_response \<times> adb_world" where
  "sc_adb_execute_p c w =
     (let r = aw_response w (length (aw_log w)) c in
      (r, w\<lparr>aw_log := aw_log w @ [(c, process_check_success_intr r)]\<rparr>))"

definition adb_check :: "adb_cmd \<Rightarrow> adb_world \<Rightarrow> bool \<times> adb_world" where
  "adb_check c w = (let (r, w) = sc_adb_execute_p c w in (process_check_success_intr r, w))"

definition sc_adb_start_server :: "adb_world \<Rightarrow> bool \<times> adb_world" where
  "sc_adb_start_server = adb_check Adb_start_server"

definition sc_adb_kill_server :: "adb_world \<Rightarrow> bool \<times> adb_world" where
  "sc_adb_kill_server = adb_check Adb_kill_server"

text \<open>\<^verbatim>\<open>snprintf\<close> into the fixed buffers \<^verbatim>\<open>local\<close> and \<^verbatim>\<open>remote\<close>.\<close>

definition print_local :: "u16 \<Rightarrow> byte_buf option" where
  "print_local port = (let s = lit ''tcp:'' @ dec (unat port) in do { c_assert (length s < 4 + 5 + 1); Some s })"

definition print_remote :: "byte_buf \<Rightarrow> byte_buf option" where
  "print_remote name = (let s = lit ''localabstract:'' @ name in if length s \<ge> 108 + 14 + 1 then None else Some s)"

definition sc_adb_forward :: "byte_buf \<Rightarrow> u16 \<Rightarrow> byte_buf \<Rightarrow> adb_world \<Rightarrow> (bool \<times> adb_world) option" where
  "sc_adb_forward serial local_port device_socket_name w = do {
     local \<leftarrow> print_local local_port;
     Some (case print_remote device_socket_name of
       None \<Rightarrow> (False, w)
     | Some remote \<Rightarrow> adb_check (Adb_forward serial local remote) w)
   }"

definition sc_adb_forward_remove :: "byte_buf \<Rightarrow> u16 \<Rightarrow> adb_world \<Rightarrow> (bool \<times> adb_world) option" where
  "sc_adb_forward_remove serial local_port w = do {
     local \<leftarrow> print_local local_port;
     Some (adb_check (Adb_forward_remove serial local) w)
   }"

definition sc_adb_reverse :: "byte_buf \<Rightarrow> byte_buf \<Rightarrow> u16 \<Rightarrow> adb_world \<Rightarrow> (bool \<times> adb_world) option" where
  "sc_adb_reverse serial device_socket_name local_port w = do {
     local \<leftarrow> print_local local_port;
     Some (case print_remote device_socket_name of
       None \<Rightarrow> (False, w)
     | Some remote \<Rightarrow> adb_check (Adb_reverse serial remote local) w)
   }"

definition sc_adb_reverse_remove :: "byte_buf \<Rightarrow> byte_buf \<Rightarrow> adb_world \<Rightarrow> bool \<times> adb_world" where
  "sc_adb_reverse_remove serial device_socket_name w =
     (case print_remote device_socket_name of
        None \<Rightarrow> (False, w)
      | Some remote \<Rightarrow> adb_check (Adb_reverse_remove serial remote) w)"

definition sc_adb_push :: "byte_buf \<Rightarrow> byte_buf \<Rightarrow> byte_buf \<Rightarrow> adb_world \<Rightarrow> bool \<times> adb_world" where
  "sc_adb_push serial local remote = adb_check (Adb_push serial local remote)"

definition sc_adb_install :: "byte_buf \<Rightarrow> byte_buf \<Rightarrow> adb_world \<Rightarrow> bool \<times> adb_world" where
  "sc_adb_install serial local = adb_check (Adb_install serial local)"

definition sc_adb_tcpip :: "byte_buf \<Rightarrow> u16 \<Rightarrow> adb_world \<Rightarrow> (bool \<times> adb_world) option" where
  "sc_adb_tcpip serial port w = do {
     let port_string = dec (unat port);
     c_assert (length port_string < 5 + 1);
     Some (adb_check (Adb_tcpip serial port_string) w)
   }"

text \<open>\<^verbatim>\<open>sc_pipe_read_all_intr\<close> with a buffer of \<open>n\<close> bytes and one more for the NUL; a string ends at the first NUL.\<close>

definition read_string :: "nat \<Rightarrow> adb_response \<Rightarrow> byte_buf option" where
  "read_string n r = map_option (take n) (rp_output r)"

definition up_to_nul :: "byte_buf \<Rightarrow> byte_buf" where
  "up_to_nul = takeWhile (\<lambda>c. c \<noteq> 0)"

definition sc_adb_connect :: "byte_buf \<Rightarrow> adb_world \<Rightarrow> bool \<times> adb_world" where
  "sc_adb_connect ip_port w =
     (let (r, w) = sc_adb_execute_p (Adb_connect ip_port) w in
      (rp_spawned r \<and> process_check_success_intr r \<and>
       (case read_string 127 r of
          None \<Rightarrow> False
        | Some s \<Rightarrow> starts_with (lit ''connected'') (up_to_nul s) \<or> starts_with (lit ''already connected'') (up_to_nul s)), w))"

definition sc_adb_disconnect :: "byte_buf \<Rightarrow> adb_world \<Rightarrow> bool \<times> adb_world" where
  "sc_adb_disconnect ip_port = adb_check (Adb_disconnect ip_port)"

definition sc_adb_getprop :: "bool \<Rightarrow> byte_buf \<Rightarrow> byte_buf \<Rightarrow> adb_world \<Rightarrow> byte_buf option \<times> adb_world" where
  "sc_adb_getprop dup_ok serial prop w =
     (let (r, w) = sc_adb_execute_p (Adb_getprop serial prop) w in
      (if \<not> rp_spawned r \<or> \<not> process_check_success_intr r \<or> \<not> dup_ok then None
       else map_option (\<lambda>s. takeWhile (\<lambda>c. c \<notin> {32, 13, 10}) (up_to_nul s)) (read_string 127 r), w))"

definition sc_adb_get_device_ip :: "bool \<Rightarrow> byte_buf \<Rightarrow> adb_world \<Rightarrow> (byte_buf option \<times> adb_world) option" where
  "sc_adb_get_device_ip dup_ok serial w =
     (let (r, w) = sc_adb_execute_p (Adb_ip_route serial) w in
      if \<not> rp_spawned r \<or> \<not> process_check_success_intr r then Some (None, w)
      else case read_string 1023 r of
        None \<Rightarrow> Some (None, w)
      | Some s \<Rightarrow> if length s = 1023 then Some (None, w)
                 else do { ip \<leftarrow> sc_adb_parse_device_ip dup_ok (up_to_nul s); Some (ip, w) })"

definition sc_adb_get_device_sdk_version :: "bool \<Rightarrow> byte_buf \<Rightarrow> adb_world \<Rightarrow> u16 \<times> adb_world" where
  "sc_adb_get_device_sdk_version dup_ok serial w =
     (case sc_adb_getprop dup_ok serial (lit ''ro.build.version.sdk'') w of
        (None, w) \<Rightarrow> (0, w)
      | (Some s, w) \<Rightarrow> (case sc_str_parse_integer s of
           None \<Rightarrow> (0, w)
         | Some v \<Rightarrow> (if v < 0 \<or> v > 0xFFFF then 0 else word_of_int v, w)))"

section \<open>Choosing a device\<close>

definition sc_adb_list_devices :: "bool \<Rightarrow> line_memory \<Rightarrow> adb_world \<Rightarrow> ((bool \<times> sc_adb_device list) \<times> adb_world) option" where
  "sc_adb_list_devices malloc_ok mem w =
     (if \<not> malloc_ok then Some ((False, []), w)
      else let (r, w) = sc_adb_execute_p Adb_devices w in
        if \<not> rp_spawned r \<or> \<not> process_check_success_intr r then Some ((False, []), w)
        else case read_string 65535 r of
          None \<Rightarrow> Some ((False, []), w)
        | Some s \<Rightarrow> if length s = 65535 then Some ((False, []), w)
                   else do { res \<leftarrow> sc_adb_parse_devices mem (up_to_nul s); Some (res, w) })"

datatype sc_adb_device_selector =
    SC_ADB_DEVICE_SELECT_ALL
  | SC_ADB_DEVICE_SELECT_SERIAL byte_buf
  | SC_ADB_DEVICE_SELECT_USB
  | SC_ADB_DEVICE_SELECT_TCPIP

fun sc_adb_accept_device :: "sc_adb_device \<Rightarrow> sc_adb_device_selector \<Rightarrow> bool" where
  "sc_adb_accept_device d SC_ADB_DEVICE_SELECT_ALL \<longleftrightarrow> True"
| "sc_adb_accept_device d (SC_ADB_DEVICE_SELECT_SERIAL serial) \<longleftrightarrow>
     (if 58 \<in> set (dev_serial d) \<and> 58 \<notin> set serial then
        (let device_ip_len = length (takeWhile (\<lambda>c. c \<noteq> 58) (dev_serial d)) in
         length serial = device_ip_len \<and> take device_ip_len serial = take device_ip_len (dev_serial d))
      else serial = dev_serial d)"
| "sc_adb_accept_device d SC_ADB_DEVICE_SELECT_USB \<longleftrightarrow> sc_adb_device_get_type (dev_serial d) = SC_ADB_DEVICE_TYPE_USB"
| "sc_adb_accept_device d SC_ADB_DEVICE_SELECT_TCPIP \<longleftrightarrow> sc_adb_device_get_type (dev_serial d) \<noteq> SC_ADB_DEVICE_TYPE_USB"

text \<open>The loop of \<^verbatim>\<open>sc_adb_devices_select\<close> from index \<open>i\<close>; the result is the count, the index of the first device accepted and the
  devices with their mark.\<close>

fun devices_select_loop ::
  "sc_adb_device_selector \<Rightarrow> nat \<Rightarrow> nat \<Rightarrow> nat option \<Rightarrow> sc_adb_device list \<Rightarrow> nat \<times> nat option \<times> sc_adb_device list" where
  "devices_select_loop sel i count idx [] = (count, idx, [])"
| "devices_select_loop sel i count idx (d # ds) =
     (let s = sc_adb_accept_device d sel;
          (count', idx', ds') = devices_select_loop sel (i + 1) (if s then count + 1 else count)
                                 (if s \<and> count = 0 then Some i else idx) ds
      in (count', idx', d\<lparr>dev_selected := s\<rparr> # ds'))"

definition sc_adb_devices_select ::
  "sc_adb_device list \<Rightarrow> sc_adb_device_selector \<Rightarrow> nat \<times> nat option \<times> sc_adb_device list" where
  "sc_adb_devices_select devices selector = devices_select_loop selector 0 0 None devices"

definition sc_adb_device_check_state :: "sc_adb_device \<Rightarrow> bool" where
  "sc_adb_device_check_state d \<longleftrightarrow> dev_state d = lit ''device''"

definition sc_adb_select_device ::
  "bool \<Rightarrow> line_memory \<Rightarrow> sc_adb_device_selector \<Rightarrow> adb_world \<Rightarrow> (sc_adb_device option \<times> adb_world) option" where
  "sc_adb_select_device malloc_ok mem selector w = do {
     ((ok, vec), w) \<leftarrow> sc_adb_list_devices malloc_ok mem w;
     if \<not> ok then Some (None, w)
     else if vec = [] then Some (None, w)
     else do {
       let (sel_count, sel_idx, vec) = sc_adb_devices_select vec selector;
       if sel_count = 0 then do { c_assert (selector \<noteq> SC_ADB_DEVICE_SELECT_ALL); Some (None, w) }
       else if sel_count > 1 then Some (None, w)
       else do {
         c_assert (sel_count = 1);
         i \<leftarrow> sel_idx;
         device \<leftarrow> mem_get i vec;
         Some (if sc_adb_device_check_state device then Some device else None, w)
       }
     }
   }"

section \<open>The tunnel\<close>

record sc_adb_tunnel =
  tn_enabled :: bool
  tn_forward :: bool
  tn_server_socket :: "u16 option"
  tn_local_port :: u16

record sc_port_range =
  pr_first :: u16
  pr_last :: u16

definition sc_adb_tunnel_init :: sc_adb_tunnel where
  "sc_adb_tunnel_init = \<lparr>tn_enabled = False, tn_forward = False, tn_server_socket = None, tn_local_port = 0\<rparr>"

text \<open>The network: whether a socket can be created for a try on a port, and whether it can listen there. A socket is named
  by its port; \<open>aw_sockets\<close> are those open.\<close>

record net_env =
  ne_socket :: "u16 \<Rightarrow> bool"
  ne_listen :: "u16 \<Rightarrow> bool"
  ne_interrupted :: "u16 \<Rightarrow> bool"

definition net_open :: "u16 \<Rightarrow> adb_world \<Rightarrow> adb_world" where
  "net_open p w = w\<lparr>aw_sockets := p # aw_sockets w\<rparr>"

definition net_close :: "u16 \<Rightarrow> adb_world \<Rightarrow> adb_world" where
  "net_close p w = w\<lparr>aw_sockets := remove1 p (aw_sockets w)\<rparr>"

lemma port_next: "(p :: u16) < l \<Longrightarrow> unat (p + 1) = unat p + 1"
  using unsigned_less [of l, where ?'a = nat] by (simp add: unat_word_ariths word_less_nat_alt)

text \<open>\<^verbatim>\<open>enable_tunnel_reverse_any_port\<close> and \<^verbatim>\<open>enable_tunnel_forward_any_port\<close> from a port on.\<close>

function reverse_loop ::
  "net_env \<Rightarrow> byte_buf \<Rightarrow> byte_buf \<Rightarrow> sc_port_range \<Rightarrow> u16 \<Rightarrow> sc_adb_tunnel \<Rightarrow> adb_world \<Rightarrow>
   (bool \<times> sc_adb_tunnel \<times> adb_world) option" where
  "reverse_loop ne serial name pr port tn w = do {
     (ok, w) \<leftarrow> sc_adb_reverse serial name port w;
     if \<not> ok then Some (False, tn, w)
     else do {
       let w = (if ne_socket ne port then net_open port w else w);
       if ne_socket ne port \<and> ne_listen ne port then
         Some (True, tn\<lparr>tn_server_socket := Some port, tn_local_port := port, tn_enabled := True\<rparr>, w)
       else do {
         let w = (if ne_socket ne port then net_close port w else w);
         if ne_interrupted ne port then Some (False, tn, w)
         else do {
           let (removed, w) = sc_adb_reverse_remove serial name w;
           if port < pr_last pr then reverse_loop ne serial name pr (port + 1) tn w
           else Some (False, tn, w)
         }
       }
     }
   }"
  by pat_completeness auto
termination
  by (relation "measure (\<lambda>(ne, s, n, r, port, tn, w). unat (pr_last r) - unat port)")
    (auto simp: port_next word_less_nat_alt)

declare reverse_loop.simps [simp del]

function forward_loop ::
  "net_env \<Rightarrow> byte_buf \<Rightarrow> byte_buf \<Rightarrow> sc_port_range \<Rightarrow> u16 \<Rightarrow> sc_adb_tunnel \<Rightarrow> adb_world \<Rightarrow>
   (bool \<times> sc_adb_tunnel \<times> adb_world) option" where
  "forward_loop ne serial name pr port tn w = do {
     (ok, w) \<leftarrow> sc_adb_forward serial port name w;
     if ok then Some (True, tn\<lparr>tn_local_port := port, tn_enabled := True\<rparr>, w)
     else if ne_interrupted ne port then Some (False, tn, w)
     else if port < pr_last pr then forward_loop ne serial name pr (port + 1) tn w
     else Some (False, tn, w)
   }"
  by pat_completeness auto
termination
  by (relation "measure (\<lambda>(ne, s, n, r, port, tn, w). unat (pr_last r) - unat port)")
    (auto simp: port_next word_less_nat_alt)

declare forward_loop.simps [simp del]

definition enable_tunnel_reverse_any_port ::
  "net_env \<Rightarrow> byte_buf \<Rightarrow> byte_buf \<Rightarrow> sc_port_range \<Rightarrow> sc_adb_tunnel \<Rightarrow> adb_world \<Rightarrow> (bool \<times> sc_adb_tunnel \<times> adb_world) option" where
  "enable_tunnel_reverse_any_port ne serial name pr tn w = reverse_loop ne serial name pr (pr_first pr) tn w"

definition enable_tunnel_forward_any_port ::
  "net_env \<Rightarrow> byte_buf \<Rightarrow> byte_buf \<Rightarrow> sc_port_range \<Rightarrow> sc_adb_tunnel \<Rightarrow> adb_world \<Rightarrow> (bool \<times> sc_adb_tunnel \<times> adb_world) option" where
  "enable_tunnel_forward_any_port ne serial name pr tn w =
     forward_loop ne serial name pr (pr_first pr) (tn\<lparr>tn_forward := True\<rparr>) w"

definition sc_adb_tunnel_open ::
  "net_env \<Rightarrow> byte_buf \<Rightarrow> byte_buf \<Rightarrow> sc_port_range \<Rightarrow> bool \<Rightarrow> sc_adb_tunnel \<Rightarrow> adb_world \<Rightarrow>
   (bool \<times> sc_adb_tunnel \<times> adb_world) option" where
  "sc_adb_tunnel_open ne serial name pr force_adb_forward tn w = do {
     c_assert (\<not> tn_enabled tn);
     (ok, tn, w) \<leftarrow> (if force_adb_forward then Some (False, tn, w)
                    else enable_tunnel_reverse_any_port ne serial name pr tn w);
     if ok then Some (True, tn, w)
     else enable_tunnel_forward_any_port ne serial name pr tn w
   }"

definition sc_adb_tunnel_close ::
  "byte_buf \<Rightarrow> byte_buf \<Rightarrow> sc_adb_tunnel \<Rightarrow> adb_world \<Rightarrow> (bool \<times> sc_adb_tunnel \<times> adb_world) option" where
  "sc_adb_tunnel_close serial name tn w = do {
     c_assert (tn_enabled tn);
     (ret, w) \<leftarrow>
       (if tn_forward tn then sc_adb_forward_remove serial (tn_local_port tn) w
        else do {
          let (ret, w) = sc_adb_reverse_remove serial name w;
          p \<leftarrow> tn_server_socket tn;
          Some (ret, net_close p w)
        });
     Some (ret, tn\<lparr>tn_enabled := False\<rparr>, w)
   }"

section \<open>The device chosen\<close>

lemma select_loop:
  "devices_select_loop sel i c idx ds =
     (c + length (filter (\<lambda>d. sc_adb_accept_device d sel) ds),
      if c = 0 \<and> (\<exists>d \<in> set ds. sc_adb_accept_device d sel)
      then Some (i + length (takeWhile (\<lambda>d. \<not> sc_adb_accept_device d sel) ds)) else idx,
      map (\<lambda>d. d\<lparr>dev_selected := sc_adb_accept_device d sel\<rparr>) ds)"
  by (induction ds arbitrary: i c idx) (auto simp: Let_def)

lemma filter_single_index:
  assumes "filter P xs = [d]"
  defines "k \<equiv> length (takeWhile (\<lambda>x. \<not> P x) xs)"
  shows "k < length xs" "xs ! k = d"
proof -
  have e: "\<exists>x \<in> set xs. P x" using assms(1) by (metis filter_eq_Cons_iff in_set_conv_decomp)
  show k: "k < length xs" using e unfolding k_def
    by (metis length_takeWhile_le le_neq_implies_less takeWhile_eq_all_conv takeWhile_eq_take take_all_iff order_refl)
  have "P (xs ! k)" using nth_length_takeWhile [of "\<lambda>x. \<not> P x" xs] k unfolding k_def by blast
  then have "xs ! k \<in> set (filter P xs)" using k by simp
  then show "xs ! k = d" using assms(1) by simp
qed

text \<open>C20. A device is chosen exactly when the choice is unambiguous: for a list of devices that could be read, the selection
  does not fail, and it returns a device if and only if exactly one listed device matches the request and that one is
  ready; it is then that device, marked as selected.\<close>

theorem select_device_unique:
  assumes "sc_adb_list_devices malloc_ok mem w = Some ((True, ds), w')"
  shows "sc_adb_select_device malloc_ok mem sel w =
    Some (case filter (\<lambda>d. sc_adb_accept_device d sel) ds of
       [d] \<Rightarrow> if dev_state d = lit ''device'' then Some (d\<lparr>dev_selected := True\<rparr>) else None
     | _ \<Rightarrow> None, w')"
proof (cases "filter (\<lambda>d. sc_adb_accept_device d sel) ds")
  case Nil
  then have "sel \<noteq> SC_ADB_DEVICE_SELECT_ALL" if "ds \<noteq> []" using that by (cases ds) auto
  with Nil assms show ?thesis by (auto simp: sc_adb_select_device_def sc_adb_devices_select_def select_loop)
next
  case (Cons d es)
  show ?thesis
  proof (cases es)
    case Nil
    with Cons have f: "filter (\<lambda>d. sc_adb_accept_device d sel) ds = [d]" by simp
    then have "d \<in> set (filter (\<lambda>d. sc_adb_accept_device d sel) ds)" by simp
    then have d: "\<exists>d \<in> set ds. sc_adb_accept_device d sel" "sc_adb_accept_device d sel" "ds \<noteq> []" by auto
    with f filter_single_index [OF f] assms show ?thesis
      by (simp add: sc_adb_select_device_def sc_adb_devices_select_def select_loop mem_get_def sc_adb_device_check_state_def)
  next
    case (Cons e fs)
    with \<open>filter _ ds = d # es\<close> have "length (filter (\<lambda>d. sc_adb_accept_device d sel) ds) > 1" "ds \<noteq> []" by auto
    with assms Cons \<open>filter _ ds = d # es\<close> show ?thesis
      by (auto simp: sc_adb_select_device_def sc_adb_devices_select_def select_loop)
  qed
qed

section \<open>Tunnels are not left behind\<close>

text \<open>What the commands that succeeded set up.\<close>

datatype adb_tunnel = Tunnel_reverse byte_buf byte_buf | Tunnel_forward byte_buf byte_buf

fun tunnel_effect :: "adb_cmd \<Rightarrow> adb_tunnel set \<Rightarrow> adb_tunnel set" where
  "tunnel_effect (Adb_reverse serial remote local) ts = insert (Tunnel_reverse serial remote) ts"
| "tunnel_effect (Adb_reverse_remove serial remote) ts = ts - {Tunnel_reverse serial remote}"
| "tunnel_effect (Adb_forward serial local remote) ts = insert (Tunnel_forward serial local) ts"
| "tunnel_effect (Adb_forward_remove serial local) ts = ts - {Tunnel_forward serial local}"
| "tunnel_effect c ts = ts"

definition device_tunnels :: "adb_world \<Rightarrow> adb_tunnel set" where
  "device_tunnels w = fold (\<lambda>(c, ok) ts. if ok then tunnel_effect c ts else ts) (aw_log w) {}"

lemma adb_check_obtain:
  obtains ok w' where "adb_check c w = (ok, w')" "aw_sockets w' = aw_sockets w" "aw_response w' = aw_response w"
    "device_tunnels w' = (if ok then tunnel_effect c (device_tunnels w) else device_tunnels w)"
    "ok \<longleftrightarrow> process_check_success_intr (aw_response w (length (aw_log w)) c)"
  by (simp add: adb_check_def sc_adb_execute_p_def Let_def device_tunnels_def)

lemma length_dec: "n < 10 ^ Suc k \<Longrightarrow> length (dec n) \<le> Suc k"
proof (induction k arbitrary: n)
  case 0
  then show ?case by (subst dec.simps) simp
next
  case (Suc k)
  have "length (dec (n div 10)) \<le> Suc k" using Suc.prems by (intro Suc.IH) (simp add: less_mult_imp_div_less)
  then show ?case by (subst dec.simps) simp
qed

definition local_of :: "u16 \<Rightarrow> byte_buf" where
  "local_of p = lit ''tcp:'' @ dec (unat p)"

lemma print_local_ok: "print_local p = Some (local_of p)"
proof -
  have "unat p < 10 ^ Suc 4" using unsigned_less [of p, where ?'a = nat] by simp
  from length_dec [OF this] show ?thesis by (simp add: print_local_def local_of_def Let_def)
qed

definition port_in :: "sc_port_range \<Rightarrow> u16 \<Rightarrow> bool" where
  "port_in pr p \<longleftrightarrow> pr_first pr \<le> p \<and> (p \<le> pr_last pr \<or> p = pr_first pr)"

lemma port_in_next: "port_in pr p \<Longrightarrow> p < pr_last pr \<Longrightarrow> port_in pr (p + 1)"
  using port_next [of p "pr_last pr"] by (auto simp: port_in_def word_le_nat_alt word_less_nat_alt)

text \<open>Removing a tunnel works, and nothing interrupts.\<close>

definition removals_work :: "net_env \<Rightarrow> adb_world \<Rightarrow> bool" where
  "removals_work ne w \<longleftrightarrow> (\<forall>p. \<not> ne_interrupted ne p) \<and>
     (\<forall>n serial remote. process_check_success_intr (aw_response w n (Adb_reverse_remove serial remote)))"

definition forward_done ::
  "byte_buf \<Rightarrow> sc_port_range \<Rightarrow> sc_adb_tunnel \<Rightarrow> adb_world \<Rightarrow> (bool \<times> sc_adb_tunnel \<times> adb_world) option \<Rightarrow> bool" where
  "forward_done serial pr tn w res \<longleftrightarrow> (\<exists>ok tn' w'. res = Some (ok, tn', w') \<and> tn_forward tn' = tn_forward tn \<and>
    aw_sockets w' = aw_sockets w \<and> tn_enabled tn' = ok \<and> aw_response w' = aw_response w \<and>
    device_tunnels w' = (if ok then insert (Tunnel_forward serial (local_of (tn_local_port tn'))) (device_tunnels w) else device_tunnels w) \<and>
    (ok \<longrightarrow> port_in pr (tn_local_port tn')))"

definition reverse_done ::
  "byte_buf \<Rightarrow> byte_buf \<Rightarrow> sc_port_range \<Rightarrow> sc_adb_tunnel \<Rightarrow> adb_world \<Rightarrow> (bool \<times> sc_adb_tunnel \<times> adb_world) option \<Rightarrow> bool" where
  "reverse_done serial name pr tn w res \<longleftrightarrow> (\<exists>ok tn' w'. res = Some (ok, tn', w') \<and> tn_forward tn' = tn_forward tn \<and>
    tn_enabled tn' = ok \<and> aw_response w' = aw_response w \<and>
    (if ok then tn_server_socket tn' = Some (tn_local_port tn') \<and> aw_sockets w' = tn_local_port tn' # aw_sockets w \<and>
       port_in pr (tn_local_port tn') \<and>
       (\<exists>r. print_remote name = Some r \<and> device_tunnels w' = insert (Tunnel_reverse serial r) (device_tunnels w))
     else tn' = tn \<and> aw_sockets w' = aw_sockets w \<and> device_tunnels w' = device_tunnels w))"

lemma done_cong:
  assumes "aw_sockets w1 = aw_sockets w" "aw_response w1 = aw_response w" "device_tunnels w1 = device_tunnels w"
  shows "forward_done serial pr tn w1 res \<Longrightarrow> forward_done serial pr tn w res"
    "reverse_done serial name pr tn w1 res \<Longrightarrow> reverse_done serial name pr tn w res"
  by (simp_all only: forward_done_def reverse_done_def assms)

lemma forward_loop_ok:
  assumes "port_in pr p" "\<not> tn_enabled tn" "\<And>l. Tunnel_forward serial l \<notin> device_tunnels w"
  shows "forward_done serial pr tn w (forward_loop ne serial name pr p tn w)"
  using assms
proof (induction ne serial name pr p tn w rule: forward_loop.induct)
  case (1 ne serial name pr p tn w)
  obtain ok w1 where f: "sc_adb_forward serial p name w = Some (ok, w1)" "aw_sockets w1 = aw_sockets w" "aw_response w1 = aw_response w"
    "device_tunnels w1 = (if ok then insert (Tunnel_forward serial (local_of p)) (device_tunnels w) else device_tunnels w)"
  proof (cases "print_remote name")
    case None
    with that [of False w] show thesis by (simp add: sc_adb_forward_def print_local_ok)
  next
    case (Some r)
    obtain ok w1 where "adb_check (Adb_forward serial (local_of p) r) w = (ok, w1)" "aw_sockets w1 = aw_sockets w"
      "aw_response w1 = aw_response w"
      "device_tunnels w1 = (if ok then tunnel_effect (Adb_forward serial (local_of p) r) (device_tunnels w) else device_tunnels w)"
      by (rule adb_check_obtain)
    with that [of ok w1] show thesis by (simp add: sc_adb_forward_def print_local_ok Some)
  qed
  show ?case
  proof (cases "\<not> ok \<and> \<not> ne_interrupted ne p \<and> p < pr_last pr")
    case True
    then have "forward_loop ne serial name pr p tn w = forward_loop ne serial name pr (p + 1) tn w1"
      using f(1) by (subst forward_loop.simps) simp
    moreover have "forward_done serial pr tn w1 (forward_loop ne serial name pr (p + 1) tn w1)"
      using True f "1.prems" port_in_next [of pr p] by (intro "1.IH" [of "(ok, w1)" ok w1]) simp_all
    ultimately show ?thesis using done_cong(1) [OF f(2,3)] f(4) True by simp
  next
    case False
    then show ?thesis using f "1.prems" by (subst forward_loop.simps) (auto simp: forward_done_def)
  qed
qed

lemma reverse_loop_ok:
  assumes "port_in pr p" "\<not> tn_enabled tn" "removals_work ne w" "\<And>r. Tunnel_reverse serial r \<notin> device_tunnels w"
  shows "reverse_done serial name pr tn w (reverse_loop ne serial name pr p tn w)"
  using assms
proof (induction ne serial name pr p tn w rule: reverse_loop.induct)
  case (1 ne serial name pr p tn w)
  show ?case
  proof (cases "print_remote name")
    case None
    then show ?thesis using "1.prems"(2) by (subst reverse_loop.simps) (simp add: sc_adb_reverse_def print_local_ok reverse_done_def)
  next
    case (Some r)
    obtain ok w1 where c: "adb_check (Adb_reverse serial r (local_of p)) w = (ok, w1)" "aw_sockets w1 = aw_sockets w"
      "aw_response w1 = aw_response w"
      "device_tunnels w1 = (if ok then tunnel_effect (Adb_reverse serial r (local_of p)) (device_tunnels w) else device_tunnels w)"
      by (rule adb_check_obtain)
    then have f: "sc_adb_reverse serial name p w = Some (ok, w1)" by (simp add: sc_adb_reverse_def print_local_ok Some)
    let ?w2 = "if ne_socket ne p then net_close p (net_open p w1) else w1"
    have w2: "?w2 = w1" by (simp add: net_close_def net_open_def)
    obtain k w3 where g: "adb_check (Adb_reverse_remove serial r) w1 = (k, w3)" "aw_sockets w3 = aw_sockets w1" "aw_response w3 = aw_response w1"
      "device_tunnels w3 = (if k then tunnel_effect (Adb_reverse_remove serial r) (device_tunnels w1) else device_tunnels w1)"
      "k \<longleftrightarrow> process_check_success_intr (aw_response w1 (length (aw_log w1)) (Adb_reverse_remove serial r))"
      by (rule adb_check_obtain)
    have k: k using g(5) "1.prems"(3) c(3) by (simp add: removals_work_def)
    have h: "sc_adb_reverse_remove serial name w1 = (True, w3)" using g(1) k by (simp add: sc_adb_reverse_remove_def Some)
    have w3: "device_tunnels w3 = device_tunnels w" if ok using that g(4) k c(4) "1.prems"(4) by simp
    have ni: "\<not> ne_interrupted ne p" using "1.prems"(3) by (simp add: removals_work_def)
    consider (failed) "\<not> ok" | (listening) ok "ne_socket ne p \<and> ne_listen ne p"
      | (retry) ok "\<not> (ne_socket ne p \<and> ne_listen ne p)" "p < pr_last pr"
      | (out) ok "\<not> (ne_socket ne p \<and> ne_listen ne p)" "\<not> p < pr_last pr" by blast
    then show ?thesis
    proof cases
      case failed
      then show ?thesis using f c "1.prems"(2) by (subst reverse_loop.simps) (simp add: reverse_done_def)
    next
      case listening
      then show ?thesis using f c "1.prems"(1) Some by (subst reverse_loop.simps) (simp add: net_open_def device_tunnels_def reverse_done_def)
    next
      case retry
      then have e: "reverse_loop ne serial name pr p tn w = reverse_loop ne serial name pr (p + 1) tn w3"
        using f h ni by (subst reverse_loop.simps) (auto simp: w2 net_close_def net_open_def)
      have "reverse_done serial name pr tn w3 (reverse_loop ne serial name pr (p + 1) tn w3)"
        using retry f h ni w3 c(3) g(3) "1.prems" port_in_next [of pr p]
        by (intro "1.IH" [of "(ok, w1)" ok w1 "if ne_socket ne p then net_open p w1 else w1" ?w2 "(True, w3)" True w3])
          (simp_all add: w2 removals_work_def net_close_def net_open_def)
      then show ?thesis using done_cong(2) [of w3 w serial name pr tn] e w3 retry(1) g c by simp
    next
      case out
      then have "reverse_loop ne serial name pr p tn w = Some (False, tn, w3)"
        using f h ni by (subst reverse_loop.simps) (auto simp: w2 net_close_def net_open_def)
      then show ?thesis using out(1) w3 g(2,3) c(2,3) "1.prems"(2) by (simp add: reverse_done_def)
    qed
  qed
qed

definition no_tunnel :: "byte_buf \<Rightarrow> adb_world \<Rightarrow> bool" where
  "no_tunnel serial w \<longleftrightarrow> (\<forall>x. Tunnel_reverse serial x \<notin> device_tunnels w \<and> Tunnel_forward serial x \<notin> device_tunnels w)"

text \<open>What an opened tunnel is: the socket and the entry on the device that belong to it.\<close>

definition tunnel_up :: "byte_buf \<Rightarrow> byte_buf \<Rightarrow> adb_world \<Rightarrow> sc_adb_tunnel \<Rightarrow> adb_world \<Rightarrow> bool" where
  "tunnel_up serial name w tn w' \<longleftrightarrow> tn_enabled tn \<and>
     (if tn_forward tn then aw_sockets w' = aw_sockets w \<and>
        device_tunnels w' = insert (Tunnel_forward serial (local_of (tn_local_port tn))) (device_tunnels w)
      else tn_server_socket tn = Some (tn_local_port tn) \<and> aw_sockets w' = tn_local_port tn # aw_sockets w \<and>
        (\<exists>r. print_remote name = Some r \<and> device_tunnels w' = insert (Tunnel_reverse serial r) (device_tunnels w)))"

lemma tunnel_open_result:
  assumes "removals_work ne w" "no_tunnel serial w"
  shows "\<exists>ok tn w'. sc_adb_tunnel_open ne serial name pr force sc_adb_tunnel_init w = Some (ok, tn, w') \<and>
    (if ok then port_in pr (tn_local_port tn) \<and> tunnel_up serial name w tn w'
     else \<not> tn_enabled tn \<and> aw_sockets w' = aw_sockets w \<and> device_tunnels w' = device_tunnels w)"
proof -
  let ?tn = "sc_adb_tunnel_init"
  have first: "port_in pr (pr_first pr)" by (simp add: port_in_def)
  have t: "\<not> tn_enabled ?tn" "\<not> tn_forward ?tn" "\<not> tn_enabled (?tn\<lparr>tn_forward := True\<rparr>)" by (simp_all add: sc_adb_tunnel_init_def)
  have fwd: "\<exists>ok tn w'. enable_tunnel_forward_any_port ne serial name pr ?tn w1 = Some (ok, tn, w') \<and>
      (if ok then port_in pr (tn_local_port tn) \<and> tunnel_up serial name w tn w'
       else \<not> tn_enabled tn \<and> aw_sockets w' = aw_sockets w \<and> device_tunnels w' = device_tunnels w)"
    if "aw_sockets w1 = aw_sockets w" "device_tunnels w1 = device_tunnels w" for w1
  proof -
    have "forward_done serial pr (?tn\<lparr>tn_forward := True\<rparr>) w1 (forward_loop ne serial name pr (pr_first pr) (?tn\<lparr>tn_forward := True\<rparr>) w1)"
      using assms(2) that by (intro forward_loop_ok [OF first t(3)]) (simp add: no_tunnel_def)
    then obtain ok tn w' where "forward_loop ne serial name pr (pr_first pr) (?tn\<lparr>tn_forward := True\<rparr>) w1 = Some (ok, tn, w')"
      "tn_forward tn" "aw_sockets w' = aw_sockets w1" "tn_enabled tn = ok"
      "device_tunnels w' = (if ok then insert (Tunnel_forward serial (local_of (tn_local_port tn))) (device_tunnels w1) else device_tunnels w1)"
      "ok \<longrightarrow> port_in pr (tn_local_port tn)"
      unfolding forward_done_def by auto
    with that show ?thesis by (auto simp: enable_tunnel_forward_any_port_def tunnel_up_def)
  qed
  show ?thesis
  proof (cases force)
    case True
    with fwd [of w] t(1) show ?thesis by (simp add: sc_adb_tunnel_open_def)
  next
    case False
    have "reverse_done serial name pr ?tn w (reverse_loop ne serial name pr (pr_first pr) ?tn w)"
      using assms by (intro reverse_loop_ok [OF first t(1)]) (simp_all add: no_tunnel_def)
    then obtain ok tn w1 where r: "reverse_loop ne serial name pr (pr_first pr) ?tn w = Some (ok, tn, w1)" "\<not> tn_forward tn" "tn_enabled tn = ok"
      "if ok then tn_server_socket tn = Some (tn_local_port tn) \<and> aw_sockets w1 = tn_local_port tn # aw_sockets w \<and>
         port_in pr (tn_local_port tn) \<and>
         (\<exists>r. print_remote name = Some r \<and> device_tunnels w1 = insert (Tunnel_reverse serial r) (device_tunnels w))
       else tn = ?tn \<and> aw_sockets w1 = aw_sockets w \<and> device_tunnels w1 = device_tunnels w"
      unfolding reverse_done_def using t(2) by blast
    show ?thesis
    proof (cases ok)
      case True
      with r False t(1) show ?thesis by (simp add: sc_adb_tunnel_open_def enable_tunnel_reverse_any_port_def tunnel_up_def)
    next
      case F: False
      with r False t(1) fwd [of w1] show ?thesis by (simp add: sc_adb_tunnel_open_def enable_tunnel_reverse_any_port_def)
    qed
  qed
qed

lemma tunnel_close_result:
  assumes "tunnel_up serial name w tn w'" "no_tunnel serial w"
  shows "\<exists>ret tn2 w2. sc_adb_tunnel_close serial name tn w' = Some (ret, tn2, w2) \<and> \<not> tn_enabled tn2 \<and>
    aw_sockets w2 = aw_sockets w \<and> (ret \<longrightarrow> device_tunnels w2 = device_tunnels w)"
proof (cases "tn_forward tn")
  case True
  obtain ok w2 where "adb_check (Adb_forward_remove serial (local_of (tn_local_port tn))) w' = (ok, w2)" "aw_sockets w2 = aw_sockets w'"
    "device_tunnels w2 = (if ok then tunnel_effect (Adb_forward_remove serial (local_of (tn_local_port tn))) (device_tunnels w') else device_tunnels w')"
    by (rule adb_check_obtain)
  with True assms show ?thesis
    by (auto simp: tunnel_up_def no_tunnel_def sc_adb_tunnel_close_def sc_adb_forward_remove_def print_local_ok)
next
  case False
  with assms(1) obtain r where r: "print_remote name = Some r" "device_tunnels w' = insert (Tunnel_reverse serial r) (device_tunnels w)"
    by (auto simp: tunnel_up_def)
  obtain ok w2 where "adb_check (Adb_reverse_remove serial r) w' = (ok, w2)" "aw_sockets w2 = aw_sockets w'"
    "device_tunnels w2 = (if ok then tunnel_effect (Adb_reverse_remove serial r) (device_tunnels w') else device_tunnels w')"
    by (rule adb_check_obtain)
  with False r assms show ?thesis
    by (auto simp: tunnel_up_def no_tunnel_def sc_adb_tunnel_close_def sc_adb_reverse_remove_def net_close_def device_tunnels_def)
qed

text \<open>C21. No tunnel is left behind. It is assumed that the device has no tunnel entry for this serial before (adb would rebind
  an entry that exists), that removing a reverse tunnel works, and that nothing interrupts the opening (an interruption
  does leave an entry, see \<open>reverse_left_behind\<close>). Then opening the tunnel, whatever ports are taken and whichever other
  commands fail, ends without failing on a port of the range with exactly one entry more on the device, or with none and every
  socket closed; closing it then removes this entry (if adb succeeds) and closes its socket.\<close>

theorem tunnel_not_left_behind:
  assumes "removals_work ne w" "no_tunnel serial w"
  shows "\<exists>ok tn w'. sc_adb_tunnel_open ne serial name pr force sc_adb_tunnel_init w = Some (ok, tn, w') \<and>
    (if ok then tn_enabled tn \<and> port_in pr (tn_local_port tn) \<and> (\<exists>t. t \<notin> device_tunnels w \<and> device_tunnels w' = insert t (device_tunnels w)) \<and>
       (\<exists>ret tn2 w2. sc_adb_tunnel_close serial name tn w' = Some (ret, tn2, w2) \<and> \<not> tn_enabled tn2 \<and>
          aw_sockets w2 = aw_sockets w \<and> (ret \<longrightarrow> device_tunnels w2 = device_tunnels w))
     else \<not> tn_enabled tn \<and> aw_sockets w' = aw_sockets w \<and> device_tunnels w' = device_tunnels w)"
proof -
  obtain ok tn w' where o: "sc_adb_tunnel_open ne serial name pr force sc_adb_tunnel_init w = Some (ok, tn, w')"
    "if ok then port_in pr (tn_local_port tn) \<and> tunnel_up serial name w tn w'
     else \<not> tn_enabled tn \<and> aw_sockets w' = aw_sockets w \<and> device_tunnels w' = device_tunnels w"
    using tunnel_open_result [OF assms] by blast
  show ?thesis
  proof (cases ok)
    case True
    then have u: "tunnel_up serial name w tn w'" "port_in pr (tn_local_port tn)" using o(2) by simp_all
    then have "tn_enabled tn" "\<exists>t. t \<notin> device_tunnels w \<and> device_tunnels w' = insert t (device_tunnels w)"
      using assms(2) by (auto simp: tunnel_up_def no_tunnel_def split: if_splits)
    with o(1) True u tunnel_close_result [OF u(1) assms(2)] show ?thesis by auto
  qed (use o in auto)
qed

definition demo_response :: adb_response where
  "demo_response = \<lparr>rp_spawned = True, rp_exit_code = 0, rp_output = Some [], rp_interrupted = False\<rparr>"

definition demo_world :: adb_world where
  "demo_world = \<lparr>aw_response = (\<lambda>n c. demo_response), aw_log = [], aw_sockets = []\<rparr>"

definition demo_net :: "bool \<Rightarrow> net_env" where
  "demo_net interrupted = \<lparr>ne_socket = (\<lambda>_. True), ne_listen = (\<lambda>p. p = 27184), ne_interrupted = (\<lambda>_. interrupted)\<rparr>"

theorem tunnel_not_left_behind_witness:
  "\<exists>ok tn w'. sc_adb_tunnel_open (demo_net False) [49] [50] \<lparr>pr_first = 27183, pr_last = 27199\<rparr> False sc_adb_tunnel_init demo_world =
    Some (ok, tn, w') \<and> (ok \<longrightarrow> port_in \<lparr>pr_first = 27183, pr_last = 27199\<rparr> (tn_local_port tn) \<and>
      (\<exists>t. t \<notin> device_tunnels demo_world \<and> device_tunnels w' = insert t (device_tunnels demo_world)))"
proof -
  have "removals_work (demo_net False) demo_world" "no_tunnel [49] demo_world"
    by (simp_all add: removals_work_def demo_net_def demo_world_def demo_response_def process_check_success_intr_def
      process_check_success_internal_def no_tunnel_def device_tunnels_def)
  from tunnel_not_left_behind [OF this, of "[50]" "\<lparr>pr_first = 27183, pr_last = 27199\<rparr>" False] show ?thesis by (auto split: if_splits)
qed

text \<open>An interruption while no port can be listened on leaves the reverse tunnel, although no tunnel is enabled.\<close>

lemma reverse_left_behind:
  "map_option (\<lambda>(ok, tn, w). (ok, tn_enabled tn, map fst (aw_log w)))
     (enable_tunnel_reverse_any_port (demo_net True) [49] [50] \<lparr>pr_first = 27183, pr_last = 27199\<rparr> sc_adb_tunnel_init demo_world) =
   Some (False, False, [Adb_reverse [49] (lit ''localabstract:'' @ [50]) (local_of 27183)])"
  unfolding enable_tunnel_reverse_any_port_def
  by (subst reverse_loop.simps)
    (simp add: sc_adb_reverse_def print_local_ok print_remote_def adb_check_def sc_adb_execute_p_def demo_world_def demo_response_def
      process_check_success_intr_def process_check_success_internal_def demo_net_def net_open_def net_close_def sc_adb_tunnel_init_def Let_def)

definition demo_listing_world :: adb_world where
  "demo_listing_world = demo_world\<lparr>aw_response := (\<lambda>n c. demo_response\<lparr>rp_output := Some (print_listing False [] demo_listing)\<rparr>)\<rparr>"

theorem select_device_unique_witness:
  "\<exists>w'. sc_adb_select_device True (\<lambda>_. (True, True, True, True)) (SC_ADB_DEVICE_SELECT_SERIAL (lit ''0123 456'')) demo_listing_world =
    Some (Some \<lparr>dev_serial = lit ''0123 456'', dev_state = lit ''device'', dev_model = Some (lit ''MyModel''), dev_selected = True\<rparr>, w')"
proof -
  let ?ds = "[\<lparr>dev_serial = lit ''0123 456'', dev_state = lit ''device'', dev_model = Some (lit ''MyModel''), dev_selected = False\<rparr>,
     \<lparr>dev_serial = lit ''192.168.1.1:5555'', dev_state = lit ''offline'', dev_model = None, dev_selected = False\<rparr>]"
  let ?s = "print_listing False [] demo_listing"
  have "length ?s = 123" "up_to_nul ?s = ?s" by code_simp+
  moreover have "sc_adb_parse_devices (\<lambda>_. (True, True, True, True)) ?s = Some (True, ?ds)" by code_simp
  ultimately obtain w' where "sc_adb_list_devices True (\<lambda>_. (True, True, True, True)) demo_listing_world = Some ((True, ?ds), w')"
    by (simp add: sc_adb_list_devices_def demo_listing_world_def sc_adb_execute_p_def demo_response_def
      process_check_success_intr_def process_check_success_internal_def read_string_def Let_def)
  moreover have "filter (\<lambda>d. sc_adb_accept_device d (SC_ADB_DEVICE_SELECT_SERIAL (lit ''0123 456''))) ?ds = [hd ?ds]" by code_simp
  ultimately show ?thesis
    using select_device_unique [of True "\<lambda>_. (True, True, True, True)" demo_listing_world ?ds w' "SC_ADB_DEVICE_SELECT_SERIAL (lit ''0123 456'')"]
    by simp
qed

text \<open>Printing a command for a message never writes outside the buffer, whatever the arguments and their lengths: a command
  that does not fit is cut, and the string is terminated.\<close>

theorem argv_string_fits:
  assumes "4 < length buf"
  shows "\<exists>n out. argv_to_string argv buf = Some (n, out) \<and> length out = length buf \<and> n < length out \<and> out ! n = 0"
  using argv_loop_ok [of 0 buf argv True] assms by (auto simp: argv_to_string_def mem_set_def)

theorem argv_string_fits_witness:
  "\<exists>n out. argv_to_string (adb_argv (Adb_forward [49] [50] [51])) (replicate 1024 0) = Some (n, out) \<and> n < 1024 \<and> out ! n = 0"
  using argv_string_fits [of "replicate 1024 0" "adb_argv (Adb_forward [49] [50] [51])"] by auto

end
