(* ===== verification/Options.thy ===== *)
theory Options
  imports InputManager Recorder Adb
begin

text \<open>
  \<^verbatim>\<open>app/src/options.h\<close> and the default values of \<^verbatim>\<open>app/src/options.c\<close>: the options of the client. A field is named
  after the one of \<^verbatim>\<open>struct scrcpy_options\<close>, with a prefix; a string is \<open>None\<close> for a null pointer. The fields that depend on
  the build (\<^verbatim>\<open>HAVE_V4L2\<close>, \<^verbatim>\<open>HAVE_USB\<close>) are always present.
\<close>

section \<open>Enumerations\<close>

datatype sc_log_level =
    SC_LOG_LEVEL_VERBOSE | SC_LOG_LEVEL_DEBUG | SC_LOG_LEVEL_INFO | SC_LOG_LEVEL_WARN | SC_LOG_LEVEL_ERROR

datatype sc_codec =
    SC_CODEC_H264 | SC_CODEC_H265 | SC_CODEC_AV1 | SC_CODEC_VP8 | SC_CODEC_VP9 | SC_CODEC_OPUS | SC_CODEC_AAC
  | SC_CODEC_FLAC | SC_CODEC_RAW

datatype sc_video_source =
    SC_VIDEO_SOURCE_DISPLAY | SC_VIDEO_SOURCE_CAMERA

datatype sc_audio_source =
    SC_AUDIO_SOURCE_AUTO | SC_AUDIO_SOURCE_OUTPUT | SC_AUDIO_SOURCE_MIC | SC_AUDIO_SOURCE_PLAYBACK
  | SC_AUDIO_SOURCE_MIC_UNPROCESSED | SC_AUDIO_SOURCE_MIC_CAMCORDER | SC_AUDIO_SOURCE_MIC_VOICE_RECOGNITION
  | SC_AUDIO_SOURCE_MIC_VOICE_COMMUNICATION | SC_AUDIO_SOURCE_VOICE_CALL | SC_AUDIO_SOURCE_VOICE_CALL_UPLINK
  | SC_AUDIO_SOURCE_VOICE_CALL_DOWNLINK | SC_AUDIO_SOURCE_VOICE_PERFORMANCE

datatype sc_camera_facing =
    SC_CAMERA_FACING_ANY | SC_CAMERA_FACING_FRONT | SC_CAMERA_FACING_BACK | SC_CAMERA_FACING_EXTERNAL

datatype sc_orientation_lock =
    SC_ORIENTATION_UNLOCKED | SC_ORIENTATION_LOCKED_VALUE | SC_ORIENTATION_LOCKED_INITIAL

datatype sc_display_ime_policy =
    SC_DISPLAY_IME_POLICY_UNDEFINED | SC_DISPLAY_IME_POLICY_LOCAL | SC_DISPLAY_IME_POLICY_FALLBACK
  | SC_DISPLAY_IME_POLICY_HIDE

datatype sc_keyboard_input_mode =
    SC_KEYBOARD_INPUT_MODE_AUTO | SC_KEYBOARD_INPUT_MODE_UHID_OR_AOA | SC_KEYBOARD_INPUT_MODE_DISABLED
  | SC_KEYBOARD_INPUT_MODE_SDK | SC_KEYBOARD_INPUT_MODE_UHID | SC_KEYBOARD_INPUT_MODE_AOA

datatype sc_mouse_input_mode =
    SC_MOUSE_INPUT_MODE_AUTO | SC_MOUSE_INPUT_MODE_UHID_OR_AOA | SC_MOUSE_INPUT_MODE_DISABLED
  | SC_MOUSE_INPUT_MODE_SDK | SC_MOUSE_INPUT_MODE_UHID | SC_MOUSE_INPUT_MODE_AOA

datatype sc_gamepad_input_mode =
    SC_GAMEPAD_INPUT_MODE_DISABLED | SC_GAMEPAD_INPUT_MODE_UHID_OR_AOA | SC_GAMEPAD_INPUT_MODE_UHID
  | SC_GAMEPAD_INPUT_MODE_AOA

definition sc_record_format_is_audio_only :: "sc_record_format \<Rightarrow> bool" where
  "sc_record_format_is_audio_only fmt \<longleftrightarrow>
     fmt = SC_RECORD_FORMAT_M4A \<or> fmt = SC_RECORD_FORMAT_MKA \<or> fmt = SC_RECORD_FORMAT_OPUS \<or>
     fmt = SC_RECORD_FORMAT_AAC \<or> fmt = SC_RECORD_FORMAT_FLAC \<or> fmt = SC_RECORD_FORMAT_WAV"

record sc_mouse_bindings =
  bind_pri :: sc_mouse_binding_set
  bind_sec :: sc_mouse_binding_set

definition SC_WINDOW_POSITION_UNDEFINED :: "16 word" where
  "SC_WINDOW_POSITION_UNDEFINED = - 0x8000"

section \<open>The options\<close>

record scrcpy_options =
  o_serial :: "byte_buf option"
  o_crop :: "byte_buf option"
  o_record_filename :: "byte_buf option"
  o_window_title :: "byte_buf option"
  o_push_target :: "byte_buf option"
  o_render_driver :: "byte_buf option"
  o_video_codec_options :: "byte_buf option"
  o_audio_codec_options :: "byte_buf option"
  o_video_encoder :: "byte_buf option"
  o_audio_encoder :: "byte_buf option"
  o_camera_id :: "byte_buf option"
  o_camera_size :: "byte_buf option"
  o_camera_ar :: "byte_buf option"
  o_camera_zoom :: "byte_buf option"
  o_camera_fps :: u16
  o_log_level :: sc_log_level
  o_video_codec :: sc_codec
  o_audio_codec :: sc_codec
  o_video_source :: sc_video_source
  o_audio_source :: sc_audio_source
  o_record_format :: sc_record_format
  o_keyboard_input_mode :: sc_keyboard_input_mode
  o_mouse_input_mode :: sc_mouse_input_mode
  o_gamepad_input_mode :: sc_gamepad_input_mode
  o_mouse_bindings :: sc_mouse_bindings
  o_camera_facing :: sc_camera_facing
  o_port_range :: sc_port_range
  o_tunnel_host :: u32
  o_tunnel_port :: u16
  o_shortcut_mods :: "sc_shortcut_mod set"
  o_min_size_alignment :: u8
  o_max_size :: u16
  o_video_bit_rate :: u32
  o_audio_bit_rate :: u32
  o_max_fps :: "byte_buf option"
  o_angle :: "byte_buf option"
  o_capture_orientation :: u32
  o_capture_orientation_lock :: sc_orientation_lock
  o_display_orientation :: u32
  o_record_orientation :: u32
  o_display_ime_policy :: sc_display_ime_policy
  o_render_fit :: sc_render_fit
  o_window_x :: "16 word"
  o_window_y :: "16 word"
  o_window_width :: u16
  o_window_height :: u16
  o_display_id :: u32
  o_background_color :: u32
  o_video_buffer :: int
  o_audio_buffer :: int
  o_audio_output_buffer :: int
  o_time_limit :: int
  o_screen_off_timeout :: int
  o_v4l2_device :: "byte_buf option"
  o_v4l2_buffer :: int
  o_otg :: bool
  o_show_touches :: bool
  o_fullscreen :: bool
  o_always_on_top :: bool
  o_control :: bool
  o_video_playback :: bool
  o_audio_playback :: bool
  o_turn_screen_off :: bool
  o_key_inject_mode :: sc_key_inject_mode
  o_window_aspect_ratio_lock :: bool
  o_window_borderless :: bool
  o_mipmaps :: bool
  o_stay_awake :: bool
  o_force_adb_forward :: bool
  o_disable_screensaver :: bool
  o_forward_key_repeat :: bool
  o_legacy_paste :: bool
  o_power_off_on_close :: bool
  o_clipboard_autosync :: bool
  o_downsize_on_error :: bool
  o_tcpip :: bool
  o_tcpip_dst :: "byte_buf option"
  o_select_usb :: bool
  o_select_tcpip :: bool
  o_cleanup :: bool
  o_start_fps_counter :: bool
  o_power_on :: bool
  o_video :: bool
  o_audio :: bool
  o_require_audio :: bool
  o_kill_adb_on_close :: bool
  o_camera_high_speed :: bool
  o_list :: u8
  o_window :: bool
  o_mouse_hover :: bool
  o_audio_dup :: bool
  o_new_display :: "byte_buf option"
  o_start_app :: "byte_buf option"
  o_vd_destroy_content :: bool
  o_vd_system_decorations :: bool
  o_camera_torch :: bool
  o_keep_active :: bool
  o_flex_display :: bool
  o_ignore_video_encoder_constraints :: bool
  o_update_terminal_title :: bool

definition auto_bindings :: sc_mouse_binding_set where
  "auto_bindings = \<lparr>right_click = SC_MOUSE_BINDING_AUTO, middle_click = SC_MOUSE_BINDING_AUTO, click4 = SC_MOUSE_BINDING_AUTO, click5 = SC_MOUSE_BINDING_AUTO\<rparr>"

definition scrcpy_options_default :: scrcpy_options where
  "scrcpy_options_default =
     \<lparr>o_serial = None, o_crop = None, o_record_filename = None, o_window_title = None, o_push_target = None,
      o_render_driver = None, o_video_codec_options = None, o_audio_codec_options = None,
      o_video_encoder = None, o_audio_encoder = None, o_camera_id = None, o_camera_size = None,
      o_camera_ar = None, o_camera_zoom = None, o_camera_fps = 0, o_log_level = SC_LOG_LEVEL_INFO,
      o_video_codec = SC_CODEC_H264, o_audio_codec = SC_CODEC_OPUS, o_video_source = SC_VIDEO_SOURCE_DISPLAY,
      o_audio_source = SC_AUDIO_SOURCE_AUTO, o_record_format = SC_RECORD_FORMAT_AUTO,
      o_keyboard_input_mode = SC_KEYBOARD_INPUT_MODE_AUTO, o_mouse_input_mode = SC_MOUSE_INPUT_MODE_AUTO,
      o_gamepad_input_mode = SC_GAMEPAD_INPUT_MODE_DISABLED,
      o_mouse_bindings = \<lparr>bind_pri = auto_bindings, bind_sec = auto_bindings\<rparr>,
      o_camera_facing = SC_CAMERA_FACING_ANY,
      o_port_range = \<lparr>pr_first = 27183, pr_last = 27199\<rparr>, o_tunnel_host = 0, o_tunnel_port = 0,
      o_shortcut_mods = {SC_SHORTCUT_MOD_LALT, SC_SHORTCUT_MOD_LSUPER}, o_min_size_alignment = 1,
      o_max_size = 0, o_video_bit_rate = 0, o_audio_bit_rate = 0, o_max_fps = None, o_angle = None,
      o_capture_orientation = SC_ORIENTATION_0, o_capture_orientation_lock = SC_ORIENTATION_UNLOCKED,
      o_display_orientation = SC_ORIENTATION_0, o_record_orientation = SC_ORIENTATION_0,
      o_display_ime_policy = SC_DISPLAY_IME_POLICY_UNDEFINED, o_render_fit = SC_RENDER_FIT_AUTO,
      o_window_x = SC_WINDOW_POSITION_UNDEFINED, o_window_y = SC_WINDOW_POSITION_UNDEFINED,
      o_window_width = 0, o_window_height = 0, o_display_id = 0, o_background_color = 0x222222,
      o_video_buffer = 0, o_audio_buffer = - 1, o_audio_output_buffer = SC_TICK_FROM_MS 10, o_time_limit = 0,
      o_screen_off_timeout = - 1, o_v4l2_device = None, o_v4l2_buffer = 0, o_otg = False,
      o_show_touches = False, o_fullscreen = False, o_always_on_top = False, o_control = True,
      o_video_playback = True, o_audio_playback = True, o_turn_screen_off = False,
      o_key_inject_mode = SC_KEY_INJECT_MODE_MIXED, o_window_aspect_ratio_lock = True,
      o_window_borderless = False, o_mipmaps = True, o_stay_awake = False, o_force_adb_forward = False,
      o_disable_screensaver = False, o_forward_key_repeat = True, o_legacy_paste = False,
      o_power_off_on_close = False, o_clipboard_autosync = True, o_downsize_on_error = True, o_tcpip = False,
      o_tcpip_dst = None, o_select_usb = False, o_select_tcpip = False, o_cleanup = True,
      o_start_fps_counter = False, o_power_on = True, o_video = True, o_audio = True,
      o_require_audio = False, o_kill_adb_on_close = False, o_camera_high_speed = False, o_list = 0,
      o_window = True, o_mouse_hover = True, o_audio_dup = False, o_new_display = None, o_start_app = None,
      o_vd_destroy_content = True, o_vd_system_decorations = True, o_camera_torch = False,
      o_keep_active = False, o_flex_display = False, o_ignore_video_encoder_constraints = False,
      o_update_terminal_title = True\<rparr>"

end
