(* ===== verification/CliParse.thy ===== *)
theory CliParse
  imports Options
begin

text \<open>
  The argument parsers of \<^verbatim>\<open>app/src/cli.c\<close>. A parser returns the value it stores, or \<open>None\<close> if it refuses its argument;
  where it can fail an assertion there is one more \<open>option\<close>, whose \<open>None\<close> is the abort.
\<close>

section \<open>Numbers\<close>

definition parse_integer_arg :: "byte_buf \<Rightarrow> bool \<Rightarrow> int \<Rightarrow> int \<Rightarrow> int option" where
  "parse_integer_arg s accept_suffix lo hi =
     (case (if accept_suffix then sc_str_parse_integer_with_suffix s else sc_str_parse_integer s) of
        None \<Rightarrow> None
      | Some value \<Rightarrow> if value < lo \<or> value > hi then None else Some value)"

definition parse_integers_arg :: "byte_buf \<Rightarrow> u8 \<Rightarrow> nat \<Rightarrow> int \<Rightarrow> int \<Rightarrow> int list option option" where
  "parse_integers_arg s sep max_items lo hi = do {
     r \<leftarrow> sc_str_parse_integers s sep max_items;
     Some (case r of
       None \<Rightarrow> None
     | Some values \<Rightarrow> if \<exists>value \<in> set values. value < lo \<or> value > hi then None else Some values)
   }"

definition parse_bit_rate :: "byte_buf \<Rightarrow> u32 option" where
  "parse_bit_rate s = map_option word_of_int (parse_integer_arg s True 0 0x7FFFFFFF)"

definition parse_max_size :: "byte_buf \<Rightarrow> u16 option" where
  "parse_max_size s = map_option word_of_int (parse_integer_arg s False 0 0xFFFF)"

definition parse_min_size_alignment :: "byte_buf \<Rightarrow> u8 option" where
  "parse_min_size_alignment s =
     (case parse_integer_arg s False 1 16 of
        None \<Rightarrow> None
      | Some value \<Rightarrow> if value AND (value - 1) \<noteq> 0 then None else Some (word_of_int value))"

definition SC_TICK_FROM_SEC :: "int \<Rightarrow> int" where
  "SC_TICK_FROM_SEC sec = sec * 1000000"

definition parse_buffering_time :: "byte_buf \<Rightarrow> int option" where
  "parse_buffering_time s = map_option SC_TICK_FROM_MS (parse_integer_arg s False 0 (60 * 60 * 1000))"

definition parse_audio_output_buffer :: "byte_buf \<Rightarrow> int option" where
  "parse_audio_output_buffer s = map_option SC_TICK_FROM_MS (parse_integer_arg s False 0 1000)"

definition parse_window_position :: "byte_buf \<Rightarrow> 16 word option" where
  "parse_window_position s =
     (if s = lit ''auto'' then Some SC_WINDOW_POSITION_UNDEFINED
      else map_option word_of_int (parse_integer_arg s False (- 0x7FFF) 0x7FFF))"

definition parse_window_dimension :: "byte_buf \<Rightarrow> u16 option" where
  "parse_window_dimension s = map_option word_of_int (parse_integer_arg s False 0 0xFFFF)"

definition parse_display_id :: "byte_buf \<Rightarrow> u32 option" where
  "parse_display_id s = map_option word_of_int (parse_integer_arg s False 0 0x7FFFFFFF)"

definition parse_port :: "byte_buf \<Rightarrow> u16 option" where
  "parse_port s = map_option word_of_int (parse_integer_arg s False 0 0xFFFF)"

definition parse_camera_fps :: "byte_buf \<Rightarrow> u16 option" where
  "parse_camera_fps s = map_option word_of_int (parse_integer_arg s False 0 0xFFFF)"

definition parse_time_limit :: "byte_buf \<Rightarrow> int option" where
  "parse_time_limit s = map_option SC_TICK_FROM_SEC (parse_integer_arg s False 0 0x7FFFFFFF)"

definition parse_screen_off_timeout :: "byte_buf \<Rightarrow> int option" where
  "parse_screen_off_timeout s = map_option SC_TICK_FROM_SEC (parse_integer_arg s False 0 (0x7FFFFFFF div 1000))"

definition parse_port_range :: "byte_buf \<Rightarrow> sc_port_range option option" where
  "parse_port_range s = do {
     r \<leftarrow> parse_integers_arg s 58 2 0 0xFFFF;
     case r of
       None \<Rightarrow> Some None
     | Some values \<Rightarrow> do {
         v \<leftarrow> mem_get 0 values;
         let v0 = word_of_int v;
         if length values = 1 then Some (Some \<lparr>pr_first = v0, pr_last = v0\<rparr>)
         else do {
           c_assert (length values = 2);
           v \<leftarrow> mem_get 1 values;
           let v1 = word_of_int v;
           Some (Some (if v0 < v1 then \<lparr>pr_first = v0, pr_last = v1\<rparr> else \<lparr>pr_first = v1, pr_last = v0\<rparr>))
         }
       }
   }"

text \<open>\<^verbatim>\<open>net_parse_ipv4\<close> calls \<^verbatim>\<open>inet_pton\<close>, a parameter.\<close>

definition parse_ip :: "(byte_buf \<Rightarrow> u32 option) \<Rightarrow> byte_buf \<Rightarrow> u32 option" where
  "parse_ip inet_pton s = inet_pton s"

section \<open>Names\<close>

text \<open>A chain of \<^verbatim>\<open>strcmp\<close> is a lookup in a list.\<close>

definition parse_display_ime_policy :: "byte_buf \<Rightarrow> sc_display_ime_policy option" where
  "parse_display_ime_policy = map_of
     [(lit ''local'', SC_DISPLAY_IME_POLICY_LOCAL),
      (lit ''fallback'', SC_DISPLAY_IME_POLICY_FALLBACK),
      (lit ''hide'', SC_DISPLAY_IME_POLICY_HIDE)]"

definition parse_orientation :: "byte_buf \<Rightarrow> u32 option" where
  "parse_orientation = map_of
     [(lit ''0'', SC_ORIENTATION_0),
      (lit ''90'', SC_ORIENTATION_90),
      (lit ''180'', SC_ORIENTATION_180),
      (lit ''270'', SC_ORIENTATION_270),
      (lit ''flip0'', SC_ORIENTATION_FLIP_0),
      (lit ''flip90'', SC_ORIENTATION_FLIP_90),
      (lit ''flip180'', SC_ORIENTATION_FLIP_180),
      (lit ''flip270'', SC_ORIENTATION_FLIP_270)]"

text \<open>The orientation is \<open>None\<close> where it is not stored.\<close>

definition parse_capture_orientation :: "byte_buf \<Rightarrow> (u32 option \<times> sc_orientation_lock) option" where
  "parse_capture_orientation s =
     (case s of
        [] \<Rightarrow> None
      | c # s' \<Rightarrow>
          if c = 64 then
            (if s' = [] then Some (None, SC_ORIENTATION_LOCKED_INITIAL)
             else map_option (\<lambda>v. (Some v, SC_ORIENTATION_LOCKED_VALUE)) (parse_orientation s'))
          else map_option (\<lambda>v. (Some v, SC_ORIENTATION_UNLOCKED)) (parse_orientation s))"

definition parse_log_level :: "byte_buf \<Rightarrow> sc_log_level option" where
  "parse_log_level = map_of
     [(lit ''verbose'', SC_LOG_LEVEL_VERBOSE),
      (lit ''debug'', SC_LOG_LEVEL_DEBUG),
      (lit ''info'', SC_LOG_LEVEL_INFO),
      (lit ''warn'', SC_LOG_LEVEL_WARN),
      (lit ''error'', SC_LOG_LEVEL_ERROR)]"

definition get_record_format :: "byte_buf \<Rightarrow> sc_record_format" where
  "get_record_format name =
     (case map_of
        [(lit ''mp4'', SC_RECORD_FORMAT_MP4),
         (lit ''mkv'', SC_RECORD_FORMAT_MKV),
         (lit ''m4a'', SC_RECORD_FORMAT_M4A),
         (lit ''mka'', SC_RECORD_FORMAT_MKA),
         (lit ''opus'', SC_RECORD_FORMAT_OPUS),
         (lit ''aac'', SC_RECORD_FORMAT_AAC),
         (lit ''flac'', SC_RECORD_FORMAT_FLAC),
         (lit ''wav'', SC_RECORD_FORMAT_WAV)] name of
        None \<Rightarrow> SC_RECORD_FORMAT_AUTO | Some f \<Rightarrow> f)"

definition parse_record_format :: "byte_buf \<Rightarrow> sc_record_format option" where
  "parse_record_format optarg =
     (let fmt = get_record_format optarg in if fmt = SC_RECORD_FORMAT_AUTO then None else Some fmt)"

definition guess_record_format :: "byte_buf \<Rightarrow> sc_record_format" where
  "guess_record_format filename =
     (if 46 \<notin> set filename then SC_RECORD_FORMAT_AUTO
      else get_record_format (rev (takeWhile (\<lambda>c. c \<noteq> 46) (rev filename))))"

definition parse_video_codec :: "byte_buf \<Rightarrow> sc_codec option" where
  "parse_video_codec = map_of
     [(lit ''h264'', SC_CODEC_H264),
      (lit ''h265'', SC_CODEC_H265),
      (lit ''av1'', SC_CODEC_AV1),
      (lit ''vp8'', SC_CODEC_VP8),
      (lit ''vp9'', SC_CODEC_VP9)]"

definition parse_audio_codec :: "byte_buf \<Rightarrow> sc_codec option" where
  "parse_audio_codec = map_of
     [(lit ''opus'', SC_CODEC_OPUS),
      (lit ''aac'', SC_CODEC_AAC),
      (lit ''flac'', SC_CODEC_FLAC),
      (lit ''raw'', SC_CODEC_RAW)]"

definition parse_video_source :: "byte_buf \<Rightarrow> sc_video_source option" where
  "parse_video_source = map_of
     [(lit ''display'', SC_VIDEO_SOURCE_DISPLAY),
      (lit ''camera'', SC_VIDEO_SOURCE_CAMERA)]"

definition parse_audio_source :: "byte_buf \<Rightarrow> sc_audio_source option" where
  "parse_audio_source = map_of
     [(lit ''mic'', SC_AUDIO_SOURCE_MIC),
      (lit ''output'', SC_AUDIO_SOURCE_OUTPUT),
      (lit ''playback'', SC_AUDIO_SOURCE_PLAYBACK),
      (lit ''mic-unprocessed'', SC_AUDIO_SOURCE_MIC_UNPROCESSED),
      (lit ''mic-camcorder'', SC_AUDIO_SOURCE_MIC_CAMCORDER),
      (lit ''mic-voice-recognition'', SC_AUDIO_SOURCE_MIC_VOICE_RECOGNITION),
      (lit ''mic-voice-communication'', SC_AUDIO_SOURCE_MIC_VOICE_COMMUNICATION),
      (lit ''voice-call'', SC_AUDIO_SOURCE_VOICE_CALL),
      (lit ''voice-call-uplink'', SC_AUDIO_SOURCE_VOICE_CALL_UPLINK),
      (lit ''voice-call-downlink'', SC_AUDIO_SOURCE_VOICE_CALL_DOWNLINK),
      (lit ''voice-performance'', SC_AUDIO_SOURCE_VOICE_PERFORMANCE)]"

definition parse_camera_facing :: "byte_buf \<Rightarrow> sc_camera_facing option" where
  "parse_camera_facing = map_of
     [(lit ''front'', SC_CAMERA_FACING_FRONT),
      (lit ''back'', SC_CAMERA_FACING_BACK),
      (lit ''external'', SC_CAMERA_FACING_EXTERNAL),
      ([], SC_CAMERA_FACING_ANY)]"

text \<open>\<open>have_usb\<close> is the build flag \<^verbatim>\<open>HAVE_USB\<close>.\<close>

definition parse_keyboard :: "bool \<Rightarrow> byte_buf \<Rightarrow> sc_keyboard_input_mode option" where
  "parse_keyboard have_usb optarg =
     (if optarg = lit ''aoa'' then (if have_usb then Some SC_KEYBOARD_INPUT_MODE_AOA else None)
      else map_of
        [(lit ''disabled'', SC_KEYBOARD_INPUT_MODE_DISABLED),
         (lit ''sdk'', SC_KEYBOARD_INPUT_MODE_SDK),
         (lit ''uhid'', SC_KEYBOARD_INPUT_MODE_UHID)] optarg)"

definition parse_mouse :: "bool \<Rightarrow> byte_buf \<Rightarrow> sc_mouse_input_mode option" where
  "parse_mouse have_usb optarg =
     (if optarg = lit ''aoa'' then (if have_usb then Some SC_MOUSE_INPUT_MODE_AOA else None)
      else map_of
        [(lit ''disabled'', SC_MOUSE_INPUT_MODE_DISABLED),
         (lit ''sdk'', SC_MOUSE_INPUT_MODE_SDK),
         (lit ''uhid'', SC_MOUSE_INPUT_MODE_UHID)] optarg)"

definition parse_gamepad :: "bool \<Rightarrow> byte_buf \<Rightarrow> sc_gamepad_input_mode option" where
  "parse_gamepad have_usb optarg =
     (if optarg = lit ''aoa'' then (if have_usb then Some SC_GAMEPAD_INPUT_MODE_AOA else None)
      else map_of
        [(lit ''disabled'', SC_GAMEPAD_INPUT_MODE_DISABLED),
         (lit ''uhid'', SC_GAMEPAD_INPUT_MODE_UHID)] optarg)"

datatype sc_pause_on_exit =
    SC_PAUSE_ON_EXIT_UNDEFINED | SC_PAUSE_ON_EXIT_TRUE | SC_PAUSE_ON_EXIT_FALSE | SC_PAUSE_ON_EXIT_IF_ERROR

definition parse_pause_on_exit :: "byte_buf option \<Rightarrow> sc_pause_on_exit option" where
  "parse_pause_on_exit arg =
     (case arg of
        None \<Rightarrow> Some SC_PAUSE_ON_EXIT_TRUE
      | Some s \<Rightarrow> map_of
          [(lit ''true'', SC_PAUSE_ON_EXIT_TRUE),
           (lit ''false'', SC_PAUSE_ON_EXIT_FALSE),
           (lit ''if-error'', SC_PAUSE_ON_EXIT_IF_ERROR)] s)"

definition parse_render_fit :: "byte_buf \<Rightarrow> sc_render_fit option" where
  "parse_render_fit = map_of
     [(lit ''letterbox'', SC_RENDER_FIT_LETTERBOX),
      (lit ''stretched'', SC_RENDER_FIT_STRETCHED),
      (lit ''unscaled'', SC_RENDER_FIT_UNSCALED)]"

section \<open>Shortcut modifiers\<close>

definition parse_shortcut_mods_item :: "byte_buf \<Rightarrow> sc_shortcut_mod option" where
  "parse_shortcut_mods_item = map_of
     [(lit ''lctrl'', SC_SHORTCUT_MOD_LCTRL),
      (lit ''rctrl'', SC_SHORTCUT_MOD_RCTRL),
      (lit ''lalt'', SC_SHORTCUT_MOD_LALT),
      (lit ''ralt'', SC_SHORTCUT_MOD_RALT),
      (lit ''lsuper'', SC_SHORTCUT_MOD_LSUPER),
      (lit ''rsuper'', SC_SHORTCUT_MOD_RSUPER)]"

function shortcut_mods_loop :: "byte_buf \<Rightarrow> sc_shortcut_mod set \<Rightarrow> sc_shortcut_mod set option option" where
  "shortcut_mods_loop s mods =
     (let limit = length (takeWhile (\<lambda>c. c \<noteq> 44) s); comma = limit < length s in do {
        c_assert (\<not> comma \<or> limit > 0);
        case parse_shortcut_mods_item (take limit s) of
          None \<Rightarrow> Some None
        | Some m \<Rightarrow> if comma then shortcut_mods_loop (drop (limit + 1) s) (insert m mods)
                   else Some (Some (insert m mods))
      })"
  by pat_completeness auto
termination
  by (relation "measure (\<lambda>(s, mods). length s)") auto

declare shortcut_mods_loop.simps [simp del]

definition parse_shortcut_mods :: "byte_buf \<Rightarrow> sc_shortcut_mod set option option" where
  "parse_shortcut_mods s = shortcut_mods_loop s {}"

section \<open>Mouse bindings\<close>

definition parse_mouse_binding :: "u8 \<Rightarrow> sc_mouse_binding option" where
  "parse_mouse_binding c =
     (if c = 43 then Some SC_MOUSE_BINDING_CLICK
      else if c = 45 then Some SC_MOUSE_BINDING_DISABLED
      else if c = 98 then Some SC_MOUSE_BINDING_BACK
      else if c = 104 then Some SC_MOUSE_BINDING_HOME
      else if c = 115 then Some SC_MOUSE_BINDING_APP_SWITCH
      else if c = 110 then Some SC_MOUSE_BINDING_EXPAND_NOTIFICATION_PANEL
      else None)"

definition parse_mouse_binding_set :: "byte_buf \<Rightarrow> sc_mouse_binding_set option option" where
  "parse_mouse_binding_set s = do {
     c_assert (length s \<ge> 4);
     Some (do {
       right \<leftarrow> parse_mouse_binding (s ! 0);
       middle \<leftarrow> parse_mouse_binding (s ! 1);
       b4 \<leftarrow> parse_mouse_binding (s ! 2);
       b5 \<leftarrow> parse_mouse_binding (s ! 3);
       Some \<lparr>right_click = right, middle_click = middle, click4 = b4, click5 = b5\<rparr>
     })
   }"

definition parse_mouse_bindings :: "byte_buf \<Rightarrow> sc_mouse_bindings option option" where
  "parse_mouse_bindings s =
     (let len = length s in
      if len \<noteq> 4 \<and> (len \<noteq> 9 \<or> s ! 4 \<noteq> 58) then Some None
      else do {
        pri \<leftarrow> parse_mouse_binding_set s;
        case pri of
          None \<Rightarrow> Some None
        | Some pri \<Rightarrow>
            if len = 9 then do {
              sec \<leftarrow> parse_mouse_binding_set (drop 5 s);
              Some (map_option (\<lambda>sec. \<lparr>bind_pri = pri, bind_sec = sec\<rparr>) sec)
            }
            else Some (Some \<lparr>bind_pri = pri, bind_sec = pri\<rparr>)
      })"

section \<open>Colours\<close>

definition parse_hex_char :: "u8 \<Rightarrow> u8 option" where
  "parse_hex_char c =
     (if c \<ge> 48 \<and> c \<le> 57 then Some (c - 48)
      else if c \<ge> 97 \<and> c \<le> 102 then Some (c - 97 + 10)
      else if c \<ge> 65 \<and> c \<le> 70 then Some (c - 65 + 10)
      else None)"

definition parse_hex_byte :: "u8 \<Rightarrow> u8 \<Rightarrow> u8 option" where
  "parse_hex_byte a b = do {
     left \<leftarrow> parse_hex_char a;
     right \<leftarrow> parse_hex_char b;
     Some (push_bit 4 left OR right)
   }"

definition rgb_color :: "u8 \<Rightarrow> u8 \<Rightarrow> u8 \<Rightarrow> u32" where
  "rgb_color r g b = push_bit 16 (ucast r) OR push_bit 8 (ucast g) OR ucast b"

definition parse_hex_color :: "byte_buf \<Rightarrow> u32 option" where
  "parse_hex_color s =
     (let s = (case s of [] \<Rightarrow> [] | c # s' \<Rightarrow> if c = 35 then s' else s) in
      case s of
        [a, b, c] \<Rightarrow> do {
          r \<leftarrow> parse_hex_char a;
          g \<leftarrow> parse_hex_char b;
          b \<leftarrow> parse_hex_char c;
          Some (rgb_color (r * 0x11) (g * 0x11) (b * 0x11))
        }
      | [a, b, c, d, e, f] \<Rightarrow> do {
          r \<leftarrow> parse_hex_byte a b;
          g \<leftarrow> parse_hex_byte c d;
          b \<leftarrow> parse_hex_byte e f;
          Some (rgb_color r g b)
        }
      | _ \<Rightarrow> None)"

section \<open>What the parsers accept\<close>

text \<open>Shortcut modifiers: the names, and a list of them separated by commas.\<close>

fun mod_name :: "sc_shortcut_mod \<Rightarrow> byte_buf" where
  "mod_name SC_SHORTCUT_MOD_LCTRL = lit ''lctrl''"
| "mod_name SC_SHORTCUT_MOD_RCTRL = lit ''rctrl''"
| "mod_name SC_SHORTCUT_MOD_LALT = lit ''lalt''"
| "mod_name SC_SHORTCUT_MOD_RALT = lit ''ralt''"
| "mod_name SC_SHORTCUT_MOD_LSUPER = lit ''lsuper''"
| "mod_name SC_SHORTCUT_MOD_RSUPER = lit ''rsuper''"

definition mod_items :: "sc_shortcut_mod list \<Rightarrow> byte_buf" where
  "mod_items ms = concat (map (\<lambda>m. mod_name m @ [44]) ms)"

lemma mod_items_simps [simp]: "mod_items [] = []" "mod_items (m # ms) = mod_name m @ 44 # mod_items ms"
  by (simp_all add: mod_items_def)

lemma mod_name_no_comma: "\<forall>c \<in> set (mod_name m). c \<noteq> 44"
  by (cases m; hypsubst; code_simp)

lemma mod_name_not_Nil [simp]: "mod_name m \<noteq> []"
  by (cases m; hypsubst; code_simp)

lemma item_of_name [simp]: "parse_shortcut_mods_item (mod_name m) = Some m"
  by (cases m; hypsubst; code_simp)

lemma item_name: "parse_shortcut_mods_item s = Some m \<longleftrightarrow> s = mod_name m"
proof
  assume "parse_shortcut_mods_item s = Some m"
  then show "s = mod_name m"
    unfolding parse_shortcut_mods_item_def by (drule_tac map_of_SomeD) auto
qed simp

lemma name_prefix:
  "takeWhile (\<lambda>c. c \<noteq> 44) (mod_name m @ 44 # r) = mod_name m"
  "takeWhile (\<lambda>c. c \<noteq> 44) (mod_name m) = mod_name m"
  using mod_name_no_comma [of m] by (auto simp: takeWhile_append takeWhile_eq_all_conv)

lemma mods_loop_item:
  "shortcut_mods_loop (mod_name m @ 44 # r) M = shortcut_mods_loop r (insert m M)"
  "shortcut_mods_loop (mod_name m) M = Some (Some (insert m M))"
  by (subst shortcut_mods_loop.simps, simp add: name_prefix Let_def)+

lemma mods_loop_step:
  assumes "\<forall>c \<in> set i. c \<noteq> 44"
  shows "shortcut_mods_loop (i @ 44 # r) M =
      (if i = [] then None
       else case parse_shortcut_mods_item i of None \<Rightarrow> Some None | Some m \<Rightarrow> shortcut_mods_loop r (insert m M))"
    and "shortcut_mods_loop i M = Some (case parse_shortcut_mods_item i of None \<Rightarrow> None | Some m \<Rightarrow> Some (insert m M))"
proof -
  have t: "takeWhile (\<lambda>c. c \<noteq> 44) (i @ 44 # r) = i" "takeWhile (\<lambda>c. c \<noteq> 44) i = i"
    using assms by (auto simp: takeWhile_append takeWhile_eq_all_conv)
  show "shortcut_mods_loop (i @ 44 # r) M =
      (if i = [] then None
       else case parse_shortcut_mods_item i of None \<Rightarrow> Some None | Some m \<Rightarrow> shortcut_mods_loop r (insert m M))"
    by (subst shortcut_mods_loop.simps) (simp add: t Let_def split: option.splits)
  show "shortcut_mods_loop i M = Some (case parse_shortcut_mods_item i of None \<Rightarrow> None | Some m \<Rightarrow> Some (insert m M))"
    by (subst shortcut_mods_loop.simps) (simp add: t Let_def split: option.splits)
qed

lemma mods_loop_items: "shortcut_mods_loop (mod_items ms @ r) M = shortcut_mods_loop r (set ms \<union> M)"
  by (induction ms arbitrary: M) (simp_all add: mods_loop_item)

lemma mods_loop_cases:
  "(\<exists>ms m. s = mod_items ms @ mod_name m \<and> shortcut_mods_loop s M = Some (Some (set ms \<union> {m} \<union> M))) \<or>
   (\<exists>ms r. s = mod_items ms @ 44 # r \<and> shortcut_mods_loop s M = None) \<or>
   shortcut_mods_loop s M = Some None"
proof (induction s arbitrary: M rule: length_induct)
  case (1 s)
  define i where "i = takeWhile (\<lambda>c. c \<noteq> 44) s"
  have t: "take (length i) s = i" by (simp add: i_def takeWhile_eq_take [symmetric])
  have i44: "\<forall>c \<in> set i. c \<noteq> 44" by (auto simp: i_def dest: set_takeWhileD)
  consider (comma) r where "s = i @ 44 # r" | (last) "s = i"
  proof (cases "dropWhile (\<lambda>c. c \<noteq> 44) s")
    case (Cons a r)
    then have "a = 44" using hd_dropWhile [of "\<lambda>c. c \<noteq> 44" s] by simp
    with Cons takeWhile_dropWhile_id [of "\<lambda>c. c \<noteq> 44" s] have "s = i @ 44 # r" unfolding i_def by metis
    then show ?thesis by (rule that(1))
  next
    case Nil
    with takeWhile_dropWhile_id [of "\<lambda>c. c \<noteq> 44" s] have "s = i" unfolding i_def by (metis append_Nil2)
    then show ?thesis by (rule that(2))
  qed
  then show ?case
  proof cases
    case comma
    show ?thesis
    proof (cases "parse_shortcut_mods_item i")
      case None
      then show ?thesis using mods_loop_step(1) [OF i44, of r M] comma
        by (cases "i = []") (auto intro: exI [of _ "[]"])
    next
      case (Some m)
      then have i: "i = mod_name m" by (simp add: item_name)
      have IH:
        "(\<exists>ms k. r = mod_items ms @ mod_name k \<and> shortcut_mods_loop r (insert m M) = Some (Some (set ms \<union> {k} \<union> insert m M))) \<or>
         (\<exists>ms r'. r = mod_items ms @ 44 # r' \<and> shortcut_mods_loop r (insert m M) = None) \<or>
         shortcut_mods_loop r (insert m M) = Some None"
        using 1 [rule_format, of r "insert m M"] comma by simp
      have s: "shortcut_mods_loop s M = shortcut_mods_loop r (insert m M)" using comma i by (simp add: mods_loop_item)
      from IH show ?thesis
      proof (elim disjE exE conjE)
        fix ms k assume "r = mod_items ms @ mod_name k" "shortcut_mods_loop r (insert m M) = Some (Some (set ms \<union> {k} \<union> insert m M))"
        then show ?thesis using comma i s by (intro disjI1 exI [of _ "m # ms"] exI [of _ k]) auto
      next
        fix ms r' assume "r = mod_items ms @ 44 # r'" "shortcut_mods_loop r (insert m M) = None"
        then show ?thesis using comma i s by (intro disjI2 disjI1 exI [of _ "m # ms"] exI [of _ r']) auto
      qed (use s in simp)
    qed
  next
    case last
    show ?thesis
    proof (cases "parse_shortcut_mods_item i")
      case None
      then show ?thesis using mods_loop_step(2) [OF i44, of M] last by simp
    next
      case (Some m)
      then show ?thesis using last item_name [of s m] by (intro disjI1 exI [of _ "[]"] exI [of _ m]) (simp add: mods_loop_item)
    qed
  qed
qed

text \<open>C19. What \<^verbatim>\<open>--shortcut-mod\<close> accepts: a list of names separated by commas stands for the set of its modifiers, anything
  else is refused, except that an empty item followed by a comma, after names only, aborts the program.\<close>

theorem shortcut_mods_exact:
  "(parse_shortcut_mods s = Some (Some M) \<longleftrightarrow> (\<exists>ms m. s = mod_items ms @ mod_name m \<and> M = set ms \<union> {m})) \<and>
   (parse_shortcut_mods s = None \<longleftrightarrow> (\<exists>ms r. s = mod_items ms @ 44 # r))"
proof -
  have ok: "parse_shortcut_mods (mod_items ms @ mod_name m) = Some (Some (set ms \<union> {m}))" for ms m
    unfolding parse_shortcut_mods_def mods_loop_items mods_loop_item(2) by simp
  have abort: "parse_shortcut_mods (mod_items ms @ 44 # r) = None" for ms r
    unfolding parse_shortcut_mods_def mods_loop_items by (subst shortcut_mods_loop.simps) simp
  show ?thesis
    using mods_loop_cases [of s "{}"] ok abort by (fastforce simp: parse_shortcut_mods_def)
qed

text \<open>Colours, printed with two digits per component.\<close>

definition color_digit :: "bool \<Rightarrow> u8 \<Rightarrow> u8" where
  "color_digit upper n = (if n < 10 then 48 + n else if upper then 65 + (n - 10) else 97 + (n - 10))"

definition color_byte :: "bool \<Rightarrow> u8 \<Rightarrow> byte_buf" where
  "color_byte upper v = [color_digit upper (drop_bit 4 v), color_digit upper (v AND 15)]"

lemma parse_color_digit: "n < 16 \<Longrightarrow> parse_hex_char (color_digit upper n) = Some n"
proof -
  assume "n < 16"
  then have "unat n < 16" by (simp add: word_less_nat_alt)
  then have "unat n \<in> set [0..<16]" by simp
  then have "of_nat (unat n) \<in> (of_nat :: nat \<Rightarrow> u8) ` set [0..<16]" by (rule imageI)
  then have "n \<in> {0, 1, 2, 3, 4, 5, 6, 7, 8, 9, 10, 11, 12, 13, 14, 15}" by (simp add: upt_rec numeral_eq_Suc [of num.One])
  then show ?thesis by (elim insertE emptyE) (cases upper; simp add: parse_hex_char_def color_digit_def)+
qed

lemma nibbles:
  fixes v :: u8
  shows "drop_bit 4 v < 16" "v AND 15 < 16" "push_bit 4 (drop_bit 4 v) OR (v AND 15) = v"
proof -
  have m: "(15 :: u8) = mask 4" by (simp add: mask_eq_exp_minus_1)
  show "v AND 15 < 16" using and_mask_less' [of 4 v] by (simp add: mask_eq_exp_minus_1)
  have "unat (drop_bit 4 v) = unat v div 16" by (simp add: drop_bit_eq_div unat_div)
  then have "unat (drop_bit 4 v) < 16" using unsigned_less [of v, where ?'a = nat] by simp
  then show "drop_bit 4 v < 16" by (simp add: word_less_nat_alt)
  show "push_bit 4 (drop_bit 4 v) OR (v AND 15) = v"
    unfolding m by (rule bit_word_eqI) (auto simp: bit_simps)
qed

lemma parse_hex_printed: "color_byte upper v = [a, b] \<Longrightarrow> parse_hex_byte a b = Some v"
  using nibbles [of v] by (auto simp: color_byte_def parse_hex_byte_def parse_color_digit)

lemma color_digit_not_hash: "n < 16 \<Longrightarrow> color_digit upper n \<noteq> 35"
  using parse_color_digit [of n upper] by (auto simp: parse_hex_char_def split: if_splits)

theorem hex_color_roundtrip:
  "parse_hex_color ((if hash then [35] else []) @ color_byte ur r @ color_byte ug g @ color_byte ub b) = Some (rgb_color r g b)"
  using nibbles [of r] nibbles [of g] nibbles [of b]
  by (simp add: parse_hex_color_def color_byte_def parse_hex_byte_def parse_color_digit color_digit_not_hash Let_def)

text \<open>An argument in range is read back from its decimal digits, one out of range is refused; a range of ports is in order
  whichever way it is written.\<close>

lemma integer_arg_show:
  "in_long n \<Longrightarrow> parse_integer_arg (show_int n) False lo hi = (if lo \<le> n \<and> n \<le> hi then Some n else None)"
  using parse_integer_roundtrip [of n] by (auto simp: parse_integer_arg_def)

lemma integer_arg_range: "parse_integer_arg s suffix lo hi = Some n \<Longrightarrow> lo \<le> n \<and> n \<le> hi"
  by (auto simp: parse_integer_arg_def split: option.splits if_splits)

lemma port_range_ordered: "parse_port_range s = Some (Some pr) \<Longrightarrow> pr_first pr \<le> pr_last pr"
proof -
  assume a: "parse_port_range s = Some (Some pr)"
  have o: "pr_first q \<le> pr_last q" if "Some (Some (if v < w then \<lparr>pr_first = v, pr_last = w\<rparr> else \<lparr>pr_first = w, pr_last = v\<rparr>)) = Some (Some q)"
    for v w q using that by (cases "v < w") auto
  from a obtain vals v where "mem_get 0 vals = Some v"
    "(let v0 = word_of_int v in
       if length vals = 1 then Some (Some \<lparr>pr_first = v0, pr_last = v0\<rparr>)
       else do {
         c_assert (length vals = 2);
         v \<leftarrow> mem_get 1 vals;
         let v1 = word_of_int v;
         Some (Some (if v0 < v1 then \<lparr>pr_first = v0, pr_last = v1\<rparr> else \<lparr>pr_first = v1, pr_last = v0\<rparr>))
       }) = Some (Some pr)"
    unfolding parse_port_range_def bind_eq_Some_conv by (auto simp: bind_eq_Some_conv split: option.splits simp del: Let_def)
  then show ?thesis
    unfolding Let_def by (cases "length vals = 1") (simp, auto simp: bind_eq_Some_conv dest: o simp del: word_of_int_less_iff)
qed

lemma window_position_not_undefined:
  assumes "parse_window_position s = Some p" "s \<noteq> lit ''auto''"
  shows "p \<noteq> SC_WINDOW_POSITION_UNDEFINED"
proof -
  obtain n where "parse_integer_arg s False (- 0x7FFF) 0x7FFF = Some n" "p = word_of_int n"
    using assms by (auto simp: parse_window_position_def)
  with integer_arg_range have n: "- 0x7FFF \<le> n" "n \<le> 0x7FFF" "p = word_of_int n" by blast+
  then have "sint p = n" by (simp add: signed_of_int signed_take_bit_int_eq_self)
  moreover have "sint SC_WINDOW_POSITION_UNDEFINED = - 0x8000" by (simp add: SC_WINDOW_POSITION_UNDEFINED_def)
  ultimately show ?thesis using n by auto
qed

lemma orientation_names:
  "d \<in> {SC_ORIENTATION_0, SC_ORIENTATION_90, SC_ORIENTATION_180, SC_ORIENTATION_270,
     SC_ORIENTATION_FLIP_0, SC_ORIENTATION_FLIP_90, SC_ORIENTATION_FLIP_180, SC_ORIENTATION_FLIP_270} \<Longrightarrow>
   parse_orientation (lit (sc_orientation_get_name d)) = Some d"
  by (elim insertE emptyE; hypsubst; code_simp)

end
