(* ===== verification/CliTable.thy ===== *)
theory CliTable
  imports CliParse
begin

text \<open>
  The option table of \<^verbatim>\<open>app/src/cli.c\<close> and what it passes to \<^verbatim>\<open>getopt_long\<close>. Help texts are left out.
\<close>

section \<open>Options\<close>

text \<open>The values that \<^verbatim>\<open>getopt_long\<close> returns: those of the enumeration, or the character of a short option.\<close>

abbreviation OPT_WINDOW_TITLE :: int where "OPT_WINDOW_TITLE \<equiv> 1000"
abbreviation OPT_PUSH_TARGET :: int where "OPT_PUSH_TARGET \<equiv> 1001"
abbreviation OPT_ALWAYS_ON_TOP :: int where "OPT_ALWAYS_ON_TOP \<equiv> 1002"
abbreviation OPT_CROP :: int where "OPT_CROP \<equiv> 1003"
abbreviation OPT_RECORD_FORMAT :: int where "OPT_RECORD_FORMAT \<equiv> 1004"
abbreviation OPT_PREFER_TEXT :: int where "OPT_PREFER_TEXT \<equiv> 1005"
abbreviation OPT_WINDOW_X :: int where "OPT_WINDOW_X \<equiv> 1006"
abbreviation OPT_WINDOW_Y :: int where "OPT_WINDOW_Y \<equiv> 1007"
abbreviation OPT_WINDOW_WIDTH :: int where "OPT_WINDOW_WIDTH \<equiv> 1008"
abbreviation OPT_WINDOW_HEIGHT :: int where "OPT_WINDOW_HEIGHT \<equiv> 1009"
abbreviation OPT_WINDOW_BORDERLESS :: int where "OPT_WINDOW_BORDERLESS \<equiv> 1010"
abbreviation OPT_MAX_FPS :: int where "OPT_MAX_FPS \<equiv> 1011"
abbreviation OPT_DISPLAY_ID :: int where "OPT_DISPLAY_ID \<equiv> 1012"
abbreviation OPT_RENDER_DRIVER :: int where "OPT_RENDER_DRIVER \<equiv> 1013"
abbreviation OPT_NO_MIPMAPS :: int where "OPT_NO_MIPMAPS \<equiv> 1014"
abbreviation OPT_VIDEO_CODEC_OPTIONS :: int where "OPT_VIDEO_CODEC_OPTIONS \<equiv> 1015"
abbreviation OPT_FORCE_ADB_FORWARD :: int where "OPT_FORCE_ADB_FORWARD \<equiv> 1016"
abbreviation OPT_DISABLE_SCREENSAVER :: int where "OPT_DISABLE_SCREENSAVER \<equiv> 1017"
abbreviation OPT_SHORTCUT_MOD :: int where "OPT_SHORTCUT_MOD \<equiv> 1018"
abbreviation OPT_NO_KEY_REPEAT :: int where "OPT_NO_KEY_REPEAT \<equiv> 1019"
abbreviation OPT_LEGACY_PASTE :: int where "OPT_LEGACY_PASTE \<equiv> 1020"
abbreviation OPT_VIDEO_ENCODER :: int where "OPT_VIDEO_ENCODER \<equiv> 1021"
abbreviation OPT_POWER_OFF_ON_CLOSE :: int where "OPT_POWER_OFF_ON_CLOSE \<equiv> 1022"
abbreviation OPT_V4L2_SINK :: int where "OPT_V4L2_SINK \<equiv> 1023"
abbreviation OPT_VIDEO_BUFFER :: int where "OPT_VIDEO_BUFFER \<equiv> 1024"
abbreviation OPT_V4L2_BUFFER :: int where "OPT_V4L2_BUFFER \<equiv> 1025"
abbreviation OPT_TUNNEL_HOST :: int where "OPT_TUNNEL_HOST \<equiv> 1026"
abbreviation OPT_TUNNEL_PORT :: int where "OPT_TUNNEL_PORT \<equiv> 1027"
abbreviation OPT_NO_CLIPBOARD_AUTOSYNC :: int where "OPT_NO_CLIPBOARD_AUTOSYNC \<equiv> 1028"
abbreviation OPT_TCPIP :: int where "OPT_TCPIP \<equiv> 1029"
abbreviation OPT_RAW_KEY_EVENTS :: int where "OPT_RAW_KEY_EVENTS \<equiv> 1030"
abbreviation OPT_NO_DOWNSIZE_ON_ERROR :: int where "OPT_NO_DOWNSIZE_ON_ERROR \<equiv> 1031"
abbreviation OPT_OTG :: int where "OPT_OTG \<equiv> 1032"
abbreviation OPT_NO_CLEANUP :: int where "OPT_NO_CLEANUP \<equiv> 1033"
abbreviation OPT_PRINT_FPS :: int where "OPT_PRINT_FPS \<equiv> 1034"
abbreviation OPT_NO_POWER_ON :: int where "OPT_NO_POWER_ON \<equiv> 1035"
abbreviation OPT_VIDEO_CODEC :: int where "OPT_VIDEO_CODEC \<equiv> 1036"
abbreviation OPT_NO_AUDIO :: int where "OPT_NO_AUDIO \<equiv> 1037"
abbreviation OPT_AUDIO_BIT_RATE :: int where "OPT_AUDIO_BIT_RATE \<equiv> 1038"
abbreviation OPT_AUDIO_CODEC :: int where "OPT_AUDIO_CODEC \<equiv> 1039"
abbreviation OPT_AUDIO_CODEC_OPTIONS :: int where "OPT_AUDIO_CODEC_OPTIONS \<equiv> 1040"
abbreviation OPT_AUDIO_ENCODER :: int where "OPT_AUDIO_ENCODER \<equiv> 1041"
abbreviation OPT_LIST_ENCODERS :: int where "OPT_LIST_ENCODERS \<equiv> 1042"
abbreviation OPT_LIST_DISPLAYS :: int where "OPT_LIST_DISPLAYS \<equiv> 1043"
abbreviation OPT_REQUIRE_AUDIO :: int where "OPT_REQUIRE_AUDIO \<equiv> 1044"
abbreviation OPT_AUDIO_BUFFER :: int where "OPT_AUDIO_BUFFER \<equiv> 1045"
abbreviation OPT_AUDIO_OUTPUT_BUFFER :: int where "OPT_AUDIO_OUTPUT_BUFFER \<equiv> 1046"
abbreviation OPT_NO_VIDEO :: int where "OPT_NO_VIDEO \<equiv> 1047"
abbreviation OPT_NO_AUDIO_PLAYBACK :: int where "OPT_NO_AUDIO_PLAYBACK \<equiv> 1048"
abbreviation OPT_NO_VIDEO_PLAYBACK :: int where "OPT_NO_VIDEO_PLAYBACK \<equiv> 1049"
abbreviation OPT_VIDEO_SOURCE :: int where "OPT_VIDEO_SOURCE \<equiv> 1050"
abbreviation OPT_AUDIO_SOURCE :: int where "OPT_AUDIO_SOURCE \<equiv> 1051"
abbreviation OPT_KILL_ADB_ON_CLOSE :: int where "OPT_KILL_ADB_ON_CLOSE \<equiv> 1052"
abbreviation OPT_TIME_LIMIT :: int where "OPT_TIME_LIMIT \<equiv> 1053"
abbreviation OPT_PAUSE_ON_EXIT :: int where "OPT_PAUSE_ON_EXIT \<equiv> 1054"
abbreviation OPT_LIST_CAMERAS :: int where "OPT_LIST_CAMERAS \<equiv> 1055"
abbreviation OPT_LIST_CAMERA_SIZES :: int where "OPT_LIST_CAMERA_SIZES \<equiv> 1056"
abbreviation OPT_CAMERA_ID :: int where "OPT_CAMERA_ID \<equiv> 1057"
abbreviation OPT_CAMERA_SIZE :: int where "OPT_CAMERA_SIZE \<equiv> 1058"
abbreviation OPT_CAMERA_FACING :: int where "OPT_CAMERA_FACING \<equiv> 1059"
abbreviation OPT_CAMERA_AR :: int where "OPT_CAMERA_AR \<equiv> 1060"
abbreviation OPT_CAMERA_FPS :: int where "OPT_CAMERA_FPS \<equiv> 1061"
abbreviation OPT_CAMERA_HIGH_SPEED :: int where "OPT_CAMERA_HIGH_SPEED \<equiv> 1062"
abbreviation OPT_DISPLAY_ORIENTATION :: int where "OPT_DISPLAY_ORIENTATION \<equiv> 1063"
abbreviation OPT_RECORD_ORIENTATION :: int where "OPT_RECORD_ORIENTATION \<equiv> 1064"
abbreviation OPT_ORIENTATION :: int where "OPT_ORIENTATION \<equiv> 1065"
abbreviation OPT_KEYBOARD :: int where "OPT_KEYBOARD \<equiv> 1066"
abbreviation OPT_MOUSE :: int where "OPT_MOUSE \<equiv> 1067"
abbreviation OPT_NO_WINDOW :: int where "OPT_NO_WINDOW \<equiv> 1068"
abbreviation OPT_MOUSE_BIND :: int where "OPT_MOUSE_BIND \<equiv> 1069"
abbreviation OPT_NO_MOUSE_HOVER :: int where "OPT_NO_MOUSE_HOVER \<equiv> 1070"
abbreviation OPT_AUDIO_DUP :: int where "OPT_AUDIO_DUP \<equiv> 1071"
abbreviation OPT_GAMEPAD :: int where "OPT_GAMEPAD \<equiv> 1072"
abbreviation OPT_NEW_DISPLAY :: int where "OPT_NEW_DISPLAY \<equiv> 1073"
abbreviation OPT_LIST_APPS :: int where "OPT_LIST_APPS \<equiv> 1074"
abbreviation OPT_START_APP :: int where "OPT_START_APP \<equiv> 1075"
abbreviation OPT_SCREEN_OFF_TIMEOUT :: int where "OPT_SCREEN_OFF_TIMEOUT \<equiv> 1076"
abbreviation OPT_CAPTURE_ORIENTATION :: int where "OPT_CAPTURE_ORIENTATION \<equiv> 1077"
abbreviation OPT_ANGLE :: int where "OPT_ANGLE \<equiv> 1078"
abbreviation OPT_NO_VD_SYSTEM_DECORATIONS :: int where "OPT_NO_VD_SYSTEM_DECORATIONS \<equiv> 1079"
abbreviation OPT_NO_VD_DESTROY_CONTENT :: int where "OPT_NO_VD_DESTROY_CONTENT \<equiv> 1080"
abbreviation OPT_DISPLAY_IME_POLICY :: int where "OPT_DISPLAY_IME_POLICY \<equiv> 1081"
abbreviation OPT_CAMERA_TORCH :: int where "OPT_CAMERA_TORCH \<equiv> 1082"
abbreviation OPT_CAMERA_ZOOM :: int where "OPT_CAMERA_ZOOM \<equiv> 1083"
abbreviation OPT_MIN_SIZE_ALIGNMENT :: int where "OPT_MIN_SIZE_ALIGNMENT \<equiv> 1084"
abbreviation OPT_NO_WINDOW_ASPECT_RATIO_LOCK :: int where "OPT_NO_WINDOW_ASPECT_RATIO_LOCK \<equiv> 1085"
abbreviation OPT_KEEP_ACTIVE :: int where "OPT_KEEP_ACTIVE \<equiv> 1086"
abbreviation OPT_BACKGROUND_COLOR :: int where "OPT_BACKGROUND_COLOR \<equiv> 1087"
abbreviation OPT_RENDER_FIT :: int where "OPT_RENDER_FIT \<equiv> 1088"
abbreviation OPT_IGNORE_VIDEO_ENCODER_CONSTRAINTS :: int where "OPT_IGNORE_VIDEO_ENCODER_CONSTRAINTS \<equiv> 1089"
abbreviation OPT_NO_TERMINAL_TITLE :: int where "OPT_NO_TERMINAL_TITLE \<equiv> 1090"

abbreviation SHORT_b :: int where "SHORT_b \<equiv> 98"
abbreviation SHORT_d :: int where "SHORT_d \<equiv> 100"
abbreviation SHORT_e :: int where "SHORT_e \<equiv> 101"
abbreviation SHORT_f :: int where "SHORT_f \<equiv> 102"
abbreviation SHORT_G :: int where "SHORT_G \<equiv> 71"
abbreviation SHORT_h :: int where "SHORT_h \<equiv> 104"
abbreviation SHORT_K :: int where "SHORT_K \<equiv> 75"
abbreviation SHORT_m :: int where "SHORT_m \<equiv> 109"
abbreviation SHORT_M :: int where "SHORT_M \<equiv> 77"
abbreviation SHORT_n :: int where "SHORT_n \<equiv> 110"
abbreviation SHORT_N :: int where "SHORT_N \<equiv> 78"
abbreviation SHORT_p :: int where "SHORT_p \<equiv> 112"
abbreviation SHORT_r :: int where "SHORT_r \<equiv> 114"
abbreviation SHORT_s :: int where "SHORT_s \<equiv> 115"
abbreviation SHORT_S :: int where "SHORT_S \<equiv> 83"
abbreviation SHORT_t :: int where "SHORT_t \<equiv> 116"
abbreviation SHORT_v :: int where "SHORT_v \<equiv> 118"
abbreviation SHORT_V :: int where "SHORT_V \<equiv> 86"
abbreviation SHORT_w :: int where "SHORT_w \<equiv> 119"
abbreviation SHORT_x :: int where "SHORT_x \<equiv> 120"

text \<open>Of the description of an argument only its presence is kept.\<close>

record sc_option =
  opt_shortopt :: int
  opt_longopt_id :: int
  opt_longopt :: "string option"
  opt_argdesc :: bool
  opt_optional_arg :: bool

abbreviation flag_option :: "int \<Rightarrow> string \<Rightarrow> sc_option" where
  "flag_option i name \<equiv>
     \<lparr>opt_shortopt = 0, opt_longopt_id = i, opt_longopt = Some name, opt_argdesc = False, opt_optional_arg = False\<rparr>"

abbreviation arg_option :: "int \<Rightarrow> string \<Rightarrow> sc_option" where
  "arg_option i name \<equiv>
     \<lparr>opt_shortopt = 0, opt_longopt_id = i, opt_longopt = Some name, opt_argdesc = True, opt_optional_arg = False\<rparr>"

abbreviation optarg_option :: "int \<Rightarrow> string \<Rightarrow> sc_option" where
  "optarg_option i name \<equiv>
     \<lparr>opt_shortopt = 0, opt_longopt_id = i, opt_longopt = Some name, opt_argdesc = True, opt_optional_arg = True\<rparr>"

abbreviation short_option :: "int \<Rightarrow> string option \<Rightarrow> bool \<Rightarrow> sc_option" where
  "short_option c name argdesc \<equiv>
     \<lparr>opt_shortopt = c, opt_longopt_id = 0, opt_longopt = name, opt_argdesc = argdesc, opt_optional_arg = False\<rparr>"

definition options :: "sc_option list" where
  "options =
     [flag_option OPT_ALWAYS_ON_TOP ''always-on-top'',
      arg_option OPT_ANGLE ''angle'',
      arg_option OPT_AUDIO_BIT_RATE ''audio-bit-rate'',
      arg_option OPT_AUDIO_BUFFER ''audio-buffer'',
      arg_option OPT_AUDIO_CODEC ''audio-codec'',
      arg_option OPT_AUDIO_CODEC_OPTIONS ''audio-codec-options'',
      flag_option OPT_AUDIO_DUP ''audio-dup'',
      arg_option OPT_AUDIO_ENCODER ''audio-encoder'',
      arg_option OPT_AUDIO_SOURCE ''audio-source'',
      arg_option OPT_AUDIO_OUTPUT_BUFFER ''audio-output-buffer'',
      short_option SHORT_b (Some ''video-bit-rate'') True,
      arg_option OPT_BACKGROUND_COLOR ''background-color'',
      arg_option OPT_CAMERA_AR ''camera-ar'',
      arg_option OPT_CAMERA_FACING ''camera-facing'',
      arg_option OPT_CAMERA_FPS ''camera-fps'',
      flag_option OPT_CAMERA_HIGH_SPEED ''camera-high-speed'',
      arg_option OPT_CAMERA_ID ''camera-id'',
      arg_option OPT_CAMERA_SIZE ''camera-size'',
      flag_option OPT_CAMERA_TORCH ''camera-torch'',
      arg_option OPT_CAMERA_ZOOM ''camera-zoom'',
      arg_option OPT_CAPTURE_ORIENTATION ''capture-orientation'',
      arg_option OPT_CROP ''crop'',
      short_option SHORT_d (Some ''select-usb'') False,
      flag_option OPT_DISABLE_SCREENSAVER ''disable-screensaver'',
      arg_option OPT_DISPLAY_ID ''display-id'',
      arg_option OPT_DISPLAY_IME_POLICY ''display-ime-policy'',
      arg_option OPT_DISPLAY_ORIENTATION ''display-orientation'',
      short_option SHORT_e (Some ''select-tcpip'') False,
      short_option SHORT_f (Some ''fullscreen'') False,
      flag_option OPT_FORCE_ADB_FORWARD ''force-adb-forward'',
      short_option SHORT_G None False,
      arg_option OPT_GAMEPAD ''gamepad'',
      short_option SHORT_h (Some ''help'') False,
      flag_option OPT_IGNORE_VIDEO_ENCODER_CONSTRAINTS ''ignore-video-encoder-constraints'',
      short_option SHORT_K None False,
      flag_option OPT_KEEP_ACTIVE ''keep-active'',
      arg_option OPT_KEYBOARD ''keyboard'',
      flag_option OPT_KILL_ADB_ON_CLOSE ''kill-adb-on-close'',
      flag_option OPT_LEGACY_PASTE ''legacy-paste'',
      flag_option OPT_LIST_APPS ''list-apps'',
      flag_option OPT_LIST_CAMERAS ''list-cameras'',
      flag_option OPT_LIST_CAMERA_SIZES ''list-camera-sizes'',
      flag_option OPT_LIST_DISPLAYS ''list-displays'',
      flag_option OPT_LIST_ENCODERS ''list-encoders'',
      short_option SHORT_m (Some ''max-size'') True,
      short_option SHORT_M None False,
      arg_option OPT_MAX_FPS ''max-fps'',
      arg_option OPT_MIN_SIZE_ALIGNMENT ''min-size-alignment'',
      arg_option OPT_MOUSE ''mouse'',
      arg_option OPT_MOUSE_BIND ''mouse-bind'',
      short_option SHORT_n (Some ''no-control'') False,
      short_option SHORT_N (Some ''no-playback'') False,
      optarg_option OPT_NEW_DISPLAY ''new-display'',
      flag_option OPT_NO_AUDIO ''no-audio'',
      flag_option OPT_NO_AUDIO_PLAYBACK ''no-audio-playback'',
      flag_option OPT_NO_CLEANUP ''no-cleanup'',
      flag_option OPT_NO_CLIPBOARD_AUTOSYNC ''no-clipboard-autosync'',
      flag_option OPT_NO_DOWNSIZE_ON_ERROR ''no-downsize-on-error'',
      flag_option OPT_NO_KEY_REPEAT ''no-key-repeat'',
      flag_option OPT_NO_MIPMAPS ''no-mipmaps'',
      flag_option OPT_NO_MOUSE_HOVER ''no-mouse-hover'',
      flag_option OPT_NO_POWER_ON ''no-power-on'',
      flag_option OPT_NO_TERMINAL_TITLE ''no-terminal-title'',
      flag_option OPT_NO_VD_DESTROY_CONTENT ''no-vd-destroy-content'',
      flag_option OPT_NO_VD_SYSTEM_DECORATIONS ''no-vd-system-decorations'',
      flag_option OPT_NO_VIDEO ''no-video'',
      flag_option OPT_NO_VIDEO_PLAYBACK ''no-video-playback'',
      flag_option OPT_NO_WINDOW ''no-window'',
      flag_option OPT_NO_WINDOW_ASPECT_RATIO_LOCK ''no-window-aspect-ratio-lock'',
      arg_option OPT_ORIENTATION ''orientation'',
      flag_option OPT_OTG ''otg'',
      short_option SHORT_p (Some ''port'') True,
      optarg_option OPT_PAUSE_ON_EXIT ''pause-on-exit'',
      flag_option OPT_POWER_OFF_ON_CLOSE ''power-off-on-close'',
      flag_option OPT_PREFER_TEXT ''prefer-text'',
      flag_option OPT_PRINT_FPS ''print-fps'',
      arg_option OPT_PUSH_TARGET ''push-target'',
      short_option SHORT_r (Some ''record'') True,
      flag_option OPT_RAW_KEY_EVENTS ''raw-key-events'',
      arg_option OPT_RECORD_FORMAT ''record-format'',
      arg_option OPT_RECORD_ORIENTATION ''record-orientation'',
      arg_option OPT_RENDER_DRIVER ''render-driver'',
      arg_option OPT_RENDER_FIT ''render-fit'',
      flag_option OPT_REQUIRE_AUDIO ''require-audio'',
      short_option SHORT_s (Some ''serial'') True,
      short_option SHORT_S (Some ''turn-screen-off'') False,
      arg_option OPT_SCREEN_OFF_TIMEOUT ''screen-off-timeout'',
      arg_option OPT_SHORTCUT_MOD ''shortcut-mod'',
      arg_option OPT_START_APP ''start-app'',
      short_option SHORT_t (Some ''show-touches'') False,
      optarg_option OPT_TCPIP ''tcpip'',
      arg_option OPT_TIME_LIMIT ''time-limit'',
      arg_option OPT_TUNNEL_HOST ''tunnel-host'',
      arg_option OPT_TUNNEL_PORT ''tunnel-port'',
      short_option SHORT_v (Some ''version'') False,
      short_option SHORT_V (Some ''verbosity'') True,
      arg_option OPT_V4L2_SINK ''v4l2-sink'',
      arg_option OPT_V4L2_BUFFER ''v4l2-buffer'',
      arg_option OPT_VIDEO_BUFFER ''video-buffer'',
      arg_option OPT_VIDEO_CODEC ''video-codec'',
      arg_option OPT_VIDEO_CODEC_OPTIONS ''video-codec-options'',
      arg_option OPT_VIDEO_ENCODER ''video-encoder'',
      arg_option OPT_VIDEO_SOURCE ''video-source'',
      short_option SHORT_w (Some ''stay-awake'') False,
      flag_option OPT_WINDOW_BORDERLESS ''window-borderless'',
      arg_option OPT_WINDOW_TITLE ''window-title'',
      arg_option OPT_WINDOW_X ''window-x'',
      arg_option OPT_WINDOW_Y ''window-y'',
      arg_option OPT_WINDOW_WIDTH ''window-width'',
      arg_option OPT_WINDOW_HEIGHT ''window-height'',
      short_option SHORT_x (Some ''flex-display'') False]"

section \<open>The adapter to getopt\<close>

datatype has_arg = No_argument | Required_argument | Optional_argument

fun create_optstring :: "sc_option list \<Rightarrow> int list" where
  "create_optstring [] = []"
| "create_optstring (opt # rest) =
     (if opt_shortopt opt = 0 then []
      else opt_shortopt opt # (if opt_argdesc opt then 58 # (if opt_optional_arg opt then [58] else []) else []))
     @ create_optstring rest"

definition create_longopt :: "sc_option \<Rightarrow> (string \<times> has_arg \<times> int) option option" where
  "create_longopt opt = do {
     c_assert (opt_longopt_id opt \<noteq> 0 \<longrightarrow> opt_longopt opt \<noteq> None);
     case opt_longopt opt of
       None \<Rightarrow> Some None
     | Some name \<Rightarrow> do {
         h \<leftarrow> (if \<not> opt_argdesc opt then do { c_assert (\<not> opt_optional_arg opt); Some No_argument }
              else Some (if opt_optional_arg opt then Optional_argument else Required_argument));
         c_assert ((opt_shortopt opt \<noteq> 0) \<noteq> (opt_longopt_id opt \<noteq> 0));
         Some (Some (name, h, if opt_shortopt opt \<noteq> 0 then opt_shortopt opt else opt_longopt_id opt))
       }
   }"

fun create_longopts :: "sc_option list \<Rightarrow> (string \<times> has_arg \<times> int) list option" where
  "create_longopts [] = Some []"
| "create_longopts (opt # rest) = do {
     r \<leftarrow> create_longopt opt;
     ls \<leftarrow> create_longopts rest;
     Some (case r of None \<Rightarrow> ls | Some l \<Rightarrow> l # ls)
   }"

end
