(* ===== verification/Cli.thy ===== *)
theory Cli
  imports CliTable
begin

text \<open>
  \<^verbatim>\<open>scrcpy_parse_args\<close> of \<^verbatim>\<open>app/src/cli.c\<close>: the switch over the results of \<^verbatim>\<open>getopt_long\<close>, the checks of the options and
  the default values that depend on other options. \<^verbatim>\<open>getopt_long\<close> is a parameter: the list of what it returns. A result
  \<open>None\<close> is an abort, the Boolean the value returned. When an argument is refused the options are left as they were; only
  \<^verbatim>\<open>pause_on_exit\<close> is read then.
\<close>

section \<open>The switch\<close>

record scrcpy_cli_args =
  a_opts :: scrcpy_options
  a_help :: bool
  a_version :: bool
  a_pause_on_exit :: sc_pause_on_exit

text \<open>The build flags and the library.\<close>

record cli_env =
  have_usb :: bool
  have_v4l2 :: bool
  env_win32 :: bool
  env_inet_pton :: "byte_buf \<Rightarrow> u32 option"
  env_double_click :: bool
  env_adapter_ok :: bool

type_synonym cli_handler = "byte_buf option \<Rightarrow> scrcpy_cli_args \<Rightarrow> (bool \<times> scrcpy_cli_args) option"

definition set_args :: "(scrcpy_cli_args \<Rightarrow> scrcpy_cli_args) \<Rightarrow> cli_handler" where
  "set_args f arg a = Some (True, f a)"

definition set_opts :: "(scrcpy_options \<Rightarrow> scrcpy_options) \<Rightarrow> cli_handler" where
  "set_opts f arg a = Some (True, a\<lparr>a_opts := f (a_opts a)\<rparr>)"

definition set_string :: "(byte_buf option \<Rightarrow> scrcpy_options \<Rightarrow> scrcpy_options) \<Rightarrow> cli_handler" where
  "set_string f arg a = Some (True, a\<lparr>a_opts := f arg (a_opts a)\<rparr>)"

text \<open>A parser dereferences \<^verbatim>\<open>optarg\<close>.\<close>

definition set_parsed2 :: "(byte_buf \<Rightarrow> 'a option option) \<Rightarrow> ('a \<Rightarrow> scrcpy_options \<Rightarrow> scrcpy_options) \<Rightarrow> cli_handler" where
  "set_parsed2 parse f arg a = do {
     s \<leftarrow> arg;
     r \<leftarrow> parse s;
     Some (case r of None \<Rightarrow> (False, a) | Some v \<Rightarrow> (True, a\<lparr>a_opts := f v (a_opts a)\<rparr>))
   }"

definition set_parsed :: "(byte_buf \<Rightarrow> 'a option) \<Rightarrow> ('a \<Rightarrow> scrcpy_options \<Rightarrow> scrcpy_options) \<Rightarrow> cli_handler" where
  "set_parsed parse = set_parsed2 (\<lambda>s. Some (parse s))"

definition if_built :: "bool \<Rightarrow> cli_handler \<Rightarrow> cli_handler" where
  "if_built b h arg a = (if b then h arg a else Some (False, a))"

definition set_key_inject_mode :: "sc_key_inject_mode \<Rightarrow> cli_handler" where
  "set_key_inject_mode mode arg a =
     (if o_key_inject_mode (a_opts a) \<noteq> SC_KEY_INJECT_MODE_MIXED then Some (False, a)
      else Some (True, a\<lparr>a_opts := (a_opts a)\<lparr>o_key_inject_mode := mode\<rparr>\<rparr>))"

definition set_pause_on_exit :: cli_handler where
  "set_pause_on_exit arg a =
     Some (case parse_pause_on_exit arg of None \<Rightarrow> (False, a) | Some p \<Rightarrow> (True, a\<lparr>a_pause_on_exit := p\<rparr>))"

definition SC_OPTION_LIST_ENCODERS :: u8 where "SC_OPTION_LIST_ENCODERS = 0x1"
definition SC_OPTION_LIST_DISPLAYS :: u8 where "SC_OPTION_LIST_DISPLAYS = 0x2"
definition SC_OPTION_LIST_CAMERAS :: u8 where "SC_OPTION_LIST_CAMERAS = 0x4"
definition SC_OPTION_LIST_CAMERA_SIZES :: u8 where "SC_OPTION_LIST_CAMERA_SIZES = 0x8"
definition SC_OPTION_LIST_APPS :: u8 where "SC_OPTION_LIST_APPS = 0x10"

text \<open>The cases, in the order of the code.\<close>

definition switch_cases_1 :: "cli_env \<Rightarrow> (int \<times> cli_handler) list" where
  "switch_cases_1 env =
     [(SHORT_b, set_parsed parse_bit_rate (\<lambda>v opts. opts\<lparr>o_video_bit_rate := v\<rparr>)),
      (OPT_AUDIO_BIT_RATE, set_parsed parse_bit_rate (\<lambda>v opts. opts\<lparr>o_audio_bit_rate := v\<rparr>)),
      (OPT_CROP, set_string (\<lambda>s opts. opts\<lparr>o_crop := s\<rparr>)),
      (OPT_DISPLAY_ID, set_parsed parse_display_id (\<lambda>v opts. opts\<lparr>o_display_id := v\<rparr>)),
      (SHORT_d, set_opts (\<lambda>opts. opts\<lparr>o_select_usb := True\<rparr>)),
      (SHORT_e, set_opts (\<lambda>opts. opts\<lparr>o_select_tcpip := True\<rparr>)),
      (SHORT_f, set_opts (\<lambda>opts. opts\<lparr>o_fullscreen := True\<rparr>)),
      (OPT_RECORD_FORMAT, set_parsed parse_record_format (\<lambda>v opts. opts\<lparr>o_record_format := v\<rparr>)),
      (SHORT_h, set_args (\<lambda>a. a\<lparr>a_help := True\<rparr>)),
      (SHORT_K, set_opts (\<lambda>opts. opts\<lparr>o_keyboard_input_mode := SC_KEYBOARD_INPUT_MODE_UHID_OR_AOA\<rparr>)),
      (OPT_KEYBOARD, set_parsed (parse_keyboard (have_usb env)) (\<lambda>v opts. opts\<lparr>o_keyboard_input_mode := v\<rparr>)),
      (OPT_MAX_FPS, set_string (\<lambda>s opts. opts\<lparr>o_max_fps := s\<rparr>)),
      (SHORT_m, set_parsed parse_max_size (\<lambda>v opts. opts\<lparr>o_max_size := v\<rparr>)),
      (SHORT_M, set_opts (\<lambda>opts. opts\<lparr>o_mouse_input_mode := SC_MOUSE_INPUT_MODE_UHID_OR_AOA\<rparr>)),
      (OPT_MOUSE, set_parsed (parse_mouse (have_usb env)) (\<lambda>v opts. opts\<lparr>o_mouse_input_mode := v\<rparr>)),
      (OPT_MOUSE_BIND, set_parsed2 parse_mouse_bindings (\<lambda>v opts. opts\<lparr>o_mouse_bindings := v\<rparr>)),
      (OPT_NO_MOUSE_HOVER, set_opts (\<lambda>opts. opts\<lparr>o_mouse_hover := False\<rparr>)),
      (OPT_CAPTURE_ORIENTATION, set_parsed parse_capture_orientation 
        (\<lambda>(v, l) opts. opts\<lparr>o_capture_orientation := (case v of None \<Rightarrow> o_capture_orientation opts | Some v \<Rightarrow> v),
           o_capture_orientation_lock := l\<rparr>)),
      (OPT_TUNNEL_HOST, set_parsed (parse_ip (env_inet_pton env)) (\<lambda>v opts. opts\<lparr>o_tunnel_host := v\<rparr>)),
      (OPT_TUNNEL_PORT, set_parsed parse_port (\<lambda>v opts. opts\<lparr>o_tunnel_port := v\<rparr>)),
      (SHORT_n, set_opts (\<lambda>opts. opts\<lparr>o_control := False\<rparr>)),
      (SHORT_N, set_opts (\<lambda>opts. opts\<lparr>o_video_playback := False, o_audio_playback := False\<rparr>)),
      (OPT_NO_VIDEO_PLAYBACK, set_opts (\<lambda>opts. opts\<lparr>o_video_playback := False\<rparr>)),
      (OPT_NO_AUDIO_PLAYBACK, set_opts (\<lambda>opts. opts\<lparr>o_audio_playback := False\<rparr>)),
      (SHORT_p, set_parsed2 parse_port_range (\<lambda>v opts. opts\<lparr>o_port_range := v\<rparr>)),
      (SHORT_r, set_string (\<lambda>s opts. opts\<lparr>o_record_filename := s\<rparr>)),
      (SHORT_s, set_string (\<lambda>s opts. opts\<lparr>o_serial := s\<rparr>)),
      (SHORT_S, set_opts (\<lambda>opts. opts\<lparr>o_turn_screen_off := True\<rparr>)),
      (SHORT_t, set_opts (\<lambda>opts. opts\<lparr>o_show_touches := True\<rparr>))]"

definition switch_cases_2 :: "cli_env \<Rightarrow> (int \<times> cli_handler) list" where
  "switch_cases_2 env =
     [(OPT_ALWAYS_ON_TOP, set_opts (\<lambda>opts. opts\<lparr>o_always_on_top := True\<rparr>)),
      (SHORT_v, set_args (\<lambda>a. a\<lparr>a_version := True\<rparr>)),
      (SHORT_V, set_parsed parse_log_level (\<lambda>v opts. opts\<lparr>o_log_level := v\<rparr>)),
      (SHORT_w, set_opts (\<lambda>opts. opts\<lparr>o_stay_awake := True\<rparr>)),
      (OPT_WINDOW_TITLE, set_string (\<lambda>s opts. opts\<lparr>o_window_title := s\<rparr>)),
      (OPT_WINDOW_X, set_parsed parse_window_position (\<lambda>v opts. opts\<lparr>o_window_x := v\<rparr>)),
      (OPT_WINDOW_Y, set_parsed parse_window_position (\<lambda>v opts. opts\<lparr>o_window_y := v\<rparr>)),
      (OPT_WINDOW_WIDTH, set_parsed parse_window_dimension (\<lambda>v opts. opts\<lparr>o_window_width := v\<rparr>)),
      (OPT_WINDOW_HEIGHT, set_parsed parse_window_dimension (\<lambda>v opts. opts\<lparr>o_window_height := v\<rparr>)),
      (OPT_WINDOW_BORDERLESS, set_opts (\<lambda>opts. opts\<lparr>o_window_borderless := True\<rparr>)),
      (OPT_PUSH_TARGET, set_string (\<lambda>s opts. opts\<lparr>o_push_target := s\<rparr>)),
      (OPT_PREFER_TEXT, set_key_inject_mode SC_KEY_INJECT_MODE_TEXT),
      (OPT_RAW_KEY_EVENTS, set_key_inject_mode SC_KEY_INJECT_MODE_RAW),
      (OPT_DISPLAY_ORIENTATION, set_parsed parse_orientation (\<lambda>v opts. opts\<lparr>o_display_orientation := v\<rparr>)),
      (OPT_RECORD_ORIENTATION, set_parsed parse_orientation (\<lambda>v opts. opts\<lparr>o_record_orientation := v\<rparr>)),
      (OPT_ORIENTATION, set_parsed parse_orientation (\<lambda>v opts. opts\<lparr>o_display_orientation := v, o_record_orientation := v\<rparr>)),
      (OPT_RENDER_DRIVER, set_string (\<lambda>s opts. opts\<lparr>o_render_driver := s\<rparr>)),
      (OPT_NO_MIPMAPS, set_opts (\<lambda>opts. opts\<lparr>o_mipmaps := False\<rparr>)),
      (OPT_NO_KEY_REPEAT, set_opts (\<lambda>opts. opts\<lparr>o_forward_key_repeat := False\<rparr>)),
      (OPT_VIDEO_CODEC_OPTIONS, set_string (\<lambda>s opts. opts\<lparr>o_video_codec_options := s\<rparr>)),
      (OPT_AUDIO_CODEC_OPTIONS, set_string (\<lambda>s opts. opts\<lparr>o_audio_codec_options := s\<rparr>)),
      (OPT_VIDEO_ENCODER, set_string (\<lambda>s opts. opts\<lparr>o_video_encoder := s\<rparr>)),
      (OPT_AUDIO_ENCODER, set_string (\<lambda>s opts. opts\<lparr>o_audio_encoder := s\<rparr>)),
      (OPT_FORCE_ADB_FORWARD, set_opts (\<lambda>opts. opts\<lparr>o_force_adb_forward := True\<rparr>)),
      (OPT_DISABLE_SCREENSAVER, set_opts (\<lambda>opts. opts\<lparr>o_disable_screensaver := True\<rparr>)),
      (OPT_SHORTCUT_MOD, set_parsed2 parse_shortcut_mods (\<lambda>v opts. opts\<lparr>o_shortcut_mods := v\<rparr>)),
      (OPT_LEGACY_PASTE, set_opts (\<lambda>opts. opts\<lparr>o_legacy_paste := True\<rparr>))]"

definition switch_cases_3 :: "cli_env \<Rightarrow> (int \<times> cli_handler) list" where
  "switch_cases_3 env =
     [(OPT_POWER_OFF_ON_CLOSE, set_opts (\<lambda>opts. opts\<lparr>o_power_off_on_close := True\<rparr>)),
      (OPT_VIDEO_BUFFER, set_parsed parse_buffering_time (\<lambda>v opts. opts\<lparr>o_video_buffer := v\<rparr>)),
      (OPT_NO_CLIPBOARD_AUTOSYNC, set_opts (\<lambda>opts. opts\<lparr>o_clipboard_autosync := False\<rparr>)),
      (OPT_TCPIP, set_string (\<lambda>s opts. opts\<lparr>o_tcpip := True, o_tcpip_dst := s\<rparr>)),
      (OPT_NO_DOWNSIZE_ON_ERROR, set_opts (\<lambda>opts. opts\<lparr>o_downsize_on_error := False\<rparr>)),
      (OPT_NO_VIDEO, set_opts (\<lambda>opts. opts\<lparr>o_video := False\<rparr>)),
      (OPT_NO_AUDIO, set_opts (\<lambda>opts. opts\<lparr>o_audio := False\<rparr>)),
      (OPT_NO_CLEANUP, set_opts (\<lambda>opts. opts\<lparr>o_cleanup := False\<rparr>)),
      (OPT_NO_POWER_ON, set_opts (\<lambda>opts. opts\<lparr>o_power_on := False\<rparr>)),
      (OPT_PRINT_FPS, set_opts (\<lambda>opts. opts\<lparr>o_start_fps_counter := True\<rparr>)),
      (OPT_VIDEO_CODEC, set_parsed parse_video_codec (\<lambda>v opts. opts\<lparr>o_video_codec := v\<rparr>)),
      (OPT_AUDIO_CODEC, set_parsed parse_audio_codec (\<lambda>v opts. opts\<lparr>o_audio_codec := v\<rparr>)),
      (OPT_OTG, if_built (have_usb env) (set_opts (\<lambda>opts. opts\<lparr>o_otg := True\<rparr>))),
      (OPT_V4L2_SINK, if_built (have_v4l2 env) (set_string (\<lambda>s opts. opts\<lparr>o_v4l2_device := s\<rparr>))),
      (OPT_V4L2_BUFFER, if_built (have_v4l2 env) (set_parsed parse_buffering_time (\<lambda>v opts. opts\<lparr>o_v4l2_buffer := v\<rparr>))),
      (OPT_LIST_ENCODERS, set_opts (\<lambda>opts. opts\<lparr>o_list := o_list opts OR SC_OPTION_LIST_ENCODERS\<rparr>)),
      (OPT_LIST_DISPLAYS, set_opts (\<lambda>opts. opts\<lparr>o_list := o_list opts OR SC_OPTION_LIST_DISPLAYS\<rparr>)),
      (OPT_LIST_CAMERAS, set_opts (\<lambda>opts. opts\<lparr>o_list := o_list opts OR SC_OPTION_LIST_CAMERAS\<rparr>)),
      (OPT_LIST_CAMERA_SIZES, set_opts (\<lambda>opts. opts\<lparr>o_list := o_list opts OR SC_OPTION_LIST_CAMERA_SIZES\<rparr>)),
      (OPT_LIST_APPS, set_opts (\<lambda>opts. opts\<lparr>o_list := o_list opts OR SC_OPTION_LIST_APPS\<rparr>)),
      (OPT_REQUIRE_AUDIO, set_opts (\<lambda>opts. opts\<lparr>o_require_audio := True\<rparr>)),
      (OPT_AUDIO_BUFFER, set_parsed parse_buffering_time (\<lambda>v opts. opts\<lparr>o_audio_buffer := v\<rparr>)),
      (OPT_AUDIO_OUTPUT_BUFFER, set_parsed parse_audio_output_buffer (\<lambda>v opts. opts\<lparr>o_audio_output_buffer := v\<rparr>)),
      (OPT_VIDEO_SOURCE, set_parsed parse_video_source (\<lambda>v opts. opts\<lparr>o_video_source := v\<rparr>)),
      (OPT_AUDIO_SOURCE, set_parsed parse_audio_source (\<lambda>v opts. opts\<lparr>o_audio_source := v\<rparr>)),
      (OPT_KILL_ADB_ON_CLOSE, set_opts (\<lambda>opts. opts\<lparr>o_kill_adb_on_close := True\<rparr>))]"

definition switch_cases_4 :: "cli_env \<Rightarrow> (int \<times> cli_handler) list" where
  "switch_cases_4 env =
     [(OPT_TIME_LIMIT, set_parsed parse_time_limit (\<lambda>v opts. opts\<lparr>o_time_limit := v\<rparr>)),
      (OPT_PAUSE_ON_EXIT, set_pause_on_exit),
      (OPT_CAMERA_AR, set_string (\<lambda>s opts. opts\<lparr>o_camera_ar := s\<rparr>)),
      (OPT_CAMERA_ID, set_string (\<lambda>s opts. opts\<lparr>o_camera_id := s\<rparr>)),
      (OPT_CAMERA_SIZE, set_string (\<lambda>s opts. opts\<lparr>o_camera_size := s\<rparr>)),
      (OPT_CAMERA_FACING, set_parsed parse_camera_facing (\<lambda>v opts. opts\<lparr>o_camera_facing := v\<rparr>)),
      (OPT_CAMERA_FPS, set_parsed parse_camera_fps (\<lambda>v opts. opts\<lparr>o_camera_fps := v\<rparr>)),
      (OPT_CAMERA_HIGH_SPEED, set_opts (\<lambda>opts. opts\<lparr>o_camera_high_speed := True\<rparr>)),
      (OPT_CAMERA_TORCH, set_opts (\<lambda>opts. opts\<lparr>o_camera_torch := True\<rparr>)),
      (OPT_CAMERA_ZOOM, set_string (\<lambda>s opts. opts\<lparr>o_camera_zoom := s\<rparr>)),
      (OPT_NO_WINDOW, set_opts (\<lambda>opts. opts\<lparr>o_window := False\<rparr>)),
      (OPT_AUDIO_DUP, set_opts (\<lambda>opts. opts\<lparr>o_audio_dup := True\<rparr>)),
      (SHORT_G, set_opts (\<lambda>opts. opts\<lparr>o_gamepad_input_mode := SC_GAMEPAD_INPUT_MODE_UHID_OR_AOA\<rparr>)),
      (OPT_GAMEPAD, set_parsed (parse_gamepad (have_usb env)) (\<lambda>v opts. opts\<lparr>o_gamepad_input_mode := v\<rparr>)),
      (OPT_NEW_DISPLAY, set_string (\<lambda>s opts. opts\<lparr>o_new_display := (case s of None \<Rightarrow> Some [] | Some d \<Rightarrow> Some d)\<rparr>)),
      (OPT_START_APP, set_string (\<lambda>s opts. opts\<lparr>o_start_app := s\<rparr>)),
      (OPT_SCREEN_OFF_TIMEOUT, set_parsed parse_screen_off_timeout (\<lambda>v opts. opts\<lparr>o_screen_off_timeout := v\<rparr>)),
      (OPT_ANGLE, set_string (\<lambda>s opts. opts\<lparr>o_angle := s\<rparr>)),
      (OPT_NO_VD_DESTROY_CONTENT, set_opts (\<lambda>opts. opts\<lparr>o_vd_destroy_content := False\<rparr>)),
      (OPT_NO_VD_SYSTEM_DECORATIONS, set_opts (\<lambda>opts. opts\<lparr>o_vd_system_decorations := False\<rparr>)),
      (OPT_DISPLAY_IME_POLICY, set_parsed parse_display_ime_policy (\<lambda>v opts. opts\<lparr>o_display_ime_policy := v\<rparr>)),
      (OPT_MIN_SIZE_ALIGNMENT, set_parsed parse_min_size_alignment (\<lambda>v opts. opts\<lparr>o_min_size_alignment := v\<rparr>)),
      (OPT_NO_WINDOW_ASPECT_RATIO_LOCK, set_opts (\<lambda>opts. opts\<lparr>o_window_aspect_ratio_lock := False\<rparr>)),
      (OPT_KEEP_ACTIVE, set_opts (\<lambda>opts. opts\<lparr>o_keep_active := True\<rparr>)),
      (OPT_BACKGROUND_COLOR, set_parsed parse_hex_color (\<lambda>v opts. opts\<lparr>o_background_color := v\<rparr>)),
      (OPT_RENDER_FIT, set_parsed parse_render_fit (\<lambda>v opts. opts\<lparr>o_render_fit := v\<rparr>)),
      (SHORT_x, set_opts (\<lambda>opts. opts\<lparr>o_flex_display := True\<rparr>)),
      (OPT_IGNORE_VIDEO_ENCODER_CONSTRAINTS, set_opts (\<lambda>opts. opts\<lparr>o_ignore_video_encoder_constraints := True\<rparr>)),
      (OPT_NO_TERMINAL_TITLE, set_opts (\<lambda>opts. opts\<lparr>o_update_terminal_title := False\<rparr>))]"

definition switch_cases :: "cli_env \<Rightarrow> (int \<times> cli_handler) list" where
  "switch_cases env = switch_cases_1 env @ switch_cases_2 env @ switch_cases_3 env @ switch_cases_4 env"

fun getopt_loop :: "cli_env \<Rightarrow> (int \<times> byte_buf option) list \<Rightarrow> scrcpy_cli_args \<Rightarrow> (bool \<times> scrcpy_cli_args) option" where
  "getopt_loop env [] a = Some (True, a)"
| "getopt_loop env ((c, optarg) # rest) a =
     (case map_of (switch_cases env) c of
        None \<Rightarrow> Some (False, a)
      | Some handler \<Rightarrow> do {
          (ok, a) \<leftarrow> handler optarg a;
          if ok then getopt_loop env rest a else Some (False, a)
        })"

section \<open>The checks\<close>

text \<open>A check returns the options it leaves, or \<open>Some None\<close> if it refuses them.\<close>

type_synonym cli_check = "scrcpy_options \<Rightarrow> scrcpy_options option option"

definition refuse_if :: "bool \<Rightarrow> scrcpy_options \<Rightarrow> scrcpy_options option option" where
  "refuse_if b opts = Some (if b then None else Some opts)"

definition check_selectors :: cli_check where
  "check_selectors opts = do {
     c_assert (o_tcpip opts \<or> o_tcpip_dst opts = None);
     let selectors = (if o_serial opts \<noteq> None then 1 else 0) + (if o_tcpip_dst opts \<noteq> None then 1 else 0)
       + (if o_select_tcpip opts then 1 else 0) + (if o_select_usb opts then 1 else (0 :: nat));
     refuse_if (selectors > 1) opts
   }"

definition cli_otg :: "cli_env \<Rightarrow> scrcpy_options \<Rightarrow> bool" where
  "cli_otg env opts \<longleftrightarrow> have_usb env \<and> o_otg opts"

definition cli_v4l2 :: "cli_env \<Rightarrow> scrcpy_options \<Rightarrow> bool" where
  "cli_v4l2 env opts \<longleftrightarrow> have_v4l2 env \<and> o_v4l2_device opts \<noteq> None"

definition disable_playback :: "scrcpy_options \<Rightarrow> scrcpy_options" where
  "disable_playback opts =
     (let opts = (if \<not> o_window opts then opts\<lparr>o_video_playback := False\<rparr> else opts);
          opts = (if \<not> o_video opts then opts\<lparr>o_video_playback := False, o_power_on := False\<rparr> else opts)
      in if \<not> o_audio opts then opts\<lparr>o_audio_playback := False\<rparr> else opts)"

definition disable_streams :: "cli_env \<Rightarrow> scrcpy_options \<Rightarrow> scrcpy_options" where
  "disable_streams env opts =
     (let opts = (if o_video opts \<and> \<not> o_video_playback opts \<and> o_record_filename opts = None \<and> \<not> cli_v4l2 env opts
                  then opts\<lparr>o_video := False\<rparr> else opts)
      in if o_audio opts \<and> \<not> o_audio_playback opts \<and> o_record_filename opts = None
         then opts\<lparr>o_audio := False\<rparr> else opts)"

definition check_streams :: "cli_env \<Rightarrow> cli_check" where
  "check_streams env opts =
     (let opts = disable_streams env (disable_playback opts) in
      if \<not> o_video opts \<and> \<not> o_audio opts \<and> \<not> o_control opts \<and> \<not> cli_otg env opts then Some None
      else Some (Some (if \<not> o_video opts \<and> \<not> cli_otg env opts then opts\<lparr>o_require_audio := True\<rparr> else opts)))"

definition default_audio_buffer :: cli_check where
  "default_audio_buffer opts = Some (Some
     (if o_audio_playback opts \<and> o_audio_buffer opts = - 1 then
        opts\<lparr>o_audio_buffer := SC_TICK_FROM_MS (if o_audio_codec opts = SC_CODEC_FLAC then 120 else 50)\<rparr>
      else opts))"

definition check_v4l2 :: "cli_env \<Rightarrow> cli_check" where
  "check_v4l2 env opts =
     (if \<not> have_v4l2 env then Some (Some opts)
      else if cli_v4l2 env opts \<and> (\<not> o_video opts \<or> o_flex_display opts) then Some None
      else
        (let opts = (if cli_v4l2 env opts then opts\<lparr>o_downsize_on_error := False\<rparr> else opts) in
         refuse_if (o_v4l2_buffer opts \<noteq> 0 \<and> o_v4l2_device opts = None) opts))"

definition resolve_keyboard :: "bool \<Rightarrow> scrcpy_options \<Rightarrow> scrcpy_options" where
  "resolve_keyboard otg opts =
     (if o_keyboard_input_mode opts = SC_KEYBOARD_INPUT_MODE_AUTO then
        opts\<lparr>o_keyboard_input_mode := (if otg then SC_KEYBOARD_INPUT_MODE_AOA else SC_KEYBOARD_INPUT_MODE_SDK)\<rparr>
      else if o_keyboard_input_mode opts = SC_KEYBOARD_INPUT_MODE_UHID_OR_AOA then
        opts\<lparr>o_keyboard_input_mode := (if otg then SC_KEYBOARD_INPUT_MODE_AOA else SC_KEYBOARD_INPUT_MODE_UHID)\<rparr>
      else opts)"

definition resolve_mouse :: "bool \<Rightarrow> scrcpy_options \<Rightarrow> scrcpy_options option" where
  "resolve_mouse otg opts =
     (if o_mouse_input_mode opts = SC_MOUSE_INPUT_MODE_AUTO then
        Some (opts\<lparr>o_mouse_input_mode :=
          (if otg then SC_MOUSE_INPUT_MODE_AOA
           else if \<not> o_video_playback opts then SC_MOUSE_INPUT_MODE_DISABLED
           else SC_MOUSE_INPUT_MODE_SDK)\<rparr>)
      else if o_mouse_input_mode opts = SC_MOUSE_INPUT_MODE_UHID_OR_AOA then
        Some (opts\<lparr>o_mouse_input_mode := (if otg then SC_MOUSE_INPUT_MODE_AOA else SC_MOUSE_INPUT_MODE_UHID)\<rparr>)
      else if o_mouse_input_mode opts = SC_MOUSE_INPUT_MODE_SDK \<and> \<not> o_video_playback opts then None
      else Some opts)"

definition resolve_gamepad :: "bool \<Rightarrow> scrcpy_options \<Rightarrow> scrcpy_options" where
  "resolve_gamepad otg opts =
     (if o_gamepad_input_mode opts = SC_GAMEPAD_INPUT_MODE_UHID_OR_AOA then
        opts\<lparr>o_gamepad_input_mode := (if otg then SC_GAMEPAD_INPUT_MODE_AOA else SC_GAMEPAD_INPUT_MODE_UHID)\<rparr>
      else opts)"

definition resolve_input_modes :: "cli_env \<Rightarrow> cli_check" where
  "resolve_input_modes env opts =
     (if o_control opts \<and> o_video_source opts = SC_VIDEO_SOURCE_DISPLAY then
        Some (map_option (resolve_gamepad (cli_otg env opts))
          (resolve_mouse (cli_otg env opts) (resolve_keyboard (cli_otg env opts) opts)))
      else Some (Some opts))"

definition default_shortcuts :: sc_mouse_binding_set where
  "default_shortcuts = \<lparr>right_click = SC_MOUSE_BINDING_BACK, middle_click = SC_MOUSE_BINDING_HOME,
     click4 = SC_MOUSE_BINDING_APP_SWITCH, click5 = SC_MOUSE_BINDING_EXPAND_NOTIFICATION_PANEL\<rparr>"

definition forward_clicks :: sc_mouse_binding_set where
  "forward_clicks = \<lparr>right_click = SC_MOUSE_BINDING_CLICK, middle_click = SC_MOUSE_BINDING_CLICK,
     click4 = SC_MOUSE_BINDING_CLICK, click5 = SC_MOUSE_BINDING_CLICK\<rparr>"

definition default_mouse_bindings :: cli_check where
  "default_mouse_bindings opts =
     (let mb = o_mouse_bindings opts in
      if right_click (bind_pri mb) = SC_MOUSE_BINDING_AUTO then do {
        c_assert (bind_pri mb = auto_bindings);
        c_assert (bind_sec mb = auto_bindings);
        Some (Some (opts\<lparr>o_mouse_bindings :=
          (if o_mouse_input_mode opts = SC_MOUSE_INPUT_MODE_SDK
           then \<lparr>bind_pri = default_shortcuts, bind_sec = forward_clicks\<rparr>
           else \<lparr>bind_pri = forward_clicks, bind_sec = default_shortcuts\<rparr>)\<rparr>))
      }
      else Some (Some opts))"

definition check_new_display :: cli_check where
  "check_new_display opts =
     refuse_if (o_new_display opts \<noteq> None \<and> (o_video_source opts \<noteq> SC_VIDEO_SOURCE_DISPLAY \<or> \<not> o_video opts)) opts"

definition default_render_fit :: cli_check where
  "default_render_fit opts = Some (Some
     (if o_render_fit opts = SC_RENDER_FIT_AUTO
      then opts\<lparr>o_render_fit := (if o_flex_display opts then SC_RENDER_FIT_UNSCALED else SC_RENDER_FIT_LETTERBOX)\<rparr>
      else opts))"

definition check_otg_inputs :: "cli_env \<Rightarrow> cli_check" where
  "check_otg_inputs env opts =
     (let kmode = o_keyboard_input_mode opts; mmode = o_mouse_input_mode opts; gmode = o_gamepad_input_mode opts in
      refuse_if (cli_otg env opts \<and>
        (\<not> o_control opts
         \<or> (kmode \<noteq> SC_KEYBOARD_INPUT_MODE_AOA \<and> kmode \<noteq> SC_KEYBOARD_INPUT_MODE_DISABLED)
         \<or> (mmode \<noteq> SC_MOUSE_INPUT_MODE_AOA \<and> mmode \<noteq> SC_MOUSE_INPUT_MODE_DISABLED)
         \<or> (gmode \<noteq> SC_GAMEPAD_INPUT_MODE_AOA \<and> gmode \<noteq> SC_GAMEPAD_INPUT_MODE_DISABLED)
         \<or> (kmode = SC_KEYBOARD_INPUT_MODE_DISABLED \<and> mmode = SC_MOUSE_INPUT_MODE_DISABLED \<and>
            gmode = SC_GAMEPAD_INPUT_MODE_DISABLED))) opts)"

definition check_sdk_options :: cli_check where
  "check_sdk_options opts =
     refuse_if
       (o_keyboard_input_mode opts \<noteq> SC_KEYBOARD_INPUT_MODE_SDK \<and>
          (o_key_inject_mode opts = SC_KEY_INJECT_MODE_TEXT \<or> o_key_inject_mode opts = SC_KEY_INJECT_MODE_RAW \<or>
           \<not> o_forward_key_repeat opts)
        \<or> o_mouse_input_mode opts \<noteq> SC_MOUSE_INPUT_MODE_SDK \<and> \<not> o_mouse_hover opts) opts"

definition force_forward :: cli_check where
  "force_forward opts = Some (Some
     (if (o_tunnel_host opts \<noteq> 0 \<or> o_tunnel_port opts \<noteq> 0) \<and> \<not> o_force_adb_forward opts
      then opts\<lparr>o_force_adb_forward := True\<rparr> else opts))"

definition check_camera :: cli_check where
  "check_camera opts =
     (if o_video_source opts = SC_VIDEO_SOURCE_CAMERA then
        (if o_display_id opts \<noteq> 0
            \<or> o_display_ime_policy opts \<noteq> SC_DISPLAY_IME_POLICY_UNDEFINED
            \<or> (o_camera_id opts \<noteq> None \<and> o_camera_facing opts \<noteq> SC_CAMERA_FACING_ANY)
            \<or> (o_camera_size opts \<noteq> None \<and> (o_max_size opts \<noteq> 0 \<or> o_camera_ar opts \<noteq> None))
            \<or> (o_camera_high_speed opts \<and> o_camera_fps opts = 0)
         then Some None
         else Some (Some (if o_control opts
           then opts\<lparr>o_keyboard_input_mode := SC_KEYBOARD_INPUT_MODE_DISABLED,
                  o_mouse_input_mode := SC_MOUSE_INPUT_MODE_DISABLED,
                  o_gamepad_input_mode := SC_GAMEPAD_INPUT_MODE_DISABLED\<rparr>
           else opts)))
      else refuse_if (o_camera_id opts \<noteq> None \<or> o_camera_ar opts \<noteq> None
        \<or> o_camera_facing opts \<noteq> SC_CAMERA_FACING_ANY \<or> o_camera_fps opts \<noteq> 0
        \<or> o_camera_high_speed opts \<or> o_camera_size opts \<noteq> None) opts)"

definition check_display :: cli_check where
  "check_display opts =
     (if o_display_id opts \<noteq> 0 \<and> o_new_display opts \<noteq> None then Some None
      else if o_flex_display opts \<and>
          (o_video_source opts \<noteq> SC_VIDEO_SOURCE_DISPLAY \<or> o_new_display opts = None \<or> \<not> o_control opts
           \<or> o_crop opts \<noteq> None \<or> o_window_width opts \<noteq> 0 \<or> o_window_height opts \<noteq> 0)
        then Some None
      else
        (let opts = (if o_flex_display opts then opts\<lparr>o_window_aspect_ratio_lock := False\<rparr> else opts) in
         refuse_if (o_display_ime_policy opts \<noteq> SC_DISPLAY_IME_POLICY_UNDEFINED \<and>
           o_display_id opts = 0 \<and> o_new_display opts = None) opts))"

definition check_audio_source :: cli_check where
  "check_audio_source opts =
     (let opts = (if o_audio opts \<and> o_audio_source opts = SC_AUDIO_SOURCE_AUTO
            then opts\<lparr>o_audio_source :=
              (if o_video_source opts = SC_VIDEO_SOURCE_DISPLAY
               then (if o_audio_dup opts then SC_AUDIO_SOURCE_PLAYBACK else SC_AUDIO_SOURCE_OUTPUT)
               else SC_AUDIO_SOURCE_MIC)\<rparr>
            else opts)
      in refuse_if (o_audio_dup opts \<and> (\<not> o_audio opts \<or> o_audio_source opts \<noteq> SC_AUDIO_SOURCE_PLAYBACK)) opts)"

definition record_codec_mismatch :: "scrcpy_options \<Rightarrow> bool" where
  "record_codec_mismatch opts \<longleftrightarrow>
     (let f = o_record_format opts; ac = o_audio_codec opts in
      (f = SC_RECORD_FORMAT_OPUS \<and> ac \<noteq> SC_CODEC_OPUS)
      \<or> (f = SC_RECORD_FORMAT_AAC \<and> ac \<noteq> SC_CODEC_AAC)
      \<or> (f = SC_RECORD_FORMAT_FLAC \<and> ac \<noteq> SC_CODEC_FLAC)
      \<or> (f = SC_RECORD_FORMAT_WAV \<and> ac \<noteq> SC_CODEC_RAW)
      \<or> ((f = SC_RECORD_FORMAT_MP4 \<or> f = SC_RECORD_FORMAT_M4A) \<and> ac = SC_CODEC_RAW)
      \<or> (f = SC_RECORD_FORMAT_MP4 \<and> o_video_codec opts = SC_CODEC_VP8))"

definition check_recording :: cli_check where
  "check_recording opts =
     (case o_record_filename opts of
        None \<Rightarrow> refuse_if (o_record_format opts \<noteq> SC_RECORD_FORMAT_AUTO) opts
      | Some name \<Rightarrow>
          if \<not> o_video opts \<and> \<not> o_audio opts then Some None
          else do {
            let opts = (if o_record_format opts = SC_RECORD_FORMAT_AUTO
                        then opts\<lparr>o_record_format := guess_record_format name\<rparr> else opts);
            if o_record_format opts = SC_RECORD_FORMAT_AUTO then Some None
            else do {
              mirror \<leftarrow> (if o_record_orientation opts \<noteq> SC_ORIENTATION_0
                         then sc_orientation_is_mirror (o_record_orientation opts) else Some False);
              refuse_if (mirror
                \<or> (o_video opts \<and> sc_record_format_is_audio_only (o_record_format opts))
                \<or> record_codec_mismatch opts) opts
            }
          })"

definition check_control :: cli_check where
  "check_control opts =
     refuse_if (\<not> o_control opts \<and>
       (o_turn_screen_off opts \<or> o_stay_awake opts \<or> o_show_touches opts \<or> o_power_off_on_close opts
        \<or> o_start_app opts \<noteq> None \<or> o_keep_active opts)) opts"

definition check_windows_aoa :: "cli_env \<Rightarrow> cli_check" where
  "check_windows_aoa env opts =
     refuse_if (env_win32 env \<and> \<not> cli_otg env opts \<and>
       (o_keyboard_input_mode opts = SC_KEYBOARD_INPUT_MODE_AOA \<or> o_mouse_input_mode opts = SC_MOUSE_INPUT_MODE_AOA)) opts"

definition check_fps_counter :: cli_check where
  "check_fps_counter opts = Some (Some
     (if o_start_fps_counter opts \<and> \<not> o_video_playback opts then opts\<lparr>o_start_fps_counter := False\<rparr> else opts))"

definition check_otg :: "cli_env \<Rightarrow> cli_check" where
  "check_otg env opts =
     refuse_if (cli_otg env opts \<and>
       (o_record_filename opts \<noteq> None \<or> o_turn_screen_off opts \<or> o_stay_awake opts \<or> o_show_touches opts
        \<or> o_power_off_on_close opts \<or> o_display_id opts \<noteq> 0 \<or> cli_v4l2 env opts)) opts"

definition cli_checks :: "cli_env \<Rightarrow> cli_check list" where
  "cli_checks env =
     [check_selectors, check_streams env, default_audio_buffer, check_v4l2 env, resolve_input_modes env,
      default_mouse_bindings, check_new_display, default_render_fit, check_otg_inputs env, check_sdk_options,
      force_forward, check_camera, check_display, check_audio_source, check_recording, check_control,
      check_windows_aoa env, check_fps_counter, check_otg env]"

fun run_checks :: "cli_check list \<Rightarrow> cli_check" where
  "run_checks [] opts = Some (Some opts)"
| "run_checks (f # fs) opts = do {
     r \<leftarrow> f opts;
     case r of None \<Rightarrow> Some None | Some opts \<Rightarrow> run_checks fs opts
   }"

text \<open>\<open>extra\<close>: there are arguments that are not options.\<close>

definition parse_args_with_getopt ::
  "cli_env \<Rightarrow> (int \<times> byte_buf option) list \<Rightarrow> bool \<Rightarrow> scrcpy_cli_args \<Rightarrow> (bool \<times> scrcpy_cli_args) option" where
  "parse_args_with_getopt env results extra a = do {
     (ok, a) \<leftarrow> getopt_loop env results a;
     if \<not> ok \<or> extra then Some (False, a)
     else do {
       r \<leftarrow> run_checks (cli_checks env) (a_opts a);
       Some (case r of None \<Rightarrow> (False, a) | Some opts \<Rightarrow> (True, a\<lparr>a_opts := opts\<rparr>))
     }
   }"

section \<open>The whole\<close>

definition pause_on_exit_arg :: "byte_buf \<Rightarrow> sc_pause_on_exit" where
  "pause_on_exit_arg rest =
     (case rest of
        [] \<Rightarrow> SC_PAUSE_ON_EXIT_TRUE
      | c # value \<Rightarrow>
          if c \<noteq> 61 then SC_PAUSE_ON_EXIT_UNDEFINED
          else if value = lit ''true'' then SC_PAUSE_ON_EXIT_TRUE
          else if value = lit ''if-error'' then SC_PAUSE_ON_EXIT_IF_ERROR
          else if value = lit ''false'' then SC_PAUSE_ON_EXIT_FALSE
          else SC_PAUSE_ON_EXIT_UNDEFINED)"

text \<open>The arguments after the name of the program, last first.\<close>

fun pause_on_exit_loop :: "byte_buf list \<Rightarrow> sc_pause_on_exit" where
  "pause_on_exit_loop [] = SC_PAUSE_ON_EXIT_UNDEFINED"
| "pause_on_exit_loop (arg # rest) =
     (if starts_with (lit ''--pause-on-exit'') arg then pause_on_exit_arg (drop 15 arg) else pause_on_exit_loop rest)"

definition sc_get_pause_on_exit :: "byte_buf list \<Rightarrow> sc_pause_on_exit" where
  "sc_get_pause_on_exit argv = pause_on_exit_loop (rev (drop 1 argv))"

definition scrcpy_parse_args ::
  "cli_env \<Rightarrow> (int \<times> byte_buf option) list \<Rightarrow> bool \<Rightarrow> byte_buf list \<Rightarrow> scrcpy_cli_args \<Rightarrow> (bool \<times> scrcpy_cli_args) option" where
  "scrcpy_parse_args env results extra argv a =
     (if \<not> env_adapter_ok env then Some (False, a)
      else do {
        (ret, a) \<leftarrow> parse_args_with_getopt env results extra a;
        let a = (if \<not> ret \<and> a_pause_on_exit a = SC_PAUSE_ON_EXIT_UNDEFINED
                 then a\<lparr>a_pause_on_exit := sc_get_pause_on_exit argv\<rparr> else a);
        let a = (if a_pause_on_exit a = SC_PAUSE_ON_EXIT_UNDEFINED
                 then a\<lparr>a_pause_on_exit := (if env_win32 env \<and> env_double_click env then SC_PAUSE_ON_EXIT_IF_ERROR
                                          else SC_PAUSE_ON_EXIT_FALSE)\<rparr> else a);
        c_assert (a_pause_on_exit a \<noteq> SC_PAUSE_ON_EXIT_UNDEFINED);
        Some (ret, a)
      })"

end
