(* ===== verification/CliChecks.thy ===== *)
theory CliChecks
  imports Cli
begin

text \<open>
  What the options that \<^verbatim>\<open>parse_args_with_getopt\<close> accepts satisfy (\<^verbatim>\<open>app/src/cli.c\<close>): one lemma per check states what
  the check changes and establishes.
\<close>

lemma run_checks_Cons:
  "run_checks (f # fs) opts = Some (Some r) \<longleftrightarrow> (\<exists>m. f opts = Some (Some m) \<and> run_checks fs m = Some (Some r))"
  by (auto simp: bind_eq_Some_conv split: option.splits)

lemma checked: "y = (if bad then Some None else Some (Some x)) \<Longrightarrow> y = Some (Some r) \<Longrightarrow> \<not> bad \<and> r = x"
  by (auto split: if_splits)

text \<open>What holds of the options a check accepts.\<close>

definition leaves :: "('a \<Rightarrow> bool) \<Rightarrow> 'a option option \<Rightarrow> bool" where
  "leaves P y \<longleftrightarrow> (\<forall>r. y = Some (Some r) \<longrightarrow> P r)"

lemma leaves_simps [simp]:
  "leaves P None" "leaves P (Some None)" "leaves P (Some (Some x)) = P x" "leaves P (refuse_if b opts) = (b \<or> P opts)"
  by (simp_all add: leaves_def refuse_if_def)

lemma leaves_if [simp]: "leaves P (if b then y else z) = ((b \<longrightarrow> leaves P y) \<and> (\<not> b \<longrightarrow> leaves P z))"
  by simp

lemma leaves_map [simp]: "leaves P (Some (map_option f y)) = leaves (P \<circ> f) (Some y)"
  by (cases y) (simp_all add: leaves_def)

lemma leavesD: "leaves P y \<Longrightarrow> y = Some (Some r) \<Longrightarrow> P r"
  by (simp add: leaves_def)

section \<open>Each check\<close>

definition at_most_one_selector :: "scrcpy_options \<Rightarrow> bool" where
  "at_most_one_selector opts \<longleftrightarrow>
     length (filter id [o_serial opts \<noteq> None, o_tcpip_dst opts \<noteq> None, o_select_tcpip opts, o_select_usb opts]) \<le> 1"

definition capture_ok :: "cli_env \<Rightarrow> scrcpy_options \<Rightarrow> bool" where
  "capture_ok env opts \<longleftrightarrow>
     (o_video_playback opts \<longrightarrow> o_window opts \<and> o_video opts) \<and>
     (o_audio_playback opts \<longrightarrow> o_audio opts) \<and>
     (o_video opts \<longrightarrow> o_video_playback opts \<or> o_record_filename opts \<noteq> None \<or> cli_v4l2 env opts) \<and>
     (o_audio opts \<longrightarrow> o_audio_playback opts \<or> o_record_filename opts \<noteq> None) \<and>
     (o_video opts \<or> o_audio opts \<or> o_control opts \<or> cli_otg env opts) \<and>
     (\<not> o_video opts \<and> \<not> cli_otg env opts \<longrightarrow> o_require_audio opts)"

definition modes_resolved :: "scrcpy_options \<Rightarrow> bool" where
  "modes_resolved opts \<longleftrightarrow>
     o_keyboard_input_mode opts \<notin> {SC_KEYBOARD_INPUT_MODE_AUTO, SC_KEYBOARD_INPUT_MODE_UHID_OR_AOA} \<and>
     o_mouse_input_mode opts \<notin> {SC_MOUSE_INPUT_MODE_AUTO, SC_MOUSE_INPUT_MODE_UHID_OR_AOA} \<and>
     o_gamepad_input_mode opts \<noteq> SC_GAMEPAD_INPUT_MODE_UHID_OR_AOA \<and>
     (o_mouse_input_mode opts = SC_MOUSE_INPUT_MODE_SDK \<longrightarrow> o_video_playback opts)"

definition no_auto_in :: "sc_mouse_binding_set \<Rightarrow> bool" where
  "no_auto_in mbs \<longleftrightarrow> SC_MOUSE_BINDING_AUTO \<notin> {right_click mbs, middle_click mbs, click4 mbs, click5 mbs}"

definition bindings_ok :: "sc_mouse_bindings \<Rightarrow> bool" where
  "bindings_ok mb \<longleftrightarrow> no_auto_in (bind_pri mb) \<and> no_auto_in (bind_sec mb)"

definition bindings_given :: "sc_mouse_bindings \<Rightarrow> bool" where
  "bindings_given mb \<longleftrightarrow> mb = \<lparr>bind_pri = auto_bindings, bind_sec = auto_bindings\<rparr> \<or> bindings_ok mb"

definition recording_ok :: "scrcpy_options \<Rightarrow> bool" where
  "recording_ok opts \<longleftrightarrow>
     (if o_record_filename opts = None then o_record_format opts = SC_RECORD_FORMAT_AUTO
      else o_record_format opts \<noteq> SC_RECORD_FORMAT_AUTO \<and> (o_video opts \<or> o_audio opts) \<and>
        (sc_record_format_is_audio_only (o_record_format opts) \<longrightarrow> \<not> o_video opts) \<and>
        \<not> record_codec_mismatch opts \<and>
        (o_record_orientation opts = SC_ORIENTATION_0 \<or> sc_orientation_is_mirror (o_record_orientation opts) = Some False))"

lemma check_selectors_leaves: "leaves (\<lambda>r. r = opts \<and> at_most_one_selector opts) (check_selectors opts)"
  unfolding check_selectors_def at_most_one_selector_def Let_def
  by (cases "o_tcpip opts \<or> o_tcpip_dst opts = None"; cases "o_serial opts"; cases "o_tcpip_dst opts";
    cases "o_select_tcpip opts"; cases "o_select_usb opts") simp_all

lemma disable_playback_eq:
  "disable_playback opts = opts\<lparr>o_video_playback := o_video_playback opts \<and> o_window opts \<and> o_video opts,
      o_power_on := o_power_on opts \<and> o_video opts, o_audio_playback := o_audio_playback opts \<and> o_audio opts\<rparr>"
proof -
  define m1 where "m1 = (if \<not> o_window opts then opts\<lparr>o_video_playback := False\<rparr> else opts)"
  have 1: "m1 = opts\<lparr>o_video_playback := o_video_playback opts \<and> o_window opts\<rparr>"
    unfolding m1_def by (cases "o_window opts") simp_all
  define m2 where "m2 = (if \<not> o_video m1 then m1\<lparr>o_video_playback := False, o_power_on := False\<rparr> else m1)"
  have 2: "m2 = opts\<lparr>o_video_playback := o_video_playback opts \<and> o_window opts \<and> o_video opts, o_power_on := o_power_on opts \<and> o_video opts\<rparr>"
    unfolding m2_def 1 by (cases "o_video opts") simp_all
  have "disable_playback opts = (if \<not> o_audio m2 then m2\<lparr>o_audio_playback := False\<rparr> else m2)"
    unfolding disable_playback_def Let_def m2_def m1_def ..
  then show ?thesis unfolding 2 by (cases "o_audio opts") simp_all
qed

lemma disable_streams_eq:
  "disable_streams env opts = opts\<lparr>o_video := o_video opts \<and> (o_video_playback opts \<or> o_record_filename opts \<noteq> None \<or> cli_v4l2 env opts),
     o_audio := o_audio opts \<and> (o_audio_playback opts \<or> o_record_filename opts \<noteq> None)\<rparr>"
proof -
  define m1 where "m1 = (if o_video opts \<and> \<not> o_video_playback opts \<and> o_record_filename opts = None \<and> \<not> cli_v4l2 env opts
     then opts\<lparr>o_video := False\<rparr> else opts)"
  have 1: "m1 = opts\<lparr>o_video := o_video opts \<and> (o_video_playback opts \<or> o_record_filename opts \<noteq> None \<or> cli_v4l2 env opts)\<rparr>"
    unfolding m1_def by (cases "o_video opts"; cases "o_video_playback opts \<or> o_record_filename opts \<noteq> None \<or> cli_v4l2 env opts") simp_all
  have "disable_streams env opts = (if o_audio m1 \<and> \<not> o_audio_playback m1 \<and> o_record_filename m1 = None then m1\<lparr>o_audio := False\<rparr> else m1)"
    unfolding disable_streams_def Let_def m1_def ..
  then show ?thesis unfolding 1
    by (cases "o_audio opts"; cases "o_audio_playback opts \<or> o_record_filename opts \<noteq> None") simp_all
qed

lemma check_streams_fx:
  assumes "check_streams env opts = Some (Some r)"
  shows "capture_ok env r \<and> (\<exists>vp po v ap a ra. r = opts\<lparr>o_video_playback := vp, o_power_on := po,
    o_audio_playback := ap, o_video := v, o_audio := a, o_require_audio := ra\<rparr>)"
proof -
  define vp where "vp = (o_video_playback opts \<and> o_window opts \<and> o_video opts)"
  define ap where "ap = (o_audio_playback opts \<and> o_audio opts)"
  define v where "v = (o_video opts \<and> (vp \<or> o_record_filename opts \<noteq> None \<or> cli_v4l2 env opts))"
  define a where "a = (o_audio opts \<and> (ap \<or> o_record_filename opts \<noteq> None))"
  define m where "m = opts\<lparr>o_video_playback := vp, o_power_on := o_power_on opts \<and> o_video opts, o_audio_playback := ap,
    o_video := v, o_audio := a\<rparr>"
  define d where "d = disable_playback opts"
  have d: "d = opts\<lparr>o_video_playback := vp, o_power_on := o_power_on opts \<and> o_video opts, o_audio_playback := ap\<rparr>"
    unfolding d_def vp_def ap_def by (rule disable_playback_eq)
  have df: "o_video d = o_video opts" "o_video_playback d = vp" "o_record_filename d = o_record_filename opts"
    "cli_v4l2 env d = cli_v4l2 env opts" "o_audio d = o_audio opts" "o_audio_playback d = ap"
    unfolding d by (simp_all add: cli_v4l2_def)
  have "disable_streams env d = m"
    unfolding disable_streams_eq df v_def [symmetric] a_def [symmetric] unfolding d m_def ..
  then have "check_streams env opts = (if \<not> o_video m \<and> \<not> o_audio m \<and> \<not> o_control m \<and> \<not> cli_otg env m then Some None
      else Some (Some (if \<not> o_video m \<and> \<not> cli_otg env m then m\<lparr>o_require_audio := True\<rparr> else m)))"
    unfolding check_streams_def Let_def d_def by simp
  from checked [OF this assms] have n: "o_video m \<or> o_audio m \<or> o_control m \<or> cli_otg env m"
    and r: "r = (if \<not> o_video m \<and> \<not> cli_otg env m then m\<lparr>o_require_audio := True\<rparr> else m)" by blast+
  have "(if q then m\<lparr>o_require_audio := True\<rparr> else m) = m\<lparr>o_require_audio := o_require_audio m \<or> q\<rparr>" for q
    by (cases q) simp_all
  then have "r = m\<lparr>o_require_audio := o_require_audio m \<or> \<not> o_video m \<and> \<not> cli_otg env m\<rparr>"
    unfolding r .
  then have r: "r = opts\<lparr>o_video_playback := vp, o_power_on := o_power_on opts \<and> o_video opts, o_audio_playback := ap,
    o_video := v, o_audio := a, o_require_audio := o_require_audio m \<or> \<not> o_video m \<and> \<not> cli_otg env m\<rparr>"
    unfolding m_def .
  have m: "o_video m = v" "o_audio m = a" "o_control m = o_control opts" "cli_otg env m = cli_otg env opts"
    by (simp_all add: m_def cli_otg_def)
  have f: "o_video_playback r = vp" "o_audio_playback r = ap" "o_video r = v" "o_audio r = a" "o_window r = o_window opts"
    "o_record_filename r = o_record_filename opts" "o_control r = o_control opts" "cli_otg env r = cli_otg env opts"
    "cli_v4l2 env r = cli_v4l2 env opts" "\<not> o_video m \<and> \<not> cli_otg env m \<longrightarrow> o_require_audio r"
    unfolding r by (simp_all add: cli_otg_def cli_v4l2_def)
  have "capture_ok env r" using n f(10) unfolding capture_ok_def f(1-9) m v_def a_def vp_def ap_def by blast
  then show ?thesis by (intro conjI exI) (assumption, rule r)
qed

lemma default_audio_buffer_leaves:
  "leaves (\<lambda>r. r = opts\<lparr>o_audio_buffer := o_audio_buffer r\<rparr> \<and> (o_audio_playback opts \<longrightarrow> o_audio_buffer r \<noteq> - 1))
     (default_audio_buffer opts)"
  unfolding default_audio_buffer_def by (simp add: SC_TICK_FROM_MS_def)

lemma check_v4l2_leaves:
  "leaves (\<lambda>r. r = opts\<lparr>o_downsize_on_error := o_downsize_on_error r\<rparr> \<and>
     (cli_v4l2 env opts \<longrightarrow> o_video opts \<and> \<not> o_flex_display opts)) (check_v4l2 env opts)"
  unfolding check_v4l2_def Let_def by (simp add: cli_v4l2_def)

lemma resolve_keyboard_fx:
  "resolve_keyboard otg opts = opts\<lparr>o_keyboard_input_mode := o_keyboard_input_mode (resolve_keyboard otg opts)\<rparr>"
  "o_keyboard_input_mode (resolve_keyboard otg opts) \<notin> {SC_KEYBOARD_INPUT_MODE_AUTO, SC_KEYBOARD_INPUT_MODE_UHID_OR_AOA}"
  unfolding resolve_keyboard_def by simp_all

lemma resolve_gamepad_fx:
  "resolve_gamepad otg opts = opts\<lparr>o_gamepad_input_mode := o_gamepad_input_mode (resolve_gamepad otg opts)\<rparr>"
  "o_gamepad_input_mode (resolve_gamepad otg opts) \<noteq> SC_GAMEPAD_INPUT_MODE_UHID_OR_AOA"
  unfolding resolve_gamepad_def by simp_all

lemma resolve_mouse_leaves:
  "leaves (\<lambda>r. r = opts\<lparr>o_mouse_input_mode := o_mouse_input_mode r\<rparr> \<and>
     o_mouse_input_mode r \<notin> {SC_MOUSE_INPUT_MODE_AUTO, SC_MOUSE_INPUT_MODE_UHID_OR_AOA} \<and>
     (o_mouse_input_mode r = SC_MOUSE_INPUT_MODE_SDK \<longrightarrow> o_video_playback opts)) (Some (resolve_mouse otg opts))"
  unfolding resolve_mouse_def by (cases "o_mouse_input_mode opts"; simp)

lemma default_mouse_bindings_leaves:
  "leaves (\<lambda>r. r = opts\<lparr>o_mouse_bindings := o_mouse_bindings r\<rparr> \<and>
     (bindings_given (o_mouse_bindings opts) \<longrightarrow> bindings_ok (o_mouse_bindings r))) (default_mouse_bindings opts)"
  unfolding default_mouse_bindings_def Let_def
  by (cases "bind_pri (o_mouse_bindings opts) = auto_bindings"; cases "bind_sec (o_mouse_bindings opts) = auto_bindings")
    (simp_all add: bindings_given_def bindings_ok_def no_auto_in_def auto_bindings_def default_shortcuts_def forward_clicks_def, auto)

lemma check_new_display_leaves:
  "leaves (\<lambda>r. r = opts \<and> (o_new_display opts \<noteq> None \<longrightarrow> o_video_source opts = SC_VIDEO_SOURCE_DISPLAY \<and> o_video opts))
     (check_new_display opts)"
  unfolding check_new_display_def by auto

lemma default_render_fit_leaves:
  "leaves (\<lambda>r. r = opts\<lparr>o_render_fit := o_render_fit r\<rparr> \<and> o_render_fit r \<noteq> SC_RENDER_FIT_AUTO) (default_render_fit opts)"
  unfolding default_render_fit_def by simp

definition otg_inputs_ok :: "scrcpy_options \<Rightarrow> bool" where
  "otg_inputs_ok opts \<longleftrightarrow> o_control opts \<and>
     o_keyboard_input_mode opts \<in> {SC_KEYBOARD_INPUT_MODE_AOA, SC_KEYBOARD_INPUT_MODE_DISABLED} \<and>
     o_mouse_input_mode opts \<in> {SC_MOUSE_INPUT_MODE_AOA, SC_MOUSE_INPUT_MODE_DISABLED} \<and>
     o_gamepad_input_mode opts \<in> {SC_GAMEPAD_INPUT_MODE_AOA, SC_GAMEPAD_INPUT_MODE_DISABLED}"

lemma check_otg_inputs_leaves:
  "leaves (\<lambda>r. r = opts \<and> (cli_otg env opts \<longrightarrow> otg_inputs_ok opts \<and>
     (o_keyboard_input_mode opts = SC_KEYBOARD_INPUT_MODE_AOA \<or> o_mouse_input_mode opts = SC_MOUSE_INPUT_MODE_AOA \<or>
      o_gamepad_input_mode opts = SC_GAMEPAD_INPUT_MODE_AOA))) (check_otg_inputs env opts)"
  unfolding check_otg_inputs_def Let_def otg_inputs_ok_def by auto

lemma check_sdk_options_leaves:
  "leaves (\<lambda>r. r = opts \<and>
     (o_keyboard_input_mode opts \<noteq> SC_KEYBOARD_INPUT_MODE_SDK \<longrightarrow>
        o_key_inject_mode opts = SC_KEY_INJECT_MODE_MIXED \<and> o_forward_key_repeat opts) \<and>
     (o_mouse_input_mode opts \<noteq> SC_MOUSE_INPUT_MODE_SDK \<longrightarrow> o_mouse_hover opts)) (check_sdk_options opts)"
  unfolding check_sdk_options_def by (cases "o_key_inject_mode opts") auto

lemma force_forward_leaves:
  "leaves (\<lambda>r. r = opts\<lparr>o_force_adb_forward := o_force_adb_forward r\<rparr> \<and>
     (o_tunnel_host opts \<noteq> 0 \<or> o_tunnel_port opts \<noteq> 0 \<longrightarrow> o_force_adb_forward r)) (force_forward opts)"
  unfolding force_forward_def by simp

definition inputs_disabled :: "scrcpy_options \<Rightarrow> bool" where
  "inputs_disabled opts \<longleftrightarrow> o_keyboard_input_mode opts = SC_KEYBOARD_INPUT_MODE_DISABLED \<and>
     o_mouse_input_mode opts = SC_MOUSE_INPUT_MODE_DISABLED \<and> o_gamepad_input_mode opts = SC_GAMEPAD_INPUT_MODE_DISABLED"

lemma check_camera_leaves:
  "leaves (\<lambda>r. r = opts\<lparr>o_keyboard_input_mode := o_keyboard_input_mode r, o_mouse_input_mode := o_mouse_input_mode r,
       o_gamepad_input_mode := o_gamepad_input_mode r\<rparr> \<and>
     (if o_control opts \<and> o_video_source opts = SC_VIDEO_SOURCE_CAMERA then inputs_disabled r else r = opts) \<and>
     (o_video_source opts = SC_VIDEO_SOURCE_CAMERA \<longrightarrow> o_display_id opts = 0)) (check_camera opts)"
  unfolding check_camera_def inputs_disabled_def
  by (cases "o_control opts"; cases "o_video_source opts = SC_VIDEO_SOURCE_CAMERA"; simp)

lemma check_display_leaves:
  "leaves (\<lambda>r. r = opts\<lparr>o_window_aspect_ratio_lock := o_window_aspect_ratio_lock r\<rparr> \<and>
     (o_flex_display opts \<longrightarrow> \<not> o_window_aspect_ratio_lock r \<and> o_new_display opts \<noteq> None \<and> o_control opts) \<and>
     (o_new_display opts \<noteq> None \<longrightarrow> o_display_id opts = 0)) (check_display opts)"
  unfolding check_display_def Let_def
  by (cases "o_flex_display opts"; cases "o_new_display opts"; simp)

lemma check_audio_source_leaves:
  "leaves (\<lambda>r. r = opts\<lparr>o_audio_source := o_audio_source r\<rparr> \<and>
     (o_audio opts \<longrightarrow> o_audio_source r \<noteq> SC_AUDIO_SOURCE_AUTO) \<and>
     (o_audio_dup opts \<longrightarrow> o_audio opts \<and> o_audio_source r = SC_AUDIO_SOURCE_PLAYBACK)) (check_audio_source opts)"
  unfolding check_audio_source_def Let_def
  by (cases "o_audio opts"; cases "o_audio_source opts = SC_AUDIO_SOURCE_AUTO"; cases "o_audio_dup opts"; simp)

lemma record_format_update [simp]:
  "record_codec_mismatch (opts\<lparr>o_record_format := f\<rparr>) \<longleftrightarrow>
     (f = SC_RECORD_FORMAT_OPUS \<and> o_audio_codec opts \<noteq> SC_CODEC_OPUS)
      \<or> (f = SC_RECORD_FORMAT_AAC \<and> o_audio_codec opts \<noteq> SC_CODEC_AAC)
      \<or> (f = SC_RECORD_FORMAT_FLAC \<and> o_audio_codec opts \<noteq> SC_CODEC_FLAC)
      \<or> (f = SC_RECORD_FORMAT_WAV \<and> o_audio_codec opts \<noteq> SC_CODEC_RAW)
      \<or> ((f = SC_RECORD_FORMAT_MP4 \<or> f = SC_RECORD_FORMAT_M4A) \<and> o_audio_codec opts = SC_CODEC_RAW)
      \<or> (f = SC_RECORD_FORMAT_MP4 \<and> o_video_codec opts = SC_CODEC_VP8)"
  by (simp add: record_codec_mismatch_def Let_def)

lemma check_recording_leaves:
  "leaves (\<lambda>r. r = opts\<lparr>o_record_format := o_record_format r\<rparr> \<and> recording_ok r) (check_recording opts)"
proof (cases "o_record_filename opts")
  case None
  then show ?thesis by (simp add: check_recording_def recording_ok_def)
next
  case (Some name)
  define m where "m = (if o_record_format opts = SC_RECORD_FORMAT_AUTO then opts\<lparr>o_record_format := guess_record_format name\<rparr> else opts)"
  have m: "m = opts\<lparr>o_record_format := o_record_format m\<rparr>" unfolding m_def by simp
  have f: "o_record_filename m = Some name" "o_video m = o_video opts" "o_audio m = o_audio opts"
    by (subst m, use Some in simp)+
  show ?thesis
  proof (cases "(\<not> o_video opts \<and> \<not> o_audio opts) \<or> o_record_format m = SC_RECORD_FORMAT_AUTO")
    case True
    then have "check_recording opts = Some None"
      unfolding check_recording_def Some option.case unfolding Let_def m_def [symmetric] by auto
    then show ?thesis by simp
  next
    case False
    define mi where "mi = (if o_record_orientation m \<noteq> SC_ORIENTATION_0 then sc_orientation_is_mirror (o_record_orientation m) else Some False)"
    define bad where "bad \<longleftrightarrow> o_video m \<and> sc_record_format_is_audio_only (o_record_format m)"
    have c: "\<not> (\<not> o_video opts \<and> \<not> o_audio opts)" "o_record_format m \<noteq> SC_RECORD_FORMAT_AUTO" using False by blast+
    have "check_recording opts = mi \<bind> (\<lambda>mirror. refuse_if (mirror \<or> bad \<or> record_codec_mismatch m) m)"
      unfolding check_recording_def Some option.case
      unfolding Let_def m_def [symmetric] mi_def bad_def if_not_P [OF c(1)] if_not_P [OF c(2)] ..
    moreover have ok: "recording_ok m" if "mi = Some b" "\<not> (b \<or> bad \<or> record_codec_mismatch m)" for b
    proof -
      have "o_record_orientation m = SC_ORIENTATION_0 \<or> sc_orientation_is_mirror (o_record_orientation m) = Some False"
        using that unfolding mi_def by (cases "o_record_orientation m = SC_ORIENTATION_0") simp_all
      with that(2) c show ?thesis unfolding recording_ok_def bad_def f by (simp, blast)
    qed
    ultimately have "leaves (\<lambda>r. r = m \<and> recording_ok r) (check_recording opts)"
      by (cases mi) (simp_all, use ok in blast)
    then show ?thesis using m unfolding leaves_def by metis
  qed
qed

definition actions_allowed :: "scrcpy_options \<Rightarrow> bool" where
  "actions_allowed opts \<longleftrightarrow> \<not> (o_turn_screen_off opts \<or> o_stay_awake opts \<or> o_show_touches opts \<or> o_power_off_on_close opts)"

lemma check_control_leaves:
  "leaves (\<lambda>r. r = opts \<and> (\<not> o_control opts \<longrightarrow> actions_allowed opts \<and> o_start_app opts = None \<and> \<not> o_keep_active opts))
     (check_control opts)"
  unfolding check_control_def actions_allowed_def by auto

lemma check_windows_aoa_leaves: "leaves (\<lambda>r. r = opts) (check_windows_aoa env opts)"
  unfolding check_windows_aoa_def by simp

lemma check_fps_counter_leaves:
  "leaves (\<lambda>r. r = opts\<lparr>o_start_fps_counter := o_start_fps_counter r\<rparr> \<and> (o_start_fps_counter r \<longrightarrow> o_video_playback opts))
     (check_fps_counter opts)"
  unfolding check_fps_counter_def by simp

lemma check_otg_leaves:
  "leaves (\<lambda>r. r = opts \<and> (cli_otg env opts \<longrightarrow> actions_allowed opts \<and> o_record_filename opts = None \<and>
     o_display_id opts = 0 \<and> \<not> cli_v4l2 env opts)) (check_otg env opts)"
  unfolding check_otg_def actions_allowed_def by auto

lemma resolve_input_modes_leaves:
  "leaves (\<lambda>r. (\<exists>k m g. r = opts\<lparr>o_keyboard_input_mode := k, o_mouse_input_mode := m, o_gamepad_input_mode := g\<rparr>) \<and>
     (o_control opts \<and> o_video_source opts = SC_VIDEO_SOURCE_DISPLAY \<longrightarrow> modes_resolved r)) (resolve_input_modes env opts)"
proof (cases "o_control opts \<and> o_video_source opts = SC_VIDEO_SOURCE_DISPLAY")
  case True
  let ?otg = "cli_otg env opts"
  define k where "k = resolve_keyboard ?otg opts"
  have k: "k = opts\<lparr>o_keyboard_input_mode := o_keyboard_input_mode k\<rparr>"
    "o_keyboard_input_mode k \<notin> {SC_KEYBOARD_INPUT_MODE_AUTO, SC_KEYBOARD_INPUT_MODE_UHID_OR_AOA}"
    unfolding k_def by (rule resolve_keyboard_fx)+
  show ?thesis
  proof (cases "resolve_mouse ?otg k")
    case None
    then show ?thesis using True by (simp add: resolve_input_modes_def k_def)
  next
    case (Some m)
    from leavesD [OF resolve_mouse_leaves, of ?otg k m] Some have m: "m = k\<lparr>o_mouse_input_mode := o_mouse_input_mode m\<rparr>"
      "o_mouse_input_mode m \<notin> {SC_MOUSE_INPUT_MODE_AUTO, SC_MOUSE_INPUT_MODE_UHID_OR_AOA}"
      "o_mouse_input_mode m = SC_MOUSE_INPUT_MODE_SDK \<longrightarrow> o_video_playback k" by blast+
    define g where "g = resolve_gamepad ?otg m"
    have g: "g = m\<lparr>o_gamepad_input_mode := o_gamepad_input_mode g\<rparr>" "o_gamepad_input_mode g \<noteq> SC_GAMEPAD_INPUT_MODE_UHID_OR_AOA"
      unfolding g_def by (rule resolve_gamepad_fx)+
    have f: "o_keyboard_input_mode g = o_keyboard_input_mode m" "o_mouse_input_mode g = o_mouse_input_mode m"
      "o_video_playback g = o_video_playback m" by (subst g(1), simp)+
    have f2: "o_keyboard_input_mode m = o_keyboard_input_mode k" "o_video_playback m = o_video_playback k" by (subst m(1), simp)+
    have "modes_resolved g" using k(2) m(2,3) g(2) unfolding modes_resolved_def f f2 by simp
    moreover have "\<exists>a b c. g = opts\<lparr>o_keyboard_input_mode := a, o_mouse_input_mode := b, o_gamepad_input_mode := c\<rparr>"
      by (intro exI, subst g(1), subst m(1), subst k(1), rule refl)
    moreover have "resolve_input_modes env opts = Some (Some g)"
      using True Some by (simp add: resolve_input_modes_def k_def g_def)
    ultimately show ?thesis by simp
  qed
next
  case False
  then have "resolve_input_modes env opts = Some (Some opts)" unfolding resolve_input_modes_def by (rule if_not_P)
  moreover have "\<exists>k m g. opts = opts\<lparr>o_keyboard_input_mode := k, o_mouse_input_mode := m, o_gamepad_input_mode := g\<rparr>"
    by (rule exI [of _ "o_keyboard_input_mode opts"], rule exI [of _ "o_mouse_input_mode opts"],
      rule exI [of _ "o_gamepad_input_mode opts"]) simp
  ultimately show ?thesis using False unfolding \<open>resolve_input_modes env opts = _\<close> leaves_simps by blast
qed

section \<open>All checks\<close>

text \<open>What holds after the first five checks, after the next eight and after all of them.\<close>

lemma first_checks:
  assumes "check_selectors opts = Some (Some r0)" "check_streams env r0 = Some (Some r1)"
    "default_audio_buffer r1 = Some (Some r2)" "check_v4l2 env r2 = Some (Some r3)"
    "resolve_input_modes env r3 = Some (Some r4)"
  shows "at_most_one_selector r4" "capture_ok env r4" "o_audio_playback r4 \<longrightarrow> o_audio_buffer r4 \<noteq> - 1"
    "cli_v4l2 env r4 \<longrightarrow> \<not> o_flex_display r4"
    "o_control r4 \<and> o_video_source r4 = SC_VIDEO_SOURCE_DISPLAY \<longrightarrow> modes_resolved r4"
    "o_mouse_bindings r4 = o_mouse_bindings opts"
proof -
  from leavesD [OF check_selectors_leaves assms(1)] have r0: "r0 = opts" "at_most_one_selector opts" by blast+
  from check_streams_fx [OF assms(2)] obtain vp po v ap a ra where r1: "capture_ok env r1"
    "r1 = r0\<lparr>o_video_playback := vp, o_power_on := po, o_audio_playback := ap, o_video := v, o_audio := a, o_require_audio := ra\<rparr>"
    by blast
  from leavesD [OF default_audio_buffer_leaves assms(3)] obtain ab where r2: "r2 = r1\<lparr>o_audio_buffer := ab\<rparr>"
    "o_audio_playback r1 \<longrightarrow> ab \<noteq> - 1" by blast
  from leavesD [OF check_v4l2_leaves assms(4)] obtain d where r3: "r3 = r2\<lparr>o_downsize_on_error := d\<rparr>"
    "cli_v4l2 env r2 \<longrightarrow> o_video r2 \<and> \<not> o_flex_display r2" by blast
  from leavesD [OF resolve_input_modes_leaves assms(5)] obtain k m g where
    r4: "r4 = r3\<lparr>o_keyboard_input_mode := k, o_mouse_input_mode := m, o_gamepad_input_mode := g\<rparr>"
    "o_control r3 \<and> o_video_source r3 = SC_VIDEO_SOURCE_DISPLAY \<longrightarrow> modes_resolved r4" by blast
  show "at_most_one_selector r4"
    using r0(2) unfolding at_most_one_selector_def r4(1) r3(1) r2(1) r1(2) r0(1) by simp
  show "capture_ok env r4"
    using r1(1) unfolding capture_ok_def cli_v4l2_def cli_otg_def r4(1) r3(1) r2(1) by simp
  show "o_audio_playback r4 \<longrightarrow> o_audio_buffer r4 \<noteq> - 1" using r2(2) unfolding r4(1) r3(1) r2(1) by simp
  show "cli_v4l2 env r4 \<longrightarrow> \<not> o_flex_display r4" using r3(2) unfolding r4(1) r3(1) cli_v4l2_def by simp
  show "o_control r4 \<and> o_video_source r4 = SC_VIDEO_SOURCE_DISPLAY \<longrightarrow> modes_resolved r4"
  proof -
    have "o_control r4 = o_control r3" "o_video_source r4 = o_video_source r3" unfolding r4(1) by simp_all
    with r4(2) show ?thesis by simp
  qed
  show "o_mouse_bindings r4 = o_mouse_bindings opts" unfolding r4(1) r3(1) r2(1) r1(2) r0(1) by simp
qed

definition early_ok :: "cli_env \<Rightarrow> scrcpy_options \<Rightarrow> bool" where
  "early_ok env opts \<longleftrightarrow> at_most_one_selector opts \<and> capture_ok env opts \<and>
     (o_audio_playback opts \<longrightarrow> o_audio_buffer opts \<noteq> - 1) \<and> (cli_v4l2 env opts \<longrightarrow> \<not> o_flex_display opts)"

lemma early_ok_updates:
  "early_ok env (opts\<lparr>o_mouse_bindings := mb\<rparr>) = early_ok env opts"
  "early_ok env (opts\<lparr>o_render_fit := f\<rparr>) = early_ok env opts"
  "early_ok env (opts\<lparr>o_force_adb_forward := b\<rparr>) = early_ok env opts"
  "early_ok env (opts\<lparr>o_keyboard_input_mode := k, o_mouse_input_mode := m, o_gamepad_input_mode := g\<rparr>) = early_ok env opts"
  "early_ok env (opts\<lparr>o_window_aspect_ratio_lock := b\<rparr>) = early_ok env opts"
  "early_ok env (opts\<lparr>o_audio_source := s\<rparr>) = early_ok env opts"
  "early_ok env (opts\<lparr>o_record_format := rf\<rparr>) = early_ok env opts"
  "early_ok env (opts\<lparr>o_start_fps_counter := b\<rparr>) = early_ok env opts"
  by (simp_all add: early_ok_def at_most_one_selector_def capture_ok_def cli_v4l2_def cli_otg_def)

definition inputs_ok :: "scrcpy_options \<Rightarrow> bool" where
  "inputs_ok opts \<longleftrightarrow> bindings_ok (o_mouse_bindings opts) \<and>
     (o_control opts \<longrightarrow> (if o_video_source opts = SC_VIDEO_SOURCE_CAMERA then inputs_disabled opts else modes_resolved opts)) \<and>
     (o_video_source opts = SC_VIDEO_SOURCE_DISPLAY \<longrightarrow>
        (o_keyboard_input_mode opts \<noteq> SC_KEYBOARD_INPUT_MODE_SDK \<longrightarrow>
           o_key_inject_mode opts = SC_KEY_INJECT_MODE_MIXED \<and> o_forward_key_repeat opts) \<and>
        (o_mouse_input_mode opts \<noteq> SC_MOUSE_INPUT_MODE_SDK \<longrightarrow> o_mouse_hover opts))"

definition display_ok :: "scrcpy_options \<Rightarrow> bool" where
  "display_ok opts \<longleftrightarrow> o_render_fit opts \<noteq> SC_RENDER_FIT_AUTO \<and>
     (o_new_display opts \<noteq> None \<longrightarrow> o_video_source opts = SC_VIDEO_SOURCE_DISPLAY \<and> o_video opts \<and> o_display_id opts = 0) \<and>
     (o_flex_display opts \<longrightarrow> o_new_display opts \<noteq> None \<and> o_control opts \<and> \<not> o_window_aspect_ratio_lock opts) \<and>
     (o_video_source opts = SC_VIDEO_SOURCE_CAMERA \<longrightarrow> o_display_id opts = 0)"

definition adb_ok :: "cli_env \<Rightarrow> scrcpy_options \<Rightarrow> bool" where
  "adb_ok env opts \<longleftrightarrow>
     (o_tunnel_host opts \<noteq> 0 \<or> o_tunnel_port opts \<noteq> 0 \<longrightarrow> o_force_adb_forward opts) \<and>
     (cli_otg env opts \<longrightarrow> otg_inputs_ok opts)"

lemma middle_checks:
  assumes "early_ok env r4" "bindings_given (o_mouse_bindings r4)"
    "o_control r4 \<and> o_video_source r4 = SC_VIDEO_SOURCE_DISPLAY \<longrightarrow> modes_resolved r4"
    "default_mouse_bindings r4 = Some (Some r5)" "check_new_display r5 = Some (Some r6)"
    "default_render_fit r6 = Some (Some r7)" "check_otg_inputs env r7 = Some (Some r8)"
    "check_sdk_options r8 = Some (Some r9)" "force_forward r9 = Some (Some r10)"
    "check_camera r10 = Some (Some r11)" "check_display r11 = Some (Some r12)"
  shows "early_ok env r12 \<and> inputs_ok r12 \<and> display_ok r12 \<and> adb_ok env r12"
proof -
  from leavesD [OF default_mouse_bindings_leaves assms(4)] assms(2) obtain mb where
    r5: "r5 = r4\<lparr>o_mouse_bindings := mb\<rparr>" "bindings_ok mb" by blast
  from leavesD [OF check_new_display_leaves assms(5)] have r6: "r6 = r5"
    "o_new_display r5 \<noteq> None \<longrightarrow> o_video_source r5 = SC_VIDEO_SOURCE_DISPLAY \<and> o_video r5" by blast+
  from leavesD [OF default_render_fit_leaves assms(6)] obtain f where
    r7: "r7 = r6\<lparr>o_render_fit := f\<rparr>" "f \<noteq> SC_RENDER_FIT_AUTO" by blast
  from leavesD [OF check_otg_inputs_leaves assms(7)] have r8: "r8 = r7" "cli_otg env r7 \<longrightarrow> otg_inputs_ok r7" by blast+
  from leavesD [OF check_sdk_options_leaves assms(8)] have r9: "r9 = r8"
    "o_keyboard_input_mode r8 \<noteq> SC_KEYBOARD_INPUT_MODE_SDK \<longrightarrow>
       o_key_inject_mode r8 = SC_KEY_INJECT_MODE_MIXED \<and> o_forward_key_repeat r8"
    "o_mouse_input_mode r8 \<noteq> SC_MOUSE_INPUT_MODE_SDK \<longrightarrow> o_mouse_hover r8" by blast+
  from leavesD [OF force_forward_leaves assms(9)] obtain b where r10: "r10 = r9\<lparr>o_force_adb_forward := b\<rparr>"
    "o_tunnel_host r9 \<noteq> 0 \<or> o_tunnel_port r9 \<noteq> 0 \<longrightarrow> b" by blast
  from leavesD [OF check_camera_leaves assms(10)] obtain k m g where
    r11: "r11 = r10\<lparr>o_keyboard_input_mode := k, o_mouse_input_mode := m, o_gamepad_input_mode := g\<rparr>"
    "if o_control r10 \<and> o_video_source r10 = SC_VIDEO_SOURCE_CAMERA then inputs_disabled r11 else r11 = r10"
    "o_video_source r10 = SC_VIDEO_SOURCE_CAMERA \<longrightarrow> o_display_id r10 = 0" by blast
  from leavesD [OF check_display_leaves assms(11)] obtain l where r12: "r12 = r11\<lparr>o_window_aspect_ratio_lock := l\<rparr>"
    "o_flex_display r11 \<longrightarrow> \<not> l \<and> o_new_display r11 \<noteq> None \<and> o_control r11"
    "o_new_display r11 \<noteq> None \<longrightarrow> o_display_id r11 = 0" by blast
  note r = r5(1) r6(1) r7(1) r8(1) r9(1) r10(1)
  have e: "early_ok env r12" using assms(1) unfolding r12(1) r11(1) r by (simp only: early_ok_updates)
  have d: "display_ok r12"
    using r6(2) r7(2) r11(3) r12(2,3) unfolding display_ok_def r12(1) r11(1) r by simp
  have src: "o_video_source r10 = o_video_source r4" "o_control r10 = o_control r4"
    "o_video_source r12 = o_video_source r4" "o_control r12 = o_control r4"
    unfolding r12(1) r11(1) r by simp_all
  have i: "inputs_ok r12 \<and> adb_ok env r12"
  proof (cases "o_control r4 \<and> o_video_source r4 = SC_VIDEO_SOURCE_CAMERA")
    case True
    then have "inputs_disabled r11" "o_video_source r12 \<noteq> SC_VIDEO_SOURCE_DISPLAY" using r11(2) src by simp_all
    then have "inputs_disabled r12" unfolding r12(1) inputs_disabled_def by simp
    moreover have "bindings_ok (o_mouse_bindings r12)" using r5(2) unfolding r12(1) r11(1) r by simp
    moreover have "o_tunnel_host r12 \<noteq> 0 \<or> o_tunnel_port r12 \<noteq> 0 \<longrightarrow> o_force_adb_forward r12"
      using r10(2) unfolding r12(1) r11(1) r by simp
    ultimately show ?thesis using True src \<open>o_video_source r12 \<noteq> _\<close>
      unfolding inputs_ok_def adb_ok_def otg_inputs_ok_def inputs_disabled_def by simp
  next
    case False
    then have r11: "r11 = r10" using r11(2) src by simp
    have m: "o_control r12 \<longrightarrow> modes_resolved r12" if "o_video_source r12 \<noteq> SC_VIDEO_SOURCE_CAMERA"
    proof -
      have "o_video_source r4 = SC_VIDEO_SOURCE_DISPLAY" using that src by (cases "o_video_source r4") simp_all
      moreover have "modes_resolved r12 = modes_resolved r4" unfolding r12(1) r11 r modes_resolved_def by simp
      ultimately show ?thesis using assms(3) src by simp
    qed
    have "inputs_ok r12"
      using m False src r5(2) r9(2,3) unfolding inputs_ok_def r12(1) r11 r by simp
    moreover have "adb_ok env r12"
      using r8(2) r10(2) unfolding adb_ok_def otg_inputs_ok_def cli_otg_def r12(1) r11 r by simp
    ultimately show ?thesis by blast
  qed
  from e i d show ?thesis by blast
qed

definition late_ok :: "cli_env \<Rightarrow> scrcpy_options \<Rightarrow> bool" where
  "late_ok env opts \<longleftrightarrow>
     (o_audio opts \<longrightarrow> o_audio_source opts \<noteq> SC_AUDIO_SOURCE_AUTO) \<and>
     (o_audio_dup opts \<longrightarrow> o_audio opts \<and> o_audio_source opts = SC_AUDIO_SOURCE_PLAYBACK) \<and>
     (\<not> o_control opts \<longrightarrow> actions_allowed opts \<and> o_start_app opts = None \<and> \<not> o_keep_active opts) \<and>
     (o_start_fps_counter opts \<longrightarrow> o_video_playback opts) \<and>
     (cli_otg env opts \<longrightarrow> actions_allowed opts \<and> o_record_filename opts = None \<and> o_display_id opts = 0 \<and> \<not> cli_v4l2 env opts)"

lemma last_checks:
  assumes "check_audio_source r12 = Some (Some r13)" "check_recording r13 = Some (Some r14)"
    "check_control r14 = Some (Some r15)" "check_windows_aoa env r15 = Some (Some r16)"
    "check_fps_counter r16 = Some (Some r17)" "check_otg env r17 = Some (Some r)"
  shows "recording_ok r \<and> late_ok env r \<and>
    (\<exists>as rf fc. r = r12\<lparr>o_audio_source := as, o_record_format := rf, o_start_fps_counter := fc\<rparr>)"
proof -
  from leavesD [OF check_audio_source_leaves assms(1)] obtain as where r13: "r13 = r12\<lparr>o_audio_source := as\<rparr>"
    "o_audio r12 \<longrightarrow> as \<noteq> SC_AUDIO_SOURCE_AUTO" "o_audio_dup r12 \<longrightarrow> o_audio r12 \<and> as = SC_AUDIO_SOURCE_PLAYBACK" by blast
  from leavesD [OF check_recording_leaves assms(2)] obtain rf where r14: "r14 = r13\<lparr>o_record_format := rf\<rparr>" "recording_ok r14"
    by blast
  from leavesD [OF check_control_leaves assms(3)] have r15: "r15 = r14"
    "\<not> o_control r14 \<longrightarrow> actions_allowed r14 \<and> o_start_app r14 = None \<and> \<not> o_keep_active r14" by blast+
  from leavesD [OF check_windows_aoa_leaves assms(4)] have r16: "r16 = r15" .
  from leavesD [OF check_fps_counter_leaves assms(5)] obtain fc where r17: "r17 = r16\<lparr>o_start_fps_counter := fc\<rparr>"
    "fc \<longrightarrow> o_video_playback r16" by blast
  from leavesD [OF check_otg_leaves assms(6)] have r: "r = r17" "cli_otg env r17 \<longrightarrow> actions_allowed r17 \<and>
    o_record_filename r17 = None \<and> o_display_id r17 = 0 \<and> \<not> cli_v4l2 env r17" by blast+
  have "recording_ok r = recording_ok r14"
    unfolding recording_ok_def record_codec_mismatch_def r(1) r17(1) r16 r15(1) by simp
  with r14(2) have "recording_ok r" by simp
  moreover have "late_ok env r"
    using r13(2,3) r15(2) r17(2) r(2)
    unfolding late_ok_def actions_allowed_def cli_otg_def cli_v4l2_def r(1) r17(1) r16 r15(1) r14(1) r13(1) by simp
  moreover have "\<exists>as rf fc. r = r12\<lparr>o_audio_source := as, o_record_format := rf, o_start_fps_counter := fc\<rparr>"
    unfolding r(1) r17(1) r16 r15(1) r14(1) r13(1) by (intro exI) (rule refl)
  ultimately show ?thesis by blast
qed

definition options_consistent :: "cli_env \<Rightarrow> scrcpy_options \<Rightarrow> bool" where
  "options_consistent env opts \<longleftrightarrow>
     early_ok env opts \<and> inputs_ok opts \<and> display_ok opts \<and> adb_ok env opts \<and> recording_ok opts \<and> late_ok env opts"

lemma checks_consistent:
  assumes "run_checks (cli_checks env) opts = Some (Some r)" "bindings_given (o_mouse_bindings opts)"
  shows "options_consistent env r"
proof -
  from assms(1) obtain r0 r1 r2 r3 r4 r5 r6 r7 r8 r9 r10 r11 r12 r13 r14 r15 r16 r17 where
    first: "check_selectors opts = Some (Some r0)" "check_streams env r0 = Some (Some r1)"
      "default_audio_buffer r1 = Some (Some r2)" "check_v4l2 env r2 = Some (Some r3)"
      "resolve_input_modes env r3 = Some (Some r4)" and
    middle: "default_mouse_bindings r4 = Some (Some r5)" "check_new_display r5 = Some (Some r6)"
      "default_render_fit r6 = Some (Some r7)" "check_otg_inputs env r7 = Some (Some r8)"
      "check_sdk_options r8 = Some (Some r9)" "force_forward r9 = Some (Some r10)"
      "check_camera r10 = Some (Some r11)" "check_display r11 = Some (Some r12)" and
    last: "check_audio_source r12 = Some (Some r13)" "check_recording r13 = Some (Some r14)"
      "check_control r14 = Some (Some r15)" "check_windows_aoa env r15 = Some (Some r16)"
      "check_fps_counter r16 = Some (Some r17)" "check_otg env r17 = Some (Some r)"
    unfolding cli_checks_def run_checks_Cons run_checks.simps(1) option.inject by blast
  note f = first_checks [OF first]
  have e4: "early_ok env r4" unfolding early_ok_def using f(1-4) by blast
  have b4: "bindings_given (o_mouse_bindings r4)" using f(6) assms(2) by simp
  from middle_checks [OF e4 b4 f(5) middle] have m: "early_ok env r12" "inputs_ok r12" "display_ok r12" "adb_ok env r12" by blast+
  from last_checks [OF last] obtain as rf fc where l: "recording_ok r" "late_ok env r"
    "r = r12\<lparr>o_audio_source := as, o_record_format := rf, o_start_fps_counter := fc\<rparr>" by blast
  have "early_ok env r" using m(1) unfolding l(3) by (simp only: early_ok_updates)
  moreover have "inputs_ok r = inputs_ok r12" unfolding l(3) inputs_ok_def inputs_disabled_def modes_resolved_def by simp
  moreover have "display_ok r" using m(3) unfolding l(3) display_ok_def by simp
  moreover have "adb_ok env r" using m(4) unfolding l(3) adb_ok_def otg_inputs_ok_def cli_otg_def by simp
  ultimately show ?thesis unfolding options_consistent_def using l(1,2) m(2) by blast
qed

end
