(* ===== verification/CliSafety.thy ===== *)
theory CliSafety
  imports CliChecks
begin

text \<open>
  \<^verbatim>\<open>scrcpy_parse_args\<close> (\<^verbatim>\<open>app/src/cli.c\<close>) on the results that \<^verbatim>\<open>getopt_long\<close> may return: the arguments stored are well
  formed, the program only aborts on an empty shortcut modifier, and accepted options are consistent.
\<close>

section \<open>What the switch stores\<close>

definition orientation_valid :: "u32 \<Rightarrow> bool" where
  "orientation_valid v \<longleftrightarrow> v AND NOT 7 = 0"

definition stored_ok :: "scrcpy_options \<Rightarrow> bool" where
  "stored_ok opts \<longleftrightarrow>
     (o_tcpip_dst opts \<noteq> None \<longrightarrow> o_tcpip opts) \<and>
     bindings_given (o_mouse_bindings opts) \<and>
     orientation_valid (o_record_orientation opts) \<and> orientation_valid (o_display_orientation opts) \<and>
     orientation_valid (o_capture_orientation opts) \<and>
     pr_first (o_port_range opts) \<le> pr_last (o_port_range opts) \<and>
     o_shortcut_mods opts \<noteq> {} \<and>
     o_min_size_alignment opts \<in> {1, 2, 4, 8, 16} \<and>
     - 1 \<le> o_audio_buffer opts \<and> o_audio_buffer opts \<le> 3600000000 \<and>
     0 \<le> o_audio_output_buffer opts \<and> o_audio_output_buffer opts \<le> 1000000"

definition handler_keeps :: "(scrcpy_options \<Rightarrow> bool) \<Rightarrow> cli_handler \<Rightarrow> bool" where
  "handler_keeps P h \<longleftrightarrow> (\<forall>arg a ok a'. P (a_opts a) \<longrightarrow> h arg a = Some (ok, a') \<longrightarrow> P (a_opts a'))"

lemma keeps_set_args: "(\<And>a. a_opts (f a) = a_opts a) \<Longrightarrow> handler_keeps P (set_args f)"
  by (auto simp: handler_keeps_def set_args_def)

lemma keeps_set_opts: "(\<And>opts. P opts \<Longrightarrow> P (f opts)) \<Longrightarrow> handler_keeps P (set_opts f)"
  by (auto simp: handler_keeps_def set_opts_def)

lemma keeps_set_string: "(\<And>s opts. P opts \<Longrightarrow> P (f s opts)) \<Longrightarrow> handler_keeps P (set_string f)"
  by (auto simp: handler_keeps_def set_string_def)

lemma keeps_set_parsed2: "(\<And>s v opts. parse s = Some (Some v) \<Longrightarrow> P opts \<Longrightarrow> P (f v opts)) \<Longrightarrow> handler_keeps P (set_parsed2 parse f)"
  by (auto simp: handler_keeps_def set_parsed2_def bind_eq_Some_conv split: option.splits)

lemma keeps_set_parsed: "(\<And>s v opts. parse s = Some v \<Longrightarrow> P opts \<Longrightarrow> P (f v opts)) \<Longrightarrow> handler_keeps P (set_parsed parse f)"
  unfolding set_parsed_def by (rule keeps_set_parsed2) simp

lemma keeps_if_built: "handler_keeps P h \<Longrightarrow> handler_keeps P (if_built b h)"
  by (auto simp: handler_keeps_def if_built_def)

lemma keeps_set_pause_on_exit: "handler_keeps P set_pause_on_exit"
  by (auto simp: handler_keeps_def set_pause_on_exit_def split: option.splits)

lemma keeps_set_key_inject_mode:
  "(\<And>opts. P opts \<Longrightarrow> P (opts\<lparr>o_key_inject_mode := m\<rparr>)) \<Longrightarrow> handler_keeps P (set_key_inject_mode m)"
  by (auto simp: handler_keeps_def set_key_inject_mode_def split: if_splits)

lemmas keeps_intros = keeps_set_args keeps_set_opts keeps_set_string keeps_set_parsed2 keeps_set_parsed keeps_if_built
  keeps_set_pause_on_exit keeps_set_key_inject_mode

lemma parsed_orientation: "parse_orientation s = Some v \<Longrightarrow> orientation_valid v"
  unfolding parse_orientation_def orientation_valid_def by (drule map_of_SomeD) (auto simp: orientation_defs)

lemma parsed_alignment:
  assumes "parse_min_size_alignment s = Some v"
  shows "v \<in> {1, 2, 4, 8, 16}"
proof -
  obtain n where n: "parse_integer_arg s False 1 16 = Some n" "n AND (n - 1) = 0" "v = word_of_int n"
    using assms by (auto simp: parse_min_size_alignment_def split: option.splits if_splits)
  from integer_arg_range [OF n(1)] have "n \<in> set [1..16]" by simp
  then have "n \<in> {1, 2, 3, 4, 5, 6, 7, 8, 9, 10, 11, 12, 13, 14, 15, 16}" by (simp add: upto.simps)
  with n(2,3) show ?thesis by (elim insertE emptyE) simp_all
qed

lemma parsed_bindings: "parse_mouse_bindings s = Some (Some mb) \<Longrightarrow> bindings_given mb"
proof -
  have b: "parse_mouse_binding c = Some x \<Longrightarrow> x \<noteq> SC_MOUSE_BINDING_AUTO" for c x
    by (auto simp: parse_mouse_binding_def split: if_splits)
  have "parse_mouse_binding_set t = Some (Some mbs) \<Longrightarrow> no_auto_in mbs" for t mbs
    by (auto simp: parse_mouse_binding_set_def bind_eq_Some_conv no_auto_in_def dest: b)
  then show "parse_mouse_bindings s = Some (Some mb) \<Longrightarrow> bindings_given mb"
    by (auto simp: parse_mouse_bindings_def Let_def bind_eq_Some_conv bindings_given_def bindings_ok_def
      split: option.splits if_splits)
qed

lemma parsed_capture: "parse_capture_orientation s = Some (Some v, l) \<Longrightarrow> orientation_valid v"
  by (auto simp: parse_capture_orientation_def dest: parsed_orientation split: list.splits if_splits)

lemma parsed_buffering: "parse_buffering_time s = Some t \<Longrightarrow> 0 \<le> t \<and> t \<le> 3600000000"
  by (auto simp: parse_buffering_time_def SC_TICK_FROM_MS_def dest!: integer_arg_range)

lemma parsed_output_buffer: "parse_audio_output_buffer s = Some t \<Longrightarrow> 0 \<le> t \<and> t \<le> 1000000"
  by (auto simp: parse_audio_output_buffer_def SC_TICK_FROM_MS_def dest!: integer_arg_range)

lemma parsed_mods: "parse_shortcut_mods s = Some (Some M) \<Longrightarrow> M \<noteq> {}"
  using mods_loop_cases [of s "{}"] by (auto simp: parse_shortcut_mods_def)

lemmas parsed = parsed_orientation parsed_alignment parsed_bindings parsed_capture parsed_buffering parsed_output_buffer
  parsed_mods port_range_ordered

lemma default_stored: "stored_ok scrcpy_options_default"
  by (simp add: stored_ok_def scrcpy_options_default_def bindings_given_def orientation_valid_def orientation_defs SC_TICK_FROM_MS_def)

lemma switch_1_keeps: "\<forall>(c, h) \<in> set (switch_cases_1 env). handler_keeps stored_ok h"
  unfolding switch_cases_1_def list.set ball_simps prod.case
  by (intro conjI TrueI; rule keeps_intros; simp add: stored_ok_def split: prod.splits option.splits; (blast dest: parsed)?)

lemma switch_2_keeps: "\<forall>(c, h) \<in> set (switch_cases_2 env). handler_keeps stored_ok h"
  unfolding switch_cases_2_def list.set ball_simps prod.case
  by (intro conjI TrueI; rule keeps_intros; simp add: stored_ok_def; (blast dest: parsed)?)

lemma switch_3_keeps: "\<forall>(c, h) \<in> set (switch_cases_3 env). handler_keeps stored_ok h"
  unfolding switch_cases_3_def list.set ball_simps prod.case
  by (intro conjI TrueI; (rule keeps_intros)+; simp add: stored_ok_def; (auto dest: parsed)?)

lemma switch_4_keeps: "\<forall>(c, h) \<in> set (switch_cases_4 env). handler_keeps stored_ok h"
  unfolding switch_cases_4_def list.set ball_simps prod.case
  by (intro conjI TrueI; rule keeps_intros; simp add: stored_ok_def; (auto dest: parsed)?)

lemma switch_keeps: "(c, h) \<in> set (switch_cases env) \<Longrightarrow> handler_keeps stored_ok h"
  using switch_1_keeps [of env] switch_2_keeps [of env] switch_3_keeps [of env] switch_4_keeps [of env]
  unfolding switch_cases_def set_append by blast

lemma getopt_loop_stored:
  "getopt_loop env results a = Some (ok, a') \<Longrightarrow> stored_ok (a_opts a) \<Longrightarrow> stored_ok (a_opts a')"
proof (induction results arbitrary: a)
  case (Cons r results)
  obtain c arg where r: "r = (c, arg)" by (cases r)
  show ?case
  proof (cases "map_of (switch_cases env) c")
    case None
    with Cons.prems r show ?thesis by simp
  next
    case (Some h)
    then have k: "handler_keeps stored_ok h" using map_of_SomeD switch_keeps by metis
    from Cons.prems(1) r Some obtain ok1 a1 where h: "h arg a = Some (ok1, a1)"
      "(if ok1 then getopt_loop env results a1 else Some (False, a1)) = Some (ok, a')"
      by (auto simp: bind_eq_Some_conv)
    then have "stored_ok (a_opts a1)" using k Cons.prems(2) unfolding handler_keeps_def by metis
    with h(2) Cons.IH [of a1] show ?thesis by (cases ok1) simp_all
  qed
qed simp

section \<open>What getopt returns\<close>

text \<open>The documented behaviour of \<^verbatim>\<open>getopt_long\<close>: it returns \<^verbatim>\<open>?\<close>, or the value of a long option or of a character of the
  string of short options, with an argument as declared.\<close>

fun optstring_args :: "int list \<Rightarrow> (int \<times> has_arg) list" where
  "optstring_args [] = []"
| "optstring_args (c # cs) =
     (if take 2 cs = [58, 58] then (c, Optional_argument) # optstring_args (drop 2 cs)
      else if take 1 cs = [58] then (c, Required_argument) # optstring_args (drop 1 cs)
      else (c, No_argument) # optstring_args cs)"

definition getopt_values :: "(int \<times> has_arg) list" where
  "getopt_values =
     (case create_longopts options of None \<Rightarrow> [] | Some ls \<Rightarrow> map (\<lambda>(n, h, v). (v, h)) ls)
     @ optstring_args (create_optstring options)"

fun argument_as :: "has_arg \<Rightarrow> byte_buf option \<Rightarrow> bool" where
  "argument_as No_argument arg \<longleftrightarrow> arg = None"
| "argument_as Required_argument arg \<longleftrightarrow> arg \<noteq> None"
| "argument_as Optional_argument arg \<longleftrightarrow> True"

definition getopt_returns :: "int \<times> byte_buf option \<Rightarrow> bool" where
  "getopt_returns = (\<lambda>(c, arg). c = 63 \<or> (\<exists>(v, h) \<in> set getopt_values. v = c \<and> argument_as h arg))"

definition required :: "int \<Rightarrow> bool" where
  "required c \<longleftrightarrow> c \<notin> set (map fst (filter (\<lambda>(v, h). h \<noteq> Required_argument) getopt_values)) \<and> c \<noteq> 63"

lemma adapter_created: "create_longopts options \<noteq> None"
  by code_simp

lemma not_required_codes:
  "map fst (filter (\<lambda>(v, h). h \<noteq> Required_argument) getopt_values) =
    [OPT_ALWAYS_ON_TOP, OPT_AUDIO_DUP, OPT_CAMERA_HIGH_SPEED, OPT_CAMERA_TORCH, SHORT_d,
     OPT_DISABLE_SCREENSAVER, SHORT_e, SHORT_f, OPT_FORCE_ADB_FORWARD, SHORT_h,
     OPT_IGNORE_VIDEO_ENCODER_CONSTRAINTS, OPT_KEEP_ACTIVE, OPT_KILL_ADB_ON_CLOSE, OPT_LEGACY_PASTE,
     OPT_LIST_APPS, OPT_LIST_CAMERAS, OPT_LIST_CAMERA_SIZES, OPT_LIST_DISPLAYS, OPT_LIST_ENCODERS,
     SHORT_n, SHORT_N, OPT_NEW_DISPLAY, OPT_NO_AUDIO, OPT_NO_AUDIO_PLAYBACK, OPT_NO_CLEANUP,
     OPT_NO_CLIPBOARD_AUTOSYNC, OPT_NO_DOWNSIZE_ON_ERROR, OPT_NO_KEY_REPEAT, OPT_NO_MIPMAPS,
     OPT_NO_MOUSE_HOVER, OPT_NO_POWER_ON, OPT_NO_TERMINAL_TITLE, OPT_NO_VD_DESTROY_CONTENT,
     OPT_NO_VD_SYSTEM_DECORATIONS, OPT_NO_VIDEO, OPT_NO_VIDEO_PLAYBACK, OPT_NO_WINDOW,
     OPT_NO_WINDOW_ASPECT_RATIO_LOCK, OPT_OTG, OPT_PAUSE_ON_EXIT, OPT_POWER_OFF_ON_CLOSE, OPT_PREFER_TEXT,
     OPT_PRINT_FPS, OPT_RAW_KEY_EVENTS, OPT_REQUIRE_AUDIO, SHORT_S, SHORT_t, OPT_TCPIP, SHORT_v, SHORT_w,
     OPT_WINDOW_BORDERLESS, SHORT_x, SHORT_d, SHORT_e, SHORT_f, SHORT_G, SHORT_h, SHORT_K, SHORT_M,
     SHORT_n, SHORT_N, SHORT_S, SHORT_t, SHORT_v, SHORT_w, SHORT_x]"
  by (simp add: getopt_values_def options_def create_longopt_def)

lemma required_codes [simp]:
  "required SHORT_b"
  "required OPT_AUDIO_BIT_RATE"
  "required OPT_DISPLAY_ID"
  "required OPT_RECORD_FORMAT"
  "required OPT_KEYBOARD"
  "required SHORT_m"
  "required OPT_MOUSE"
  "required OPT_MOUSE_BIND"
  "required OPT_CAPTURE_ORIENTATION"
  "required OPT_TUNNEL_HOST"
  "required OPT_TUNNEL_PORT"
  "required SHORT_p"
  "required SHORT_V"
  "required OPT_WINDOW_X"
  "required OPT_WINDOW_Y"
  "required OPT_WINDOW_WIDTH"
  "required OPT_WINDOW_HEIGHT"
  "required OPT_DISPLAY_ORIENTATION"
  "required OPT_RECORD_ORIENTATION"
  "required OPT_ORIENTATION"
  "required OPT_SHORTCUT_MOD"
  "required OPT_VIDEO_BUFFER"
  "required OPT_VIDEO_CODEC"
  "required OPT_AUDIO_CODEC"
  "required OPT_V4L2_BUFFER"
  "required OPT_AUDIO_BUFFER"
  "required OPT_AUDIO_OUTPUT_BUFFER"
  "required OPT_VIDEO_SOURCE"
  "required OPT_AUDIO_SOURCE"
  "required OPT_TIME_LIMIT"
  "required OPT_CAMERA_FACING"
  "required OPT_CAMERA_FPS"
  "required OPT_GAMEPAD"
  "required OPT_SCREEN_OFF_TIMEOUT"
  "required OPT_DISPLAY_IME_POLICY"
  "required OPT_MIN_SIZE_ALIGNMENT"
  "required OPT_BACKGROUND_COLOR"
  "required OPT_RENDER_FIT"
  unfolding required_def not_required_codes by simp_all

lemma required_arg:
  assumes "getopt_returns (c, arg)" "required c"
  shows "arg \<noteq> None"
proof -
  obtain h where h: "(c, h) \<in> set getopt_values" "argument_as h arg"
    using assms unfolding getopt_returns_def required_def by blast
  have "h = Required_argument"
  proof (rule ccontr)
    assume "h \<noteq> Required_argument"
    with h(1) have "fst (c, h) \<in> fst ` set (filter (\<lambda>(v, h). h \<noteq> Required_argument) getopt_values)" by (intro imageI) simp
    with assms(2) show False unfolding required_def set_map fst_conv by blast
  qed
  with h(2) show ?thesis by simp
qed

end
