(* ===== verification/CliArgs.thy ===== *)
theory CliArgs
  imports CliSafety
begin

text \<open>
  The results for \<^verbatim>\<open>scrcpy_parse_args\<close> (\<^verbatim>\<open>app/src/cli.c\<close>): it ends without abort except for an empty shortcut modifier,
  the options it accepts are consistent, and the choice to pause on exit is always made.
\<close>

section \<open>No abort in the switch\<close>

definition empty_mod :: "byte_buf option \<Rightarrow> bool" where
  "empty_mod arg \<longleftrightarrow> (\<exists>ms r. arg = Some (mod_items ms @ 44 # r))"

text \<open>An argument that the handler of a case can take.\<close>

definition takes :: "int \<Rightarrow> cli_handler \<Rightarrow> bool" where
  "takes c h \<longleftrightarrow> (\<forall>arg a. (required c \<longrightarrow> arg \<noteq> None) \<longrightarrow> \<not> (c = OPT_SHORTCUT_MOD \<and> empty_mod arg) \<longrightarrow> h arg a \<noteq> None)"

lemma takes_simple:
  "takes c (set_args f)" "takes c (set_opts k)" "takes c (set_string g)" "takes c set_pause_on_exit"
  "takes c (set_key_inject_mode m)"
  by (simp_all add: takes_def set_args_def set_opts_def set_string_def set_pause_on_exit_def set_key_inject_mode_def)

lemma takes_if_built: "takes c h \<Longrightarrow> takes c (if_built b h)"
  by (simp add: takes_def if_built_def)

lemma takes_set_parsed2: "required c \<Longrightarrow> (\<And>s. parse s \<noteq> None) \<Longrightarrow> takes c (set_parsed2 parse f)"
  by (auto simp: takes_def set_parsed2_def bind_eq_None_conv)

lemma takes_set_parsed: "required c \<Longrightarrow> takes c (set_parsed parse f)"
  unfolding set_parsed_def by (rule takes_set_parsed2) simp_all

lemma takes_shortcut_mods: "takes OPT_SHORTCUT_MOD (set_parsed2 parse_shortcut_mods f)"
proof -
  have "parse_shortcut_mods s = None \<longleftrightarrow> empty_mod (Some s)" for s
    using mods_loop_cases [of s "{}"] by (auto simp: parse_shortcut_mods_def empty_mod_def mods_loop_items mods_loop_step(1) [of "[]", simplified])
  then show ?thesis by (auto simp: takes_def set_parsed2_def bind_eq_None_conv)
qed

lemma integers_loop_total:
  "length out < max_items \<Longrightarrow> \<exists>r. parse_integers_loop s sep max_items out = Some r \<and>
     (\<forall>vs. r = Some vs \<longrightarrow> vs \<noteq> [] \<and> length vs \<le> max_items)"
proof (induction s sep max_items out rule: parse_integers_loop.induct)
  case (1 s sep max_items out)
  show ?case
    using 1 by (subst parse_integers_loop.simps) (auto simp: Let_def split: prod.splits)
qed

lemma port_range_total: "parse_port_range s \<noteq> None"
proof -
  obtain r where r: "parse_integers_arg s 58 2 0 0xFFFF = Some r" "\<forall>vs. r = Some vs \<longrightarrow> vs \<noteq> [] \<and> length vs \<le> 2"
    using integers_loop_total [of "[]" 2 s 58] by (auto simp: parse_integers_arg_def sc_str_parse_integers_def split: option.splits)
  show ?thesis
  proof (cases r)
    case (Some vs)
    with r(2) obtain a b where "vs = [a] \<or> vs = [a, b]"
      by (cases vs; cases "tl vs") (auto simp: le_Suc_eq numeral_2_eq_2)
    with r(1) Some show ?thesis by (auto simp: parse_port_range_def mem_get_def Let_def)
  qed (use r(1) in \<open>simp add: parse_port_range_def\<close>)
qed

lemma mouse_bindings_total: "parse_mouse_bindings s \<noteq> None"
  by (auto simp: parse_mouse_bindings_def parse_mouse_binding_set_def Let_def bind_eq_None_conv split: option.splits)

lemmas takes_intros = takes_simple takes_shortcut_mods takes_if_built takes_set_parsed
  takes_set_parsed2 [where parse = parse_port_range] takes_set_parsed2 [where parse = parse_mouse_bindings]

lemma switch_1_takes: "\<forall>(c, h) \<in> set (switch_cases_1 env). takes c h"
  unfolding switch_cases_1_def list.set ball_simps prod.case
  by (intro conjI TrueI) (rule takes_intros | rule required_codes | rule port_range_total | rule mouse_bindings_total)+

lemma switch_2_takes: "\<forall>(c, h) \<in> set (switch_cases_2 env). takes c h"
  unfolding switch_cases_2_def list.set ball_simps prod.case
  by (intro conjI TrueI) (rule takes_intros | rule required_codes | rule port_range_total | rule mouse_bindings_total)+

lemma switch_3_takes: "\<forall>(c, h) \<in> set (switch_cases_3 env). takes c h"
  unfolding switch_cases_3_def list.set ball_simps prod.case
  by (intro conjI TrueI) (rule takes_intros | rule required_codes | rule port_range_total | rule mouse_bindings_total)+

lemma switch_4_takes: "\<forall>(c, h) \<in> set (switch_cases_4 env). takes c h"
  unfolding switch_cases_4_def list.set ball_simps prod.case
  by (intro conjI TrueI) (rule takes_intros | rule required_codes | rule port_range_total | rule mouse_bindings_total)+

lemma switch_takes: "(c, h) \<in> set (switch_cases env) \<Longrightarrow> takes c h"
  using switch_1_takes [of env] switch_2_takes [of env] switch_3_takes [of env] switch_4_takes [of env]
  unfolding switch_cases_def set_append by blast

lemma getopt_loop_total:
  "\<forall>r \<in> set results. getopt_returns r \<Longrightarrow> \<forall>(c, arg) \<in> set results. \<not> (c = OPT_SHORTCUT_MOD \<and> empty_mod arg) \<Longrightarrow>
   getopt_loop env results a \<noteq> None"
proof (induction results arbitrary: a)
  case (Cons r results)
  obtain c arg where r: "r = (c, arg)" by (cases r)
  show ?case
  proof (cases "map_of (switch_cases env) c")
    case (Some h)
    have t: "takes c h" by (rule switch_takes [OF map_of_SomeD [OF Some]])
    have q: "required c \<longrightarrow> arg \<noteq> None" using required_arg [of c arg] Cons.prems(1) unfolding r list.set by blast
    have e: "\<not> (c = OPT_SHORTCUT_MOD \<and> empty_mod arg)" using Cons.prems(2) unfolding r list.set by blast
    from t q e have "h arg a \<noteq> None" unfolding takes_def by blast
    then obtain ok a1 where h: "h arg a = Some (ok, a1)" by (cases "h arg a") auto
    have "getopt_loop env results a1 \<noteq> None"
      by (rule Cons.IH) (use Cons.prems in \<open>unfold list.set, blast\<close>)+
    with Some h show ?thesis by (cases ok) (simp_all add: r)
  qed (use r in simp)
qed simp

section \<open>No abort in the checks\<close>

definition check_ready :: "scrcpy_options \<Rightarrow> bool" where
  "check_ready opts \<longleftrightarrow> (o_tcpip_dst opts \<noteq> None \<longrightarrow> o_tcpip opts) \<and> bindings_given (o_mouse_bindings opts) \<and>
     orientation_valid (o_record_orientation opts)"

lemma stored_ready: "stored_ok opts \<Longrightarrow> check_ready opts"
  by (simp add: stored_ok_def check_ready_def)

lemma ready_updates:
  "check_ready (opts\<lparr>o_video_playback := vp, o_power_on := po, o_audio_playback := ap, o_video := v, o_audio := a,
     o_require_audio := ra\<rparr>) = check_ready opts"
  "check_ready (opts\<lparr>o_audio_buffer := ab\<rparr>) = check_ready opts"
  "check_ready (opts\<lparr>o_downsize_on_error := b\<rparr>) = check_ready opts"
  "check_ready (opts\<lparr>o_keyboard_input_mode := k, o_mouse_input_mode := m, o_gamepad_input_mode := g\<rparr>) = check_ready opts"
  "check_ready (opts\<lparr>o_render_fit := f\<rparr>) = check_ready opts"
  "check_ready (opts\<lparr>o_force_adb_forward := b\<rparr>) = check_ready opts"
  "check_ready (opts\<lparr>o_window_aspect_ratio_lock := b\<rparr>) = check_ready opts"
  "check_ready (opts\<lparr>o_audio_source := s\<rparr>) = check_ready opts"
  "check_ready (opts\<lparr>o_record_format := rf\<rparr>) = check_ready opts"
  "check_ready (opts\<lparr>o_start_fps_counter := b\<rparr>) = check_ready opts"
  by (simp_all add: check_ready_def)

text \<open>A check that does not abort on options that are ready and leaves them ready.\<close>

definition good_check :: "cli_check \<Rightarrow> bool" where
  "good_check f \<longleftrightarrow> (\<forall>opts. check_ready opts \<longrightarrow> f opts \<noteq> None \<and> leaves check_ready (f opts))"

definition completes :: "'a option \<Rightarrow> bool" where
  "completes y \<longleftrightarrow> y \<noteq> None"

lemma completes_simps [simp]:
  "completes (Some x)" "completes (refuse_if b opts)" "completes (if b then y else z) = ((b \<longrightarrow> completes y) \<and> (\<not> b \<longrightarrow> completes z))"
  by (simp_all add: completes_def refuse_if_def)

lemma good_checkI:
  assumes "\<And>opts. check_ready opts \<Longrightarrow> completes (f opts)"
    "\<And>opts r. check_ready opts \<Longrightarrow> f opts = Some (Some r) \<Longrightarrow> check_ready r"
  shows "good_check f"
  using assms unfolding good_check_def leaves_def completes_def by blast

lemma run_checks_total: "\<forall>f \<in> set fs. good_check f \<Longrightarrow> check_ready opts \<Longrightarrow> run_checks fs opts \<noteq> None"
proof (induction fs arbitrary: opts)
  case (Cons f fs)
  then have f: "f opts \<noteq> None" "leaves check_ready (f opts)" unfolding good_check_def by auto
  then obtain r where r: "f opts = Some r" by blast
  show ?case
  proof (cases r)
    case (Some opts')
    with f r have "check_ready opts'" by simp
    with Cons have "run_checks fs opts' \<noteq> None" by simp
    with r Some show ?thesis by simp
  qed (use r in simp)
qed simp

lemma good_selectors: "good_check check_selectors"
proof (rule good_checkI)
  fix opts show "check_ready opts \<Longrightarrow> completes (check_selectors opts)"
    unfolding check_selectors_def check_ready_def Let_def by (cases "o_tcpip_dst opts") simp_all
  fix r assume "check_ready opts" "check_selectors opts = Some (Some r)"
  with leavesD [OF check_selectors_leaves this(2)] show "check_ready r" by blast
qed

lemma good_streams: "good_check (check_streams env)"
proof (rule good_checkI)
  fix opts show "completes (check_streams env opts)" unfolding check_streams_def Let_def by simp
  fix r assume "check_ready opts" "check_streams env opts = Some (Some r)"
  from check_streams_fx [OF this(2)] obtain vp po v ap a ra where "r = opts\<lparr>o_video_playback := vp, o_power_on := po,
    o_audio_playback := ap, o_video := v, o_audio := a, o_require_audio := ra\<rparr>" by blast
  with \<open>check_ready opts\<close> show "check_ready r" by (simp only: ready_updates)
qed

lemma good_mouse_bindings: "good_check default_mouse_bindings"
proof (rule good_checkI)
  fix opts assume r: "check_ready opts"
  then have b: "bindings_given (o_mouse_bindings opts)" unfolding check_ready_def by blast
  define mb where "mb = o_mouse_bindings opts"
  have "right_click (bind_pri mb) \<noteq> SC_MOUSE_BINDING_AUTO \<or> bind_pri mb = auto_bindings \<and> bind_sec mb = auto_bindings"
    using b unfolding mb_def [symmetric] bindings_given_def bindings_ok_def no_auto_in_def by auto
  then show "completes (default_mouse_bindings opts)"
    unfolding default_mouse_bindings_def Let_def mb_def [symmetric] by auto
  fix r assume "default_mouse_bindings opts = Some (Some r)"
  from leavesD [OF default_mouse_bindings_leaves this] b obtain mb where
    "r = opts\<lparr>o_mouse_bindings := mb\<rparr>" "bindings_ok mb" by blast
  with r show "check_ready r" by (simp add: check_ready_def bindings_given_def)
qed

lemma good_recording: "good_check check_recording"
proof (rule good_checkI)
  fix opts assume r: "check_ready opts"
  have m: "completes (sc_orientation_is_mirror (o_record_orientation opts))"
    using r by (simp add: check_ready_def orientation_valid_def sc_orientation_is_mirror_def)
  have bind: "completes y \<Longrightarrow> completes (y \<bind> (\<lambda>mirror. refuse_if (P mirror) x))" for y :: "bool option" and P x
    by (cases y) (simp_all add: completes_def refuse_if_def)
  show "completes (check_recording opts)"
  proof (cases "o_record_filename opts")
    case (Some name)
    define m1 where "m1 = (if o_record_format opts = SC_RECORD_FORMAT_AUTO then opts\<lparr>o_record_format := guess_record_format name\<rparr> else opts)"
    have "o_record_orientation m1 = o_record_orientation opts" unfolding m1_def by simp
    with m have q: "completes (if o_record_orientation m1 \<noteq> SC_ORIENTATION_0 then sc_orientation_is_mirror (o_record_orientation m1)
      else Some False)" by simp
    show ?thesis
      unfolding check_recording_def Some option.case unfolding Let_def m1_def [symmetric] completes_simps(3)
      by (intro conjI impI completes_simps(1)) (rule bind [OF q])
  qed (simp add: check_recording_def)
  fix r assume "check_recording opts = Some (Some r)"
  from leavesD [OF check_recording_leaves this] obtain f where "r = opts\<lparr>o_record_format := f\<rparr>" by blast
  with \<open>check_ready opts\<close> show "check_ready r" by (simp only: ready_updates)
qed

lemma good_audio_buffer: "good_check default_audio_buffer"
proof (rule good_checkI)
  fix opts show "completes (default_audio_buffer opts)" unfolding default_audio_buffer_def Let_def by simp
  fix r assume "check_ready opts" "default_audio_buffer opts = Some (Some r)"
  from leavesD [OF default_audio_buffer_leaves this(2)] obtain v where "r = opts\<lparr>o_audio_buffer := v\<rparr>" by blast
  with \<open>check_ready opts\<close> show "check_ready r" by (simp only: ready_updates)
qed

lemma good_v4l2: "good_check (check_v4l2 env)"
proof (rule good_checkI)
  fix opts show "completes (check_v4l2 env opts)" unfolding check_v4l2_def Let_def by simp
  fix r assume "check_ready opts" "check_v4l2 env opts = Some (Some r)"
  from leavesD [OF check_v4l2_leaves this(2)] obtain v where "r = opts\<lparr>o_downsize_on_error := v\<rparr>" by blast
  with \<open>check_ready opts\<close> show "check_ready r" by (simp only: ready_updates)
qed

lemma good_input_modes: "good_check (resolve_input_modes env)"
proof (rule good_checkI)
  fix opts show "completes (resolve_input_modes env opts)" unfolding resolve_input_modes_def Let_def by simp
  fix r assume "check_ready opts" "resolve_input_modes env opts = Some (Some r)"
  from leavesD [OF resolve_input_modes_leaves this(2)] obtain k m g where "r = opts\<lparr>o_keyboard_input_mode := k, o_mouse_input_mode := m, o_gamepad_input_mode := g\<rparr>" by blast
  with \<open>check_ready opts\<close> show "check_ready r" by (simp only: ready_updates)
qed

lemma good_new_display: "good_check check_new_display"
proof (rule good_checkI)
  fix opts show "completes (check_new_display opts)" unfolding check_new_display_def Let_def by simp
  fix r assume "check_ready opts" "check_new_display opts = Some (Some r)"
  with leavesD [OF check_new_display_leaves this(2)] show "check_ready r" by blast
qed

lemma good_render_fit: "good_check default_render_fit"
proof (rule good_checkI)
  fix opts show "completes (default_render_fit opts)" unfolding default_render_fit_def Let_def by simp
  fix r assume "check_ready opts" "default_render_fit opts = Some (Some r)"
  from leavesD [OF default_render_fit_leaves this(2)] obtain v where "r = opts\<lparr>o_render_fit := v\<rparr>" by blast
  with \<open>check_ready opts\<close> show "check_ready r" by (simp only: ready_updates)
qed

lemma good_otg_inputs: "good_check (check_otg_inputs env)"
proof (rule good_checkI)
  fix opts show "completes (check_otg_inputs env opts)" unfolding check_otg_inputs_def Let_def by simp
  fix r assume "check_ready opts" "check_otg_inputs env opts = Some (Some r)"
  with leavesD [OF check_otg_inputs_leaves this(2)] show "check_ready r" by blast
qed

lemma good_sdk_options: "good_check check_sdk_options"
proof (rule good_checkI)
  fix opts show "completes (check_sdk_options opts)" unfolding check_sdk_options_def Let_def by simp
  fix r assume "check_ready opts" "check_sdk_options opts = Some (Some r)"
  with leavesD [OF check_sdk_options_leaves this(2)] show "check_ready r" by blast
qed

lemma good_force_forward: "good_check force_forward"
proof (rule good_checkI)
  fix opts show "completes (force_forward opts)" unfolding force_forward_def Let_def by simp
  fix r assume "check_ready opts" "force_forward opts = Some (Some r)"
  from leavesD [OF force_forward_leaves this(2)] obtain v where "r = opts\<lparr>o_force_adb_forward := v\<rparr>" by blast
  with \<open>check_ready opts\<close> show "check_ready r" by (simp only: ready_updates)
qed

lemma good_camera: "good_check check_camera"
proof (rule good_checkI)
  fix opts show "completes (check_camera opts)" unfolding check_camera_def Let_def by simp
  fix r assume "check_ready opts" "check_camera opts = Some (Some r)"
  from leavesD [OF check_camera_leaves this(2)] obtain k m g where "r = opts\<lparr>o_keyboard_input_mode := k, o_mouse_input_mode := m, o_gamepad_input_mode := g\<rparr>" by blast
  with \<open>check_ready opts\<close> show "check_ready r" by (simp only: ready_updates)
qed

lemma good_display: "good_check check_display"
proof (rule good_checkI)
  fix opts show "completes (check_display opts)" unfolding check_display_def Let_def by simp
  fix r assume "check_ready opts" "check_display opts = Some (Some r)"
  from leavesD [OF check_display_leaves this(2)] obtain v where "r = opts\<lparr>o_window_aspect_ratio_lock := v\<rparr>" by blast
  with \<open>check_ready opts\<close> show "check_ready r" by (simp only: ready_updates)
qed

lemma good_audio_source: "good_check check_audio_source"
proof (rule good_checkI)
  fix opts show "completes (check_audio_source opts)" unfolding check_audio_source_def Let_def by simp
  fix r assume "check_ready opts" "check_audio_source opts = Some (Some r)"
  from leavesD [OF check_audio_source_leaves this(2)] obtain v where "r = opts\<lparr>o_audio_source := v\<rparr>" by blast
  with \<open>check_ready opts\<close> show "check_ready r" by (simp only: ready_updates)
qed

lemma good_control: "good_check check_control"
proof (rule good_checkI)
  fix opts show "completes (check_control opts)" unfolding check_control_def Let_def by simp
  fix r assume "check_ready opts" "check_control opts = Some (Some r)"
  with leavesD [OF check_control_leaves this(2)] show "check_ready r" by blast
qed

lemma good_windows_aoa: "good_check (check_windows_aoa env)"
proof (rule good_checkI)
  fix opts show "completes (check_windows_aoa env opts)" unfolding check_windows_aoa_def Let_def by simp
  fix r assume "check_ready opts" "check_windows_aoa env opts = Some (Some r)"
  with leavesD [OF check_windows_aoa_leaves this(2)] show "check_ready r" by blast
qed

lemma good_fps_counter: "good_check check_fps_counter"
proof (rule good_checkI)
  fix opts show "completes (check_fps_counter opts)" unfolding check_fps_counter_def Let_def by simp
  fix r assume "check_ready opts" "check_fps_counter opts = Some (Some r)"
  from leavesD [OF check_fps_counter_leaves this(2)] obtain v where "r = opts\<lparr>o_start_fps_counter := v\<rparr>" by blast
  with \<open>check_ready opts\<close> show "check_ready r" by (simp only: ready_updates)
qed

lemma good_otg: "good_check (check_otg env)"
proof (rule good_checkI)
  fix opts show "completes (check_otg env opts)" unfolding check_otg_def Let_def by simp
  fix r assume "check_ready opts" "check_otg env opts = Some (Some r)"
  with leavesD [OF check_otg_leaves this(2)] show "check_ready r" by blast
qed

lemma good_checks: "\<forall>f \<in> set (cli_checks env). good_check f"
  unfolding cli_checks_def list.set ball_simps
  by (intro conjI TrueI good_selectors good_streams good_audio_buffer good_v4l2 good_input_modes good_mouse_bindings
    good_new_display good_render_fit good_otg_inputs good_sdk_options good_force_forward good_camera good_display
    good_audio_source good_recording good_control good_windows_aoa good_fps_counter good_otg)

section \<open>Every declared option is handled\<close>

text \<open>The values that \<^verbatim>\<open>getopt_long\<close> may return for the table are exactly the cases of the switch.\<close>

lemma every_option_handled: "set (map fst getopt_values) = set (map fst (switch_cases env))"
proof
  show "set (map fst getopt_values) \<subseteq> set (map fst (switch_cases env))"
    by (simp add: getopt_values_def options_def create_longopt_def switch_cases_def switch_cases_1_def switch_cases_2_def
      switch_cases_3_def switch_cases_4_def)
  show "set (map fst (switch_cases env)) \<subseteq> set (map fst getopt_values)"
    by (simp add: getopt_values_def options_def create_longopt_def switch_cases_def switch_cases_1_def switch_cases_2_def
      switch_cases_3_def switch_cases_4_def)
qed

section \<open>Results\<close>

definition initial_args :: scrcpy_cli_args where
  "initial_args = \<lparr>a_opts = scrcpy_options_default, a_help = False, a_version = False,
     a_pause_on_exit = SC_PAUSE_ON_EXIT_UNDEFINED\<rparr>"

lemma parse_args_cases:
  assumes "\<forall>r \<in> set results. getopt_returns r" "\<forall>(c, arg) \<in> set results. \<not> (c = OPT_SHORTCUT_MOD \<and> empty_mod arg)"
    "stored_ok (a_opts a)"
  obtains (refused) a' where "parse_args_with_getopt env results extra a = Some (False, a')"
  | (accepted) a1 opts where "parse_args_with_getopt env results extra a = Some (True, a1\<lparr>a_opts := opts\<rparr>)"
      "stored_ok (a_opts a1)" "run_checks (cli_checks env) (a_opts a1) = Some (Some opts)"
proof -
  obtain ok a1 where l: "getopt_loop env results a = Some (ok, a1)"
    using getopt_loop_total [OF assms(1,2), of env a] by fast
  have st: "stored_ok (a_opts a1)" by (rule getopt_loop_stored [OF l assms(3)])
  show ?thesis
  proof (cases "\<not> ok \<or> extra")
    case True
    with l have "parse_args_with_getopt env results extra a = Some (False, a1)" by (auto simp: parse_args_with_getopt_def)
    then show ?thesis by (rule refused)
  next
    case False
    obtain r where r: "run_checks (cli_checks env) (a_opts a1) = Some r"
      using run_checks_total [OF good_checks stored_ready [OF st], of env] by blast
    show ?thesis
    proof (cases r)
      case None
      with l r False have "parse_args_with_getopt env results extra a = Some (False, a1)" by (simp add: parse_args_with_getopt_def)
      then show ?thesis by (rule refused)
    next
      case (Some opts)
      with l r False have "parse_args_with_getopt env results extra a = Some (True, a1\<lparr>a_opts := opts\<rparr>)"
        by (simp add: parse_args_with_getopt_def)
      with st r Some show ?thesis by (intro accepted) simp_all
    qed
  qed
qed

text \<open>C17. Whatever \<^verbatim>\<open>getopt_long\<close> returns for the options declared to it, parsing the command line does not abort (no
  assertion fails, no missing argument is read), unless the value of \<^verbatim>\<open>--shortcut-mod\<close> has an empty item before a comma;
  the choice to pause on exit is then made.\<close>

theorem command_line_safe:
  assumes "\<forall>r \<in> set results. getopt_returns r"
    "\<forall>(c, arg) \<in> set results. \<not> (c = OPT_SHORTCUT_MOD \<and> empty_mod arg)" "env_adapter_ok env"
  shows "\<exists>ok a. scrcpy_parse_args env results extra argv initial_args = Some (ok, a) \<and>
    a_pause_on_exit a \<noteq> SC_PAUSE_ON_EXIT_UNDEFINED"
proof -
  have "stored_ok (a_opts initial_args)" by (simp add: initial_args_def default_stored)
  then obtain ret a where "parse_args_with_getopt env results extra initial_args = Some (ret, a)"
    using parse_args_cases [OF assms(1,2)] by metis
  then show ?thesis
    using assms(3) by (cases "sc_get_pause_on_exit argv"; cases "a_pause_on_exit a"; cases ret) (simp_all add: scrcpy_parse_args_def Let_def)
qed

text \<open>C18. Options that are accepted are consistent, whatever combination was given: at most one device selector; a stream is only
  captured if it is used, and played only if captured; no input mode in use, binding, audio source, container or fit of
  the video is left to be chosen; the SDK mouse has a video to point at; a recording has a container that fits its streams and codecs; OTG mode has only
  AOA inputs and nothing that needs the server.\<close>

theorem accepted_options_consistent:
  assumes "\<forall>r \<in> set results. getopt_returns r"
    "\<forall>(c, arg) \<in> set results. \<not> (c = OPT_SHORTCUT_MOD \<and> empty_mod arg)"
    "scrcpy_parse_args env results extra argv initial_args = Some (True, a)"
  shows "options_consistent env (a_opts a)"
proof -
  have s: "stored_ok (a_opts initial_args)" by (simp add: initial_args_def default_stored)
  from assms(1,2) s show ?thesis
  proof (cases rule: parse_args_cases [where env = env and extra = extra])
    case (refused a')
    with assms(3) show ?thesis by (auto simp: scrcpy_parse_args_def Let_def bind_eq_Some_conv split: if_splits)
  next
    case (accepted a1 opts)
    have "a_opts a = opts" using assms(3) accepted(1)
      by (auto simp: scrcpy_parse_args_def Let_def bind_eq_Some_conv split: if_splits)
    moreover have "options_consistent env opts"
      by (rule checks_consistent [OF accepted(3)]) (use accepted(2) in \<open>simp add: stored_ok_def\<close>)
    ultimately show ?thesis by simp
  qed
qed

section \<open>Examples\<close>

definition demo_cli_env :: cli_env where
  "demo_cli_env = \<lparr>have_usb = True, have_v4l2 = True, env_win32 = False, env_inet_pton = (\<lambda>s. None), env_double_click = False,
     env_adapter_ok = True\<rparr>"

definition demo_results :: "(int \<times> byte_buf option) list" where
  "demo_results = [(SHORT_K, None), (OPT_SHORTCUT_MOD, Some (lit ''lctrl,rsuper'')), (SHORT_r, Some (lit ''file.mkv'')),
     (OPT_NO_AUDIO, None)]"

definition cli_outcome :: "(int \<times> byte_buf option) list \<Rightarrow> (scrcpy_options \<Rightarrow> 'a) \<Rightarrow> (bool \<times> 'a) option" where
  "cli_outcome results f = map_option (\<lambda>(ok, a). (ok, f (a_opts a))) (scrcpy_parse_args demo_cli_env results False [] initial_args)"

lemma demo_returned: "\<forall>r \<in> set demo_results. getopt_returns r"
proof -
  have "(SHORT_K, No_argument) \<in> set getopt_values" "(OPT_SHORTCUT_MOD, Required_argument) \<in> set getopt_values"
    "(SHORT_r, Required_argument) \<in> set getopt_values" "(OPT_NO_AUDIO, No_argument) \<in> set getopt_values"
    unfolding getopt_values_def options_def by (simp_all add: create_longopt_def)
  moreover have "getopt_returns (c, arg)" if "(c, h) \<in> set getopt_values" "argument_as h arg" for c h arg
    using that unfolding getopt_returns_def by blast
  ultimately show ?thesis unfolding demo_results_def list.set ball_simps by (simp del: argument_as.simps) (meson argument_as.simps option.discI)
qed

lemma demo_mods: "\<forall>(c, arg) \<in> set demo_results. \<not> (c = OPT_SHORTCUT_MOD \<and> empty_mod arg)"
proof -
  have "parse_shortcut_mods (lit ''lctrl,rsuper'') \<noteq> None" by code_simp
  then have "\<not> empty_mod (Some (lit ''lctrl,rsuper''))"
    unfolding parse_shortcut_mods_def empty_mod_def by (auto simp: mods_loop_items mods_loop_step(1) [of "[]", simplified])
  then show ?thesis by (simp add: demo_results_def)
qed

theorem command_line_safe_witness:
  "\<exists>ok a. scrcpy_parse_args demo_cli_env demo_results False [] initial_args = Some (ok, a) \<and>
    a_pause_on_exit a \<noteq> SC_PAUSE_ON_EXIT_UNDEFINED"
  by (rule command_line_safe [OF demo_returned demo_mods]) (simp add: demo_cli_env_def)

theorem accepted_options_consistent_witness:
  "\<exists>a. scrcpy_parse_args demo_cli_env demo_results False [] initial_args = Some (True, a) \<and>
     options_consistent demo_cli_env (a_opts a)"
proof -
  have "map_option fst (scrcpy_parse_args demo_cli_env demo_results False [] initial_args) = Some True" by code_simp
  then obtain a where "scrcpy_parse_args demo_cli_env demo_results False [] initial_args = Some (True, a)" by auto
  with accepted_options_consistent [OF demo_returned demo_mods this] show ?thesis by blast
qed

text \<open>The exception: an empty item aborts the program.\<close>

lemma empty_mod_aborts: "cli_outcome [(OPT_SHORTCUT_MOD, Some (lit '',lctrl''))] o_otg = None"
  by code_simp

text \<open>In OTG mode with the camera as source all inputs are disabled after the test that refuses this.\<close>

lemma otg_without_inputs:
  "cli_outcome [(OPT_OTG, None), (OPT_VIDEO_SOURCE, Some (lit ''camera'')), (OPT_KEYBOARD, Some (lit ''aoa'')),
     (OPT_MOUSE, Some (lit ''aoa''))] (\<lambda>opts. (o_otg opts, inputs_disabled opts)) = Some (True, True, True)"
  by code_simp

text \<open>Two of the camera options are accepted without a camera.\<close>

lemma torch_without_camera:
  "cli_outcome [(OPT_CAMERA_TORCH, None), (OPT_CAMERA_ZOOM, Some (lit ''2''))]
     (\<lambda>opts. (o_video_source opts, o_camera_torch opts, o_camera_zoom opts)) =
   Some (True, SC_VIDEO_SOURCE_DISPLAY, True, Some (lit ''2''))"
  by code_simp

text \<open>Without playback the video is disabled after the test that cancels powering on.\<close>

lemma power_on_without_video:
  "cli_outcome [(SHORT_N, None)] (\<lambda>opts. (o_video opts, o_power_on opts)) = Some (True, False, True)"
  by code_simp

end
