(* ===== verification/Spec2Isabelle.thy ===== *)
theory Spec2Isabelle
  imports ServerReader Controller Receiver StrText StrParse AudioRegulator HidDescriptor Uhid KeyboardSdk
    MouseSdk InputStreams Demuxer Recording CliArgs
begin

text \<open>
  Verification of the client of droidctl (the C program under \<^verbatim>\<open>app/src\<close>): it starts a server on an Android
  device, receives its video and audio streams and its device messages, and sends it control messages. Where
  the two sides must agree, the Java code of the server (\<^verbatim>\<open>server/src\<close>) is modelled too.

  \<^bold>\<open>How the program works.\<close> Input events of SDL reach the screen and the input manager, which hand them to
  a key, mouse or gamepad processor. A processor turns an event into control messages, either injection
  messages (the SDK processors) or HID reports (the UHID processors, over the HID generators). The
  controller queues the messages in a ring buffer; its thread serialises them to the control socket, where
  the server reads them. In the other direction the receiver parses device messages and posts tasks. A
  demuxer thread per stream cuts the media stream into packets for its sinks; the decoder, a sink of packets,
  is a source of frames for the screen, which hands them to the main thread.

  \<^bold>\<open>Conventions.\<close> See \<open>Prelude\<close>. A C function is a function of the same name. The result \<open>None\<close> is a failed
  assertion, an access outside a buffer, a division by zero or a read of uninitialised memory; errors the code
  handles are values under \<open>Some\<close>. Integers keep their width as words wherever they can wrap. The outcome of
  an allocation, of a system call, of SDL or of FFmpeg is an argument. Threads are interleaved steps, at the
  granularity of the critical sections and atomic accesses.

  \<^bold>\<open>Theories and what they show.\<close>
  \<^item> \<open>Binary\<close> (\<^verbatim>\<open>util/binary.h\<close>), \<open>Str\<close>, \<open>StrText\<close>, \<open>StrParse\<close> (\<^verbatim>\<open>util/str.c\<close>), \<open>Strbuf\<close> (\<^verbatim>\<open>util/strbuf.c\<close>):
    encodings with round trips and precision bounds; string functions stay in their buffers and meet their
    specification; parsers read back what is printed and refuse what is out of range.
  \<^item> \<open>ControlMsg\<close> (\<^verbatim>\<open>control_msg.c\<close>) and \<open>ServerReader\<close> (\<^verbatim>\<open>ControlMessageReader.java\<close>): serialisation stays in the
    buffer and gives the wire format; the server reads back every message.
  \<^item> \<open>QueueSpec\<close>, a locale for FIFO queues, and \<open>Vecdeque\<close> (\<^verbatim>\<open>util/vecdeque.h\<close>), which interprets it: the ring
    buffer refines a list.
  \<^item> \<open>Controller\<close> (\<^verbatim>\<open>controller.c\<close>): a step system of the API calls and the thread; no abort, FIFO order, no lost
    wake-up, drop policy, coalesced resize requests, progress. The first section below composes it with the
    serialiser and the server.
  \<^item> \<open>DeviceMsg\<close> (\<^verbatim>\<open>device_msg.c\<close>, \<^verbatim>\<open>DeviceMessageWriter.java\<close>), \<open>Receiver\<close> (\<^verbatim>\<open>receiver.c\<close>), \<open>Acksync\<close>
    (\<^verbatim>\<open>util/acksync.c\<close>): the receiver delivers the messages the server wrote however the stream is cut, and
    accounts for every buffer; waiting for an acknowledgement decides correctly.
  \<^item> \<open>InputEvents\<close> (\<^verbatim>\<open>input_events.h\<close>, \<^verbatim>\<open>hid/hid_event.h\<close>), \<open>HidKeyboard\<close>, \<open>HidMouse\<close>, \<open>HidGamepad\<close> (\<^verbatim>\<open>hid/\<close>): the
    reports describe the state of the device, and \<open>HidDescriptor\<close> reads them back by the descriptors sent to the device.
    \<open>Uhid\<close> (\<^verbatim>\<open>uhid/\<close>): the messages of the simulated devices follow the protocol of the server.
  \<^item> \<open>KeyTables\<close>, \<open>KeyboardSdk\<close> (\<^verbatim>\<open>keyboard_sdk.c\<close>, \<^verbatim>\<open>util/intmap.c\<close>), \<open>MouseSdk\<close> (\<^verbatim>\<open>mouse_sdk.c\<close>): what typing
    injects and when it is once, repetitions are counted, mouse messages form a consistent stream.
  \<^item> \<open>Orientation\<close> (\<^verbatim>\<open>options.c\<close>), \<open>ScreenGeometry\<close>, \<open>ScreenWindow\<close> (\<^verbatim>\<open>screen.c\<close>): orientations compose as
    transformations; the optimal window size; window coordinates convert to the pixel shown there, or to the next one
    along a mirrored axis; the window follows the content until the disconnection, and aborts exactly on the events listed.
  \<^item> \<open>Traits\<close> (\<^verbatim>\<open>trait/\<close>), with the locales \<open>stream_sink\<close> and \<open>packet_stream_sink\<close>, the contract of a sink;
    \<open>Media\<close> (\<^verbatim>\<open>frame_buffer.c\<close>), \<open>ScreenSink\<close> (\<^verbatim>\<open>screen.c\<close>), \<open>Decoder\<close> (\<^verbatim>\<open>decoder.c\<close>), \<open>Demuxer\<close>
    (\<^verbatim>\<open>demuxer.c\<close>, \<^verbatim>\<open>packet_merger.c\<close>): the screen is interpreted as a sink, the decoder turns sinks of frames into
    a sink of packets (\<open>sublocale\<close>), and the demuxer is proved over any such sinks; together the whole video
    pipeline is safe on any input, but a codec id that is not of a video, and what the server writes is delivered.
  \<^item> \<open>InputManager\<close> (\<^verbatim>\<open>input_manager.c\<close>), \<open>InputDispatch\<close> and \<open>InputStreams\<close>: every event is handled without
    failing, except a turn of the wheel with a keyboard and no mouse; shortcuts are not forwarded, the virtual finger makes complete gestures, a paste waits for its own clipboard request, and
    with the SDK mouse the events of a physical mouse reach the device consistently.
  \<^item> \<open>Recorder\<close> (\<^verbatim>\<open>recorder.c\<close>) and \<open>Recording\<close>: the recorder under every interleaving of its four threads; it fails exactly
    when a sink is opened without the output file, and a recording that succeeds is complete and in order.
  \<^item> \<open>Regulator\<close> (\<^verbatim>\<open>clock.c\<close>, \<^verbatim>\<open>util/average.c\<close>, \<^verbatim>\<open>video_regulator.c\<close>): the estimated clock stays among the offsets
    observed; delayed frames stay in order and are not released early, as long as frames can be allocated.
  \<^item> \<open>Audiobuf\<close> (\<^verbatim>\<open>util/audiobuf.c\<close>): the lock-free ring buffer under every interleaving of one writer and one
    reader. \<open>AudioRegulator\<close> (\<^verbatim>\<open>audio_regulator.c\<close>, \<^verbatim>\<open>audio_player.c\<close>): samples are never reordered, the latency is
    bounded, and the player is given what it asks for.
  \<^item> \<open>AdbParser\<close> (\<^verbatim>\<open>adb/adb_parser.c\<close>, \<^verbatim>\<open>adb/adb_device.c\<close>) and \<open>Adb\<close> (\<^verbatim>\<open>adb/adb.c\<close>, \<^verbatim>\<open>adb/adb_tunnel.c\<close>): what adb
    lists is read back, a device is chosen only if the choice is unambiguous, no tunnel is left behind.
  \<^item> \<open>Options\<close> (\<^verbatim>\<open>options.c\<close>, \<^verbatim>\<open>options.h\<close>) and, for \<^verbatim>\<open>cli.c\<close>, \<open>CliParse\<close> (the argument parsers), \<open>CliTable\<close> (the table given
    to \<^verbatim>\<open>getopt_long\<close>), \<open>Cli\<close> (the switch and the checks), \<open>CliChecks\<close>, \<open>CliSafety\<close> and \<open>CliArgs\<close> (what each check leaves,
    what the switch stores, and the results): parsing does not abort, but for one case, and what is accepted is
    consistent.

  \<^bold>\<open>Bounds and fuel.\<close> \<open>sc_controller_destroy\<close> takes the number of queued messages as fuel, which is proved
  to be enough; the receive loops take the list of reads and the demuxer the length of its stream. All other
  loops are structural or have a termination proof. Limits of the code (60 queued messages, 256 KiB buffers,
  eight gamepads, two sinks) are the constants of the source.

  \<^bold>\<open>Floats.\<close> Floats are rationals. Where an operation can round, the definition applies a parameter \<open>rnd\<close>, of
  which the theorems assume what IEEE single precision guarantees.

  \<^bold>\<open>Not modelled.\<close> The help texts of \<^verbatim>\<open>cli.c\<close>, the server launcher (\<^verbatim>\<open>server.c\<close>), AOA over
  USB (\<^verbatim>\<open>usb/\<close>) and the top level (\<^verbatim>\<open>scrcpy.c\<close>). Drawing, image files, system wrappers and the calls into SDL, FFmpeg,
  libusb and the operating system are outside the model. Of the Java and Kotlin code only the peers of the
  protocols are modelled.
\<close>

section \<open>From the controller queue to the server\<close>

text \<open>C4. End to end: whenever the controller thread is between two messages, the server's reader, applied
  to all the bytes sent so far, finds exactly the messages the thread has taken from the queue (and the
  resize requests), each once and in order, as the server represents them, and nothing is left over.\<close>

theorem controller_to_server:
  assumes "ctl_reach s y" "ctl_thread y = Checking \<or> ctl_thread y = Waiting"
  shows "server_reads (length (taken y)) (socket y) = Some (map as_server (taken y), [])"
proof -
  from ctl_reach_inv [OF assms(1)] assms(2)
  have "socket y = wire (taken y)" "\<forall>m \<in> set (taken y). wf_control_msg m"
    by (auto simp: ctl_inv_def)
  with server_reads_wire [of "taken y" "[]"] show ?thesis by simp
qed

theorem controller_to_server_witness:
  "\<exists>y. ctl_reach 128 y \<and> ctl_thread y = Checking \<and> taken y = [COLLAPSE_PANELS] \<and> socket y = [7] \<and>
       server_reads 1 (socket y) = Some ([as_server COLLAPSE_PANELS], [])"
proof -
  from push_fresh obtain y where y: "ctl_step 128 (Push True COLLAPSE_PANELS) fresh_system = Some y"
    "ctl_thread y = Checking" "\<not> ctl_stopped (ctl y)" "resize_width (ctl y) = 0"
    "vd_contents (ctl_queue (ctl y)) = [COLLAPSE_PANELS]" "socket y = []" "taken y = []"
    by (simp add: vd_contents_def)
  then have r: "ctl_reach 128 y"
    using ctl_reach.step [OF reach_fresh, of "Push True COLLAPSE_PANELS"] by simp
  from progress_step [OF ctl_reach_inv [OF r] y(2-5)] obtain y1 y2 where
    y2: "ctl_step 128 Check y = Some y1"
    "ctl_step 128 (Process (int (length (control_msg_bytes COLLAPSE_PANELS)))) y1 = Some y2"
    "socket y2 = [7]" "ctl_thread y2 = Checking" "taken y2 = [COLLAPSE_PANELS]"
    using y(6,7) by (auto simp: control_msg_bytes_def)
  have "ctl_reach 128 y2" using ctl_reach.step [OF ctl_reach.step [OF r _ y2(1)] _ y2(2)] by simp
  with controller_to_server [OF this] y2 show ?thesis by auto
qed

end
